(* ===== verification/AV_Prelude.thy ===== *)
theory AV_Prelude
  imports Complex_Main "HOL-Library.Word" "HOL-Library.Code_Target_Nat"
begin

unbundle bit_operations_syntax

section \<open>Shared types, automation and lemmas\<close>

text \<open>
  The types every component shares (machine integers at their width, byte buffers), the buffer
  operations the C++ code performs through \<^verbatim>\<open>memcpy\<close>, \<^verbatim>\<open>resize\<close> and
  pointer arithmetic, the little-endian image of an integer in memory (the packed structs of the
  wire protocols are copied as they are, on little-endian hosts), and the collections of
  facts the component theories hand to the simplifier.
\<close>

named_theorems av_defs \<open>definitions unfolded when an operation is executed symbolically\<close>
named_theorems codec \<open>lengths and round trips of encoders and decoders\<close>

type_synonym u8 = "8 word"
type_synonym u16 = "16 word"
type_synonym u32 = "32 word"
type_synonym u64 = "64 word"
type_synonym bytes = "u8 list"

subsection \<open>Buffers\<close>

text \<open>\<open>slice off n xs\<close> is the block of \<open>n\<close> elements at offset \<open>off\<close>; \<open>write_at off ys xs\<close> is
  \<^verbatim>\<open>memcpy(xs + off, ys, size(ys))\<close>; \<open>resize\<close> is \<^verbatim>\<open>std::vector::resize\<close>.\<close>

definition slice :: "nat \<Rightarrow> nat \<Rightarrow> 'a list \<Rightarrow> 'a list" where
  "slice off n xs = take n (drop off xs)"

definition write_at :: "nat \<Rightarrow> 'a list \<Rightarrow> 'a list \<Rightarrow> 'a list" where
  "write_at off ys xs = take off xs @ ys @ drop (off + length ys) xs"

definition resize :: "nat \<Rightarrow> 'a \<Rightarrow> 'a list \<Rightarrow> 'a list" where
  "resize n x xs = take n xs @ replicate (n - length xs) x"

lemma length_slice [simp]: "length (slice off n xs) = min n (length xs - off)"
  by (simp add: slice_def)

lemma nth_slice [simp]: "i < n \<Longrightarrow> off + i < length xs \<Longrightarrow> slice off n xs ! i = xs ! (off + i)"
  by (simp add: slice_def)

lemma slice_all: "slice 0 (length xs) xs = xs"
  by (simp add: slice_def)

lemma slice_append_left: "off + n \<le> length xs \<Longrightarrow> slice off n (xs @ ys) = slice off n xs"
  by (simp add: slice_def)

lemma slice_append_right: "length xs \<le> off \<Longrightarrow> slice off n (xs @ ys) = slice (off - length xs) n ys"
  by (simp add: slice_def)

lemma slice_append_mid [simp]: "slice (length xs) (length ys) (xs @ ys @ zs) = ys"
  by (simp add: slice_def)

lemma slice_take_drop: "off + n \<le> length xs \<Longrightarrow> xs = take off xs @ slice off n xs @ drop (off + n) xs"
  unfolding slice_def by (metis append_take_drop_id add.commute drop_drop)

lemma slice_adjacent: "slice off m xs @ slice (off + m) n xs = slice off (m + n) xs"
  unfolding slice_def by (metis add.commute drop_drop take_add)

lemma length_write_at [simp]: "off + length ys \<le> length xs \<Longrightarrow> length (write_at off ys xs) = length xs"
  by (simp add: write_at_def)

lemma slice_write_at_same: "off + length ys \<le> length xs \<Longrightarrow> slice off (length ys) (write_at off ys xs) = ys"
  by (simp add: slice_def write_at_def)

lemma nth_write_at:
  assumes "off + length ys \<le> length xs" "i < length xs"
  shows "write_at off ys xs ! i = (if off \<le> i \<and> i < off + length ys then ys ! (i - off) else xs ! i)"
  using assms by (auto simp: write_at_def nth_append)

lemma slice_write_at_other:
  assumes "off + length ys \<le> length xs" "a + n \<le> off \<or> off + length ys \<le> a" "a + n \<le> length xs"
  shows "slice a n (write_at off ys xs) = slice a n xs"
  using assms by (intro nth_equalityI) (auto simp: nth_write_at)

lemma length_resize [simp]: "length (resize n x xs) = n"
  by (simp add: resize_def)

lemma resize_length [simp]: "resize (length xs) x xs = xs"
  by (simp add: resize_def)

text \<open>The last \<open>m\<close> elements, what a window that forgets its oldest element keeps.\<close>

definition last_n :: "nat \<Rightarrow> 'a list \<Rightarrow> 'a list" where
  "last_n m xs = drop (length xs - m) xs"

lemma length_last_n [simp]: "length (last_n m xs) = min (length xs) m"
  by (simp add: last_n_def)

lemma last_n_short [simp]: "length xs \<le> m \<Longrightarrow> last_n m xs = xs"
  by (simp add: last_n_def)

lemma last_n_append [simp]: "last_n m (last_n m xs @ ys) = last_n m (xs @ ys)"
proof (cases "length xs \<le> m")
  case False
  then have "last_n m xs @ ys = drop (length xs - m) (xs @ ys)" by (simp add: last_n_def)
  then show ?thesis using False by (simp add: last_n_def add.commute)
qed simp

lemma set_last_n: "set (last_n m xs) \<subseteq> set xs"
  by (simp add: last_n_def set_drop_subset)

subsection \<open>Integers in memory\<close>

text \<open>The \<open>n\<close> bytes of an integer, least significant first, and back.\<close>

definition le_put :: "nat \<Rightarrow> 'a::len word \<Rightarrow> bytes" where
  "le_put n w = map (\<lambda>i. ucast (drop_bit (8 * i) w)) [0..<n]"

definition le_get :: "bytes \<Rightarrow> 'a::len word" where
  "le_get bs = foldr (\<lambda>b acc. ucast b OR push_bit 8 acc) bs 0"

lemma length_le_put [simp, codec]: "length (le_put n w) = n"
  by (simp add: le_put_def)

lemma le_get_Nil [simp]: "le_get [] = 0"
  by (simp add: le_get_def)

lemma le_get_Cons [simp]: "le_get (b # bs) = ucast b OR push_bit 8 (le_get bs)"
  by (simp add: le_get_def)

lemma bit_le_get:
  "bit (le_get bs :: 'a::len word) k \<longleftrightarrow>
     k < LENGTH('a) \<and> k div 8 < length bs \<and> bit (bs ! (k div 8)) (k mod 8)"
proof (induction bs arbitrary: k)
  case Nil
  then show ?case by simp
next
  case (Cons b bs)
  show ?case
  proof (cases "k < 8")
    case True
    then show ?thesis by (auto simp: bit_simps)
  next
    case False
    then obtain j where j: "k = j + 8" by (metis add.commute le_Suc_ex not_less)
    have "\<not> bit b k" using False bit_imp_le_length [of b k] by auto
    then show ?thesis using Cons.IH [of j] by (auto simp: bit_simps j)
  qed
qed

lemma bit_le_put_nth: "i < n \<Longrightarrow> bit (le_put n w ! i) k \<longleftrightarrow> k < 8 \<and> bit w (8 * i + k)"
  by (simp add: le_put_def bit_simps)

lemma le_get_put [simp, codec]:
  assumes "LENGTH('a) \<le> 8 * n"
  shows "le_get (le_put n (w :: 'a::len word)) = w"
proof (rule bit_eqI)
  fix k assume "possible_bit TYPE('a word) k"
  then have "k < LENGTH('a)" by simp
  then have "k div 8 < n" using assms by linarith
  then show "bit (le_get (le_put n w) :: 'a word) k = bit w k"
    using \<open>k < LENGTH('a)\<close> by (simp add: bit_le_get bit_le_put_nth)
qed

lemma le_put_get:
  assumes "8 * length bs \<le> LENGTH('a::len)"
  shows "le_put (length bs) (le_get bs :: 'a word) = bs"
proof (rule nth_equalityI)
  fix i assume i: "i < length (le_put (length bs) (le_get bs :: 'a word))"
  show "le_put (length bs) (le_get bs :: 'a word) ! i = bs ! i"
  proof (rule bit_eqI)
    fix k assume "possible_bit TYPE(8 word) k"
    then show "bit (le_put (length bs) (le_get bs :: 'a word) ! i) k = bit (bs ! i) k"
      using i assms by (simp add: bit_le_put_nth bit_le_get)
  qed
qed simp

subsection \<open>Conversions between widths\<close>

lemma unat_ucast_up:
  assumes "LENGTH('a) \<le> LENGTH('b)"
  shows "unat (ucast (w :: 'a::len word) :: 'b::len word) = unat w"
proof -
  have "unat w < 2 ^ LENGTH('a)" by (rule unsigned_less)
  also have "(2 :: nat) ^ LENGTH('a) \<le> 2 ^ LENGTH('b)" using assms by simp
  finally show ?thesis by (simp add: unsigned_ucast_eq take_bit_nat_eq_self)
qed

lemma unat_less_pow: "LENGTH('a) = n \<Longrightarrow> unat (w :: 'a::len word) < 2 ^ n"
  using unsigned_less [of w] by simp

lemma unat_of_nat_small: "n < 2 ^ LENGTH('a) \<Longrightarrow> unat (of_nat n :: 'a::len word) = n"
  by (simp add: unsigned_of_nat take_bit_nat_eq_self)

subsection \<open>Arithmetic of C++\<close>

text \<open>Division of \<^verbatim>\<open>int\<close> truncates towards zero.\<close>

definition tdiv :: "int \<Rightarrow> int \<Rightarrow> int" where
  "tdiv a b = sgn a * sgn b * (\<bar>a\<bar> div \<bar>b\<bar>)"

lemma tdiv_nonneg: "0 \<le> a \<Longrightarrow> 0 < b \<Longrightarrow> tdiv a b = a div b"
  by (cases "a = 0") (simp_all add: tdiv_def)

text \<open>Conversion of a non-negative \<^verbatim>\<open>double\<close> to \<^verbatim>\<open>uint64_t\<close> drops the fraction.\<close>

definition trunc_u64 :: "real \<Rightarrow> u64" where
  "trunc_u64 x = of_nat (nat \<lfloor>x\<rfloor>)"

text \<open>Milliseconds of the configuration, clamped at zero, in nanoseconds:
  \<^verbatim>\<open>static_cast<uint64_t>(std::max(ms, 0)) * 1000ULL * 1000ULL\<close>.\<close>

definition ms_to_ns :: "int \<Rightarrow> u64" where
  "ms_to_ns ms = of_int (max ms 0) * 1000 * 1000"

end
