(* ===== verification/Stream_Protocol.thy ===== *)
theory Stream_Protocol
  imports AV_Prelude
begin

section \<open>The packed structs of the TCP/UDP stream protocol\<close>

text \<open>
  \<^verbatim>\<open>sserver/src/common/net/StreamProtocol.h\<close> and its client twin
  \<^verbatim>\<open>sclient/src/common/protocol/Protocol.h\<close>: the message header, the frame metadata, the UDP
  fragment header, the receiver report and the NACK request, with their in-memory images
  (\<^verbatim>\<open>#pragma pack(1)\<close>, little-endian hosts, copied by \<^verbatim>\<open>memcpy\<close> on both sides). The three
  \<^verbatim>\<open>double\<close> fields of the receiver report are carried as their 64-bit patterns, which is
  what the \<^verbatim>\<open>memcpy\<close> moves. The fixed-size codecs share one contract, the locale
  \<open>packed_struct\<close>, interpreted on each of them.
\<close>

subsection \<open>Message types and magic\<close>

datatype MessageType = kKeepAlive | kAvStream | kUdpNack

fun MessageType_code :: "MessageType \<Rightarrow> u16" where
  "MessageType_code kKeepAlive = 0"
| "MessageType_code kAvStream = 1"
| "MessageType_code kUdpNack = 2"

datatype UdpFragmentRole = kData | kXorParity

fun UdpFragmentRole_code :: "UdpFragmentRole \<Rightarrow> u16" where
  "UdpFragmentRole_code kData = 0"
| "UdpFragmentRole_code kXorParity = 1"

type_synonym magic = "u8 \<times> u8 \<times> u8 \<times> u8"

definition kMessageMagic :: magic where
  "kMessageMagic = (0x43, 0x43, 0x54, 0x43)"  \<comment> \<open>\<^verbatim>\<open>{'C', 'C', 'T', 'C'}\<close>\<close>

subsection \<open>The structs\<close>

record MessageHeader =
  mh_head_id :: magic
  mh_message_type :: u16
  mh_sub_type :: u16
  mh_payload_length :: u32

record FrameDiagnosticMetadata =
  md_sequence :: u64
  md_capture_timestamp_ns :: u64
  md_encode_start_timestamp_ns :: u64
  md_encode_end_timestamp_ns :: u64
  md_transport_send_timestamp_ns :: u64

record UdpFrameFragmentHeader =
  fh_frame_sequence :: u64
  fh_capture_timestamp_ns :: u64
  fh_encode_start_timestamp_ns :: u64
  fh_encode_end_timestamp_ns :: u64
  fh_transport_send_timestamp_ns :: u64
  fh_frame_payload_size :: u32
  fh_fragment_offset :: u32
  fh_fragment_index :: u16
  fh_fragment_count :: u16
  fh_fragment_role :: u16
  fh_reserved :: u16

record UdpReceiverReport =
  rr_report_timestamp_ns :: u64
  rr_datagrams_received :: u64
  rr_invalid_datagrams :: u64
  rr_fragments_received :: u64
  rr_duplicate_fragments :: u64
  rr_timed_out_fragments :: u64
  rr_timed_out_frames :: u64
  rr_completed_frames :: u64
  rr_reordered_frames :: u64
  rr_jitter_samples :: u64
  rr_jitter_last_ms :: u64
  rr_jitter_avg_ms :: u64
  rr_jitter_max_ms :: u64

record UdpNackHeader =
  nh_request_timestamp_ns :: u64
  nh_request_count :: u16
  nh_reserved :: u16

record UdpNackItem =
  ni_frame_sequence :: u64
  ni_fragment_index :: u16
  ni_reserved :: u16

definition HasValidMessageMagic :: "MessageHeader \<Rightarrow> bool" where
  "HasValidMessageMagic header \<longleftrightarrow> mh_head_id header = kMessageMagic"

definition FillMessageMagic :: "MessageHeader \<Rightarrow> MessageHeader" where
  "FillMessageMagic header = header\<lparr>mh_head_id := kMessageMagic\<rparr>"

text \<open>A value-initialised header, \<^verbatim>\<open>MessageHeader header{}\<close>.\<close>

definition MessageHeader_zero :: MessageHeader where
  "MessageHeader_zero = \<lparr>mh_head_id = (0, 0, 0, 0), mh_message_type = 0, mh_sub_type = 0, mh_payload_length = 0\<rparr>"

definition FrameDiagnosticMetadata_zero :: FrameDiagnosticMetadata where
  "FrameDiagnosticMetadata_zero =
     \<lparr>md_sequence = 0, md_capture_timestamp_ns = 0, md_encode_start_timestamp_ns = 0,
      md_encode_end_timestamp_ns = 0, md_transport_send_timestamp_ns = 0\<rparr>"

subsection \<open>Their images in memory\<close>

abbreviation sizeof_MessageHeader :: nat where "sizeof_MessageHeader \<equiv> 12"
abbreviation sizeof_FrameDiagnosticMetadata :: nat where "sizeof_FrameDiagnosticMetadata \<equiv> 40"
abbreviation sizeof_UdpFrameFragmentHeader :: nat where "sizeof_UdpFrameFragmentHeader \<equiv> 56"
abbreviation sizeof_UdpReceiverReport :: nat where "sizeof_UdpReceiverReport \<equiv> 104"
abbreviation sizeof_UdpNackHeader :: nat where "sizeof_UdpNackHeader \<equiv> 12"
abbreviation sizeof_UdpNackItem :: nat where "sizeof_UdpNackItem \<equiv> 12"

definition put_magic :: "magic \<Rightarrow> bytes" where
  "put_magic m = (case m of (a, b, c, d) \<Rightarrow> [a, b, c, d])"

definition get_magic :: "bytes \<Rightarrow> magic" where
  "get_magic bs = (bs ! 0, bs ! 1, bs ! 2, bs ! 3)"

definition put_MessageHeader :: "MessageHeader \<Rightarrow> bytes" where
  "put_MessageHeader h =
     put_magic (mh_head_id h) @ le_put 2 (mh_message_type h) @ le_put 2 (mh_sub_type h)
     @ le_put 4 (mh_payload_length h)"

definition get_MessageHeader :: "bytes \<Rightarrow> MessageHeader" where
  "get_MessageHeader bs =
     \<lparr>mh_head_id = get_magic (slice 0 4 bs), mh_message_type = le_get (slice 4 2 bs),
      mh_sub_type = le_get (slice 6 2 bs), mh_payload_length = le_get (slice 8 4 bs)\<rparr>"

definition put_FrameDiagnosticMetadata :: "FrameDiagnosticMetadata \<Rightarrow> bytes" where
  "put_FrameDiagnosticMetadata m =
     le_put 8 (md_sequence m) @ le_put 8 (md_capture_timestamp_ns m)
     @ le_put 8 (md_encode_start_timestamp_ns m) @ le_put 8 (md_encode_end_timestamp_ns m)
     @ le_put 8 (md_transport_send_timestamp_ns m)"

definition get_FrameDiagnosticMetadata :: "bytes \<Rightarrow> FrameDiagnosticMetadata" where
  "get_FrameDiagnosticMetadata bs =
     \<lparr>md_sequence = le_get (slice 0 8 bs), md_capture_timestamp_ns = le_get (slice 8 8 bs),
      md_encode_start_timestamp_ns = le_get (slice 16 8 bs),
      md_encode_end_timestamp_ns = le_get (slice 24 8 bs),
      md_transport_send_timestamp_ns = le_get (slice 32 8 bs)\<rparr>"

definition put_UdpFrameFragmentHeader :: "UdpFrameFragmentHeader \<Rightarrow> bytes" where
  "put_UdpFrameFragmentHeader h =
     le_put 8 (fh_frame_sequence h) @ le_put 8 (fh_capture_timestamp_ns h)
     @ le_put 8 (fh_encode_start_timestamp_ns h) @ le_put 8 (fh_encode_end_timestamp_ns h)
     @ le_put 8 (fh_transport_send_timestamp_ns h) @ le_put 4 (fh_frame_payload_size h)
     @ le_put 4 (fh_fragment_offset h) @ le_put 2 (fh_fragment_index h)
     @ le_put 2 (fh_fragment_count h) @ le_put 2 (fh_fragment_role h) @ le_put 2 (fh_reserved h)"

definition get_UdpFrameFragmentHeader :: "bytes \<Rightarrow> UdpFrameFragmentHeader" where
  "get_UdpFrameFragmentHeader bs =
     \<lparr>fh_frame_sequence = le_get (slice 0 8 bs), fh_capture_timestamp_ns = le_get (slice 8 8 bs),
      fh_encode_start_timestamp_ns = le_get (slice 16 8 bs),
      fh_encode_end_timestamp_ns = le_get (slice 24 8 bs),
      fh_transport_send_timestamp_ns = le_get (slice 32 8 bs),
      fh_frame_payload_size = le_get (slice 40 4 bs), fh_fragment_offset = le_get (slice 44 4 bs),
      fh_fragment_index = le_get (slice 48 2 bs), fh_fragment_count = le_get (slice 50 2 bs),
      fh_fragment_role = le_get (slice 52 2 bs), fh_reserved = le_get (slice 54 2 bs)\<rparr>"

definition put_UdpReceiverReport :: "UdpReceiverReport \<Rightarrow> bytes" where
  "put_UdpReceiverReport r =
     le_put 8 (rr_report_timestamp_ns r) @ le_put 8 (rr_datagrams_received r)
     @ le_put 8 (rr_invalid_datagrams r) @ le_put 8 (rr_fragments_received r)
     @ le_put 8 (rr_duplicate_fragments r) @ le_put 8 (rr_timed_out_fragments r)
     @ le_put 8 (rr_timed_out_frames r) @ le_put 8 (rr_completed_frames r)
     @ le_put 8 (rr_reordered_frames r) @ le_put 8 (rr_jitter_samples r)
     @ le_put 8 (rr_jitter_last_ms r) @ le_put 8 (rr_jitter_avg_ms r) @ le_put 8 (rr_jitter_max_ms r)"

definition get_UdpReceiverReport :: "bytes \<Rightarrow> UdpReceiverReport" where
  "get_UdpReceiverReport bs =
     \<lparr>rr_report_timestamp_ns = le_get (slice 0 8 bs), rr_datagrams_received = le_get (slice 8 8 bs),
      rr_invalid_datagrams = le_get (slice 16 8 bs), rr_fragments_received = le_get (slice 24 8 bs),
      rr_duplicate_fragments = le_get (slice 32 8 bs), rr_timed_out_fragments = le_get (slice 40 8 bs),
      rr_timed_out_frames = le_get (slice 48 8 bs), rr_completed_frames = le_get (slice 56 8 bs),
      rr_reordered_frames = le_get (slice 64 8 bs), rr_jitter_samples = le_get (slice 72 8 bs),
      rr_jitter_last_ms = le_get (slice 80 8 bs), rr_jitter_avg_ms = le_get (slice 88 8 bs),
      rr_jitter_max_ms = le_get (slice 96 8 bs)\<rparr>"

definition put_UdpNackHeader :: "UdpNackHeader \<Rightarrow> bytes" where
  "put_UdpNackHeader h =
     le_put 8 (nh_request_timestamp_ns h) @ le_put 2 (nh_request_count h) @ le_put 2 (nh_reserved h)"

definition get_UdpNackHeader :: "bytes \<Rightarrow> UdpNackHeader" where
  "get_UdpNackHeader bs =
     \<lparr>nh_request_timestamp_ns = le_get (slice 0 8 bs), nh_request_count = le_get (slice 8 2 bs),
      nh_reserved = le_get (slice 10 2 bs)\<rparr>"

definition put_UdpNackItem :: "UdpNackItem \<Rightarrow> bytes" where
  "put_UdpNackItem i =
     le_put 8 (ni_frame_sequence i) @ le_put 2 (ni_fragment_index i) @ le_put 2 (ni_reserved i)"

definition get_UdpNackItem :: "bytes \<Rightarrow> UdpNackItem" where
  "get_UdpNackItem bs =
     \<lparr>ni_frame_sequence = le_get (slice 0 8 bs), ni_fragment_index = le_get (slice 8 2 bs),
      ni_reserved = le_get (slice 10 2 bs)\<rparr>"

lemmas put_defs [av_defs] =
  put_magic_def put_MessageHeader_def put_FrameDiagnosticMetadata_def put_UdpFrameFragmentHeader_def
  put_UdpReceiverReport_def put_UdpNackHeader_def put_UdpNackItem_def

lemmas get_defs [av_defs] =
  get_magic_def get_MessageHeader_def get_FrameDiagnosticMetadata_def get_UdpFrameFragmentHeader_def
  get_UdpReceiverReport_def get_UdpNackHeader_def get_UdpNackItem_def

lemma length_put_magic [simp]: "length (put_magic m) = 4"
  by (simp add: put_magic_def split: prod.splits)

lemma get_put_magic [simp]: "get_magic (put_magic m) = m"
  by (simp add: put_magic_def get_magic_def split: prod.splits)

subsection \<open>The contract of a fixed-size codec\<close>

locale packed_struct =
  fixes put :: "'r \<Rightarrow> bytes"
    and get :: "bytes \<Rightarrow> 'r"
    and size_of :: nat
  assumes length_put: "length (put r) = size_of"
    and get_put: "get (put r) = r"
begin

lemma put_inject: "put r = put s \<longleftrightarrow> r = s"
  by (metis get_put)

lemma get_at: "off = length pre \<Longrightarrow> get (slice off size_of (pre @ put r @ post)) = r"
  using slice_append_mid [of pre "put r" post] by (simp add: length_put get_put)

lemma get_front: "get (slice 0 size_of (put r @ post)) = r"
  using get_at [of 0 "[]" r post] by simp

lemma length_puts: "length (concat (map put rs)) = size_of * length rs"
  by (induction rs) (simp_all add: length_put)

text \<open>An array of structs, decoded element by element at its stride.\<close>

lemma gets_puts:
  "map (\<lambda>i. get (slice (i * size_of) size_of (concat (map put rs) @ post))) [0..<length rs] = rs"
proof (rule nth_equalityI)
  fix i assume "i < length (map (\<lambda>i. get (slice (i * size_of) size_of (concat (map put rs) @ post))) [0..<length rs])"
  then have i: "i < length rs" by simp
  have "concat (map put rs) = concat (map put (take i rs)) @ put (rs ! i) @ concat (map put (drop (Suc i) rs))"
    using i by (metis append_Cons append_Nil concat.simps(2) concat_append id_take_nth_drop list.simps(9) map_append)
  then have "get (slice (i * size_of) size_of (concat (map put rs) @ post)) = rs ! i"
    using i get_at [of "i * size_of" "concat (map put (take i rs))" "rs ! i"]
    by (simp add: length_puts mult.commute)
  with i show "map (\<lambda>i. get (slice (i * size_of) size_of (concat (map put rs) @ post))) [0..<length rs] ! i = rs ! i"
    by simp
qed simp

end

interpretation header_codec: packed_struct put_MessageHeader get_MessageHeader sizeof_MessageHeader
  by unfold_locales (simp_all add: put_MessageHeader_def get_MessageHeader_def slice_def)

interpretation metadata_codec: packed_struct put_FrameDiagnosticMetadata get_FrameDiagnosticMetadata
    sizeof_FrameDiagnosticMetadata
  by unfold_locales (simp_all add: put_FrameDiagnosticMetadata_def get_FrameDiagnosticMetadata_def slice_def)

interpretation fragment_codec: packed_struct put_UdpFrameFragmentHeader get_UdpFrameFragmentHeader
    sizeof_UdpFrameFragmentHeader
  by unfold_locales (simp_all add: put_UdpFrameFragmentHeader_def get_UdpFrameFragmentHeader_def slice_def)

interpretation report_codec: packed_struct put_UdpReceiverReport get_UdpReceiverReport
    sizeof_UdpReceiverReport
  by unfold_locales (simp_all add: put_UdpReceiverReport_def get_UdpReceiverReport_def slice_def)

interpretation nack_header_codec: packed_struct put_UdpNackHeader get_UdpNackHeader sizeof_UdpNackHeader
  by unfold_locales (simp_all add: put_UdpNackHeader_def get_UdpNackHeader_def slice_def)

interpretation nack_item_codec: packed_struct put_UdpNackItem get_UdpNackItem sizeof_UdpNackItem
  by unfold_locales (simp_all add: put_UdpNackItem_def get_UdpNackItem_def slice_def)

lemmas length_puts [simp] =
  header_codec.length_put metadata_codec.length_put fragment_codec.length_put
  report_codec.length_put nack_header_codec.length_put nack_item_codec.length_put

lemmas get_front [simp, codec] =
  header_codec.get_front metadata_codec.get_front fragment_codec.get_front
  report_codec.get_front nack_header_codec.get_front nack_item_codec.get_front

end
