(* ===== verification/Xor_Parity.thy ===== *)
theory Xor_Parity
  imports AV_Prelude
begin

section \<open>XOR parity\<close>

text \<open>
  \<^verbatim>\<open>XorInto\<close>, which the UDP sender builds the parity of a frame with
  (\<^verbatim>\<open>UdpStreamingBackend.cpp\<close>) and the receiver recovers a lost fragment with
  (\<^verbatim>\<open>StreamClientInternal.h\<close>); the two copies are the same function. A buffer is read as the
  infinite sequence of its bytes followed by zeros (\<open>byte_at\<close>), on which \<open>XorInto\<close> is pointwise.
\<close>

definition XorInto :: "bytes \<Rightarrow> bytes \<Rightarrow> bytes" where
  "XorInto target source =
     (if source = [] then target
      else
        let target = (if length target < length source then resize (length source) 0 target else target)
        in map2 (XOR) target source @ drop (length source) target)"

definition byte_at :: "bytes \<Rightarrow> nat \<Rightarrow> u8" where
  "byte_at xs i = (if i < length xs then xs ! i else 0)"

lemma length_XorInto [simp]: "length (XorInto target source) = max (length target) (length source)"
  by (auto simp: XorInto_def Let_def)

lemma byte_at_XorInto [simp]: "byte_at (XorInto target source) i = byte_at target i XOR byte_at source i"
proof (cases "source = []")
  case True
  then show ?thesis by (simp add: XorInto_def byte_at_def)
next
  case False
  let ?t = "if length target < length source then resize (length source) 0 target else target"
  have t: "byte_at ?t i = byte_at target i" "length source \<le> length ?t"
    by (auto simp: byte_at_def resize_def nth_append)
  have "byte_at (map2 (XOR) ?t source @ drop (length source) ?t) i = byte_at ?t i XOR byte_at source i"
    using t(2) by (simp add: byte_at_def nth_append)
  then show ?thesis using False t(1) by (simp add: XorInto_def Let_def)
qed

definition xor_all :: "u8 list \<Rightarrow> u8" where
  "xor_all xs = foldr (XOR) xs 0"

lemma xor_all_simps [simp]: "xor_all [] = 0" "xor_all (x # xs) = x XOR xor_all xs"
  by (simp_all add: xor_all_def)

lemma xor_all_append [simp]: "xor_all (xs @ ys) = xor_all xs XOR xor_all ys"
  by (induction xs) (simp_all add: xor.assoc)

lemma xor_self_left [simp]: "(a :: u8) XOR (a XOR b) = b"
  by (simp flip: xor.assoc)

lemma length_fold_XorInto: "length (fold (\<lambda>s t. XorInto t s) ss t) = fold (\<lambda>s n. max n (length s)) ss (length t)"
  by (induction ss arbitrary: t) simp_all

lemma byte_at_fold_XorInto:
  "byte_at (fold (\<lambda>s t. XorInto t s) ss t) i = byte_at t i XOR xor_all (map (\<lambda>s. byte_at s i) ss)"
  by (induction ss arbitrary: t) (simp_all add: xor.assoc)

text \<open>The parity of a list of blocks, what the sender computes.\<close>

definition parity_of :: "bytes list \<Rightarrow> bytes" where
  "parity_of blocks = fold (\<lambda>s t. XorInto t s) blocks []"

lemma byte_at_parity: "byte_at (parity_of blocks) i = xor_all (map (\<lambda>s. byte_at s i) blocks)"
  by (simp add: parity_of_def byte_at_fold_XorInto, simp add: byte_at_def)

lemma fold_max_lengths: "fold (\<lambda>s n. max n (length s)) ss n = Max (insert n (length ` set ss))"
proof (induction ss arbitrary: n)
  case (Cons s ss)
  have "Max (insert (max n (length s)) (length ` set ss)) = Max (insert n (insert (length s) (length ` set ss)))"
    by (cases "ss = []") (simp_all add: max.assoc)
  then show ?case using Cons.IH by simp
qed simp

lemma length_parity: "blocks \<noteq> [] \<Longrightarrow> length (parity_of blocks) = Max (length ` set blocks)"
  by (cases blocks) (simp_all add: parity_of_def length_fold_XorInto fold_max_lengths)

text \<open>From the parity and all blocks but one, the missing block.\<close>

lemma upt_split_at: "k < n \<Longrightarrow> [0..<n] = [0..<k] @ k # [Suc k..<n]"
  using upt_add_eq_append [of 0 k "n - k"] by (simp add: upt_conv_Cons)

lemma map_nth_upt_take: "k \<le> length xs \<Longrightarrow> map ((!) xs) [0..<k] = take k xs"
  by (rule nth_equalityI) simp_all

lemma map_nth_upt_drop: "map ((!) xs) [k..<length xs] = drop k xs"
  by (rule nth_equalityI) simp_all

lemma others_split:
  assumes "k < length xs"
  shows "map ((!) xs) (filter (\<lambda>i. i \<noteq> k) [0..<length xs]) = take k xs @ drop (Suc k) xs"
proof -
  have "filter (\<lambda>i. i \<noteq> k) [0..<length xs] = [0..<k] @ [Suc k..<length xs]"
    unfolding upt_split_at [OF assms] by (simp add: filter_id_conv)
  then show ?thesis
    using assms map_nth_upt_take [of k xs] map_nth_upt_drop [of xs "Suc k"] by simp
qed

lemma xor_all_missing:
  assumes "k < length xs"
  shows "xor_all xs XOR xor_all (take k xs @ drop (Suc k) xs) = xs ! k"
proof -
  have "xor_all xs = xor_all (take k xs @ xs ! k # drop (Suc k) xs)"
    using id_take_nth_drop [OF assms] by simp
  also have "\<dots> = xs ! k XOR xor_all (take k xs @ drop (Suc k) xs)"
    by (simp add: xor.left_commute)
  finally show ?thesis by (simp add: xor.assoc)
qed

lemma length_fold_ge: "length t \<le> length (fold (\<lambda>i t. XorInto t (f i)) js t)"
proof (induction js arbitrary: t)
  case (Cons j js)
  show ?case using Cons.IH [of "XorInto t (f j)"] by simp
qed simp

lemma recover_block:
  assumes "k < length blocks"
  shows "take (length (blocks ! k))
      (fold (\<lambda>i t. XorInto t (blocks ! i)) (filter (\<lambda>i. i \<noteq> k) [0..<length blocks]) (parity_of blocks)) = blocks ! k"
    (is "take ?n ?r = _")
proof -
  have fold_map: "fold (\<lambda>i t. XorInto t (blocks ! i)) js t = fold (\<lambda>s t. XorInto t s) (map ((!) blocks) js) t" for js t
    by (induction js arbitrary: t) simp_all
  have b: "byte_at ?r i = byte_at (blocks ! k) i" for i
  proof -
    let ?xs = "map (\<lambda>s. byte_at s i) blocks"
    have "byte_at ?r i = xor_all ?xs XOR xor_all (take k ?xs @ drop (Suc k) ?xs)"
      by (simp only: fold_map byte_at_fold_XorInto byte_at_parity others_split [OF assms] map_append take_map drop_map)
    then show ?thesis using xor_all_missing [of k ?xs] assms by simp
  qed
  have "?n \<le> length (parity_of blocks)" using assms by (subst length_parity) auto
  then have l: "?n \<le> length ?r" using length_fold_ge order_trans by blast
  show ?thesis
  proof (rule nth_equalityI)
    fix i assume "i < length (take ?n ?r)"
    then show "take ?n ?r ! i = blocks ! k ! i" using b [of i] l by (simp add: byte_at_def)
  qed (use l in simp)
qed

end
