(* ===== verification/Annex_B.thy ===== *)
theory Annex_B
  imports AV_Prelude
begin

section \<open>H.264 Annex-B byte streams\<close>

text \<open>
  \<^verbatim>\<open>sserver/src/common/net/H264AnnexB.h\<close> (splitting a stream into NAL units) and
  \<^verbatim>\<open>sclient/src/common/net/H264AnnexB.h\<close> (appending NAL units, looking for an IDR unit). A
  \<^verbatim>\<open>H264NaluView\<close> is a pointer and a length into the frame; the model carries the bytes it
  denotes. The loops are recursions on the index, with the measure that ends them.
\<close>

subsection \<open>The operations\<close>

definition nal_type :: "bytes \<Rightarrow> u8" where
  "nal_type view = (if view = [] then 0 else view ! 0 AND 0x1F)"

text \<open>The index of the next start code and its length; the size of the data and 0 if there is none.\<close>

function FindAnnexBStartCode :: "bytes \<Rightarrow> nat \<Rightarrow> nat \<times> nat" where
  "FindAnnexBStartCode data index =
     (if index + 3 \<le> length data then
        if data ! index \<noteq> 0 \<or> data ! (index + 1) \<noteq> 0 then FindAnnexBStartCode data (index + 1)
        else if data ! (index + 2) = 1 then (index, 3)
        else if index + 4 \<le> length data \<and> data ! (index + 2) = 0 \<and> data ! (index + 3) = 1 then (index, 4)
        else FindAnnexBStartCode data (index + 1)
      else (length data, 0))"
  by pat_completeness auto
termination
  by (relation "measure (\<lambda>(data, index). length data - index)") auto

declare FindAnnexBStartCode.simps [simp del]

text \<open>\<^verbatim>\<open>while (payload_end > payload_start && data[payload_end - 1] == 0) --payload_end\<close>\<close>

fun strip_trailing_zeros :: "bytes \<Rightarrow> nat \<Rightarrow> nat \<Rightarrow> nat" where
  "strip_trailing_zeros data payload_start 0 = 0"
| "strip_trailing_zeros data payload_start (Suc e) =
     (if payload_start < Suc e \<and> data ! e = 0 then strip_trailing_zeros data payload_start e else Suc e)"

lemma FindAnnexBStartCode_ge: "index \<le> length data \<Longrightarrow> index \<le> fst (FindAnnexBStartCode data index)"
proof (induction data index rule: FindAnnexBStartCode.induct)
  case (1 data index)
  then show ?case by (subst FindAnnexBStartCode.simps) (force dest: Suc_leD)
qed

lemma FindAnnexBStartCode_le: "fst (FindAnnexBStartCode data index) \<le> length data"
proof (induction data index rule: FindAnnexBStartCode.induct)
  case (1 data index)
  then show ?case by (subst FindAnnexBStartCode.simps) auto
qed

lemma FindAnnexBStartCode_size:
  "fst (FindAnnexBStartCode data index) < length data \<Longrightarrow>
     0 < snd (FindAnnexBStartCode data index) \<and>
     fst (FindAnnexBStartCode data index) + snd (FindAnnexBStartCode data index) \<le> length data"
proof (induction data index rule: FindAnnexBStartCode.induct)
  case (1 data index)
  then show ?case
    by (subst (asm) FindAnnexBStartCode.simps, subst (1 2 3) FindAnnexBStartCode.simps) (auto split: if_splits)
qed

lemma FindAnnexBStartCode_none: "fst (FindAnnexBStartCode data index) = length data \<Longrightarrow> snd (FindAnnexBStartCode data index) = 0"
proof (induction data index rule: FindAnnexBStartCode.induct)
  case (1 data index)
  then show ?case
    by (subst (asm) FindAnnexBStartCode.simps, subst FindAnnexBStartCode.simps) (auto split: if_splits)
qed

text \<open>The loop of \<open>SplitAnnexBNalus\<close>, from a start code of length \<open>start_code_size\<close> at \<open>start\<close>.\<close>

function split_loop :: "bytes \<Rightarrow> nat \<Rightarrow> nat \<Rightarrow> bytes list" where
  "split_loop data start start_code_size =
     (if start < length data then
        let payload_start = start + start_code_size;
            next = fst (FindAnnexBStartCode data payload_start);
            next_start_code_size = snd (FindAnnexBStartCode data payload_start);
            payload_end = strip_trailing_zeros data payload_start next;
            view = slice payload_start (payload_end - payload_start) data
        in (if payload_start < payload_end then [view] else []) @ split_loop data next next_start_code_size
      else [])"
  by pat_completeness auto
termination
proof (relation "measure (\<lambda>(data, start, n). 2 * (length data - start) + (if n = 0 then 1 else 0))", goal_cases)
  case 1
  show ?case by simp
next
  case (2 data start n)
  let ?r = "FindAnnexBStartCode data (start + n)"
  show ?case
  proof (cases "start + n \<le> length data")
    case True
    have "start + n \<le> fst ?r" using True by (rule FindAnnexBStartCode_ge)
    moreover have "fst ?r < length data \<Longrightarrow> 0 < snd ?r" using FindAnnexBStartCode_size by blast
    ultimately show ?thesis
      using 2 FindAnnexBStartCode_le [of data "start + n"] by (cases ?r; cases "n = 0"; cases "fst ?r < length data") auto
  next
    case False
    then have "?r = (length data, 0)" by (subst FindAnnexBStartCode.simps) simp
    then show ?thesis using 2 False by auto
  qed
qed

declare split_loop.simps [simp del]

definition SplitAnnexBNalus :: "bytes \<Rightarrow> bytes list" where
  "SplitAnnexBNalus data =
     split_loop data (fst (FindAnnexBStartCode data 0)) (snd (FindAnnexBStartCode data 0))"

definition AppendAnnexBStartCode :: "bytes \<Rightarrow> bytes" where
  "AppendAnnexBStartCode output = output @ [0, 0, 0, 1]"

definition AppendAnnexBNalu :: "bytes \<Rightarrow> bytes \<Rightarrow> bytes" where
  "AppendAnnexBNalu nalu output = (if nalu = [] then output else AppendAnnexBStartCode output @ nalu)"

text \<open>\<open>HasIdrNalUnit\<close>: one iteration of its scan at index \<open>i\<close>, and the scan.\<close>

definition idr_nal_at :: "bytes \<Rightarrow> nat \<Rightarrow> bool" where
  "idr_nal_at data i =
     (if data ! i = 0 \<and> data ! (i + 1) = 0 then
        if data ! (i + 2) = 1 then
          i + 3 < length data \<and> data ! (i + 3) AND 0x1F = 5
        else if i + 4 < length data \<and> data ! (i + 2) = 0 \<and> data ! (i + 3) = 1 then
          i + 4 < length data \<and> data ! (i + 4) AND 0x1F = 5
        else False
      else False)"

definition HasIdrNalUnit :: "bytes \<Rightarrow> bool" where
  "HasIdrNalUnit data = (if length data < 4 then False else list_ex (idr_nal_at data) [0..<length data - 3])"

subsection \<open>Where start codes are found\<close>

definition start_code_at :: "bytes \<Rightarrow> nat \<Rightarrow> bool" where
  "start_code_at data i \<longleftrightarrow>
     i + 3 \<le> length data \<and> data ! i = 0 \<and> data ! (i + 1) = 0 \<and>
     (data ! (i + 2) = 1 \<or> i + 4 \<le> length data \<and> data ! (i + 2) = 0 \<and> data ! (i + 3) = 1)"

lemma FindAnnexBStartCode_unfold:
  "FindAnnexBStartCode data i =
     (if i + 3 \<le> length data then
        if start_code_at data i then (i, if data ! (i + 2) = 1 then 3 else 4)
        else FindAnnexBStartCode data (i + 1)
      else (length data, 0))"
  by (subst FindAnnexBStartCode.simps) (auto simp: start_code_at_def)

lemma FindAnnexBStartCode_skip:
  assumes "\<And>j. index \<le> j \<Longrightarrow> j < k \<Longrightarrow> \<not> start_code_at data j" "index \<le> k"
  shows "FindAnnexBStartCode data index = FindAnnexBStartCode data k"
  using assms
proof (induction "k - index" arbitrary: index)
  case 0
  then show ?case by simp
next
  case (Suc d)
  then have "\<not> start_code_at data index" by simp
  then have "FindAnnexBStartCode data index =
      (if index + 3 \<le> length data then FindAnnexBStartCode data (index + 1) else (length data, 0))"
    by (subst FindAnnexBStartCode_unfold) simp
  also have "\<dots> = FindAnnexBStartCode data k"
  proof (cases "index + 3 \<le> length data")
    case True
    then show ?thesis using Suc by auto
  next
    case False
    then show ?thesis using Suc by (subst FindAnnexBStartCode_unfold) auto
  qed
  finally show ?case .
qed

subsection \<open>Splitting undoes appending\<close>

text \<open>A NAL unit as the encoder emits it: non-empty, not ending in a zero byte (the RBSP stop bit)
  and with emulation prevention, so that no start code prefix occurs inside.\<close>

definition nal_clean :: "bytes \<Rightarrow> bool" where
  "nal_clean n \<longleftrightarrow> n \<noteq> [] \<and> last n \<noteq> 0 \<and>
     list_all (\<lambda>i. \<not> (n ! i = 0 \<and> n ! (i + 1) = 0 \<and> n ! (i + 2) = 1)) [0..<length n - 2]"

definition annexb_stream :: "bytes list \<Rightarrow> bytes" where
  "annexb_stream nals = concat (map (\<lambda>n. [0, 0, 0, 1] @ n) nals)"

lemma annexb_stream_simps [simp]:
  "annexb_stream [] = []"
  "annexb_stream (n # ns) = [0, 0, 0, 1] @ n @ annexb_stream ns"
  "annexb_stream (ns @ ms) = annexb_stream ns @ annexb_stream ms"
  by (simp_all add: annexb_stream_def)

text \<open>Appending the units one after the other writes that stream.\<close>

lemma fold_AppendAnnexBNalu:
  "list_all (\<lambda>n. n \<noteq> []) nals \<Longrightarrow> fold AppendAnnexBNalu nals acc = acc @ annexb_stream nals"
  by (induction nals arbitrary: acc) (auto simp: AppendAnnexBNalu_def AppendAnnexBStartCode_def)

lemma nal_cleanD:
  assumes "nal_clean n"
  shows "n \<noteq> []" "n ! (length n - 1) \<noteq> 0"
    "\<And>i. i + 2 < length n \<Longrightarrow> n ! i = 0 \<Longrightarrow> n ! (i + 1) = 0 \<Longrightarrow> n ! (i + 2) \<noteq> 1"
  using assms by (auto simp: nal_clean_def last_conv_nth list_all_iff)

lemma no_start_code_inside:
  assumes "nal_clean n" "length pre \<le> j" "j < length pre + length n"
  shows "\<not> start_code_at (pre @ n @ rest) j"
proof
  assume sc: "start_code_at (pre @ n @ rest) j"
  obtain i where i: "j = length pre + i" "i < length n"
    using assms(2,3) by (metis le_Suc_ex nat_add_left_cancel_less)
  let ?d = "n @ rest"
  have z: "n ! i = 0" "?d ! (i + 1) = 0" "?d ! (i + 2) = 1 \<or> ?d ! (i + 2) = 0 \<and> ?d ! (i + 3) = 1"
    using sc i by (auto simp: start_code_at_def nth_append add.assoc)
  have nz: "k < length n \<Longrightarrow> n ! k = 0 \<Longrightarrow> k + 1 < length n" for k
    using nal_cleanD(2) [OF assms(1)] by (metis Suc_eq_plus1 Suc_lessI diff_Suc_1)
  have i1: "i + 1 < length n" using nz i(2) z(1) .
  then have z1: "n ! (i + 1) = 0" using z(2) by (simp add: nth_append)
  have i2: "i + 2 < length n" using nz [OF i1 z1] by simp
  show False
  proof (cases "n ! (i + 2) = 1")
    case True
    then show ?thesis using nal_cleanD(3) [OF assms(1) i2 z(1) z1] by simp
  next
    case False
    then have z2: "n ! (i + 2) = 0" and z3: "?d ! (i + 3) = 1" using z(3) i2 by (auto simp: nth_append)
    have i3: "i + 3 < length n" using nz [OF i2 z2] by simp
    then show ?thesis
      using nal_cleanD(3) [OF assms(1), of "i + 1"] z1 z2 z3 by (simp add: nth_append numeral_3_eq_3)
  qed
qed

lemma strip_trailing_zeros_nonzero:
  "0 < e \<Longrightarrow> data ! (e - 1) \<noteq> 0 \<Longrightarrow> strip_trailing_zeros data s e = e"
  by (cases e) auto

text \<open>One round of the loop: from the start code of a clean unit to the end of that unit.\<close>

lemma FindAnnexBStartCode_after_nal:
  assumes "nal_clean n"
  shows "FindAnnexBStartCode (pre @ n @ annexb_stream ns) (length pre) =
    (length pre + length n, if ns = [] then 0 else 4)"
proof -
  let ?data = "pre @ n @ annexb_stream ns"
  let ?k = "length pre + length n"
  have skip: "FindAnnexBStartCode ?data (length pre) = FindAnnexBStartCode ?data ?k"
    by (rule FindAnnexBStartCode_skip) (auto simp: no_start_code_inside [OF assms])
  show ?thesis
  proof (cases ns)
    case Nil
    then show ?thesis using skip by (subst (asm) (2) FindAnnexBStartCode_unfold) simp
  next
    case (Cons m ms)
    then have "start_code_at ?data ?k"
      by (simp add: start_code_at_def nth_append)
    moreover have "?data ! (?k + 2) = 0" using Cons by (simp add: nth_append)
    ultimately show ?thesis
      using skip Cons by (subst (asm) (2) FindAnnexBStartCode_unfold) (auto simp: start_code_at_def)
  qed
qed

lemma split_loop_stream:
  assumes "list_all nal_clean nals" "nals \<noteq> []"
  shows "split_loop (pre @ annexb_stream nals) (length pre) 4 = nals"
  using assms
proof (induction nals arbitrary: pre)
  case Nil
  then show ?case by simp
next
  case (Cons n ns)
  let ?pre = "pre @ [0, 0, 0, 1]"
  let ?data = "pre @ annexb_stream (n # ns)"
  have data: "?data = ?pre @ n @ annexb_stream ns" by simp
  have n: "nal_clean n" using Cons.prems by simp
  have len: "length ?pre = length pre + 4" by simp
  let ?e = "length pre + 4 + length n"
  have find: "FindAnnexBStartCode ?data (length pre + 4) = (?e, if ns = [] then 0 else 4)"
    using FindAnnexBStartCode_after_nal [OF n, of ?pre ns] unfolding data len .
  have strip: "strip_trailing_zeros ?data (length pre + 4) ?e = ?e"
    by (rule strip_trailing_zeros_nonzero)
       (use nal_cleanD(1,2) [OF n] in \<open>auto simp: nth_append\<close>)
  have view: "slice (length pre + 4) (length n) ?data = n"
    using slice_append_mid [of ?pre n] unfolding data len .
  have rest: "split_loop ?data ?e (if ns = [] then 0 else 4) = ns"
  proof (cases "ns = []")
    case True
    then show ?thesis by (subst split_loop.simps) simp
  next
    case False
    have "split_loop ((?pre @ n) @ annexb_stream ns) (length (?pre @ n)) 4 = ns"
      using Cons.prems False by (intro Cons.IH) auto
    then show ?thesis using False by (simp add: numeral_eq_Suc)
  qed
  have "split_loop ?data (length pre) 4 = [n] @ split_loop ?data ?e (if ns = [] then 0 else 4)"
    using nal_cleanD(1) [OF n] find strip view by (subst split_loop.simps) (simp add: Let_def)
  then show ?case using rest by simp
qed

lemma SplitAnnexBNalus_stream:
  assumes "list_all nal_clean nals"
  shows "SplitAnnexBNalus (annexb_stream nals) = nals"
proof (cases nals)
  case Nil
  then show ?thesis
    by (simp add: SplitAnnexBNalus_def) (subst FindAnnexBStartCode.simps, subst split_loop.simps, simp)
next
  case (Cons n ns)
  have "FindAnnexBStartCode (annexb_stream nals) 0 = (0, 4)"
    using Cons by (subst FindAnnexBStartCode.simps) simp
  then show ?thesis
    using split_loop_stream [of nals "[]"] assms Cons by (simp add: SplitAnnexBNalus_def)
qed

end
