(* ===== verification/Rtp_Protocol.thy ===== *)
theory Rtp_Protocol
  imports AV_Prelude
begin

section \<open>RTP headers and the latency extension\<close>

text \<open>
  \<^verbatim>\<open>common/net/RtpProtocol.h\<close> of both programs: the writers are the server's, the parsers the
  client's (the two headers define the same functions). A pointer and a size are a byte list, a
  null pointer to an optional argument is \<open>None\<close>, an out-parameter is a result, and
  \<^verbatim>\<open>return false\<close> is \<open>None\<close>. Shifts and casts are kept as in the source, at the width
  of the source.
\<close>

definition kRtpHeaderSize :: nat where "kRtpHeaderSize = 12"
definition kRtpExtensionHeaderSize :: nat where "kRtpExtensionHeaderSize = 4"
definition kRtpVersion :: u8 where "kRtpVersion = 2"
definition kH264FuAType :: u8 where "kH264FuAType = 28"
definition kRtpLatencyExtensionProfileId :: u16 where "kRtpLatencyExtensionProfileId = 0x5353"
definition kRtpLatencyExtensionPayloadSize :: nat where "kRtpLatencyExtensionPayloadSize = 16"
definition kRtpLatencyExtensionWordSize :: nat where
  "kRtpLatencyExtensionWordSize = kRtpLatencyExtensionPayloadSize div 4"
definition kRtpPacketOverheadWithLatencyExtension :: nat where
  "kRtpPacketOverheadWithLatencyExtension =
     kRtpHeaderSize + kRtpExtensionHeaderSize + kRtpLatencyExtensionPayloadSize"

lemmas rtp_constants [simp] =
  kRtpHeaderSize_def kRtpExtensionHeaderSize_def kRtpVersion_def kH264FuAType_def
  kRtpLatencyExtensionProfileId_def kRtpLatencyExtensionPayloadSize_def
  kRtpLatencyExtensionWordSize_def kRtpPacketOverheadWithLatencyExtension_def

record RtpHeaderFields =
  rf_marker :: bool
  rf_payload_type :: u8
  rf_sequence_number :: u16
  rf_timestamp :: u32
  rf_ssrc :: u32

record RtpHeaderExtension =
  re_profile_id :: u16
  re_payload :: bytes

record RtpLatencyExtension =
  rl_capture_timestamp_ns :: u64
  rl_transport_send_timestamp_ns :: u64

subsection \<open>Big-endian integers\<close>

definition ReadBe16 :: "bytes \<Rightarrow> u16" where
  "ReadBe16 data = push_bit 8 (ucast (data ! 0)) OR ucast (data ! 1)"

definition ReadBe32 :: "bytes \<Rightarrow> u32" where
  "ReadBe32 data =
     push_bit 24 (ucast (data ! 0)) OR push_bit 16 (ucast (data ! 1))
     OR push_bit 8 (ucast (data ! 2)) OR ucast (data ! 3)"

definition ReadBe64 :: "bytes \<Rightarrow> u64" where
  "ReadBe64 data =
     push_bit 56 (ucast (data ! 0)) OR push_bit 48 (ucast (data ! 1))
     OR push_bit 40 (ucast (data ! 2)) OR push_bit 32 (ucast (data ! 3))
     OR push_bit 24 (ucast (data ! 4)) OR push_bit 16 (ucast (data ! 5))
     OR push_bit 8 (ucast (data ! 6)) OR ucast (data ! 7)"

text \<open>The writers, as the bytes they store.\<close>

definition WriteBe16 :: "u16 \<Rightarrow> bytes" where
  "WriteBe16 value = [ucast (drop_bit 8 value AND 0xFF), ucast (value AND 0xFF)]"

definition WriteBe32 :: "u32 \<Rightarrow> bytes" where
  "WriteBe32 value =
     [ucast (drop_bit 24 value AND 0xFF), ucast (drop_bit 16 value AND 0xFF),
      ucast (drop_bit 8 value AND 0xFF), ucast (value AND 0xFF)]"

definition WriteBe64 :: "u64 \<Rightarrow> bytes" where
  "WriteBe64 value =
     [ucast (drop_bit 56 value AND 0xFF), ucast (drop_bit 48 value AND 0xFF),
      ucast (drop_bit 40 value AND 0xFF), ucast (drop_bit 32 value AND 0xFF),
      ucast (drop_bit 24 value AND 0xFF), ucast (drop_bit 16 value AND 0xFF),
      ucast (drop_bit 8 value AND 0xFF), ucast (value AND 0xFF)]"

subsection \<open>The latency extension\<close>

definition SerializeRtpLatencyExtension :: "RtpLatencyExtension \<Rightarrow> bytes" where
  "SerializeRtpLatencyExtension extension =
     WriteBe64 (rl_capture_timestamp_ns extension) @ WriteBe64 (rl_transport_send_timestamp_ns extension)"

definition BuildRtpLatencyHeaderExtension :: "RtpLatencyExtension \<Rightarrow> RtpHeaderExtension" where
  "BuildRtpLatencyHeaderExtension extension =
     \<lparr>re_profile_id = kRtpLatencyExtensionProfileId, re_payload = SerializeRtpLatencyExtension extension\<rparr>"

definition ParseRtpLatencyExtension :: "RtpHeaderExtension \<Rightarrow> RtpLatencyExtension option" where
  "ParseRtpLatencyExtension header_extension =
     (if re_profile_id header_extension \<noteq> kRtpLatencyExtensionProfileId
         \<or> length (re_payload header_extension) \<noteq> kRtpLatencyExtensionPayloadSize then None
      else Some \<lparr>rl_capture_timestamp_ns = ReadBe64 (re_payload header_extension),
                 rl_transport_send_timestamp_ns = ReadBe64 (drop 8 (re_payload header_extension))\<rparr>)"

subsection \<open>Writing and parsing headers\<close>

definition has_extension :: "RtpHeaderExtension option \<Rightarrow> bool" where
  "has_extension extension = (case extension of None \<Rightarrow> False | Some e \<Rightarrow> re_payload e \<noteq> [])"

definition extension_payload :: "RtpHeaderExtension option \<Rightarrow> bytes" where
  "extension_payload extension = (case extension of None \<Rightarrow> [] | Some e \<Rightarrow> re_payload e)"

text \<open>The first two octets: version and extension flag; marker and payload type.\<close>

definition rtp_first_byte :: "bool \<Rightarrow> u8" where
  "rtp_first_byte ext = (push_bit 6 kRtpVersion OR (if ext then 0x10 else 0x00))"

definition rtp_second_byte :: "bool \<Rightarrow> u8 \<Rightarrow> u8" where
  "rtp_second_byte marker payload_type = ((if marker then 0x80 else 0x00) OR (payload_type AND 0x7F))"

definition WriteRtpHeader :: "RtpHeaderFields \<Rightarrow> RtpHeaderExtension option \<Rightarrow> bytes option" where
  "WriteRtpHeader hdr_fields extension =
     (if has_extension extension \<and> length (extension_payload extension) mod 4 \<noteq> 0 then None
      else Some
       ([rtp_first_byte (has_extension extension),
         rtp_second_byte (rf_marker hdr_fields) (rf_payload_type hdr_fields)]
        @ WriteBe16 (rf_sequence_number hdr_fields) @ WriteBe32 (rf_timestamp hdr_fields) @ WriteBe32 (rf_ssrc hdr_fields)
        @ (case extension of
             None \<Rightarrow> []
           | Some e \<Rightarrow> if re_payload e = [] then []
               else WriteBe16 (re_profile_id e) @ WriteBe16 (of_nat (length (re_payload e) div 4)) @ re_payload e)))"

text \<open>The fields, the size of the whole header and the extension (\<^verbatim>\<open>profile_id = 0\<close> and an
  empty payload when the packet has none).\<close>

definition ParseRtpHeader :: "bytes \<Rightarrow> (RtpHeaderFields \<times> nat \<times> RtpHeaderExtension) option" where
  "ParseRtpHeader data =
     (let size = length data;
          version = drop_bit 6 (data ! 0);
          has_padding = (data ! 0 AND 0x20 \<noteq> 0);
          has_ext = (data ! 0 AND 0x10 \<noteq> 0);
          csrc_count = data ! 0 AND 0x0F;
          base_header_size = kRtpHeaderSize + unat csrc_count * 4;
          extension_words = ReadBe16 (drop (base_header_size + 2) data);
          extension_payload_size = unat extension_words * 4;
          computed_header_size =
            (if has_ext then base_header_size + kRtpExtensionHeaderSize + extension_payload_size
             else base_header_size);
          hdr_fields = \<lparr>rf_marker = (data ! 1 AND 0x80 \<noteq> 0), rf_payload_type = data ! 1 AND 0x7F,
                    rf_sequence_number = ReadBe16 (drop 2 data), rf_timestamp = ReadBe32 (drop 4 data),
                    rf_ssrc = ReadBe32 (drop 8 data)\<rparr>
      in if size < kRtpHeaderSize then None
         else if version \<noteq> kRtpVersion \<or> has_padding \<or> size < base_header_size then None
         else if has_ext then
           (if size < base_header_size + kRtpExtensionHeaderSize then None
            else if size < computed_header_size then None
            else Some (hdr_fields, computed_header_size,
              \<lparr>re_profile_id = ReadBe16 (drop base_header_size data),
               re_payload = slice (base_header_size + kRtpExtensionHeaderSize) extension_payload_size data\<rparr>))
         else Some (hdr_fields, computed_header_size, \<lparr>re_profile_id = 0, re_payload = []\<rparr>))"

text \<open>\<open>None\<close> is \<^verbatim>\<open>return false\<close>, which leaves the packet as it was.\<close>

definition UpdateRtpLatencyExtensionTransportSendTimestamp :: "bytes \<Rightarrow> u64 \<Rightarrow> bytes option" where
  "UpdateRtpLatencyExtensionTransportSendTimestamp data transport_send_timestamp_ns =
     (let size = length data;
          version = drop_bit 6 (data ! 0);
          has_padding = (data ! 0 AND 0x20 \<noteq> 0);
          has_ext = (data ! 0 AND 0x10 \<noteq> 0);
          csrc_count = data ! 0 AND 0x0F;
          base_header_size = kRtpHeaderSize + unat csrc_count * 4
      in if size < kRtpHeaderSize + kRtpExtensionHeaderSize + kRtpLatencyExtensionPayloadSize then None
         else if version \<noteq> kRtpVersion \<or> has_padding \<or> \<not> has_ext
                 \<or> size < base_header_size + kRtpExtensionHeaderSize then None
         else if ReadBe16 (drop base_header_size data) \<noteq> kRtpLatencyExtensionProfileId
                 \<or> unat (ReadBe16 (drop (base_header_size + 2) data)) \<noteq> kRtpLatencyExtensionWordSize
                 \<or> size < base_header_size + kRtpExtensionHeaderSize + kRtpLatencyExtensionPayloadSize then None
         else Some (write_at (base_header_size + kRtpExtensionHeaderSize + 8)
                      (WriteBe64 transport_send_timestamp_ns) data))"

subsection \<open>The integers round-trip\<close>

lemma ucast_and_FF: "ucast (w AND 0xFF) = (ucast (w :: 'a::len word) :: u8)"
proof (rule bit_eqI)
  fix k assume "possible_bit TYPE(8 word) k"
  then have "k < 8" by simp
  have FF: "(0xFF :: 'a word) = mask 8"
    by (simp add: mask_eq_exp_minus_1)
  show "bit (ucast (w AND 0xFF) :: u8) k = bit (ucast w :: u8) k"
    unfolding FF using \<open>k < 8\<close> by (auto simp: bit_simps dest: bit_imp_le_length)
qed

lemma WriteBe16_eq: "WriteBe16 w = rev (le_put 2 w)"
  by (simp add: WriteBe16_def le_put_def ucast_and_FF upt_rec)

lemma WriteBe32_eq: "WriteBe32 w = rev (le_put 4 w)"
  by (simp add: WriteBe32_def le_put_def ucast_and_FF upt_rec)

lemma WriteBe64_eq: "WriteBe64 w = rev (le_put 8 w)"
  by (simp add: WriteBe64_def le_put_def ucast_and_FF upt_rec)

lemma length_WriteBe [simp]: "length (WriteBe16 a) = 2" "length (WriteBe32 b) = 4" "length (WriteBe64 c) = 8"
  by (simp_all add: WriteBe16_def WriteBe32_def WriteBe64_def)

lemma ReadBe16_eq: "ReadBe16 [a, b] = le_get (rev [a, b])"
  by (simp add: ReadBe16_def ac_simps)

lemma ReadBe32_eq: "ReadBe32 [a, b, c, d] = le_get (rev [a, b, c, d])"
  by (simp add: ReadBe32_def push_bit_or ac_simps)

lemma ReadBe64_eq: "ReadBe64 [a, b, c, d, e, f, g, h] = le_get (rev [a, b, c, d, e, f, g, h])"
  by (simp add: ReadBe64_def push_bit_or ac_simps)

lemma ReadBe16_append: "ReadBe16 (WriteBe16 w @ rest) = w"
proof -
  have "ReadBe16 (WriteBe16 w @ rest) = ReadBe16 (WriteBe16 w)"
    by (simp add: ReadBe16_def WriteBe16_def)
  also have "\<dots> = le_get (rev (WriteBe16 w))"
    unfolding WriteBe16_def by (rule ReadBe16_eq)
  finally show ?thesis by (simp add: WriteBe16_eq)
qed

lemma ReadBe32_append: "ReadBe32 (WriteBe32 w @ rest) = w"
proof -
  have "ReadBe32 (WriteBe32 w @ rest) = ReadBe32 (WriteBe32 w)"
    by (simp add: ReadBe32_def WriteBe32_def)
  also have "\<dots> = le_get (rev (WriteBe32 w))"
    unfolding WriteBe32_def by (rule ReadBe32_eq)
  finally show ?thesis by (simp add: WriteBe32_eq)
qed

lemma ReadBe64_append: "ReadBe64 (WriteBe64 w @ rest) = w"
proof -
  have "ReadBe64 (WriteBe64 w @ rest) = ReadBe64 (WriteBe64 w)"
    by (simp add: ReadBe64_def WriteBe64_def)
  also have "\<dots> = le_get (rev (WriteBe64 w))"
    unfolding WriteBe64_def by (rule ReadBe64_eq)
  finally show ?thesis by (simp add: WriteBe64_eq)
qed

lemma ReadBe_Write [simp]: "ReadBe16 (WriteBe16 a) = a" "ReadBe32 (WriteBe32 b) = b" "ReadBe64 (WriteBe64 c) = c"
  using ReadBe16_append [of a "[]"] ReadBe32_append [of b "[]"] ReadBe64_append [of c "[]"] by simp_all

lemmas ReadBe_append [simp] = ReadBe16_append ReadBe32_append ReadBe64_append


subsection \<open>The header round-trips\<close>

lemma rtp_first_byte_bits [simp]:
  "drop_bit 6 (rtp_first_byte e) = kRtpVersion"
  "rtp_first_byte e AND 0x20 = 0"
  "rtp_first_byte e AND 0x0F = 0"
  "rtp_first_byte e AND 0x10 = 0 \<longleftrightarrow> \<not> e"
  by (simp_all add: rtp_first_byte_def push_bit_eq_mult drop_bit_eq_div)

lemma and_7F: "pt AND 0x7F = (pt :: u8)" if "pt < 128"
proof -
  have "pt AND mask 7 = take_bit 7 pt" by (simp add: take_bit_eq_mask)
  also have "\<dots> = pt" using that by (simp add: take_bit_eq_mod mod_word_less)
  finally show ?thesis by (simp add: mask_eq_exp_minus_1)
qed

lemma rtp_second_byte_bits [simp]:
  "rtp_second_byte m pt AND 0x80 = 0 \<longleftrightarrow> \<not> m"
  "rtp_second_byte m pt AND 0x7F = pt AND 0x7F"
  by (simp_all add: rtp_second_byte_def bit.conj_disj_distrib2 and.assoc)

text \<open>What a parser sees of an extension: one with an empty payload is not written.\<close>

definition extension_on_wire :: "RtpHeaderExtension option \<Rightarrow> RtpHeaderExtension" where
  "extension_on_wire extension =
     (case extension of None \<Rightarrow> \<lparr>re_profile_id = 0, re_payload = []\<rparr>
      | Some e \<Rightarrow> if re_payload e = [] then \<lparr>re_profile_id = 0, re_payload = []\<rparr> else e)"

lemma length_WriteRtpHeader:
  "WriteRtpHeader f ext = Some hdr \<Longrightarrow>
     length hdr = kRtpHeaderSize + (if has_extension ext then kRtpExtensionHeaderSize + length (extension_payload ext) else 0)"
  by (auto simp: WriteRtpHeader_def has_extension_def extension_payload_def split: if_splits option.splits)

lemma ParseRtpHeader_fixed:
  assumes "b0 AND 0x20 = 0" "drop_bit 6 b0 = kRtpVersion" "b0 AND 0x0F = 0" "b0 AND 0x10 = 0"
  shows "ParseRtpHeader ([b0, b1] @ WriteBe16 sn @ WriteBe32 ts @ WriteBe32 ssrc @ rest) =
    Some (\<lparr>rf_marker = (b1 AND 0x80 \<noteq> 0), rf_payload_type = b1 AND 0x7F, rf_sequence_number = sn,
           rf_timestamp = ts, rf_ssrc = ssrc\<rparr>, 12, \<lparr>re_profile_id = 0, re_payload = []\<rparr>)"
  using assms by (simp add: ParseRtpHeader_def Let_def)

lemma ParseRtpHeader_extended:
  assumes "b0 AND 0x20 = 0" "drop_bit 6 b0 = kRtpVersion" "b0 AND 0x0F = 0" "b0 AND 0x10 \<noteq> 0"
    and "length pl = unat n * 4"
  shows "ParseRtpHeader ([b0, b1] @ WriteBe16 sn @ WriteBe32 ts @ WriteBe32 ssrc
            @ WriteBe16 pid @ WriteBe16 n @ pl @ rest) =
    Some (\<lparr>rf_marker = (b1 AND 0x80 \<noteq> 0), rf_payload_type = b1 AND 0x7F, rf_sequence_number = sn,
           rf_timestamp = ts, rf_ssrc = ssrc\<rparr>, 16 + length pl, \<lparr>re_profile_id = pid, re_payload = pl\<rparr>)"
  using assms by (simp add: ParseRtpHeader_def Let_def slice_def)

text \<open>parsing what was written returns the fields, the size of the header and the extension.\<close>

theorem ParseRtpHeader_WriteRtpHeader:
  assumes "WriteRtpHeader f ext = Some hdr" "rf_payload_type f < 128"
    "length (extension_payload ext) < 4 * 2 ^ 16"
  shows "ParseRtpHeader (hdr @ payload) = Some (f, length hdr, extension_on_wire ext)"
proof (cases "has_extension ext")
  case True
  then obtain e where e: "ext = Some e" "re_payload e \<noteq> []"
    by (auto simp: has_extension_def split: option.splits)
  have n: "length (re_payload e) = unat (of_nat (length (re_payload e) div 4) :: u16) * 4"
    using assms(1,3) e by (auto simp: WriteRtpHeader_def has_extension_def extension_payload_def unat_of_nat split: if_splits)
  have hdr: "hdr = [rtp_first_byte True, rtp_second_byte (rf_marker f) (rf_payload_type f)]
      @ WriteBe16 (rf_sequence_number f) @ WriteBe32 (rf_timestamp f) @ WriteBe32 (rf_ssrc f)
      @ WriteBe16 (re_profile_id e) @ WriteBe16 (of_nat (length (re_payload e) div 4)) @ re_payload e"
    using assms(1) e by (auto simp: WriteRtpHeader_def has_extension_def split: if_splits)
  have "ParseRtpHeader (hdr @ payload) =
      Some (\<lparr>rf_marker = rf_marker f, rf_payload_type = rf_payload_type f, rf_sequence_number = rf_sequence_number f,
           rf_timestamp = rf_timestamp f, rf_ssrc = rf_ssrc f\<rparr>, 16 + length (re_payload e),
           \<lparr>re_profile_id = re_profile_id e, re_payload = re_payload e\<rparr>)"
    unfolding hdr append_assoc
    by (subst ParseRtpHeader_extended) (use n assms(2) in \<open>auto simp: and_7F\<close>)
  then show ?thesis
    using length_WriteRtpHeader [OF assms(1)] e
    by (simp add: extension_on_wire_def has_extension_def extension_payload_def)
next
  case False
  have hdr: "hdr = [rtp_first_byte False, rtp_second_byte (rf_marker f) (rf_payload_type f)]
      @ WriteBe16 (rf_sequence_number f) @ WriteBe32 (rf_timestamp f) @ WriteBe32 (rf_ssrc f)"
    using assms(1) False by (auto simp: WriteRtpHeader_def has_extension_def split: option.splits)
  have "ParseRtpHeader (hdr @ payload) = Some (\<lparr>rf_marker = rf_marker f, rf_payload_type = rf_payload_type f,
      rf_sequence_number = rf_sequence_number f, rf_timestamp = rf_timestamp f, rf_ssrc = rf_ssrc f\<rparr>, 12,
      \<lparr>re_profile_id = 0, re_payload = []\<rparr>)"
    unfolding hdr append_assoc
    by (subst ParseRtpHeader_fixed) (use assms(2) in \<open>auto simp: and_7F\<close>)
  then show ?thesis
    using length_WriteRtpHeader [OF assms(1)] False
    by (auto simp: extension_on_wire_def has_extension_def split: option.splits)
qed


theorem ParseRtpHeader_WriteRtpHeader_witness:
  "\<exists>hdr. WriteRtpHeader \<lparr>rf_marker = True, rf_payload_type = 96, rf_sequence_number = 7, rf_timestamp = 9, rf_ssrc = 11\<rparr> None
       = Some hdr \<and>
     ParseRtpHeader (hdr @ [1, 2]) =
       Some (\<lparr>rf_marker = True, rf_payload_type = 96, rf_sequence_number = 7, rf_timestamp = 9, rf_ssrc = 11\<rparr>,
         length hdr, extension_on_wire None)"
proof -
  obtain hdr where h: "WriteRtpHeader \<lparr>rf_marker = True, rf_payload_type = 96, rf_sequence_number = 7,
      rf_timestamp = 9, rf_ssrc = 11\<rparr> None = Some hdr"
    by (simp add: WriteRtpHeader_def has_extension_def)
  from ParseRtpHeader_WriteRtpHeader [OF this, of "[1, 2]"] h show ?thesis by (simp add: extension_payload_def)
qed

lemma length_Serialize [simp]: "length (SerializeRtpLatencyExtension x) = 16"
  by (simp add: SerializeRtpLatencyExtension_def)

lemma Serialize_not_Nil [simp]: "SerializeRtpLatencyExtension x \<noteq> []"
  by (simp add: SerializeRtpLatencyExtension_def WriteBe64_def)

lemma ParseRtpLatencyExtension_Build [simp]: "ParseRtpLatencyExtension (BuildRtpLatencyHeaderExtension x) = Some x"
  by (simp add: ParseRtpLatencyExtension_def BuildRtpLatencyHeaderExtension_def) (simp add: SerializeRtpLatencyExtension_def)

lemma ParseRtpLatencyExtension_none [simp]: "ParseRtpLatencyExtension \<lparr>re_profile_id = 0, re_payload = []\<rparr> = None"
  by (simp add: ParseRtpLatencyExtension_def)

definition latency_header :: "RtpHeaderFields \<Rightarrow> u64 \<Rightarrow> u64 \<Rightarrow> bytes" where
  "latency_header f capture send =
     [rtp_first_byte True, rtp_second_byte (rf_marker f) (rf_payload_type f)]
     @ WriteBe16 (rf_sequence_number f) @ WriteBe32 (rf_timestamp f) @ WriteBe32 (rf_ssrc f)
     @ WriteBe16 kRtpLatencyExtensionProfileId @ WriteBe16 4 @ WriteBe64 capture @ WriteBe64 send"

lemma length_latency_header: "length (latency_header f capture send) = 32"
  by (simp add: latency_header_def)

lemma WriteRtpHeader_latency:
  "WriteRtpHeader f (Some (BuildRtpLatencyHeaderExtension
       \<lparr>rl_capture_timestamp_ns = capture, rl_transport_send_timestamp_ns = send\<rparr>)) = Some (latency_header f capture send)"
  by (simp add: WriteRtpHeader_def has_extension_def extension_payload_def BuildRtpLatencyHeaderExtension_def
      latency_header_def) (simp add: SerializeRtpLatencyExtension_def)

lemma Update_latency_header:
  "UpdateRtpLatencyExtensionTransportSendTimestamp (latency_header f capture send @ payload) ts =
     Some (latency_header f capture ts @ payload)"
proof -
  let ?data = "latency_header f capture send @ payload"
  have b0: "?data ! 0 = rtp_first_byte True" by (simp add: latency_header_def)
  have pid: "ReadBe16 (drop 12 ?data) = kRtpLatencyExtensionProfileId"
    and words: "ReadBe16 (drop 14 ?data) = 4" by (simp_all add: latency_header_def)
  have wr: "write_at 24 (WriteBe64 ts) ?data = latency_header f capture ts @ payload"
    by (simp add: write_at_def latency_header_def)
  show ?thesis
    unfolding UpdateRtpLatencyExtensionTransportSendTimestamp_def Let_def b0
    using pid words wr by (simp add: length_latency_header)
qed

text \<open>stamping the send time into a packet the server built changes that field of the latency
  extension and nothing else: the packet is the one that would have been written with that time.\<close>

theorem UpdateRtpLatencyExtension_stamps:
  "\<exists>old_header new_header.
     WriteRtpHeader f (Some (BuildRtpLatencyHeaderExtension
       \<lparr>rl_capture_timestamp_ns = capture, rl_transport_send_timestamp_ns = old\<rparr>)) = Some old_header \<and>
     WriteRtpHeader f (Some (BuildRtpLatencyHeaderExtension
       \<lparr>rl_capture_timestamp_ns = capture, rl_transport_send_timestamp_ns = now\<rparr>)) = Some new_header \<and>
     UpdateRtpLatencyExtensionTransportSendTimestamp (old_header @ payload) now = Some (new_header @ payload)"
  by (simp add: WriteRtpHeader_latency Update_latency_header)

text \<open>A packet without the extension is left alone.\<close>

lemma Update_no_extension:
  "WriteRtpHeader f None = Some hdr \<Longrightarrow>
     UpdateRtpLatencyExtensionTransportSendTimestamp (hdr @ payload) now = None"
  by (auto simp: UpdateRtpLatencyExtensionTransportSendTimestamp_def WriteRtpHeader_def has_extension_def Let_def)

end
