(* ===== verification/Latency.thy ===== *)
theory Latency
  imports AV_Prelude
begin

section \<open>Latency statistics\<close>

text \<open>
  \<^verbatim>\<open>sclient/src/common/metrics/LatencyStats.h\<close> (a ring buffer of the most recent samples, with a
  lazily refreshed summary) and \<^verbatim>\<open>sserver/src/common/metrics/LatencyRecorder.cpp\<close> (a bounded
  deque). \<^verbatim>\<open>double\<close> is \<^typ>\<open>real\<close>: rounding is not modelled. The textual rendering
  (\<^verbatim>\<open>Format\<close>) is left out.
\<close>

record LatencySummary =
  ls_count :: nat
  ls_last_ms :: real
  ls_min_ms :: real
  ls_avg_ms :: real
  ls_p50_ms :: real
  ls_p95_ms :: real
  ls_p99_ms :: real
  ls_max_ms :: real

definition LatencySummary_zero :: LatencySummary where
  "LatencySummary_zero =
     \<lparr>ls_count = 0, ls_last_ms = 0, ls_min_ms = 0, ls_avg_ms = 0, ls_p50_ms = 0, ls_p95_ms = 0,
      ls_p99_ms = 0, ls_max_ms = 0\<rparr>"

definition PercentileFromSorted :: "real list \<Rightarrow> real \<Rightarrow> real" where
  "PercentileFromSorted values percentile =
     (if values = [] then 0
      else
        let index = percentile * real (length values - 1);
            lower = nat \<lfloor>index\<rfloor>;
            upper = min (lower + 1) (length values - 1);
            fraction = index - real lower
        in values ! lower + (values ! upper - values ! lower) * fraction)"

subsection \<open>The client's ring buffer\<close>

record LatencyStats =
  st_max_samples :: nat
  st_snapshot_refresh_interval :: nat
  st_samples_ms :: "real list"
  st_next_index :: nat
  st_sample_count :: nat
  st_dirty :: bool
  st_cached_summary_valid :: bool
  st_pending_snapshot_samples :: nat
  st_cached_summary :: LatencySummary
  st_last_ms :: real

definition LatencyStats_new :: "nat \<Rightarrow> nat \<Rightarrow> LatencyStats" where
  "LatencyStats_new max_samples snapshot_refresh_interval =
     \<lparr>st_max_samples = max_samples, st_snapshot_refresh_interval = max 1 snapshot_refresh_interval,
      st_samples_ms = replicate max_samples 0, st_next_index = 0, st_sample_count = 0, st_dirty = False,
      st_cached_summary_valid = False, st_pending_snapshot_samples = 0,
      st_cached_summary = LatencySummary_zero, st_last_ms = 0\<rparr>"

definition LatencyStats_Record :: "real \<Rightarrow> LatencyStats \<Rightarrow> LatencyStats" where
  "LatencyStats_Record value_ms st =
     (let st = st\<lparr>st_last_ms := value_ms\<rparr> in
      if st_max_samples st = 0 then
        st\<lparr>st_dirty := True, st_cached_summary_valid := False, st_pending_snapshot_samples := 0\<rparr>
      else
        st\<lparr>st_samples_ms := (st_samples_ms st)[st_next_index st := value_ms],
           st_next_index := (st_next_index st + 1) mod st_max_samples st,
           st_sample_count := (if st_sample_count st < st_max_samples st then st_sample_count st + 1
                               else st_sample_count st),
           st_dirty := True,
           st_pending_snapshot_samples := st_pending_snapshot_samples st + 1\<rparr>)"

text \<open>The samples in the order they were recorded, copied out of the ring.\<close>

definition ordered_samples :: "LatencyStats \<Rightarrow> real list" where
  "ordered_samples st =
     (if st_sample_count st < st_max_samples st then take (st_sample_count st) (st_samples_ms st)
      else drop (st_next_index st) (st_samples_ms st) @ take (st_next_index st) (st_samples_ms st))"

definition summary_of :: "nat \<Rightarrow> real \<Rightarrow> real list \<Rightarrow> LatencySummary" where
  "summary_of count last_ms samples =
     (let sorted_samples = sort samples in
      \<lparr>ls_count = count, ls_last_ms = last_ms, ls_min_ms = hd sorted_samples,
       ls_avg_ms = sum_list samples / real (length samples),
       ls_p50_ms = PercentileFromSorted sorted_samples (50 / 100),
       ls_p95_ms = PercentileFromSorted sorted_samples (95 / 100),
       ls_p99_ms = PercentileFromSorted sorted_samples (99 / 100),
       ls_max_ms = last sorted_samples\<rparr>)"

definition BuildSummary :: "LatencyStats \<Rightarrow> LatencySummary" where
  "BuildSummary st =
     (if st_sample_count st = 0
      then LatencySummary_zero\<lparr>ls_count := st_sample_count st, ls_last_ms := st_last_ms st\<rparr>
      else summary_of (st_sample_count st) (st_last_ms st) (ordered_samples st))"

definition RefreshSummary :: "bool \<Rightarrow> LatencyStats \<Rightarrow> LatencyStats" where
  "RefreshSummary force_refresh st =
     (if \<not> st_dirty st \<and> st_cached_summary_valid st then st
      else if \<not> force_refresh \<and> st_cached_summary_valid st
              \<and> st_pending_snapshot_samples st < st_snapshot_refresh_interval st then st
      else st\<lparr>st_cached_summary := BuildSummary st, st_cached_summary_valid := True, st_dirty := False,
              st_pending_snapshot_samples := 0\<rparr>)"

definition LatencyStats_Snapshot :: "LatencyStats \<Rightarrow> LatencyStats \<times> LatencySummary" where
  "LatencyStats_Snapshot st = (let st = RefreshSummary False st in (st, st_cached_summary st))"

definition average_ms :: "LatencyStats \<Rightarrow> LatencyStats \<times> real" where
  "average_ms st = (case LatencyStats_Snapshot st of (st, s) \<Rightarrow> (st, ls_avg_ms s))"

definition has_samples :: "LatencyStats \<Rightarrow> bool" where
  "has_samples st \<longleftrightarrow> 0 < st_sample_count st"

definition LatencyStats_Reset :: "LatencyStats \<Rightarrow> LatencyStats" where
  "LatencyStats_Reset st =
     st\<lparr>st_samples_ms := map (\<lambda>_. 0) (st_samples_ms st), st_next_index := 0, st_sample_count := 0,
        st_dirty := False, st_cached_summary_valid := False, st_pending_snapshot_samples := 0, st_last_ms := 0\<rparr>"

subsection \<open>The server's recorder\<close>

record LatencyRecorder =
  lr_max_samples :: nat
  lr_samples_ms :: "real list"

definition LatencyRecorder_new :: "nat \<Rightarrow> LatencyRecorder" where
  "LatencyRecorder_new max_samples = \<lparr>lr_max_samples = max_samples, lr_samples_ms = []\<rparr>"

definition RecordNs :: "u64 \<Rightarrow> LatencyRecorder \<Rightarrow> LatencyRecorder" where
  "RecordNs latency_ns r =
     (let latency_ms = real (unat latency_ns) / 1000000;
          kept = (if lr_max_samples r \<le> length (lr_samples_ms r) then tl (lr_samples_ms r) else lr_samples_ms r)
      in r\<lparr>lr_samples_ms := kept @ [latency_ms]\<rparr>)"

text \<open>The server's summary has no \<^verbatim>\<open>last_ms\<close>; the field is left at its default.\<close>

definition LatencyRecorder_Snapshot :: "LatencyRecorder \<Rightarrow> LatencySummary" where
  "LatencyRecorder_Snapshot r =
     (if lr_samples_ms r = [] then LatencySummary_zero
      else summary_of (length (lr_samples_ms r)) 0 (lr_samples_ms r))"

subsection \<open>The ring holds the most recent samples\<close>

definition stats_inv :: "LatencyStats \<Rightarrow> bool" where
  "stats_inv st \<longleftrightarrow>
     length (st_samples_ms st) = st_max_samples st \<and> st_sample_count st \<le> st_max_samples st \<and>
     (if st_sample_count st < st_max_samples st then st_next_index st = st_sample_count st
      else st_max_samples st = 0 \<or> st_next_index st < st_max_samples st)"

lemma stats_inv_new: "stats_inv (LatencyStats_new m k)"
  by (simp add: stats_inv_def LatencyStats_new_def)

lemma stats_inv_Record: "stats_inv st \<Longrightarrow> stats_inv (LatencyStats_Record v st)"
  by (auto simp: stats_inv_def LatencyStats_Record_def Let_def split: if_splits)

lemma ordered_samples_new: "ordered_samples (LatencyStats_new m k) = []"
  by (simp add: ordered_samples_def LatencyStats_new_def)

lemma max_samples_Record [simp]: "st_max_samples (LatencyStats_Record v st) = st_max_samples st"
  by (simp add: LatencyStats_Record_def Let_def)

lemma length_ordered_samples: "stats_inv st \<Longrightarrow> length (ordered_samples st) = st_sample_count st"
  by (auto simp: ordered_samples_def stats_inv_def min_def split: if_splits)

lemma drop_list_update_self: "i < length xs \<Longrightarrow> drop (Suc i) (xs[i := v]) = drop (Suc i) xs"
  by simp

lemma take_Suc_update: "i < length xs \<Longrightarrow> take (Suc i) (xs[i := v]) = take i xs @ [v]"
  by (simp add: take_Suc_conv_app_nth)

text \<open>One step of the simulation: recording appends, and forgets the oldest sample of a full ring.\<close>

lemma ordered_samples_Record:
  assumes "stats_inv st" "0 < st_max_samples st"
  shows "ordered_samples (LatencyStats_Record v st) =
    last_n (st_max_samples st) (ordered_samples st @ [v])"
proof (cases "st_sample_count st < st_max_samples st")
  case True
  then have i: "st_next_index st = st_sample_count st" "length (st_samples_ms st) = st_max_samples st"
    using assms(1) by (auto simp: stats_inv_def)
  show ?thesis
  proof (cases "Suc (st_sample_count st) < st_max_samples st")
    case T: True
    then show ?thesis using True i
      by (simp add: ordered_samples_def LatencyStats_Record_def Let_def last_n_def take_Suc_update)
  next
    case False
    then have full: "Suc (st_sample_count st) = st_max_samples st" using True by simp
    have "(st_samples_ms st)[st_sample_count st := v] = take (st_sample_count st) (st_samples_ms st) @ [v]"
      using full i take_Suc_update [of "st_sample_count st" "st_samples_ms st" v] by simp
    then show ?thesis using True i full assms(2)
      by (simp add: ordered_samples_def LatencyStats_Record_def Let_def last_n_def take_Suc_update)
  qed
next
  case False
  then have i: "st_next_index st < st_max_samples st" "length (st_samples_ms st) = st_max_samples st"
      "st_sample_count st = st_max_samples st"
    using assms by (auto simp: stats_inv_def)
  let ?i = "st_next_index st" and ?xs = "st_samples_ms st"
  have d: "drop ?i ?xs = ?xs ! ?i # drop (Suc ?i) ?xs" using i by (simp add: Cons_nth_drop_Suc)
  show ?thesis
  proof (cases "Suc ?i < st_max_samples st")
    case True
    then show ?thesis using i
      by (simp add: ordered_samples_def LatencyStats_Record_def Let_def last_n_def take_Suc_update d)
  next
    case F: False
    then have last: "Suc ?i = st_max_samples st" using i by simp
    then have "?xs[?i := v] = take ?i ?xs @ [v]" using i take_Suc_update [of ?i ?xs v] by simp
    then show ?thesis using i last
      by (simp add: ordered_samples_def LatencyStats_Record_def Let_def last_n_def d)
  qed
qed

lemma fold_Record:
  assumes "stats_inv st" "0 < st_max_samples st"
  shows "stats_inv (fold LatencyStats_Record vs st) \<and> st_max_samples (fold LatencyStats_Record vs st) = st_max_samples st \<and>
    ordered_samples (fold LatencyStats_Record vs st) = last_n (st_max_samples st) (ordered_samples st @ vs)"
  using assms
proof (induction vs arbitrary: st)
  case Nil
  have "length (ordered_samples st) \<le> st_max_samples st"
    using Nil(1) by (simp add: length_ordered_samples) (simp add: stats_inv_def)
  with Nil show ?case by simp
next
  case (Cons v vs)
  then show ?case
    using Cons.IH [of "LatencyStats_Record v st"] by (simp add: stats_inv_Record ordered_samples_Record)
qed

text \<open>the ring buffer is a window over the recorded samples: after any sequence of samples it
  holds the most recent \<open>max_samples\<close> of them, in the order they were recorded.\<close>

theorem LatencyStats_window:
  "0 < max_samples \<Longrightarrow>
     ordered_samples (fold LatencyStats_Record vs (LatencyStats_new max_samples k)) = last_n max_samples vs"
  using fold_Record [of "LatencyStats_new max_samples k" vs]
  by (simp add: stats_inv_new ordered_samples_new) (simp add: LatencyStats_new_def)

theorem LatencyStats_window_witness:
  "ordered_samples (fold LatencyStats_Record [1, 2, 3, 4, 5] (LatencyStats_new 3 1)) = [3, 4, 5]"
  using LatencyStats_window [of 3 "[1, 2, 3, 4, 5]" 1] by (simp add: last_n_def)

text \<open>The server's deque is the same window.\<close>

lemma RecordNs_window:
  assumes "length (lr_samples_ms r) \<le> lr_max_samples r" "0 < lr_max_samples r"
  shows "lr_samples_ms (RecordNs ns r) = last_n (lr_max_samples r) (lr_samples_ms r @ [real (unat ns) / 1000000])"
proof (cases "length (lr_samples_ms r) = lr_max_samples r")
  case True
  then show ?thesis using assms(2)
    by (cases "lr_samples_ms r") (auto simp: RecordNs_def Let_def last_n_def)
next
  case False
  then show ?thesis using assms by (simp add: RecordNs_def Let_def)
qed

subsection \<open>Percentiles of sorted samples\<close>

text \<open>The interpolated index lies between two neighbouring samples.\<close>

lemma percentile_index:
  assumes "0 < n" "0 \<le> q" "q \<le> 1"
  defines "idx \<equiv> q * real (n - 1)"
  shows "nat \<lfloor>idx\<rfloor> \<le> n - 1" "0 \<le> idx - real (nat \<lfloor>idx\<rfloor>)" "idx - real (nat \<lfloor>idx\<rfloor>) < 1"
proof -
  have "0 \<le> idx" using assms by simp
  moreover have "idx \<le> real (n - 1)" using assms by (simp add: mult_left_le_one_le)
  ultimately show "nat \<lfloor>idx\<rfloor> \<le> n - 1" "0 \<le> idx - real (nat \<lfloor>idx\<rfloor>)" "idx - real (nat \<lfloor>idx\<rfloor>) < 1"
    by linarith+
qed

text \<open>Linear interpolation is monotone in the index; this is what orders the percentiles.\<close>

definition interpolate :: "real list \<Rightarrow> real \<Rightarrow> real" where
  "interpolate xs idx =
     (let l = nat \<lfloor>idx\<rfloor>; u = min (l + 1) (length xs - 1) in xs ! l + (xs ! u - xs ! l) * (idx - real l))"

lemma PercentileFromSorted_interpolate:
  "xs \<noteq> [] \<Longrightarrow> PercentileFromSorted xs q = interpolate xs (q * real (length xs - 1))"
  by (simp add: PercentileFromSorted_def interpolate_def Let_def)

lemma interpolate_between:
  assumes "sorted xs" "0 \<le> idx" "nat \<lfloor>idx\<rfloor> < length xs"
  shows "xs ! nat \<lfloor>idx\<rfloor> \<le> interpolate xs idx"
    "interpolate xs idx \<le> xs ! min (nat \<lfloor>idx\<rfloor> + 1) (length xs - 1)"
proof -
  let ?l = "nat \<lfloor>idx\<rfloor>" and ?u = "min (nat \<lfloor>idx\<rfloor> + 1) (length xs - 1)"
  have f: "0 \<le> idx - real ?l" "idx - real ?l \<le> 1" using assms(2) by linarith+
  have le: "xs ! ?l \<le> xs ! ?u" using assms by (intro sorted_nth_mono) auto
  then show "xs ! ?l \<le> interpolate xs idx" using f by (simp add: interpolate_def Let_def)
  have "(xs ! ?u - xs ! ?l) * (idx - real ?l) \<le> xs ! ?u - xs ! ?l"
    using f le by (simp add: mult_left_le)
  then show "interpolate xs idx \<le> xs ! ?u" by (simp add: interpolate_def Let_def)
qed

lemma interpolate_mono:
  assumes "sorted xs" "0 \<le> i" "i \<le> j" "nat \<lfloor>j\<rfloor> < length xs"
  shows "interpolate xs i \<le> interpolate xs j"
proof (cases "nat \<lfloor>i\<rfloor> = nat \<lfloor>j\<rfloor>")
  case True
  let ?l = "nat \<lfloor>j\<rfloor>" and ?u = "min (nat \<lfloor>j\<rfloor> + 1) (length xs - 1)"
  have "0 \<le> xs ! ?u - xs ! ?l" using assms sorted_nth_mono [of xs ?l ?u] by auto
  then show ?thesis using assms(3) True
    by (simp add: interpolate_def Let_def mult_left_mono)
next
  case False
  then have lt: "nat \<lfloor>i\<rfloor> + 1 \<le> nat \<lfloor>j\<rfloor>" using assms(3) floor_mono [of i j] by linarith
  have "interpolate xs i \<le> xs ! min (nat \<lfloor>i\<rfloor> + 1) (length xs - 1)"
    using assms lt by (intro interpolate_between(2)) auto
  also have "\<dots> \<le> xs ! nat \<lfloor>j\<rfloor>" using assms lt by (intro sorted_nth_mono) auto
  also have "\<dots> \<le> interpolate xs j" using assms by (intro interpolate_between(1)) auto
  finally show ?thesis .
qed

lemma Percentile_mono:
  assumes "sorted xs" "xs \<noteq> []" "0 \<le> p" "p \<le> q" "q \<le> 1"
  shows "PercentileFromSorted xs p \<le> PercentileFromSorted xs q"
proof -
  have "nat \<lfloor>q * real (length xs - 1)\<rfloor> \<le> length xs - 1"
    using assms by (intro percentile_index(1)) auto
  then have lt: "nat \<lfloor>q * real (length xs - 1)\<rfloor> < length xs" using assms(2) by (cases xs) auto
  have "interpolate xs (p * real (length xs - 1)) \<le> interpolate xs (q * real (length xs - 1))"
    by (rule interpolate_mono [OF assms(1)]) (use assms lt in \<open>auto intro: mult_right_mono simp del: of_nat_diff\<close>)
  then show ?thesis using assms(2) by (simp only: PercentileFromSorted_interpolate not_False_eq_True)
qed

lemma Percentile_0: "xs \<noteq> [] \<Longrightarrow> PercentileFromSorted xs 0 = hd xs"
  by (simp add: PercentileFromSorted_def hd_conv_nth)

lemma Percentile_1: "xs \<noteq> [] \<Longrightarrow> PercentileFromSorted xs 1 = last xs"
  by (simp add: PercentileFromSorted_def last_conv_nth Let_def)

lemma summary_of_ordered:
  assumes "xs \<noteq> []"
  shows "ls_min_ms (summary_of n l xs) \<le> ls_p50_ms (summary_of n l xs)"
    "ls_p50_ms (summary_of n l xs) \<le> ls_p95_ms (summary_of n l xs)"
    "ls_p95_ms (summary_of n l xs) \<le> ls_p99_ms (summary_of n l xs)"
    "ls_p99_ms (summary_of n l xs) \<le> ls_max_ms (summary_of n l xs)"
proof -
  have ne: "sort xs \<noteq> []" using assms(1) by (metis length_0_conv length_sort)
  note m = Percentile_mono [OF sorted_sort ne]
  show "ls_min_ms (summary_of n l xs) \<le> ls_p50_ms (summary_of n l xs)"
    "ls_p50_ms (summary_of n l xs) \<le> ls_p95_ms (summary_of n l xs)"
    "ls_p95_ms (summary_of n l xs) \<le> ls_p99_ms (summary_of n l xs)"
    "ls_p99_ms (summary_of n l xs) \<le> ls_max_ms (summary_of n l xs)"
    using m [of 0 "50/100"] m [of "50/100" "95/100"] m [of "95/100" "99/100"] m [of "99/100" 1]
    by (simp_all add: summary_of_def Let_def Percentile_0 [OF ne] Percentile_1 [OF ne])
qed

lemma sum_list_bounds:
  assumes "\<And>x. x \<in> set xs \<Longrightarrow> a \<le> x \<and> x \<le> (b :: real)"
  shows "real (length xs) * a \<le> sum_list xs \<and> sum_list xs \<le> real (length xs) * b"
  using assms
proof (induction xs)
  case Nil
  then show ?case by simp
next
  case (Cons y ys)
  then have "a \<le> y" "y \<le> b" by auto
  then show ?case using Cons by (simp add: algebra_simps add_mono)
qed

lemma sorted_hd_last: "sorted xs \<Longrightarrow> x \<in> set xs \<Longrightarrow> hd xs \<le> x \<and> x \<le> last xs"
proof
  assume xs: "sorted xs" "x \<in> set xs"
  then show "hd xs \<le> x" by (cases xs) auto
  show "x \<le> last xs" using xs by (cases xs rule: rev_cases) (auto simp: sorted_append)
qed

lemma summary_of_bounds:
  assumes "x \<in> set xs"
  shows "ls_min_ms (summary_of n l xs) \<le> x \<and> x \<le> ls_max_ms (summary_of n l xs)"
  using assms sorted_hd_last [OF sorted_sort, of x xs] by (simp add: summary_of_def Let_def)

lemma summary_of_avg:
  assumes "xs \<noteq> []"
  shows "ls_min_ms (summary_of n l xs) \<le> ls_avg_ms (summary_of n l xs) \<and>
    ls_avg_ms (summary_of n l xs) \<le> ls_max_ms (summary_of n l xs)"
proof -
  have "real (length xs) * ls_min_ms (summary_of n l xs) \<le> sum_list xs \<and>
      sum_list xs \<le> real (length xs) * ls_max_ms (summary_of n l xs)"
    by (rule sum_list_bounds) (rule summary_of_bounds)
  moreover have "ls_avg_ms (summary_of n l xs) = sum_list xs / real (length xs)"
    by (simp add: summary_of_def Let_def)
  moreover have "0 < real (length xs)" using assms by simp
  ultimately show ?thesis
    by (metis mult.commute pos_divide_le_eq pos_le_divide_eq)
qed

text \<open>a summary built after at least one sample is consistent: every sample of the window lies
  between minimum and maximum, so does the average, and the three percentiles are ordered.\<close>

theorem BuildSummary_consistent:
  assumes "0 < max_samples" "vs \<noteq> []" "x \<in> set (last_n max_samples vs)"
    and "s = BuildSummary (fold LatencyStats_Record vs (LatencyStats_new max_samples k))"
  shows "ls_min_ms s \<le> x \<and> x \<le> ls_max_ms s \<and> ls_min_ms s \<le> ls_avg_ms s \<and> ls_avg_ms s \<le> ls_max_ms s \<and>
    ls_min_ms s \<le> ls_p50_ms s \<and> ls_p50_ms s \<le> ls_p95_ms s \<and> ls_p95_ms s \<le> ls_p99_ms s \<and> ls_p99_ms s \<le> ls_max_ms s \<and>
    ls_count s = min (length vs) max_samples"
proof -
  let ?st = "fold LatencyStats_Record vs (LatencyStats_new max_samples k)"
  have w: "ordered_samples ?st = last_n max_samples vs" and inv: "stats_inv ?st"
    using fold_Record [of "LatencyStats_new max_samples k" vs] assms(1)
    by (simp_all add: stats_inv_new ordered_samples_new) (simp_all add: LatencyStats_new_def)
  have n: "st_sample_count ?st = min (length vs) max_samples"
    using length_ordered_samples [OF inv] w by simp
  have pos: "0 < min (length vs) max_samples" using assms(1,2) by (cases vs) auto
  have s: "s = summary_of (st_sample_count ?st) (st_last_ms ?st) (last_n max_samples vs)"
    using n pos w assms(4) by (auto simp: BuildSummary_def min_def)
  have ne: "last_n max_samples vs \<noteq> []" using assms(3) by auto
  have "ls_count s = min (length vs) max_samples" by (simp add: s summary_of_def Let_def n)
  then show ?thesis
    using summary_of_ordered [OF ne] summary_of_bounds [OF assms(3)] summary_of_avg [OF ne] unfolding s by blast
qed

theorem BuildSummary_consistent_witness:
  "\<exists>s. s = BuildSummary (fold LatencyStats_Record [5, 1, 4] (LatencyStats_new 2 8)) \<and>
     ls_min_ms s \<le> 4 \<and> 4 \<le> ls_max_ms s \<and> ls_p50_ms s \<le> ls_p95_ms s \<and> ls_count s = 2"
  using BuildSummary_consistent [of 2 "[5, 1, 4]" 4 _ 8, OF _ _ _ refl] by (simp add: last_n_def)

end
