(* ===== verification/Adaptive_Jitter.thy ===== *)
theory Adaptive_Jitter
  imports Latency
begin

section \<open>The adaptive jitter buffer controller\<close>

text \<open>
  \<^verbatim>\<open>sclient/src/modules/network/AdaptiveJitterBuffer.h\<close>: a three-state machine (bypass, low
  latency, smooth) driven by the jitter samples, and the network quality that scales the waiting
  time and depth of the buffer. Reading a percentile refreshes the cached summary of the sample
  window (\<^verbatim>\<open>mutable\<close> members), so the readers return the state too. The log lines are left
  out, the members that decide when to log are kept.
\<close>

datatype JitterBufferMode = kBypass | kLowLatency | kSmooth

datatype NetworkQuality = kExcellent | kGood | kFair | kPoor

record AdaptiveJitterBufferConfig =
  ac_min_delay_ms :: int
  ac_safety_factor :: real
  ac_smooth_factor :: real
  ac_base_max_wait_ms :: int
  ac_base_max_frames :: nat

definition AdaptiveJitterBufferConfig_default :: AdaptiveJitterBufferConfig where
  "AdaptiveJitterBufferConfig_default =
     \<lparr>ac_min_delay_ms = 2, ac_safety_factor = 3/2, ac_smooth_factor = 5/2, ac_base_max_wait_ms = 80,
      ac_base_max_frames = 8\<rparr>"

record AdaptiveJitterBuffer =
  aj_active_mode :: JitterBufferMode
  aj_network_quality :: NetworkQuality
  aj_auto_mode :: bool
  aj_window :: LatencyStats
  aj_consecutive_high_jitter :: int
  aj_consecutive_low_jitter :: int
  aj_low_to_smooth_p95_exceeded :: bool
  aj_smooth_low_p95_since_ns :: u64
  aj_last_logged_mode :: JitterBufferMode
  aj_last_logged_quality :: NetworkQuality
  aj_last_periodic_log_ns :: u64
  aj_config :: AdaptiveJitterBufferConfig
  aj_current_max_wait_ms :: int
  aj_current_max_frames :: nat

text \<open>The constructor does not initialise \<^verbatim>\<open>last_logged_quality_\<close>; its value is the argument
  \<open>uninitialised\<close>.\<close>

definition AdaptiveJitterBuffer_new :: "NetworkQuality \<Rightarrow> AdaptiveJitterBuffer" where
  "AdaptiveJitterBuffer_new uninitialised =
     \<lparr>aj_active_mode = kBypass, aj_network_quality = kExcellent, aj_auto_mode = True,
      aj_window = LatencyStats_new 100 4, aj_consecutive_high_jitter = 0, aj_consecutive_low_jitter = 0,
      aj_low_to_smooth_p95_exceeded = False, aj_smooth_low_p95_since_ns = 0,
      aj_last_logged_mode = kBypass, aj_last_logged_quality = uninitialised, aj_last_periodic_log_ns = 0,
      aj_config = AdaptiveJitterBufferConfig_default, aj_current_max_wait_ms = 80, aj_current_max_frames = 8\<rparr>"

definition Configure :: "AdaptiveJitterBufferConfig \<Rightarrow> AdaptiveJitterBuffer \<Rightarrow> AdaptiveJitterBuffer" where
  "Configure config aj =
     aj\<lparr>aj_config := config, aj_current_max_wait_ms := ac_base_max_wait_ms config,
        aj_current_max_frames := ac_base_max_frames config\<rparr>"

definition SetFixedMode :: "JitterBufferMode \<Rightarrow> AdaptiveJitterBuffer \<Rightarrow> AdaptiveJitterBuffer" where
  "SetFixedMode mode aj = aj\<lparr>aj_auto_mode := False, aj_active_mode := mode\<rparr>"

definition EnableAutoMode :: "AdaptiveJitterBuffer \<Rightarrow> AdaptiveJitterBuffer" where
  "EnableAutoMode aj = aj\<lparr>aj_auto_mode := True\<rparr>"

definition AdaptiveJitterBuffer_Reset :: "AdaptiveJitterBuffer \<Rightarrow> AdaptiveJitterBuffer" where
  "AdaptiveJitterBuffer_Reset aj =
     aj\<lparr>aj_window := LatencyStats_new 100 4, aj_active_mode := kBypass, aj_network_quality := kExcellent,
        aj_consecutive_high_jitter := 0, aj_consecutive_low_jitter := 0,
        aj_low_to_smooth_p95_exceeded := False, aj_smooth_low_p95_since_ns := 0,
        aj_last_logged_mode := kBypass, aj_last_logged_quality := kExcellent, aj_last_periodic_log_ns := 0,
        aj_current_max_wait_ms := ac_base_max_wait_ms (aj_config aj),
        aj_current_max_frames := ac_base_max_frames (aj_config aj)\<rparr>"

definition jitter_snapshot :: "AdaptiveJitterBuffer \<Rightarrow> AdaptiveJitterBuffer \<times> LatencySummary" where
  "jitter_snapshot aj = (case LatencyStats_Snapshot (aj_window aj) of (w, s) \<Rightarrow> (aj\<lparr>aj_window := w\<rparr>, s))"

definition jitter_p50_ms :: "AdaptiveJitterBuffer \<Rightarrow> AdaptiveJitterBuffer \<times> real" where
  "jitter_p50_ms aj = (case jitter_snapshot aj of (aj, s) \<Rightarrow> (aj, ls_p50_ms s))"

definition jitter_p95_ms :: "AdaptiveJitterBuffer \<Rightarrow> AdaptiveJitterBuffer \<times> real" where
  "jitter_p95_ms aj = (case jitter_snapshot aj of (aj, s) \<Rightarrow> (aj, ls_p95_ms s))"

subsection \<open>Quality, transitions, delay\<close>

definition quality_of :: "real \<Rightarrow> real \<Rightarrow> real \<Rightarrow> NetworkQuality" where
  "quality_of p95 loss_percent skip_percent =
     (if p95 > 50 \<or> loss_percent > 1 \<or> skip_percent > 5 then kPoor
      else if p95 > 10 \<or> loss_percent > 1/10 \<or> skip_percent > 1 then kFair
      else if p95 > 1 \<or> loss_percent > 1/100 then kGood
      else kExcellent)"

definition AssessNetworkQuality :: "real \<Rightarrow> real \<Rightarrow> real \<Rightarrow> AdaptiveJitterBuffer \<Rightarrow> AdaptiveJitterBuffer" where
  "AssessNetworkQuality jitter_ms loss_percent skip_percent aj =
     (case jitter_p95_ms aj of (aj, p95) \<Rightarrow> aj\<lparr>aj_network_quality := quality_of p95 loss_percent skip_percent\<rparr>)"

definition ApplyQualityParams :: "AdaptiveJitterBuffer \<Rightarrow> AdaptiveJitterBuffer" where
  "ApplyQualityParams aj =
     (let w = ac_base_max_wait_ms (aj_config aj); f = ac_base_max_frames (aj_config aj) in
      case aj_network_quality aj of
        kExcellent \<Rightarrow> aj\<lparr>aj_current_max_wait_ms := max 20 (tdiv w 4), aj_current_max_frames := max 2 (f div 4)\<rparr>
      | kGood \<Rightarrow> aj\<lparr>aj_current_max_wait_ms := tdiv w 2, aj_current_max_frames := max 4 (f div 2)\<rparr>
      | kFair \<Rightarrow> aj\<lparr>aj_current_max_wait_ms := w, aj_current_max_frames := f\<rparr>
      | kPoor \<Rightarrow> aj\<lparr>aj_current_max_wait_ms := w * 3, aj_current_max_frames := f * 4\<rparr>)"

definition EvaluateStateTransition :: "real \<Rightarrow> u64 \<Rightarrow> AdaptiveJitterBuffer \<Rightarrow> AdaptiveJitterBuffer" where
  "EvaluateStateTransition jitter_ms now_ns aj0 =
     (case jitter_p95_ms aj0 of (aj, p95) \<Rightarrow>
      case aj_active_mode aj of
        kBypass \<Rightarrow>
          (let aj = aj\<lparr>aj_consecutive_high_jitter :=
                        (if jitter_ms > 1 then aj_consecutive_high_jitter aj + 1 else 0)\<rparr>
           in if aj_consecutive_high_jitter aj \<ge> 10 then
                aj\<lparr>aj_active_mode := kLowLatency, aj_consecutive_high_jitter := 0,
                   aj_consecutive_low_jitter := 0, aj_low_to_smooth_p95_exceeded := False\<rparr>
              else aj)
      | kLowLatency \<Rightarrow>
          (let aj = aj\<lparr>aj_consecutive_low_jitter :=
                        (if jitter_ms < 1/2 then aj_consecutive_low_jitter aj + 1 else 0)\<rparr>
           in if aj_consecutive_low_jitter aj \<ge> 20 then
                aj\<lparr>aj_active_mode := kBypass, aj_consecutive_low_jitter := 0, aj_consecutive_high_jitter := 0\<rparr>
              else if p95 > 10 then
                (if \<not> aj_low_to_smooth_p95_exceeded aj then aj\<lparr>aj_low_to_smooth_p95_exceeded := True\<rparr>
                 else aj\<lparr>aj_active_mode := kSmooth, aj_consecutive_low_jitter := 0,
                         aj_consecutive_high_jitter := 0, aj_low_to_smooth_p95_exceeded := False,
                         aj_smooth_low_p95_since_ns := 0\<rparr>)
              else aj\<lparr>aj_low_to_smooth_p95_exceeded := False\<rparr>)
      | kSmooth \<Rightarrow>
          (if p95 < 5 then
             (if aj_smooth_low_p95_since_ns aj = 0 then aj\<lparr>aj_smooth_low_p95_since_ns := now_ns\<rparr>
              else if now_ns - aj_smooth_low_p95_since_ns aj \<ge> 3000000000 then
                aj\<lparr>aj_active_mode := kLowLatency, aj_consecutive_low_jitter := 0,
                   aj_consecutive_high_jitter := 0, aj_low_to_smooth_p95_exceeded := False,
                   aj_smooth_low_p95_since_ns := 0\<rparr>
              else aj)
           else aj\<lparr>aj_smooth_low_p95_since_ns := 0\<rparr>))"

definition ComputeDelayForMode :: "JitterBufferMode \<Rightarrow> AdaptiveJitterBuffer \<Rightarrow> AdaptiveJitterBuffer \<times> u64" where
  "ComputeDelayForMode mode aj0 =
     (case mode of
        kBypass \<Rightarrow> (aj0, 0)
      | kLowLatency \<Rightarrow>
          (case jitter_p95_ms aj0 of (aj, p95) \<Rightarrow>
             (aj, trunc_u64 (max (of_int (ac_min_delay_ms (aj_config aj))) (p95 * ac_safety_factor (aj_config aj)) * 1000000)))
      | kSmooth \<Rightarrow>
          (case jitter_p95_ms aj0 of (aj, p95) \<Rightarrow>
             (aj, trunc_u64 (max (of_int (ac_min_delay_ms (aj_config aj))) (p95 * ac_smooth_factor (aj_config aj)) * 1000000))))"

definition TargetDelayNs :: "AdaptiveJitterBuffer \<Rightarrow> AdaptiveJitterBuffer \<times> u64" where
  "TargetDelayNs aj = ComputeDelayForMode (aj_active_mode aj) aj"

definition RecordJitter :: "real \<Rightarrow> real \<Rightarrow> real \<Rightarrow> u64 \<Rightarrow> AdaptiveJitterBuffer \<Rightarrow> AdaptiveJitterBuffer" where
  "RecordJitter jitter_ms fragment_loss_percent skip_rate_percent now_ns aj =
     (let aj = aj\<lparr>aj_window := LatencyStats_Record jitter_ms (aj_window aj)\<rparr>;
          aj = AssessNetworkQuality jitter_ms fragment_loss_percent skip_rate_percent aj;
          aj = (if aj_auto_mode aj \<and> 10 \<le> st_sample_count (aj_window aj)
                then ApplyQualityParams (EvaluateStateTransition jitter_ms now_ns aj) else aj);
          aj = fst (TargetDelayNs aj);
          aj = (if aj_active_mode aj \<noteq> aj_last_logged_mode aj \<or> aj_network_quality aj \<noteq> aj_last_logged_quality aj
                then aj\<lparr>aj_last_logged_mode := aj_active_mode aj, aj_last_logged_quality := aj_network_quality aj\<rparr>
                else aj)
      in if 5000000000 \<le> now_ns - aj_last_periodic_log_ns aj
         then aj\<lparr>aj_last_periodic_log_ns := now_ns\<rparr> else aj)"


subsection \<open>What a step can change\<close>

lemma RefreshSummary_idem [simp]: "RefreshSummary False (RefreshSummary False st) = RefreshSummary False st"
  by (simp add: RefreshSummary_def)

lemma RefreshSummary_selectors [simp]:
  "st_sample_count (RefreshSummary f st) = st_sample_count st"
  "st_max_samples (RefreshSummary f st) = st_max_samples st"
  by (simp_all add: RefreshSummary_def)

text \<open>Reading the percentiles again (as the log lines do) changes nothing.\<close>

lemma jitter_snapshot_idem: "jitter_snapshot (fst (jitter_snapshot aj)) = jitter_snapshot aj"
  by (simp add: jitter_snapshot_def LatencyStats_Snapshot_def Let_def)

definition refreshed :: "AdaptiveJitterBuffer \<Rightarrow> AdaptiveJitterBuffer" where
  "refreshed aj = aj\<lparr>aj_window := RefreshSummary False (aj_window aj)\<rparr>"

definition p95_of :: "AdaptiveJitterBuffer \<Rightarrow> real" where
  "p95_of aj = ls_p95_ms (st_cached_summary (RefreshSummary False (aj_window aj)))"

lemma jitter_p95_ms_eq: "jitter_p95_ms aj = (refreshed aj, p95_of aj)"
  by (simp add: jitter_p95_ms_def jitter_snapshot_def LatencyStats_Snapshot_def Let_def refreshed_def p95_of_def)

lemma refreshed_simps [simp]:
  "aj_active_mode (refreshed aj) = aj_active_mode aj"
  "aj_network_quality (refreshed aj) = aj_network_quality aj"
  "aj_auto_mode (refreshed aj) = aj_auto_mode aj"
  "aj_consecutive_high_jitter (refreshed aj) = aj_consecutive_high_jitter aj"
  "aj_consecutive_low_jitter (refreshed aj) = aj_consecutive_low_jitter aj"
  "aj_config (refreshed aj) = aj_config aj"
  "aj_current_max_wait_ms (refreshed aj) = aj_current_max_wait_ms aj"
  "aj_current_max_frames (refreshed aj) = aj_current_max_frames aj"
  "st_sample_count (aj_window (refreshed aj)) = st_sample_count (aj_window aj)"
  "p95_of (refreshed aj) = p95_of aj"
  by (simp_all add: refreshed_def p95_of_def)

lemma TargetDelayNs_state [simp]:
  "aj_active_mode (fst (TargetDelayNs aj)) = aj_active_mode aj"
  "aj_network_quality (fst (TargetDelayNs aj)) = aj_network_quality aj"
  "aj_auto_mode (fst (TargetDelayNs aj)) = aj_auto_mode aj"
  "aj_consecutive_high_jitter (fst (TargetDelayNs aj)) = aj_consecutive_high_jitter aj"
  "aj_config (fst (TargetDelayNs aj)) = aj_config aj"
  "aj_current_max_wait_ms (fst (TargetDelayNs aj)) = aj_current_max_wait_ms aj"
  "aj_current_max_frames (fst (TargetDelayNs aj)) = aj_current_max_frames aj"
  by (simp_all add: TargetDelayNs_def ComputeDelayForMode_def jitter_p95_ms_eq split: JitterBufferMode.splits)

lemma Assess_state [simp]:
  "aj_active_mode (AssessNetworkQuality j l s aj) = aj_active_mode aj"
  "aj_auto_mode (AssessNetworkQuality j l s aj) = aj_auto_mode aj"
  "aj_consecutive_high_jitter (AssessNetworkQuality j l s aj) = aj_consecutive_high_jitter aj"
  "aj_config (AssessNetworkQuality j l s aj) = aj_config aj"
  "aj_network_quality (AssessNetworkQuality j l s aj) = quality_of (p95_of aj) l s"
  "st_sample_count (aj_window (AssessNetworkQuality j l s aj)) = st_sample_count (aj_window aj)"
  "aj_current_max_wait_ms (AssessNetworkQuality j l s aj) = aj_current_max_wait_ms aj"
  "aj_current_max_frames (AssessNetworkQuality j l s aj) = aj_current_max_frames aj"
  by (simp_all add: AssessNetworkQuality_def jitter_p95_ms_eq)

lemma ApplyQualityParams_state [simp]:
  "aj_active_mode (ApplyQualityParams aj) = aj_active_mode aj"
  "aj_network_quality (ApplyQualityParams aj) = aj_network_quality aj"
  "aj_auto_mode (ApplyQualityParams aj) = aj_auto_mode aj"
  "aj_consecutive_high_jitter (ApplyQualityParams aj) = aj_consecutive_high_jitter aj"
  "aj_config (ApplyQualityParams aj) = aj_config aj"
  by (simp_all add: ApplyQualityParams_def Let_def split: NetworkQuality.splits)

lemma Evaluate_state [simp]:
  "aj_auto_mode (EvaluateStateTransition j t aj) = aj_auto_mode aj"
  "aj_network_quality (EvaluateStateTransition j t aj) = aj_network_quality aj"
  "aj_config (EvaluateStateTransition j t aj) = aj_config aj"
  by (simp_all add: EvaluateStateTransition_def jitter_p95_ms_eq Let_def split: JitterBufferMode.splits)

text \<open>\<open>RecordJitter\<close>, as far as mode and counter go: an evaluation of the controller with the new
  sample when automatic adjustment is on and enough samples are there, nothing otherwise.\<close>

definition assessed :: "real \<Rightarrow> real \<Rightarrow> real \<Rightarrow> AdaptiveJitterBuffer \<Rightarrow> AdaptiveJitterBuffer" where
  "assessed j l s aj = AssessNetworkQuality j l s (aj\<lparr>aj_window := LatencyStats_Record j (aj_window aj)\<rparr>)"

lemma assessed_simps [simp]:
  "aj_active_mode (assessed j l s aj) = aj_active_mode aj"
  "aj_auto_mode (assessed j l s aj) = aj_auto_mode aj"
  "aj_consecutive_high_jitter (assessed j l s aj) = aj_consecutive_high_jitter aj"
  "aj_config (assessed j l s aj) = aj_config aj"
  "aj_current_max_wait_ms (assessed j l s aj) = aj_current_max_wait_ms aj"
  "aj_current_max_frames (assessed j l s aj) = aj_current_max_frames aj"
  by (simp_all add: assessed_def)

definition evaluates :: "AdaptiveJitterBuffer \<Rightarrow> bool" where
  "evaluates aj \<longleftrightarrow> aj_auto_mode aj \<and> 10 \<le> st_sample_count (aj_window aj)"

lemma RecordJitter_core:
  defines "eval j l s t aj \<equiv> (if evaluates (assessed j l s aj)
      then ApplyQualityParams (EvaluateStateTransition j t (assessed j l s aj)) else assessed j l s aj)"
  shows "aj_active_mode (RecordJitter j l s t aj) = aj_active_mode (eval j l s t aj)"
    "aj_consecutive_high_jitter (RecordJitter j l s t aj) = aj_consecutive_high_jitter (eval j l s t aj)"
    "aj_auto_mode (RecordJitter j l s t aj) = aj_auto_mode aj"
    "aj_config (RecordJitter j l s t aj) = aj_config aj"
    "aj_network_quality (RecordJitter j l s t aj) = aj_network_quality (eval j l s t aj)"
    "aj_current_max_wait_ms (RecordJitter j l s t aj) = aj_current_max_wait_ms (eval j l s t aj)"
    "aj_current_max_frames (RecordJitter j l s t aj) = aj_current_max_frames (eval j l s t aj)"
  unfolding eval_def
  by (simp_all add: RecordJitter_def Let_def evaluates_def assessed_def)

text \<open>a mode that was fixed by the configuration is never left, whatever is measured, and the
  waiting time and depth of the buffer stay as configured.\<close>

theorem RecordJitter_fixed_mode:
  "aj_active_mode (RecordJitter j l s t (SetFixedMode m aj)) = m \<and>
   aj_current_max_wait_ms (RecordJitter j l s t (SetFixedMode m aj)) = aj_current_max_wait_ms aj \<and>
   aj_current_max_frames (RecordJitter j l s t (SetFixedMode m aj)) = aj_current_max_frames aj"
  by (simp add: RecordJitter_core evaluates_def) (simp add: SetFixedMode_def)

text \<open>The modes are visited one step at a time.\<close>

inductive mode_step :: "JitterBufferMode \<Rightarrow> JitterBufferMode \<Rightarrow> bool" where
  stay: "mode_step m m"
| raise_low: "mode_step kBypass kLowLatency"
| lower_bypass: "mode_step kLowLatency kBypass"
| raise_smooth: "mode_step kLowLatency kSmooth"
| lower_low: "mode_step kSmooth kLowLatency"

inductive_simps mode_step_simps [simp]:
  "mode_step kBypass m" "mode_step kLowLatency m" "mode_step kSmooth m"

lemma Evaluate_mode_step: "mode_step (aj_active_mode aj) (aj_active_mode (EvaluateStateTransition j t aj))"
  by (cases "aj_active_mode aj") (auto simp: EvaluateStateTransition_def jitter_p95_ms_eq Let_def)

lemma RecordJitter_mode_step: "mode_step (aj_active_mode aj) (aj_active_mode (RecordJitter j l s t aj))"
  using Evaluate_mode_step [of "assessed j l s aj" j t]
  by (auto simp: RecordJitter_core intro: mode_step.stay)


text \<open>A sequence of measurements: jitter, loss, skip rate and time of each.\<close>

definition run_jitter :: "(real \<times> real \<times> real \<times> u64) list \<Rightarrow> AdaptiveJitterBuffer \<Rightarrow> AdaptiveJitterBuffer" where
  "run_jitter ms aj = fold (\<lambda>(j, l, s, t) aj. RecordJitter j l s t aj) ms aj"

lemma run_jitter_simps [simp]:
  "run_jitter [] aj = aj"
  "run_jitter (ms @ [(j, l, s, t)]) aj = RecordJitter j l s t (run_jitter ms aj)"
  by (simp_all add: run_jitter_def)

text \<open>The length of the run of samples above 1 ms that ends a sequence.\<close>

definition high_run :: "(real \<times> real \<times> real \<times> u64) list \<Rightarrow> nat" where
  "high_run ms = length (takeWhile (\<lambda>(j, _). j > 1) (rev ms))"

lemma high_run_snoc: "high_run (ms @ [(j, r)]) = (if j > 1 then Suc (high_run ms) else 0)"
  by (simp add: high_run_def)

text \<open>In bypass mode the counter never exceeds that run.\<close>

lemma Evaluate_bypass:
  assumes "aj_active_mode aj = kBypass"
  shows "aj_active_mode (EvaluateStateTransition j t aj) =
      (if (if j > 1 then aj_consecutive_high_jitter aj + 1 else 0) \<ge> 10 then kLowLatency else kBypass)"
    "aj_active_mode (EvaluateStateTransition j t aj) = kBypass \<Longrightarrow>
      aj_consecutive_high_jitter (EvaluateStateTransition j t aj) = (if j > 1 then aj_consecutive_high_jitter aj + 1 else 0)"
  using assms by (auto simp: EvaluateStateTransition_def jitter_p95_ms_eq Let_def split: if_splits)

text \<open>The counter of a controller that does not evaluate yet is still zero, so it stays below the
  run of high samples at every step.\<close>

definition bypass_inv :: "(real \<times> real \<times> real \<times> u64) list \<Rightarrow> AdaptiveJitterBuffer \<Rightarrow> bool" where
  "bypass_inv ms aj \<longleftrightarrow> aj_active_mode aj = kBypass \<and> aj_consecutive_high_jitter aj \<le> int (high_run ms) \<and>
     (st_sample_count (aj_window aj) < 10 \<longrightarrow> aj_consecutive_high_jitter aj = 0) \<and>
     st_max_samples (aj_window aj) = 100 \<and> aj_auto_mode aj"

lemma window_count_mono:
  "st_sample_count (aj_window (assessed j l s aj)) =
     (if st_max_samples (aj_window aj) = 0 then st_sample_count (aj_window aj)
      else if st_sample_count (aj_window aj) < st_max_samples (aj_window aj) then Suc (st_sample_count (aj_window aj))
      else st_sample_count (aj_window aj))"
  by (simp add: assessed_def LatencyStats_Record_def Let_def)

lemma window_RecordJitter:
  "st_sample_count (aj_window (RecordJitter j l s t aj)) = st_sample_count (aj_window (assessed j l s aj)) \<and>
   st_max_samples (aj_window (RecordJitter j l s t aj)) = st_max_samples (aj_window aj)"
proof -
  have E: "st_sample_count (aj_window (EvaluateStateTransition j t b)) = st_sample_count (aj_window b) \<and>
      st_max_samples (aj_window (EvaluateStateTransition j t b)) = st_max_samples (aj_window b)" for b
    by (simp add: EvaluateStateTransition_def jitter_p95_ms_eq Let_def refreshed_def split: JitterBufferMode.splits)
  have A: "aj_window (ApplyQualityParams b) = aj_window b" for b
    by (simp add: ApplyQualityParams_def Let_def split: NetworkQuality.splits)
  have T: "st_sample_count (aj_window (fst (TargetDelayNs b))) = st_sample_count (aj_window b) \<and>
      st_max_samples (aj_window (fst (TargetDelayNs b))) = st_max_samples (aj_window b)" for b
    by (simp add: TargetDelayNs_def ComputeDelayForMode_def jitter_p95_ms_eq refreshed_def split: JitterBufferMode.splits)
  have S: "st_max_samples (aj_window (AssessNetworkQuality j l s b)) = st_max_samples (aj_window b)" for b
    by (simp add: AssessNetworkQuality_def jitter_p95_ms_eq refreshed_def)
  show ?thesis by (simp add: RecordJitter_def Let_def E A T S assessed_def)
qed

lemma bypass_inv_step:
  assumes "bypass_inv ms aj" "high_run (ms @ [(j, l, s, t)]) < 10"
  shows "bypass_inv (ms @ [(j, l, s, t)]) (RecordJitter j l s t aj)"
proof (cases "evaluates (assessed j l s aj)")
  case True
  let ?a = "assessed j l s aj"
  have m: "aj_active_mode ?a = kBypass" using assms(1) by (simp add: bypass_inv_def)
  have c: "(if j > 1 then aj_consecutive_high_jitter ?a + 1 else 0) \<le> int (high_run (ms @ [(j, l, s, t)]))"
    using assms(1) by (simp add: bypass_inv_def high_run_snoc)
  then have b: "aj_active_mode (EvaluateStateTransition j t ?a) = kBypass"
    using assms(2) by (subst Evaluate_bypass(1) [OF m]) auto
  show ?thesis
    using c b Evaluate_bypass(2) [OF m b] True assms(1) window_RecordJitter [of j l s t aj]
    by (auto simp: bypass_inv_def RecordJitter_core evaluates_def)
next
  case False
  then show ?thesis
    using assms(1) window_RecordJitter [of j l s t aj]
    by (auto simp: bypass_inv_def RecordJitter_core evaluates_def window_count_mono split: if_splits)
qed

text \<open>hysteresis of the controller: from a reset controller in automatic mode, bypass mode is left
  only after ten consecutive samples above 1 ms. As long as no sequence of measurements ends in
  such a run, the mode is bypass.\<close>

theorem bypass_until_ten_high:
  assumes "\<forall>k\<le>length ms. high_run (take k ms) < 10" "aj_auto_mode aj"
  shows "aj_active_mode (run_jitter ms (AdaptiveJitterBuffer_Reset aj)) = kBypass"
proof -
  have "bypass_inv ms (run_jitter ms (AdaptiveJitterBuffer_Reset aj))"
    using assms(1)
  proof (induction ms rule: rev_induct)
    case Nil
    show ?case using assms(2) by (simp add: bypass_inv_def AdaptiveJitterBuffer_Reset_def LatencyStats_new_def)
  next
    case (snoc m ms)
    have "\<forall>k\<le>length ms. high_run (take k ms) < 10"
    proof (intro allI impI)
      fix k assume "k \<le> length ms"
      then show "high_run (take k ms) < 10" using snoc.prems [rule_format, of k] by simp
    qed
    then have "bypass_inv ms (run_jitter ms (AdaptiveJitterBuffer_Reset aj))" by (rule snoc.IH)
    moreover have "high_run (ms @ [m]) < 10" using snoc.prems [rule_format, of "length (ms @ [m])"] by simp
    ultimately show ?case by (cases m) (auto intro: bypass_inv_step)
  qed
  then show ?thesis by (simp add: bypass_inv_def)
qed


theorem bypass_until_ten_high_witness:
  "aj_active_mode (run_jitter [(2, 0, 0, 1), (3, 0, 0, 2), (0, 0, 0, 3)]
     (AdaptiveJitterBuffer_Reset (AdaptiveJitterBuffer_new kGood))) = kBypass"
  using bypass_until_ten_high [of "[(2, 0, 0, 1), (3, 0, 0, 2), (0, 0, 0, 3)]" "AdaptiveJitterBuffer_new kGood"]
  by (simp add: high_run_def AdaptiveJitterBuffer_new_def le_Suc_eq numeral_3_eq_3)

subsection \<open>The delay and the limits a mode and a quality give\<close>

lemma TargetDelayNs_value:
  "snd (TargetDelayNs aj) = (case aj_active_mode aj of
      kBypass \<Rightarrow> 0
    | kLowLatency \<Rightarrow> trunc_u64 (max (of_int (ac_min_delay_ms (aj_config aj))) (p95_of aj * ac_safety_factor (aj_config aj)) * 1000000)
    | kSmooth \<Rightarrow> trunc_u64 (max (of_int (ac_min_delay_ms (aj_config aj))) (p95_of aj * ac_smooth_factor (aj_config aj)) * 1000000))"
  by (simp add: TargetDelayNs_def ComputeDelayForMode_def jitter_p95_ms_eq split: JitterBufferMode.splits)

lemma unat_trunc_u64: "0 \<le> x \<Longrightarrow> x < 2 ^ 64 \<Longrightarrow> unat (trunc_u64 x) = nat \<lfloor>x\<rfloor>"
proof -
  assume x: "0 \<le> x" "x < 2 ^ 64"
  then have "nat \<lfloor>x\<rfloor> < 2 ^ 64" by (simp add: nat_less_iff floor_less_iff)
  then show ?thesis by (simp add: trunc_u64_def unat_of_nat take_bit_nat_eq_self)
qed

lemma trunc_u64_mono: "0 \<le> x \<Longrightarrow> x \<le> y \<Longrightarrow> y < 2 ^ 64 \<Longrightarrow> trunc_u64 x \<le> trunc_u64 y"
  by (simp add: word_le_nat_alt unat_trunc_u64 nat_mono floor_mono)

text \<open>the target delay grows with the mode: none in bypass, at least the configured minimum in the
  other two, and not smaller in smooth mode than in low-latency mode (for delays below 2^64 ns and
  a smooth factor not smaller than the safety factor).\<close>

theorem TargetDelay_ordered:
  assumes "0 \<le> ac_min_delay_ms (aj_config aj)" "0 \<le> p95_of aj"
    and "ac_safety_factor (aj_config aj) \<le> ac_smooth_factor (aj_config aj)"
    and "max (of_int (ac_min_delay_ms (aj_config aj))) (p95_of aj * ac_smooth_factor (aj_config aj)) * 1000000 < 2 ^ 64"
  shows "snd (ComputeDelayForMode kBypass aj) = 0 \<and>
    ms_to_ns (ac_min_delay_ms (aj_config aj)) \<le> snd (ComputeDelayForMode kLowLatency aj) \<and>
    snd (ComputeDelayForMode kLowLatency aj) \<le> snd (ComputeDelayForMode kSmooth aj)"
proof -
  let ?m = "of_int (ac_min_delay_ms (aj_config aj)) :: real"
  let ?low = "max ?m (p95_of aj * ac_safety_factor (aj_config aj)) * 1000000"
  let ?smooth = "max ?m (p95_of aj * ac_smooth_factor (aj_config aj)) * 1000000"
  have f: "p95_of aj * ac_safety_factor (aj_config aj) \<le> p95_of aj * ac_smooth_factor (aj_config aj)"
    using assms(2,3) by (rule mult_left_mono [rotated])
  then have le: "?low \<le> ?smooth" by (simp add: max_def)
  have m: "0 \<le> ?m * 1000000" "?m * 1000000 \<le> ?low" using assms(1) by simp_all
  have "ms_to_ns (ac_min_delay_ms (aj_config aj)) = trunc_u64 (?m * 1000000)"
  proof -
    have "\<lfloor>?m * 1000000\<rfloor> = ac_min_delay_ms (aj_config aj) * 1000000"
      by (metis floor_of_int of_int_mult of_int_numeral)
    then have "trunc_u64 (?m * 1000000) = of_int (ac_min_delay_ms (aj_config aj) * 1000000)"
      using assms(1) by (simp add: trunc_u64_def of_nat_nat)
    then show ?thesis using assms(1) by (simp add: ms_to_ns_def)
  qed
  then show ?thesis
    using trunc_u64_mono [OF m] trunc_u64_mono [OF order.trans [OF m] le] le assms(4)
    by (simp add: ComputeDelayForMode_def jitter_p95_ms_eq)
qed

theorem TargetDelay_ordered_witness:
  "ms_to_ns 2 \<le> snd (ComputeDelayForMode kLowLatency (AdaptiveJitterBuffer_new kGood))"
  using TargetDelay_ordered [of "AdaptiveJitterBuffer_new kGood"]
  by (simp add: AdaptiveJitterBuffer_new_def AdaptiveJitterBufferConfig_default_def p95_of_def RefreshSummary_def
      LatencyStats_new_def BuildSummary_def LatencySummary_zero_def)

fun worse :: "NetworkQuality \<Rightarrow> nat" where
  "worse kExcellent = 0" | "worse kGood = 1" | "worse kFair = 2" | "worse kPoor = 3"

text \<open>Qualities are ordered from the best to the worst.\<close>

instantiation NetworkQuality :: linorder
begin

definition less_eq_NetworkQuality :: "NetworkQuality \<Rightarrow> NetworkQuality \<Rightarrow> bool" where
  "less_eq_NetworkQuality q q' \<longleftrightarrow> worse q \<le> worse q'"

definition less_NetworkQuality :: "NetworkQuality \<Rightarrow> NetworkQuality \<Rightarrow> bool" where
  "less_NetworkQuality q q' \<longleftrightarrow> worse q < worse q'"

instance
proof
  fix q r :: NetworkQuality
  show "q \<le> r \<Longrightarrow> r \<le> q \<Longrightarrow> q = r"
    by (cases q; cases r) (simp_all add: less_eq_NetworkQuality_def)
qed (auto simp: less_eq_NetworkQuality_def less_NetworkQuality_def)

end

text \<open>with a configured waiting time of at least 40 ms and at least four frames, a worse quality never
  shortens the waiting time or the depth of the buffer.\<close>

theorem ApplyQualityParams_mono:
  assumes "40 \<le> ac_base_max_wait_ms (aj_config aj)" "4 \<le> ac_base_max_frames (aj_config aj)"
    and "q \<le> q'"
  shows "aj_current_max_wait_ms (ApplyQualityParams (aj\<lparr>aj_network_quality := q\<rparr>))
      \<le> aj_current_max_wait_ms (ApplyQualityParams (aj\<lparr>aj_network_quality := q'\<rparr>)) \<and>
    aj_current_max_frames (ApplyQualityParams (aj\<lparr>aj_network_quality := q\<rparr>))
      \<le> aj_current_max_frames (ApplyQualityParams (aj\<lparr>aj_network_quality := q'\<rparr>))"
  using assms
  by (cases q; cases q') (auto simp: less_eq_NetworkQuality_def ApplyQualityParams_def Let_def tdiv_nonneg max_def)

theorem ApplyQualityParams_mono_witness:
  "aj_current_max_frames (ApplyQualityParams (AdaptiveJitterBuffer_new kGood\<lparr>aj_network_quality := kExcellent\<rparr>))
     \<le> aj_current_max_frames (ApplyQualityParams (AdaptiveJitterBuffer_new kGood\<lparr>aj_network_quality := kPoor\<rparr>))"
  using ApplyQualityParams_mono [of "AdaptiveJitterBuffer_new kGood" kExcellent kPoor]
  by (simp add: less_eq_NetworkQuality_def AdaptiveJitterBuffer_new_def AdaptiveJitterBufferConfig_default_def)

text \<open>Below 40 ms it does: an excellent network waits longer than a good one.\<close>

lemma ApplyQualityParams_not_mono:
  "aj_current_max_wait_ms (ApplyQualityParams (aj\<lparr>aj_config := AdaptiveJitterBufferConfig_default\<lparr>ac_base_max_wait_ms := 20\<rparr>,
     aj_network_quality := kExcellent\<rparr>)) = 20 \<and>
   aj_current_max_wait_ms (ApplyQualityParams (aj\<lparr>aj_config := AdaptiveJitterBufferConfig_default\<lparr>ac_base_max_wait_ms := 20\<rparr>,
     aj_network_quality := kGood\<rparr>)) = 10"
  by (simp add: ApplyQualityParams_def Let_def tdiv_nonneg)

end
