(* ===== verification/Ordered_Map.thy ===== *)
theory Ordered_Map
  imports AV_Prelude
begin

section \<open>Ordered maps\<close>

text \<open>
  The containers the programs keep their per-frame and per-peer state in, \<^verbatim>\<open>std::map\<close>: a list
  of key-value pairs in ascending key order, which is what its iterators visit. \<open>om_find\<close> is
  \<^verbatim>\<open>find\<close>, \<open>om_put\<close> assigns through \<^verbatim>\<open>operator[]\<close> or \<^verbatim>\<open>emplace\<close>s a new key,
  \<open>om_erase\<close> is \<^verbatim>\<open>erase\<close>, the head of the list is \<^verbatim>\<open>begin()\<close>. The receiver and the
  sender rely on the laws gathered in the locale \<open>ordered_map\<close>.
\<close>

type_synonym ('k, 'v) omap = "('k \<times> 'v) list"

fun om_find :: "'k::linorder \<Rightarrow> ('k, 'v) omap \<Rightarrow> 'v option" where
  "om_find k [] = None"
| "om_find k ((k', v) # m) = (if k = k' then Some v else om_find k m)"

fun om_put :: "'k::linorder \<Rightarrow> 'v \<Rightarrow> ('k, 'v) omap \<Rightarrow> ('k, 'v) omap" where
  "om_put k v [] = [(k, v)]"
| "om_put k v ((k', v') # m) =
     (if k < k' then (k, v) # (k', v') # m else if k = k' then (k, v) # m else (k', v') # om_put k v m)"

definition om_erase :: "'k::linorder \<Rightarrow> ('k, 'v) omap \<Rightarrow> ('k, 'v) omap" where
  "om_erase k m = filter (\<lambda>(k', _). k' \<noteq> k) m"

definition om_ok :: "('k::linorder, 'v) omap \<Rightarrow> bool" where
  "om_ok m \<longleftrightarrow> sorted_wrt (<) (map fst m)"

lemma om_ok_simps [simp]:
  "om_ok []"
  "om_ok ((k, v) # m) \<longleftrightarrow> (\<forall>k'\<in>fst ` set m. k < k') \<and> om_ok m"
  by (auto simp: om_ok_def)

lemma fst_om_put: "fst ` set (om_put k v m) = insert k (fst ` set m)"
  by (induction k v m rule: om_put.induct) auto

lemma om_erase_simps [simp]:
  "om_erase k [] = []"
  "om_erase k ((k', v) # m) = (if k' = k then om_erase k m else (k', v) # om_erase k m)"
  by (simp_all add: om_erase_def)

lemma fst_om_erase: "fst ` set (om_erase k m) = fst ` set m - {k}"
  by (auto simp: om_erase_def image_iff)

lemma om_find_None: "om_find k m = None \<longleftrightarrow> k \<notin> fst ` set m"
  by (induction k m rule: om_find.induct) auto

lemma om_find_Some: "om_ok m \<Longrightarrow> om_find k m = Some v \<longleftrightarrow> (k, v) \<in> set m"
  by (induction k m rule: om_find.induct) (auto simp: image_iff)

subsection \<open>The contract\<close>

locale ordered_map =
  fixes find :: "'k::linorder \<Rightarrow> 'm \<Rightarrow> 'v option"
    and put :: "'k \<Rightarrow> 'v \<Rightarrow> 'm \<Rightarrow> 'm"
    and erase :: "'k \<Rightarrow> 'm \<Rightarrow> 'm"
    and entries :: "'m \<Rightarrow> ('k \<times> 'v) list"
    and ok :: "'m \<Rightarrow> bool"
  assumes find_put: "ok m \<Longrightarrow> find k (put k' v m) = (if k = k' then Some v else find k m)"
    and find_erase: "ok m \<Longrightarrow> find k (erase k' m) = (if k = k' then None else find k m)"
    and ok_put: "ok m \<Longrightarrow> ok (put k v m)"
    and ok_erase: "ok m \<Longrightarrow> ok (erase k m)"
    and entries_find: "ok m \<Longrightarrow> (k, v) \<in> set (entries m) \<longleftrightarrow> find k m = Some v"
    and entries_sorted: "ok m \<Longrightarrow> sorted_wrt (<) (map fst (entries m))"
begin

lemma put_entries: "ok m \<Longrightarrow> set (entries (put k v m)) = insert (k, v) {(k', v') \<in> set (entries m). k' \<noteq> k}"
  by (auto simp: entries_find ok_put find_put split: if_splits)

lemma erase_entries: "ok m \<Longrightarrow> set (entries (erase k m)) = {(k', v') \<in> set (entries m). k' \<noteq> k}"
  by (auto simp: entries_find ok_erase find_erase split: if_splits)

lemma distinct_entries: "ok m \<Longrightarrow> distinct (map fst (entries m))"
  using entries_sorted strict_sorted_iff by blast

text \<open>The first entry has the smallest key.\<close>

lemma begin_least:
  assumes "ok m" "entries m = (k, v) # rest" "find k' m = Some v'"
  shows "k \<le> k'"
proof -
  have "(k', v') \<in> set (entries m)" using assms(1,3) by (simp add: entries_find)
  then show ?thesis
    using assms(2) entries_sorted [OF assms(1)] by (fastforce intro: less_imp_le)
qed

lemma all_put:
  "ok m \<Longrightarrow> \<forall>(k', v')\<in>set (entries m). P k' v' \<Longrightarrow> P k v \<Longrightarrow> \<forall>(k', v')\<in>set (entries (put k v m)). P k' v'"
  by (auto simp: put_entries)

lemma all_erase:
  "ok m \<Longrightarrow> \<forall>(k', v')\<in>set (entries m). P k' v' \<Longrightarrow> \<forall>(k', v')\<in>set (entries (erase k m)). P k' v'"
  by (auto simp: erase_entries)

lemma length_put:
  assumes "ok m"
  shows "length (entries (put k v m)) = (if find k m = None then Suc (length (entries m)) else length (entries m))"
proof -
  have card: "length (entries m') = card (fst ` set (entries m'))" if "ok m'" for m'
    using distinct_card [OF distinct_entries [OF that]] by simp
  have keys: "fst ` set (entries (put k v m)) = insert k (fst ` set (entries m))"
    using assms by (force simp: put_entries image_iff)
  have "k \<in> fst ` set (entries m) \<longleftrightarrow> find k m \<noteq> None"
    using assms entries_find [of m k] by (cases "find k m") (auto simp: image_iff, metis fst_conv)
  then show ?thesis
    using card [OF assms] card [OF ok_put [OF assms]] keys by (auto simp: insert_absorb)
qed

lemma length_erase_le: "ok m \<Longrightarrow> length (entries (erase k m)) \<le> length (entries m)"
proof -
  assume m: "ok m"
  have card: "length (entries m') = card (fst ` set (entries m'))" if "ok m'" for m'
    using distinct_card [OF distinct_entries [OF that]] by simp
  have "fst ` set (entries (erase k m)) \<subseteq> fst ` set (entries m)"
    using m by (auto simp: erase_entries)
  then show ?thesis using card [OF m] card [OF ok_erase [OF m]] by (simp add: card_mono)
qed

end

lemma om_ok_put: "om_ok m \<Longrightarrow> om_ok (om_put k v m)"
  by (induction k v m rule: om_put.induct) (auto simp: fst_om_put)

lemma om_ok_erase: "om_ok m \<Longrightarrow> om_ok (om_erase k m)"
  by (induction m) (auto simp: fst_om_erase)

lemma om_find_put: "om_ok m \<Longrightarrow> om_find k (om_put k' v m) = (if k = k' then Some v else om_find k m)"
  by (induction k' v m rule: om_put.induct) (auto simp: om_find_None)

lemma om_find_erase: "om_find k (om_erase k' m) = (if k = k' then None else om_find k m)"
  by (induction m) (auto split: if_splits)

interpretation om: ordered_map om_find om_put om_erase "\<lambda>m. m" om_ok
  by unfold_locales
     (auto simp: om_find_put om_find_erase om_ok_put om_ok_erase om_find_Some, simp add: om_ok_def)

lemmas om_simps [simp] = om.find_put om.ok_put om.ok_erase om_find_erase

end
