(* ===== verification/Stream_Client.thy ===== *)
theory Stream_Client
  imports Stream_Protocol Xor_Parity Annex_B Rtp_Protocol Adaptive_Jitter Ordered_Map
begin

section \<open>The state of the stream client\<close>

text \<open>
  \<^verbatim>\<open>sclient/src/modules/network/StreamClient.h\<close> with its \<^verbatim>\<open>types/\<close>: configuration, received
  frames, statistics, the assembly of a UDP frame, the assembly of an RTP frame, and the object
  that holds them. Receive buffers, the thread handle and the mutexes have no counterpart. The
  world outside (the monotonic clock and the socket) is the record \<open>ClientEnv\<close>: the n-th reading
  of the clock and the outcome of the n-th \<^verbatim>\<open>send\<close> are given, what was handed to
  \<^verbatim>\<open>send\<close> is logged.
\<close>

record ClientConfig =
  cc_host :: string
  cc_port :: int
  cc_transport :: string
  cc_sdp_path :: string
  cc_expect_metadata :: bool
  cc_udp_max_datagram_size :: nat
  cc_udp_receive_buffer_bytes :: int
  cc_rtp_payload_type :: int
  cc_rtp_clock_rate :: int
  cc_udp_jitter_buffer_enabled :: bool
  cc_udp_jitter_buffer_strategy :: string
  cc_udp_jitter_buffer_target_delay_ms :: int
  cc_udp_jitter_buffer_adaptive_max_delay_ms :: int
  cc_udp_jitter_buffer_max_wait_ms :: int
  cc_udp_jitter_buffer_max_frames :: nat
  cc_udp_jitter_buffer_min_delay_ms :: int
  cc_udp_jitter_buffer_safety_factor :: real
  cc_udp_nack_enabled :: bool
  cc_udp_fec_enabled :: bool
  cc_udp_nack_request_delay_ms :: int
  cc_udp_nack_retry_interval_ms :: int
  cc_udp_nack_max_retries :: int
  cc_udp_nack_max_requests_per_packet :: nat
  cc_udp_test_jitter_pattern :: string
  cc_udp_test_jitter_amplitude_ms :: int
  cc_udp_test_jitter_period :: int
  cc_udp_test_loss_pattern :: string
  cc_udp_test_loss_period :: int
  cc_udp_test_loss_count :: int
  cc_keepalive_interval_ms :: int

definition ClientConfig_default :: ClientConfig where
  "ClientConfig_default =
     \<lparr>cc_host = ''127.0.0.1'', cc_port = 9999, cc_transport = ''tcp'', cc_sdp_path = '''',
      cc_expect_metadata = True, cc_udp_max_datagram_size = 65507,
      cc_udp_receive_buffer_bytes = 4 * 1024 * 1024, cc_rtp_payload_type = - 1, cc_rtp_clock_rate = 0,
      cc_udp_jitter_buffer_enabled = True, cc_udp_jitter_buffer_strategy = ''auto'',
      cc_udp_jitter_buffer_target_delay_ms = 8, cc_udp_jitter_buffer_adaptive_max_delay_ms = 120,
      cc_udp_jitter_buffer_max_wait_ms = 40, cc_udp_jitter_buffer_max_frames = 4,
      cc_udp_jitter_buffer_min_delay_ms = 2, cc_udp_jitter_buffer_safety_factor = 3/2,
      cc_udp_nack_enabled = True, cc_udp_fec_enabled = True, cc_udp_nack_request_delay_ms = 25,
      cc_udp_nack_retry_interval_ms = 20, cc_udp_nack_max_retries = 3,
      cc_udp_nack_max_requests_per_packet = 16, cc_udp_test_jitter_pattern = ''none'',
      cc_udp_test_jitter_amplitude_ms = 0, cc_udp_test_jitter_period = 6,
      cc_udp_test_loss_pattern = ''none'', cc_udp_test_loss_period = 30, cc_udp_test_loss_count = 1,
      cc_keepalive_interval_ms = 500\<rparr>"

record ReceivedFrame =
  fr_header :: MessageHeader
  fr_metadata :: FrameDiagnosticMetadata
  fr_sender_metadata_available :: bool
  fr_receive_timestamp_ns :: u64
  fr_payload :: bytes

record UdpReceiveStats =
  us_datagrams_received :: u64
  us_invalid_datagrams :: u64
  us_stale_datagrams_dropped :: u64
  us_fragments_received :: u64
  us_duplicate_fragments :: u64
  us_timed_out_fragments :: u64
  us_timed_out_frames :: u64
  us_completed_frames :: u64
  us_reordered_frames :: u64
  us_jitter_last_ms :: real
  us_jitter_avg_ms :: real
  us_jitter_max_ms :: real
  us_jitter_p50_ms :: real
  us_jitter_p95_ms :: real
  us_jitter_samples :: u64
  us_jitter_buffer_active_mode :: JitterBufferMode
  us_jitter_buffer_quality :: NetworkQuality
  us_jitter_buffer_current_depth :: nat
  us_jitter_buffer_max_depth :: nat
  us_jitter_buffer_emitted_frames :: u64
  us_jitter_buffer_skipped_frames :: u64
  us_jitter_buffer_dropped_frames :: u64
  us_jitter_buffer_wait_samples :: u64
  us_jitter_buffer_target_delay_ms :: real
  us_jitter_buffer_wait_last_ms :: real
  us_jitter_buffer_wait_avg_ms :: real
  us_jitter_buffer_wait_max_ms :: real
  us_nack_requests_sent :: u64
  us_nack_fragments_requested :: u64
  us_fec_fragments_received :: u64
  us_fec_recovered_fragments :: u64
  us_fec_recovered_frames :: u64
  us_injected_loss_datagrams :: u64
  us_injected_loss_fragments :: u64

text \<open>The two textual members are carried as the mode and the quality they name.\<close>

definition UdpReceiveStats_zero :: UdpReceiveStats where
  "UdpReceiveStats_zero =
     \<lparr>us_datagrams_received = 0, us_invalid_datagrams = 0, us_stale_datagrams_dropped = 0,
      us_fragments_received = 0, us_duplicate_fragments = 0, us_timed_out_fragments = 0,
      us_timed_out_frames = 0, us_completed_frames = 0, us_reordered_frames = 0,
      us_jitter_last_ms = 0, us_jitter_avg_ms = 0, us_jitter_max_ms = 0, us_jitter_p50_ms = 0,
      us_jitter_p95_ms = 0, us_jitter_samples = 0, us_jitter_buffer_active_mode = kBypass,
      us_jitter_buffer_quality = kExcellent, us_jitter_buffer_current_depth = 0,
      us_jitter_buffer_max_depth = 0, us_jitter_buffer_emitted_frames = 0,
      us_jitter_buffer_skipped_frames = 0, us_jitter_buffer_dropped_frames = 0,
      us_jitter_buffer_wait_samples = 0, us_jitter_buffer_target_delay_ms = 0,
      us_jitter_buffer_wait_last_ms = 0, us_jitter_buffer_wait_avg_ms = 0,
      us_jitter_buffer_wait_max_ms = 0, us_nack_requests_sent = 0, us_nack_fragments_requested = 0,
      us_fec_fragments_received = 0, us_fec_recovered_fragments = 0, us_fec_recovered_frames = 0,
      us_injected_loss_datagrams = 0, us_injected_loss_fragments = 0\<rparr>"

record UdpFrameAssembly =
  ua_header :: MessageHeader
  ua_metadata :: FrameDiagnosticMetadata
  ua_payload :: bytes
  ua_received_fragments :: "bool list"
  ua_fragment_offsets :: "u32 list"
  ua_fragment_payload_sizes :: "u32 list"
  ua_received_fragment_count :: nat
  ua_fec_payload :: bytes
  ua_has_fec_payload :: bool
  ua_fec_payload_timestamp_ns :: u64
  ua_first_seen_timestamp_ns :: u64
  ua_last_fragment_timestamp_ns :: u64
  ua_last_nack_timestamp_ns :: u64
  ua_nack_attempts :: int

text \<open>A default-constructed entry of \<^verbatim>\<open>udp_assemblies_\<close>; \<^verbatim>\<open>header\<close> and \<^verbatim>\<open>metadata\<close>
  are value-initialised by \<^verbatim>\<open>std::map::operator[]\<close>.\<close>

definition UdpFrameAssembly_new :: UdpFrameAssembly where
  "UdpFrameAssembly_new =
     \<lparr>ua_header = MessageHeader_zero, ua_metadata = FrameDiagnosticMetadata_zero, ua_payload = [],
      ua_received_fragments = [], ua_fragment_offsets = [], ua_fragment_payload_sizes = [],
      ua_received_fragment_count = 0, ua_fec_payload = [], ua_has_fec_payload = False,
      ua_fec_payload_timestamp_ns = 0, ua_first_seen_timestamp_ns = 0, ua_last_fragment_timestamp_ns = 0,
      ua_last_nack_timestamp_ns = 0, ua_nack_attempts = 0\<rparr>"

record BufferedUdpFrame =
  bf_frame :: ReceivedFrame
  bf_buffered_timestamp_ns :: u64

record RtpFrameAssembly =
  ra_payload :: bytes
  ra_timestamp :: u32
  ra_ssrc :: u32
  ra_next_sequence_number :: u16
  ra_capture_timestamp_ns :: u64
  ra_transport_send_timestamp_ns :: u64
  ra_active :: bool
  ra_has_sequence_number :: bool
  ra_sender_metadata_available :: bool
  ra_sender_metadata_invalid :: bool
  ra_frame_damaged :: bool
  ra_fu_in_progress :: bool

definition RtpFrameAssembly_zero :: RtpFrameAssembly where
  "RtpFrameAssembly_zero =
     \<lparr>ra_payload = [], ra_timestamp = 0, ra_ssrc = 0, ra_next_sequence_number = 0,
      ra_capture_timestamp_ns = 0, ra_transport_send_timestamp_ns = 0, ra_active = False,
      ra_has_sequence_number = False, ra_sender_metadata_available = False,
      ra_sender_metadata_invalid = False, ra_frame_damaged = False, ra_fu_in_progress = False\<rparr>"

record ClientEnv =
  ce_clock :: "nat \<Rightarrow> u64"
  ce_clock_reads :: nat
  ce_send_ok :: "nat \<Rightarrow> bool"
  ce_sent :: "bytes list"

record StreamClient =
  sc_config :: ClientConfig
  sc_socket_fd :: int
  sc_running :: bool
  sc_stats :: UdpReceiveStats
  sc_stats_snapshot :: UdpReceiveStats
  sc_udp_assemblies :: "(u64, UdpFrameAssembly) omap"
  sc_udp_jitter_buffer :: "(u64, BufferedUdpFrame) omap"
  sc_rtp_frame_assembly :: RtpFrameAssembly
  sc_last_completed_frame_sequence :: u64
  sc_has_last_completed_frame_sequence :: bool
  sc_next_jitter_buffer_sequence :: u64
  sc_has_next_jitter_buffer_sequence :: bool
  sc_udp_test_dropped_fragments :: "(u64, bool list) omap"
  sc_recently_completed_order :: "u64 list"
  sc_recently_completed :: "u64 set"
  sc_previous_network_latency_ms :: real
  sc_has_previous_network_latency :: bool
  sc_adaptive_jitter :: AdaptiveJitterBuffer
  sc_env :: ClientEnv

definition kUdpAssemblyTimeoutNs :: u64 where
  "kUdpAssemblyTimeoutNs = 250 * 1000 * 1000"

definition kRecentCompletedUdpSequenceWindow :: nat where
  "kRecentCompletedUdpSequenceWindow = 1024"

definition MonotonicNowNs :: "StreamClient \<Rightarrow> StreamClient \<times> u64" where
  "MonotonicNowNs c =
     (let e = sc_env c in (c\<lparr>sc_env := e\<lparr>ce_clock_reads := Suc (ce_clock_reads e)\<rparr>\<rparr>, ce_clock e (ce_clock_reads e)))"

text \<open>\<^verbatim>\<open>send\<close> of a whole buffer; the result says whether all of it was taken.\<close>

definition send_datagram :: "bytes \<Rightarrow> StreamClient \<Rightarrow> StreamClient \<times> bool" where
  "send_datagram payload c =
     (let e = sc_env c in
      (c\<lparr>sc_env := e\<lparr>ce_sent := ce_sent e @ [payload]\<rparr>\<rparr>, ce_send_ok e (length (ce_sent e))))"

definition HasSenderLatencyMetadata :: "FrameDiagnosticMetadata \<Rightarrow> bool" where
  "HasSenderLatencyMetadata metadata \<longleftrightarrow>
     md_capture_timestamp_ns metadata \<noteq> 0 \<and> md_transport_send_timestamp_ns metadata \<noteq> 0"

definition PublishUdpReceiveStatsSnapshot :: "StreamClient \<Rightarrow> StreamClient" where
  "PublishUdpReceiveStatsSnapshot c = c\<lparr>sc_stats_snapshot := sc_stats c\<rparr>"

definition udp_receive_stats :: "StreamClient \<Rightarrow> UdpReceiveStats" where
  "udp_receive_stats c = sc_stats_snapshot c"

definition ResetUdpState :: "StreamClient \<Rightarrow> StreamClient" where
  "ResetUdpState c =
     PublishUdpReceiveStatsSnapshot
       (c\<lparr>sc_stats := UdpReceiveStats_zero\<lparr>us_jitter_buffer_target_delay_ms :=
                of_int (max (cc_udp_jitter_buffer_target_delay_ms (sc_config c)) 0)\<rparr>,
          sc_last_completed_frame_sequence := 0, sc_has_last_completed_frame_sequence := False,
          sc_next_jitter_buffer_sequence := 0, sc_has_next_jitter_buffer_sequence := False,
          sc_udp_test_dropped_fragments := [], sc_recently_completed_order := [],
          sc_recently_completed := {}, sc_previous_network_latency_ms := 0,
          sc_has_previous_network_latency := False,
          sc_adaptive_jitter := AdaptiveJitterBuffer_Reset (sc_adaptive_jitter c)\<rparr>)"

definition ResetRtpState :: "StreamClient \<Rightarrow> StreamClient" where
  "ResetRtpState c = c\<lparr>sc_rtp_frame_assembly := RtpFrameAssembly_zero\<rparr>"

end
