(* ===== verification/Jitter_Buffer.thy ===== *)
theory Jitter_Buffer
  imports Stream_Client
begin

section \<open>The playout (jitter) buffer of the client\<close>

text \<open>
  The part of \<^verbatim>\<open>StreamClientUdp.cpp\<close> that completed frames pass through, shared by the UDP and
  the RTP receiver: statistics of a completed frame, insertion into the buffer ordered by sequence
  number, and the decision when the next frame is released. An out-parameter \<^verbatim>\<open>frame\<close> with
  a boolean result is an \<^verbatim>\<open>option\<close>.
\<close>

definition upd_stats :: "(UdpReceiveStats \<Rightarrow> UdpReceiveStats) \<Rightarrow> StreamClient \<Rightarrow> StreamClient" where
  "upd_stats f c = c\<lparr>sc_stats := f (sc_stats c)\<rparr>"

definition UpdateJitterBufferDepthStats :: "StreamClient \<Rightarrow> StreamClient" where
  "UpdateJitterBufferDepthStats c =
     (let depth = length (sc_udp_jitter_buffer c) in
      upd_stats (\<lambda>s. s\<lparr>us_jitter_buffer_current_depth := depth,
        us_jitter_buffer_max_depth :=
          (if us_jitter_buffer_max_depth s < depth then depth else us_jitter_buffer_max_depth s)\<rparr>) c)"

definition RecordJitterBufferWait :: "u64 \<Rightarrow> StreamClient \<Rightarrow> StreamClient" where
  "RecordJitterBufferWait wait_ns c =
     (let wait_ms = real (unat wait_ns) / 1000000 in
      upd_stats (\<lambda>s.
        let n = us_jitter_buffer_wait_samples s + 1;
            avg = us_jitter_buffer_wait_avg_ms s
        in s\<lparr>us_jitter_buffer_wait_last_ms := wait_ms,
             us_jitter_buffer_wait_samples := n,
             us_jitter_buffer_wait_avg_ms := avg + (wait_ms - avg) / real (unat n),
             us_jitter_buffer_wait_max_ms :=
               (if us_jitter_buffer_wait_max_ms s < wait_ms then wait_ms else us_jitter_buffer_wait_max_ms s)\<rparr>) c)"

definition BufferCompletedUdpFrame :: "ReceivedFrame \<Rightarrow> StreamClient \<Rightarrow> StreamClient" where
  "BufferCompletedUdpFrame frame c =
     (let sequence = md_sequence (fr_metadata frame) in
      if om_find sequence (sc_udp_jitter_buffer c) \<noteq> None then
        upd_stats (\<lambda>s. s\<lparr>us_jitter_buffer_dropped_frames := us_jitter_buffer_dropped_frames s + 1\<rparr>) c
      else
        UpdateJitterBufferDepthStats
          (c\<lparr>sc_udp_jitter_buffer :=
               om_put sequence \<lparr>bf_frame = frame, bf_buffered_timestamp_ns = fr_receive_timestamp_ns frame\<rparr>
                 (sc_udp_jitter_buffer c)\<rparr>))"

definition percent_of :: "u64 \<Rightarrow> u64 \<Rightarrow> real" where
  "percent_of part whole = (if whole = 0 then 0 else real (unat part) * 100 / real (unat whole))"

text \<open>The sample of \<open>OnCompletedUdpFrame\<close>, once a previous latency is known.\<close>

definition record_network_jitter :: "real \<Rightarrow> u64 \<Rightarrow> StreamClient \<Rightarrow> StreamClient" where
  "record_network_jitter network_latency_ms now_ns c =
     (let jitter_ms = \<bar>network_latency_ms - sc_previous_network_latency_ms c\<bar>;
          c = upd_stats (\<lambda>s.
                let n = us_jitter_samples s + 1; avg = us_jitter_avg_ms s
                in s\<lparr>us_jitter_last_ms := jitter_ms, us_jitter_samples := n,
                     us_jitter_avg_ms := avg + (jitter_ms - avg) / real (unat n),
                     us_jitter_max_ms := (if us_jitter_max_ms s < jitter_ms then jitter_ms else us_jitter_max_ms s)\<rparr>) c;
          total_frag = us_fragments_received (sc_stats c) + us_timed_out_fragments (sc_stats c);
          loss_pct = percent_of (us_timed_out_fragments (sc_stats c)) total_frag;
          total_emitted = us_jitter_buffer_emitted_frames (sc_stats c);
          skip_pct = percent_of (us_jitter_buffer_skipped_frames (sc_stats c)) total_emitted;
          aj = RecordJitter jitter_ms loss_pct skip_pct now_ns (sc_adaptive_jitter c);
          (aj, p50) = jitter_p50_ms aj;
          (aj, p95) = jitter_p95_ms aj
      in upd_stats (\<lambda>s. s\<lparr>us_jitter_p50_ms := p50, us_jitter_p95_ms := p95,
                           us_jitter_buffer_active_mode := aj_active_mode aj,
                           us_jitter_buffer_quality := aj_network_quality aj\<rparr>)
           (c\<lparr>sc_adaptive_jitter := aj\<rparr>))"

definition OnCompletedUdpFrame :: "ReceivedFrame \<Rightarrow> u64 \<Rightarrow> StreamClient \<Rightarrow> StreamClient" where
  "OnCompletedUdpFrame frame now_ns c =
     (let sequence = md_sequence (fr_metadata frame);
          c = (if sc_has_last_completed_frame_sequence c \<and> sequence \<noteq> sc_last_completed_frame_sequence c + 1
               then upd_stats (\<lambda>s. s\<lparr>us_reordered_frames := us_reordered_frames s + 1\<rparr>) c else c);
          c = c\<lparr>sc_last_completed_frame_sequence := sequence, sc_has_last_completed_frame_sequence := True\<rparr>;
          sent_ns = md_transport_send_timestamp_ns (fr_metadata frame)
      in if sent_ns = 0 \<or> fr_receive_timestamp_ns frame < sent_ns then c
         else
           let network_latency_ms = real (unat (fr_receive_timestamp_ns frame - sent_ns)) / 1000000;
               c = (if sc_has_previous_network_latency c then record_network_jitter network_latency_ms now_ns c else c)
           in c\<lparr>sc_previous_network_latency_ms := network_latency_ms, sc_has_previous_network_latency := True\<rparr>)"

text \<open>The strategies that take their parameters from the adaptive controller.\<close>

definition uses_adaptive :: "StreamClient \<Rightarrow> bool" where
  "uses_adaptive c \<longleftrightarrow>
     cc_udp_jitter_buffer_strategy (sc_config c) \<in> {''auto'', ''off'', ''low'', ''smooth''}"

definition CurrentJitterBufferTargetDelayNs :: "StreamClient \<Rightarrow> StreamClient \<times> u64" where
  "CurrentJitterBufferTargetDelayNs c =
     (let cfg = sc_config c in
      if uses_adaptive c then
        (case TargetDelayNs (sc_adaptive_jitter c) of (aj, target_ns) \<Rightarrow>
           (upd_stats (\<lambda>s. s\<lparr>us_jitter_buffer_target_delay_ms := real (unat target_ns) / 1000000\<rparr>)
              (c\<lparr>sc_adaptive_jitter := aj\<rparr>), target_ns))
      else
        let target_delay_ms = (of_int (max (cc_udp_jitter_buffer_target_delay_ms cfg) 0) :: real);
            target_delay_ms =
              (if cc_udp_jitter_buffer_strategy cfg = ''adaptive'' \<and> 0 < us_jitter_samples (sc_stats c) then
                 min (of_int (max (cc_udp_jitter_buffer_adaptive_max_delay_ms cfg) (cc_udp_jitter_buffer_target_delay_ms cfg)))
                     (target_delay_ms + us_jitter_avg_ms (sc_stats c) * 2)
               else target_delay_ms)
        in (upd_stats (\<lambda>s. s\<lparr>us_jitter_buffer_target_delay_ms := target_delay_ms\<rparr>) c,
            trunc_u64 (target_delay_ms * 1000000)))"

definition InjectedUdpJitterDelayNs :: "ClientConfig \<Rightarrow> ReceivedFrame \<Rightarrow> u64" where
  "InjectedUdpJitterDelayNs cfg frame =
     (if cc_udp_test_jitter_pattern cfg = ''none'' \<or> cc_udp_test_jitter_amplitude_ms cfg \<le> 0 then 0
      else
        let period = max (cc_udp_test_jitter_period cfg) 2;
            sequence = md_sequence (fr_metadata frame);
            phase = int (unat sequence) mod period;
            amplitude = (of_int (cc_udp_test_jitter_amplitude_ms cfg) :: real);
            delay_ms =
              (if cc_udp_test_jitter_pattern cfg = ''saw'' then amplitude * of_int phase / of_int (period - 1)
               else if cc_udp_test_jitter_pattern cfg = ''burst'' then (if phase < tdiv period 2 then amplitude else 0)
               else if cc_udp_test_jitter_pattern cfg = ''alternate'' then (if sequence mod 2 = 0 then 0 else amplitude)
               else 0)
        in trunc_u64 (delay_ms * 1000000))"

text \<open>How long a buffered frame has waited.\<close>

definition wait_of :: "u64 \<Rightarrow> BufferedUdpFrame \<Rightarrow> u64" where
  "wait_of now_ns b = (if bf_buffered_timestamp_ns b < now_ns then now_ns - bf_buffered_timestamp_ns b else 0)"

text \<open>The limits in force.\<close>

definition effective_max_wait_ns :: "StreamClient \<Rightarrow> u64" where
  "effective_max_wait_ns c =
     ms_to_ns (if uses_adaptive c then aj_current_max_wait_ms (sc_adaptive_jitter c)
               else cc_udp_jitter_buffer_max_wait_ms (sc_config c))"

definition effective_max_frames :: "StreamClient \<Rightarrow> nat" where
  "effective_max_frames c =
     (if uses_adaptive c then aj_current_max_frames (sc_adaptive_jitter c)
      else cc_udp_jitter_buffer_max_frames (sc_config c))"

text \<open>The choice of the frame to release: the one expected next, or the oldest one when the
  expected one is given up; \<open>None\<close> while the buffer waits for it.\<close>

definition choose_expected :: "u64 \<Rightarrow> StreamClient \<Rightarrow> StreamClient \<times> (u64 \<times> BufferedUdpFrame) option" where
  "choose_expected now_ns c =
     (case sc_udp_jitter_buffer c of
        [] \<Rightarrow> (c, None)
      | (oldest_seq, oldest) # _ \<Rightarrow>
          let c = (if \<not> sc_has_next_jitter_buffer_sequence c
                   then c\<lparr>sc_next_jitter_buffer_sequence := oldest_seq, sc_has_next_jitter_buffer_sequence := True\<rparr>
                   else c)
          in case om_find (sc_next_jitter_buffer_sequence c) (sc_udp_jitter_buffer c) of
               Some b \<Rightarrow> (c, Some (sc_next_jitter_buffer_sequence c, b))
             | None \<Rightarrow>
                 let oldest_wait_ns = wait_of now_ns oldest;
                     should_skip_missing =
                       (0 < effective_max_wait_ns c \<and> effective_max_wait_ns c \<le> oldest_wait_ns) \<or>
                       max (effective_max_frames c) 1 \<le> length (sc_udp_jitter_buffer c)
                 in if \<not> should_skip_missing then (c, None)
                    else
                      let c = (if sc_next_jitter_buffer_sequence c < oldest_seq
                               then upd_stats (\<lambda>s. s\<lparr>us_jitter_buffer_skipped_frames :=
                                      us_jitter_buffer_skipped_frames s + (oldest_seq - sc_next_jitter_buffer_sequence c)\<rparr>) c
                               else c)
                      in (c\<lparr>sc_next_jitter_buffer_sequence := oldest_seq\<rparr>, Some (oldest_seq, oldest)))"

text \<open>A chosen frame is released when it has waited for the target delay or the maximal wait, or
  when the buffer is full.\<close>

definition release_due :: "u64 \<Rightarrow> u64 \<Rightarrow> StreamClient \<Rightarrow> bool" where
  "release_due target_delay_ns wait_ns c =
     (let reached_target_delay = (target_delay_ns = 0 \<or> target_delay_ns \<le> wait_ns);
          reached_depth_limit = (max (effective_max_frames c) 1 \<le> length (sc_udp_jitter_buffer c));
          reached_max_wait = (0 < effective_max_wait_ns c \<and> effective_max_wait_ns c \<le> wait_ns)
      in reached_target_delay \<or> reached_depth_limit \<or> reached_max_wait)"

definition release_frame :: "u64 \<Rightarrow> u64 \<Rightarrow> StreamClient \<Rightarrow> StreamClient" where
  "release_frame seq wait_ns c =
     (let c = RecordJitterBufferWait wait_ns c;
          c = upd_stats (\<lambda>s. s\<lparr>us_jitter_buffer_emitted_frames := us_jitter_buffer_emitted_frames s + 1\<rparr>) c;
          c = c\<lparr>sc_udp_jitter_buffer := om_erase seq (sc_udp_jitter_buffer c),
                sc_next_jitter_buffer_sequence := sc_next_jitter_buffer_sequence c + 1\<rparr>;
          c = (if sc_udp_jitter_buffer c = [] then c\<lparr>sc_has_next_jitter_buffer_sequence := False\<rparr> else c)
      in UpdateJitterBufferDepthStats c)"

definition TryPopReadyUdpFrame :: "u64 \<Rightarrow> StreamClient \<Rightarrow> StreamClient \<times> ReceivedFrame option" where
  "TryPopReadyUdpFrame now_ns c =
     (if \<not> cc_udp_jitter_buffer_enabled (sc_config c) \<or> sc_udp_jitter_buffer c = []
      then (PublishUdpReceiveStatsSnapshot c, None)
      else
        case CurrentJitterBufferTargetDelayNs c of (c, target_delay_ns) \<Rightarrow>
        case choose_expected now_ns c of
          (c, None) \<Rightarrow> (PublishUdpReceiveStatsSnapshot c, None)
        | (c, Some (seq, expected)) \<Rightarrow>
            let wait_ns = wait_of now_ns expected
            in if \<not> release_due target_delay_ns wait_ns c then (PublishUdpReceiveStatsSnapshot c, None)
               else (PublishUdpReceiveStatsSnapshot (release_frame seq wait_ns c), Some (bf_frame expected)))"

subsection \<open>The operations change only their part of the state\<close>

lemma upd_stats_selectors [simp]:
  "sc_config (upd_stats f c) = sc_config c"
  "sc_socket_fd (upd_stats f c) = sc_socket_fd c"
  "sc_running (upd_stats f c) = sc_running c"
  "sc_udp_assemblies (upd_stats f c) = sc_udp_assemblies c"
  "sc_udp_jitter_buffer (upd_stats f c) = sc_udp_jitter_buffer c"
  "sc_rtp_frame_assembly (upd_stats f c) = sc_rtp_frame_assembly c"
  "sc_next_jitter_buffer_sequence (upd_stats f c) = sc_next_jitter_buffer_sequence c"
  "sc_has_next_jitter_buffer_sequence (upd_stats f c) = sc_has_next_jitter_buffer_sequence c"
  "sc_last_completed_frame_sequence (upd_stats f c) = sc_last_completed_frame_sequence c"
  "sc_has_last_completed_frame_sequence (upd_stats f c) = sc_has_last_completed_frame_sequence c"
  "sc_recently_completed_order (upd_stats f c) = sc_recently_completed_order c"
  "sc_recently_completed (upd_stats f c) = sc_recently_completed c"
  "sc_udp_test_dropped_fragments (upd_stats f c) = sc_udp_test_dropped_fragments c"
  "sc_adaptive_jitter (upd_stats f c) = sc_adaptive_jitter c"
  "sc_env (upd_stats f c) = sc_env c"
  "sc_stats (upd_stats f c) = f (sc_stats c)"
  by (simp_all add: upd_stats_def)

lemma Publish_selectors [simp]:
  "sc_config (PublishUdpReceiveStatsSnapshot c) = sc_config c"
  "sc_socket_fd (PublishUdpReceiveStatsSnapshot c) = sc_socket_fd c"
  "sc_running (PublishUdpReceiveStatsSnapshot c) = sc_running c"
  "sc_udp_assemblies (PublishUdpReceiveStatsSnapshot c) = sc_udp_assemblies c"
  "sc_udp_jitter_buffer (PublishUdpReceiveStatsSnapshot c) = sc_udp_jitter_buffer c"
  "sc_rtp_frame_assembly (PublishUdpReceiveStatsSnapshot c) = sc_rtp_frame_assembly c"
  "sc_next_jitter_buffer_sequence (PublishUdpReceiveStatsSnapshot c) = sc_next_jitter_buffer_sequence c"
  "sc_has_next_jitter_buffer_sequence (PublishUdpReceiveStatsSnapshot c) = sc_has_next_jitter_buffer_sequence c"
  "sc_recently_completed_order (PublishUdpReceiveStatsSnapshot c) = sc_recently_completed_order c"
  "sc_recently_completed (PublishUdpReceiveStatsSnapshot c) = sc_recently_completed c"
  "sc_udp_test_dropped_fragments (PublishUdpReceiveStatsSnapshot c) = sc_udp_test_dropped_fragments c"
  "sc_adaptive_jitter (PublishUdpReceiveStatsSnapshot c) = sc_adaptive_jitter c"
  "sc_env (PublishUdpReceiveStatsSnapshot c) = sc_env c"
  "sc_stats (PublishUdpReceiveStatsSnapshot c) = sc_stats c"
  "sc_stats_snapshot (PublishUdpReceiveStatsSnapshot c) = sc_stats c"
  by (simp_all add: PublishUdpReceiveStatsSnapshot_def)

text \<open>The parts of the state that no statistics operation touches.\<close>

definition same_frames :: "StreamClient \<Rightarrow> StreamClient \<Rightarrow> bool" where
  "same_frames c c' \<longleftrightarrow>
     sc_config c' = sc_config c \<and> sc_socket_fd c' = sc_socket_fd c \<and> sc_running c' = sc_running c \<and>
     sc_udp_assemblies c' = sc_udp_assemblies c \<and> sc_udp_jitter_buffer c' = sc_udp_jitter_buffer c \<and>
     sc_rtp_frame_assembly c' = sc_rtp_frame_assembly c \<and>
     sc_next_jitter_buffer_sequence c' = sc_next_jitter_buffer_sequence c \<and>
     sc_has_next_jitter_buffer_sequence c' = sc_has_next_jitter_buffer_sequence c \<and>
     sc_recently_completed_order c' = sc_recently_completed_order c \<and>
     sc_recently_completed c' = sc_recently_completed c \<and>
     sc_udp_test_dropped_fragments c' = sc_udp_test_dropped_fragments c \<and>
     sc_env c' = sc_env c"

lemma same_frames_refl [simp]: "same_frames c c"
  by (simp add: same_frames_def)

lemma same_frames_trans: "same_frames a b \<Longrightarrow> same_frames b c \<Longrightarrow> same_frames a c"
  by (simp add: same_frames_def)

lemma same_frames_upd_stats [simp]: "same_frames c (upd_stats f c)"
  by (simp add: same_frames_def)

lemma same_frames_Publish [simp]: "same_frames c (PublishUdpReceiveStatsSnapshot c)"
  by (simp add: same_frames_def)

lemma same_frames_DepthStats [simp]: "same_frames c (UpdateJitterBufferDepthStats c)"
  by (simp add: UpdateJitterBufferDepthStats_def Let_def)

lemma same_frames_Wait [simp]: "same_frames c (RecordJitterBufferWait w c)"
  by (simp add: RecordJitterBufferWait_def Let_def)

lemma same_frames_TargetDelay: "same_frames c (fst (CurrentJitterBufferTargetDelayNs c))"
  by (simp add: CurrentJitterBufferTargetDelayNs_def Let_def split_beta) (simp add: same_frames_def)

lemma same_frames_record_jitter: "same_frames c (record_network_jitter l n c)"
  by (simp add: record_network_jitter_def Let_def split_beta) (simp add: same_frames_def)

lemma same_frames_OnCompleted: "same_frames c (OnCompletedUdpFrame f n c)"
proof -
  have r: "same_frames a (b\<lparr>sc_previous_network_latency_ms := x, sc_has_previous_network_latency := y\<rparr>) \<longleftrightarrow> same_frames a b" for a b x y
    by (simp add: same_frames_def)
  have l: "same_frames a (b\<lparr>sc_last_completed_frame_sequence := x, sc_has_last_completed_frame_sequence := y\<rparr>) \<longleftrightarrow> same_frames a b" for a b x y
    by (simp add: same_frames_def)
  show ?thesis
    by (auto simp: OnCompletedUdpFrame_def Let_def r l intro: same_frames_trans [OF _ same_frames_record_jitter])
qed

lemma same_framesD:
  assumes "same_frames c c'"
  shows "sc_config c' = sc_config c" "sc_udp_assemblies c' = sc_udp_assemblies c"
    "sc_udp_jitter_buffer c' = sc_udp_jitter_buffer c" "sc_env c' = sc_env c"
    "sc_rtp_frame_assembly c' = sc_rtp_frame_assembly c"
    "sc_next_jitter_buffer_sequence c' = sc_next_jitter_buffer_sequence c"
    "sc_has_next_jitter_buffer_sequence c' = sc_has_next_jitter_buffer_sequence c"
    "sc_recently_completed_order c' = sc_recently_completed_order c"
    "sc_recently_completed c' = sc_recently_completed c"
    "sc_udp_test_dropped_fragments c' = sc_udp_test_dropped_fragments c"
    "sc_socket_fd c' = sc_socket_fd c" "sc_running c' = sc_running c"
  using assms by (simp_all add: same_frames_def)


subsection \<open>What a release does to the buffer\<close>

text \<open>The sequence number the buffer waits for: the recorded one, or the oldest buffered one when
  none is recorded.\<close>

definition baseline :: "StreamClient \<Rightarrow> u64" where
  "baseline c = (if sc_has_next_jitter_buffer_sequence c then sc_next_jitter_buffer_sequence c
     else (case sc_udp_jitter_buffer c of [] \<Rightarrow> 0 | (k, _) # _ \<Rightarrow> k))"

lemma choose_expected_frames:
  assumes "choose_expected now c = (c', r)"
  shows "sc_udp_jitter_buffer c' = sc_udp_jitter_buffer c" "sc_config c' = sc_config c"
    "sc_adaptive_jitter c' = sc_adaptive_jitter c" "sc_udp_assemblies c' = sc_udp_assemblies c"
    "sc_recently_completed c' = sc_recently_completed c" "sc_env c' = sc_env c"
    "sc_recently_completed_order c' = sc_recently_completed_order c"
    "sc_rtp_frame_assembly c' = sc_rtp_frame_assembly c" "sc_running c' = sc_running c"
    "sc_udp_test_dropped_fragments c' = sc_udp_test_dropped_fragments c" "sc_socket_fd c' = sc_socket_fd c"
  using assms
  by (auto simp: choose_expected_def Let_def split: list.splits option.splits if_splits prod.splits)

lemma choose_expected_Some:
  assumes "choose_expected now c = (c', Some (seq, b))" "om_ok (sc_udp_jitter_buffer c)"
  shows "om_find seq (sc_udp_jitter_buffer c) = Some b" "sc_next_jitter_buffer_sequence c' = seq"
    "sc_has_next_jitter_buffer_sequence c'"
    "seq = baseline c \<or> (\<exists>rest. sc_udp_jitter_buffer c = (seq, b) # rest)"
  using assms
  by (auto simp: choose_expected_def baseline_def Let_def split: list.splits option.splits if_splits prod.splits)

lemma choose_expected_None:
  assumes "choose_expected now c = (c', None)" "sc_udp_jitter_buffer c = (k, old) # rest"
  shows "sc_next_jitter_buffer_sequence c' = baseline c" "sc_has_next_jitter_buffer_sequence c'"
    "\<not> (0 < effective_max_wait_ns c \<and> effective_max_wait_ns c \<le> wait_of now old)"
    "length (sc_udp_jitter_buffer c) < max (effective_max_frames c) 1"
    "om_find (baseline c) (sc_udp_jitter_buffer c) = None"
  using assms
  by (auto simp: choose_expected_def baseline_def Let_def effective_max_wait_ns_def effective_max_frames_def
      uses_adaptive_def not_le split: option.splits if_splits prod.splits)

text \<open>The client after the target delay was computed: only statistics and the controller's window
  cache differ.\<close>

definition delayed :: "StreamClient \<Rightarrow> StreamClient" where
  "delayed c = fst (CurrentJitterBufferTargetDelayNs c)"

lemma delayed_frames: "same_frames c (delayed c)"
  by (simp add: delayed_def same_frames_TargetDelay)

lemma delayed_limits [simp]:
  "effective_max_wait_ns (delayed c) = effective_max_wait_ns c"
  "effective_max_frames (delayed c) = effective_max_frames c"
  by (simp_all add: effective_max_wait_ns_def effective_max_frames_def uses_adaptive_def delayed_def
      CurrentJitterBufferTargetDelayNs_def Let_def split_beta)

lemma limits_cong:
  "sc_config c' = sc_config c \<Longrightarrow> sc_adaptive_jitter c' = sc_adaptive_jitter c \<Longrightarrow>
     effective_max_wait_ns c' = effective_max_wait_ns c \<and> effective_max_frames c' = effective_max_frames c"
  by (simp add: effective_max_wait_ns_def effective_max_frames_def uses_adaptive_def)

lemma delayed_baseline [simp]: "baseline (delayed c) = baseline c"
  by (simp add: baseline_def same_framesD [OF delayed_frames])

lemmas delayed_simps [simp] = same_framesD [OF delayed_frames]

lemma release_frame_frames [simp]:
  "sc_udp_jitter_buffer (release_frame seq w c) = om_erase seq (sc_udp_jitter_buffer c)"
  "sc_next_jitter_buffer_sequence (release_frame seq w c) = sc_next_jitter_buffer_sequence c + 1"
  "sc_has_next_jitter_buffer_sequence (release_frame seq w c) \<longleftrightarrow>
     sc_has_next_jitter_buffer_sequence c \<and> om_erase seq (sc_udp_jitter_buffer c) \<noteq> []"
  "sc_config (release_frame seq w c) = sc_config c"
  "sc_udp_assemblies (release_frame seq w c) = sc_udp_assemblies c"
  "sc_recently_completed (release_frame seq w c) = sc_recently_completed c"
  "sc_recently_completed_order (release_frame seq w c) = sc_recently_completed_order c"
  "sc_env (release_frame seq w c) = sc_env c"
  "sc_rtp_frame_assembly (release_frame seq w c) = sc_rtp_frame_assembly c"
  "sc_running (release_frame seq w c) = sc_running c"
  "sc_socket_fd (release_frame seq w c) = sc_socket_fd c"
  "sc_udp_test_dropped_fragments (release_frame seq w c) = sc_udp_test_dropped_fragments c"
  by (simp_all add: release_frame_def UpdateJitterBufferDepthStats_def RecordJitterBufferWait_def Let_def)

text \<open>The four ways a call can go.\<close>

lemma TryPop_cases:
  obtains
    (idle) "\<not> cc_udp_jitter_buffer_enabled (sc_config c) \<or> sc_udp_jitter_buffer c = []"
      "TryPopReadyUdpFrame now c = (PublishUdpReceiveStatsSnapshot c, None)"
  | (waiting) c1 where "cc_udp_jitter_buffer_enabled (sc_config c)" "sc_udp_jitter_buffer c \<noteq> []"
      "choose_expected now (delayed c) = (c1, None)"
      "TryPopReadyUdpFrame now c = (PublishUdpReceiveStatsSnapshot c1, None)"
  | (early) c1 seq b where "cc_udp_jitter_buffer_enabled (sc_config c)" "sc_udp_jitter_buffer c \<noteq> []"
      "choose_expected now (delayed c) = (c1, Some (seq, b))"
      "\<not> release_due (snd (CurrentJitterBufferTargetDelayNs c)) (wait_of now b) c1"
      "TryPopReadyUdpFrame now c = (PublishUdpReceiveStatsSnapshot c1, None)"
  | (released) c1 seq b where "cc_udp_jitter_buffer_enabled (sc_config c)" "sc_udp_jitter_buffer c \<noteq> []"
      "choose_expected now (delayed c) = (c1, Some (seq, b))"
      "release_due (snd (CurrentJitterBufferTargetDelayNs c)) (wait_of now b) c1"
      "TryPopReadyUdpFrame now c =
         (PublishUdpReceiveStatsSnapshot (release_frame seq (wait_of now b) c1), Some (bf_frame b))"
proof (cases "\<not> cc_udp_jitter_buffer_enabled (sc_config c) \<or> sc_udp_jitter_buffer c = []")
  case True
  then show ?thesis by (intro idle) (simp_all add: TryPopReadyUdpFrame_def)
next
  case False
  obtain c1 r where ch: "choose_expected now (delayed c) = (c1, r)" by fastforce
  obtain d where d: "CurrentJitterBufferTargetDelayNs c = (delayed c, d)"
    by (metis delayed_def prod.collapse)
  show ?thesis
  proof (cases r)
    case None
    then show ?thesis using False ch d by (intro waiting) (auto simp: TryPopReadyUdpFrame_def)
  next
    case (Some sb)
    obtain seq b where sb: "sb = (seq, b)" by fastforce
    show ?thesis
    proof (cases "release_due d (wait_of now b) c1")
      case True
      then show ?thesis using False ch d Some sb
        by (intro released [of c1 seq b]) (auto simp: TryPopReadyUdpFrame_def Let_def)
    next
      case F: False
      then show ?thesis using False ch d Some sb
        by (intro early [of c1 seq b]) (auto simp: TryPopReadyUdpFrame_def Let_def)
    qed
  qed
qed

text \<open>The rest of the client does not see a release.\<close>

definition same_receiver :: "StreamClient \<Rightarrow> StreamClient \<Rightarrow> bool" where
  "same_receiver c c' \<longleftrightarrow>
     sc_udp_assemblies c' = sc_udp_assemblies c \<and> sc_config c' = sc_config c \<and>
     sc_recently_completed c' = sc_recently_completed c \<and>
     sc_recently_completed_order c' = sc_recently_completed_order c \<and> sc_env c' = sc_env c \<and>
     sc_rtp_frame_assembly c' = sc_rtp_frame_assembly c \<and> sc_running c' = sc_running c \<and>
     sc_udp_test_dropped_fragments c' = sc_udp_test_dropped_fragments c \<and> sc_socket_fd c' = sc_socket_fd c"

lemma choose_expected_same_receiver:
  "choose_expected now (delayed c) = (c1, r) \<Longrightarrow> same_receiver c c1"
  using choose_expected_frames [of now "delayed c" c1 r] by (simp add: same_receiver_def)

lemma same_receiver_extend:
  "same_receiver c c1 \<Longrightarrow> same_receiver c (PublishUdpReceiveStatsSnapshot c1)"
  "same_receiver c c1 \<Longrightarrow> same_receiver c (release_frame seq w c1)"
  by (simp_all add: same_receiver_def)

lemma TryPop_same_receiver:
  assumes "TryPopReadyUdpFrame now c = (c', r)"
  shows "same_receiver c c'"
proof (cases rule: TryPop_cases [of c now])
  case idle
  have "same_receiver c c" by (simp add: same_receiver_def)
  then show ?thesis using assms idle(2) same_receiver_extend(1) by fastforce
next
  case (waiting c1)
  have "c' = PublishUdpReceiveStatsSnapshot c1" using assms waiting(4) by simp
  then show ?thesis by (simp only: same_receiver_extend choose_expected_same_receiver [OF waiting(3)])
next
  case (early c1 seq b)
  have "c' = PublishUdpReceiveStatsSnapshot c1" using assms early(5) by simp
  then show ?thesis by (simp only: same_receiver_extend choose_expected_same_receiver [OF early(3)])
next
  case (released c1 seq b)
  have "c' = PublishUdpReceiveStatsSnapshot (release_frame seq (wait_of now b) c1)"
    using assms released(5) by simp
  then show ?thesis by (simp only: same_receiver_extend choose_expected_same_receiver [OF released(3)])
qed

lemma TryPop_other:
  assumes "TryPopReadyUdpFrame now c = (c', r)"
  shows "sc_udp_assemblies c' = sc_udp_assemblies c" "sc_config c' = sc_config c"
    "sc_recently_completed c' = sc_recently_completed c"
    "sc_recently_completed_order c' = sc_recently_completed_order c" "sc_env c' = sc_env c"
    "sc_rtp_frame_assembly c' = sc_rtp_frame_assembly c" "sc_running c' = sc_running c"
    "sc_udp_test_dropped_fragments c' = sc_udp_test_dropped_fragments c" "sc_socket_fd c' = sc_socket_fd c"
  using TryPop_same_receiver [OF assms] by (simp_all add: same_receiver_def)

lemma TryPop_None:
  "TryPopReadyUdpFrame now c = (c', None) \<Longrightarrow> sc_udp_jitter_buffer c' = sc_udp_jitter_buffer c"
  by (cases rule: TryPop_cases [of c now]) (auto dest: choose_expected_frames)

lemma TryPop_Some:
  assumes "TryPopReadyUdpFrame now c = (c', Some f)" "om_ok (sc_udp_jitter_buffer c)"
  obtains seq b where "om_find seq (sc_udp_jitter_buffer c) = Some b" "f = bf_frame b"
    "sc_udp_jitter_buffer c' = om_erase seq (sc_udp_jitter_buffer c)"
    "sc_next_jitter_buffer_sequence c' = seq + 1"
    "sc_has_next_jitter_buffer_sequence c' \<longleftrightarrow> sc_udp_jitter_buffer c' \<noteq> []"
    "seq = baseline c \<or> (\<exists>rest. sc_udp_jitter_buffer c = (seq, b) # rest)"
proof (cases rule: TryPop_cases [of c now])
  case (released c1 seq b)
  note ch = choose_expected_frames [OF released(3)] and s = choose_expected_Some [OF released(3)]
  show ?thesis using released assms ch s by (intro that [of seq b]) auto
qed (use assms in auto)


subsection \<open>The buffer never stalls\<close>

lemma TryPop_releases:
  assumes "cc_udp_jitter_buffer_enabled (sc_config c)" "sc_udp_jitter_buffer c = (k, old) # rest"
    and full_or_old: "max (effective_max_frames c) 1 \<le> length (sc_udp_jitter_buffer c) \<or>
      0 < effective_max_wait_ns c \<and> (\<forall>(k, b)\<in>set (sc_udp_jitter_buffer c). effective_max_wait_ns c \<le> wait_of now b)"
    and ok: "om_ok (sc_udp_jitter_buffer c)"
  shows "\<exists>c' f. TryPopReadyUdpFrame now c = (c', Some f)"
proof (cases rule: TryPop_cases [of c now])
  case idle
  then show ?thesis using assms by simp
next
  case (waiting c1)
  have "\<not> (0 < effective_max_wait_ns c \<and> effective_max_wait_ns c \<le> wait_of now old)"
    "length (sc_udp_jitter_buffer c) < max (effective_max_frames c) 1"
    using choose_expected_None(3,4) [OF waiting(3), of k old rest] assms(2) by simp_all
  then show ?thesis using full_or_old assms(2) by auto
next
  case (early c1 seq b)
  have fr: "sc_udp_jitter_buffer c1 = sc_udp_jitter_buffer c" "effective_max_wait_ns c1 = effective_max_wait_ns c"
    "effective_max_frames c1 = effective_max_frames c"
    using choose_expected_frames [OF early(3)] limits_cong [of c1 "delayed c"] by simp_all
  have "(seq, b) \<in> set (sc_udp_jitter_buffer c)"
    using choose_expected_Some(1) [OF early(3)] ok om_find_Some by fastforce
  then have "release_due d (wait_of now b) c1" for d
    using full_or_old fr by (auto simp: release_due_def)
  then show ?thesis using early(4) by blast
next
  case (released c1 seq b)
  then show ?thesis by blast
qed

text \<open>C17: the playout buffer cannot be stuck behind a lost frame: whenever it holds as many frames as the
  limit in force (at least one), or every buffered frame has waited for the maximal waiting time,
  polling it releases a frame.\<close>

theorem TryPop_never_stalls:
  assumes "cc_udp_jitter_buffer_enabled (sc_config c)" "sc_udp_jitter_buffer c \<noteq> []" "om_ok (sc_udp_jitter_buffer c)"
    and "max (effective_max_frames c) 1 \<le> length (sc_udp_jitter_buffer c) \<or>
      0 < effective_max_wait_ns c \<and> (\<forall>(k, b)\<in>set (sc_udp_jitter_buffer c). effective_max_wait_ns c \<le> wait_of now b)"
  shows "snd (TryPopReadyUdpFrame now c) \<noteq> None"
proof -
  obtain k old rest where "sc_udp_jitter_buffer c = (k, old) # rest"
    using assms(2) by (cases "sc_udp_jitter_buffer c") auto
  then obtain c' f where "TryPopReadyUdpFrame now c = (c', Some f)"
    using TryPop_releases [of c k old rest now] assms by blast
  then show ?thesis by simp
qed

subsection \<open>Release order\<close>

text \<open>Buffered under their own sequence number, none older than the one waited for.\<close>

definition playout_inv :: "StreamClient \<Rightarrow> bool" where
  "playout_inv c \<longleftrightarrow> om_ok (sc_udp_jitter_buffer c) \<and>
     (\<forall>(k, b)\<in>set (sc_udp_jitter_buffer c). md_sequence (fr_metadata (bf_frame b)) = k) \<and>
     (sc_has_next_jitter_buffer_sequence c \<longrightarrow> (\<forall>k\<in>fst ` set (sc_udp_jitter_buffer c). sc_next_jitter_buffer_sequence c \<le> k))"

lemma BufferCompleted_buffer:
  "sc_udp_jitter_buffer (BufferCompletedUdpFrame f c) =
     (let k = md_sequence (fr_metadata f) in
      if om_find k (sc_udp_jitter_buffer c) \<noteq> None then sc_udp_jitter_buffer c
      else om_put k \<lparr>bf_frame = f, bf_buffered_timestamp_ns = fr_receive_timestamp_ns f\<rparr> (sc_udp_jitter_buffer c))"
  "sc_has_next_jitter_buffer_sequence (BufferCompletedUdpFrame f c) = sc_has_next_jitter_buffer_sequence c"
  "sc_next_jitter_buffer_sequence (BufferCompletedUdpFrame f c) = sc_next_jitter_buffer_sequence c"
  "same_receiver c (BufferCompletedUdpFrame f c)"
  by (simp_all add: BufferCompletedUdpFrame_def UpdateJitterBufferDepthStats_def Let_def same_receiver_def)

lemma playout_inv_arrive:
  assumes "playout_inv c" "sc_has_next_jitter_buffer_sequence c \<Longrightarrow> sc_next_jitter_buffer_sequence c \<le> md_sequence (fr_metadata f)"
  shows "playout_inv (BufferCompletedUdpFrame f c)"
  using assms by (auto simp: playout_inv_def BufferCompleted_buffer Let_def fst_om_put om.put_entries)

lemma om_first_least: "om_ok m \<Longrightarrow> m = (k, v) # rest \<Longrightarrow> k' \<in> fst ` set m \<Longrightarrow> k \<le> k'"
  by (auto simp: less_imp_le)

lemma playout_inv_poll_None:
  assumes "playout_inv c" "TryPopReadyUdpFrame now c = (c', None)"
  shows "playout_inv c'"
proof (cases rule: TryPop_cases [of c now])
  case idle
  then have "c' = PublishUdpReceiveStatsSnapshot c" using assms(2) by simp
  then show ?thesis using assms(1) by (simp add: playout_inv_def)
next
  case (waiting c1)
  then have c': "c' = PublishUdpReceiveStatsSnapshot c1" using assms(2) by simp
  obtain k old rest where b: "sc_udp_jitter_buffer c = (k, old) # rest" using waiting(2) by (cases "sc_udp_jitter_buffer c") auto
  have n: "sc_next_jitter_buffer_sequence c1 = baseline c" "sc_udp_jitter_buffer c1 = sc_udp_jitter_buffer c"
    using choose_expected_None(1) [OF waiting(3), of k old rest] choose_expected_frames(1) [OF waiting(3)] b by simp_all
  then show ?thesis using assms(1) b c' by (auto simp: playout_inv_def baseline_def less_imp_le)
next
  case (early c1 seq x)
  then have c': "c' = PublishUdpReceiveStatsSnapshot c1" using assms(2) by simp
  note s = choose_expected_Some [OF early(3)]
  have n: "sc_next_jitter_buffer_sequence c1 = seq" "sc_udp_jitter_buffer c1 = sc_udp_jitter_buffer c"
      "seq = baseline c \<or> (\<exists>rest. sc_udp_jitter_buffer c = (seq, x) # rest)"
    using s(2,4) choose_expected_frames(1) [OF early(3)] assms(1) by (auto simp: playout_inv_def)
  obtain k old rest where b: "sc_udp_jitter_buffer c = (k, old) # rest" using early(2) by (cases "sc_udp_jitter_buffer c") auto
  show ?thesis using assms(1) b c' n by (auto simp: playout_inv_def baseline_def less_imp_le split: if_splits)
qed (use assms in simp)

lemma playout_inv_poll_Some:
  assumes "playout_inv c" "TryPopReadyUdpFrame now c = (c', Some f)"
  shows "playout_inv c'" "md_sequence (fr_metadata f) \<in> fst ` set (sc_udp_jitter_buffer c)"
    "\<forall>k\<in>fst ` set (sc_udp_jitter_buffer c'). md_sequence (fr_metadata f) < k \<and> k \<in> fst ` set (sc_udp_jitter_buffer c)"
proof -
  have ok: "om_ok (sc_udp_jitter_buffer c)" using assms(1) by (simp add: playout_inv_def)
  obtain seq b where r: "om_find seq (sc_udp_jitter_buffer c) = Some b" "f = bf_frame b"
      "sc_udp_jitter_buffer c' = om_erase seq (sc_udp_jitter_buffer c)" "sc_next_jitter_buffer_sequence c' = seq + 1"
      "seq = baseline c \<or> (\<exists>rest. sc_udp_jitter_buffer c = (seq, b) # rest)"
    using TryPop_Some [OF assms(2) ok] by metis
  have mem: "(seq, b) \<in> set (sc_udp_jitter_buffer c)" using r(1) ok by (simp add: om_find_Some)
  then have q: "md_sequence (fr_metadata f) = seq" using assms(1) r(2) by (auto simp: playout_inv_def)
  have least: "seq \<le> k" if "k \<in> fst ` set (sc_udp_jitter_buffer c)" for k
  proof (cases "seq = baseline c \<and> sc_has_next_jitter_buffer_sequence c")
    case True
    then show ?thesis using that assms(1) by (auto simp: playout_inv_def baseline_def)
  next
    case False
    obtain k0 b0 rest where b: "sc_udp_jitter_buffer c = (k0, b0) # rest"
      using mem by (cases "sc_udp_jitter_buffer c") auto
    then have "seq = k0" using False r(5) by (auto simp: baseline_def)
    then show ?thesis using om_first_least [OF ok b that] by simp
  qed
  have rest: "seq < k \<and> k \<in> fst ` set (sc_udp_jitter_buffer c)" if "k \<in> fst ` set (sc_udp_jitter_buffer c')" for k
    using that least by (auto simp: r(3) fst_om_erase order.strict_iff_order)
  show "md_sequence (fr_metadata f) \<in> fst ` set (sc_udp_jitter_buffer c)" using mem q by (force simp: image_iff)
  show "\<forall>k\<in>fst ` set (sc_udp_jitter_buffer c'). md_sequence (fr_metadata f) < k \<and> k \<in> fst ` set (sc_udp_jitter_buffer c)"
    using rest q by blast
  have "seq + 1 \<le> k" if "k \<in> fst ` set (sc_udp_jitter_buffer c')" for k
    using rest [OF that] by (metis inc_le)
  then show "playout_inv c'"
    using assms(1) ok r(3,4) by (auto simp: playout_inv_def om.erase_entries)
qed


text \<open>A run of the playout buffer: completed frames arrive, the buffer is polled; the sequence numbers
  released so far, in order. A frame arrives in time if the buffer does not yet wait for a later
  one and no later one was released.\<close>

definition in_time :: "StreamClient \<Rightarrow> u64 list \<Rightarrow> ReceivedFrame \<Rightarrow> bool" where
  "in_time c released f \<longleftrightarrow>
     (sc_has_next_jitter_buffer_sequence c \<longrightarrow> sc_next_jitter_buffer_sequence c \<le> md_sequence (fr_metadata f)) \<and>
     list_all (\<lambda>k. k < md_sequence (fr_metadata f)) released"

inductive playout :: "StreamClient \<Rightarrow> StreamClient \<Rightarrow> u64 list \<Rightarrow> bool" for c0 where
  start: "playout c0 c0 []"
| arrive: "playout c0 c rel \<Longrightarrow> in_time c rel f \<Longrightarrow> playout c0 (BufferCompletedUdpFrame f c) rel"
| wait: "playout c0 c rel \<Longrightarrow> TryPopReadyUdpFrame now c = (c', None) \<Longrightarrow> playout c0 c' rel"
| release: "playout c0 c rel \<Longrightarrow> TryPopReadyUdpFrame now c = (c', Some f) \<Longrightarrow>
    playout c0 c' (rel @ [md_sequence (fr_metadata f)])"

lemma playout_invariant:
  assumes "playout c0 c rel" "playout_inv c0"
  shows "playout_inv c \<and> sorted_wrt (<) rel \<and> (\<forall>r\<in>set rel. \<forall>k\<in>fst ` set (sc_udp_jitter_buffer c). r < k)"
  using assms
proof (induction rule: playout.induct)
  case start
  then show ?case by simp
next
  case (arrive c rel f)
  then have IH: "playout_inv c" "sorted_wrt (<) rel" "\<forall>r\<in>set rel. \<forall>k\<in>fst ` set (sc_udp_jitter_buffer c). r < k"
    by auto
  have "playout_inv (BufferCompletedUdpFrame f c)"
    using IH(1) arrive.hyps(2) by (intro playout_inv_arrive) (auto simp: in_time_def)
  moreover have keys: "fst ` set (sc_udp_jitter_buffer (BufferCompletedUdpFrame f c)) \<subseteq>
      insert (md_sequence (fr_metadata f)) (fst ` set (sc_udp_jitter_buffer c))"
    by (simp add: BufferCompleted_buffer Let_def fst_om_put subset_insertI)
  moreover have late: "r < md_sequence (fr_metadata f)" if "r \<in> set rel" for r
    using arrive.hyps(2) that by (simp add: in_time_def list_all_iff)
  have "r < k" if "r \<in> set rel" "k \<in> fst ` set (sc_udp_jitter_buffer (BufferCompletedUdpFrame f c))" for r k
    using subsetD [OF keys that(2)] late [OF that(1)] IH(3) that(1) by blast
  ultimately show ?case using IH(2) by blast
next
  case (wait c rel now c')
  then show ?case using playout_inv_poll_None [OF _ wait.hyps(2)] TryPop_None [OF wait.hyps(2)] by simp
next
  case (release c rel now c' f)
  then have IH: "playout_inv c" "sorted_wrt (<) rel" "\<forall>r\<in>set rel. \<forall>k\<in>fst ` set (sc_udp_jitter_buffer c). r < k"
    by auto
  note p = playout_inv_poll_Some [OF IH(1) release.hyps(2)]
  have "sorted_wrt (<) (rel @ [md_sequence (fr_metadata f)])"
    using IH(2) bspec [OF bspec [OF IH(3)] p(2)] by (simp add: sorted_wrt_append)
  moreover have "r < k" if "r \<in> set (rel @ [md_sequence (fr_metadata f)])" "k \<in> fst ` set (sc_udp_jitter_buffer c')" for r k
  proof -
    have "md_sequence (fr_metadata f) < k" "k \<in> fst ` set (sc_udp_jitter_buffer c)" using p(3) that(2) by blast+
    then show ?thesis using that(1) IH(3) by auto
  qed
  ultimately show ?case using p(1) by blast
qed


subsection \<open>An example client\<close>

definition example_env :: ClientEnv where
  "example_env = \<lparr>ce_clock = (\<lambda>n. of_nat (1000 * (n + 1))), ce_clock_reads = 0, ce_send_ok = (\<lambda>_. True), ce_sent = []\<rparr>"

definition StreamClient_new :: "NetworkQuality \<Rightarrow> ClientEnv \<Rightarrow> StreamClient" where
  "StreamClient_new uninitialised env =
     \<lparr>sc_config = ClientConfig_default, sc_socket_fd = - 1, sc_running = False, sc_stats = UdpReceiveStats_zero,
      sc_stats_snapshot = UdpReceiveStats_zero, sc_udp_assemblies = [], sc_udp_jitter_buffer = [],
      sc_rtp_frame_assembly = RtpFrameAssembly_zero, sc_last_completed_frame_sequence = 0,
      sc_has_last_completed_frame_sequence = False, sc_next_jitter_buffer_sequence = 0,
      sc_has_next_jitter_buffer_sequence = False, sc_udp_test_dropped_fragments = [],
      sc_recently_completed_order = [], sc_recently_completed = {}, sc_previous_network_latency_ms = 0,
      sc_has_previous_network_latency = False,
      sc_adaptive_jitter = AdaptiveJitterBuffer_new uninitialised, sc_env = env\<rparr>"

definition example_client :: StreamClient where
  "example_client = (StreamClient_new kExcellent example_env)\<lparr>sc_running := True, sc_socket_fd := 3,
     sc_config := ClientConfig_default\<lparr>cc_udp_jitter_buffer_strategy := ''fixed'',
       cc_udp_jitter_buffer_target_delay_ms := 0\<rparr>\<rparr>"

definition example_received :: "u64 \<Rightarrow> ReceivedFrame" where
  "example_received seq =
     \<lparr>fr_header = MessageHeader_zero, fr_metadata = FrameDiagnosticMetadata_zero\<lparr>md_sequence := seq\<rparr>,
      fr_sender_metadata_available = False, fr_receive_timestamp_ns = 0, fr_payload = []\<rparr>"

lemma example_client_simps [simp]:
  "sc_config example_client = ClientConfig_default\<lparr>cc_udp_jitter_buffer_strategy := ''fixed'',
       cc_udp_jitter_buffer_target_delay_ms := 0\<rparr>"
  "sc_udp_jitter_buffer example_client = []" "\<not> sc_has_next_jitter_buffer_sequence example_client"
  "sc_udp_assemblies example_client = []" "sc_env example_client = example_env"
  by (simp_all add: example_client_def StreamClient_new_def)

lemma example_client_limits [simp]:
  "uses_adaptive example_client \<longleftrightarrow> False" "effective_max_frames example_client = 4"
  "effective_max_wait_ns example_client = 40000000"
  "snd (CurrentJitterBufferTargetDelayNs example_client) = 0"
  by code_simp+

lemma example_received_simps [simp]:
  "md_sequence (fr_metadata (example_received s)) = s" "fr_receive_timestamp_ns (example_received s) = 0"
  by (simp_all add: example_received_def)

theorem TryPop_never_stalls_witness:
  "snd (TryPopReadyUdpFrame 40000000 (BufferCompletedUdpFrame (example_received 7) example_client)) \<noteq> None"
proof -
  let ?c = "BufferCompletedUdpFrame (example_received 7) example_client"
  have b: "sc_udp_jitter_buffer ?c = [(7, \<lparr>bf_frame = example_received 7, bf_buffered_timestamp_ns = 0\<rparr>)]"
    by (simp add: BufferCompleted_buffer)
  have w: "effective_max_wait_ns ?c = 40000000" "cc_udp_jitter_buffer_enabled (sc_config ?c)"
    by code_simp+
  show ?thesis
    using TryPop_never_stalls [of ?c 40000000] b w by (simp add: wait_of_def)
qed


lemma target_delay_cong:
  assumes "sc_config c' = sc_config c" "sc_adaptive_jitter c' = sc_adaptive_jitter c"
    "us_jitter_samples (sc_stats c') = us_jitter_samples (sc_stats c)"
    "us_jitter_avg_ms (sc_stats c') = us_jitter_avg_ms (sc_stats c)"
  shows "snd (CurrentJitterBufferTargetDelayNs c') = snd (CurrentJitterBufferTargetDelayNs c)"
  using assms by (simp add: CurrentJitterBufferTargetDelayNs_def uses_adaptive_def Let_def split_beta)

text \<open>without that hypothesis the order is not kept. A buffer that was emptied forgets how far it had
  come: when the target delay is zero (the bypass mode of a good network), any frame that completes
  next is released at the next poll, also one older than every frame released before, and the
  buffer is empty again.\<close>

theorem drained_buffer_releases_any:
  assumes "cc_udp_jitter_buffer_enabled (sc_config c)" "sc_udp_jitter_buffer c = []"
    and "\<not> sc_has_next_jitter_buffer_sequence c" "snd (CurrentJitterBufferTargetDelayNs c) = 0"
  shows "\<exists>c'. TryPopReadyUdpFrame now (BufferCompletedUdpFrame f c) = (c', Some f) \<and>
    sc_udp_jitter_buffer c' = [] \<and> \<not> sc_has_next_jitter_buffer_sequence c'"
proof -
  let ?c = "BufferCompletedUdpFrame f c" and ?k = "md_sequence (fr_metadata f)"
  let ?b = "\<lparr>bf_frame = f, bf_buffered_timestamp_ns = fr_receive_timestamp_ns f\<rparr>"
  have b: "sc_udp_jitter_buffer ?c = [(?k, ?b)]" "\<not> sc_has_next_jitter_buffer_sequence ?c" "sc_config ?c = sc_config c"
    using assms(2,3) BufferCompleted_buffer(4) [of c f] by (simp_all add: BufferCompleted_buffer(1-3) same_receiver_def)
  have d: "snd (CurrentJitterBufferTargetDelayNs ?c) = 0"
    using assms(4) by (subst target_delay_cong [of _ c])
      (simp_all add: BufferCompletedUdpFrame_def UpdateJitterBufferDepthStats_def Let_def)
  have ch: "choose_expected now (delayed ?c) =
      (delayed ?c\<lparr>sc_next_jitter_buffer_sequence := ?k, sc_has_next_jitter_buffer_sequence := True\<rparr>, Some (?k, ?b))"
    using b(1,2) by (simp add: choose_expected_def)
  show ?thesis
  proof (cases rule: TryPop_cases [of ?c now])
    case (released c1 seq x)
    then have "seq = ?k" "x = ?b" "sc_udp_jitter_buffer c1 = [(?k, ?b)]" using ch b(1) by auto
    then show ?thesis using released(5) by simp
  qed (use assms(1) b ch d in \<open>auto simp: release_due_def\<close>)
qed

theorem drained_buffer_releases_any_witness:
  "\<exists>c1 c2. TryPopReadyUdpFrame 0 (BufferCompletedUdpFrame (example_received 5) example_client) = (c1, Some (example_received 5)) \<and>
     TryPopReadyUdpFrame 0 (BufferCompletedUdpFrame (example_received 4) example_client) = (c2, Some (example_received 4))"
  using drained_buffer_releases_any [of example_client] by (auto simp: ClientConfig_default_def)

end
