(* ===== verification/Frames.thy ===== *)
theory Frames
  imports AV_Prelude
begin

section \<open>Encoded frames\<close>

text \<open>
  \<^verbatim>\<open>sserver/src/common/model/EncodedFrame.h\<close>: what the encoder hands to the transport. A
  \<^verbatim>\<open>shared_ptr<const EncodedFrame>\<close> is an \<^verbatim>\<open>option\<close>: frames are never written after
  they were published, so sharing cannot be observed.
\<close>

datatype StreamPayloadType = kVideo | kAudio

fun StreamPayloadType_code :: "StreamPayloadType \<Rightarrow> u16" where
  "StreamPayloadType_code kVideo = 3"
| "StreamPayloadType_code kAudio = 4"

record EncodedFrame =
  ef_type :: StreamPayloadType
  ef_sequence :: u64
  ef_capture_timestamp_ns :: u64
  ef_encode_start_timestamp_ns :: u64
  ef_encode_end_timestamp_ns :: u64
  ef_is_keyframe :: bool
  ef_payload :: bytes

type_synonym EncodedFramePtr = "EncodedFrame option"

definition EncodedFrame_default :: EncodedFrame where
  "EncodedFrame_default =
     \<lparr>ef_type = kVideo, ef_sequence = 0, ef_capture_timestamp_ns = 0, ef_encode_start_timestamp_ns = 0,
      ef_encode_end_timestamp_ns = 0, ef_is_keyframe = False, ef_payload = []\<rparr>"

end
