(* ===== verification/Rtp_Packetizer.thy ===== *)
theory Rtp_Packetizer
  imports Frames Annex_B Rtp_Protocol
begin

section \<open>The RTP packetizer\<close>

text \<open>
  \<^verbatim>\<open>sserver/src/modules/transport/rtp/RtpPacketizer.cpp\<close>: one H.264 access unit becomes a
  sequence of RTP packets, one per NAL unit that fits, FU-A fragments of the others. The object is
  the record \<open>RtpPacketizer\<close>; its buffer \<^verbatim>\<open>nalus_\<close> is overwritten before each use and is not
  part of it. The initial sequence number is drawn from a pseudo-random generator of the C++
  library, the parameter \<open>uniform\<close>.
\<close>

record RtpPacketizer =
  rp_payload_type :: u8
  rp_clock_rate :: u32
  rp_max_payload_size :: nat
  rp_ssrc :: u32
  rp_enable_latency_extension :: bool
  rp_sequence_number :: u16

definition BuildInitialSequenceNumber :: "(u32 \<Rightarrow> u32) \<Rightarrow> u64 \<Rightarrow> u32 \<Rightarrow> u16" where
  "BuildInitialSequenceNumber uniform now_ns ssrc =
     (let seed = ucast (now_ns AND 0xFFFFFFFF) XOR ucast (drop_bit 32 now_ns) XOR ssrc
      in ucast (uniform seed))"

definition RtpPacketizer_new ::
  "(u32 \<Rightarrow> u32) \<Rightarrow> u64 \<Rightarrow> u8 \<Rightarrow> u32 \<Rightarrow> nat \<Rightarrow> u32 \<Rightarrow> bool \<Rightarrow> RtpPacketizer" where
  "RtpPacketizer_new uniform now_ns payload_type clock_rate max_payload_size ssrc enable_latency_extension =
     \<lparr>rp_payload_type = payload_type, rp_clock_rate = clock_rate, rp_max_payload_size = max_payload_size,
      rp_ssrc = ssrc, rp_enable_latency_extension = enable_latency_extension,
      rp_sequence_number = BuildInitialSequenceNumber uniform now_ns ssrc\<rparr>"

text \<open>The header fields of the next packet; \<^verbatim>\<open>sequence_number_++\<close>.\<close>

definition next_header_fields :: "RtpPacketizer \<Rightarrow> bool \<Rightarrow> u32 \<Rightarrow> RtpHeaderFields" where
  "next_header_fields p marker timestamp =
     \<lparr>rf_marker = marker, rf_payload_type = rp_payload_type p, rf_sequence_number = rp_sequence_number p,
      rf_timestamp = timestamp, rf_ssrc = rp_ssrc p\<rparr>"

definition bump_sequence :: "RtpPacketizer \<Rightarrow> RtpPacketizer" where
  "bump_sequence p = p\<lparr>rp_sequence_number := rp_sequence_number p + 1\<rparr>"

text \<open>The bytes \<open>WriteRtpHeaderToBuffer\<close> stores at the start of the buffer.\<close>

definition WriteRtpHeaderToBuffer :: "RtpHeaderFields \<Rightarrow> RtpHeaderExtension option \<Rightarrow> bytes" where
  "WriteRtpHeaderToBuffer hdr_fields extension =
     [rtp_first_byte (has_extension extension),
      rtp_second_byte (rf_marker hdr_fields) (rf_payload_type hdr_fields)]
     @ WriteBe16 (rf_sequence_number hdr_fields) @ WriteBe32 (rf_timestamp hdr_fields) @ WriteBe32 (rf_ssrc hdr_fields)
     @ (case extension of
          None \<Rightarrow> []
        | Some e \<Rightarrow> if re_payload e = [] then []
            else WriteBe16 (re_profile_id e) @ WriteBe16 (of_nat (length (re_payload e) div 4)) @ re_payload e)"

text \<open>Into an empty vector: it stays empty when the header cannot be written.\<close>

definition BuildRtpPacketInto :: "RtpHeaderFields \<Rightarrow> RtpHeaderExtension option \<Rightarrow> bytes \<Rightarrow> bytes" where
  "BuildRtpPacketInto hdr_fields extension payload =
     (case WriteRtpHeader hdr_fields extension of None \<Rightarrow> [] | Some packet \<Rightarrow> packet @ payload)"

definition BuildTimestamp :: "RtpPacketizer \<Rightarrow> EncodedFrame \<Rightarrow> u32" where
  "BuildTimestamp p frame =
     (if ef_capture_timestamp_ns frame = 0 then ucast (ef_sequence frame AND 0xFFFFFFFF)
      else
        let timestamp = (ef_capture_timestamp_ns frame * ucast (rp_clock_rate p)) div 1000000000
        in ucast (timestamp AND 0xFFFFFFFF))"

text \<open>\<open>None\<close> for \<^verbatim>\<open>return false\<close>. \<open>packets\<close> is the vector built so far.\<close>

definition PacketizeSingleNalu ::
  "RtpPacketizer \<Rightarrow> bytes \<Rightarrow> bool \<Rightarrow> u32 \<Rightarrow> RtpHeaderExtension option \<Rightarrow> bytes list
     \<Rightarrow> RtpPacketizer \<times> bytes list option" where
  "PacketizeSingleNalu p nalu marker timestamp header_extension packets =
     (let packet = BuildRtpPacketInto (next_header_fields p marker timestamp) header_extension nalu
      in (bump_sequence p, if packet = [] then None else Some (packets @ [packet])))"

text \<open>One iteration of the loop of \<open>PacketizeFragmentedNalu\<close>: the packet of the chunk at \<open>offset\<close>, built
  in place in a vector of its final size.\<close>

definition fu_packet ::
  "RtpPacketizer \<Rightarrow> bytes \<Rightarrow> nat \<Rightarrow> bool \<Rightarrow> u32 \<Rightarrow> RtpHeaderExtension option \<Rightarrow> nat \<Rightarrow> bytes" where
  "fu_packet p nalu fragment_payload_capacity marker timestamp header_extension offset =
     (let fu_indicator = (nalu ! 0 AND 0xE0) OR kH264FuAType;
          fu_header_base = nalu ! 0 AND 0x1F;
          remaining = length nalu - offset;
          chunk_size = min fragment_payload_capacity remaining;
          start = (offset = 1);
          end_flag = (length nalu \<le> offset + chunk_size);
          fu_header = (if start then 0x80 else 0x00) OR (if end_flag then 0x40 else 0x00) OR fu_header_base;
          ext_size = (if has_extension header_extension
                      then kRtpExtensionHeaderSize + length (extension_payload header_extension) else 0);
          hdr_size = kRtpHeaderSize + ext_size;
          total = hdr_size + 2 + chunk_size;
          packet = write_at 0 (WriteRtpHeaderToBuffer (next_header_fields p (marker \<and> end_flag) timestamp) header_extension)
                     (replicate total 0);
          packet = packet[hdr_size := fu_indicator];
          packet = packet[hdr_size + 1 := fu_header]
      in write_at (hdr_size + 2) (slice offset chunk_size nalu) packet)"

text \<open>The loop from \<open>offset\<close>, with a capacity that was checked to be positive. A packet is never
  empty, so the loop has no error exit.\<close>

function fragment_loop ::
  "bytes \<Rightarrow> nat \<Rightarrow> bool \<Rightarrow> u32 \<Rightarrow> RtpHeaderExtension option \<Rightarrow> RtpPacketizer \<Rightarrow> nat \<Rightarrow> bytes list
     \<Rightarrow> RtpPacketizer \<times> bytes list" where
  "fragment_loop nalu cap marker timestamp ext p offset packets =
     (if offset < length nalu \<and> 0 < cap then
        fragment_loop nalu cap marker timestamp ext (bump_sequence p) (offset + min cap (length nalu - offset))
          (packets @ [fu_packet p nalu cap marker timestamp ext offset])
      else (p, packets))"
  by pat_completeness auto
termination
  by (relation "measure (\<lambda>(nalu, cap, m, t, e, p, offset, ps). length nalu - offset)") auto

declare fragment_loop.simps [simp del]

definition PacketizeFragmentedNalu ::
  "RtpPacketizer \<Rightarrow> bytes \<Rightarrow> bool \<Rightarrow> u32 \<Rightarrow> RtpHeaderExtension option \<Rightarrow> bytes list
     \<Rightarrow> RtpPacketizer \<times> (string + bytes list)" where
  "PacketizeFragmentedNalu p nalu marker timestamp header_extension packets =
     (if length nalu < 2 then (p, Inl ''cannot fragment empty H264 NAL unit'')
      else if rp_max_payload_size p - 2 = 0 then (p, Inl ''rtp max payload size is too small for FU-A'')
      else
        (case fragment_loop nalu (rp_max_payload_size p - 2) marker timestamp header_extension p 1 packets of
           (p', packets') \<Rightarrow> (p', Inr packets')))"

text \<open>The loop over the NAL units.\<close>

fun packetize_nalus ::
  "RtpPacketizer \<Rightarrow> u32 \<Rightarrow> RtpHeaderExtension option \<Rightarrow> bytes list \<Rightarrow> bytes list
     \<Rightarrow> RtpPacketizer \<times> (string + bytes list)" where
  "packetize_nalus p timestamp ext [] packets = (p, Inr packets)"
| "packetize_nalus p timestamp ext (nalu # nalus) packets =
     (let marker = (nalus = []) in
      if length nalu \<le> rp_max_payload_size p then
        (case PacketizeSingleNalu p nalu marker timestamp ext packets of
           (p', None) \<Rightarrow> (p', Inl ''failed to packetize single RTP/H264 NAL unit'')
         | (p', Some packets') \<Rightarrow> packetize_nalus p' timestamp ext nalus packets')
      else
        (case PacketizeFragmentedNalu p nalu marker timestamp ext packets of
           (p', Inl e) \<Rightarrow> (p', Inl e)
         | (p', Inr packets') \<Rightarrow> packetize_nalus p' timestamp ext nalus packets'))"

definition Packetize :: "RtpPacketizer \<Rightarrow> EncodedFramePtr \<Rightarrow> RtpPacketizer \<times> (string + bytes list)" where
  "Packetize p frame_ptr =
     (case frame_ptr of
        None \<Rightarrow> (p, Inl ''frame or packet output is null'')
      | Some frame \<Rightarrow>
          if ef_type frame \<noteq> kVideo then (p, Inl ''rtp packetizer currently supports video only'')
          else if rp_max_payload_size p \<le> 2 then (p, Inl ''rtp max payload size is too small'')
          else
            let nalus = SplitAnnexBNalus (ef_payload frame) in
            if nalus = [] then (p, Inl ''frame payload does not contain Annex-B H264 NAL units'')
            else
              let timestamp = BuildTimestamp p frame;
                  header_extension =
                    (if rp_enable_latency_extension p
                     then Some (BuildRtpLatencyHeaderExtension
                            \<lparr>rl_capture_timestamp_ns = ef_capture_timestamp_ns frame, rl_transport_send_timestamp_ns = 0\<rparr>)
                     else None)
              in (case packetize_nalus p timestamp header_extension nalus [] of
                    (p', Inl e) \<Rightarrow> (p', Inl e)
                  | (p', Inr packets) \<Rightarrow> if packets = [] then (p', Inl '''') else (p', Inr packets)))"


subsection \<open>What a frame is cut into\<close>

text \<open>The RTP payloads of a NAL unit: the unit itself, or its FU-A fragments.\<close>

function fu_payloads :: "nat \<Rightarrow> bytes \<Rightarrow> nat \<Rightarrow> bytes list" where
  "fu_payloads cap nalu offset =
     (if offset < length nalu \<and> 0 < cap then
        ([(nalu ! 0 AND 0xE0) OR kH264FuAType,
          (if offset = 1 then 0x80 else 0x00) OR (if length nalu \<le> offset + cap then 0x40 else 0x00) OR (nalu ! 0 AND 0x1F)]
          @ slice offset cap nalu)
        # fu_payloads cap nalu (offset + cap)
      else [])"
  by pat_completeness auto
termination
  by (relation "measure (\<lambda>(cap, nalu, offset). length nalu - offset)") auto

declare fu_payloads.simps [simp del]

definition nal_payloads :: "nat \<Rightarrow> bytes \<Rightarrow> bytes list" where
  "nal_payloads max_size nalu = (if length nalu \<le> max_size then [nalu] else fu_payloads (max_size - 2) nalu 1)"

definition frame_payloads :: "nat \<Rightarrow> bytes list \<Rightarrow> bytes list" where
  "frame_payloads max_size nalus = concat (map (nal_payloads max_size) nalus)"

text \<open>The packets that carry a list of payloads: consecutive sequence numbers, one time stamp, the
  marker on the last one if asked for.\<close>

fun packets_of ::
  "RtpPacketizer \<Rightarrow> bool \<Rightarrow> u32 \<Rightarrow> RtpHeaderExtension option \<Rightarrow> bytes list \<Rightarrow> bytes list" where
  "packets_of p marker timestamp ext [] = []"
| "packets_of p marker timestamp ext (pl # pls) =
     (WriteRtpHeaderToBuffer (next_header_fields p (marker \<and> pls = []) timestamp) ext @ pl)
     # packets_of (bump_sequence p) marker timestamp ext pls"

definition bump_by :: "nat \<Rightarrow> RtpPacketizer \<Rightarrow> RtpPacketizer" where
  "bump_by n p = p\<lparr>rp_sequence_number := rp_sequence_number p + of_nat n\<rparr>"

lemma bump_by_simps [simp]:
  "bump_by 0 p = p"
  "bump_by n (bump_sequence p) = bump_by (Suc n) p"
  "bump_by m (bump_by n p) = bump_by (n + m) p"
  "rp_max_payload_size (bump_by n p) = rp_max_payload_size p"
  "rp_max_payload_size (bump_sequence p) = rp_max_payload_size p"
  by (simp_all add: bump_by_def bump_sequence_def add.assoc)

lemma bump_sequence_by: "bump_sequence p = bump_by 1 p"
  by (simp add: bump_by_def bump_sequence_def)

lemma length_packets_of [simp]: "length (packets_of p m t e pls) = length pls"
  by (induction pls arbitrary: p) auto

lemma packets_of_append:
  "ys \<noteq> [] \<Longrightarrow> packets_of p m t e (xs @ ys) = packets_of p False t e xs @ packets_of (bump_by (length xs) p) m t e ys"
  by (induction xs arbitrary: p) auto

lemma packets_of_eq_Nil [simp]: "packets_of p m t e pls = [] \<longleftrightarrow> pls = []"
  by (cases pls) auto

text \<open>The extension the packetizer uses, if any, has a length that is a multiple of four.\<close>

definition ext_ok :: "RtpHeaderExtension option \<Rightarrow> bool" where
  "ext_ok ext \<longleftrightarrow> length (extension_payload ext) mod 4 = 0"

lemma WriteRtpHeader_buffer: "ext_ok ext \<Longrightarrow> WriteRtpHeader f ext = Some (WriteRtpHeaderToBuffer f ext)"
  by (auto simp: WriteRtpHeader_def WriteRtpHeaderToBuffer_def ext_ok_def)

lemma length_WriteRtpHeaderToBuffer:
  "length (WriteRtpHeaderToBuffer f ext) =
     kRtpHeaderSize + (if has_extension ext then kRtpExtensionHeaderSize + length (extension_payload ext) else 0)"
  by (simp add: WriteRtpHeaderToBuffer_def has_extension_def extension_payload_def split: option.splits)

subsection \<open>The loops build those packets\<close>

lemma PacketizeSingleNalu_eq:
  assumes "ext_ok ext"
  shows "PacketizeSingleNalu p nalu m t ext packets = (bump_by 1 p, Some (packets @ packets_of p m t ext [nalu]))"
proof -
  have "WriteRtpHeaderToBuffer (next_header_fields p m t) ext \<noteq> []"
    by (simp add: WriteRtpHeaderToBuffer_def)
  then show ?thesis
    using assms by (simp add: PacketizeSingleNalu_def BuildRtpPacketInto_def WriteRtpHeader_buffer
        Let_def bump_sequence_by)
qed

text \<open>The buffer writes of one iteration produce header, FU bytes and chunk one after the other.\<close>

lemma fu_packet_layout:
  assumes "length hdr = h" "length (chunk :: bytes) = c"
  shows "write_at (h + 2) chunk ((write_at 0 hdr (replicate (h + 2 + c) 0))[h := a, h + 1 := b]) = hdr @ [a, b] @ chunk"
proof -
  have "replicate (h + 2 + c) (0 :: u8) = replicate h 0 @ [0, 0] @ replicate c 0"
    by (simp only: replicate_add numeral_2_eq_2 replicate.simps append_assoc)
  then have "write_at 0 hdr (replicate (h + 2 + c) 0) = hdr @ [0, 0] @ replicate c 0"
    using assms by (simp add: write_at_def)
  then show ?thesis using assms by (simp add: write_at_def list_update_append)
qed

lemma min_slice: "slice off (min n (length xs - off)) xs = slice off n xs"
  by (simp add: slice_def min_def)

lemma fu_packet_eq:
  assumes "off < length nalu"
  shows "fu_packet p nalu cap m t ext off =
    WriteRtpHeaderToBuffer (next_header_fields p (m \<and> length nalu \<le> off + cap) t) ext
    @ [(nalu ! 0 AND 0xE0) OR kH264FuAType,
       (if off = 1 then 0x80 else 0x00) OR (if length nalu \<le> off + cap then 0x40 else 0x00) OR (nalu ! 0 AND 0x1F)]
    @ slice off cap nalu"
proof -
  let ?c = "min cap (length nalu - off)"
  let ?last = "length nalu \<le> off + cap"
  let ?hdr = "WriteRtpHeaderToBuffer (next_header_fields p (m \<and> ?last) t) ext"
  have last: "length nalu \<le> off + ?c \<longleftrightarrow> ?last" using assms by (auto simp: min_def)
  have hsize: "kRtpHeaderSize + (if has_extension ext then kRtpExtensionHeaderSize + length (extension_payload ext) else 0) = length ?hdr"
    by (simp only: length_WriteRtpHeaderToBuffer)
  have c: "length (slice off cap nalu) = ?c" by simp
  show ?thesis
    unfolding fu_packet_def Let_def last hsize min_slice
    by (rule fu_packet_layout [OF refl c])
qed

lemma fragment_loop_eq:
  assumes "0 < cap"
  shows "fragment_loop nalu cap m t ext p off packets =
    (bump_by (length (fu_payloads cap nalu off)) p, packets @ packets_of p m t ext (fu_payloads cap nalu off))"
  using assms
proof (induction nalu cap m t ext p off packets rule: fragment_loop.induct)
  case (1 nalu cap m t ext p off packets)
  show ?case
  proof (cases "off < length nalu")
    case False
    then show ?thesis by (subst fragment_loop.simps, subst (1 2) fu_payloads.simps) simp
  next
    case True
    have nxt: "fu_payloads cap nalu (off + min cap (length nalu - off)) = fu_payloads cap nalu (off + cap)"
    proof (cases "length nalu \<le> off + cap")
      case True
      then show ?thesis by (subst (1 2) fu_payloads.simps) (auto simp: min_def)
    next
      case False
      then have "min cap (length nalu - off) = cap" by simp
      then show ?thesis by simp
    qed
    have end_iff: "fu_payloads cap nalu (off + cap) = [] \<longleftrightarrow> length nalu \<le> off + cap"
      using 1(2) by (subst fu_payloads.simps) auto
    show ?thesis
      using "1.IH" True 1(2)
      by (subst fragment_loop.simps, subst (1 2) fu_payloads.simps)
        (simp add: nxt end_iff fu_packet_eq)
  qed
qed

lemma nal_payloads_not_Nil: "2 < max_size \<Longrightarrow> nal_payloads max_size nalu \<noteq> []"
  by (simp add: nal_payloads_def) (subst fu_payloads.simps, simp)

lemma packetize_nalus_eq:
  assumes "ext_ok ext" "2 < rp_max_payload_size p"
  shows "packetize_nalus p t ext nalus packets =
    (bump_by (length (frame_payloads (rp_max_payload_size p) nalus)) p,
     Inr (packets @ packets_of p True t ext (frame_payloads (rp_max_payload_size p) nalus)))"
  using assms(2)
proof (induction nalus arbitrary: p packets)
  case Nil
  then show ?case by (simp add: frame_payloads_def)
next
  case (Cons nalu nalus)
  let ?max = "rp_max_payload_size p"
  let ?pls = "nal_payloads ?max nalu"
  have one: "packetize_nalus p t ext (nalu # nalus) packets =
      packetize_nalus (bump_by (length ?pls) p) t ext nalus (packets @ packets_of p (nalus = []) t ext ?pls)"
    using Cons.prems
    by (auto simp: nal_payloads_def PacketizeSingleNalu_eq [OF assms(1)] PacketizeFragmentedNalu_def fragment_loop_eq
        simp del: packets_of.simps)
  have Nil: "frame_payloads ?max nalus = [] \<longleftrightarrow> nalus = []"
    using Cons.prems by (cases nalus) (auto simp: frame_payloads_def nal_payloads_not_Nil)
  have cons: "frame_payloads ?max (nalu # nalus) = ?pls @ frame_payloads ?max nalus"
    by (simp add: frame_payloads_def)
  show ?case
  proof (cases "nalus = []")
    case True
    then show ?thesis unfolding one by (simp add: frame_payloads_def)
  next
    case False
    then show ?thesis
      unfolding one cons using Cons.prems Nil by (subst Cons.IH) (simp_all add: packets_of_append)
  qed
qed


lemma packets_of_nth:
  "i < length pls \<Longrightarrow> packets_of p m t e pls ! i =
     WriteRtpHeaderToBuffer (next_header_fields (bump_by i p) (m \<and> Suc i = length pls) t) e @ pls ! i"
proof (induction pls arbitrary: p i)
  case Nil
  then show ?case by simp
next
  case (Cons pl pls)
  then show ?case by (cases i) auto
qed

lemma fu_payloads_length: "pl \<in> set (fu_payloads cap nalu off) \<Longrightarrow> length pl \<le> cap + 2"
proof (induction cap nalu off rule: fu_payloads.induct)
  case (1 cap nalu off)
  then show ?case by (subst (asm) (2) fu_payloads.simps) (auto split: if_splits)
qed

lemma frame_payloads_length:
  "2 < max_size \<Longrightarrow> pl \<in> set (frame_payloads max_size nalus) \<Longrightarrow> length pl \<le> max_size"
  by (auto simp: frame_payloads_def nal_payloads_def split: if_splits dest!: fu_payloads_length)

text \<open>The extension of a frame's packets.\<close>

definition frame_extension :: "RtpPacketizer \<Rightarrow> EncodedFrame \<Rightarrow> RtpHeaderExtension option" where
  "frame_extension p frame =
     (if rp_enable_latency_extension p
      then Some (BuildRtpLatencyHeaderExtension
             \<lparr>rl_capture_timestamp_ns = ef_capture_timestamp_ns frame, rl_transport_send_timestamp_ns = 0\<rparr>)
      else None)"

lemma ext_ok_frame_extension [simp]: "ext_ok (frame_extension p f)"
  by (simp add: ext_ok_def frame_extension_def extension_payload_def BuildRtpLatencyHeaderExtension_def)

lemma frame_extension_length [simp]: "length (extension_payload (frame_extension p f)) \<le> 16"
  by (simp add: frame_extension_def extension_payload_def BuildRtpLatencyHeaderExtension_def)

lemma frame_payloads_eq_Nil: "2 < max_size \<Longrightarrow> frame_payloads max_size nalus = [] \<longleftrightarrow> nalus = []"
  by (cases nalus) (auto simp: frame_payloads_def nal_payloads_not_Nil)

text \<open>C39: on a video frame with at least one NAL unit the packetizer returns exactly the packets that
  carry the frame's payloads (each NAL unit whole if it fits, otherwise as FU-A fragments), in
  order, and advances its sequence number by their number.\<close>

theorem Packetize_spec:
  assumes "ef_type frame = kVideo" "2 < rp_max_payload_size p" "SplitAnnexBNalus (ef_payload frame) \<noteq> []"
  shows "Packetize p (Some frame) =
    (bump_by (length (frame_payloads (rp_max_payload_size p) (SplitAnnexBNalus (ef_payload frame)))) p,
     Inr (packets_of p True (BuildTimestamp p frame) (frame_extension p frame)
            (frame_payloads (rp_max_payload_size p) (SplitAnnexBNalus (ef_payload frame)))))"
  using assms
  by (simp add: Packetize_def Let_def frame_extension_def [symmetric] packetize_nalus_eq frame_payloads_eq_Nil)

lemma Packetize_success:
  assumes "Packetize p (Some frame) = (p', Inr packets)"
  shows "ef_type frame = kVideo" "2 < rp_max_payload_size p" "SplitAnnexBNalus (ef_payload frame) \<noteq> []"
    "packets = packets_of p True (BuildTimestamp p frame) (frame_extension p frame)
        (frame_payloads (rp_max_payload_size p) (SplitAnnexBNalus (ef_payload frame)))"
    "p' = bump_by (length packets) p"
proof -
  show c: "ef_type frame = kVideo" "2 < rp_max_payload_size p" "SplitAnnexBNalus (ef_payload frame) \<noteq> []"
    using assms by (auto simp: Packetize_def Let_def split: if_splits)
  then show "packets = packets_of p True (BuildTimestamp p frame) (frame_extension p frame)
        (frame_payloads (rp_max_payload_size p) (SplitAnnexBNalus (ef_payload frame)))"
    "p' = bump_by (length packets) p"
    using assms
    by (auto simp: Packetize_def Let_def frame_extension_def [symmetric] packetize_nalus_eq frame_payloads_eq_Nil)
qed

lemma extension_on_wire_latency:
  "extension_on_wire (Some (BuildRtpLatencyHeaderExtension x)) = BuildRtpLatencyHeaderExtension x"
  by (simp add: extension_on_wire_def BuildRtpLatencyHeaderExtension_def)

lemma ParseRtpHeader_packet:
  assumes "ext_ok ext" "length (extension_payload ext) \<le> 16" "rf_payload_type f < 128"
  shows "ParseRtpHeader (WriteRtpHeaderToBuffer f ext @ pl) =
    Some (f, length (WriteRtpHeaderToBuffer f ext), extension_on_wire ext)"
  using assms by (intro ParseRtpHeader_WriteRtpHeader) (auto simp: WriteRtpHeader_buffer)

text \<open>the packets of a frame, as a receiver parses them: the configured payload type and SSRC, one
  time stamp, consecutive sequence numbers (modulo 2^16), the marker on the last packet only, a
  payload that is not longer than the configured maximum, and a datagram at most the header
  overhead longer.\<close>

theorem Packetize_packets_parse:
  assumes "Packetize p (Some frame) = (p', Inr packets)" "rp_payload_type p < 128" "i < length packets"
  shows "\<exists>header_size. ParseRtpHeader (packets ! i) =
      Some (\<lparr>rf_marker = (Suc i = length packets), rf_payload_type = rp_payload_type p,
             rf_sequence_number = rp_sequence_number p + of_nat i,
             rf_timestamp = BuildTimestamp p frame, rf_ssrc = rp_ssrc p\<rparr>,
            header_size, extension_on_wire (frame_extension p frame)) \<and>
      length (packets ! i) - header_size \<le> rp_max_payload_size p \<and>
      length (packets ! i) \<le> kRtpPacketOverheadWithLatencyExtension + rp_max_payload_size p"
proof -
  note s = Packetize_success [OF assms(1)]
  let ?pls = "frame_payloads (rp_max_payload_size p) (SplitAnnexBNalus (ef_payload frame))"
  let ?h = "WriteRtpHeaderToBuffer (next_header_fields (bump_by i p) (Suc i = length ?pls) (BuildTimestamp p frame)) (frame_extension p frame)"
  have i: "i < length ?pls" and n: "length packets = length ?pls" using assms(3) s(4) by simp_all
  have pkt: "packets ! i = ?h @ ?pls ! i" using i s(4) by (simp add: packets_of_nth)
  have "length (?pls ! i) \<le> rp_max_payload_size p" using frame_payloads_length [OF s(2) nth_mem [OF i]] .
  moreover have "length ?h \<le> 32"
    using frame_extension_length [of p frame] by (simp add: length_WriteRtpHeaderToBuffer)
  moreover have "ParseRtpHeader (packets ! i) =
      Some (next_header_fields (bump_by i p) (Suc i = length ?pls) (BuildTimestamp p frame), length ?h,
        extension_on_wire (frame_extension p frame))"
    unfolding pkt using assms(2) by (intro ParseRtpHeader_packet) (simp_all add: next_header_fields_def bump_by_def)
  ultimately show ?thesis
    by (intro exI [of _ "length ?h"]) (simp add: n next_header_fields_def bump_by_def pkt)
qed


text \<open>A frame of two NAL units, the second one too long for a packet.\<close>

definition example_packetizer :: RtpPacketizer where
  "example_packetizer = \<lparr>rp_payload_type = 96, rp_clock_rate = 90000, rp_max_payload_size = 4, rp_ssrc = 7,
     rp_enable_latency_extension = True, rp_sequence_number = 65535\<rparr>"

definition example_frame :: EncodedFrame where
  "example_frame = EncodedFrame_default\<lparr>ef_sequence := 5, ef_capture_timestamp_ns := 1000000000, ef_is_keyframe := True,
     ef_payload := [0, 0, 0, 1, 0x67, 0x42, 0, 0, 1, 0x65, 1, 2, 3, 4, 5]\<rparr>"

lemma example_split: "SplitAnnexBNalus (ef_payload example_frame) = [[0x67, 0x42], [0x65, 1, 2, 3, 4, 5]]"
  by code_simp

lemma Packetize_spec_eval:
  "case snd (Packetize example_packetizer (Some example_frame)) of Inr packets \<Rightarrow> length packets = 4 | Inl _ \<Rightarrow> False"
  by code_simp

theorem Packetize_spec_witness:
  "snd (Packetize example_packetizer (Some example_frame)) =
     Inr (packets_of example_packetizer True 90000 (frame_extension example_packetizer example_frame)
       [[0x67, 0x42], [0x7C, 0x85, 1, 2], [0x7C, 0x05, 3, 4], [0x7C, 0x45, 5]])"
proof -
  have t: "BuildTimestamp example_packetizer example_frame = 90000" by code_simp
  have pl: "frame_payloads 4 [[0x67, 0x42], [0x65, 1, 2, 3, 4, 5]] =
      [[0x67, 0x42], [0x7C, 0x85, 1, 2], [0x7C, 0x05, 3, 4], [0x7C, 0x45, 5]]" by code_simp
  show ?thesis
    using Packetize_spec [of example_frame example_packetizer] t pl
    by (simp add: example_split) (simp add: example_packetizer_def example_frame_def EncodedFrame_default_def)
qed


theorem Packetize_packets_parse_witness:
  "\<exists>packets header_size. snd (Packetize example_packetizer (Some example_frame)) = Inr packets \<and> length packets = 4 \<and>
     ParseRtpHeader (packets ! 3) =
       Some (\<lparr>rf_marker = True, rf_payload_type = 96, rf_sequence_number = 2, rf_timestamp = 90000, rf_ssrc = 7\<rparr>,
             header_size, extension_on_wire (frame_extension example_packetizer example_frame)) \<and>
     length (packets ! 3) - header_size \<le> 4"
proof -
  obtain p' packets where pk: "Packetize example_packetizer (Some example_frame) = (p', Inr packets)" "length packets = 4"
    using Packetize_spec_eval
    by (cases "Packetize example_packetizer (Some example_frame)") (auto split: sum.splits)
  have t: "BuildTimestamp example_packetizer example_frame = 90000" by code_simp
  show ?thesis
    using Packetize_packets_parse [OF pk(1), of 3] pk t by (auto simp: example_packetizer_def)
qed

subsection \<open>The RTP time stamp\<close>

lemma ucast_low32: "ucast (x AND 0xFFFFFFFF) = (ucast (x :: u64) :: u32)"
proof (rule bit_eqI)
  fix k assume "possible_bit TYPE(32 word) k"
  then have "k < 32" by simp
  have F: "(0xFFFFFFFF :: u64) = mask 32" by (simp add: mask_eq_exp_minus_1)
  show "bit (ucast (x AND 0xFFFFFFFF) :: u32) k = bit (ucast x :: u32) k"
    unfolding F using \<open>k < 32\<close> by (auto simp: bit_simps dest: bit_imp_le_length)
qed

text \<open>as long as capture time times clock rate fits in 64 bits, the RTP time stamp is the capture
  time in clock units, rounded down, modulo 2^32.\<close>

theorem BuildTimestamp_exact:
  assumes "ef_capture_timestamp_ns frame \<noteq> 0"
    and "unat (ef_capture_timestamp_ns frame) * unat (rp_clock_rate p) < 2 ^ 64"
  shows "BuildTimestamp p frame =
    of_nat (unat (ef_capture_timestamp_ns frame) * unat (rp_clock_rate p) div 1000000000)"
proof -
  let ?w = "(ef_capture_timestamp_ns frame * ucast (rp_clock_rate p)) div 1000000000"
  have rate: "unat (ucast (rp_clock_rate p) :: u64) = unat (rp_clock_rate p)"
    by (simp add: unat_ucast_up)
  have mult: "unat (ef_capture_timestamp_ns frame * ucast (rp_clock_rate p)) =
      unat (ef_capture_timestamp_ns frame) * unat (rp_clock_rate p)"
    using assms(2) unat_mult_lem [of "ef_capture_timestamp_ns frame" "ucast (rp_clock_rate p)"]
    by (simp add: rate)
  have w: "unat ?w = unat (ef_capture_timestamp_ns frame) * unat (rp_clock_rate p) div 1000000000"
    by (simp add: unat_div_distrib mult)
  show ?thesis
    using assms(1) by (simp add: BuildTimestamp_def Let_def ucast_low32) (metis w of_nat_unat)
qed

theorem BuildTimestamp_exact_witness:
  "BuildTimestamp example_packetizer example_frame = of_nat (1000000000 * 90000 div 1000000000)"
  using BuildTimestamp_exact [of example_frame example_packetizer]
  by (simp add: example_packetizer_def example_frame_def EncodedFrame_default_def)

text \<open>beyond that the product wraps around: at 90 kHz two captures one nanosecond apart, about
  2.4 days after the clock's origin, get time stamps that are not one unit apart but the whole
  range of the wrapped quotient.\<close>

theorem BuildTimestamp_wraps:
  "BuildTimestamp (example_packetizer\<lparr>rp_clock_rate := 90000\<rparr>)
      (example_frame\<lparr>ef_capture_timestamp_ns := 204963823041217\<rparr>) = 1266874889 \<and>
   BuildTimestamp (example_packetizer\<lparr>rp_clock_rate := 90000\<rparr>)
      (example_frame\<lparr>ef_capture_timestamp_ns := 204963823041218\<rparr>) = 0"
  by code_simp

end
