(* ===== verification/Sockets.thy ===== *)
theory Sockets
  imports AV_Prelude
begin

section \<open>Sockets\<close>

text \<open>
  What the program relies on of the socket calls, shared by all transports: the results a call can
  have, and the byte stream of a connected TCP socket. A schedule of results stands for the
  behaviour of the network and the kernel during one or more calls; running out of it stands for a
  call that blocks for good.
\<close>

text \<open>An IPv4 address, \<^verbatim>\<open>sockaddr_in\<close>.\<close>

record Sockaddr =
  sin_port :: u16
  sin_addr :: u32

text \<open>What a call of \<^verbatim>\<open>recv\<close> can return.\<close>

datatype recv_result = Received bytes | RecvEof | RecvInterrupted | RecvWouldBlock | RecvError string

text \<open>On a stream socket a call for at most \<open>n\<close> bytes takes the front of what has arrived and
  leaves the rest to the next call.\<close>

fun recv_some :: "nat \<Rightarrow> recv_result \<Rightarrow> recv_result list \<Rightarrow> recv_result list \<times> recv_result" where
  "recv_some n (Received data) rs =
     (if length data \<le> n then (rs, Received data) else (Received (drop n data) # rs, Received (take n data)))"
| "recv_some n r rs = (rs, r)"

text \<open>What a call of \<^verbatim>\<open>sendmsg\<close> can return; \<open>StopSeen\<close> is a result after which the caller
  finds the flag \<^verbatim>\<open>running_\<close> cleared by another thread.\<close>

datatype send_result = SendCount nat | SendInterrupted | SendFailed | StopSeen

text \<open>The bytes a schedule of results delivers, up to the first result that is not data.\<close>

fun stream_bytes :: "recv_result list \<Rightarrow> bytes" where
  "stream_bytes [] = []"
| "stream_bytes (Received data # rs) = data @ stream_bytes rs"
| "stream_bytes (r # rs) = stream_bytes rs"

end
