(* ===== verification/Rtp_Receiver.thy ===== *)
theory Rtp_Receiver
  imports Jitter_Buffer Rtp_Packetizer Sockets
begin

section \<open>The RTP receiver\<close>

text \<open>
  \<^verbatim>\<open>sclient/src/modules/network/StreamClientRtp.cpp\<close>. \<open>ProcessRtpDatagram\<close> is the part of the
  body of \<open>ReceiveRtpFrame\<close>'s loop that handles one datagram, cut at the places where the code does:
  the frame the packet belongs to (\<open>track_sequence\<close>), the latency extension (\<open>track_metadata\<close>), the
  payload (\<open>append_payload\<close>), the completed frame (\<open>finish_frame\<close>). The loop around it takes the
  results of \<^verbatim>\<open>recv\<close> as a list.
\<close>

text \<open>A packet of another frame starts a new assembly; a gap in the sequence numbers damages the frame.\<close>

definition track_sequence :: "RtpHeaderFields \<Rightarrow> RtpFrameAssembly \<Rightarrow> RtpFrameAssembly" where
  "track_sequence h a =
     (if \<not> ra_active a \<or> ra_timestamp a \<noteq> rf_timestamp h \<or> ra_ssrc a \<noteq> rf_ssrc h then
        a\<lparr>ra_payload := [], ra_timestamp := rf_timestamp h, ra_ssrc := rf_ssrc h,
          ra_next_sequence_number := rf_sequence_number h + 1, ra_active := True,
          ra_has_sequence_number := True, ra_capture_timestamp_ns := 0, ra_transport_send_timestamp_ns := 0,
          ra_sender_metadata_available := False, ra_sender_metadata_invalid := False,
          ra_frame_damaged := False, ra_fu_in_progress := False\<rparr>
      else if ra_has_sequence_number a \<and> rf_sequence_number h \<noteq> ra_next_sequence_number a then
        a\<lparr>ra_frame_damaged := True, ra_fu_in_progress := False,
          ra_next_sequence_number := rf_sequence_number h + 1\<rparr>
      else a\<lparr>ra_next_sequence_number := rf_sequence_number h + 1, ra_has_sequence_number := True\<rparr>)"

definition track_metadata :: "bool \<Rightarrow> RtpHeaderExtension \<Rightarrow> RtpFrameAssembly \<Rightarrow> RtpFrameAssembly" where
  "track_metadata expect_metadata header_extension a =
     (if \<not> (expect_metadata \<and> \<not> ra_sender_metadata_invalid a) then a
      else
        let invalid = a\<lparr>ra_sender_metadata_available := False, ra_sender_metadata_invalid := True\<rparr>
        in case ParseRtpLatencyExtension header_extension of
             None \<Rightarrow> invalid
           | Some l \<Rightarrow>
               if rl_capture_timestamp_ns l = 0 \<or> rl_transport_send_timestamp_ns l = 0 then invalid
               else if \<not> ra_sender_metadata_available a then
                 a\<lparr>ra_capture_timestamp_ns := rl_capture_timestamp_ns l,
                   ra_transport_send_timestamp_ns := rl_transport_send_timestamp_ns l,
                   ra_sender_metadata_available := True\<rparr>
               else if ra_capture_timestamp_ns a \<noteq> rl_capture_timestamp_ns l then invalid
               else a\<lparr>ra_transport_send_timestamp_ns := rl_transport_send_timestamp_ns l\<rparr>)"

definition damage :: "RtpFrameAssembly \<Rightarrow> RtpFrameAssembly" where
  "damage a = a\<lparr>ra_frame_damaged := True, ra_fu_in_progress := False\<rparr>"

definition append_payload :: "bytes \<Rightarrow> RtpFrameAssembly \<Rightarrow> RtpFrameAssembly" where
  "append_payload payload a =
     (if payload = [] then a
      else
        let nal_type = payload ! 0 AND 0x1F in
        if 0 < nal_type \<and> nal_type < 24 then
          a\<lparr>ra_payload := AppendAnnexBNalu payload (ra_payload a), ra_fu_in_progress := False\<rparr>
        else if nal_type = kH264FuAType \<and> 2 \<le> length payload then
          let fu_header = payload ! 1;
              start = (fu_header AND 0x80 \<noteq> 0);
              end_flag = (fu_header AND 0x40 \<noteq> 0);
              reconstructed_nal_header = (payload ! 0 AND 0xE0) OR (fu_header AND 0x1F)
          in if start then
               (if length payload \<le> 2 then damage a
                else a\<lparr>ra_payload := AppendAnnexBStartCode (ra_payload a) @ [reconstructed_nal_header] @ drop 2 payload,
                       ra_fu_in_progress := \<not> end_flag\<rparr>)
             else if \<not> ra_fu_in_progress a \<or> length payload \<le> 2 then damage a
             else a\<lparr>ra_payload := ra_payload a @ drop 2 payload,
                    ra_fu_in_progress := (if end_flag then False else ra_fu_in_progress a)\<rparr>
        else damage a)"

definition rtp_frame_ready :: "RtpFrameAssembly \<Rightarrow> bool" where
  "rtp_frame_ready a \<longleftrightarrow>
     ra_active a \<and> ra_payload a \<noteq> [] \<and> \<not> ra_frame_damaged a \<and> \<not> ra_fu_in_progress a"

definition completed_rtp_frame :: "bool \<Rightarrow> u64 \<Rightarrow> RtpFrameAssembly \<Rightarrow> ReceivedFrame" where
  "completed_rtp_frame expect_metadata now_ns a =
     (let metadata = FrameDiagnosticMetadata_zero\<lparr>md_sequence := ucast (ra_timestamp a)\<rparr>;
          available = (expect_metadata \<and> ra_sender_metadata_available a \<and> \<not> ra_sender_metadata_invalid a)
      in \<lparr>fr_header = (FillMessageMagic MessageHeader_zero)\<lparr>mh_message_type := MessageType_code kAvStream,
            mh_payload_length := of_nat (length (ra_payload a))\<rparr>,
          fr_metadata =
            (if available then metadata\<lparr>md_capture_timestamp_ns := ra_capture_timestamp_ns a,
                                 md_transport_send_timestamp_ns := ra_transport_send_timestamp_ns a\<rparr>
             else metadata),
          fr_sender_metadata_available = available, fr_receive_timestamp_ns = now_ns,
          fr_payload = ra_payload a\<rparr>)"

text \<open>After a packet with the marker: a complete frame is handed out, or buffered; the assembly is reset.\<close>

definition finish_frame :: "StreamClient \<Rightarrow> StreamClient \<times> ReceivedFrame option" where
  "finish_frame c =
     (case MonotonicNowNs c of (c, now_ns) \<Rightarrow>
        let a = sc_rtp_frame_assembly c in
        if rtp_frame_ready a then
          let completed_frame = completed_rtp_frame (cc_expect_metadata (sc_config c)) now_ns a in
          if cc_udp_jitter_buffer_enabled (sc_config c) then
            (ResetRtpState (BufferCompletedUdpFrame completed_frame (OnCompletedUdpFrame completed_frame now_ns c)), None)
          else (ResetRtpState c, Some completed_frame)
        else (ResetRtpState c, None))"

definition accepts_payload_type :: "StreamClient \<Rightarrow> u8 \<Rightarrow> bool" where
  "accepts_payload_type c payload_type \<longleftrightarrow>
     \<not> (0 \<le> cc_rtp_payload_type (sc_config c) \<and> payload_type \<noteq> of_int (cc_rtp_payload_type (sc_config c)))"

definition ProcessRtpDatagram :: "bytes \<Rightarrow> StreamClient \<Rightarrow> StreamClient \<times> ReceivedFrame option" where
  "ProcessRtpDatagram packet c =
     (case ParseRtpHeader packet of
        None \<Rightarrow> (c, None)
      | Some (h, header_size, header_extension) \<Rightarrow>
          if length packet \<le> header_size then (c, None)
          else if \<not> accepts_payload_type c (rf_payload_type h) then (c, None)
          else
            let a = track_sequence h (sc_rtp_frame_assembly c);
                a = track_metadata (cc_expect_metadata (sc_config c)) header_extension a;
                a = append_payload (drop header_size packet) a;
                c = c\<lparr>sc_rtp_frame_assembly := a\<rparr>
            in if \<not> rf_marker h then (c, None) else finish_frame c)"

text \<open>\<open>TryPopReadyRtpFrame\<close> reads the clock only when a frame is buffered.\<close>

definition TryPopReadyRtpFrame :: "StreamClient \<Rightarrow> StreamClient \<times> ReceivedFrame option" where
  "TryPopReadyRtpFrame c =
     (if sc_udp_jitter_buffer c = [] then (c, None)
      else case MonotonicNowNs c of (c, now_ns) \<Rightarrow> TryPopReadyUdpFrame now_ns c)"

text \<open>The result of a receive call: a frame, or an error message. Running out of the given
  \<^verbatim>\<open>recv\<close> results stands for a call that blocks for good (\<open>Blocked\<close>).\<close>

datatype receive_outcome = Frame ReceivedFrame | Failed string | Blocked

fun ReceiveRtpFrame :: "recv_result list \<Rightarrow> StreamClient \<Rightarrow> StreamClient \<times> receive_outcome" where
  "ReceiveRtpFrame rs c =
     (if \<not> sc_running c then (c, Failed ''client is stopping'')
      else
        case (if cc_udp_jitter_buffer_enabled (sc_config c) then TryPopReadyRtpFrame c else (c, None)) of
          (c, Some f) \<Rightarrow> (c, Frame f)
        | (c, None) \<Rightarrow>
            (case rs of
               [] \<Rightarrow> (c, Blocked)
             | RecvInterrupted # rs \<Rightarrow> ReceiveRtpFrame rs c
             | RecvEof # rs \<Rightarrow> ReceiveRtpFrame rs c
             | Received packet # rs \<Rightarrow>
                 if packet = [] then ReceiveRtpFrame rs c
                 else (case ProcessRtpDatagram packet c of
                         (c, Some f) \<Rightarrow> (c, Frame f)
                       | (c, None) \<Rightarrow> ReceiveRtpFrame rs c)
             | e # rs \<Rightarrow>
                 (case (if cc_udp_jitter_buffer_enabled (sc_config c) then TryPopReadyRtpFrame c else (c, None)) of
                    (c, Some f) \<Rightarrow> (c, Frame f)
                  | (c, None) \<Rightarrow> (c, Failed ''failed to receive RTP datagram''))))"


subsection \<open>Payloads put together\<close>

text \<open>What \<open>append_payload\<close> reads and writes of the assembly.\<close>

definition core :: "RtpFrameAssembly \<Rightarrow> bytes \<times> bool \<times> bool" where
  "core a = (ra_payload a, ra_fu_in_progress a, ra_frame_damaged a)"

definition with_core :: "bytes \<times> bool \<times> bool \<Rightarrow> RtpFrameAssembly" where
  "with_core x = (case x of (p, fu, d) \<Rightarrow>
     RtpFrameAssembly_zero\<lparr>ra_payload := p, ra_fu_in_progress := fu, ra_frame_damaged := d\<rparr>)"

definition core_step :: "bytes \<Rightarrow> bytes \<times> bool \<times> bool \<Rightarrow> bytes \<times> bool \<times> bool" where
  "core_step pl x = core (append_payload pl (with_core x))"

lemma core_append: "core (append_payload pl a) = core_step pl (core a)"
  by (simp add: core_step_def with_core_def core_def append_payload_def damage_def Let_def)

lemma core_step_simps:
  "core_step pl (p, fu, d) =
     (if pl = [] then (p, fu, d)
      else if 0 < (pl ! 0 AND 0x1F) \<and> (pl ! 0 AND 0x1F) < 24 then (AppendAnnexBNalu pl p, False, d)
      else if pl ! 0 AND 0x1F = kH264FuAType \<and> 2 \<le> length pl then
        if pl ! 1 AND 0x80 \<noteq> 0 then
          (if length pl \<le> 2 then (p, False, True)
           else (AppendAnnexBStartCode p @ [(pl ! 0 AND 0xE0) OR (pl ! 1 AND 0x1F)] @ drop 2 pl, pl ! 1 AND 0x40 = 0, d))
        else if \<not> fu \<or> length pl \<le> 2 then (p, False, True)
        else (p @ drop 2 pl, pl ! 1 AND 0x40 = 0, d)
      else (p, False, True))"
  by (auto simp: core_step_def with_core_def core_def append_payload_def damage_def Let_def)

text \<open>A NAL unit that can be sent as such: its type is one of the 23 single-unit types.\<close>

definition nal_single :: "bytes \<Rightarrow> bool" where
  "nal_single n \<longleftrightarrow> n \<noteq> [] \<and> 0 < (n ! 0 AND 0x1F) \<and> (n ! 0 AND 0x1F) < 24"

lemma core_step_nal: "nal_single n \<Longrightarrow> core_step n (p, fu, d) = (p @ [0, 0, 0, 1] @ n, False, d)"
  by (simp add: core_step_simps nal_single_def AppendAnnexBNalu_def AppendAnnexBStartCode_def)

text \<open>The two FU bytes.\<close>

lemma fu_bytes:
  fixes x :: u8
  shows "((x AND 0xE0) OR 28) AND 0x1F = 28"
    "((x AND 0xE0) OR 28) AND 0xE0 = x AND 0xE0"
    "((if s then 0x80 else 0x00) OR (if e then 0x40 else 0x00) OR (x AND 0x1F)) AND 0x80 = 0 \<longleftrightarrow> \<not> s"
    "((if s then 0x80 else 0x00) OR (if e then 0x40 else 0x00) OR (x AND 0x1F)) AND 0x40 = 0 \<longleftrightarrow> \<not> e"
    "((if s then 0x80 else 0x00) OR (if e then 0x40 else 0x00) OR (x AND 0x1F)) AND 0x1F = x AND 0x1F"
    "(x AND 0xE0) OR (x AND 0x1F) = x"
proof -
  show "(x AND 0xE0) OR (x AND 0x1F) = x"
  proof -
    have "(x AND 0xE0) OR (x AND 0x1F) = x AND (0xE0 OR 0x1F)" by (simp only: bit.conj_disj_distrib)
    also have "(0xE0 OR 0x1F :: u8) = - 1" by simp
    finally show ?thesis by simp
  qed
qed (simp_all add: bit.conj_disj_distrib2 and.assoc)

lemma core_step_fu:
  assumes "off < length nal" "0 < cap"
  shows "core_step ([(nal ! 0 AND 0xE0) OR kH264FuAType,
          (if off = 1 then 0x80 else 0x00) OR (if e then 0x40 else 0x00) OR (nal ! 0 AND 0x1F)] @ slice off cap nal) (p, fu, d) =
    (if off = 1 then (p @ [0, 0, 0, 1] @ [nal ! 0] @ slice off cap nal, \<not> e, d)
     else if fu then (p @ slice off cap nal, \<not> e, d) else (p, False, True))"
proof -
  define x where "x = nal ! 0"
  define i where "i = (x AND 0xE0) OR kH264FuAType"
  define h where "h = (if off = 1 then 0x80 else 0x00) OR (if e then 0x40 else 0x00) OR (x AND 0x1F)"
  have i: "i AND 0x1F = 28" "i AND 0xE0 = x AND 0xE0" by (simp_all add: i_def fu_bytes)
  have h: "h AND 0x80 = 0 \<longleftrightarrow> off \<noteq> 1" "h AND 0x40 = 0 \<longleftrightarrow> \<not> e" "h AND 0x1F = x AND 0x1F"
    unfolding h_def by (rule fu_bytes)+
  have ne: "slice off cap nal \<noteq> []" using assms by (simp add: slice_def)
  have "core_step ([i, h] @ slice off cap nal) (p, fu, d) =
    (if off = 1 then (p @ [0, 0, 0, 1] @ [x] @ slice off cap nal, \<not> e, d)
     else if fu then (p @ slice off cap nal, \<not> e, d) else (p, False, True))"
    using ne by (auto simp: core_step_simps i h fu_bytes(6) AppendAnnexBStartCode_def simp del: length_slice)
  then show ?thesis by (simp only: i_def h_def x_def)
qed

lemma fold_fu_rest:
  assumes "0 < cap" "1 < off" "off < length nal"
  shows "fold core_step (fu_payloads cap nal off) (p, True, d) = (p @ drop off nal, False, d)"
  using assms
proof (induction cap nal off arbitrary: p rule: fu_payloads.induct)
  case (1 cap nal off)
  have split: "slice off cap nal @ drop (off + cap) nal = drop off nal"
    by (simp add: slice_def) (metis append_take_drop_id add.commute drop_drop)
  show ?case
  proof (cases "length nal \<le> off + cap")
    case True
    then have "fu_payloads cap nal (off + cap) = []" by (subst fu_payloads.simps) simp
    then show ?thesis
      using "1.prems" True split core_step_fu [of off nal cap True p True d]
      by (subst fu_payloads.simps) simp
  next
    case False
    then show ?thesis
      using "1.prems" "1.IH" [of "p @ slice off cap nal"] split core_step_fu [of off nal cap False p True d]
      by (subst fu_payloads.simps) simp
  qed
qed

lemma fold_nal_payloads:
  assumes "nal_single nal" "2 < max_size"
  shows "fold core_step (nal_payloads max_size nal) (p, False, d) = (p @ [0, 0, 0, 1] @ nal, False, d)"
proof (cases "length nal \<le> max_size")
  case True
  then show ?thesis using assms(1) by (simp add: nal_payloads_def core_step_nal)
next
  case False
  let ?cap = "max_size - 2"
  have cap: "0 < ?cap" "1 < 1 + ?cap" "1 + ?cap < length nal" using assms(2) False by simp_all
  have hd: "[nal ! 0] @ slice 1 ?cap nal @ drop (1 + ?cap) nal = nal"
    using cap by (cases nal) (simp_all add: slice_def)
  have "fu_payloads ?cap nal 1 = ([(nal ! 0 AND 0xE0) OR kH264FuAType, (if (1::nat) = 1 then 0x80 else 0x00) OR
      (if False then 0x40 else 0x00) OR (nal ! 0 AND 0x1F)] @ slice 1 ?cap nal) # fu_payloads ?cap nal (1 + ?cap)"
    using cap by (subst fu_payloads.simps) simp
  then have "fold core_step (fu_payloads ?cap nal 1) (p, False, d) =
      fold core_step (fu_payloads ?cap nal (1 + ?cap)) (p @ [0, 0, 0, 1] @ [nal ! 0] @ slice 1 ?cap nal, True, d)"
    using core_step_fu [of 1 nal ?cap False p False d] cap by simp
  also have "\<dots> = (p @ [0, 0, 0, 1] @ nal, False, d)"
    using fold_fu_rest [OF cap, of "p @ [0, 0, 0, 1] @ [nal ! 0] @ slice 1 ?cap nal" d] hd by simp
  finally show ?thesis using False by (simp add: nal_payloads_def)
qed

lemma fold_frame_payloads:
  assumes "list_all nal_single nals" "2 < max_size"
  shows "fold core_step (frame_payloads max_size nals) (p, False, d) = (p @ annexb_stream nals, False, d)"
  using assms
  by (induction nals arbitrary: p) (auto simp: frame_payloads_def fold_nal_payloads)


subsection \<open>Packets fed to the receiver\<close>

text \<open>Processing a list of datagrams, and the frames handed out.\<close>

fun feed_rtp :: "bytes list \<Rightarrow> StreamClient \<Rightarrow> StreamClient \<times> ReceivedFrame list" where
  "feed_rtp [] c = (c, [])"
| "feed_rtp (packet # packets) c =
     (case ProcessRtpDatagram packet c of (c, r) \<Rightarrow>
      case feed_rtp packets c of (c, fs) \<Rightarrow> (c, (case r of None \<Rightarrow> [] | Some f \<Rightarrow> [f]) @ fs))"

text \<open>A packet that parses to header \<open>h\<close> and carries the payload \<open>pl\<close>.\<close>

definition carries :: "bytes \<Rightarrow> RtpHeaderFields \<Rightarrow> bytes \<Rightarrow> bool" where
  "carries packet h pl \<longleftrightarrow>
     (\<exists>hs ext. ParseRtpHeader packet = Some (h, hs, ext) \<and> hs < length packet \<and> drop hs packet = pl)"

definition frame_header :: "u32 \<Rightarrow> u32 \<Rightarrow> u8 \<Rightarrow> u16 \<Rightarrow> bool \<Rightarrow> RtpHeaderFields" where
  "frame_header ts ssrc pt s m =
     \<lparr>rf_marker = m, rf_payload_type = pt, rf_sequence_number = s, rf_timestamp = ts, rf_ssrc = ssrc\<rparr>"

lemma frame_header_simps [simp]:
  "rf_marker (frame_header ts ssrc pt s m) = m" "rf_payload_type (frame_header ts ssrc pt s m) = pt"
  "rf_sequence_number (frame_header ts ssrc pt s m) = s" "rf_timestamp (frame_header ts ssrc pt s m) = ts"
  "rf_ssrc (frame_header ts ssrc pt s m) = ssrc"
  by (simp_all add: frame_header_def)

text \<open>The packets of one frame from sequence number \<open>s\<close> on.\<close>

fun frame_packets :: "u32 \<Rightarrow> u32 \<Rightarrow> u8 \<Rightarrow> u16 \<Rightarrow> bytes list \<Rightarrow> bytes list \<Rightarrow> bool" where
  "frame_packets ts ssrc pt s [] [] = True"
| "frame_packets ts ssrc pt s (q # qs) (pl # pls) =
     (carries q (frame_header ts ssrc pt s (pls = [])) pl \<and> frame_packets ts ssrc pt (s + 1) qs pls)"
| "frame_packets ts ssrc pt s _ _ = False"

text \<open>The assembly is at the frame with time stamp \<open>ts\<close>.\<close>

definition at_frame :: "u32 \<Rightarrow> u32 \<Rightarrow> RtpFrameAssembly \<Rightarrow> bool" where
  "at_frame ts ssrc a \<longleftrightarrow> ra_active a \<and> ra_timestamp a = ts \<and> ra_ssrc a = ssrc \<and> ra_has_sequence_number a"

lemma track_metadata_core [simp]:
  "core (track_metadata e x a) = core a" "at_frame ts ssrc (track_metadata e x a) = at_frame ts ssrc a"
  "ra_next_sequence_number (track_metadata e x a) = ra_next_sequence_number a"
  "ra_active (track_metadata e x a) = ra_active a"
  by (simp_all add: track_metadata_def core_def at_frame_def Let_def split: option.splits)

lemma append_payload_frame [simp]:
  "at_frame ts ssrc (append_payload pl a) = at_frame ts ssrc a"
  "ra_next_sequence_number (append_payload pl a) = ra_next_sequence_number a"
  "ra_active (append_payload pl a) = ra_active a"
  by (simp_all add: append_payload_def at_frame_def damage_def Let_def)

lemma track_new:
  "\<not> (ra_active a \<and> ra_timestamp a = rf_timestamp h \<and> ra_ssrc a = rf_ssrc h) \<Longrightarrow>
     core (track_sequence h a) = ([], False, False) \<and> at_frame (rf_timestamp h) (rf_ssrc h) (track_sequence h a) \<and>
     ra_next_sequence_number (track_sequence h a) = rf_sequence_number h + 1"
  by (auto simp: track_sequence_def core_def at_frame_def)

lemma track_next:
  "at_frame (rf_timestamp h) (rf_ssrc h) a \<Longrightarrow> ra_next_sequence_number a = rf_sequence_number h \<Longrightarrow>
     core (track_sequence h a) = core a \<and> at_frame (rf_timestamp h) (rf_ssrc h) (track_sequence h a) \<and>
     ra_next_sequence_number (track_sequence h a) = rf_sequence_number h + 1"
  by (auto simp: track_sequence_def core_def at_frame_def)

lemma track_gap:
  "at_frame (rf_timestamp h) (rf_ssrc h) a \<Longrightarrow> ra_next_sequence_number a \<noteq> rf_sequence_number h \<Longrightarrow>
     ra_frame_damaged (track_sequence h a) \<and> at_frame (rf_timestamp h) (rf_ssrc h) (track_sequence h a) \<and>
     ra_next_sequence_number (track_sequence h a) = rf_sequence_number h + 1"
  by (auto simp: track_sequence_def core_def at_frame_def)

text \<open>One packet: its effect on the assembly, then the end of the frame if it has the marker.\<close>

definition receive_packet :: "bool \<Rightarrow> RtpHeaderFields \<Rightarrow> RtpHeaderExtension \<Rightarrow> bytes \<Rightarrow> RtpFrameAssembly \<Rightarrow> RtpFrameAssembly" where
  "receive_packet e h ext pl a = append_payload pl (track_metadata e ext (track_sequence h a))"

lemma Process_carries:
  assumes "carries packet h pl" "accepts_payload_type c (rf_payload_type h)"
  obtains ext where "ProcessRtpDatagram packet c =
    (let c' = c\<lparr>sc_rtp_frame_assembly :=
           receive_packet (cc_expect_metadata (sc_config c)) h ext pl (sc_rtp_frame_assembly c)\<rparr>
     in if rf_marker h then finish_frame c' else (c', None))"
proof -
  obtain hs ext where "ParseRtpHeader packet = Some (h, hs, ext)" "hs < length packet" "drop hs packet = pl"
    using assms(1) by (auto simp: carries_def)
  then show ?thesis
    using assms(2) by (intro that [of ext]) (simp add: ProcessRtpDatagram_def receive_packet_def Let_def not_le)
qed

lemma receive_packet_next:
  assumes "at_frame (rf_timestamp h) (rf_ssrc h) a" "ra_next_sequence_number a = rf_sequence_number h"
  shows "core (receive_packet e h ext pl a) = core_step pl (core a)"
    "at_frame (rf_timestamp h) (rf_ssrc h) (receive_packet e h ext pl a)"
    "ra_next_sequence_number (receive_packet e h ext pl a) = rf_sequence_number h + 1"
  using track_next [OF assms] by (simp_all add: receive_packet_def core_append)

lemma receive_packet_new:
  assumes "\<not> (ra_active a \<and> ra_timestamp a = rf_timestamp h \<and> ra_ssrc a = rf_ssrc h)"
  shows "core (receive_packet e h ext pl a) = core_step pl ([], False, False)"
    "at_frame (rf_timestamp h) (rf_ssrc h) (receive_packet e h ext pl a)"
    "ra_next_sequence_number (receive_packet e h ext pl a) = rf_sequence_number h + 1"
  using track_new [OF assms] by (simp_all add: receive_packet_def core_append)

lemma finish_ready:
  assumes "core (sc_rtp_frame_assembly c) = (p, False, False)" "p \<noteq> []" "at_frame ts ssrc (sc_rtp_frame_assembly c)"
    "\<not> cc_udp_jitter_buffer_enabled (sc_config c)"
  shows "\<exists>c' f. finish_frame c = (c', Some f) \<and> fr_payload f = p \<and> md_sequence (fr_metadata f) = ucast ts \<and>
    sc_rtp_frame_assembly c' = RtpFrameAssembly_zero \<and> sc_config c' = sc_config c"
  using assms
  by (auto simp: finish_frame_def MonotonicNowNs_def Let_def rtp_frame_ready_def core_def at_frame_def ResetRtpState_def
      completed_rtp_frame_def)

lemma finish_damaged:
  assumes "ra_frame_damaged (sc_rtp_frame_assembly c)"
  shows "\<exists>c'. finish_frame c = (c', None) \<and> sc_rtp_frame_assembly c' = RtpFrameAssembly_zero \<and> sc_config c' = sc_config c"
  using assms
  by (auto simp: finish_frame_def MonotonicNowNs_def Let_def rtp_frame_ready_def ResetRtpState_def)

text \<open>The rest of a frame, received without a gap.\<close>

lemma feed_rest:
  assumes "frame_packets ts ssrc pt s qs pls" "at_frame ts ssrc (sc_rtp_frame_assembly c)" "qs \<noteq> []"
    and "ra_next_sequence_number (sc_rtp_frame_assembly c) = s" "accepts_payload_type c pt"
    and "fold core_step pls (core (sc_rtp_frame_assembly c)) = (p, False, False)" "p \<noteq> []"
    and "\<not> cc_udp_jitter_buffer_enabled (sc_config c)"
  shows "\<exists>c' f. feed_rtp qs c = (c', [f]) \<and> fr_payload f = p \<and> md_sequence (fr_metadata f) = ucast ts \<and>
    sc_rtp_frame_assembly c' = RtpFrameAssembly_zero \<and> sc_config c' = sc_config c"
  using assms
proof (induction ts ssrc pt s qs pls arbitrary: c rule: frame_packets.induct)
  case (2 ts ssrc pt s q qs pl pls)
  let ?h = "frame_header ts ssrc pt s (pls = [])"
  have "carries q ?h pl" using "2.prems"(1) by simp
  then obtain ext where pr: "ProcessRtpDatagram q c =
    (let c' = c\<lparr>sc_rtp_frame_assembly := receive_packet (cc_expect_metadata (sc_config c)) ?h ext pl (sc_rtp_frame_assembly c)\<rparr>
     in if rf_marker ?h then finish_frame c' else (c', None))"
    using "2.prems"(5) by (elim Process_carries) simp_all
  let ?a = "receive_packet (cc_expect_metadata (sc_config c)) ?h ext pl (sc_rtp_frame_assembly c)"
  let ?c = "c\<lparr>sc_rtp_frame_assembly := ?a\<rparr>"
  have a: "core ?a = core_step pl (core (sc_rtp_frame_assembly c))" "at_frame ts ssrc ?a" "ra_next_sequence_number ?a = s + 1"
    using receive_packet_next [of ?h "sc_rtp_frame_assembly c" _ ext pl] "2.prems"(2,4) by simp_all
  show ?case
  proof (cases "pls = []")
    case True
    then have "qs = []" using "2.prems"(1) by (cases qs) auto
    moreover have "core (sc_rtp_frame_assembly ?c) = (p, False, False)" using a(1) "2.prems"(6) True by simp
    then obtain c' f where "finish_frame ?c = (c', Some f)" "fr_payload f = p" "md_sequence (fr_metadata f) = ucast ts"
        "sc_rtp_frame_assembly c' = RtpFrameAssembly_zero" "sc_config c' = sc_config ?c"
      using finish_ready [of ?c p ts ssrc] a(2) "2.prems"(7,8) by auto
    ultimately show ?thesis using pr True by (simp add: Let_def)
  next
    case False
    then have "qs \<noteq> []" using "2.prems"(1) by (cases pls) auto
    moreover have "accepts_payload_type ?c pt" using "2.prems"(5) by (simp add: accepts_payload_type_def)
    ultimately have "\<exists>c' f. feed_rtp qs ?c = (c', [f]) \<and> fr_payload f = p \<and> md_sequence (fr_metadata f) = ucast ts \<and>
        sc_rtp_frame_assembly c' = RtpFrameAssembly_zero \<and> sc_config c' = sc_config ?c"
      using "2.prems" a by (intro "2.IH") auto
    then show ?thesis using pr False by (auto simp: Let_def)
  qed
qed auto

lemma feed_frame:
  assumes "frame_packets ts ssrc pt s qs pls" "qs \<noteq> []" "accepts_payload_type c pt"
    and "\<not> (ra_active (sc_rtp_frame_assembly c) \<and> ra_timestamp (sc_rtp_frame_assembly c) = ts \<and>
           ra_ssrc (sc_rtp_frame_assembly c) = ssrc)"
    and "fold core_step pls ([], False, False) = (p, False, False)" "p \<noteq> []"
    and "\<not> cc_udp_jitter_buffer_enabled (sc_config c)"
  shows "\<exists>c' f. feed_rtp qs c = (c', [f]) \<and> fr_payload f = p \<and> md_sequence (fr_metadata f) = ucast ts \<and>
    sc_rtp_frame_assembly c' = RtpFrameAssembly_zero \<and> sc_config c' = sc_config c"
proof -
  obtain q qs' where qs: "qs = q # qs'" using assms(2) by (cases qs) auto
  then obtain pl pls' where pls: "pls = pl # pls'" using assms(1) by (cases pls) auto
  let ?h = "frame_header ts ssrc pt s (pls' = [])"
  have "carries q ?h pl" using assms(1) qs pls by simp
  then obtain ext where pr: "ProcessRtpDatagram q c =
    (let c' = c\<lparr>sc_rtp_frame_assembly := receive_packet (cc_expect_metadata (sc_config c)) ?h ext pl (sc_rtp_frame_assembly c)\<rparr>
     in if rf_marker ?h then finish_frame c' else (c', None))"
    using assms(3) by (elim Process_carries) simp_all
  let ?a = "receive_packet (cc_expect_metadata (sc_config c)) ?h ext pl (sc_rtp_frame_assembly c)"
  let ?c = "c\<lparr>sc_rtp_frame_assembly := ?a\<rparr>"
  have a: "core ?a = core_step pl ([], False, False)" "at_frame ts ssrc ?a" "ra_next_sequence_number ?a = s + 1"
    using receive_packet_new [of "sc_rtp_frame_assembly c" ?h _ ext pl] assms(4) by simp_all
  show ?thesis
  proof (cases "pls' = []")
    case True
    then have "qs' = []" using assms(1) qs pls by (cases qs') auto
    moreover have "core (sc_rtp_frame_assembly ?c) = (p, False, False)" using a(1) assms(5) pls True by simp
    then obtain c' f where "finish_frame ?c = (c', Some f)" "fr_payload f = p" "md_sequence (fr_metadata f) = ucast ts"
        "sc_rtp_frame_assembly c' = RtpFrameAssembly_zero" "sc_config c' = sc_config ?c"
      using finish_ready [of ?c p ts ssrc] a(2) assms(6,7) by auto
    ultimately show ?thesis using pr True qs by (simp add: Let_def)
  next
    case False
    then have "qs' \<noteq> []" using assms(1) qs pls by (cases pls') auto
    moreover have "accepts_payload_type ?c pt" using assms(3) by (simp add: accepts_payload_type_def)
    ultimately have "\<exists>c' f. feed_rtp qs' ?c = (c', [f]) \<and> fr_payload f = p \<and> md_sequence (fr_metadata f) = ucast ts \<and>
        sc_rtp_frame_assembly c' = RtpFrameAssembly_zero \<and> sc_config c' = sc_config ?c"
      using assms a qs pls by (intro feed_rest [of ts ssrc pt "s + 1" qs' pls']) auto
    then show ?thesis using pr False qs by (auto simp: Let_def)
  qed
qed

subsection \<open>From the packetizer to the receiver\<close>

text \<open>On the way out the server stamps the send time into each packet.\<close>

definition stamp_packet :: "u64 \<Rightarrow> bytes \<Rightarrow> bytes" where
  "stamp_packet now packet =
     (case UpdateRtpLatencyExtensionTransportSendTimestamp packet now of None \<Rightarrow> packet | Some p \<Rightarrow> p)"

lemma parse_latency_header:
  assumes "rf_payload_type f < 128"
  shows "ParseRtpHeader (latency_header f cap send @ pl) =
    Some (f, 32, BuildRtpLatencyHeaderExtension \<lparr>rl_capture_timestamp_ns = cap, rl_transport_send_timestamp_ns = send\<rparr>)"
  using ParseRtpHeader_WriteRtpHeader [OF WriteRtpHeader_latency assms, of cap send pl]
  by (simp add: length_latency_header extension_on_wire_latency)
    (simp add: extension_payload_def BuildRtpLatencyHeaderExtension_def)

lemma buffer_latency_header:
  "WriteRtpHeaderToBuffer f (Some (BuildRtpLatencyHeaderExtension
     \<lparr>rl_capture_timestamp_ns = cap, rl_transport_send_timestamp_ns = send\<rparr>)) = latency_header f cap send"
proof -
  have "WriteRtpHeader f (Some (BuildRtpLatencyHeaderExtension
     \<lparr>rl_capture_timestamp_ns = cap, rl_transport_send_timestamp_ns = send\<rparr>)) = Some (latency_header f cap send)"
    by (rule WriteRtpHeader_latency)
  then show ?thesis
    by (subst (asm) WriteRtpHeader_buffer) (simp_all add: ext_ok_def extension_payload_def BuildRtpLatencyHeaderExtension_def)
qed

text \<open>Stamped or not, the packet carries the same header fields and payload.\<close>

lemma stamp_carries:
  assumes "rf_payload_type f < 128" "pl \<noteq> []"
  shows "carries (stamp_packet now (WriteRtpHeaderToBuffer f (frame_extension p frame) @ pl)) f pl"
proof (cases "rp_enable_latency_extension p")
  case True
  then have "stamp_packet now (WriteRtpHeaderToBuffer f (frame_extension p frame) @ pl) =
      latency_header f (ef_capture_timestamp_ns frame) now @ pl"
    by (simp add: frame_extension_def buffer_latency_header stamp_packet_def Update_latency_header)
  then show ?thesis
    using assms by (auto simp: carries_def parse_latency_header length_latency_header)
next
  case False
  then have e: "frame_extension p frame = None" by (simp add: frame_extension_def)
  have w: "WriteRtpHeader f None = Some (WriteRtpHeaderToBuffer f None)"
    by (simp add: WriteRtpHeader_buffer ext_ok_def extension_payload_def)
  have s: "stamp_packet now (WriteRtpHeaderToBuffer f None @ pl) = WriteRtpHeaderToBuffer f None @ pl"
    by (simp add: stamp_packet_def Update_no_extension [OF w])
  show ?thesis
    unfolding e s carries_def using assms
    by (subst ParseRtpHeader_packet) (auto simp: ext_ok_def extension_payload_def)
qed


lemma frame_packets_stamped:
  assumes "rp_payload_type p < 128" "list_all (\<lambda>pl. pl \<noteq> []) pls" "length stamps = length pls"
  shows "frame_packets ts (rp_ssrc p) (rp_payload_type p) (rp_sequence_number p)
    (map2 stamp_packet stamps (packets_of p True ts (frame_extension q frame) pls)) pls"
  using assms
proof (induction pls arbitrary: p stamps)
  case Nil
  then show ?case by simp
next
  case (Cons pl pls)
  then obtain t ts' where t: "stamps = t # ts'" "length ts' = length pls" by (cases stamps) auto
  have h: "next_header_fields p (pls = []) ts = frame_header ts (rp_ssrc p) (rp_payload_type p) (rp_sequence_number p) (pls = [])"
    by (simp add: next_header_fields_def frame_header_def)
  have "carries (stamp_packet t (WriteRtpHeaderToBuffer (next_header_fields p (pls = []) ts) (frame_extension q frame) @ pl))
      (next_header_fields p (pls = []) ts) pl"
    using Cons.prems by (intro stamp_carries) (simp_all add: next_header_fields_def)
  then show ?case
    using Cons.IH [of "bump_sequence p" ts'] Cons.prems t h by (simp add: bump_sequence_def)
qed

lemma fu_payloads_nonempty: "list_all (\<lambda>pl. pl \<noteq> []) (fu_payloads cap nal off)"
proof (induction cap nal off rule: fu_payloads.induct)
  case (1 cap nal off)
  then show ?case by (subst fu_payloads.simps) simp
qed

lemma frame_payloads_nonempty:
  "list_all nal_single nals \<Longrightarrow> list_all (\<lambda>pl. pl \<noteq> []) (frame_payloads max_size nals)"
  by (induction nals) (auto simp: frame_payloads_def nal_payloads_def nal_single_def fu_payloads_nonempty)

text \<open>What the receiver makes of the packets of one frame.\<close>

lemma stamped_frame_received:
  assumes "Packetize p (Some frame) = (p', Inr packets)" "rp_payload_type p < 128"
    and "ef_payload frame = annexb_stream nals" "list_all nal_clean nals" "list_all nal_single nals"
    and "length stamps = length packets" "accepts_payload_type c (rp_payload_type p)"
    and "sc_rtp_frame_assembly c = RtpFrameAssembly_zero" "\<not> cc_udp_jitter_buffer_enabled (sc_config c)"
  shows "\<exists>c' f. feed_rtp (map2 stamp_packet stamps packets) c = (c', [f]) \<and> fr_payload f = ef_payload frame \<and>
    md_sequence (fr_metadata f) = ucast (BuildTimestamp p frame) \<and> sc_rtp_frame_assembly c' = RtpFrameAssembly_zero"
proof -
  note s = Packetize_success [OF assms(1)]
  have split: "SplitAnnexBNalus (ef_payload frame) = nals"
    using SplitAnnexBNalus_stream [OF assms(4)] assms(3) by simp
  let ?pls = "frame_payloads (rp_max_payload_size p) nals"
  have pk: "packets = packets_of p True (BuildTimestamp p frame) (frame_extension p frame) ?pls"
    using s(4) split by simp
  have fp: "frame_packets (BuildTimestamp p frame) (rp_ssrc p) (rp_payload_type p) (rp_sequence_number p)
      (map2 stamp_packet stamps packets) ?pls"
    unfolding pk using assms(2,5,6) pk
    by (intro frame_packets_stamped) (simp_all add: frame_payloads_nonempty)
  have nals: "nals \<noteq> []" using s(3) split by simp
  have ne: "map2 stamp_packet stamps packets \<noteq> []"
    using nals s(2) pk assms(6) by (cases stamps; cases packets) (simp_all add: frame_payloads_eq_Nil)
  have stream: "annexb_stream nals \<noteq> []" using nals by (cases nals) simp_all
  have fold: "fold core_step ?pls ([], False, False) = (annexb_stream nals, False, False)"
    using fold_frame_payloads [OF assms(5) s(2), of "[]" False] by simp
  have idle: "\<not> (ra_active (sc_rtp_frame_assembly c) \<and> ra_timestamp (sc_rtp_frame_assembly c) = BuildTimestamp p frame \<and>
      ra_ssrc (sc_rtp_frame_assembly c) = rp_ssrc p)"
    by (simp add: assms(8) RtpFrameAssembly_zero_def)
  show ?thesis
    using feed_frame [OF fp ne assms(7) idle fold stream assms(9)] assms(3) by auto
qed

text \<open>RTP end to end: the packets of a frame whose NAL units are well formed and of a single-unit type,
  stamped with any send times and received in order, make the receiver hand out exactly one frame,
  whose payload is the frame's payload and whose sequence is the RTP time stamp.\<close>

theorem rtp_round_trip:
  assumes "Packetize p (Some frame) = (p', Inr packets)" "rp_payload_type p < 128"
    and "ef_payload frame = annexb_stream nals" "list_all nal_clean nals" "list_all nal_single nals"
    and "length stamps = length packets" "accepts_payload_type c (rp_payload_type p)"
    and "sc_rtp_frame_assembly c = RtpFrameAssembly_zero" "\<not> cc_udp_jitter_buffer_enabled (sc_config c)"
  shows "\<exists>c' f. feed_rtp (map2 stamp_packet stamps packets) c = (c', [f]) \<and> fr_payload f = ef_payload frame \<and>
    md_sequence (fr_metadata f) = ucast (BuildTimestamp p frame) \<and> sc_rtp_frame_assembly c' = RtpFrameAssembly_zero"
  using assms by (rule stamped_frame_received)

text \<open>A receiver without playout buffer, fed the packets of the packetizer's example frame.\<close>

definition example_rtp_client :: StreamClient where
  "example_rtp_client = (StreamClient_new kExcellent example_env)\<lparr>sc_running := True,
     sc_config := ClientConfig_default\<lparr>cc_transport := ''rtp'', cc_udp_jitter_buffer_enabled := False,
       cc_rtp_payload_type := 96\<rparr>\<rparr>"

lemma example_rtp_client_simps [simp]:
  "sc_rtp_frame_assembly example_rtp_client = RtpFrameAssembly_zero"
  "\<not> cc_udp_jitter_buffer_enabled (sc_config example_rtp_client)"
  "accepts_payload_type example_rtp_client pt \<longleftrightarrow> pt = 96"
  by (simp_all add: example_rtp_client_def StreamClient_new_def accepts_payload_type_def)

definition example_stream :: EncodedFrame where
  "example_stream = example_frame\<lparr>ef_payload := annexb_stream [[0x67, 0x42], [0x65, 1, 2, 3, 4, 5]]\<rparr>"

lemma example_stream_packets:
  "case snd (Packetize example_packetizer (Some example_stream)) of Inr packets \<Rightarrow> length packets = 4 | Inl _ \<Rightarrow> False"
  by code_simp

theorem rtp_round_trip_witness:
  "\<exists>p' packets c' f. Packetize example_packetizer (Some example_stream) = (p', Inr packets) \<and>
     feed_rtp (map2 stamp_packet [10, 20, 30, 40] packets) example_rtp_client = (c', [f]) \<and>
     fr_payload f = [0, 0, 0, 1, 0x67, 0x42, 0, 0, 0, 1, 0x65, 1, 2, 3, 4, 5]"
proof -
  obtain p' packets where pk: "Packetize example_packetizer (Some example_stream) = (p', Inr packets)" "length packets = 4"
    using example_stream_packets
    by (cases "Packetize example_packetizer (Some example_stream)") (auto split: sum.splits)
  have n: "list_all nal_clean [[0x67, 0x42], [0x65, 1, 2, 3, 4, 5]]"
    "list_all nal_single [[0x67, 0x42], [0x65, 1, 2, 3, 4, 5]]" by code_simp+
  have "\<exists>c' f. feed_rtp (map2 stamp_packet [10, 20, 30, 40] packets) example_rtp_client = (c', [f]) \<and>
      fr_payload f = ef_payload example_stream \<and> md_sequence (fr_metadata f) = ucast (BuildTimestamp example_packetizer example_stream) \<and>
      sc_rtp_frame_assembly c' = RtpFrameAssembly_zero"
    by (rule rtp_round_trip [OF pk(1) _ _ n]) (simp_all add: example_packetizer_def example_stream_def pk(2))
  then show ?thesis using pk(1) by (auto simp: example_stream_def)
qed


subsection \<open>Loss within a frame\<close>

lemma frame_packets_nth:
  "frame_packets ts ssrc pt s qs pls \<Longrightarrow> i < length qs \<Longrightarrow>
     carries (qs ! i) (frame_header ts ssrc pt (s + of_nat i) (Suc i = length qs)) (pls ! i) \<and> length pls = length qs"
proof (induction ts ssrc pt s qs pls arbitrary: i rule: frame_packets.induct)
  case (2 ts ssrc pt s q qs pl pls)
  show ?case
  proof (cases i)
    case 0
    have "length pls = length qs"
    proof (cases qs)
      case Nil
      then show ?thesis using "2.prems"(1) by (cases pls) auto
    next
      case (Cons a as)
      then show ?thesis using "2.IH" [of 0] "2.prems"(1) by auto
    qed
    moreover have "pls = [] \<longleftrightarrow> Suc 0 = length (q # qs)" using calculation by auto
    ultimately show ?thesis using 0 "2.prems"(1) by simp
  next
    case (Suc j)
    have "s + 1 + of_nat j = s + (of_nat (Suc j) :: u16)" by simp
    then have "carries (qs ! j) (frame_header ts ssrc pt (s + of_nat (Suc j)) (Suc j = length qs)) (pls ! j) \<and>
        length pls = length qs"
      using "2.IH" [of j] "2.prems" Suc by (simp only: frame_packets.simps list.size)
    then show ?thesis using Suc by simp
  qed
qed auto

lemma damaged_core: "ra_frame_damaged a \<longleftrightarrow> snd (snd (core a))"
  by (simp add: core_def)

lemma core_step_damaged: "core_step pl (p, fu, True) = (p', fu', d') \<Longrightarrow> d'"
  by (auto simp: core_step_simps split: if_splits)

lemma receive_packet_damaged:
  assumes "at_frame (rf_timestamp h) (rf_ssrc h) a" "ra_frame_damaged a \<or> ra_next_sequence_number a \<noteq> rf_sequence_number h"
  shows "ra_frame_damaged (receive_packet e h ext pl a)"
    "at_frame (rf_timestamp h) (rf_ssrc h) (receive_packet e h ext pl a)"
proof -
  have "ra_frame_damaged (track_sequence h a) \<and> at_frame (rf_timestamp h) (rf_ssrc h) (track_sequence h a)"
  proof (cases "ra_next_sequence_number a = rf_sequence_number h")
    case True
    then have "ra_frame_damaged a" using assms(2) by simp
    then show ?thesis using track_next [OF assms(1) True] by (simp add: damaged_core)
  next
    case False
    then show ?thesis using track_gap [OF assms(1)] by blast
  qed
  then have t: "ra_frame_damaged (track_sequence h a)" "at_frame (rf_timestamp h) (rf_ssrc h) (track_sequence h a)"
    by blast+
  then show "at_frame (rf_timestamp h) (rf_ssrc h) (receive_packet e h ext pl a)" by (simp add: receive_packet_def)
  have "snd (snd (core (track_sequence h a)))" using t(1) by (simp add: damaged_core)
  then obtain p fu where c: "core (track_sequence h a) = (p, fu, True)" by (metis (full_types) prod.collapse)
  have "core (receive_packet e h ext pl a) = core_step pl (p, fu, True)"
    by (simp add: receive_packet_def core_append c)
  then show "ra_frame_damaged (receive_packet e h ext pl a)"
    unfolding damaged_core using core_step_damaged [of pl p fu] by (metis prod.collapse)
qed

text \<open>The receiver is at packet \<open>i\<close> of the frame, or the frame is damaged already; a further selection of
  its packets that is not the whole rest yields nothing.\<close>

lemma feed_gap:
  assumes "frame_packets ts ssrc pt s qs pls" "length qs \<le> 2 ^ 16" "accepts_payload_type c pt"
    and "at_frame ts ssrc (sc_rtp_frame_assembly c)"
    and "sorted_wrt (<) idx" "\<forall>j\<in>set idx. i \<le> j \<and> j < length qs"
    and "ra_frame_damaged (sc_rtp_frame_assembly c) \<or>
      ra_next_sequence_number (sc_rtp_frame_assembly c) = s + of_nat i \<and> idx \<noteq> [i..<length qs]"
  shows "snd (feed_rtp (map (\<lambda>j. qs ! j) idx) c) = []"
  using assms(3-)
proof (induction idx arbitrary: i c)
  case Nil
  then show ?case by simp
next
  case (Cons j js)
  let ?n = "length qs"
  have j: "i \<le> j" "j < ?n" using Cons.prems(4) by auto
  let ?h = "frame_header ts ssrc pt (s + of_nat j) (Suc j = ?n)"
  have "carries (qs ! j) ?h (pls ! j)" using frame_packets_nth [OF assms(1) j(2)] by simp
  then obtain ext where pr: "ProcessRtpDatagram (qs ! j) c =
    (let c' = c\<lparr>sc_rtp_frame_assembly := receive_packet (cc_expect_metadata (sc_config c)) ?h ext (pls ! j) (sc_rtp_frame_assembly c)\<rparr>
     in if rf_marker ?h then finish_frame c' else (c', None))"
    using Cons.prems(1) by (elim Process_carries) simp_all
  let ?a = "receive_packet (cc_expect_metadata (sc_config c)) ?h ext (pls ! j) (sc_rtp_frame_assembly c)"
  let ?c = "c\<lparr>sc_rtp_frame_assembly := ?a\<rparr>"
  have acc: "accepts_payload_type ?c pt" using Cons.prems(1) by (simp add: accepts_payload_type_def)
  have js: "sorted_wrt (<) js" "\<forall>k\<in>set js. Suc j \<le> k \<and> k < ?n"
    using Cons.prems(3,4) by (auto simp: Suc_le_eq)
  have last: "js = []" if "Suc j = ?n" using js(2) that by (cases js) auto
  show ?case
  proof (cases "ra_frame_damaged (sc_rtp_frame_assembly c) \<or> ra_next_sequence_number (sc_rtp_frame_assembly c) \<noteq> rf_sequence_number ?h")
    case True
    have d: "ra_frame_damaged ?a" "at_frame ts ssrc ?a"
      using receive_packet_damaged [of ?h "sc_rtp_frame_assembly c" _ ext "pls ! j"] Cons.prems(2) True by auto
    show ?thesis
    proof (cases "Suc j = ?n")
      case True
      then show ?thesis using pr finish_damaged [of ?c] d(1) last by (auto simp: Let_def)
    next
      case False
      have "snd (feed_rtp (map (\<lambda>j. qs ! j) js) ?c) = []"
        using acc d js by (intro Cons.IH [of ?c "Suc j"]) auto
      then show ?thesis using pr False by (auto simp: Let_def split: prod.splits)
    qed
  next
    case False
    then have nd: "\<not> ra_frame_damaged (sc_rtp_frame_assembly c)"
      and eq: "s + of_nat i = (s + of_nat j :: u16)" and rest: "j # js \<noteq> [i..<?n]"
      using Cons.prems(5) by auto
    have "(of_nat i :: u16) = of_nat j" using eq by simp
    then have "i = j" using j assms(2) by (simp add: word_of_nat_eq_iff take_bit_nat_eq_self)
    then have js_rest: "js \<noteq> [Suc j..<?n]" using rest j(2) upt_conv_Cons [of j ?n] by auto
    then have nl: "Suc j \<noteq> ?n" using last by auto
    have a: "at_frame ts ssrc ?a" "ra_next_sequence_number ?a = s + of_nat (Suc j)"
      using receive_packet_next [of ?h "sc_rtp_frame_assembly c" _ ext "pls ! j"] Cons.prems(2) False
      by (simp_all add: add.commute add.left_commute)
    have "snd (feed_rtp (map (\<lambda>j. qs ! j) js) ?c) = []"
      using acc a js js_rest by (intro Cons.IH [of ?c "Suc j"]) auto
    then show ?thesis using pr nl by (auto simp: Let_def split: prod.splits)
  qed
qed

text \<open>C10: no damaged frame is handed out: of the packets of a frame (at most 2^16), any selection in order
  that starts with the first one but misses another one makes the receiver hand out nothing,
  whatever the payloads and whatever was stamped.\<close>

theorem rtp_gap_discards_frame:
  assumes "frame_packets ts ssrc pt s qs pls" "length qs \<le> 2 ^ 16" "accepts_payload_type c pt"
    and "sc_rtp_frame_assembly c = RtpFrameAssembly_zero"
    and "sorted_wrt (<) (0 # idx)" "\<forall>j\<in>set idx. j < length qs" "0 # idx \<noteq> [0..<length qs]" "qs \<noteq> []"
  shows "snd (feed_rtp (map (\<lambda>j. qs ! j) (0 # idx)) c) = []"
proof -
  let ?h = "frame_header ts ssrc pt s (Suc 0 = length qs)"
  have "carries (qs ! 0) ?h (pls ! 0)" using frame_packets_nth [OF assms(1), of 0] assms(8) by simp
  then obtain ext where pr: "ProcessRtpDatagram (qs ! 0) c =
    (let c' = c\<lparr>sc_rtp_frame_assembly := receive_packet (cc_expect_metadata (sc_config c)) ?h ext (pls ! 0) (sc_rtp_frame_assembly c)\<rparr>
     in if rf_marker ?h then finish_frame c' else (c', None))"
    using assms(3) by (elim Process_carries) simp_all
  let ?a = "receive_packet (cc_expect_metadata (sc_config c)) ?h ext (pls ! 0) (sc_rtp_frame_assembly c)"
  let ?c = "c\<lparr>sc_rtp_frame_assembly := ?a\<rparr>"
  have idle: "\<not> (ra_active (sc_rtp_frame_assembly c) \<and> ra_timestamp (sc_rtp_frame_assembly c) = rf_timestamp ?h \<and>
      ra_ssrc (sc_rtp_frame_assembly c) = rf_ssrc ?h)"
    by (simp add: assms(4) RtpFrameAssembly_zero_def)
  have a: "at_frame ts ssrc ?a" "ra_next_sequence_number ?a = s + of_nat (Suc 0)"
    using receive_packet_new [OF idle] by simp_all
  have up: "[0..<length qs] = 0 # [Suc 0..<length qs]" using assms(8) upt_conv_Cons [of 0 "length qs"] by simp
  have n: "Suc 0 \<noteq> length qs"
  proof
    assume "Suc 0 = length qs"
    then have "idx = []" using assms(5,6) by (cases idx) auto
    then show False using assms(7) up \<open>Suc 0 = length qs\<close> by simp
  qed
  have "snd (feed_rtp (map (\<lambda>j. qs ! j) idx) ?c) = []"
    using assms a up by (intro feed_gap [OF assms(1,2), of ?c idx "Suc 0"]) (auto simp: accepts_payload_type_def Suc_le_eq)
  then show ?thesis using pr n by (auto simp: Let_def split: prod.splits)
qed

theorem rtp_gap_discards_frame_witness:
  "snd (feed_rtp (map (\<lambda>j. packets_of example_packetizer True 1 None [[0x67], [0x68], [0x65]] ! j) [0, 2]) example_rtp_client) = []"
proof -
  have h: "(\<And>f pl. rf_payload_type f < 128 \<Longrightarrow> pl \<noteq> [] \<Longrightarrow> carries (WriteRtpHeaderToBuffer f None @ pl) f pl)"
    unfolding carries_def by (subst ParseRtpHeader_packet) (auto simp: ext_ok_def extension_payload_def)
  have "frame_packets 1 7 96 65535 (packets_of example_packetizer True 1 None [[0x67], [0x68], [0x65]]) [[0x67], [0x68], [0x65]]"
    using h by (simp add: example_packetizer_def next_header_fields_def bump_sequence_def frame_header_def)
  from rtp_gap_discards_frame [OF this, of example_rtp_client "[2]"] show ?thesis by (simp add: upt_rec)
qed

text \<open>the loss of a frame's first packet is not noticed: the receiver keeps no sequence number across
  frames, so when the first NAL unit travels in a packet of its own and that packet is lost, the
  rest of the frame is handed out as if it were complete (a key frame without its parameter sets).\<close>

theorem rtp_first_packet_loss_undetected:
  assumes "Packetize p (Some frame) = (p', Inr packets)" "rp_payload_type p < 128"
    and "ef_payload frame = annexb_stream (n # ns)" "list_all nal_clean (n # ns)" "list_all nal_single (n # ns)"
    and "length n \<le> rp_max_payload_size p" "ns \<noteq> []"
    and "length stamps = length packets" "accepts_payload_type c (rp_payload_type p)"
    and "sc_rtp_frame_assembly c = RtpFrameAssembly_zero" "\<not> cc_udp_jitter_buffer_enabled (sc_config c)"
  shows "\<exists>c' f. feed_rtp (tl (map2 stamp_packet stamps packets)) c = (c', [f]) \<and> fr_payload f = annexb_stream ns"
proof -
  note s = Packetize_success [OF assms(1)]
  have split: "SplitAnnexBNalus (ef_payload frame) = n # ns"
    using SplitAnnexBNalus_stream [OF assms(4)] assms(3) by simp
  let ?pls = "frame_payloads (rp_max_payload_size p) (n # ns)"
  have pls: "?pls = n # frame_payloads (rp_max_payload_size p) ns"
    using assms(6) by (simp add: frame_payloads_def nal_payloads_def)
  have pk: "packets = packets_of p True (BuildTimestamp p frame) (frame_extension p frame) ?pls"
    using s(4) split by simp
  have fp: "frame_packets (BuildTimestamp p frame) (rp_ssrc p) (rp_payload_type p) (rp_sequence_number p)
      (map2 stamp_packet stamps packets) ?pls"
    unfolding pk using assms(2,5,8) pk
    by (intro frame_packets_stamped) (simp_all only: frame_payloads_nonempty length_packets_of)
  obtain q qs where q: "map2 stamp_packet stamps packets = q # qs" using fp pls by (cases "map2 stamp_packet stamps packets") auto
  have rest: "frame_packets (BuildTimestamp p frame) (rp_ssrc p) (rp_payload_type p) (rp_sequence_number p + 1) qs
      (frame_payloads (rp_max_payload_size p) ns)"
    using fp unfolding q pls by simp
  have ne: "qs \<noteq> []" using rest frame_payloads_eq_Nil [OF s(2), of ns] assms(7) by (cases "frame_payloads (rp_max_payload_size p) ns") auto
  have stream: "annexb_stream ns \<noteq> []" using assms(7) by (cases ns) simp_all
  have fold: "fold core_step (frame_payloads (rp_max_payload_size p) ns) ([], False, False) = (annexb_stream ns, False, False)"
    using fold_frame_payloads [of ns "rp_max_payload_size p" "[]" False] assms(5) s(2) by simp
  have idle: "\<not> (ra_active (sc_rtp_frame_assembly c) \<and> ra_timestamp (sc_rtp_frame_assembly c) = BuildTimestamp p frame \<and>
      ra_ssrc (sc_rtp_frame_assembly c) = rp_ssrc p)"
    by (simp add: assms(10) RtpFrameAssembly_zero_def)
  show ?thesis
    using feed_frame [OF rest ne assms(9) idle fold stream assms(11)] q by auto
qed

theorem rtp_first_packet_loss_undetected_witness:
  "\<exists>p' packets c' f. Packetize example_packetizer (Some example_stream) = (p', Inr packets) \<and>
     feed_rtp (tl (map2 stamp_packet [10, 20, 30, 40] packets)) example_rtp_client = (c', [f]) \<and>
     fr_payload f = [0, 0, 0, 1, 0x65, 1, 2, 3, 4, 5]"
proof -
  obtain p' packets where pk: "Packetize example_packetizer (Some example_stream) = (p', Inr packets)" "length packets = 4"
    using example_stream_packets
    by (cases "Packetize example_packetizer (Some example_stream)") (auto split: sum.splits)
  have n: "list_all nal_clean [[0x67, 0x42], [0x65, 1, 2, 3, 4, 5]]"
    "list_all nal_single [[0x67, 0x42], [0x65, 1, 2, 3, 4, 5]]" by code_simp+
  have "\<exists>c' f. feed_rtp (tl (map2 stamp_packet [10, 20, 30, 40] packets)) example_rtp_client = (c', [f]) \<and>
      fr_payload f = annexb_stream [[0x65, 1, 2, 3, 4, 5]]"
    by (rule rtp_first_packet_loss_undetected [OF pk(1) _ _ n])
      (simp_all add: example_packetizer_def example_stream_def pk(2))
  then show ?thesis using pk(1) by auto
qed

end
