(* ===== verification/Udp_Receiver.thy ===== *)
theory Udp_Receiver
  imports Jitter_Buffer Rtp_Receiver
begin

section \<open>The UDP receiver\<close>

text \<open>
  \<^verbatim>\<open>sclient/src/modules/network/StreamClientUdp.cpp\<close> without the playout buffer: validation of
  a datagram, assembly of fragments, recovery from the XOR parity, expiry, NACK requests and the
  receive loop. A reference into \<^verbatim>\<open>udp_assemblies_\<close> is looked up, changed and put back; an
  out-parameter with a boolean result is an \<^verbatim>\<open>option\<close>. An empty datagram is a
  \<^verbatim>\<open>recv\<close> that returns zero, which the code takes for a closed socket.
\<close>

subsection \<open>Recently completed frames\<close>

definition IsRecentlyCompletedUdpFrameSequence :: "u64 \<Rightarrow> StreamClient \<Rightarrow> bool" where
  "IsRecentlyCompletedUdpFrameSequence sequence c \<longleftrightarrow> sequence \<in> sc_recently_completed c"

fun trim_recent :: "u64 list \<Rightarrow> u64 set \<Rightarrow> u64 list \<times> u64 set" where
  "trim_recent [] recent = ([], recent)"
| "trim_recent (oldest # order) recent =
     (if kRecentCompletedUdpSequenceWindow < length (oldest # order) then trim_recent order (recent - {oldest})
      else (oldest # order, recent))"

definition RememberCompletedUdpFrameSequence :: "u64 \<Rightarrow> StreamClient \<Rightarrow> StreamClient" where
  "RememberCompletedUdpFrameSequence sequence c =
     (if sequence \<in> sc_recently_completed c then c
      else
        case trim_recent (sc_recently_completed_order c @ [sequence]) (insert sequence (sc_recently_completed c)) of
          (order, recent) \<Rightarrow> c\<lparr>sc_recently_completed_order := order, sc_recently_completed := recent\<rparr>)"

subsection \<open>Injected loss\<close>

definition should_drop :: "ClientConfig \<Rightarrow> UdpFrameFragmentHeader \<Rightarrow> bool" where
  "should_drop cfg h =
     (let period = of_int (max (cc_udp_test_loss_period cfg) 1) in
      if cc_udp_test_loss_pattern cfg = ''single'' then
        fh_frame_sequence h mod period = 0 \<and> fh_fragment_index h = 0
      else if cc_udp_test_loss_pattern cfg = ''burst'' then
        fh_frame_sequence h mod period = 0 \<and>
        unat (fh_fragment_index h) < min (nat (max (cc_udp_test_loss_count cfg) 1)) (unat (fh_fragment_count h))
      else if cc_udp_test_loss_pattern cfg = ''alternate'' then
        fh_frame_sequence h mod 2 = 1 \<and> fh_fragment_index h = 0
      else False)"

definition ShouldInjectUdpLoss :: "UdpFrameFragmentHeader \<Rightarrow> StreamClient \<Rightarrow> StreamClient \<times> bool" where
  "ShouldInjectUdpLoss h c =
     (if cc_udp_test_loss_pattern (sc_config c) = ''none'' \<or> fh_fragment_count h = 0 \<or>
         fh_fragment_role h \<noteq> UdpFragmentRole_code kData \<or> \<not> should_drop (sc_config c) h
      then (c, False)
      else
        let count = unat (fh_fragment_count h);
            known = (case om_find (fh_frame_sequence h) (sc_udp_test_dropped_fragments c) of None \<Rightarrow> [] | Some d \<Rightarrow> d);
            dropped = (if length known \<noteq> count then replicate count False else known);
            index = unat (fh_fragment_index h);
            c = c\<lparr>sc_udp_test_dropped_fragments := om_put (fh_frame_sequence h) dropped (sc_udp_test_dropped_fragments c)\<rparr>
        in if dropped ! index then (c, False)
           else
             (upd_stats (\<lambda>s. s\<lparr>us_injected_loss_datagrams := us_injected_loss_datagrams s + 1,
                              us_injected_loss_fragments := us_injected_loss_fragments s + 1\<rparr>)
                (c\<lparr>sc_udp_test_dropped_fragments :=
                    om_put (fh_frame_sequence h) (dropped[index := True]) (sc_udp_test_dropped_fragments c)\<rparr>), True))"

subsection \<open>Recovery from the parity\<close>

text \<open>The scan for missing fragments: the index of the only one.\<close>

definition only_missing :: "bool list \<Rightarrow> nat option" where
  "only_missing received =
     (case filter (\<lambda>i. \<not> received ! i) [0..<length received] of [index] \<Rightarrow> Some index | _ \<Rightarrow> None)"

definition missing_offset :: "UdpFrameAssembly \<Rightarrow> nat \<Rightarrow> u32" where
  "missing_offset a index =
     (if 0 < index then ua_fragment_offsets a ! (index - 1) + ua_fragment_payload_sizes a ! (index - 1) else 0)"

text \<open>\<open>None\<close> when the next fragment starts before the missing one would.\<close>

definition missing_size :: "UdpFrameAssembly \<Rightarrow> nat \<Rightarrow> u32 option" where
  "missing_size a index =
     (let offset = missing_offset a index in
      if index + 1 < length (ua_received_fragments a) then
        (if ua_fragment_offsets a ! (index + 1) < offset then None
         else Some (ua_fragment_offsets a ! (index + 1) - offset))
      else if unat offset \<le> length (ua_payload a) then Some (of_nat (length (ua_payload a) - unat offset))
      else Some 0)"

text \<open>The parity with every received fragment taken out of it.\<close>

fun xor_received :: "UdpFrameAssembly \<Rightarrow> nat list \<Rightarrow> bytes \<Rightarrow> bytes option" where
  "xor_received a [] recovered = Some recovered"
| "xor_received a (index # indices) recovered =
     (if \<not> ua_received_fragments a ! index then xor_received a indices recovered
      else
        let offset = unat (ua_fragment_offsets a ! index); count = unat (ua_fragment_payload_sizes a ! index) in
        if length (ua_payload a) < offset + count then None
        else xor_received a indices (XorInto recovered (slice offset count (ua_payload a))))"

definition recover_fragment :: "UdpFrameAssembly \<Rightarrow> UdpFrameAssembly option" where
  "recover_fragment a =
     (case only_missing (ua_received_fragments a) of
        None \<Rightarrow> None
      | Some index \<Rightarrow>
          let offset = missing_offset a index in
          case missing_size a index of
            None \<Rightarrow> None
          | Some count \<Rightarrow>
              if count = 0 \<or> length (ua_fec_payload a) < unat count \<or> length (ua_payload a) < unat offset + unat count then None
              else
                case xor_received a [0..<length (ua_received_fragments a)] (ua_fec_payload a) of
                  None \<Rightarrow> None
                | Some recovered \<Rightarrow>
                    Some (a\<lparr>ua_payload := write_at (unat offset) (take (unat count) recovered) (ua_payload a),
                            ua_received_fragments := (ua_received_fragments a)[index := True],
                            ua_fragment_offsets := (ua_fragment_offsets a)[index := offset],
                            ua_fragment_payload_sizes := (ua_fragment_payload_sizes a)[index := count],
                            ua_received_fragment_count := ua_received_fragment_count a + 1\<rparr>))"

definition fec_possible :: "ClientConfig \<Rightarrow> UdpFrameAssembly \<Rightarrow> bool" where
  "fec_possible cfg a \<longleftrightarrow>
     cc_udp_fec_enabled cfg \<and> ua_has_fec_payload a \<and> ua_fec_payload_timestamp_ns a \<noteq> 0 \<and>
     ua_received_fragments a \<noteq> [] \<and> ua_received_fragment_count a < length (ua_received_fragments a)"

text \<open>The assembly is changed in place; the boolean says whether a fragment was recovered.\<close>

definition MaybeRecoverWithUdpFec ::
  "UdpFrameAssembly \<Rightarrow> StreamClient \<Rightarrow> StreamClient \<times> UdpFrameAssembly \<times> bool" where
  "MaybeRecoverWithUdpFec a c =
     (if \<not> fec_possible (sc_config c) a then (c, a, False)
      else
        case recover_fragment a of
          None \<Rightarrow> (c, a, False)
        | Some a' \<Rightarrow>
            (upd_stats (\<lambda>s. s\<lparr>us_fec_recovered_fragments := us_fec_recovered_fragments s + 1,
               us_fec_recovered_frames := us_fec_recovered_frames s +
                 (if ua_received_fragment_count a' = length (ua_received_fragments a') then 1 else 0)\<rparr>) c,
             a', True))"

subsection \<open>Expiry\<close>

definition assembly_expired :: "u64 \<Rightarrow> UdpFrameAssembly \<Rightarrow> bool" where
  "assembly_expired now_ns a \<longleftrightarrow>
     ua_last_fragment_timestamp_ns a \<noteq> 0 \<and> ua_last_fragment_timestamp_ns a < now_ns \<and>
     kUdpAssemblyTimeoutNs < now_ns - ua_last_fragment_timestamp_ns a"

text \<open>A frame given up: its missing fragments are counted, its state is dropped.\<close>

definition give_up_frame :: "u64 \<Rightarrow> UdpFrameAssembly \<Rightarrow> StreamClient \<Rightarrow> StreamClient" where
  "give_up_frame sequence a c =
     (upd_stats (\<lambda>s. s\<lparr>us_timed_out_frames := us_timed_out_frames s + 1,
        us_timed_out_fragments := us_timed_out_fragments s +
          of_nat (length (ua_received_fragments a) - ua_received_fragment_count a)\<rparr>) c)
       \<lparr>sc_udp_test_dropped_fragments := om_erase sequence (sc_udp_test_dropped_fragments c),
        sc_udp_assemblies := om_erase sequence (sc_udp_assemblies c)\<rparr>"

fun prune_loop :: "u64 \<Rightarrow> (u64 \<times> UdpFrameAssembly) list \<Rightarrow> StreamClient \<Rightarrow> StreamClient" where
  "prune_loop now_ns [] c = c"
| "prune_loop now_ns ((sequence, a) # rest) c =
     prune_loop now_ns rest (if assembly_expired now_ns a then give_up_frame sequence a c else c)"

definition PruneExpiredUdpAssemblies :: "u64 \<Rightarrow> StreamClient \<Rightarrow> StreamClient" where
  "PruneExpiredUdpAssemblies now_ns c = PublishUdpReceiveStatsSnapshot (prune_loop now_ns (sc_udp_assemblies c) c)"

subsection \<open>NACK requests\<close>

definition nack_message :: "u64 \<Rightarrow> u64 \<Rightarrow> u16 list \<Rightarrow> bytes" where
  "nack_message request_ns frame_sequence indices =
     put_MessageHeader ((FillMessageMagic MessageHeader_zero)
       \<lparr>mh_message_type := MessageType_code kUdpNack,
        mh_payload_length := of_nat (sizeof_UdpNackHeader + length indices * sizeof_UdpNackItem)\<rparr>)
     @ put_UdpNackHeader \<lparr>nh_request_timestamp_ns = request_ns, nh_request_count = of_nat (length indices), nh_reserved = 0\<rparr>
     @ concat (map (\<lambda>index. put_UdpNackItem
         \<lparr>ni_frame_sequence = frame_sequence, ni_fragment_index = index, ni_reserved = 0\<rparr>) indices)"

text \<open>One message per block of at most \<open>max_requests\<close> indices.\<close>

function send_nacks :: "nat \<Rightarrow> u64 \<Rightarrow> u16 list \<Rightarrow> StreamClient \<Rightarrow> StreamClient \<times> bool" where
  "send_nacks max_requests frame_sequence missing c =
     (if missing = [] \<or> max_requests = 0 then (c, True)
      else
        let requests = take max_requests missing;
            (c, request_ns) = MonotonicNowNs c;
            (c, ok) = send_datagram (nack_message request_ns frame_sequence requests) c
        in if \<not> ok then (c, False)
           else
             send_nacks max_requests frame_sequence (drop max_requests missing)
               (upd_stats (\<lambda>s. s\<lparr>us_nack_requests_sent := us_nack_requests_sent s + 1,
                  us_nack_fragments_requested := us_nack_fragments_requested s + of_nat (length requests)\<rparr>) c))"
  by pat_completeness auto
termination by (relation "measure (\<lambda>(m, s, missing, c). length missing)") auto

definition SendUdpNack :: "u64 \<Rightarrow> u16 list \<Rightarrow> StreamClient \<Rightarrow> StreamClient \<times> bool" where
  "SendUdpNack frame_sequence missing_fragments c =
     (if sc_socket_fd c < 0 \<or> missing_fragments = [] then (c, False)
      else send_nacks (max 1 (cc_udp_nack_max_requests_per_packet (sc_config c))) frame_sequence missing_fragments c)"

definition nack_due :: "ClientConfig \<Rightarrow> u64 \<Rightarrow> UdpFrameAssembly \<Rightarrow> bool" where
  "nack_due cfg now_ns a \<longleftrightarrow>
     ua_received_fragments a \<noteq> [] \<and> ua_received_fragment_count a < length (ua_received_fragments a) \<and>
     ua_first_seen_timestamp_ns a \<noteq> 0 \<and> ua_first_seen_timestamp_ns a \<le> now_ns \<and>
     ms_to_ns (cc_udp_nack_request_delay_ms cfg) \<le> now_ns - ua_first_seen_timestamp_ns a \<and>
     ua_nack_attempts a < cc_udp_nack_max_retries cfg \<and>
     \<not> (ua_last_nack_timestamp_ns a \<noteq> 0 \<and> ua_last_nack_timestamp_ns a \<le> now_ns \<and>
        now_ns - ua_last_nack_timestamp_ns a < ms_to_ns (cc_udp_nack_retry_interval_ms cfg))"

definition missing_fragments :: "UdpFrameAssembly \<Rightarrow> u16 list" where
  "missing_fragments a =
     map of_nat (filter (\<lambda>i. \<not> ua_received_fragments a ! i) [0..<length (ua_received_fragments a)])"

text \<open>The loop over the assemblies; the changed ones are returned.\<close>

fun nack_loop :: "u64 \<Rightarrow> (u64 \<times> UdpFrameAssembly) list \<Rightarrow> StreamClient \<Rightarrow> StreamClient \<times> (u64 \<times> UdpFrameAssembly) list" where
  "nack_loop now_ns [] c = (c, [])"
| "nack_loop now_ns ((sequence, a) # rest) c =
     (let (c, a) =
        (if nack_due (sc_config c) now_ns a \<and> missing_fragments a \<noteq> [] then
           let (c, ok) = SendUdpNack (md_sequence (ua_metadata a)) (missing_fragments a) c in
           (c, if ok then a\<lparr>ua_last_nack_timestamp_ns := now_ns, ua_nack_attempts := ua_nack_attempts a + 1\<rparr> else a)
         else (c, a));
          (c, rest) = nack_loop now_ns rest c
      in (c, (sequence, a) # rest))"

definition MaybeSendUdpNackRequests :: "u64 \<Rightarrow> StreamClient \<Rightarrow> StreamClient" where
  "MaybeSendUdpNackRequests now_ns c =
     PublishUdpReceiveStatsSnapshot
       (if \<not> cc_udp_nack_enabled (sc_config c) \<or> cc_udp_nack_max_requests_per_packet (sc_config c) = 0 then c
        else case nack_loop now_ns (sc_udp_assemblies c) c of (c, assemblies) \<Rightarrow> c\<lparr>sc_udp_assemblies := assemblies\<rparr>)"

subsection \<open>A completed frame\<close>

definition completed_udp_frame :: "ClientConfig \<Rightarrow> UdpFrameAssembly \<Rightarrow> u64 \<Rightarrow> ReceivedFrame" where
  "completed_udp_frame cfg a now_ns =
     (let frame = \<lparr>fr_header = ua_header a, fr_metadata = ua_metadata a,
            fr_sender_metadata_available = (cc_expect_metadata cfg \<and> HasSenderLatencyMetadata (ua_metadata a)),
            fr_receive_timestamp_ns = now_ns, fr_payload = ua_payload a\<rparr>
      in frame\<lparr>fr_receive_timestamp_ns := now_ns + InjectedUdpJitterDelayNs cfg frame\<rparr>)"

definition FinalizeCompletedUdpFrame ::
  "u64 \<Rightarrow> UdpFrameAssembly \<Rightarrow> u64 \<Rightarrow> bool \<Rightarrow> StreamClient \<Rightarrow> StreamClient \<times> ReceivedFrame option" where
  "FinalizeCompletedUdpFrame frame_sequence a now_ns defer_ready_pop c =
     (if ua_received_fragment_count a \<noteq> length (ua_received_fragments a) then (c, None)
      else
        let frame = completed_udp_frame (sc_config c) a now_ns;
            c = upd_stats (\<lambda>s. s\<lparr>us_completed_frames := us_completed_frames s + 1\<rparr>) c;
            c = OnCompletedUdpFrame frame now_ns c;
            c = RememberCompletedUdpFrameSequence frame_sequence c;
            c = c\<lparr>sc_udp_test_dropped_fragments := om_erase frame_sequence (sc_udp_test_dropped_fragments c),
                  sc_udp_assemblies := om_erase frame_sequence (sc_udp_assemblies c)\<rparr>
        in if \<not> cc_udp_jitter_buffer_enabled (sc_config c) then (c, Some frame)
           else
             let c = BufferCompletedUdpFrame frame c in
             if defer_ready_pop then (c, None)
             else TryPopReadyUdpFrame now_ns (MaybeSendUdpNackRequests now_ns c))"

subsection \<open>A datagram\<close>

text \<open>The checks before the fragment is used: header, fragment header and fragment payload.\<close>

definition parse_fragment :: "bytes \<Rightarrow> (MessageHeader \<times> UdpFrameFragmentHeader \<times> bytes) option" where
  "parse_fragment data =
     (if length data < sizeof_MessageHeader + sizeof_UdpFrameFragmentHeader then None
      else
        let header = get_MessageHeader (slice 0 sizeof_MessageHeader data);
            fh = get_UdpFrameFragmentHeader (slice sizeof_MessageHeader sizeof_UdpFrameFragmentHeader data);
            payload = drop (sizeof_MessageHeader + sizeof_UdpFrameFragmentHeader) data
        in if \<not> HasValidMessageMagic header then None
           else if mh_message_type header \<noteq> MessageType_code kAvStream \<or>
                   unat (mh_payload_length header) < sizeof_UdpFrameFragmentHeader then None
           else if fh_fragment_count fh = 0 \<or> UdpFragmentRole_code kXorParity < fh_fragment_role fh \<or>
                   (fh_fragment_role fh = UdpFragmentRole_code kData \<and> fh_fragment_count fh \<le> fh_fragment_index fh) then None
           else if length payload + sizeof_UdpFrameFragmentHeader \<noteq> unat (mh_payload_length header) then None
           else if fh_fragment_role fh = UdpFragmentRole_code kData \<and>
                   unat (fh_frame_payload_size fh) < unat (fh_fragment_offset fh) + length payload then None
           else Some (header, fh, payload))"

definition start_assembly :: "ClientConfig \<Rightarrow> MessageHeader \<Rightarrow> UdpFrameFragmentHeader \<Rightarrow> u64 \<Rightarrow> UdpFrameAssembly \<Rightarrow> UdpFrameAssembly" where
  "start_assembly cfg header fh now_ns a =
     (let keep = (\<lambda>t. if cc_expect_metadata cfg then t else 0); count = unat (fh_fragment_count fh) in
      a\<lparr>ua_header := header,
        ua_metadata := \<lparr>md_sequence = fh_frame_sequence fh, md_capture_timestamp_ns = keep (fh_capture_timestamp_ns fh),
          md_encode_start_timestamp_ns = keep (fh_encode_start_timestamp_ns fh),
          md_encode_end_timestamp_ns = keep (fh_encode_end_timestamp_ns fh),
          md_transport_send_timestamp_ns = keep (fh_transport_send_timestamp_ns fh)\<rparr>,
        ua_payload := resize (unat (fh_frame_payload_size fh)) 0 (ua_payload a),
        ua_received_fragments := replicate count False, ua_fragment_offsets := replicate count 0,
        ua_fragment_payload_sizes := replicate count 0,
        ua_first_seen_timestamp_ns := now_ns, ua_last_fragment_timestamp_ns := now_ns\<rparr>)"

text \<open>A fragment enters the assembly of its frame; the parity is kept aside.\<close>

definition store_parity :: "bytes \<Rightarrow> u64 \<Rightarrow> UdpFrameAssembly \<Rightarrow> UdpFrameAssembly" where
  "store_parity payload now_ns a =
     a\<lparr>ua_fec_payload := payload, ua_has_fec_payload := True, ua_fec_payload_timestamp_ns := now_ns\<rparr>"

definition store_data :: "UdpFrameFragmentHeader \<Rightarrow> bytes \<Rightarrow> u64 \<Rightarrow> UdpFrameAssembly \<Rightarrow> UdpFrameAssembly" where
  "store_data fh payload now_ns a =
     (let index = unat (fh_fragment_index fh) in
      a\<lparr>ua_payload := write_at (unat (fh_fragment_offset fh)) payload (ua_payload a),
        ua_received_fragments := (ua_received_fragments a)[index := True],
        ua_fragment_offsets := (ua_fragment_offsets a)[index := fh_fragment_offset fh],
        ua_fragment_payload_sizes := (ua_fragment_payload_sizes a)[index := of_nat (length payload)],
        ua_received_fragment_count := ua_received_fragment_count a + 1,
        ua_last_fragment_timestamp_ns := now_ns\<rparr>)"

definition store_fragment ::
  "UdpFrameFragmentHeader \<Rightarrow> bytes \<Rightarrow> u64 \<Rightarrow> UdpFrameAssembly \<Rightarrow> StreamClient \<Rightarrow> StreamClient \<times> UdpFrameAssembly" where
  "store_fragment fh payload now_ns a c =
     (if fh_fragment_role fh = UdpFragmentRole_code kXorParity then
        let (c, a) = (if cc_udp_fec_enabled (sc_config c)
                      then (upd_stats (\<lambda>s. s\<lparr>us_fec_fragments_received := us_fec_fragments_received s + 1\<rparr>) c,
                            store_parity payload now_ns a)
                      else (c, a))
        in (c, a\<lparr>ua_last_fragment_timestamp_ns := now_ns\<rparr>)
      else
        let c = upd_stats (\<lambda>s. s\<lparr>us_fragments_received := us_fragments_received s + 1\<rparr>) c in
        if \<not> ua_received_fragments a ! unat (fh_fragment_index fh) then (c, store_data fh payload now_ns a)
        else (upd_stats (\<lambda>s. s\<lparr>us_duplicate_fragments := us_duplicate_fragments s + 1\<rparr>) c, a))"

text \<open>The assembly a datagram belongs to, created if there is none, and whether it is of that layout.\<close>

definition assembly_for :: "ClientConfig \<Rightarrow> MessageHeader \<Rightarrow> UdpFrameFragmentHeader \<Rightarrow> u64 \<Rightarrow> UdpFrameAssembly option \<Rightarrow> UdpFrameAssembly" where
  "assembly_for cfg header fh now_ns found =
     (let a = (case found of None \<Rightarrow> UdpFrameAssembly_new | Some a \<Rightarrow> a) in
      if ua_received_fragments a = [] then start_assembly cfg header fh now_ns a else a)"

definition fits :: "UdpFrameFragmentHeader \<Rightarrow> UdpFrameAssembly \<Rightarrow> bool" where
  "fits fh a \<longleftrightarrow> length (ua_received_fragments a) = unat (fh_fragment_count fh) \<and>
     length (ua_payload a) = unat (fh_frame_payload_size fh)"

text \<open>The part of \<open>ProcessUdpDatagram\<close> that follows the checks.\<close>

definition accept_fragment ::
  "MessageHeader \<Rightarrow> UdpFrameFragmentHeader \<Rightarrow> bytes \<Rightarrow> u64 \<Rightarrow> bool \<Rightarrow> StreamClient \<Rightarrow> StreamClient \<times> ReceivedFrame option" where
  "accept_fragment header fh payload now_ns defer_ready_pop c =
     (let sequence = fh_frame_sequence fh;
          a = assembly_for (sc_config c) header fh now_ns (om_find sequence (sc_udp_assemblies c))
      in if \<not> fits fh a then (give_up_frame sequence a c, None)
         else
           let (c, a) = store_fragment fh payload now_ns a c;
               (c, a, _) =
                 (if fh_fragment_role fh = UdpFragmentRole_code kData \<and>
                     ua_received_fragment_count a < length (ua_received_fragments a)
                  then MaybeRecoverWithUdpFec a c else (c, a, False));
               c = c\<lparr>sc_udp_assemblies := om_put sequence a (sc_udp_assemblies c)\<rparr>
           in if ua_received_fragment_count a = length (ua_received_fragments a)
              then FinalizeCompletedUdpFrame sequence a now_ns defer_ready_pop c
              else (c, None))"

definition ProcessUdpDatagram ::
  "bytes \<Rightarrow> u64 \<Rightarrow> bool \<Rightarrow> StreamClient \<Rightarrow> StreamClient \<times> ReceivedFrame option" where
  "ProcessUdpDatagram data now_ns defer_ready_pop c =
     (let c = upd_stats (\<lambda>s. s\<lparr>us_datagrams_received := us_datagrams_received s + 1\<rparr>) c;
          c = PruneExpiredUdpAssemblies now_ns c;
          (c, frame) =
            (case parse_fragment data of
               None \<Rightarrow> (upd_stats (\<lambda>s. s\<lparr>us_invalid_datagrams := us_invalid_datagrams s + 1\<rparr>) c, None)
             | Some (header, fh, payload) \<Rightarrow>
                 let (c, lost) = ShouldInjectUdpLoss fh c in
                 if lost then (c, None)
                 else if IsRecentlyCompletedUdpFrameSequence (fh_frame_sequence fh) c then
                   (upd_stats (\<lambda>s. s\<lparr>us_stale_datagrams_dropped := us_stale_datagrams_dropped s + 1\<rparr>) c, None)
                 else accept_fragment header fh payload now_ns defer_ready_pop c)
      in (PublishUdpReceiveStatsSnapshot c, frame))"

subsection \<open>Recovery of all frames\<close>

text \<open>The first loop: every incomplete assembly is tried; the recovered sequence numbers.\<close>

fun recover_loop :: "(u64 \<times> UdpFrameAssembly) list \<Rightarrow> StreamClient \<Rightarrow> StreamClient \<times> u64 list" where
  "recover_loop [] c = (c, [])"
| "recover_loop ((sequence, a) # rest) c =
     (if length (ua_received_fragments a) \<le> ua_received_fragment_count a then recover_loop rest c
      else
        case MaybeRecoverWithUdpFec a c of (c, a, recovered) \<Rightarrow>
        case recover_loop rest (c\<lparr>sc_udp_assemblies := om_put sequence a (sc_udp_assemblies c)\<rparr>) of
          (c, sequences) \<Rightarrow> (c, if recovered then sequence # sequences else sequences))"

text \<open>The second loop: the recovered frames are completed until one is handed out.\<close>

fun finalize_loop :: "u64 list \<Rightarrow> u64 \<Rightarrow> bool \<Rightarrow> StreamClient \<Rightarrow> StreamClient \<times> ReceivedFrame option" where
  "finalize_loop [] now_ns defer_ready_pop c = (c, None)"
| "finalize_loop (sequence # sequences) now_ns defer_ready_pop c =
     (case om_find sequence (sc_udp_assemblies c) of
        None \<Rightarrow> finalize_loop sequences now_ns defer_ready_pop c
      | Some a \<Rightarrow>
          if ua_received_fragment_count a \<noteq> length (ua_received_fragments a)
          then finalize_loop sequences now_ns defer_ready_pop c
          else
            case FinalizeCompletedUdpFrame sequence a now_ns defer_ready_pop c of
              (c, Some frame) \<Rightarrow> (c, Some frame)
            | (c, None) \<Rightarrow> finalize_loop sequences now_ns defer_ready_pop c)"

definition FinalizeRecoverableUdpFecFrames :: "u64 \<Rightarrow> bool \<Rightarrow> StreamClient \<Rightarrow> StreamClient \<times> ReceivedFrame option" where
  "FinalizeRecoverableUdpFecFrames now_ns defer_ready_pop c =
     (case recover_loop (sc_udp_assemblies c) c of (c, sequences) \<Rightarrow>
      case finalize_loop sequences now_ns defer_ready_pop c of (c, r) \<Rightarrow> (PublishUdpReceiveStatsSnapshot c, r))"

subsection \<open>The receive loop\<close>

text \<open>The non-blocking loop that empties the socket: what is left of the given \<^verbatim>\<open>recv\<close> results,
  whether a datagram was read, and the outcome if the call returns from here.\<close>

fun drain_socket :: "recv_result list \<Rightarrow> bool \<Rightarrow> StreamClient \<Rightarrow> recv_result list \<times> bool \<times> StreamClient \<times> receive_outcome option" where
  "drain_socket [] drained_any c = ([], drained_any, c, Some Blocked)"
| "drain_socket (r # rs) drained_any c =
     (if \<not> sc_running c then (r # rs, drained_any, c, None)
      else
        case r of
          RecvWouldBlock \<Rightarrow> (rs, drained_any, c, None)
        | RecvInterrupted \<Rightarrow> drain_socket rs drained_any c
        | RecvError _ \<Rightarrow> (rs, drained_any, c, Some (Failed ''failed to receive UDP datagram''))
        | RecvEof \<Rightarrow> (rs, drained_any, c, Some (Failed ''UDP socket closed''))
        | Received data \<Rightarrow>
            (if data = [] then (rs, drained_any, c, Some (Failed ''UDP socket closed''))
             else
               case MonotonicNowNs c of (c, now_ns) \<Rightarrow>
               case ProcessUdpDatagram data now_ns True c of
                 (c, Some frame) \<Rightarrow> (rs, True, c, Some (Frame frame))
               | (c, None) \<Rightarrow> drain_socket rs True c))"

lemma length_drain_socket:
  "drain_socket rs any c = (rs', any', c', r) \<Longrightarrow> length rs' \<le> length rs \<and> (any' \<longrightarrow> any \<or> length rs' < length rs)"
proof (induction rs any c arbitrary: rs' any' c' r rule: drain_socket.induct)
  case (2 r1 rs any c)
  show ?case using "2.prems" "2.IH"
    by (fastforce simp: less_Suc_eq_le split: if_splits recv_result.splits prod.splits option.splits)
qed simp

text \<open>What follows when nothing was read: expiry, recovery, NACK requests, one more look at the
  playout buffer.\<close>

definition maintain :: "u64 \<Rightarrow> StreamClient \<Rightarrow> StreamClient \<times> ReceivedFrame option" where
  "maintain now_ns c =
     (let c = PruneExpiredUdpAssemblies now_ns c in
      case FinalizeRecoverableUdpFecFrames now_ns False c of
        (c, Some frame) \<Rightarrow> (c, Some frame)
      | (c, None) \<Rightarrow> TryPopReadyUdpFrame now_ns (MaybeSendUdpNackRequests now_ns c))"

text \<open>The blocking \<^verbatim>\<open>recv\<close> at the end of an iteration.\<close>

fun blocking_receive :: "recv_result list \<Rightarrow> StreamClient \<Rightarrow> recv_result list \<times> StreamClient \<times> receive_outcome option" where
  "blocking_receive [] c = ([], c, Some Blocked)"
| "blocking_receive (r # rs) c =
     (case r of
        RecvWouldBlock \<Rightarrow> (rs, c, None)
      | RecvInterrupted \<Rightarrow> (rs, c, None)
      | RecvError _ \<Rightarrow> (rs, c, Some (Failed ''failed to receive UDP datagram''))
      | RecvEof \<Rightarrow> (rs, c, Some (Failed ''UDP socket closed''))
      | Received data \<Rightarrow>
          if data = [] then (rs, c, Some (Failed ''UDP socket closed''))
          else
            let (c, now_ns) = MonotonicNowNs c; (c, frame) = ProcessUdpDatagram data now_ns False c
            in (rs, c, map_option Frame frame))"

text \<open>One iteration of the outer loop; no outcome means \<^verbatim>\<open>continue\<close>.\<close>

definition receive_iteration :: "recv_result list \<Rightarrow> StreamClient \<Rightarrow> recv_result list \<times> StreamClient \<times> receive_outcome option" where
  "receive_iteration rs c =
     (let (c, loop_now_ns) = MonotonicNowNs c; (c, frame) = TryPopReadyUdpFrame loop_now_ns c in
      if frame \<noteq> None then (rs, c, map_option Frame frame)
      else
        let (rs, drained_any, c, outcome) = drain_socket rs False c in
        if outcome \<noteq> None then (rs, c, outcome)
        else
          let (c, now_ns) = MonotonicNowNs c; (c, frame) = FinalizeRecoverableUdpFecFrames now_ns True c in
          if frame \<noteq> None then (rs, c, map_option Frame frame)
          else
            let (c, frame) = TryPopReadyUdpFrame now_ns c in
            if frame \<noteq> None then (rs, c, map_option Frame frame)
            else if drained_any then (rs, c, None)
            else
              let (c, frame) = maintain now_ns c in
              if frame \<noteq> None then (rs, c, map_option Frame frame)
              else blocking_receive rs c)"

lemma blocking_receive_shorter: "blocking_receive rs c = (rs', c', None) \<Longrightarrow> length rs' < length rs"
  by (cases rs) (auto simp: split_beta Let_def split: recv_result.splits if_splits)

lemma receive_iteration_shorter:
  assumes "receive_iteration rs c = (rs', c', None)"
  shows "length rs' < length rs"
proof -
  obtain c1 where t: "drain_socket rs False c1 = (fst (drain_socket rs False c1), fst (snd (drain_socket rs False c1)),
      fst (snd (snd (drain_socket rs False c1))), snd (snd (snd (drain_socket rs False c1))))"
    "(fst (snd (drain_socket rs False c1)) \<and> rs' = fst (drain_socket rs False c1)) \<or>
      (\<exists>c2. blocking_receive (fst (drain_socket rs False c1)) c2 = (rs', c', None))"
    using assms by (auto simp: receive_iteration_def Let_def split_beta split: if_splits)
  show ?thesis using length_drain_socket [OF t(1)] t(2) blocking_receive_shorter by fastforce
qed

function ReceiveUdpFrame :: "recv_result list \<Rightarrow> StreamClient \<Rightarrow> StreamClient \<times> receive_outcome" where
  "ReceiveUdpFrame rs c =
     (if \<not> sc_running c then (c, Failed ''client stopped'')
      else
        case receive_iteration rs c of
          (rs', c', Some outcome) \<Rightarrow> (c', outcome)
        | (rs', c', None) \<Rightarrow> ReceiveUdpFrame rs' c')"
  by pat_completeness auto
termination
  by (relation "measure (\<lambda>(rs, c). length rs)") (auto dest: receive_iteration_shorter [OF sym])

end
