(* ===== verification/Udp_Assembly.thy ===== *)
theory Udp_Assembly
  imports Udp_Receiver
begin

section \<open>A contract for the assembly of frames\<close>

text \<open>
  What the receiver does with an assembly is only this: it starts one, stores a fragment in it,
  recovers a fragment, notes a NACK, and turns a complete one into a frame. The locale
  \<open>assembly_contract\<close> states that a property \<open>A\<close> of assemblies is kept by these steps and gives
  the property \<open>M\<close> of the completed frame, for datagrams that satisfy \<open>D\<close>; in it, the receive loop as a
  whole is shown to keep \<open>A\<close> for all assemblies and \<open>M\<close> for all frames it buffers and hands out. It
  is interpreted here with the well-formedness of the buffers, for arbitrary datagrams, and in
  \<^verbatim>\<open>Udp_Link\<close> with the correspondence to the frames the server sent.
\<close>

subsection \<open>What the operations leave alone\<close>

definition view :: "StreamClient \<Rightarrow> ClientConfig \<times> (u64, UdpFrameAssembly) omap \<times> (u64, BufferedUdpFrame) omap" where
  "view c = (sc_config c, sc_udp_assemblies c, sc_udp_jitter_buffer c)"

lemma view_simps [simp]:
  "view (upd_stats f c) = view c" "view (PublishUdpReceiveStatsSnapshot c) = view c"
  "view (c\<lparr>sc_udp_test_dropped_fragments := x\<rparr>) = view c"
  "view (c\<lparr>sc_recently_completed_order := y, sc_recently_completed := z\<rparr>) = view c"
  "view (c\<lparr>sc_env := e\<rparr>) = view c"
  by (simp_all add: view_def)

lemma view_OnCompleted [simp]: "view (OnCompletedUdpFrame f n c) = view c"
  using same_framesD [OF same_frames_OnCompleted [of c f n]] by (simp add: view_def)

lemma view_Remember [simp]: "view (RememberCompletedUdpFrameSequence s c) = view c"
  by (simp add: RememberCompletedUdpFrameSequence_def split: prod.splits)

lemma view_Now [simp]: "view (fst (MonotonicNowNs c)) = view c"
  by (simp add: MonotonicNowNs_def Let_def)

lemma view_ShouldInject [simp]: "view (fst (ShouldInjectUdpLoss h c)) = view c"
  by (simp add: ShouldInjectUdpLoss_def Let_def)

declare send_nacks.simps [simp del]
declare ReceiveUdpFrame.simps [simp del]

lemma view_send_nacks: "view (fst (send_nacks m s missing c)) = view c"
proof (induction "length missing" arbitrary: missing c rule: less_induct)
  case less
  show ?case
  proof (cases "missing = [] \<or> m = 0")
    case True
    then show ?thesis by (simp add: send_nacks.simps [of m s missing])
  next
    case False
    obtain c1 t where n: "MonotonicNowNs c = (c1, t)" by fastforce
    obtain c2 ok where d: "send_datagram (nack_message t s (take m missing)) c1 = (c2, ok)" by fastforce
    have "c2 = fst (send_datagram (nack_message t s (take m missing)) (fst (MonotonicNowNs c)))" using n d by simp
    then have v: "view c2 = view c" by (simp add: send_datagram_def MonotonicNowNs_def Let_def)
    show ?thesis
      using False n d v less [of "drop m missing"] by (subst send_nacks.simps) simp
  qed
qed

lemma view_SendUdpNack [simp]: "view (fst (SendUdpNack s missing c)) = view c"
  by (simp add: SendUdpNack_def view_send_nacks)

lemma give_up_view:
  "sc_config (give_up_frame s a c) = sc_config c"
  "sc_udp_assemblies (give_up_frame s a c) = om_erase s (sc_udp_assemblies c)"
  "sc_udp_jitter_buffer (give_up_frame s a c) = sc_udp_jitter_buffer c"
  by (simp_all add: give_up_frame_def)

lemma MaybeRecover_view [simp]: "view (fst (MaybeRecoverWithUdpFec a c)) = view c"
  by (simp add: MaybeRecoverWithUdpFec_def split: option.splits)

lemma store_fragment_view [simp]: "view (fst (store_fragment fh p now a c)) = view c"
  by (simp add: store_fragment_def Let_def)

lemma store_fragment_snd:
  "snd (store_fragment fh p now a c) =
     (if fh_fragment_role fh = UdpFragmentRole_code kXorParity then
        (if cc_udp_fec_enabled (sc_config c) then store_parity p now a else a)\<lparr>ua_last_fragment_timestamp_ns := now\<rparr>
      else if \<not> ua_received_fragments a ! unat (fh_fragment_index fh) then store_data fh p now a else a)"
  by (simp add: store_fragment_def Let_def)

lemma set_om_erase: "set (om_erase k m) \<subseteq> set m"
  by (auto simp: om_erase_def)

lemma prune_loop_view:
  "sc_config (prune_loop now as c) = sc_config c"
  "sc_udp_jitter_buffer (prune_loop now as c) = sc_udp_jitter_buffer c"
  "set (sc_udp_assemblies (prune_loop now as c)) \<subseteq> set (sc_udp_assemblies c)"
  "om_ok (sc_udp_assemblies c) \<Longrightarrow> om_ok (sc_udp_assemblies (prune_loop now as c))"
proof (induction now as c rule: prune_loop.induct)
  case (2 now s a rest c)
  { case 1 show ?case using "2.IH"(1) by (simp add: give_up_view) }
  { case 2 show ?case using "2.IH"(2) by (simp add: give_up_view) }
  { case 3 show ?case
      using "2.IH"(3) order_trans [OF _ set_om_erase [of s "sc_udp_assemblies c"]]
      by (cases "assembly_expired now a") (simp_all add: give_up_view) }
  { case 4 then show ?case using "2.IH"(4) by (simp add: give_up_view) }
qed simp_all

subsection \<open>The contract\<close>

definition receiver_inv ::
  "ClientConfig \<Rightarrow> (u64 \<Rightarrow> UdpFrameAssembly \<Rightarrow> bool) \<Rightarrow> (ReceivedFrame \<Rightarrow> bool) \<Rightarrow> StreamClient \<Rightarrow> bool" where
  "receiver_inv cfg A M c \<longleftrightarrow> sc_config c = cfg \<and> om_ok (sc_udp_assemblies c) \<and> om_ok (sc_udp_jitter_buffer c) \<and>
     (\<forall>(s, a)\<in>set (sc_udp_assemblies c). A s a) \<and> (\<forall>(s, b)\<in>set (sc_udp_jitter_buffer c). M (bf_frame b))"

lemma receiver_inv_cong: "view c' = view c \<Longrightarrow> receiver_inv cfg A M c' = receiver_inv cfg A M c"
  by (simp add: receiver_inv_def view_def)

lemma receiver_inv_simps [simp]:
  "receiver_inv cfg A M (upd_stats f c) = receiver_inv cfg A M c"
  "receiver_inv cfg A M (PublishUdpReceiveStatsSnapshot c) = receiver_inv cfg A M c"
  "receiver_inv cfg A M (fst (MonotonicNowNs c)) = receiver_inv cfg A M c"
  "receiver_inv cfg A M (fst (ShouldInjectUdpLoss h c)) = receiver_inv cfg A M c"
  "receiver_inv cfg A M (fst (MaybeRecoverWithUdpFec a c)) = receiver_inv cfg A M c"
  "receiver_inv cfg A M (fst (store_fragment fh p now a c)) = receiver_inv cfg A M c"
  "receiver_inv cfg A M (fst (SendUdpNack s missing c)) = receiver_inv cfg A M c"
  by (rule receiver_inv_cong, simp)+

lemma receiver_inv_put:
  assumes "receiver_inv cfg A M c" "A s a"
  shows "receiver_inv cfg A M (c\<lparr>sc_udp_assemblies := om_put s a (sc_udp_assemblies c)\<rparr>)"
  using assms by (auto simp: receiver_inv_def om.put_entries)

lemma receiver_inv_erase: "receiver_inv cfg A M c \<Longrightarrow> receiver_inv cfg A M (give_up_frame s a c)"
  using set_om_erase [of s "sc_udp_assemblies c"] by (auto simp: receiver_inv_def give_up_view)

lemma receiver_inv_find: "receiver_inv cfg A M c \<Longrightarrow> om_find s (sc_udp_assemblies c) = Some a \<Longrightarrow> A s a"
  by (auto simp: receiver_inv_def om_find_Some)

lemma receiver_inv_prune: "receiver_inv cfg A M c \<Longrightarrow> receiver_inv cfg A M (PruneExpiredUdpAssemblies now c)"
  unfolding PruneExpiredUdpAssemblies_def receiver_inv_simps
  using subsetD [OF prune_loop_view(3) [of now "sc_udp_assemblies c" c]]
  by (fastforce simp: receiver_inv_def prune_loop_view)

lemma receiver_inv_TryPop:
  assumes "receiver_inv cfg A M c" "TryPopReadyUdpFrame now c = (c', r)"
  shows "receiver_inv cfg A M c'" "r = Some f \<Longrightarrow> M f"
proof -
  note o = TryPop_other [OF assms(2)]
  have "receiver_inv cfg A M c' \<and> (\<forall>f. r = Some f \<longrightarrow> M f)"
  proof (cases r)
    case None
    then show ?thesis using assms o TryPop_None by (simp add: receiver_inv_def)
  next
    case (Some f)
    obtain seq b where b: "om_find seq (sc_udp_jitter_buffer c) = Some b" "f = bf_frame b"
        "sc_udp_jitter_buffer c' = om_erase seq (sc_udp_jitter_buffer c)"
      using TryPop_Some [of now c c' f] assms Some by (metis receiver_inv_def)
    then have "M f" using assms(1) by (auto simp: receiver_inv_def om_find_Some)
    moreover have "receiver_inv cfg A M c'"
      using assms(1) o b(3) set_om_erase [of seq "sc_udp_jitter_buffer c"] by (auto simp: receiver_inv_def)
    ultimately show ?thesis using Some by simp
  qed
  then show "receiver_inv cfg A M c'" "r = Some f \<Longrightarrow> M f" by auto
qed

lemma receiver_inv_Buffer:
  assumes "receiver_inv cfg A M c" "M f"
  shows "receiver_inv cfg A M (BufferCompletedUdpFrame f c)"
  using assms BufferCompleted_buffer(4) [of c f]
  by (auto simp: receiver_inv_def BufferCompleted_buffer(1) Let_def same_receiver_def om.put_entries)

locale assembly_contract =
  fixes cfg :: ClientConfig
    and A :: "u64 \<Rightarrow> UdpFrameAssembly \<Rightarrow> bool"
    and M :: "ReceivedFrame \<Rightarrow> bool"
    and D :: "bytes \<Rightarrow> bool"
  assumes nacked: "A s a \<Longrightarrow> nack_due cfg now a \<Longrightarrow>
      A s (a\<lparr>ua_last_nack_timestamp_ns := now, ua_nack_attempts := ua_nack_attempts a + 1\<rparr>)"
    and recovered: "A s a \<Longrightarrow> fec_possible cfg a \<Longrightarrow> recover_fragment a = Some a' \<Longrightarrow> A s a'"
    and started: "D d \<Longrightarrow> parse_fragment d = Some (h, fh, p) \<Longrightarrow>
      A (fh_frame_sequence fh) (start_assembly cfg h fh now UdpFrameAssembly_new)"
    and nonempty: "A s a \<Longrightarrow> ua_received_fragments a \<noteq> []"
    and parity_stored: "D d \<Longrightarrow> parse_fragment d = Some (h, fh, p) \<Longrightarrow> A (fh_frame_sequence fh) a \<Longrightarrow> fits fh a \<Longrightarrow>
      fh_fragment_role fh = UdpFragmentRole_code kXorParity \<Longrightarrow>
      A (fh_frame_sequence fh) ((if cc_udp_fec_enabled cfg then store_parity p now a else a)\<lparr>ua_last_fragment_timestamp_ns := now\<rparr>)"
    and data_stored: "D d \<Longrightarrow> parse_fragment d = Some (h, fh, p) \<Longrightarrow> A (fh_frame_sequence fh) a \<Longrightarrow> fits fh a \<Longrightarrow>
      fh_fragment_role fh = UdpFragmentRole_code kData \<Longrightarrow> \<not> ua_received_fragments a ! unat (fh_fragment_index fh) \<Longrightarrow>
      A (fh_frame_sequence fh) (store_data fh p now a)"
    and completed: "A s a \<Longrightarrow> ua_received_fragment_count a = length (ua_received_fragments a) \<Longrightarrow>
      M (completed_udp_frame cfg a now)"
begin

abbreviation inv :: "StreamClient \<Rightarrow> bool" where
  "inv \<equiv> receiver_inv cfg A M"

lemma nack_loop_inv:
  "sc_config c = cfg \<Longrightarrow> \<forall>(s, a)\<in>set as. A s a \<Longrightarrow> nack_loop now as c = (c', as') \<Longrightarrow>
     view c' = view c \<and> map fst as' = map fst as \<and> (\<forall>(s, a)\<in>set as'. A s a)"
proof (induction as arbitrary: c c' as')
  case Nil
  then show ?case by simp
next
  case (Cons e rest)
  obtain s a where e: "e = (s, a)" by fastforce
  define r where "r = (if nack_due (sc_config c) now a \<and> missing_fragments a \<noteq> [] then
           let (c, ok) = SendUdpNack (md_sequence (ua_metadata a)) (missing_fragments a) c in
           (c, if ok then a\<lparr>ua_last_nack_timestamp_ns := now, ua_nack_attempts := ua_nack_attempts a + 1\<rparr> else a)
         else (c, a))"
  have Aa: "A s a" and rest: "\<forall>(s, a)\<in>set rest. A s a" using Cons.prems(2) e by auto
  have r1: "view (fst r) = view c" "A s (snd r)"
    using Aa nacked [OF Aa, of now] Cons.prems(1) by (auto simp: r_def Let_def split_beta)
  obtain c2 rest2 where n: "nack_loop now rest (fst r) = (c2, rest2)" by fastforce
  have cfg1: "sc_config (fst r) = cfg" using r1(1) Cons.prems(1) by (simp add: view_def)
  have eq: "c' = c2" "as' = (s, snd r) # rest2"
    using Cons.prems(3) n e by (auto simp: r_def [symmetric] Let_def split_beta)
  show ?case using Cons.IH [OF cfg1 rest n] r1 eq e by simp
qed

lemma inv_nacks:
  assumes "inv c"
  shows "inv (MaybeSendUdpNackRequests now c)"
proof (cases "\<not> cc_udp_nack_enabled (sc_config c) \<or> cc_udp_nack_max_requests_per_packet (sc_config c) = 0")
  case True
  then show ?thesis using assms by (simp add: MaybeSendUdpNackRequests_def)
next
  case False
  obtain c' as' where n: "nack_loop now (sc_udp_assemblies c) c = (c', as')" by fastforce
  have l: "view c' = view c" "map fst as' = map fst (sc_udp_assemblies c)" "\<forall>(s, a)\<in>set as'. A s a"
    using nack_loop_inv [OF _ _ n] assms by (auto simp: receiver_inv_def)
  have "om_ok as'" using l(2) assms by (simp add: om_ok_def receiver_inv_def)
  then show ?thesis
    using False n l(1,3) assms by (simp add: MaybeSendUdpNackRequests_def receiver_inv_def view_def)
qed

lemma inv_finalize:
  assumes "inv c" "A s a" "FinalizeCompletedUdpFrame s a now defer c = (c', r)"
  shows "inv c'" "r = Some f \<Longrightarrow> M f"
proof -
  have "inv c' \<and> (\<forall>f. r = Some f \<longrightarrow> M f)"
  proof (cases "ua_received_fragment_count a = length (ua_received_fragments a)")
    case False
    then show ?thesis using assms by (simp add: FinalizeCompletedUdpFrame_def)
  next
    case True
    define fr where "fr = completed_udp_frame (sc_config c) a now"
    define c1 where "c1 = RememberCompletedUdpFrameSequence s
        (OnCompletedUdpFrame fr now (upd_stats (\<lambda>s. s\<lparr>us_completed_frames := us_completed_frames s + 1\<rparr>) c))"
    define c2 where "c2 = c1\<lparr>sc_udp_test_dropped_fragments := om_erase s (sc_udp_test_dropped_fragments c1),
        sc_udp_assemblies := om_erase s (sc_udp_assemblies c1)\<rparr>"
    have cfg: "sc_config c = cfg" using assms(1) by (simp add: receiver_inv_def)
    have M: "M fr" using completed [OF assms(2) True] by (simp add: fr_def cfg)
    have "view c1 = view c" by (simp add: c1_def)
    then have i1: "inv c1" using assms(1) receiver_inv_cong by blast
    then have i2: "inv c2"
      using set_om_erase [of s "sc_udp_assemblies c1"] by (auto simp: c2_def receiver_inv_def)
    have run: "(c', r) = (if \<not> cc_udp_jitter_buffer_enabled (sc_config c2) then (c2, Some fr)
           else if defer then (BufferCompletedUdpFrame fr c2, None)
             else TryPopReadyUdpFrame now (MaybeSendUdpNackRequests now (BufferCompletedUdpFrame fr c2)))"
      unfolding assms(3) [symmetric] using True by (simp add: FinalizeCompletedUdpFrame_def Let_def fr_def c1_def c2_def)
    have i3: "inv (BufferCompletedUdpFrame fr c2)" by (rule receiver_inv_Buffer [OF i2 M])
    obtain c4 r4 where t: "TryPopReadyUdpFrame now (MaybeSendUdpNackRequests now (BufferCompletedUdpFrame fr c2)) = (c4, r4)"
      by fastforce
    have "inv c4" "\<And>f. r4 = Some f \<Longrightarrow> M f" using receiver_inv_TryPop [OF inv_nacks [OF i3] t] by blast+
    then show ?thesis using run [unfolded t] i2 M i3 by (simp split: if_splits)
  qed
  then show "inv c'" "r = Some f \<Longrightarrow> M f" by auto
qed

lemma inv_assembly_for:
  assumes "inv c" "D d" "parse_fragment d = Some (h, fh, p)"
  shows "A (fh_frame_sequence fh) (assembly_for cfg h fh now (om_find (fh_frame_sequence fh) (sc_udp_assemblies c)))"
proof (cases "om_find (fh_frame_sequence fh) (sc_udp_assemblies c)")
  case None
  then show ?thesis using started [OF assms(2,3)] by (simp add: assembly_for_def UdpFrameAssembly_new_def)
next
  case (Some a)
  then show ?thesis using receiver_inv_find [OF assms(1) Some] nonempty by (auto simp: assembly_for_def)
qed

lemma stored:
  assumes "D d" "parse_fragment d = Some (h, fh, p)" "A (fh_frame_sequence fh) a" "fits fh a" "sc_config c = cfg"
  shows "A (fh_frame_sequence fh) (snd (store_fragment fh p now a c))"
proof -
  have role: "fh_fragment_role fh = UdpFragmentRole_code kXorParity \<or> fh_fragment_role fh = UdpFragmentRole_code kData"
  proof -
    have "fh_fragment_role fh \<le> 1" using assms(2) by (auto simp: parse_fragment_def Let_def not_less split: if_splits)
    then have "unat (fh_fragment_role fh) \<le> 1" by (simp add: word_le_nat_alt)
    then have "unat (fh_fragment_role fh) = 0 \<or> unat (fh_fragment_role fh) = 1" by linarith
    then have "fh_fragment_role fh = 0 \<or> fh_fragment_role fh = 1" by (auto simp: word_eq_iff_unsigned [where ?'a = nat])
    then show ?thesis by auto
  qed
  then show ?thesis
    using parity_stored [OF assms(1-4)] data_stored [OF assms(1-4)] assms(3,5) by (auto simp: store_fragment_snd)
qed

lemma inv_accept:
  assumes "inv c" "D d" "parse_fragment d = Some (h, fh, p)" "accept_fragment h fh p now defer c = (c', r)"
  shows "inv c' \<and> (\<forall>f. r = Some f \<longrightarrow> M f)"
proof -
  let ?s = "fh_frame_sequence fh"
  let ?a = "assembly_for cfg h fh now (om_find ?s (sc_udp_assemblies c))"
  have cfg: "sc_config c = cfg" using assms(1) by (simp add: receiver_inv_def)
  have Aa: "A ?s ?a" by (rule inv_assembly_for [OF assms(1-3)])
  show ?thesis
  proof (cases "fits fh ?a")
    case False
    then have "c' = give_up_frame ?s ?a c" "r = None" using assms(4) cfg by (simp_all add: accept_fragment_def Let_def)
    then show ?thesis using receiver_inv_erase [OF assms(1)] by simp
  next
    case True
    obtain c3 a3 where st: "store_fragment fh p now ?a c = (c3, a3)" by fastforce
    have A3: "A ?s a3" using stored [OF assms(2,3) Aa True cfg, of now] st by simp
    have i3: "inv c3" using receiver_inv_simps(6) [of cfg A M fh p now ?a c] assms(1) st by simp
    obtain c4 a4 rec where fe: "(if fh_fragment_role fh = UdpFragmentRole_code kData \<and>
        ua_received_fragment_count a3 < length (ua_received_fragments a3) then MaybeRecoverWithUdpFec a3 c3 else (c3, a3, False)) = (c4, a4, rec)"
      by (metis prod_cases3)
    have A4: "A ?s a4 \<and> inv c4"
    proof (cases "fh_fragment_role fh = UdpFragmentRole_code kData \<and> ua_received_fragment_count a3 < length (ua_received_fragments a3)")
      case True
      have "c4 = fst (MaybeRecoverWithUdpFec a3 c3)" using fe True by simp
      then have "inv c4" using i3 by simp
      moreover have "sc_config c3 = cfg" using i3 by (simp add: receiver_inv_def)
      ultimately show ?thesis
        using fe True A3 recovered [OF A3] by (auto simp: MaybeRecoverWithUdpFec_def split: if_splits option.splits)
    next
      case False
      then show ?thesis using fe A3 i3 by auto
    qed
    have i5: "inv (c4\<lparr>sc_udp_assemblies := om_put ?s a4 (sc_udp_assemblies c4)\<rparr>)"
      using A4 receiver_inv_put by blast
    show ?thesis
      using assms(4) True st fe A4 i5 inv_finalize [OF i5 conjunct1 [OF A4]]
      by (auto simp: accept_fragment_def cfg Let_def split: if_splits)
  qed
qed

lemma inv_process:
  assumes "inv c" "D d" "ProcessUdpDatagram d now defer c = (c', r)"
  shows "inv c' \<and> (\<forall>f. r = Some f \<longrightarrow> M f)"
proof -
  define c1 where "c1 = PruneExpiredUdpAssemblies now
      (upd_stats (\<lambda>s. s\<lparr>us_datagrams_received := us_datagrams_received s + 1\<rparr>) c)"
  have i1: "inv c1" using assms(1) unfolding c1_def by (intro receiver_inv_prune) simp
  show ?thesis
  proof (cases "parse_fragment d")
    case None
    then show ?thesis using assms(3) i1 by (auto simp: ProcessUdpDatagram_def c1_def [symmetric] Let_def)
  next
    case (Some x)
    obtain h fh p where x: "x = (h, fh, p)" by (cases x) auto
    obtain c2 lost where inj: "ShouldInjectUdpLoss fh c1 = (c2, lost)" by fastforce
    have i2: "inv c2" using i1 receiver_inv_simps(4) [of cfg A M fh c1] inj by simp
    obtain c3 r3 where acc: "accept_fragment h fh p now defer c2 = (c3, r3)" by fastforce
    show ?thesis
      using assms(3) inj i2 acc inv_accept [OF i2 assms(2) Some [unfolded x] acc] Some x
      by (auto simp: ProcessUdpDatagram_def c1_def [symmetric] Let_def split: if_splits)
  qed
qed

lemma inv_recover_loop:
  "inv c \<Longrightarrow> \<forall>(s, a)\<in>set as. A s a \<Longrightarrow> inv (fst (recover_loop as c))"
proof (induction as arbitrary: c)
  case (Cons e as)
  obtain s a where e: "e = (s, a)" by fastforce
  obtain c1 a1 rec where r: "MaybeRecoverWithUdpFec a c = (c1, a1, rec)" by (metis prod_cases3)
  have "inv c1" using receiver_inv_simps(5) [of cfg A M a c] r Cons.prems(1) by simp
  moreover have "A s a1"
    using r Cons.prems e recovered [of s a] by (auto simp: MaybeRecoverWithUdpFec_def receiver_inv_def split: if_splits option.splits)
  ultimately have "inv (c1\<lparr>sc_udp_assemblies := om_put s a1 (sc_udp_assemblies c1)\<rparr>)" by (rule receiver_inv_put)
  moreover have "\<forall>(s, a)\<in>set as. A s a" using Cons.prems(2) by simp
  ultimately show ?case using Cons.IH Cons.prems(1) by (simp add: e r split_beta)
qed simp

lemma inv_finalize_loop:
  "inv c \<Longrightarrow> finalize_loop ss now defer c = (c', r) \<Longrightarrow> inv c' \<and> (\<forall>f. r = Some f \<longrightarrow> M f)"
proof (induction ss arbitrary: c)
  case (Cons s ss)
  show ?case
  proof (cases "om_find s (sc_udp_assemblies c)")
    case None
    then show ?thesis using Cons by simp
  next
    case (Some a)
    obtain c1 r1 where f: "FinalizeCompletedUdpFrame s a now defer c = (c1, r1)" by fastforce
    note i = inv_finalize [OF Cons.prems(1) receiver_inv_find [OF Cons.prems(1) Some] f]
    show ?thesis using Cons Some f i by (cases r1) (auto split: if_splits)
  qed
qed simp

lemma inv_recoverable:
  assumes "inv c" "FinalizeRecoverableUdpFecFrames now defer c = (c', r)"
  shows "inv c' \<and> (\<forall>f. r = Some f \<longrightarrow> M f)"
proof -
  obtain c1 ss where l: "recover_loop (sc_udp_assemblies c) c = (c1, ss)" by fastforce
  have "\<forall>(s, a)\<in>set (sc_udp_assemblies c). A s a" using assms(1) by (simp add: receiver_inv_def)
  then have i1: "inv c1" using inv_recover_loop [OF assms(1)] l by (metis fst_conv)
  obtain c2 r2 where f: "finalize_loop ss now defer c1 = (c2, r2)" by fastforce
  show ?thesis
    using assms(2) l f inv_finalize_loop [OF i1 f] by (auto simp: FinalizeRecoverableUdpFecFrames_def)
qed

lemma inv_drain:
  "inv c \<Longrightarrow> \<forall>d. Received d \<in> set rs \<longrightarrow> D d \<Longrightarrow> drain_socket rs any c = (rs', any', c', r) \<Longrightarrow>
     inv c' \<and> set rs' \<subseteq> set rs \<and> (\<forall>f. r = Some (Frame f) \<longrightarrow> M f)"
proof (induction rs arbitrary: any c)
  case (Cons x rs)
  show ?case
  proof (cases "sc_running c")
    case False
    then show ?thesis using Cons.prems by auto
  next
    case True
    have Ds: "\<forall>d. Received d \<in> set rs \<longrightarrow> D d" using Cons.prems(2) by simp
    show ?thesis
    proof (cases x)
      case (Received d)
      show ?thesis
      proof (cases "d = []")
        case True
        then show ?thesis using Cons.prems \<open>sc_running c\<close> Received by auto
      next
        case False
        obtain c1 t where n: "MonotonicNowNs c = (c1, t)" by fastforce
        obtain c2 r2 where p: "ProcessUdpDatagram d t True c1 = (c2, r2)" by fastforce
        have i1: "inv c1" using receiver_inv_simps(3) [of cfg A M c] n Cons.prems(1) by simp
        have "D d" using Cons.prems(2) Received by simp
        note i2 = inv_process [OF i1 this p]
        show ?thesis
        proof (cases r2)
          case None
          then have "drain_socket rs True c2 = (rs', any', c', r)"
            using Cons.prems(3) \<open>sc_running c\<close> Received False n p by simp
          then show ?thesis using Cons.IH [OF _ Ds] i2 by auto
        next
          case (Some f)
          then show ?thesis using Cons.prems(3) \<open>sc_running c\<close> Received False n p i2 by auto
        qed
      qed
    next
      case RecvInterrupted
      then have "drain_socket rs any c = (rs', any', c', r)" using Cons.prems(3) True by simp
      then show ?thesis using Cons.IH [OF Cons.prems(1) Ds] by auto
    qed (use Cons.prems True in auto)
  qed
qed auto

lemma inv_maintain:
  assumes "inv c" "maintain now c = (c', r)"
  shows "inv c' \<and> (\<forall>f. r = Some f \<longrightarrow> M f)"
proof -
  let ?c = "PruneExpiredUdpAssemblies now c"
  obtain c1 r1 where f: "FinalizeRecoverableUdpFecFrames now False ?c = (c1, r1)" by fastforce
  note i1 = inv_recoverable [OF receiver_inv_prune [OF assms(1)] f]
  show ?thesis
  proof (cases r1)
    case None
    then have "TryPopReadyUdpFrame now (MaybeSendUdpNackRequests now c1) = (c', r)"
      using assms(2) f by (simp add: maintain_def)
    then show ?thesis using receiver_inv_TryPop [OF inv_nacks [OF conjunct1 [OF i1]]] by blast
  next
    case (Some fr)
    then show ?thesis using assms(2) f i1 by (simp add: maintain_def)
  qed
qed

lemma inv_blocking:
  assumes "inv c" "\<forall>d. Received d \<in> set rs \<longrightarrow> D d" "blocking_receive rs c = (rs', c', r)"
  shows "inv c' \<and> set rs' \<subseteq> set rs \<and> (\<forall>f. r = Some (Frame f) \<longrightarrow> M f)"
proof (cases rs)
  case Nil
  then show ?thesis using assms by auto
next
  case (Cons x xs)
  show ?thesis
  proof (cases x)
    case (Received d)
    obtain c1 t where n: "MonotonicNowNs c = (c1, t)" by fastforce
    obtain c2 r2 where p: "ProcessUdpDatagram d t False c1 = (c2, r2)" by fastforce
    have i1: "inv c1" using receiver_inv_simps(3) [of cfg A M c] n assms(1) by simp
    have "D d" using assms(2) Received Cons by simp
    note i2 = inv_process [OF i1 this p]
    show ?thesis using assms Cons Received n p i2 by (cases r2) (auto split: if_splits)
  qed (use assms Cons in auto)
qed

lemma inv_iteration:
  assumes "inv c" "\<forall>d. Received d \<in> set rs \<longrightarrow> D d" "receive_iteration rs c = (rs', c', r)"
  shows "inv c' \<and> set rs' \<subseteq> set rs \<and> (\<forall>f. r = Some (Frame f) \<longrightarrow> M f)"
proof -
  obtain c1 t1 where n1: "MonotonicNowNs c = (c1, t1)" by fastforce
  obtain c2 f2 where p2: "TryPopReadyUdpFrame t1 c1 = (c2, f2)" by fastforce
  obtain rs3 any c3 o3 where d3: "drain_socket rs False c2 = (rs3, any, c3, o3)" by (metis prod_cases4)
  obtain c4 t4 where n4: "MonotonicNowNs c3 = (c4, t4)" by fastforce
  obtain c5 f5 where p5: "FinalizeRecoverableUdpFecFrames t4 True c4 = (c5, f5)" by fastforce
  obtain c6 f6 where p6: "TryPopReadyUdpFrame t4 c5 = (c6, f6)" by fastforce
  obtain c7 f7 where p7: "maintain t4 c6 = (c7, f7)" by fastforce
  obtain rs8 c8 o8 where b8: "blocking_receive rs3 c7 = (rs8, c8, o8)" by (metis prod_cases3)
  have i1: "inv c1" using receiver_inv_simps(3) [of cfg A M c] n1 assms(1) by simp
  have i2: "inv c2" "f2 = Some f \<Longrightarrow> M f" for f using receiver_inv_TryPop [OF i1 p2] by blast+
  have i3: "inv c3" "set rs3 \<subseteq> set rs" "o3 = Some (Frame f) \<Longrightarrow> M f" for f
    using inv_drain [OF i2(1) assms(2) d3] by blast+
  have i4: "inv c4" using receiver_inv_simps(3) [of cfg A M c3] n4 i3(1) by simp
  have i5: "inv c5" "f5 = Some f \<Longrightarrow> M f" for f using inv_recoverable [OF i4 p5] by blast+
  have i6: "inv c6" "f6 = Some f \<Longrightarrow> M f" for f using receiver_inv_TryPop [OF i5(1) p6] by blast+
  have i7: "inv c7" "f7 = Some f \<Longrightarrow> M f" for f using inv_maintain [OF i6(1) p7] by blast+
  have "\<forall>d. Received d \<in> set rs3 \<longrightarrow> D d" using assms(2) i3(2) by blast
  then have i8: "inv c8" "set rs8 \<subseteq> set rs" "o8 = Some (Frame f) \<Longrightarrow> M f" for f
    using inv_blocking [OF i7(1) _ b8] i3(2) by blast+
  have run: "(rs', c', r) =
      (if f2 \<noteq> None then (rs, c2, map_option Frame f2) else if o3 \<noteq> None then (rs3, c3, o3)
       else if f5 \<noteq> None then (rs3, c5, map_option Frame f5) else if f6 \<noteq> None then (rs3, c6, map_option Frame f6)
       else if any then (rs3, c6, None) else if f7 \<noteq> None then (rs3, c7, map_option Frame f7) else (rs8, c8, o8))"
    unfolding assms(3) [symmetric] by (simp only: receive_iteration_def n1 p2 d3 n4 p5 p6 p7 b8 Let_def prod.case)
  show ?thesis
    using run i2 i3 i5 i6 i7 i8 by (auto split: if_splits)
qed

lemma receive_inv:
  "inv c \<Longrightarrow> \<forall>d. Received d \<in> set rs \<longrightarrow> D d \<Longrightarrow> ReceiveUdpFrame rs c = (c', r) \<Longrightarrow>
     inv c' \<and> (\<forall>f. r = Frame f \<longrightarrow> M f)"
proof (induction "length rs" arbitrary: rs c rule: less_induct)
  case less
  show ?case
  proof (cases "sc_running c")
    case False
    then show ?thesis using less.prems by (auto simp: ReceiveUdpFrame.simps [of rs])
  next
    case True
    obtain rs1 c1 r1 where it: "receive_iteration rs c = (rs1, c1, r1)" by (metis prod_cases3)
    note i = inv_iteration [OF less.prems(1,2) it]
    show ?thesis
    proof (cases r1)
      case None
      then have "ReceiveUdpFrame rs1 c1 = (c', r)" using less.prems(3) True it by (simp add: ReceiveUdpFrame.simps [of rs])
      moreover have "length rs1 < length rs" using receive_iteration_shorter it None by blast
      moreover have "\<forall>d. Received d \<in> set rs1 \<longrightarrow> D d" using less.prems(2) i by blast
      ultimately show ?thesis using less.hyps i by blast
    next
      case (Some x)
      then show ?thesis using less.prems(3) True it i by (simp add: ReceiveUdpFrame.simps [of rs])
    qed
  qed
qed

end

subsection \<open>Well-formed assemblies\<close>

text \<open>What every access to an assembly relies on: the three arrays have one entry per fragment, the
  counter counts the received fragments, and received fragments lie inside the payload. NACK
  requests are repeated no more often than configured.\<close>

definition received_count :: "bool list \<Rightarrow> nat" where
  "received_count received = length (filter (\<lambda>x. x) received)"

lemma received_count_update: "i < length xs \<Longrightarrow> \<not> xs ! i \<Longrightarrow> received_count (xs[i := True]) = Suc (received_count xs)"
  by (induction xs arbitrary: i) (auto simp: received_count_def nth_Cons split: nat.splits)

lemma received_count_all: "received_count xs = length xs \<longleftrightarrow> (\<forall>i<length xs. xs ! i)"
proof
  show "\<forall>i<length xs. xs ! i" if c: "received_count xs = length xs"
  proof (rule ccontr)
    assume "\<not> (\<forall>i<length xs. xs ! i)"
    then obtain i where "i < length xs" "\<not> xs ! i" by blast
    then have "received_count xs < length xs"
      unfolding received_count_def by (intro length_filter_less [of False]) (auto simp: in_set_conv_nth)
    then show False using c by simp
  qed
  show "received_count xs = length xs" if "\<forall>i<length xs. xs ! i"
    using that by (simp add: received_count_def filter_id_conv all_set_conv_all_nth)
qed

lemma received_count_le: "received_count xs \<le> length xs"
  by (simp add: received_count_def)

lemma received_count_replicate [simp]: "received_count (replicate n False) = 0"
  by (simp add: received_count_def)

definition assembly_wf :: "ClientConfig \<Rightarrow> UdpFrameAssembly \<Rightarrow> bool" where
  "assembly_wf cfg a \<longleftrightarrow>
     ua_received_fragments a \<noteq> [] \<and>
     length (ua_fragment_offsets a) = length (ua_received_fragments a) \<and>
     length (ua_fragment_payload_sizes a) = length (ua_received_fragments a) \<and>
     ua_received_fragment_count a = received_count (ua_received_fragments a) \<and>
     (\<forall>i<length (ua_received_fragments a). ua_received_fragments a ! i \<longrightarrow>
        unat (ua_fragment_offsets a ! i) + unat (ua_fragment_payload_sizes a ! i) \<le> length (ua_payload a)) \<and>
     ua_nack_attempts a \<le> max 0 (cc_udp_nack_max_retries cfg)"

lemma only_missing_Some:
  assumes "only_missing received = Some k"
  shows "k < length received" "\<not> received ! k" "\<forall>i<length received. i \<noteq> k \<longrightarrow> received ! i"
proof -
  have f: "filter (\<lambda>i. \<not> received ! i) [0..<length received] = [k]"
    using assms by (auto simp: only_missing_def split: list.splits)
  have s: "{i. i < length received \<and> \<not> received ! i} = {k}"
    using arg_cong [OF f, of set] by (auto simp: set_filter)
  show "k < length received" "\<not> received ! k" "\<forall>i<length received. i \<noteq> k \<longrightarrow> received ! i" using s by blast+
qed

lemma recover_fragment_Some:
  assumes "recover_fragment a = Some a'"
  obtains k n recovered where "only_missing (ua_received_fragments a) = Some k" "missing_size a k = Some n" "n \<noteq> 0"
    "unat n \<le> length (ua_fec_payload a)" "unat (missing_offset a k) + unat n \<le> length (ua_payload a)"
    "xor_received a [0..<length (ua_received_fragments a)] (ua_fec_payload a) = Some recovered"
    "a' = a\<lparr>ua_payload := write_at (unat (missing_offset a k)) (take (unat n) recovered) (ua_payload a),
            ua_received_fragments := (ua_received_fragments a)[k := True],
            ua_fragment_offsets := (ua_fragment_offsets a)[k := missing_offset a k],
            ua_fragment_payload_sizes := (ua_fragment_payload_sizes a)[k := n],
            ua_received_fragment_count := ua_received_fragment_count a + 1\<rparr>"
  using assms by (auto simp: recover_fragment_def Let_def not_le split: option.splits if_splits)

lemma parse_fragment_Some:
  assumes "parse_fragment d = Some (h, fh, p)"
  shows "0 < unat (fh_fragment_count fh)"
    "fh_fragment_role fh = UdpFragmentRole_code kData \<Longrightarrow> unat (fh_fragment_index fh) < unat (fh_fragment_count fh)"
    "fh_fragment_role fh = UdpFragmentRole_code kData \<Longrightarrow>
       unat (fh_fragment_offset fh) + length p \<le> unat (fh_frame_payload_size fh)"
  using assms by (auto simp: parse_fragment_def Let_def not_less not_le unat_gt_0 word_less_nat_alt split: if_splits)

interpretation wf: assembly_contract cfg "\<lambda>s a. assembly_wf cfg a" "\<lambda>f. True" "\<lambda>d. True" for cfg
proof unfold_locales
  fix s now a
  assume "assembly_wf cfg a" "nack_due cfg now a"
  then show "assembly_wf cfg (a\<lparr>ua_last_nack_timestamp_ns := now, ua_nack_attempts := ua_nack_attempts a + 1\<rparr>)"
    unfolding assembly_wf_def nack_due_def by (elim conjE, intro conjI) (simp_all, linarith)
next
  fix s a a'
  assume wf: "assembly_wf cfg a" and "recover_fragment a = Some a'"
  then obtain k n recovered where r: "only_missing (ua_received_fragments a) = Some k"
    "unat (missing_offset a k) + unat n \<le> length (ua_payload a)"
    "a' = a\<lparr>ua_payload := write_at (unat (missing_offset a k)) (take (unat n) recovered) (ua_payload a),
            ua_received_fragments := (ua_received_fragments a)[k := True],
            ua_fragment_offsets := (ua_fragment_offsets a)[k := missing_offset a k],
            ua_fragment_payload_sizes := (ua_fragment_payload_sizes a)[k := n],
            ua_received_fragment_count := ua_received_fragment_count a + 1\<rparr>"
    using recover_fragment_Some by metis
  have "unat (missing_offset a k) + length (take (unat n) recovered) \<le> length (ua_payload a)" using r(2) by simp
  then show "assembly_wf cfg a'"
    using wf r only_missing_Some [OF r(1)] by (auto simp: assembly_wf_def received_count_update nth_list_update)
next
  fix d h fh p now
  assume "parse_fragment d = Some (h, fh, p)"
  then show "assembly_wf cfg (start_assembly cfg h fh now UdpFrameAssembly_new)"
    using parse_fragment_Some(1) [of d h fh p] by (simp add: assembly_wf_def start_assembly_def UdpFrameAssembly_new_def Let_def)
next
  fix s a
  assume "assembly_wf cfg a"
  then show "ua_received_fragments a \<noteq> []" by (simp add: assembly_wf_def)
next
  fix d h fh p a now
  assume "assembly_wf cfg a"
  then show "assembly_wf cfg ((if cc_udp_fec_enabled cfg then store_parity p now a else a)\<lparr>ua_last_fragment_timestamp_ns := now\<rparr>)"
    by (simp add: assembly_wf_def store_parity_def)
next
  fix d h fh p a now
  assume p: "parse_fragment d = Some (h, fh, p)" and wf: "assembly_wf cfg a" and fits: "fits fh a"
    and role: "fh_fragment_role fh = UdpFragmentRole_code kData" and new: "\<not> ua_received_fragments a ! unat (fh_fragment_index fh)"
  have o: "unat (fh_fragment_offset fh) + length p \<le> length (ua_payload a)"
    "unat (fh_fragment_index fh) < length (ua_received_fragments a)"
    using parse_fragment_Some(2,3) [OF p role] fits by (simp_all add: fits_def)
  have "length (ua_payload a) < 2 ^ 32" using fits unsigned_less [of "fh_frame_payload_size fh"] by (simp add: fits_def)
  then have "unat (of_nat (length p) :: u32) = length p" using o(1) by (intro unat_of_nat_small) simp
  then show "assembly_wf cfg (store_data fh p now a)"
    using wf o new by (auto simp: assembly_wf_def store_data_def Let_def received_count_update nth_list_update)
qed simp

definition receiver_wf :: "StreamClient \<Rightarrow> bool" where
  "receiver_wf c \<longleftrightarrow> om_ok (sc_udp_assemblies c) \<and> om_ok (sc_udp_jitter_buffer c) \<and>
     (\<forall>(s, a)\<in>set (sc_udp_assemblies c). assembly_wf (sc_config c) a)"

lemma receiver_wf_inv: "receiver_wf c \<longleftrightarrow> receiver_inv (sc_config c) (\<lambda>s a. assembly_wf (sc_config c) a) (\<lambda>f. True) c"
  by (auto simp: receiver_wf_def receiver_inv_def)



end
