(* ===== verification/Server_Config.thy ===== *)
theory Server_Config
  imports AV_Prelude
begin

section \<open>The configuration of the server\<close>

text \<open>
  \<^verbatim>\<open>sserver/src/config/AppConfig.h\<close>: the configuration structs with their default values, and
  \<^verbatim>\<open>sserver/src/core/ModuleState.h\<close>, the states of a module. An \<^verbatim>\<open>int\<close> of the
  configuration is an \<open>int\<close>, a \<^verbatim>\<open>size_t\<close> is a \<open>nat\<close>.
\<close>

datatype ModuleState = kCreated | kInitialized | kRunning | kStopped | kShutdown | kFailed

record RuntimeConfig =
  rt_shutdown_grace_period_ms :: int
  rt_latency_log_interval_frames :: int

record CaptureConfig =
  cp_enabled :: bool
  cp_source :: string
  cp_device :: string
  cp_width :: int
  cp_height :: int
  cp_fps :: int
  cp_frame_interval_ms :: int
  cp_device_buffer_count :: int
  cp_null_payload_bytes :: nat
  cp_null_payload_mode :: string

record TransportConfig =
  tc_enabled :: bool
  tc_backend :: string
  tc_bind_address :: string
  tc_listen_port :: int
  tc_max_pending_frames :: nat
  tc_max_queue_wait_ms :: int
  tc_queue_drop_policy :: string
  tc_accept_loop_interval_ms :: int
  tc_enable_nodelay :: bool
  tc_embed_frame_metadata :: bool
  tc_udp_client_timeout_ms :: int
  tc_udp_max_datagram_size :: nat
  tc_udp_target_payload_size :: nat
  tc_udp_receive_buffer_bytes :: int
  tc_udp_send_buffer_bytes :: int
  tc_udp_enable_nack :: bool
  tc_udp_enable_fec :: bool
  tc_udp_retransmit_cache_frames :: nat
  tc_udp_retransmit_cache_max_age_ms :: int
  tc_udp_retransmit_max_fragments_per_request :: nat
  tc_rtp_remote_host :: string
  tc_rtp_remote_port :: int
  tc_rtp_payload_type :: int
  tc_rtp_clock_rate :: int
  tc_rtp_ssrc :: int
  tc_rtp_max_payload_size :: nat
  tc_rtp_enable_latency_extension :: bool
  tc_rtp_sdp_path :: string

record CodecConfig =
  cd_backend :: string
  cd_x264_preset :: string
  cd_x264_tune :: string
  cd_x264_profile :: string
  cd_x264_annexb :: bool
  cd_x264_repeat_headers :: bool
  cd_x264_keyint_max :: int
  cd_x264_keyint_min :: int
  cd_x264_bframes :: int
  cd_x264_threads :: int
  cd_x264_sliced_threads :: bool
  cd_x264_slice_count :: int
  cd_x264_slice_count_max :: int
  cd_x264_frame_reference :: int
  cd_x264_lookahead :: int
  cd_x264_sync_lookahead :: int
  cd_x264_subpel_refine :: int
  cd_x264_mb_tree :: bool
  cd_x264_scenecut :: int

record AppConfig =
  ac_app_name :: string
  ac_runtime :: RuntimeConfig
  ac_capture :: CaptureConfig
  ac_transport :: TransportConfig
  ac_codec :: CodecConfig

definition RuntimeConfig_default :: RuntimeConfig where
  "RuntimeConfig_default = \<lparr>rt_shutdown_grace_period_ms = 500, rt_latency_log_interval_frames = 120\<rparr>"

definition CaptureConfig_default :: CaptureConfig where
  "CaptureConfig_default =
     \<lparr>cp_enabled = True, cp_source = ''v4l2'', cp_device = ''/dev/video0'', cp_width = 640,
      cp_height = 360, cp_fps = 30, cp_frame_interval_ms = 0, cp_device_buffer_count = 2,
      cp_null_payload_bytes = 0, cp_null_payload_mode = ''text''\<rparr>"

definition TransportConfig_default :: TransportConfig where
  "TransportConfig_default =
     \<lparr>tc_enabled = True, tc_backend = ''tcp'', tc_bind_address = ''0.0.0.0'', tc_listen_port = 9999,
      tc_max_pending_frames = 3, tc_max_queue_wait_ms = 50,
      tc_queue_drop_policy = ''drop_oldest_non_key'', tc_accept_loop_interval_ms = 5,
      tc_enable_nodelay = True, tc_embed_frame_metadata = False, tc_udp_client_timeout_ms = 5000,
      tc_udp_max_datagram_size = 65507, tc_udp_target_payload_size = 65000,
      tc_udp_receive_buffer_bytes = 4 * 1024 * 1024, tc_udp_send_buffer_bytes = 4 * 1024 * 1024,
      tc_udp_enable_nack = False, tc_udp_enable_fec = False, tc_udp_retransmit_cache_frames = 32,
      tc_udp_retransmit_cache_max_age_ms = 500, tc_udp_retransmit_max_fragments_per_request = 16,
      tc_rtp_remote_host = ''127.0.0.1'', tc_rtp_remote_port = 5004, tc_rtp_payload_type = 96,
      tc_rtp_clock_rate = 90000, tc_rtp_ssrc = 305419896, tc_rtp_max_payload_size = 1200,
      tc_rtp_enable_latency_extension = True, tc_rtp_sdp_path = ''sserver_rtp.sdp''\<rparr>"

definition CodecConfig_default :: CodecConfig where
  "CodecConfig_default =
     \<lparr>cd_backend = ''x264'', cd_x264_preset = ''ultrafast'', cd_x264_tune = ''zerolatency'',
      cd_x264_profile = ''baseline'', cd_x264_annexb = True, cd_x264_repeat_headers = True,
      cd_x264_keyint_max = 30, cd_x264_keyint_min = 30, cd_x264_bframes = 0, cd_x264_threads = 1,
      cd_x264_sliced_threads = True, cd_x264_slice_count = 1, cd_x264_slice_count_max = 1,
      cd_x264_frame_reference = 1, cd_x264_lookahead = 0, cd_x264_sync_lookahead = 0,
      cd_x264_subpel_refine = 0, cd_x264_mb_tree = False, cd_x264_scenecut = 0\<rparr>"

definition CreateDefault :: AppConfig where
  "CreateDefault =
     \<lparr>ac_app_name = ''sserver'', ac_runtime = RuntimeConfig_default, ac_capture = CaptureConfig_default,
      ac_transport = TransportConfig_default, ac_codec = CodecConfig_default\<rparr>"

end
