(* ===== verification/Udp_Sender.thy ===== *)
theory Udp_Sender
  imports Server_Config Frames Stream_Protocol Xor_Parity Latency Sockets
begin

section \<open>The UDP backend of the server\<close>

text \<open>
  \<^verbatim>\<open>sserver/src/modules/transport/udp/UdpStreamingBackend.cpp\<close>: a frame is cut into fragments,
  each a datagram of its own, optionally followed by an XOR parity datagram and kept in a
  retransmission cache; the receive thread registers clients by their keep-alive messages and
  answers NACK requests from the cache. The object is the record \<open>UdpStreamingBackend\<close>; the reused
  buffer \<^verbatim>\<open>send_datagram_\<close> is overwritten before each use, the mutexes make every access to
  clients and cache atomic, and log output is left out.

  The world outside is \<open>UdpEnv\<close>: the n-th reading of the clock, the result of the n-th
  \<^verbatim>\<open>sendto\<close> (of a datagram) or \<^verbatim>\<open>sendmmsg\<close> (of a number of messages), and the log of the datagrams the kernel accepted.
\<close>

subsection \<open>State\<close>

record UdpClientEndpoint =
  ep_address :: Sockaddr
  ep_last_seen_ns :: u64
  ep_latest_report :: "UdpReceiverReport option"
  ep_latest_report_timestamp_ns :: u64
  ep_has_report :: bool

record CachedUdpFragment =
  cg_fragment_index :: u16
  cg_datagram_size :: nat
  cg_datagram :: bytes

record CachedUdpFrame =
  cf_frame_sequence :: u64
  cf_cached_timestamp_ns :: u64
  cf_fragments :: "CachedUdpFragment list"

record UdpEnv =
  ue_clock :: "nat \<Rightarrow> u64"
  ue_clock_reads :: nat
  ue_sendto :: "nat \<Rightarrow> bytes \<Rightarrow> int"
  ue_sendmmsg :: "nat \<Rightarrow> nat \<Rightarrow> int"
  ue_send_calls :: nat
  ue_sent :: "(Sockaddr \<times> bytes) list"

record UdpStreamingBackend =
  ub_config :: TransportConfig
  ub_latency_log_interval_frames :: int
  ub_socket_fd :: int
  ub_bound_port :: int
  ub_running :: bool
  ub_clients :: "UdpClientEndpoint list"
  ub_retransmit_cache :: "CachedUdpFrame list"
  ub_send_latency_recorder :: "LatencyRecorder option"
  ub_state :: ModuleState
  ub_sent_frames :: u64
  ub_dropped_fragmented_frames :: u64
  ub_sent_fragments :: u64
  ub_fec_fragments_sent :: u64
  ub_failed_fragments :: u64
  ub_nack_requests_received :: u64
  ub_nack_fragments_requested :: u64
  ub_retransmitted_fragments_sent :: u64
  ub_retransmit_fragment_misses :: u64
  ub_retransmit_fragments_throttled :: u64
  ub_env :: UdpEnv

text \<open>\<open>latest_report\<close> is uninitialised in the code until a report arrived, here \<open>None\<close>.\<close>

definition UdpStreamingBackend_new :: "LatencyRecorder option \<Rightarrow> UdpEnv \<Rightarrow> UdpStreamingBackend" where
  "UdpStreamingBackend_new send_latency_recorder env =
     \<lparr>ub_config = TransportConfig_default, ub_latency_log_interval_frames = 120, ub_socket_fd = - 1,
      ub_bound_port = 0, ub_running = False, ub_clients = [], ub_retransmit_cache = [],
      ub_send_latency_recorder = send_latency_recorder, ub_state = kCreated, ub_sent_frames = 0,
      ub_dropped_fragmented_frames = 0, ub_sent_fragments = 0, ub_fec_fragments_sent = 0,
      ub_failed_fragments = 0, ub_nack_requests_received = 0, ub_nack_fragments_requested = 0,
      ub_retransmitted_fragments_sent = 0, ub_retransmit_fragment_misses = 0,
      ub_retransmit_fragments_throttled = 0, ub_env = env\<rparr>"

definition MonotonicNow :: "UdpStreamingBackend \<Rightarrow> UdpStreamingBackend \<times> u64" where
  "MonotonicNow b =
     (let e = ub_env b in (b\<lparr>ub_env := e\<lparr>ue_clock_reads := Suc (ue_clock_reads e)\<rparr>\<rparr>, ue_clock e (ue_clock_reads e)))"

text \<open>One system call with its result: \<^verbatim>\<open>sendto\<close> returns the bytes sent, \<^verbatim>\<open>sendmmsg\<close>
  the number of messages, of which exactly that many leading ones were sent.\<close>

definition sendto_call :: "Sockaddr \<Rightarrow> bytes \<Rightarrow> UdpStreamingBackend \<Rightarrow> UdpStreamingBackend \<times> bool" where
  "sendto_call address datagram b =
     (let e = ub_env b; ok = (ue_sendto e (ue_send_calls e) datagram = int (length datagram)) in
      (b\<lparr>ub_env := e\<lparr>ue_send_calls := Suc (ue_send_calls e),
           ue_sent := ue_sent e @ (if ok then [(address, datagram)] else [])\<rparr>\<rparr>, ok))"

definition sendmmsg_call :: "Sockaddr list \<Rightarrow> bytes \<Rightarrow> UdpStreamingBackend \<Rightarrow> UdpStreamingBackend \<times> int" where
  "sendmmsg_call clients datagram b =
     (let e = ub_env b; sent_count = ue_sendmmsg e (ue_send_calls e) (length clients) in
      (b\<lparr>ub_env := e\<lparr>ue_send_calls := Suc (ue_send_calls e),
           ue_sent := ue_sent e @ map (\<lambda>a. (a, datagram)) (take (nat sent_count) clients)\<rparr>\<rparr>, sent_count))"

subsection \<open>Clients\<close>

definition SameEndpoint :: "Sockaddr \<Rightarrow> Sockaddr \<Rightarrow> bool" where
  "SameEndpoint lhs rhs \<longleftrightarrow> sin_port lhs = sin_port rhs \<and> sin_addr lhs = sin_addr rhs"

definition udp_client_stale :: "TransportConfig \<Rightarrow> u64 \<Rightarrow> UdpClientEndpoint \<Rightarrow> bool" where
  "udp_client_stale cfg now_ns client \<longleftrightarrow>
     ep_last_seen_ns client < now_ns \<and>
     now_ns - ep_last_seen_ns client > of_int (tc_udp_client_timeout_ms cfg) * 1000 * 1000"

definition PruneStaleClientsLocked :: "u64 \<Rightarrow> UdpStreamingBackend \<Rightarrow> UdpStreamingBackend" where
  "PruneStaleClientsLocked now_ns b =
     b\<lparr>ub_clients := filter (\<lambda>client. \<not> udp_client_stale (ub_config b) now_ns client) (ub_clients b)\<rparr>"

definition SnapshotClients :: "u64 \<Rightarrow> UdpStreamingBackend \<Rightarrow> UdpStreamingBackend \<times> Sockaddr list" where
  "SnapshotClients now_ns b =
     (let b = PruneStaleClientsLocked now_ns b in (b, map ep_address (ub_clients b)))"

definition refresh_client :: "u64 \<Rightarrow> UdpReceiverReport option \<Rightarrow> UdpClientEndpoint \<Rightarrow> UdpClientEndpoint" where
  "refresh_client now_ns report client =
     (let client = client\<lparr>ep_last_seen_ns := now_ns\<rparr> in
      case report of
        None \<Rightarrow> client
      | Some r \<Rightarrow> client\<lparr>ep_latest_report := Some r, ep_latest_report_timestamp_ns := now_ns, ep_has_report := True\<rparr>)"

text \<open>The search loop: the list with the first client of that address refreshed, or \<open>None\<close>.\<close>

fun refresh_first ::
  "Sockaddr \<Rightarrow> u64 \<Rightarrow> UdpReceiverReport option \<Rightarrow> UdpClientEndpoint list \<Rightarrow> UdpClientEndpoint list option" where
  "refresh_first address now_ns report [] = None"
| "refresh_first address now_ns report (client # clients) =
     (if SameEndpoint (ep_address client) address then Some (refresh_client now_ns report client # clients)
      else map_option ((#) client) (refresh_first address now_ns report clients))"

definition RegisterClient ::
  "Sockaddr \<Rightarrow> u64 \<Rightarrow> UdpReceiverReport option \<Rightarrow> UdpStreamingBackend \<Rightarrow> UdpStreamingBackend" where
  "RegisterClient address now_ns report b =
     (let b = PruneStaleClientsLocked now_ns b in
      case refresh_first address now_ns report (ub_clients b) of
        Some clients \<Rightarrow> b\<lparr>ub_clients := clients\<rparr>
      | None \<Rightarrow>
          let endpoint = \<lparr>ep_address = address, ep_last_seen_ns = now_ns, ep_latest_report = report,
                          ep_latest_report_timestamp_ns = (if report = None then 0 else now_ns),
                          ep_has_report = (report \<noteq> None)\<rparr>
          in b\<lparr>ub_clients := ub_clients b @ [endpoint]\<rparr>)"

subsection \<open>The retransmission cache\<close>

fun prune_cache :: "u64 \<Rightarrow> u64 \<Rightarrow> CachedUdpFrame list \<Rightarrow> CachedUdpFrame list" where
  "prune_cache max_age_ns now_ns [] = []"
| "prune_cache max_age_ns now_ns (frame # cache) =
     (if cf_cached_timestamp_ns frame \<le> now_ns \<and> max_age_ns < now_ns - cf_cached_timestamp_ns frame
      then prune_cache max_age_ns now_ns cache else frame # cache)"

definition PruneRetransmitCacheLocked :: "u64 \<Rightarrow> UdpStreamingBackend \<Rightarrow> UdpStreamingBackend" where
  "PruneRetransmitCacheLocked now_ns b =
     (let max_age_ns = of_int (tc_udp_retransmit_cache_max_age_ms (ub_config b)) * 1000 * 1000 in
      b\<lparr>ub_retransmit_cache := prune_cache max_age_ns now_ns (ub_retransmit_cache b)\<rparr>)"

fun evict_oldest :: "nat \<Rightarrow> CachedUdpFrame list \<Rightarrow> CachedUdpFrame list" where
  "evict_oldest limit [] = []"
| "evict_oldest limit (frame # cache) =
     (if limit < length (frame # cache) then evict_oldest limit cache else frame # cache)"

definition CacheFrameFragments :: "CachedUdpFrame \<Rightarrow> UdpStreamingBackend \<Rightarrow> UdpStreamingBackend" where
  "CacheFrameFragments frame b =
     (let (b, now_ns) = MonotonicNow b;
          b = PruneRetransmitCacheLocked now_ns b
      in b\<lparr>ub_retransmit_cache :=
             evict_oldest (tc_udp_retransmit_cache_frames (ub_config b)) (ub_retransmit_cache b @ [frame])\<rparr>)"

subsection \<open>Sending a frame\<close>

abbreviation udp_header_size :: nat where
  "udp_header_size \<equiv> sizeof_MessageHeader + sizeof_UdpFrameFragmentHeader"

definition max_fragment_payload_size :: "TransportConfig \<Rightarrow> nat" where
  "max_fragment_payload_size cfg =
     min (tc_udp_target_payload_size cfg) (tc_udp_max_datagram_size cfg - udp_header_size)"

definition fragment_count_size :: "TransportConfig \<Rightarrow> EncodedFrame \<Rightarrow> nat" where
  "fragment_count_size cfg frame =
     (let m = max_fragment_payload_size cfg in
      if ef_payload frame = [] then 1 else (length (ef_payload frame) + m - 1) div m)"

definition stream_header :: "EncodedFrame \<Rightarrow> nat \<Rightarrow> MessageHeader" where
  "stream_header frame payload_size =
     (FillMessageMagic MessageHeader_zero)
       \<lparr>mh_message_type := MessageType_code kAvStream, mh_sub_type := StreamPayloadType_code (ef_type frame),
        mh_payload_length := of_nat (sizeof_UdpFrameFragmentHeader + payload_size)\<rparr>"

definition fragment_header ::
  "TransportConfig \<Rightarrow> EncodedFrame \<Rightarrow> u64 \<Rightarrow> nat \<Rightarrow> nat \<Rightarrow> u16 \<Rightarrow> UdpFragmentRole \<Rightarrow> UdpFrameFragmentHeader" where
  "fragment_header cfg frame send_ns offset index count role =
     \<lparr>fh_frame_sequence = ef_sequence frame,
      fh_capture_timestamp_ns = (if tc_embed_frame_metadata cfg then ef_capture_timestamp_ns frame else 0),
      fh_encode_start_timestamp_ns = (if tc_embed_frame_metadata cfg then ef_encode_start_timestamp_ns frame else 0),
      fh_encode_end_timestamp_ns = (if tc_embed_frame_metadata cfg then ef_encode_end_timestamp_ns frame else 0),
      fh_transport_send_timestamp_ns = (if tc_embed_frame_metadata cfg then send_ns else 0),
      fh_frame_payload_size = of_nat (length (ef_payload frame)), fh_fragment_offset = of_nat offset,
      fh_fragment_index = of_nat index, fh_fragment_count = count,
      fh_fragment_role = UdpFragmentRole_code role, fh_reserved = 0\<rparr>"

text \<open>The block of the payload a fragment carries, and its datagram.\<close>

definition fragment_block :: "TransportConfig \<Rightarrow> EncodedFrame \<Rightarrow> nat \<Rightarrow> bytes" where
  "fragment_block cfg frame index =
     (let m = max_fragment_payload_size cfg; offset = index * m;
          size = (if ef_payload frame = [] then 0 else min m (length (ef_payload frame) - offset))
      in slice offset size (ef_payload frame))"

definition data_datagram :: "TransportConfig \<Rightarrow> EncodedFrame \<Rightarrow> u64 \<Rightarrow> u16 \<Rightarrow> nat \<Rightarrow> bytes" where
  "data_datagram cfg frame send_ns count index =
     (let block = fragment_block cfg frame index in
      put_MessageHeader (stream_header frame (length block))
      @ put_UdpFrameFragmentHeader
          (fragment_header cfg frame send_ns (index * max_fragment_payload_size cfg) index count kData)
      @ block)"

definition parity_datagram :: "TransportConfig \<Rightarrow> EncodedFrame \<Rightarrow> u64 \<Rightarrow> u16 \<Rightarrow> bytes \<Rightarrow> bytes" where
  "parity_datagram cfg frame send_ns count fec_payload =
     put_MessageHeader (stream_header frame (length fec_payload))
     @ put_UdpFrameFragmentHeader (fragment_header cfg frame send_ns 0 0 count kXorParity)
     @ fec_payload"

text \<open>One datagram to every client: \<^verbatim>\<open>sendmmsg\<close> for several, \<^verbatim>\<open>sendto\<close> for one.\<close>

definition transmit :: "bool \<Rightarrow> Sockaddr list \<Rightarrow> bytes \<Rightarrow> UdpStreamingBackend \<Rightarrow> UdpStreamingBackend \<times> bool" where
  "transmit parity clients datagram b =
     (if 1 < length clients then
        let (b, sent_count) = sendmmsg_call clients datagram b in
        if 0 < sent_count then
          (b\<lparr>ub_sent_fragments := ub_sent_fragments b + of_int sent_count,
             ub_fec_fragments_sent := ub_fec_fragments_sent b + (if parity then of_int sent_count else 0),
             ub_failed_fragments := ub_failed_fragments b + (of_nat (length clients) - of_int sent_count)\<rparr>, True)
        else (b, False)
      else
        case clients of
          [] \<Rightarrow> (b, False)
        | client # _ \<Rightarrow>
            let (b, ok) = sendto_call client datagram b in
            if ok then
              (b\<lparr>ub_sent_fragments := ub_sent_fragments b + 1,
                 ub_fec_fragments_sent := ub_fec_fragments_sent b + (if parity then 1 else 0)\<rparr>, True)
            else (b\<lparr>ub_failed_fragments := ub_failed_fragments b + 1\<rparr>, False))"

text \<open>The fragment loop: the cached fragments and the parity accumulated so far are carried along;
  \<open>None\<close> when a fragment could not be sent to anyone.\<close>

function send_fragments ::
  "EncodedFrame \<Rightarrow> Sockaddr list \<Rightarrow> u64 \<Rightarrow> nat \<Rightarrow> nat \<Rightarrow> CachedUdpFragment list \<Rightarrow> bytes \<Rightarrow> UdpStreamingBackend
     \<Rightarrow> UdpStreamingBackend \<times> (CachedUdpFragment list \<times> bytes) option" where
  "send_fragments frame clients send_ns count index cached fec b =
     (if index < count then
        let cfg = ub_config b;
            datagram = data_datagram cfg frame send_ns (of_nat count) index;
            cached = (if tc_udp_enable_nack cfg
                      then cached @ [\<lparr>cg_fragment_index = of_nat index, cg_datagram_size = length datagram,
                                      cg_datagram = datagram\<rparr>]
                      else cached);
            fec = (if tc_udp_enable_fec cfg then XorInto fec (fragment_block cfg frame index) else fec);
            (b, sent_fragment) = transmit False clients datagram b
        in if sent_fragment then send_fragments frame clients send_ns count (Suc index) cached fec b
           else (b, None)
      else (b, Some (cached, fec)))"
  by pat_completeness auto
termination by (relation "measure (\<lambda>(frame, clients, send_ns, count, index, cached, fec, b). count - index)") auto

definition SendFrameFragments ::
  "EncodedFramePtr \<Rightarrow> Sockaddr list \<Rightarrow> UdpStreamingBackend \<Rightarrow> UdpStreamingBackend \<times> bool" where
  "SendFrameFragments frame_ptr clients b =
     (case frame_ptr of
        None \<Rightarrow> (b, False)
      | Some frame \<Rightarrow>
          let cfg = ub_config b in
          if tc_udp_target_payload_size cfg \<le> udp_header_size \<or> tc_udp_max_datagram_size cfg \<le> udp_header_size
          then (b, False)
          else if 0xFFFF < fragment_count_size cfg frame then (b, False)
          else
            let count = fragment_count_size cfg frame;
                (b, send_ns) = MonotonicNow b;
                (b, result) = send_fragments frame clients send_ns count 0 [] [] b
            in case result of
                 None \<Rightarrow> (b, False)
               | Some (cached, fec) \<Rightarrow>
                   let (b, sent_parity) =
                         (if tc_udp_enable_fec cfg \<and> 1 < count \<and> fec \<noteq> []
                          then transmit True clients (parity_datagram cfg frame send_ns (of_nat count) fec) b
                          else (b, True))
                   in if \<not> sent_parity then (b, False)
                      else if tc_udp_enable_nack cfg \<and> cached \<noteq> [] then
                        (CacheFrameFragments \<lparr>cf_frame_sequence = ef_sequence frame,
                           cf_cached_timestamp_ns = send_ns, cf_fragments = cached\<rparr> b, True)
                      else (b, True))"

definition Broadcast_udp :: "EncodedFramePtr \<Rightarrow> UdpStreamingBackend \<Rightarrow> UdpStreamingBackend" where
  "Broadcast_udp frame_ptr b =
     (if \<not> tc_enabled (ub_config b) \<or> frame_ptr = None \<or> ub_socket_fd b < 0 then b
      else
        let (b, now_ns) = MonotonicNow b;
            (b, clients) = SnapshotClients now_ns b
        in if clients = [] then b
           else
             let (b, sent) = SendFrameFragments frame_ptr clients b in
             if \<not> sent then b\<lparr>ub_dropped_fragmented_frames := ub_dropped_fragmented_frames b + 1\<rparr>
             else
               case ub_send_latency_recorder b of
                 None \<Rightarrow> b
               | Some recorder \<Rightarrow>
                   let frame = the frame_ptr in
                   if ef_capture_timestamp_ns frame = 0 then b
                   else
                     let (b, now_ns) = MonotonicNow b in
                     b\<lparr>ub_send_latency_recorder := Some (RecordNs (now_ns - ef_capture_timestamp_ns frame) recorder),
                       ub_sent_frames := ub_sent_frames b + 1\<rparr>)"

subsection \<open>Messages of the clients\<close>

definition IsKeepAlivePacket :: "bytes \<Rightarrow> bool" where
  "IsKeepAlivePacket buffer \<longleftrightarrow>
     sizeof_MessageHeader \<le> length buffer \<and>
     (let header = get_MessageHeader (slice 0 sizeof_MessageHeader buffer) in
      HasValidMessageMagic header \<and> mh_message_type header = MessageType_code kKeepAlive)"

definition IsNackPacket :: "bytes \<Rightarrow> bool" where
  "IsNackPacket buffer \<longleftrightarrow>
     sizeof_MessageHeader \<le> length buffer \<and>
     (let header = get_MessageHeader (slice 0 sizeof_MessageHeader buffer) in
      HasValidMessageMagic header \<and> mh_message_type header = MessageType_code kUdpNack)"

definition ParseKeepAliveReport :: "bytes \<Rightarrow> UdpReceiverReport option" where
  "ParseKeepAliveReport buffer =
     (if length buffer < sizeof_MessageHeader then None
      else
        let header = get_MessageHeader (slice 0 sizeof_MessageHeader buffer) in
        if \<not> HasValidMessageMagic header \<or> mh_message_type header \<noteq> MessageType_code kKeepAlive \<or>
           unat (mh_payload_length header) < sizeof_UdpReceiverReport \<or>
           length buffer < sizeof_MessageHeader + sizeof_UdpReceiverReport
        then None
        else Some (get_UdpReceiverReport (slice sizeof_MessageHeader sizeof_UdpReceiverReport buffer)))"

definition ParseNackRequest :: "bytes \<Rightarrow> (UdpNackHeader \<times> UdpNackItem list) option" where
  "ParseNackRequest buffer =
     (if length buffer < sizeof_MessageHeader then None
      else
        let header = get_MessageHeader (slice 0 sizeof_MessageHeader buffer) in
        if \<not> HasValidMessageMagic header \<or> mh_message_type header \<noteq> MessageType_code kUdpNack \<or>
           unat (mh_payload_length header) < sizeof_UdpNackHeader \<or>
           length buffer < sizeof_MessageHeader + sizeof_UdpNackHeader
        then None
        else
          let nack_header = get_UdpNackHeader (slice sizeof_MessageHeader sizeof_UdpNackHeader buffer);
              expected_payload_length =
                sizeof_UdpNackHeader + unat (nh_request_count nack_header) * sizeof_UdpNackItem
          in if unat (mh_payload_length header) \<noteq> expected_payload_length \<or>
                length buffer < sizeof_MessageHeader + expected_payload_length
             then None
             else
               let items = drop (sizeof_MessageHeader + sizeof_UdpNackHeader) buffer in
               Some (nack_header,
                 map (\<lambda>i. get_UdpNackItem (slice (i * sizeof_UdpNackItem) sizeof_UdpNackItem items))
                   [0..<unat (nh_request_count nack_header)]))"

text \<open>The search for a requested fragment, first match in cache order.\<close>

definition find_cached :: "CachedUdpFrame list \<Rightarrow> UdpNackItem \<Rightarrow> CachedUdpFragment option" where
  "find_cached cache item =
     find (\<lambda>g. cg_fragment_index g = ni_fragment_index item)
       (concat (map cf_fragments (filter (\<lambda>f. cf_frame_sequence f = ni_frame_sequence item) cache)))"

definition resend_item :: "Sockaddr \<Rightarrow> UdpNackItem \<Rightarrow> UdpStreamingBackend \<Rightarrow> UdpStreamingBackend" where
  "resend_item address item b =
     (case find_cached (ub_retransmit_cache b) item of
        None \<Rightarrow> b\<lparr>ub_retransmit_fragment_misses := ub_retransmit_fragment_misses b + 1\<rparr>
      | Some fragment \<Rightarrow>
          let (b, ok) = sendto_call address (take (cg_datagram_size fragment) (cg_datagram fragment)) b in
          if ok then b\<lparr>ub_retransmitted_fragments_sent := ub_retransmitted_fragments_sent b + 1\<rparr> else b)"

definition HandleNackRequest ::
  "Sockaddr \<Rightarrow> u64 \<Rightarrow> UdpNackHeader \<Rightarrow> UdpNackItem list \<Rightarrow> UdpStreamingBackend \<Rightarrow> UdpStreamingBackend" where
  "HandleNackRequest address now_ns nack_header nack_items b =
     (if \<not> tc_udp_enable_nack (ub_config b) \<or> nack_items = [] \<or> ub_socket_fd b < 0 then b
      else
        let b = PruneRetransmitCacheLocked now_ns b;
            allowed_fragments =
              min (length nack_items) (tc_udp_retransmit_max_fragments_per_request (ub_config b));
            b = b\<lparr>ub_nack_requests_received := ub_nack_requests_received b + 1,
                  ub_nack_fragments_requested := ub_nack_fragments_requested b + of_nat (length nack_items),
                  ub_retransmit_fragments_throttled := ub_retransmit_fragments_throttled b +
                    (if allowed_fragments < length nack_items then of_nat (length nack_items - allowed_fragments) else 0)\<rparr>
        in fold (resend_item address) (take allowed_fragments nack_items) b)"

text \<open>One datagram of the receive thread.\<close>

definition HandleDatagram :: "Sockaddr \<Rightarrow> bytes \<Rightarrow> UdpStreamingBackend \<Rightarrow> UdpStreamingBackend" where
  "HandleDatagram client_address buffer b =
     (let (b, now_ns) = MonotonicNow b in
      if IsKeepAlivePacket buffer then RegisterClient client_address now_ns (ParseKeepAliveReport buffer) b
      else if IsNackPacket buffer then
        (case ParseNackRequest buffer of
           None \<Rightarrow> b
         | Some (nack_header, nack_items) \<Rightarrow>
             HandleNackRequest client_address now_ns nack_header nack_items (RegisterClient client_address now_ns None b))
      else b)"

subsection \<open>The receive thread and the lifecycle\<close>

text \<open>What \<^verbatim>\<open>select\<close> and \<^verbatim>\<open>recvfrom\<close> report, one event per iteration; \<open>StopRequested\<close> is
  \<^verbatim>\<open>running_\<close> found false.\<close>

datatype UdpEvent =
  SelectTimeout
| Interrupted
| SelectFailed
| RecvFailed
| DatagramFrom Sockaddr bytes
| StopRequested

definition CloseSocket_udp :: "UdpStreamingBackend \<Rightarrow> UdpStreamingBackend" where
  "CloseSocket_udp b = (if 0 \<le> ub_socket_fd b then b\<lparr>ub_socket_fd := - 1\<rparr> else b)"

definition leave_loop :: "UdpStreamingBackend \<Rightarrow> UdpStreamingBackend" where
  "leave_loop b = CloseSocket_udp (b\<lparr>ub_running := False\<rparr>)"

text \<open>An empty list of events is a thread that waits in \<^verbatim>\<open>select\<close>.\<close>

fun ReceiveLoop_udp :: "UdpEvent list \<Rightarrow> UdpStreamingBackend \<Rightarrow> UdpStreamingBackend" where
  "ReceiveLoop_udp [] b = (if ub_running b then b else leave_loop b)"
| "ReceiveLoop_udp (event # events) b =
     (if \<not> ub_running b then leave_loop b
      else
        case event of
          SelectTimeout \<Rightarrow>
            (let (b, now_ns) = MonotonicNow b in ReceiveLoop_udp events (PruneStaleClientsLocked now_ns b))
        | Interrupted \<Rightarrow> ReceiveLoop_udp events b
        | SelectFailed \<Rightarrow> leave_loop b
        | RecvFailed \<Rightarrow> leave_loop b
        | DatagramFrom address datagram \<Rightarrow>
            ReceiveLoop_udp events
              (HandleDatagram address (take (tc_udp_max_datagram_size (ub_config b)) datagram) b)
        | StopRequested \<Rightarrow> leave_loop b)"

definition initialize_udp :: "TransportConfig \<Rightarrow> int \<Rightarrow> UdpStreamingBackend \<Rightarrow> UdpStreamingBackend \<times> bool" where
  "initialize_udp config log_interval b =
     (b\<lparr>ub_config := config, ub_latency_log_interval_frames := log_interval, ub_state := kInitialized\<rparr>, True)"

text \<open>\<open>OpenSocket\<close>: \<open>opened\<close> is the descriptor \<^verbatim>\<open>socket\<close> returned, \<open>bound\<close> the success of
  \<^verbatim>\<open>bind\<close>, \<open>port\<close> what \<^verbatim>\<open>getsockname\<close> reports, if it does.\<close>

definition OpenSocket_udp :: "int \<Rightarrow> bool \<Rightarrow> u16 option \<Rightarrow> UdpStreamingBackend \<Rightarrow> UdpStreamingBackend \<times> bool" where
  "OpenSocket_udp opened bound port b =
     (let b = b\<lparr>ub_socket_fd := opened\<rparr> in
      if opened < 0 then (b, False)
      else if \<not> bound then (CloseSocket_udp b, False)
      else if tc_listen_port (ub_config b) = 0 then
        (case port of None \<Rightarrow> (b, True) | Some p \<Rightarrow> (b\<lparr>ub_bound_port := int (unat p)\<rparr>, True))
      else (b\<lparr>ub_bound_port := tc_listen_port (ub_config b)\<rparr>, True))"

definition start_udp :: "int \<Rightarrow> bool \<Rightarrow> u16 option \<Rightarrow> UdpStreamingBackend \<Rightarrow> UdpStreamingBackend \<times> bool" where
  "start_udp opened bound port b =
     (if \<not> tc_enabled (ub_config b) then (b\<lparr>ub_state := kRunning\<rparr>, True)
      else
        let (b, ok) = OpenSocket_udp opened bound port b in
        if \<not> ok then (b\<lparr>ub_state := kFailed\<rparr>, False)
        else (b\<lparr>ub_running := True, ub_state := kRunning\<rparr>, True))"

definition stop_udp :: "UdpStreamingBackend \<Rightarrow> UdpStreamingBackend" where
  "stop_udp b =
     (if ub_state b \<noteq> kRunning then b
      else (CloseSocket_udp (b\<lparr>ub_running := False\<rparr>))\<lparr>ub_clients := [], ub_retransmit_cache := [], ub_state := kStopped\<rparr>)"

definition shutdown_udp :: "UdpStreamingBackend \<Rightarrow> UdpStreamingBackend" where
  "shutdown_udp b = (stop_udp b)\<lparr>ub_state := kShutdown\<rparr>"

end
