(* ===== verification/Udp_Sender_Correct.thy ===== *)
theory Udp_Sender_Correct
  imports Udp_Sender
begin

section \<open>Correctness of the UDP sender\<close>

text \<open>
  The datagrams of a frame as a specification (\<open>frame_datagrams\<close>), what \<open>SendFrameFragments\<close> hands to
  the kernel compared with it, the partition of the payload, the bounds of the datagrams, the
  client list, the retransmission cache and the answers to NACK requests, and the invariant of a
  whole run: nothing but datagrams of broadcast frames is ever sent.
\<close>

subsection \<open>Fragments partition the payload\<close>


definition sendable :: "TransportConfig \<Rightarrow> EncodedFrame \<Rightarrow> bool" where
  "sendable cfg frame \<longleftrightarrow>
     udp_header_size < tc_udp_target_payload_size cfg \<and> udp_header_size < tc_udp_max_datagram_size cfg \<and>
     fragment_count_size cfg frame \<le> 0xFFFF"

definition frame_blocks :: "TransportConfig \<Rightarrow> EncodedFrame \<Rightarrow> bytes list" where
  "frame_blocks cfg frame = map (fragment_block cfg frame) [0..<fragment_count_size cfg frame]"

definition has_parity :: "TransportConfig \<Rightarrow> EncodedFrame \<Rightarrow> bool" where
  "has_parity cfg frame \<longleftrightarrow> tc_udp_enable_fec cfg \<and> 1 < fragment_count_size cfg frame"

definition frame_datagrams :: "TransportConfig \<Rightarrow> EncodedFrame \<Rightarrow> u64 \<Rightarrow> bytes list" where
  "frame_datagrams cfg frame send_ns =
     (let n = fragment_count_size cfg frame in
      map (data_datagram cfg frame send_ns (of_nat n)) [0..<n]
      @ (if has_parity cfg frame then [parity_datagram cfg frame send_ns (of_nat n) (parity_of (frame_blocks cfg frame))]
         else []))"

lemma max_fragment_pos: "sendable cfg frame \<Longrightarrow> 0 < max_fragment_payload_size cfg"
  by (auto simp: sendable_def max_fragment_payload_size_def)

lemma length_frame_blocks [simp]: "length (frame_blocks cfg frame) = fragment_count_size cfg frame"
  by (simp add: frame_blocks_def)

lemma frame_blocks_nth: "i < fragment_count_size cfg frame \<Longrightarrow> frame_blocks cfg frame ! i = fragment_block cfg frame i"
  by (simp add: frame_blocks_def)

lemma count_pos: "0 < max_fragment_payload_size cfg \<Longrightarrow> 0 < fragment_count_size cfg frame"
  by (cases "ef_payload frame") (simp_all add: fragment_count_size_def Let_def div_greater_zero_iff)

lemma count_bounds:
  assumes m: "0 < max_fragment_payload_size cfg" and p: "ef_payload frame \<noteq> []"
  shows "length (ef_payload frame) \<le> fragment_count_size cfg frame * max_fragment_payload_size cfg"
    and "(fragment_count_size cfg frame - 1) * max_fragment_payload_size cfg < length (ef_payload frame)"
proof -
  let ?m = "max_fragment_payload_size cfg" and ?n = "length (ef_payload frame)"
  have c: "fragment_count_size cfg frame = (?n + ?m - 1) div ?m"
    using p by (simp add: fragment_count_size_def Let_def)
  have e: "(?n + ?m - 1) div ?m * ?m + (?n + ?m - 1) mod ?m = ?n + ?m - 1" by simp
  have r: "(?n + ?m - 1) mod ?m < ?m" using m by simp
  show "?n \<le> fragment_count_size cfg frame * ?m" unfolding c using e r m by linarith
  have "0 < ?n" using p by simp
  then have "(?n + ?m - 1) div ?m * ?m < ?n + ?m" using e m by linarith
  then show "(fragment_count_size cfg frame - 1) * ?m < ?n"
    unfolding c diff_mult_distrib using \<open>0 < ?n\<close> by linarith
qed

lemma length_fragment_block:
  "length (fragment_block cfg frame i) =
     min (max_fragment_payload_size cfg) (length (ef_payload frame) - i * max_fragment_payload_size cfg)"
  by (simp add: fragment_block_def Let_def)

lemma length_fragment_block_le: "length (fragment_block cfg frame i) \<le> max_fragment_payload_size cfg"
  by (simp add: length_fragment_block)

lemma block_end:
  assumes m: "0 < max_fragment_payload_size cfg" and i: "i < fragment_count_size cfg frame"
  shows "i * max_fragment_payload_size cfg + length (fragment_block cfg frame i) =
      min (Suc i * max_fragment_payload_size cfg) (length (ef_payload frame))"
proof (cases "ef_payload frame = []")
  case True
  then show ?thesis using i by (simp add: fragment_count_size_def length_fragment_block)
next
  case False
  have "i * max_fragment_payload_size cfg \<le> (fragment_count_size cfg frame - 1) * max_fragment_payload_size cfg"
    using i by (intro mult_le_mono1) linarith
  then have "i * max_fragment_payload_size cfg < length (ef_payload frame)"
    using count_bounds(2) [OF m False] by linarith
  then show ?thesis by (auto simp: length_fragment_block min_def)
qed

lemma fragment_block_slice:
  "fragment_block cfg frame i =
     slice (i * max_fragment_payload_size cfg) (length (fragment_block cfg frame i)) (ef_payload frame)"
  by (simp add: length_fragment_block) (simp add: fragment_block_def Let_def slice_def)

lemma concat_blocks_prefix:
  assumes m: "0 < max_fragment_payload_size cfg"
  shows "k \<le> fragment_count_size cfg frame \<Longrightarrow>
    concat (map (fragment_block cfg frame) [0..<k]) = take (k * max_fragment_payload_size cfg) (ef_payload frame)"
proof (induction k)
  case (Suc k)
  have "fragment_block cfg frame k = take (max_fragment_payload_size cfg) (drop (k * max_fragment_payload_size cfg) (ef_payload frame))"
    by (cases "ef_payload frame = []") (simp_all add: fragment_block_def slice_def Let_def min_def)
  moreover have "take (Suc k * max_fragment_payload_size cfg) (ef_payload frame) =
      take (k * max_fragment_payload_size cfg) (ef_payload frame) @
      take (max_fragment_payload_size cfg) (drop (k * max_fragment_payload_size cfg) (ef_payload frame))"
    by (simp add: add.commute flip: take_add)
  ultimately show ?case using Suc by simp
qed simp

lemma concat_frame_blocks:
  assumes "0 < max_fragment_payload_size cfg"
  shows "concat (frame_blocks cfg frame) = ef_payload frame"
proof (cases "ef_payload frame = []")
  case False
  then show ?thesis
    using concat_blocks_prefix [OF assms order_refl] count_bounds(1) [OF assms False] by (simp add: frame_blocks_def)
qed (simp add: concat_blocks_prefix [OF assms order_refl] frame_blocks_def)

lemma length_data_datagram: "length (data_datagram cfg frame t n i) = udp_header_size + length (fragment_block cfg frame i)"
  by (simp add: data_datagram_def Let_def)

lemma length_parity_datagram: "length (parity_datagram cfg frame t n fec) = udp_header_size + length fec"
  by (simp add: parity_datagram_def)

lemma length_parity_blocks:
  "0 < max_fragment_payload_size cfg \<Longrightarrow> length (parity_of (frame_blocks cfg frame)) \<le> max_fragment_payload_size cfg"
  using count_pos [of cfg frame]
  by (subst length_parity) (auto simp: frame_blocks_def length_fragment_block_le)

lemma frame_datagrams_bounded:
  assumes "sendable cfg frame" "d \<in> set (frame_datagrams cfg frame t)"
  shows "length d \<le> tc_udp_max_datagram_size cfg"
proof -
  have "max_fragment_payload_size cfg + udp_header_size \<le> tc_udp_max_datagram_size cfg"
    using assms(1) by (auto simp: sendable_def max_fragment_payload_size_def)
  moreover have "length d \<le> udp_header_size + max_fragment_payload_size cfg"
    using assms(2) length_parity_blocks [OF max_fragment_pos [OF assms(1)], of frame]
    by (auto simp: frame_datagrams_def Let_def length_data_datagram length_parity_datagram length_fragment_block_le
        split: if_splits)
  ultimately show ?thesis by linarith
qed

subsection \<open>What is handed to the kernel\<close>

abbreviation sent :: "UdpStreamingBackend \<Rightarrow> (Sockaddr \<times> bytes) list" where
  "sent b \<equiv> ue_sent (ub_env b)"

definition to_all :: "Sockaddr list \<Rightarrow> bytes \<Rightarrow> (Sockaddr \<times> bytes) list" where
  "to_all clients datagram = map (\<lambda>a. (a, datagram)) clients"

text \<open>A socket that takes every datagram.\<close>

definition reliable :: "UdpStreamingBackend \<Rightarrow> bool" where
  "reliable b \<longleftrightarrow> (\<forall>n d. ue_sendto (ub_env b) n d = int (length d)) \<and> (\<forall>n k. ue_sendmmsg (ub_env b) n k = int k)"

text \<open>What no send changes.\<close>

definition same_sender :: "UdpStreamingBackend \<Rightarrow> UdpStreamingBackend \<Rightarrow> bool" where
  "same_sender b b' \<longleftrightarrow> ub_config b' = ub_config b \<and> ub_clients b' = ub_clients b \<and>
     ub_retransmit_cache b' = ub_retransmit_cache b \<and> ub_socket_fd b' = ub_socket_fd b \<and>
     ub_running b' = ub_running b \<and> ub_state b' = ub_state b \<and>
     ue_sendto (ub_env b') = ue_sendto (ub_env b) \<and> ue_sendmmsg (ub_env b') = ue_sendmmsg (ub_env b) \<and>
     ue_clock (ub_env b') = ue_clock (ub_env b) \<and> ue_clock_reads (ub_env b') = ue_clock_reads (ub_env b)"

lemma same_sender_refl [simp]: "same_sender b b"
  by (simp add: same_sender_def)

lemma same_sender_trans: "same_sender a b \<Longrightarrow> same_sender b c \<Longrightarrow> same_sender a c"
  by (simp add: same_sender_def)

lemma sendto_call_spec:
  assumes "sendto_call a d b = (b', ok)"
  shows "same_sender b b'" "sent b' = sent b @ (if ok then [(a, d)] else [])" "reliable b \<Longrightarrow> ok"
  using assms by (auto simp: sendto_call_def same_sender_def reliable_def Let_def)

lemma transmit_spec:
  assumes "transmit parity clients d b = (b', ok)"
  shows "same_sender b b' \<and> (\<exists>reached. set reached \<subseteq> set clients \<and> sent b' = sent b @ to_all reached d) \<and>
    (reliable b \<longrightarrow> clients \<noteq> [] \<longrightarrow> ok \<and> sent b' = sent b @ to_all clients d)"
proof (cases "1 < length clients")
  case True
  let ?r = "ue_sendmmsg (ub_env b) (ue_send_calls (ub_env b)) (length clients)"
  have t: "sent b' = sent b @ to_all (take (nat ?r) clients) d" "same_sender b b'" "ok = (0 < ?r)"
    using assms True by (auto simp: transmit_def sendmmsg_call_def Let_def to_all_def same_sender_def split: if_splits)
  have "\<exists>reached. set reached \<subseteq> set clients \<and> sent b' = sent b @ to_all reached d"
    using t(1) set_take_subset by metis
  moreover have "reliable b \<Longrightarrow> ?r = int (length clients)" by (simp add: reliable_def)
  ultimately show ?thesis using t True by auto
next
  case False
  show ?thesis
  proof (cases clients)
    case Nil
    then have "b' = b" using assms by (simp add: transmit_def)
    then show ?thesis using Nil by (intro conjI exI [of _ "[]"]) (auto simp: to_all_def)
  next
    case (Cons c rest)
    then have "rest = []" using False by simp
    obtain b1 ok1 where s: "sendto_call c d b = (b1, ok1)" by fastforce
    note sp = sendto_call_spec [OF s]
    have t: "ok = ok1" "sent b' = sent b1" "same_sender b1 b'"
      using assms False Cons s by (auto simp: transmit_def same_sender_def split: if_splits)
    have r: "set (if ok1 then [c] else []) \<subseteq> set clients \<and> sent b' = sent b @ to_all (if ok1 then [c] else []) d"
      using t sp(2) Cons by (simp add: to_all_def)
    have q: "reliable b \<longrightarrow> ok \<and> sent b' = sent b @ to_all clients d"
      using r t(1) sp(3) Cons \<open>rest = []\<close> by auto
    show ?thesis using r q same_sender_trans [OF sp(1) t(3)] by blast
  qed
qed

lemma transmit_same: "transmit parity clients d b = (b', ok) \<Longrightarrow> same_sender b b'"
  using transmit_spec by blast

lemma same_sender_reliable: "same_sender b b' \<Longrightarrow> reliable b' = reliable b"
  by (simp add: same_sender_def reliable_def)

text \<open>The cache entries of the fragments from \<open>i\<close> on.\<close>

definition cache_entries :: "TransportConfig \<Rightarrow> EncodedFrame \<Rightarrow> u64 \<Rightarrow> nat \<Rightarrow> nat list \<Rightarrow> CachedUdpFragment list" where
  "cache_entries cfg frame send_ns count indices =
     (if tc_udp_enable_nack cfg then
        map (\<lambda>i. let d = data_datagram cfg frame send_ns (of_nat count) i in
             \<lparr>cg_fragment_index = of_nat i, cg_datagram_size = length d, cg_datagram = d\<rparr>) indices
      else [])"

declare send_fragments.simps [simp del]

lemma send_fragments_spec:
  assumes "send_fragments frame clients t count index cached fec b = (b', result)"
  shows "same_sender b b' \<and>
    (\<exists>log. sent b' = sent b @ log \<and>
       set log \<subseteq> set clients \<times> set (map (data_datagram (ub_config b) frame t (of_nat count)) [index..<count]) \<and>
       (reliable b \<longrightarrow> clients \<noteq> [] \<longrightarrow> result \<noteq> None \<and>
          log = concat (map (\<lambda>i. to_all clients (data_datagram (ub_config b) frame t (of_nat count) i)) [index..<count]))) \<and>
    (\<forall>cached' fec'. result = Some (cached', fec') \<longrightarrow>
       cached' = cached @ cache_entries (ub_config b) frame t count [index..<count] \<and>
       fec' = (if tc_udp_enable_fec (ub_config b)
               then fold (\<lambda>i x. XorInto x (fragment_block (ub_config b) frame i)) [index..<count] fec else fec))"
  using assms
proof (induction "count - index" arbitrary: index cached fec b)
  case 0
  then have r: "b' = b" "result = Some (cached, fec)" by (simp_all add: send_fragments.simps)
  then show ?case using 0 by (intro conjI exI [of _ "[]"]) (auto simp: cache_entries_def)
next
  case (Suc k)
  let ?cfg = "ub_config b"
  let ?d = "data_datagram ?cfg frame t (of_nat count) index"
  have lt: "index < count" and k: "k = count - Suc index" using Suc.hyps(2) by simp_all
  have upt: "[index..<count] = index # [Suc index..<count]" using lt by (rule upt_conv_Cons)
  obtain b1 ok where tr: "transmit False clients ?d b = (b1, ok)" by fastforce
  note ts = transmit_spec [OF tr]
  obtain reached where re: "set reached \<subseteq> set clients" "sent b1 = sent b @ to_all reached ?d"
    using ts by blast
  have in1: "set (to_all reached ?d) \<subseteq> set clients \<times> {?d}" using re(1) by (auto simp: to_all_def)
  show ?case
  proof (cases ok)
    case False
    then have r: "b' = b1" "result = None" using Suc.prems lt tr by (simp_all add: send_fragments.simps [of _ _ _ _ index] Let_def)
    moreover have "reliable b \<Longrightarrow> clients \<noteq> [] \<Longrightarrow> ok" using ts by blast
    ultimately show ?thesis using ts re in1 False by (intro conjI exI [of _ "to_all reached ?d"]) (auto simp: upt)
  next
    case True
    note same = conjunct1 [OF ts]
    have c1: "ub_config b1 = ?cfg" using same by (simp add: same_sender_def)
    define cached1 where "cached1 = cached @ cache_entries ?cfg frame t count [index]"
    define fec1 where "fec1 = (if tc_udp_enable_fec ?cfg then XorInto fec (fragment_block ?cfg frame index) else fec)"
    have rec: "send_fragments frame clients t count (Suc index) cached1 fec1 b1 = (b', result)"
      using Suc.prems lt tr True
      by (simp add: send_fragments.simps [of _ _ _ _ index] Let_def cached1_def fec1_def cache_entries_def split: if_splits)
    note IH = Suc.hyps(1) [OF k rec, unfolded c1]
    obtain log where log: "sent b' = sent b1 @ log"
        "set log \<subseteq> set clients \<times> set (map (data_datagram ?cfg frame t (of_nat count)) [Suc index..<count])"
        "reliable b1 \<longrightarrow> clients \<noteq> [] \<longrightarrow> result \<noteq> None \<and>
          log = concat (map (\<lambda>i. to_all clients (data_datagram ?cfg frame t (of_nat count) i)) [Suc index..<count])"
      using IH by blast
    have sb: "sent b' = sent b @ (to_all reached ?d @ log)" using log(1) re(2) by simp
    have all: "to_all reached ?d = to_all clients ?d" if "reliable b" "clients \<noteq> []"
      using ts that re(2) by simp
    have sub: "set (to_all reached ?d @ log) \<subseteq> set clients \<times> set (map (data_datagram ?cfg frame t (of_nat count)) [index..<count])"
      using in1 log(2) by (auto simp: upt)
    have rel: "reliable b \<longrightarrow> clients \<noteq> [] \<longrightarrow> result \<noteq> None \<and> to_all reached ?d @ log =
        concat (map (\<lambda>i. to_all clients (data_datagram ?cfg frame t (of_nat count) i)) [index..<count])"
      using log(3) all same_sender_reliable [OF same] by (simp add: upt)
    have fin: "\<forall>cached' fec'. result = Some (cached', fec') \<longrightarrow>
       cached' = cached @ cache_entries ?cfg frame t count [index..<count] \<and>
       fec' = (if tc_udp_enable_fec ?cfg
               then fold (\<lambda>i x. XorInto x (fragment_block ?cfg frame i)) [index..<count] fec else fec)"
    proof -
      have "cache_entries ?cfg frame t count [index..<count] =
          cache_entries ?cfg frame t count [index] @ cache_entries ?cfg frame t count [Suc index..<count]"
        by (simp add: upt cache_entries_def)
      then show ?thesis using IH by (cases "tc_udp_enable_fec ?cfg") (simp_all add: upt cached1_def fec1_def)
    qed
    show ?thesis using same_sender_trans [OF same] IH sb sub rel fin by blast
  qed
qed

lemma MonotonicNow_simps [simp]:
  "ub_config (fst (MonotonicNow b)) = ub_config b" "ub_clients (fst (MonotonicNow b)) = ub_clients b"
  "ub_retransmit_cache (fst (MonotonicNow b)) = ub_retransmit_cache b"
  "ub_socket_fd (fst (MonotonicNow b)) = ub_socket_fd b"
  "sent (fst (MonotonicNow b)) = sent b" "reliable (fst (MonotonicNow b)) = reliable b"
  "snd (MonotonicNow b) = ue_clock (ub_env b) (ue_clock_reads (ub_env b))"
  by (simp_all add: MonotonicNow_def Let_def reliable_def)

lemma fold_blocks_parity:
  "fold (\<lambda>i x. XorInto x (fragment_block cfg frame i)) [0..<fragment_count_size cfg frame] [] =
     parity_of (frame_blocks cfg frame)"
  by (simp add: parity_of_def frame_blocks_def fold_map comp_def)

lemma fragment_block_nonempty:
  assumes "0 < max_fragment_payload_size cfg" "1 < fragment_count_size cfg frame"
  shows "fragment_block cfg frame 0 \<noteq> []"
proof -
  have "ef_payload frame \<noteq> []" using assms(2) by (auto simp: fragment_count_size_def)
  then have "length (fragment_block cfg frame 0) \<noteq> 0" using assms(1) by (simp add: length_fragment_block)
  then show ?thesis by auto
qed

lemma parity_nonempty:
  assumes "0 < max_fragment_payload_size cfg" "1 < fragment_count_size cfg frame"
  shows "parity_of (frame_blocks cfg frame) \<noteq> []"
proof -
  have "frame_blocks cfg frame \<noteq> []" using assms(2) length_frame_blocks [of cfg frame] by (metis list.size(3) not_less0)
  then have "length (fragment_block cfg frame 0) \<le> length (parity_of (frame_blocks cfg frame))"
    using assms(2) by (subst length_parity) (auto simp: frame_blocks_def)
  then show ?thesis using fragment_block_nonempty [OF assms] by auto
qed

text \<open>The moment stamped into the datagrams of a frame: the first reading of the clock.\<close>

definition stamp :: "UdpStreamingBackend \<Rightarrow> u64" where
  "stamp b = ue_clock (ub_env b) (ue_clock_reads (ub_env b))"

definition cached_frame :: "TransportConfig \<Rightarrow> EncodedFrame \<Rightarrow> u64 \<Rightarrow> CachedUdpFrame" where
  "cached_frame cfg frame send_ns =
     \<lparr>cf_frame_sequence = ef_sequence frame, cf_cached_timestamp_ns = send_ns,
      cf_fragments = cache_entries cfg frame send_ns (fragment_count_size cfg frame) [0..<fragment_count_size cfg frame]\<rparr>"

lemma CacheFrameFragments_simps [simp]:
  "ub_config (CacheFrameFragments f b) = ub_config b" "ub_clients (CacheFrameFragments f b) = ub_clients b"
  "sent (CacheFrameFragments f b) = sent b" "ub_socket_fd (CacheFrameFragments f b) = ub_socket_fd b"
  "reliable (CacheFrameFragments f b) = reliable b"
  by (simp_all add: CacheFrameFragments_def PruneRetransmitCacheLocked_def MonotonicNow_def Let_def reliable_def)

text \<open>A frame that cannot be sent leaves the backend as it was.\<close>

lemma SendFrameFragments_not_sendable:
  "\<not> sendable (ub_config b) frame \<Longrightarrow> SendFrameFragments (Some frame) clients b = (b, False)"
  by (auto simp: SendFrameFragments_def sendable_def Let_def)

lemma SendFrameFragments_cases:
  assumes "SendFrameFragments (Some frame) clients b = (b', ok)"
  obtains (refused) "\<not> sendable (ub_config b) frame" "b' = b" "\<not> ok"
  | (failed) b1 where "sendable (ub_config b) frame" "\<not> ok"
      "send_fragments frame clients (stamp b) (fragment_count_size (ub_config b) frame) 0 [] [] (fst (MonotonicNow b)) = (b1, None)"
      "b' = b1"
  | (data) b1 cached fec b2 sent_parity where "sendable (ub_config b) frame"
      "send_fragments frame clients (stamp b) (fragment_count_size (ub_config b) frame) 0 [] [] (fst (MonotonicNow b)) = (b1, Some (cached, fec))"
      "(if tc_udp_enable_fec (ub_config b) \<and> 1 < fragment_count_size (ub_config b) frame \<and> fec \<noteq> []
        then transmit True clients (parity_datagram (ub_config b) frame (stamp b) (of_nat (fragment_count_size (ub_config b) frame)) fec) b1
        else (b1, True)) = (b2, sent_parity)"
      "ok = sent_parity"
      "b' = (if sent_parity \<and> tc_udp_enable_nack (ub_config b) \<and> cached \<noteq> [] then
               CacheFrameFragments \<lparr>cf_frame_sequence = ef_sequence frame, cf_cached_timestamp_ns = stamp b, cf_fragments = cached\<rparr> b2
             else b2)"
proof (cases "sendable (ub_config b) frame")
  case False
  have "b' = b" "\<not> ok" using SendFrameFragments_not_sendable [OF False] assms by simp_all
  then show ?thesis using refused False by blast
next
  case True
  obtain b1 result where s: "send_fragments frame clients (stamp b) (fragment_count_size (ub_config b) frame) 0 [] []
      (fst (MonotonicNow b)) = (b1, result)" by fastforce
  have m: "MonotonicNow b = (fst (MonotonicNow b), stamp b)" by (simp add: stamp_def prod_eq_iff)
  have g: "\<not> (tc_udp_target_payload_size (ub_config b) \<le> udp_header_size \<or> tc_udp_max_datagram_size (ub_config b) \<le> udp_header_size)"
    "\<not> 0xFFFF < fragment_count_size (ub_config b) frame" using True by (auto simp: sendable_def)
  show ?thesis
  proof (cases result)
    case None
    have "SendFrameFragments (Some frame) clients b = (b1, False)"
      using g s None by (subst SendFrameFragments_def, subst m) (simp add: Let_def)
    then have "b' = b1" "\<not> ok" using assms by simp_all
    then show ?thesis using failed [OF True _ s [unfolded None]] by blast
  next
    case (Some r)
    obtain cached fec where r: "r = (cached, fec)" by fastforce
    obtain b2 sp where t: "(if tc_udp_enable_fec (ub_config b) \<and> 1 < fragment_count_size (ub_config b) frame \<and> fec \<noteq> []
        then transmit True clients (parity_datagram (ub_config b) frame (stamp b) (of_nat (fragment_count_size (ub_config b) frame)) fec) b1
        else (b1, True)) = (b2, sp)" by fastforce
    have e: "(b', ok) = (if \<not> sp then (b2, False)
        else if tc_udp_enable_nack (ub_config b) \<and> cached \<noteq> [] then
          (CacheFrameFragments \<lparr>cf_frame_sequence = ef_sequence frame, cf_cached_timestamp_ns = stamp b, cf_fragments = cached\<rparr> b2, True)
        else (b2, True))"
      unfolding assms [symmetric] using g s t Some r by (subst SendFrameFragments_def, subst m) (simp add: Let_def)
    have "ok = sp" "b' = (if sp \<and> tc_udp_enable_nack (ub_config b) \<and> cached \<noteq> [] then
               CacheFrameFragments \<lparr>cf_frame_sequence = ef_sequence frame, cf_cached_timestamp_ns = stamp b, cf_fragments = cached\<rparr> b2
             else b2)"
      using e by (cases sp; cases "tc_udp_enable_nack (ub_config b)"; cases "cached = []"; simp only: prod.inject simp_thms if_True if_False)+
    then show ?thesis by (rule data [OF True s [unfolded Some r] t])
  qed
qed

lemma prune_cache_suffix: "\<exists>old. cache = old @ prune_cache age now cache"
proof (induction cache)
  case (Cons f cache)
  then show ?case by (simp, metis append_Cons append_Nil)
qed simp

lemma evict_oldest_last: "evict_oldest limit cache = last_n limit cache"
proof (induction cache)
  case (Cons f cache)
  then show ?case by (auto simp: last_n_def Suc_diff_le)
qed (simp add: last_n_def)

lemma CacheFrameFragments_cache:
  "set (ub_retransmit_cache (CacheFrameFragments f b)) \<subseteq> insert f (set (ub_retransmit_cache b))"
proof -
  have "set (prune_cache age now cache) \<subseteq> set cache" for age now and cache :: "CachedUdpFrame list"
    using prune_cache_suffix [of cache age now] by (metis Un_upper2 set_append)
  note pr = this
  have "set (last_n l (prune_cache age now cache @ [f])) \<subseteq> insert f (set cache)" for l age now and cache :: "CachedUdpFrame list"
    using set_last_n [of l "prune_cache age now cache @ [f]"] pr [of age now cache] by auto
  then show ?thesis
    by (simp add: CacheFrameFragments_def PruneRetransmitCacheLocked_def Let_def split_beta evict_oldest_last)
qed

lemma SendFrameFragments_spec:
  assumes "SendFrameFragments (Some frame) clients b = (b', ok)"
  shows "(\<not> sendable (ub_config b) frame \<longrightarrow> b' = b) \<and>
    ub_config b' = ub_config b \<and> ub_clients b' = ub_clients b \<and> ub_socket_fd b' = ub_socket_fd b \<and> reliable b' = reliable b \<and>
    set (ub_retransmit_cache b') \<subseteq> insert (cached_frame (ub_config b) frame (stamp b)) (set (ub_retransmit_cache b)) \<and>
    (\<exists>log. sent b' = sent b @ log \<and> set log \<subseteq> set clients \<times> set (frame_datagrams (ub_config b) frame (stamp b)) \<and>
       (sendable (ub_config b) frame \<longrightarrow> reliable b \<longrightarrow> clients \<noteq> [] \<longrightarrow>
          ok \<and> log = concat (map (to_all clients) (frame_datagrams (ub_config b) frame (stamp b)))))"
  using assms
proof (cases rule: SendFrameFragments_cases)
  case refused
  then show ?thesis by auto
next
  case (failed b1)
  note sp = send_fragments_spec [OF failed(3), simplified]
  obtain log where "sent b1 = sent b @ log" "set log \<subseteq> set clients \<times> set (frame_datagrams (ub_config b) frame (stamp b))"
    using sp by (auto simp: frame_datagrams_def Let_def)
  moreover have same: "same_sender (fst (MonotonicNow b)) b1" "reliable b \<Longrightarrow> clients \<noteq> [] \<Longrightarrow> False"
    using sp by blast+
  moreover have "reliable b1 = reliable b" using same_sender_reliable [OF same(1)] by simp
  ultimately show ?thesis using failed(1,4) by (auto simp: same_sender_def)
next
  case (data b1 cached fec b2 sp)
  let ?cfg = "ub_config b" and ?t = "stamp b"
  let ?n = "fragment_count_size ?cfg frame"
  note s1 = send_fragments_spec [OF data(2), unfolded MonotonicNow_simps]
  have pos: "0 < max_fragment_payload_size ?cfg" by (rule max_fragment_pos [OF data(1)])
  have fec: "fec = (if tc_udp_enable_fec ?cfg then parity_of (frame_blocks ?cfg frame) else [])"
    "cached = cache_entries ?cfg frame ?t ?n [0..<?n]"
    using s1 by (simp_all add: fold_blocks_parity)
  have cond: "(tc_udp_enable_fec ?cfg \<and> 1 < ?n \<and> fec \<noteq> []) = has_parity ?cfg frame"
    using parity_nonempty [OF pos, of frame] fec(1) by (auto simp: has_parity_def)
  obtain log1 where log1: "sent b1 = sent b @ log1"
      "set log1 \<subseteq> set clients \<times> set (map (data_datagram ?cfg frame ?t (of_nat ?n)) [0..<?n])"
      "reliable b \<Longrightarrow> clients \<noteq> [] \<Longrightarrow> log1 = concat (map (\<lambda>i. to_all clients (data_datagram ?cfg frame ?t (of_nat ?n) i)) [0..<?n])"
    using s1 by blast
  have same1: "same_sender (fst (MonotonicNow b)) b1" using s1 by blast
  let ?par = "parity_datagram ?cfg frame ?t (of_nat ?n) (parity_of (frame_blocks ?cfg frame))"
  obtain log2 where log2: "same_sender b1 b2" "sent b2 = sent b1 @ log2"
      "set log2 \<subseteq> set clients \<times> set (if has_parity ?cfg frame then [?par] else [])"
      "reliable b \<Longrightarrow> clients \<noteq> [] \<Longrightarrow> sp \<and> log2 = concat (map (to_all clients) (if has_parity ?cfg frame then [?par] else []))"
  proof (cases "has_parity ?cfg frame")
    case True
    then have t: "transmit True clients ?par b1 = (b2, sp)" using data(3) fec unfolding cond by (simp add: has_parity_def)
    note ts = transmit_spec [OF t]
    obtain reached where "set reached \<subseteq> set clients" "sent b2 = sent b1 @ to_all reached ?par" using ts by blast
    then show ?thesis
      using that [of "to_all reached ?par"] ts True same_sender_reliable [OF same1] by (auto simp: to_all_def)
  next
    case False
    then have "b2 = b1" "sp" using data(3) unfolding cond by simp_all
    then show ?thesis using that [of "[]"] False by simp
  qed
  have s2: "sent b' = sent b @ (log1 @ log2)" using data(5) log1(1) log2(2) by simp
  have sub: "set (log1 @ log2) \<subseteq> set clients \<times> set (frame_datagrams ?cfg frame ?t)"
    using log1(2) log2(3) by (auto simp: frame_datagrams_def Let_def split: if_splits)
  have rel: "reliable b \<longrightarrow> clients \<noteq> [] \<longrightarrow> ok \<and> log1 @ log2 = concat (map (to_all clients) (frame_datagrams ?cfg frame ?t))"
    using log1(3) log2(4) data(4) by (auto simp: frame_datagrams_def Let_def comp_def)
  have cache: "set (ub_retransmit_cache b') \<subseteq> insert (cached_frame ?cfg frame ?t) (set (ub_retransmit_cache b))"
    using data(5) same1 log2(1) fec(2) CacheFrameFragments_cache [of "cached_frame ?cfg frame ?t" b2]
    by (auto simp: cached_frame_def same_sender_def)
  have rest: "ub_config b' = ?cfg \<and> ub_clients b' = ub_clients b \<and> ub_socket_fd b' = ub_socket_fd b \<and> reliable b' = reliable b"
  proof -
    have "reliable b2 = reliable b" using same_sender_reliable [OF same1] same_sender_reliable [OF log2(1)] by simp
    then show ?thesis using data(5) same1 log2(1) by (simp add: same_sender_def)
  qed
  show ?thesis using s2 sub rel cache rest data(1) by blast
qed

text \<open>C32: On a socket that takes every datagram, a frame that fits the protocol is sent completely: every client is
  sent every data fragment in order and then, with FEC and more than one fragment, the parity of
  all of them; nothing else is sent.\<close>

theorem SendFrameFragments_complete:
  assumes "sendable (ub_config b) frame" "reliable b" "clients \<noteq> []"
  shows "\<exists>b'. SendFrameFragments (Some frame) clients b = (b', True) \<and>
    sent b' = sent b @ concat (map (to_all clients) (frame_datagrams (ub_config b) frame (stamp b)))"
proof -
  obtain b' ok where "SendFrameFragments (Some frame) clients b = (b', ok)" by fastforce
  then show ?thesis using SendFrameFragments_spec [of frame clients b b' ok] assms by auto
qed

text \<open>The fragments of a frame partition its payload: joined in order they are the payload, none is longer
  than the configured maximum, and every datagram made of the frame, the parity included, fits the
  maximal datagram size, so no write passes the end of the send buffer.\<close>

theorem fragments_partition:
  assumes "sendable cfg frame"
  shows "concat (map (fragment_block cfg frame) [0..<fragment_count_size cfg frame]) = ef_payload frame \<and>
    (\<forall>i. length (fragment_block cfg frame i) \<le> max_fragment_payload_size cfg) \<and>
    (\<forall>d\<in>set (frame_datagrams cfg frame send_ns). length d \<le> tc_udp_max_datagram_size cfg)"
  using concat_frame_blocks [OF max_fragment_pos [OF assms], of frame] frame_datagrams_bounded [OF assms]
  by (auto simp: frame_blocks_def length_fragment_block_le)

subsection \<open>The client list\<close>

lemma SameEndpoint_eq [simp]: "SameEndpoint a b \<longleftrightarrow> a = b"
  by (auto simp: SameEndpoint_def)

lemma refresh_client_simps [simp]:
  "ep_address (refresh_client now report c) = ep_address c"
  "ep_last_seen_ns (refresh_client now report c) = now"
  by (simp_all add: refresh_client_def Let_def split: option.splits)

lemma refresh_first_None: "refresh_first a now report cs = None \<longleftrightarrow> a \<notin> ep_address ` set cs"
  by (induction cs) auto

lemma refresh_first_Some:
  "refresh_first a now report cs = Some cs' \<Longrightarrow>
     \<exists>pre c post. cs = pre @ c # post \<and> ep_address c = a \<and> a \<notin> ep_address ` set pre \<and> cs' = pre @ refresh_client now report c # post"
proof (induction cs arbitrary: cs')
  case (Cons x cs)
  show ?case
  proof (cases "ep_address x = a")
    case True
    then show ?thesis using Cons.prems by (intro exI [of _ "[]"]) auto
  next
    case False
    then obtain cs1 where r: "refresh_first a now report cs = Some cs1" "cs' = x # cs1" using Cons.prems by auto
    then obtain pre c post where "cs = pre @ c # post \<and> ep_address c = a \<and> a \<notin> ep_address ` set pre \<and>
        cs1 = pre @ refresh_client now report c # post" using Cons.IH by blast
    then show ?thesis using r False by (intro exI [of _ "x # pre"]) auto
  qed
qed simp

definition addresses :: "UdpStreamingBackend \<Rightarrow> Sockaddr list" where
  "addresses b = map ep_address (ub_clients b)"

lemma RegisterClient_spec:
  assumes "distinct (addresses b)"
  shows "distinct (addresses (RegisterClient a now report b)) \<and>
    (\<exists>c\<in>set (ub_clients (RegisterClient a now report b)). ep_address c = a \<and> ep_last_seen_ns c = now \<and>
       (report \<noteq> None \<longrightarrow> ep_latest_report c = report \<and> ep_latest_report_timestamp_ns c = now \<and> ep_has_report c)) \<and>
    (\<forall>c\<in>set (ub_clients (RegisterClient a now report b)). ep_address c \<noteq> a \<longrightarrow>
       c \<in> set (ub_clients b) \<and> \<not> udp_client_stale (ub_config b) now c)"
proof -
  let ?live = "filter (\<lambda>c. \<not> udp_client_stale (ub_config b) now c) (ub_clients b)"
  have d: "distinct (map ep_address ?live)" using assms by (simp add: addresses_def distinct_map_filter)
  show ?thesis
  proof (cases "refresh_first a now report ?live")
    case None
    then have "a \<notin> ep_address ` set ?live" by (simp only: refresh_first_None not_False_eq_True)
    then show ?thesis using None d
      by (auto simp: RegisterClient_def PruneStaleClientsLocked_def addresses_def Let_def)
  next
    case (Some cs)
    obtain pre c post where r: "?live = pre @ c # post" "ep_address c = a" "cs = pre @ refresh_client now report c # post"
      using refresh_first_Some [OF Some] by blast
    have cl: "ub_clients (RegisterClient a now report b) = cs"
      using Some by (simp add: RegisterClient_def PruneStaleClientsLocked_def Let_def)
    have "map ep_address cs = map ep_address ?live" unfolding r by simp
    then have "distinct (addresses (RegisterClient a now report b))" using d cl by (simp add: addresses_def)
    moreover have "refresh_client now report c \<in> set cs" using r(3) by simp
    moreover have "report \<noteq> None \<longrightarrow> ep_latest_report (refresh_client now report c) = report \<and>
        ep_latest_report_timestamp_ns (refresh_client now report c) = now \<and> ep_has_report (refresh_client now report c)"
      by (auto simp: refresh_client_def Let_def)
    moreover have "x \<in> set (ub_clients b) \<and> \<not> udp_client_stale (ub_config b) now x" if "x \<in> set cs" "ep_address x \<noteq> a" for x
    proof -
      have "x \<in> set (pre @ c # post)" using that r(2,3) by auto
      then have "x \<in> set ?live" by (simp only: r(1))
      then show ?thesis by simp
    qed
    ultimately show ?thesis using cl r(2) by (metis refresh_client_simps)
  qed
qed

text \<open>After a keep-alive the sender of it is registered with the time and the report of that message, every
  other client kept was heard of within the client timeout, and no address is registered twice.\<close>

theorem RegisterClient_registers:
  assumes "distinct (addresses b)"
  shows "distinct (addresses (RegisterClient a now report b)) \<and>
    (\<exists>c\<in>set (ub_clients (RegisterClient a now report b)). ep_address c = a \<and> ep_last_seen_ns c = now \<and>
       (report \<noteq> None \<longrightarrow> ep_latest_report c = report \<and> ep_latest_report_timestamp_ns c = now \<and> ep_has_report c)) \<and>
    (\<forall>c\<in>set (ub_clients (RegisterClient a now report b)). ep_address c \<noteq> a \<longrightarrow>
       c \<in> set (ub_clients b) \<and> \<not> udp_client_stale (ub_config b) now c)"
  using assms by (rule RegisterClient_spec)

subsection \<open>Retransmission\<close>

lemma resend_fold_spec:
  "\<exists>log. sent (fold (resend_item a) items b) = sent b @ log \<and> length log \<le> length items \<and>
     (\<forall>(a', d)\<in>set log. a' = a \<and> (\<exists>item\<in>set items. \<exists>g. find_cached (ub_retransmit_cache b) item = Some g \<and>
        d = take (cg_datagram_size g) (cg_datagram g))) \<and>
     (reliable b \<longrightarrow> log = map (\<lambda>g. (a, take (cg_datagram_size g) (cg_datagram g)))
        (List.map_filter (find_cached (ub_retransmit_cache b)) items)) \<and>
     ub_config (fold (resend_item a) items b) = ub_config b \<and> ub_clients (fold (resend_item a) items b) = ub_clients b \<and>
     ub_retransmit_cache (fold (resend_item a) items b) = ub_retransmit_cache b \<and>
     reliable (fold (resend_item a) items b) = reliable b"
proof (induction items arbitrary: b)
  case Nil
  then show ?case by (simp add: List.map_filter_def)
next
  case (Cons item items)
  let ?b1 = "resend_item a item b"
  let ?dg = "\<lambda>g. take (cg_datagram_size g) (cg_datagram g)"
  obtain log1 where l1: "sent ?b1 = sent b @ log1" "length log1 \<le> 1"
      "\<forall>(a', d)\<in>set log1. a' = a \<and> (\<exists>g. find_cached (ub_retransmit_cache b) item = Some g \<and> d = ?dg g)"
      "reliable b \<longrightarrow> log1 = map (\<lambda>g. (a, ?dg g)) (List.map_filter (find_cached (ub_retransmit_cache b)) [item])"
      "ub_config ?b1 = ub_config b" "ub_clients ?b1 = ub_clients b" "ub_retransmit_cache ?b1 = ub_retransmit_cache b"
      "reliable ?b1 = reliable b"
  proof (cases "find_cached (ub_retransmit_cache b) item")
    case None
    then show ?thesis using that [of "[]"] by (simp add: resend_item_def List.map_filter_def reliable_def)
  next
    case (Some g)
    obtain b' ok where s: "sendto_call a (?dg g) b = (b', ok)" by fastforce
    have rel: "reliable b' = reliable b" using same_sender_reliable sendto_call_spec(1) [OF s] by blast
    have r: "?b1 = (if ok then b'\<lparr>ub_retransmitted_fragments_sent := ub_retransmitted_fragments_sent b' + 1\<rparr> else b')"
      using Some s by (simp add: resend_item_def Let_def)
    show ?thesis
      using that [of "if ok then [(a, ?dg g)] else []"] sendto_call_spec [OF s] Some rel
      by (auto simp: r same_sender_def List.map_filter_def reliable_def)
  qed
  obtain log2 where l2: "sent (fold (resend_item a) items ?b1) = sent ?b1 @ log2" "length log2 \<le> length items"
     "\<forall>(a', d)\<in>set log2. a' = a \<and> (\<exists>item\<in>set items. \<exists>g. find_cached (ub_retransmit_cache b) item = Some g \<and> d = ?dg g)"
     "reliable b \<longrightarrow> log2 = map (\<lambda>g. (a, ?dg g)) (List.map_filter (find_cached (ub_retransmit_cache b)) items)"
     "ub_config (fold (resend_item a) items ?b1) = ub_config b" "ub_clients (fold (resend_item a) items ?b1) = ub_clients b"
     "ub_retransmit_cache (fold (resend_item a) items ?b1) = ub_retransmit_cache b"
     "reliable (fold (resend_item a) items ?b1) = reliable b"
    using Cons.IH [of ?b1] unfolding l1(5-8) by blast
  have "sent (fold (resend_item a) (item # items) b) = sent b @ (log1 @ log2)" using l1(1) l2(1) by simp
  moreover have "length (log1 @ log2) \<le> length (item # items)" using l1(2) l2(2) by simp
  moreover have "\<forall>(a', d)\<in>set (log1 @ log2). a' = a \<and> (\<exists>it\<in>set (item # items). \<exists>g. find_cached (ub_retransmit_cache b) it = Some g \<and> d = ?dg g)"
    using l1(3) l2(3) by fastforce
  moreover have "reliable b \<longrightarrow> log1 @ log2 = map (\<lambda>g. (a, ?dg g)) (List.map_filter (find_cached (ub_retransmit_cache b)) (item # items))"
    using l1(4) l2(4) by (auto simp: List.map_filter_def split: option.splits)
  ultimately show ?case using l2(5-8) by (intro exI [of _ "log1 @ log2"]) simp
qed

definition nack_limit :: "UdpStreamingBackend \<Rightarrow> nat" where
  "nack_limit b = tc_udp_retransmit_max_fragments_per_request (ub_config b)"

lemma PruneRetransmit_simps [simp]:
  "ub_config (PruneRetransmitCacheLocked now b) = ub_config b" "ub_clients (PruneRetransmitCacheLocked now b) = ub_clients b"
  "sent (PruneRetransmitCacheLocked now b) = sent b" "ub_socket_fd (PruneRetransmitCacheLocked now b) = ub_socket_fd b"
  "reliable (PruneRetransmitCacheLocked now b) = reliable b"
  by (simp_all add: PruneRetransmitCacheLocked_def Let_def reliable_def)

lemma PruneRetransmit_cache: "set (ub_retransmit_cache (PruneRetransmitCacheLocked now b)) \<subseteq> set (ub_retransmit_cache b)"
  unfolding PruneRetransmitCacheLocked_def Let_def
  using prune_cache_suffix [of "ub_retransmit_cache b" "of_int (tc_udp_retransmit_cache_max_age_ms (ub_config b)) * 1000 * 1000" now]
  by simp (metis Un_upper2 set_append)

lemma HandleNackRequest_eq:
  assumes "tc_udp_enable_nack (ub_config b)" "items \<noteq> []" "0 \<le> ub_socket_fd b"
  shows "\<exists>b1. HandleNackRequest a now hdr items b = fold (resend_item a) (take (nack_limit b) items) b1 \<and>
    ub_retransmit_cache b1 = ub_retransmit_cache (PruneRetransmitCacheLocked now b) \<and> ub_config b1 = ub_config b \<and>
    ub_clients b1 = ub_clients b \<and> sent b1 = sent b \<and> reliable b1 = reliable b"
proof -
  have "take (min (length items) n) items = take n items" for n by (simp add: min_def)
  then show ?thesis
    using assms unfolding HandleNackRequest_def Let_def nack_limit_def
    by (intro exI [of _ "PruneRetransmitCacheLocked now b
        \<lparr>ub_nack_requests_received := ub_nack_requests_received (PruneRetransmitCacheLocked now b) + 1,
         ub_nack_fragments_requested := ub_nack_fragments_requested (PruneRetransmitCacheLocked now b) + of_nat (length items),
         ub_retransmit_fragments_throttled := ub_retransmit_fragments_throttled (PruneRetransmitCacheLocked now b) +
           (if min (length items) (tc_udp_retransmit_max_fragments_per_request (ub_config (PruneRetransmitCacheLocked now b))) < length items
            then of_nat (length items - min (length items) (tc_udp_retransmit_max_fragments_per_request (ub_config (PruneRetransmitCacheLocked now b)))) else 0)\<rparr>"])
      (simp add: reliable_def PruneRetransmitCacheLocked_def Let_def)
qed

text \<open>A NACK request is answered from the cache: on a socket that takes every datagram, the requester, and
  nobody else, is sent exactly the cached datagrams of the requested fragments, in the order of the
  request, up to the configured limit; on any socket nothing else is sent.\<close>

theorem HandleNackRequest_resends:
  assumes "tc_udp_enable_nack (ub_config b)" "items \<noteq> []" "0 \<le> ub_socket_fd b"
  shows "\<exists>log. sent (HandleNackRequest a now hdr items b) = sent b @ log \<and>
    length log \<le> nack_limit b \<and>
    (\<forall>(a', d)\<in>set log. a' = a \<and> (\<exists>item\<in>set items. \<exists>g. 
       find_cached (ub_retransmit_cache (PruneRetransmitCacheLocked now b)) item = Some g \<and> d = take (cg_datagram_size g) (cg_datagram g))) \<and>
    (reliable b \<longrightarrow> log = map (\<lambda>g. (a, take (cg_datagram_size g) (cg_datagram g)))
       (List.map_filter (find_cached (ub_retransmit_cache (PruneRetransmitCacheLocked now b))) (take (nack_limit b) items)))"
proof -
  obtain b1 where b1: "HandleNackRequest a now hdr items b = fold (resend_item a) (take (nack_limit b) items) b1"
    "ub_retransmit_cache b1 = ub_retransmit_cache (PruneRetransmitCacheLocked now b)" "sent b1 = sent b" "reliable b1 = reliable b"
    using HandleNackRequest_eq [OF assms, of a now hdr] by blast
  obtain log where "sent (fold (resend_item a) (take (nack_limit b) items) b1) = sent b1 @ log"
    "length log \<le> length (take (nack_limit b) items)"
    "\<forall>(a', d)\<in>set log. a' = a \<and> (\<exists>item\<in>set (take (nack_limit b) items). \<exists>g. find_cached (ub_retransmit_cache b1) item = Some g \<and>
        d = take (cg_datagram_size g) (cg_datagram g))"
    "reliable b1 \<longrightarrow> log = map (\<lambda>g. (a, take (cg_datagram_size g) (cg_datagram g)))
        (List.map_filter (find_cached (ub_retransmit_cache b1)) (take (nack_limit b) items))"
    using resend_fold_spec [of a "take (nack_limit b) items" b1] by blast
  then show ?thesis using b1 by (intro exI [of _ log]) (fastforce dest: in_set_takeD)
qed

text \<open>The cache never holds more frames than configured, and the frame just sent is in it unless the limit is
  zero; frames leave it oldest first.\<close>

theorem CacheFrameFragments_bounded:
  "length (ub_retransmit_cache (CacheFrameFragments frame b)) \<le> tc_udp_retransmit_cache_frames (ub_config b) \<and>
   (0 < tc_udp_retransmit_cache_frames (ub_config b) \<longrightarrow> last (ub_retransmit_cache (CacheFrameFragments frame b)) = frame) \<and>
   (\<exists>old. ub_retransmit_cache b @ [frame] = old @ ub_retransmit_cache (CacheFrameFragments frame b))"
proof -
  let ?l = "tc_udp_retransmit_cache_frames (ub_config b)"
  obtain age now where c: "ub_retransmit_cache (CacheFrameFragments frame b) =
      last_n ?l (prune_cache age now (ub_retransmit_cache b) @ [frame])"
    by (simp add: CacheFrameFragments_def PruneRetransmitCacheLocked_def Let_def split_beta evict_oldest_last)
  obtain old where old: "ub_retransmit_cache b = old @ prune_cache age now (ub_retransmit_cache b)"
    using prune_cache_suffix by blast
  let ?p = "prune_cache age now (ub_retransmit_cache b) @ [frame]"
  have "?p = take (length ?p - ?l) ?p @ last_n ?l ?p" by (simp only: last_n_def append_take_drop_id)
  then have "ub_retransmit_cache b @ [frame] = (old @ take (length ?p - ?l) ?p) @ last_n ?l ?p"
    using old by (metis append.assoc)
  moreover have "0 < ?l \<Longrightarrow> last (last_n ?l ?p) = frame"
    by (simp add: last_n_def last_drop)
  ultimately show ?thesis unfolding c by auto
qed

subsection \<open>A run of the server\<close>

text \<open>The stamp of a broadcast frame is the second reading of the clock, after the one for the client
  list. The operations of the encoder thread and of the receive thread alternate.\<close>

definition broadcast_stamp :: "UdpStreamingBackend \<Rightarrow> u64" where
  "broadcast_stamp b = ue_clock (ub_env b) (Suc (ue_clock_reads (ub_env b)))"

inductive server_run :: "UdpStreamingBackend \<Rightarrow> UdpStreamingBackend \<Rightarrow> (EncodedFrame \<times> u64) list \<Rightarrow> bool" for b0 where
  init: "server_run b0 b0 []"
| broadcast: "server_run b0 b frames \<Longrightarrow> server_run b0 (Broadcast_udp (Some frame) b) (frames @ [(frame, broadcast_stamp b)])"
| datagram: "server_run b0 b frames \<Longrightarrow> server_run b0 (HandleDatagram a buffer b) frames"
| idle: "server_run b0 b frames \<Longrightarrow> server_run b0 (PruneStaleClientsLocked now b) frames"

lemma Broadcast_spec:
  "ub_config (Broadcast_udp (Some frame) b) = ub_config b \<and>
   (let new = (if sendable (ub_config b) frame then {cached_frame (ub_config b) frame (broadcast_stamp b)} else {}) in
    set (ub_retransmit_cache (Broadcast_udp (Some frame) b)) \<subseteq> new \<union> set (ub_retransmit_cache b)) \<and>
   (\<exists>log. sent (Broadcast_udp (Some frame) b) = sent b @ log \<and>
      (\<forall>(a, d)\<in>set log. sendable (ub_config b) frame \<and> d \<in> set (frame_datagrams (ub_config b) frame (broadcast_stamp b)) \<and>
         (\<exists>c\<in>set (ub_clients b). ep_address c = a \<and> \<not> udp_client_stale (ub_config b) (stamp b) c)))"
proof (cases "\<not> tc_enabled (ub_config b) \<or> ub_socket_fd b < 0")
  case True
  then show ?thesis by (auto simp: Broadcast_udp_def)
next
  case on: False
  define b1 where "b1 = PruneStaleClientsLocked (stamp b) (fst (MonotonicNow b))"
  define clients where "clients = map ep_address (ub_clients b1)"
  have m: "MonotonicNow b = (fst (MonotonicNow b), stamp b)" by (simp add: stamp_def prod_eq_iff)
  have b1: "ub_config b1 = ub_config b" "sent b1 = sent b" "ub_retransmit_cache b1 = ub_retransmit_cache b"
      "stamp b1 = broadcast_stamp b"
    by (simp_all add: b1_def PruneStaleClientsLocked_def stamp_def broadcast_stamp_def MonotonicNow_def Let_def)
  have live: "\<exists>c\<in>set (ub_clients b). ep_address c = a \<and> \<not> udp_client_stale (ub_config b) (stamp b) c" if "a \<in> set clients" for a
    using that by (auto simp: clients_def b1_def PruneStaleClientsLocked_def)
  obtain b2 ok where s: "SendFrameFragments (Some frame) clients b1 = (b2, ok)" by fastforce
  note sp = SendFrameFragments_spec [OF s, unfolded b1]
  define b3 where "b3 = Broadcast_udp (Some frame) b"
  have fin: "b3 = b1 \<and> clients = [] \<or> ub_config b3 = ub_config b2 \<and> sent b3 = sent b2 \<and> ub_retransmit_cache b3 = ub_retransmit_cache b2"
  proof (cases "clients = []")
    case True
    have "b3 = b1" unfolding b3_def using on True
      by (subst Broadcast_udp_def, subst m) (simp add: Let_def SnapshotClients_def clients_def b1_def)
    then show ?thesis using True by simp
  next
    case False
    have "b3 = (if \<not> ok then b2\<lparr>ub_dropped_fragmented_frames := ub_dropped_fragmented_frames b2 + 1\<rparr>
             else
               case ub_send_latency_recorder b2 of
                 None \<Rightarrow> b2
               | Some recorder \<Rightarrow>
                   if ef_capture_timestamp_ns frame = 0 then b2
                   else
                     let (b, now_ns) = MonotonicNow b2 in
                     b\<lparr>ub_send_latency_recorder := Some (RecordNs (now_ns - ef_capture_timestamp_ns frame) recorder),
                       ub_sent_frames := ub_sent_frames b + 1\<rparr>)"
      unfolding b3_def using on False s
      by (subst Broadcast_udp_def, subst m) (simp add: Let_def SnapshotClients_def clients_def b1_def cong: option.case_cong if_cong)
    then show ?thesis by (cases ok) (auto simp: Let_def split_beta split: option.splits)
  qed
  obtain log where log: "sent b2 = sent b @ log" "set log \<subseteq> set clients \<times> set (frame_datagrams (ub_config b) frame (broadcast_stamp b))"
    using sp by blast
  have none: "log = []" "b2 = b1" if "\<not> sendable (ub_config b) frame"
    using sp that log(1) b1(2) by auto
  show ?thesis
  proof (cases "b3 = b1 \<and> clients = []")
    case True
    then show ?thesis using b1 by (auto simp: b3_def Let_def)
  next
    case False
    then have f: "ub_config b3 = ub_config b2" "sent b3 = sent b2" "ub_retransmit_cache b3 = ub_retransmit_cache b2" using fin by auto
    have cache: "set (ub_retransmit_cache b3) \<subseteq>
        (if sendable (ub_config b) frame then {cached_frame (ub_config b) frame (broadcast_stamp b)} else {}) \<union> set (ub_retransmit_cache b)"
      using sp none(2) f(3) b1(3) by (cases "sendable (ub_config b) frame") auto
    have "\<forall>(a, d)\<in>set log. sendable (ub_config b) frame \<and> d \<in> set (frame_datagrams (ub_config b) frame (broadcast_stamp b)) \<and>
         (\<exists>c\<in>set (ub_clients b). ep_address c = a \<and> \<not> udp_client_stale (ub_config b) (stamp b) c)"
      using log(2) live none(1) by fastforce
    then show ?thesis using f sp log(1) cache unfolding b3_def [symmetric] Let_def by auto
  qed
qed

text \<open>Every datagram on the wire and every cached frame comes from a broadcast frame.\<close>

definition server_inv :: "TransportConfig \<Rightarrow> (EncodedFrame \<times> u64) list \<Rightarrow> UdpStreamingBackend \<Rightarrow> bool" where
  "server_inv cfg frames b \<longleftrightarrow> ub_config b = cfg \<and>
     (\<forall>(a, d)\<in>set (sent b). \<exists>(f, t)\<in>set frames. sendable cfg f \<and> d \<in> set (frame_datagrams cfg f t)) \<and>
     (\<forall>e\<in>set (ub_retransmit_cache b). \<exists>(f, t)\<in>set frames. sendable cfg f \<and> e = cached_frame cfg f t)"

lemma find_cached_frame:
  assumes "find_cached cache item = Some g"
  shows "\<exists>e\<in>set cache. cf_frame_sequence e = ni_frame_sequence item \<and> g \<in> set (cf_fragments e) \<and>
    cg_fragment_index g = ni_fragment_index item"
proof -
  have "g \<in> set (concat (map cf_fragments (filter (\<lambda>f. cf_frame_sequence f = ni_frame_sequence item) cache)))"
    "cg_fragment_index g = ni_fragment_index item"
    using assms unfolding find_cached_def find_Some_iff by (metis nth_mem)+
  then show ?thesis by auto
qed

lemma cached_fragment_datagram:
  assumes "g \<in> set (cf_fragments (cached_frame cfg f t))"
  shows "\<exists>i<fragment_count_size cfg f. cg_fragment_index g = of_nat i \<and>
    take (cg_datagram_size g) (cg_datagram g) = data_datagram cfg f t (of_nat (fragment_count_size cfg f)) i"
  using assms by (auto simp: cached_frame_def cache_entries_def Let_def split: if_splits)

lemma cached_in_frame:
  assumes "server_inv cfg frames b" "set cache \<subseteq> set (ub_retransmit_cache b)" "find_cached cache item = Some g"
  shows "\<exists>(f, t)\<in>set frames. sendable cfg f \<and> ef_sequence f = ni_frame_sequence item \<and>
    unat (ni_fragment_index item) < fragment_count_size cfg f \<and>
    take (cg_datagram_size g) (cg_datagram g) =
      data_datagram cfg f t (of_nat (fragment_count_size cfg f)) (unat (ni_fragment_index item))"
proof -
  obtain e where e: "e \<in> set cache" "cf_frame_sequence e = ni_frame_sequence item" "g \<in> set (cf_fragments e)"
      "cg_fragment_index g = ni_fragment_index item"
    using find_cached_frame [OF assms(3)] by blast
  then obtain f t where f: "(f, t) \<in> set frames" "sendable cfg f" "e = cached_frame cfg f t"
    using assms(1,2) unfolding server_inv_def by blast
  obtain i where i: "i < fragment_count_size cfg f" "cg_fragment_index g = of_nat i"
    "take (cg_datagram_size g) (cg_datagram g) = data_datagram cfg f t (of_nat (fragment_count_size cfg f)) i"
    using cached_fragment_datagram e(3) f(3) by blast
  have "i < 2 ^ 16" using i(1) f(2) by (simp add: sendable_def)
  then have "unat (ni_fragment_index item) = i" using i(2) e(4) by (simp add: unat_of_nat_small)
  then show ?thesis using f e(2) i by (auto simp: cached_frame_def intro!: bexI [OF _ f(1)])
qed

lemma data_in_frame:
  "i < fragment_count_size cfg f \<Longrightarrow>
     data_datagram cfg f t (of_nat (fragment_count_size cfg f)) i \<in> set (frame_datagrams cfg f t)"
  by (simp add: frame_datagrams_def Let_def)

lemma server_inv_HandleDatagram:
  assumes inv: "server_inv cfg frames b"
  shows "server_inv cfg frames (HandleDatagram a buffer b)"
proof -
  have m: "MonotonicNow b = (fst (MonotonicNow b), stamp b)" by (simp add: stamp_def prod_eq_iff)
  have inv0: "server_inv cfg frames (fst (MonotonicNow b))" using inv by (simp add: server_inv_def)
  have reg: "server_inv cfg frames (RegisterClient a now report b')" if "server_inv cfg frames b'" for now report b'
    using that by (auto simp: server_inv_def RegisterClient_def PruneStaleClientsLocked_def Let_def split: option.splits)
  have nack: "server_inv cfg frames (HandleNackRequest a now hdr items b')" if i: "server_inv cfg frames b'" for now hdr items b'
  proof (cases "tc_udp_enable_nack (ub_config b') \<and> items \<noteq> [] \<and> 0 \<le> ub_socket_fd b'")
    case False
    then show ?thesis using i by (auto simp: HandleNackRequest_def)
  next
    case True
    let ?cache = "ub_retransmit_cache (PruneRetransmitCacheLocked now b')"
    obtain b1 where b1: "HandleNackRequest a now hdr items b' = fold (resend_item a) (take (nack_limit b') items) b1"
      "ub_retransmit_cache b1 = ?cache" "ub_config b1 = ub_config b'" "sent b1 = sent b'"
      using HandleNackRequest_eq [of b' items a now hdr] True by blast
    obtain log where r: "sent (fold (resend_item a) (take (nack_limit b') items) b1) = sent b' @ log"
      "\<forall>(a', d)\<in>set log. a' = a \<and> (\<exists>item\<in>set (take (nack_limit b') items). \<exists>g. find_cached ?cache item = Some g \<and>
          d = take (cg_datagram_size g) (cg_datagram g))"
      "ub_config (fold (resend_item a) (take (nack_limit b') items) b1) = ub_config b'"
      "ub_retransmit_cache (fold (resend_item a) (take (nack_limit b') items) b1) = ?cache"
      using resend_fold_spec [of a "take (nack_limit b') items" b1] unfolding b1(2-4) by blast
    have "\<exists>(f, t)\<in>set frames. sendable cfg f \<and> d \<in> set (frame_datagrams cfg f t)" if ad: "(a', d) \<in> set log" for a' d
    proof -
      obtain item g where "find_cached ?cache item = Some g" "d = take (cg_datagram_size g) (cg_datagram g)"
        using bspec [OF r(2) ad] by auto
      note c = cached_in_frame [OF i PruneRetransmit_cache this(1)] and d = this(2)
      obtain f t where "(f, t) \<in> set frames" "sendable cfg f" "unat (ni_fragment_index item) < fragment_count_size cfg f"
          "take (cg_datagram_size g) (cg_datagram g) = data_datagram cfg f t (of_nat (fragment_count_size cfg f)) (unat (ni_fragment_index item))"
        using c by (clarify, blast)
      note this(1-3) this(4) [folded d]
      then show ?thesis using data_in_frame by blast
    qed
    then have s: "\<forall>(a', d)\<in>set (sent b' @ log). \<exists>(f, t)\<in>set frames. sendable cfg f \<and> d \<in> set (frame_datagrams cfg f t)"
      using i unfolding server_inv_def by auto
    have c: "\<forall>e\<in>set ?cache. \<exists>(f, t)\<in>set frames. sendable cfg f \<and> e = cached_frame cfg f t"
      using i PruneRetransmit_cache [of now b'] unfolding server_inv_def by blast
    have "ub_config b' = cfg" using i by (simp add: server_inv_def)
    then show ?thesis unfolding server_inv_def b1(1) r(1,3,4) using s c by simp
  qed
  show ?thesis
    by (subst HandleDatagram_def, subst m)
      (auto simp: Let_def inv0 reg nack split: option.splits)
qed

lemma server_inv_Broadcast:
  assumes inv: "server_inv cfg frames b"
  shows "server_inv cfg (frames @ [(frame, broadcast_stamp b)]) (Broadcast_udp (Some frame) b)"
proof -
  have cfg: "ub_config b = cfg" using inv by (simp add: server_inv_def)
  note sp = Broadcast_spec [of frame b, unfolded cfg Let_def]
  obtain log where log: "sent (Broadcast_udp (Some frame) b) = sent b @ log"
    "\<forall>(a, d)\<in>set log. sendable cfg frame \<and> d \<in> set (frame_datagrams cfg frame (broadcast_stamp b))"
    using sp by fastforce
  have "\<exists>(f, t)\<in>set (frames @ [(frame, broadcast_stamp b)]). sendable cfg f \<and> d \<in> set (frame_datagrams cfg f t)"
    if "(a, d) \<in> set (sent b @ log)" for a d
    using that log(2) inv unfolding server_inv_def by fastforce
  moreover have "\<exists>(f, t)\<in>set (frames @ [(frame, broadcast_stamp b)]). sendable cfg f \<and> e = cached_frame cfg f t"
    if "e \<in> set (ub_retransmit_cache (Broadcast_udp (Some frame) b))" for e
  proof -
    have "e \<in> (if sendable cfg frame then {cached_frame cfg frame (broadcast_stamp b)} else {}) \<union> set (ub_retransmit_cache b)"
      using sp that by blast
    then show ?thesis using inv unfolding server_inv_def by (auto split: if_splits)
  qed
  ultimately show ?thesis using sp log(1) unfolding server_inv_def by auto
qed

lemma server_run_inv:
  assumes "server_run b0 b frames" "sent b0 = []" "ub_retransmit_cache b0 = []"
  shows "server_inv (ub_config b0) frames b"
  using assms
proof (induction rule: server_run.induct)
  case init
  then show ?case by (simp add: server_inv_def)
next
  case (broadcast b frames frame)
  then show ?case using server_inv_Broadcast by blast
next
  case (datagram b frames a buffer)
  then show ?case using server_inv_HandleDatagram by blast
next
  case (idle b frames now)
  then show ?case by (simp add: server_inv_def PruneStaleClientsLocked_def)
qed


subsection \<open>An example server\<close>

definition example_udp_config :: TransportConfig where
  "example_udp_config = TransportConfig_default\<lparr>tc_udp_target_payload_size := 70, tc_udp_max_datagram_size := 1000,
     tc_udp_enable_nack := True, tc_udp_enable_fec := True, tc_embed_frame_metadata := True\<rparr>"

definition example_udp_env :: UdpEnv where
  "example_udp_env = \<lparr>ue_clock = (\<lambda>n. of_nat (1000 * (n + 1))), ue_clock_reads = 0, ue_sendto = (\<lambda>_ d. int (length d)),
     ue_sendmmsg = (\<lambda>_ k. int k), ue_send_calls = 0, ue_sent = []\<rparr>"

definition example_backend :: UdpStreamingBackend where
  "example_backend = (UdpStreamingBackend_new None example_udp_env)\<lparr>ub_config := example_udp_config, ub_socket_fd := 3\<rparr>"

definition example_udp_frame :: EncodedFrame where
  "example_udp_frame = EncodedFrame_default\<lparr>ef_sequence := 7, ef_capture_timestamp_ns := 500,
     ef_payload := map of_nat [0..<150]\<rparr>"

definition example_address :: Sockaddr where
  "example_address = \<lparr>sin_port = 4000, sin_addr = 0x0100007F\<rparr>"

lemma example_backend_simps [simp]:
  "ub_config example_backend = example_udp_config" "ub_socket_fd example_backend = 3" "reliable example_backend"
  "ub_clients example_backend = []" "ub_retransmit_cache example_backend = []" "sent example_backend = []"
  by (simp_all add: example_backend_def UdpStreamingBackend_new_def reliable_def example_udp_env_def)

lemma example_sendable [simp]: "sendable example_udp_config example_udp_frame"
  by code_simp

lemma example_count: "fragment_count_size example_udp_config example_udp_frame = 3"
  by code_simp

theorem SendFrameFragments_complete_witness:
  "\<exists>b'. SendFrameFragments (Some example_udp_frame) [example_address] example_backend = (b', True) \<and>
     length (sent b') = 4"
proof -
  have p: "has_parity example_udp_config example_udp_frame" by code_simp
  show ?thesis
    using SendFrameFragments_complete [of example_backend example_udp_frame "[example_address]"]
    by (auto simp: frame_datagrams_def Let_def example_count p to_all_def upt_rec)
qed

theorem fragments_partition_witness:
  "concat (map (fragment_block example_udp_config example_udp_frame) [0, 1, 2]) = map of_nat [0..<150]"
proof -
  have "[0, 1, 2] = [0..<fragment_count_size example_udp_config example_udp_frame]" unfolding example_count by code_simp
  moreover have "ef_payload example_udp_frame = map of_nat [0..<150]" by (simp add: example_udp_frame_def)
  ultimately show ?thesis using conjunct1 [OF fragments_partition [OF example_sendable, of 0]] by presburger
qed

theorem RegisterClient_registers_witness:
  "addresses (RegisterClient example_address 5 None (RegisterClient example_address 4 None example_backend)) = [example_address] \<and>
   distinct (addresses (RegisterClient example_address 5 None example_backend))"
  using RegisterClient_registers [of example_backend example_address 5 None]
  by (simp add: addresses_def RegisterClient_def PruneStaleClientsLocked_def Let_def udp_client_stale_def refresh_client_def
      example_udp_config_def TransportConfig_default_def)

definition example_cached :: UdpStreamingBackend where
  "example_cached = example_backend\<lparr>ub_retransmit_cache :=
     [\<lparr>cf_frame_sequence = 7, cf_cached_timestamp_ns = 1000,
       cf_fragments = [\<lparr>cg_fragment_index = 2, cg_datagram_size = 2, cg_datagram = [1, 2]\<rparr>]\<rparr>]\<rparr>"

theorem HandleNackRequest_resends_witness:
  "sent (HandleNackRequest example_address 2000 \<lparr>nh_request_timestamp_ns = 0, nh_request_count = 2, nh_reserved = 0\<rparr>
     [\<lparr>ni_frame_sequence = 7, ni_fragment_index = 1, ni_reserved = 0\<rparr>, \<lparr>ni_frame_sequence = 7, ni_fragment_index = 2, ni_reserved = 0\<rparr>]
     example_cached) = [(example_address, [1, 2])]"
proof -
  have c: "ub_retransmit_cache (PruneRetransmitCacheLocked 2000 example_cached) = ub_retransmit_cache example_cached"
    "nack_limit example_cached = 16" "tc_udp_enable_nack (ub_config example_cached)" "0 \<le> ub_socket_fd example_cached"
    by code_simp+
  have r: "reliable example_cached" "sent example_cached = []"
    using example_backend_simps(3,6) by (simp_all add: example_cached_def reliable_def)
  show ?thesis
    using HandleNackRequest_resends [OF c(3) _ c(4), of "[\<lparr>ni_frame_sequence = 7, ni_fragment_index = 1, ni_reserved = 0\<rparr>,
        \<lparr>ni_frame_sequence = 7, ni_fragment_index = 2, ni_reserved = 0\<rparr>]" example_address 2000
        "\<lparr>nh_request_timestamp_ns = 0, nh_request_count = 2, nh_reserved = 0\<rparr>"] r
    unfolding c(1,2) by (auto simp: example_cached_def find_cached_def List.map_filter_def)
qed


theorem CacheFrameFragments_bounded_witness:
  "length (ub_retransmit_cache (CacheFrameFragments (cached_frame example_udp_config example_udp_frame 1000) example_backend)) \<le> 32 \<and>
   last (ub_retransmit_cache (CacheFrameFragments (cached_frame example_udp_config example_udp_frame 1000) example_backend)) =
     cached_frame example_udp_config example_udp_frame 1000"
proof -
  have "tc_udp_retransmit_cache_frames example_udp_config = 32"
    by (simp add: example_udp_config_def TransportConfig_default_def)
  then show ?thesis
    using CacheFrameFragments_bounded [of "cached_frame example_udp_config example_udp_frame 1000" example_backend] by simp
qed

end
