(* ===== verification/Udp_Link.thy ===== *)
theory Udp_Link
  imports Udp_Assembly Udp_Sender_Correct
begin

section \<open>The UDP link from server to client\<close>

text \<open>
  Sender and receiver put together: the datagrams of a frame as the receiver parses them, the
  correspondence of an assembly with the frame it assembles (\<open>assembles\<close>), the recovery of any one
  lost fragment from the parity, and the safety of the whole link: whatever the network does with
  the datagrams of the server, every frame the client hands out is one the server broadcast.
\<close>

subsection \<open>Datagrams as parsed\<close>

definition link_ok :: "TransportConfig \<Rightarrow> EncodedFrame \<Rightarrow> bool" where
  "link_ok cfg f \<longleftrightarrow> sendable cfg f \<and> length (ef_payload f) < 2 ^ 32 \<and> tc_udp_max_datagram_size cfg < 2 ^ 32"

lemma link_ok_simps:
  assumes "link_ok cfg f"
  shows "0 < max_fragment_payload_size cfg" "fragment_count_size cfg f < 2 ^ 16" "0 < fragment_count_size cfg f"
    "max_fragment_payload_size cfg + udp_header_size < 2 ^ 32" "length (ef_payload f) < 2 ^ 32"
  using assms max_fragment_pos [of cfg f] count_pos [of cfg f]
  by (auto simp: link_ok_def sendable_def max_fragment_payload_size_def)

lemma get_parts:
  assumes "length h = sizeof_MessageHeader" "length fh = sizeof_UdpFrameFragmentHeader"
  shows "slice 0 sizeof_MessageHeader (h @ fh @ p) = h" "slice sizeof_MessageHeader sizeof_UdpFrameFragmentHeader (h @ fh @ p) = fh"
    "drop (sizeof_MessageHeader + sizeof_UdpFrameFragmentHeader) (h @ fh @ p) = p"
  using assms by (simp_all add: slice_def)

lemma get_put_header: "get_MessageHeader (put_MessageHeader h) = h"
  by (rule header_codec.get_put)

lemma get_put_fragment_header: "get_UdpFrameFragmentHeader (put_UdpFrameFragmentHeader h) = h"
  by (rule fragment_codec.get_put)

lemma parse_datagram:
  assumes n: "length p + sizeof_UdpFrameFragmentHeader < 2 ^ 32"
    and c: "fh_fragment_count fh \<noteq> 0" "fh_fragment_role fh = UdpFragmentRole_code role"
    and d: "role = kData \<Longrightarrow> fh_fragment_index fh < fh_fragment_count fh \<and>
      unat (fh_fragment_offset fh) + length p \<le> unat (fh_frame_payload_size fh)"
  shows "parse_fragment (put_MessageHeader (stream_header f (length p)) @ put_UdpFrameFragmentHeader fh @ p) =
    Some (stream_header f (length p), fh, p)"
proof -
  have u: "unat (of_nat (sizeof_UdpFrameFragmentHeader + length p) :: u32) = sizeof_UdpFrameFragmentHeader + length p"
    using n by (intro unat_of_nat_small) simp
  have r: "UdpFragmentRole_code role \<le> UdpFragmentRole_code kXorParity" by (cases role) auto
  have k: "UdpFragmentRole_code role = UdpFragmentRole_code kData \<Longrightarrow> role = kData" by (cases role) auto
  show ?thesis
    unfolding parse_fragment_def get_parts [OF length_puts(1) length_puts(3)] get_put_header get_put_fragment_header Let_def
    using u r k c d
    by (auto simp: stream_header_def HasValidMessageMagic_def FillMessageMagic_def MessageHeader_zero_def not_less not_le)
qed

lemma parse_data:
  assumes ok: "link_ok cfg f" and i: "i < fragment_count_size cfg f"
  shows "parse_fragment (data_datagram cfg f t (of_nat (fragment_count_size cfg f)) i) =
    Some (stream_header f (length (fragment_block cfg f i)),
      fragment_header cfg f t (i * max_fragment_payload_size cfg) i (of_nat (fragment_count_size cfg f)) kData,
      fragment_block cfg f i)"
proof -
  note l = link_ok_simps [OF ok]
  have e: "i * max_fragment_payload_size cfg + length (fragment_block cfg f i) \<le> length (ef_payload f)"
    using block_end [OF l(1) i] by simp
  have o: "unat (of_nat (i * max_fragment_payload_size cfg) :: u32) = i * max_fragment_payload_size cfg"
    "unat (of_nat (length (ef_payload f)) :: u32) = length (ef_payload f)"
    using e l(5) by (intro unat_of_nat_small, simp)+
  have c: "unat (of_nat (fragment_count_size cfg f) :: u16) = fragment_count_size cfg f"
    "unat (of_nat i :: u16) = i" using l(2) i by (auto intro!: unat_of_nat_small)
  have b: "length (fragment_block cfg f i) + sizeof_UdpFrameFragmentHeader < 2 ^ 32"
    using length_fragment_block_le [of cfg f i] l(4) by simp
  have nz: "(of_nat (fragment_count_size cfg f) :: u16) \<noteq> 0" using c(1) l(3) by auto
  show ?thesis
    unfolding data_datagram_def Let_def
    by (rule parse_datagram [where role = kData, OF b])
      (use nz c i o e in \<open>auto simp: fragment_header_def word_less_nat_alt simp del: of_nat_mult\<close>)
qed

lemma parse_parity:
  assumes ok: "link_ok cfg f"
  shows "parse_fragment (parity_datagram cfg f t (of_nat (fragment_count_size cfg f)) (parity_of (frame_blocks cfg f))) =
    Some (stream_header f (length (parity_of (frame_blocks cfg f))),
      fragment_header cfg f t 0 0 (of_nat (fragment_count_size cfg f)) kXorParity, parity_of (frame_blocks cfg f))"
proof -
  note l = link_ok_simps [OF ok]
  have b: "length (parity_of (frame_blocks cfg f)) + sizeof_UdpFrameFragmentHeader < 2 ^ 32"
    using length_parity_blocks [OF l(1), of f] l(4) by simp
  have "unat (of_nat (fragment_count_size cfg f) :: u16) = fragment_count_size cfg f"
    using l(2) by (intro unat_of_nat_small) simp
  then have nz: "(of_nat (fragment_count_size cfg f) :: u16) \<noteq> 0" using l(3) by auto
  show ?thesis
    unfolding parity_datagram_def
    by (rule parse_datagram [where role = kXorParity, OF b]) (use nz in \<open>auto simp: fragment_header_def\<close>)
qed

subsection \<open>Which frame an assembly assembles\<close>

definition frame_metadata :: "ClientConfig \<Rightarrow> TransportConfig \<Rightarrow> EncodedFrame \<Rightarrow> u64 \<Rightarrow> FrameDiagnosticMetadata" where
  "frame_metadata ccfg cfg f t =
     (let keep = (\<lambda>x. if cc_expect_metadata ccfg \<and> tc_embed_frame_metadata cfg then x else 0) in
      \<lparr>md_sequence = ef_sequence f, md_capture_timestamp_ns = keep (ef_capture_timestamp_ns f),
       md_encode_start_timestamp_ns = keep (ef_encode_start_timestamp_ns f),
       md_encode_end_timestamp_ns = keep (ef_encode_end_timestamp_ns f), md_transport_send_timestamp_ns = keep t\<rparr>)"

definition assembles :: "ClientConfig \<Rightarrow> TransportConfig \<Rightarrow> EncodedFrame \<Rightarrow> u64 \<Rightarrow> UdpFrameAssembly \<Rightarrow> bool" where
  "assembles ccfg cfg f t a \<longleftrightarrow>
     length (ua_received_fragments a) = fragment_count_size cfg f \<and>
     length (ua_fragment_offsets a) = fragment_count_size cfg f \<and>
     length (ua_fragment_payload_sizes a) = fragment_count_size cfg f \<and>
     length (ua_payload a) = length (ef_payload f) \<and>
     ua_received_fragment_count a = received_count (ua_received_fragments a) \<and>
     ua_metadata a = frame_metadata ccfg cfg f t \<and>
     mh_sub_type (ua_header a) = StreamPayloadType_code (ef_type f) \<and>
     (\<forall>i<fragment_count_size cfg f. ua_received_fragments a ! i \<longrightarrow>
        unat (ua_fragment_offsets a ! i) = i * max_fragment_payload_size cfg \<and>
        unat (ua_fragment_payload_sizes a ! i) = length (fragment_block cfg f i) \<and>
        slice (i * max_fragment_payload_size cfg) (length (fragment_block cfg f i)) (ua_payload a) = fragment_block cfg f i) \<and>
     (ua_has_fec_payload a \<longrightarrow> 1 < fragment_count_size cfg f \<and> ua_fec_payload a = parity_of (frame_blocks cfg f))"

lemma blocks_disjoint:
  assumes ok: "link_ok cfg f" and "i < fragment_count_size cfg f" "j < fragment_count_size cfg f" "i \<noteq> j"
  shows "i * max_fragment_payload_size cfg + length (fragment_block cfg f i) \<le> j * max_fragment_payload_size cfg \<or>
    j * max_fragment_payload_size cfg + length (fragment_block cfg f j) \<le> i * max_fragment_payload_size cfg"
proof -
  have e: "k * max_fragment_payload_size cfg + length (fragment_block cfg f k) \<le> l * max_fragment_payload_size cfg"
    if "k < l" "k < fragment_count_size cfg f" for k l
  proof -
    have "k * max_fragment_payload_size cfg + length (fragment_block cfg f k) \<le> Suc k * max_fragment_payload_size cfg"
      using block_end [OF link_ok_simps(1) [OF ok] that(2)] by simp
    also have "\<dots> \<le> l * max_fragment_payload_size cfg" using that(1) by (intro mult_le_mono1) simp
    finally show ?thesis .
  qed
  show ?thesis using e [of i j] e [of j i] assms(2-4) by linarith
qed

text \<open>Writing one block leaves the others and makes its own right.\<close>

lemma write_block:
  assumes ok: "link_ok cfg f" and a: "assembles ccfg cfg f t a" and i: "i < fragment_count_size cfg f"
    and new: "\<not> ua_received_fragments a ! i"
    and sz: "unat off = i * max_fragment_payload_size cfg" "unat size' = length (fragment_block cfg f i)"
  shows "assembles ccfg cfg f t (a\<lparr>ua_payload := write_at (unat off) (fragment_block cfg f i) (ua_payload a),
            ua_received_fragments := (ua_received_fragments a)[i := True],
            ua_fragment_offsets := (ua_fragment_offsets a)[i := off],
            ua_fragment_payload_sizes := (ua_fragment_payload_sizes a)[i := size'],
            ua_received_fragment_count := ua_received_fragment_count a + 1,
            ua_last_fragment_timestamp_ns := l\<rparr>)"
proof -
  let ?m = "max_fragment_payload_size cfg"
  have e: "j * ?m + length (fragment_block cfg f j) \<le> length (ua_payload a)" if "j < fragment_count_size cfg f" for j
    using block_end [OF link_ok_simps(1) [OF ok] that] a by (simp add: assembles_def)
  have s: "slice (j * ?m) (length (fragment_block cfg f j)) (write_at (i * ?m) (fragment_block cfg f i) (ua_payload a)) =
      (if j = i then fragment_block cfg f i else slice (j * ?m) (length (fragment_block cfg f j)) (ua_payload a))"
    if "j < fragment_count_size cfg f" for j
    using slice_write_at_same [OF e [OF i]] slice_write_at_other [OF e [OF i] _ e [OF that]] blocks_disjoint [OF ok that i]
    by (cases "j = i") auto
  show ?thesis
    using a i new sz e [OF i] s by (auto simp: assembles_def received_count_update nth_list_update)
qed

lemma assembles_complete:
  assumes ok: "link_ok cfg f" and a: "assembles ccfg cfg f t a"
    and all: "ua_received_fragment_count a = length (ua_received_fragments a)"
  shows "ua_payload a = ef_payload f"
proof (rule nth_equalityI)
  let ?m = "max_fragment_payload_size cfg"
  show l: "length (ua_payload a) = length (ef_payload f)" using a by (simp add: assembles_def)
  fix k assume k: "k < length (ua_payload a)"
  have m: "0 < ?m" by (rule link_ok_simps(1) [OF ok])
  have ne: "ef_payload f \<noteq> []" using k l by auto
  define i where "i = k div ?m"
  have i: "i < fragment_count_size cfg f"
    using count_bounds(1) [OF m ne] k l m by (simp add: i_def less_mult_imp_div_less)
  have r: "k = i * ?m + (k - i * ?m)" "k - i * ?m < length (fragment_block cfg f i)"
  proof -
    have "i * ?m \<le> k" by (simp add: i_def)
    moreover have "k < Suc i * ?m" using dividend_less_div_times [OF m, of k] by (simp add: i_def add.commute)
    moreover note k l
    ultimately show "k = i * ?m + (k - i * ?m)" "k - i * ?m < length (fragment_block cfg f i)"
      by (auto simp: length_fragment_block)
  qed
  have "received_count (ua_received_fragments a) = length (ua_received_fragments a)" "i < length (ua_received_fragments a)"
    using a all i by (simp_all add: assembles_def)
  then have "ua_received_fragments a ! i" by (simp only: received_count_all)
  then have s: "slice (i * ?m) (length (fragment_block cfg f i)) (ua_payload a) = fragment_block cfg f i"
    using a i by (simp add: assembles_def)
  have "ua_payload a ! k = slice (i * ?m) (length (fragment_block cfg f i)) (ua_payload a) ! (k - i * ?m)"
    using r k by simp
  also have "\<dots> = slice (i * ?m) (length (fragment_block cfg f i)) (ef_payload f) ! (k - i * ?m)"
    using s fragment_block_slice by metis
  also have "\<dots> = ef_payload f ! k" using r k l by simp
  finally show "ua_payload a ! k = ef_payload f ! k" .
qed

subsection \<open>Any one lost fragment is recovered\<close>

lemma xor_received_fold:
  assumes "\<forall>i\<in>set indices. ua_received_fragments a ! i \<longrightarrow>
    unat (ua_fragment_offsets a ! i) + unat (ua_fragment_payload_sizes a ! i) \<le> length (ua_payload a)"
  shows "xor_received a indices recovered = Some (fold (\<lambda>i t. XorInto t
      (slice (unat (ua_fragment_offsets a ! i)) (unat (ua_fragment_payload_sizes a ! i)) (ua_payload a)))
    (filter (\<lambda>i. ua_received_fragments a ! i) indices) recovered)"
  using assms by (induction indices arbitrary: recovered) (auto simp: Let_def not_less)

lemma full_block:
  assumes ok: "link_ok cfg f" and i: "Suc i < fragment_count_size cfg f"
  shows "length (fragment_block cfg f i) = max_fragment_payload_size cfg"
proof -
  note m = link_ok_simps(1) [OF ok]
  have ne: "ef_payload f \<noteq> []" using i by (auto simp: fragment_count_size_def)
  have "Suc i * max_fragment_payload_size cfg \<le> (fragment_count_size cfg f - 1) * max_fragment_payload_size cfg"
    using i by (intro mult_le_mono1) simp
  also have "\<dots> < length (ef_payload f)" by (rule count_bounds(2) [OF m ne])
  finally show ?thesis by (simp add: length_fragment_block)
qed

lemma last_block:
  assumes ok: "link_ok cfg f" and i: "Suc i = fragment_count_size cfg f"
  shows "i * max_fragment_payload_size cfg + length (fragment_block cfg f i) = length (ef_payload f)"
proof (cases "ef_payload f = []")
  case True
  then show ?thesis using i by (simp add: fragment_count_size_def length_fragment_block)
next
  case False
  then show ?thesis
    using block_end [OF link_ok_simps(1) [OF ok], of i f] count_bounds(1) [OF link_ok_simps(1) [OF ok] False] i
    by (simp add: min_def)
qed

lemma block_nonempty:
  assumes ok: "link_ok cfg f" and n: "1 < fragment_count_size cfg f" and i: "i < fragment_count_size cfg f"
  shows "fragment_block cfg f i \<noteq> []"
proof -
  note m = link_ok_simps(1) [OF ok]
  have ne: "ef_payload f \<noteq> []" using n by (auto simp: fragment_count_size_def)
  have "i * max_fragment_payload_size cfg \<le> (fragment_count_size cfg f - 1) * max_fragment_payload_size cfg"
    using i by (intro mult_le_mono1) linarith
  then have "i * max_fragment_payload_size cfg < length (ef_payload f)" using count_bounds(2) [OF m ne] by linarith
  then have "length (fragment_block cfg f i) \<noteq> 0" using m by (simp add: length_fragment_block)
  then show ?thesis by auto
qed

lemma missing_position:
  assumes ok: "link_ok cfg f" and a: "assembles ccfg cfg f t a" and k: "k < fragment_count_size cfg f"
    and others: "\<forall>i<fragment_count_size cfg f. i \<noteq> k \<longrightarrow> ua_received_fragments a ! i"
  shows "unat (missing_offset a k) = k * max_fragment_payload_size cfg"
    and "\<exists>s. missing_size a k = Some s \<and> unat s = length (fragment_block cfg f k)"
proof -
  let ?m = "max_fragment_payload_size cfg" and ?n = "fragment_count_size cfg f"
  have e: "j * ?m + length (fragment_block cfg f j) \<le> length (ef_payload f)" if "j < ?n" for j
    using block_end [OF link_ok_simps(1) [OF ok] that] by simp
  note pos = link_ok_simps(5) [OF ok]
  show off: "unat (missing_offset a k) = k * ?m"
  proof (cases k)
    case (Suc j)
    have o: "unat (ua_fragment_offsets a ! j) = j * ?m" "unat (ua_fragment_payload_sizes a ! j) = ?m"
      using a others k Suc full_block [OF ok, of j] by (simp_all add: assembles_def)
    have "j * ?m + ?m < 2 ^ 32" using e [OF k] pos Suc by simp
    then show ?thesis using o Suc by (simp add: missing_offset_def unat_word_ariths)
  qed (simp add: missing_offset_def)
  show "\<exists>s. missing_size a k = Some s \<and> unat s = length (fragment_block cfg f k)"
  proof (cases "k + 1 < ?n")
    case True
    have o: "unat (ua_fragment_offsets a ! (k + 1)) = (k + 1) * ?m" using a others True by (simp add: assembles_def)
    then have le: "missing_offset a k \<le> ua_fragment_offsets a ! (k + 1)" by (simp add: word_le_nat_alt off)
    have "unat (ua_fragment_offsets a ! (k + 1) - missing_offset a k) = ?m"
      using unat_sub [OF le] o off by simp
    then show ?thesis
      using True le a full_block [OF ok, of k] by (simp add: missing_size_def Let_def assembles_def not_less)
  next
    case False
    then have l: "k * ?m + length (fragment_block cfg f k) = length (ef_payload f)" using last_block [OF ok, of k] k by simp
    have "unat (of_nat (length (ef_payload f) - k * ?m) :: u32) = length (ef_payload f) - k * ?m"
      using pos by (intro unat_of_nat_small) simp
    then show ?thesis using False l off a by (simp add: missing_size_def Let_def assembles_def)
  qed
qed

lemma recover_missing:
  assumes ok: "link_ok cfg f" and a: "assembles ccfg cfg f t a" and fec: "ua_has_fec_payload a"
    and k: "only_missing (ua_received_fragments a) = Some k"
  shows "\<exists>s. recover_fragment a = Some (a\<lparr>ua_payload := write_at (unat (missing_offset a k)) (fragment_block cfg f k) (ua_payload a),
            ua_received_fragments := (ua_received_fragments a)[k := True],
            ua_fragment_offsets := (ua_fragment_offsets a)[k := missing_offset a k],
            ua_fragment_payload_sizes := (ua_fragment_payload_sizes a)[k := s],
            ua_received_fragment_count := ua_received_fragment_count a + 1\<rparr>) \<and> unat s = length (fragment_block cfg f k)"
proof -
  let ?m = "max_fragment_payload_size cfg" and ?n = "fragment_count_size cfg f"
  note om = only_missing_Some [OF k]
  have len: "length (ua_received_fragments a) = ?n" "length (ua_payload a) = length (ef_payload f)"
    and fp: "ua_fec_payload a = parity_of (frame_blocks cfg f)" "1 < ?n"
    and rec: "\<forall>i<?n. ua_received_fragments a ! i \<longrightarrow> unat (ua_fragment_offsets a ! i) = i * ?m \<and>
        unat (ua_fragment_payload_sizes a ! i) = length (fragment_block cfg f i) \<and>
        slice (i * ?m) (length (fragment_block cfg f i)) (ua_payload a) = fragment_block cfg f i"
    using a fec by (auto simp: assembles_def)
  have kn: "k < ?n" and others: "\<forall>i<?n. i \<noteq> k \<longrightarrow> ua_received_fragments a ! i" using om len(1) by auto
  have e: "j * ?m + length (fragment_block cfg f j) \<le> length (ua_payload a)" if "j < ?n" for j
    using block_end [OF link_ok_simps(1) [OF ok] that] len(2) by simp
  obtain s where s: "missing_size a k = Some s" "unat s = length (fragment_block cfg f k)"
    using missing_position(2) [OF ok a kn others] by blast
  note off = missing_position(1) [OF ok a kn others]
  have nz: "s \<noteq> 0" using s(2) block_nonempty [OF ok fp(2) kn] by auto
  have fl: "unat s \<le> length (ua_fec_payload a)"
  proof -
    have ne: "frame_blocks cfg f \<noteq> []" using fp(2) length_frame_blocks [of cfg f] by (metis list.size(3) not_less0)
    have "fragment_block cfg f k \<in> set (frame_blocks cfg f)" using kn by (auto simp: frame_blocks_def)
    then show ?thesis unfolding s(2) fp(1) by (subst length_parity [OF ne]) auto
  qed
  have flt: "filter (\<lambda>i. ua_received_fragments a ! i) [0..<?n] = filter (\<lambda>i. i \<noteq> k) [0..<?n]"
    using others om(2) by (intro filter_cong) auto
  have "xor_received a [0..<?n] (ua_fec_payload a) = Some (fold (\<lambda>i t. XorInto t
      (slice (unat (ua_fragment_offsets a ! i)) (unat (ua_fragment_payload_sizes a ! i)) (ua_payload a)))
      (filter (\<lambda>i. i \<noteq> k) [0..<?n]) (ua_fec_payload a))"
    using rec e by (subst xor_received_fold) (auto simp: flt)
  also have "fold (\<lambda>i t. XorInto t
      (slice (unat (ua_fragment_offsets a ! i)) (unat (ua_fragment_payload_sizes a ! i)) (ua_payload a)))
      (filter (\<lambda>i. i \<noteq> k) [0..<?n]) (ua_fec_payload a) =
    fold (\<lambda>i t. XorInto t (frame_blocks cfg f ! i)) (filter (\<lambda>i. i \<noteq> k) [0..<?n]) (parity_of (frame_blocks cfg f))"
    unfolding fp(1) using rec others by (intro fold_cong) (auto simp: frame_blocks_nth)
  finally have x: "xor_received a [0..<length (ua_received_fragments a)] (ua_fec_payload a) =
      Some (fold (\<lambda>i t. XorInto t (frame_blocks cfg f ! i)) (filter (\<lambda>i. i \<noteq> k) [0..<?n]) (parity_of (frame_blocks cfg f)))"
    by (simp add: len(1))
  have blk: "take (unat s) (fold (\<lambda>i t. XorInto t (frame_blocks cfg f ! i)) (filter (\<lambda>i. i \<noteq> k) [0..<?n]) (parity_of (frame_blocks cfg f))) =
      fragment_block cfg f k"
    using recover_block [of k "frame_blocks cfg f"] kn s(2) by (simp add: frame_blocks_nth)
  have "recover_fragment a = Some (a\<lparr>ua_payload := write_at (unat (missing_offset a k)) (fragment_block cfg f k) (ua_payload a),
            ua_received_fragments := (ua_received_fragments a)[k := True],
            ua_fragment_offsets := (ua_fragment_offsets a)[k := missing_offset a k],
            ua_fragment_payload_sizes := (ua_fragment_payload_sizes a)[k := s],
            ua_received_fragment_count := ua_received_fragment_count a + 1\<rparr>)"
    unfolding recover_fragment_def using k s(1) nz fl x blk e [OF kn] off s(2)
    by (simp add: Let_def not_less)
  then show ?thesis using s(2) by blast
qed

subsection \<open>The link\<close>

text \<open>The frame a sequence number stands for, and what the receiver may see and hold of it.\<close>

definition frame_of :: "(EncodedFrame \<times> u64) list \<Rightarrow> u64 \<Rightarrow> (EncodedFrame \<times> u64) option" where
  "frame_of frames s = find (\<lambda>(f, t). ef_sequence f = s) frames"

definition link_datagram :: "TransportConfig \<Rightarrow> (EncodedFrame \<times> u64) list \<Rightarrow> bytes \<Rightarrow> bool" where
  "link_datagram cfg frames d \<longleftrightarrow>
     (\<exists>s f t. frame_of frames s = Some (f, t) \<and> link_ok cfg f \<and> d \<in> set (frame_datagrams cfg f t))"

definition link_assembly :: "ClientConfig \<Rightarrow> TransportConfig \<Rightarrow> (EncodedFrame \<times> u64) list \<Rightarrow> u64 \<Rightarrow> UdpFrameAssembly \<Rightarrow> bool" where
  "link_assembly ccfg cfg frames s a \<longleftrightarrow> (\<exists>f t. frame_of frames s = Some (f, t) \<and> link_ok cfg f \<and> assembles ccfg cfg f t a)"

definition is_frame :: "ClientConfig \<Rightarrow> TransportConfig \<Rightarrow> EncodedFrame \<Rightarrow> u64 \<Rightarrow> ReceivedFrame \<Rightarrow> bool" where
  "is_frame ccfg cfg f t r \<longleftrightarrow> fr_payload r = ef_payload f \<and> fr_metadata r = frame_metadata ccfg cfg f t \<and>
     mh_sub_type (fr_header r) = StreamPayloadType_code (ef_type f)"

definition link_frame :: "ClientConfig \<Rightarrow> TransportConfig \<Rightarrow> (EncodedFrame \<times> u64) list \<Rightarrow> ReceivedFrame \<Rightarrow> bool" where
  "link_frame ccfg cfg frames r \<longleftrightarrow> (\<exists>(f, t)\<in>set frames. is_frame ccfg cfg f t r)"

lemma frame_of_Some: "frame_of frames s = Some (f, t) \<Longrightarrow> (f, t) \<in> set frames \<and> ef_sequence f = s"
  unfolding frame_of_def find_Some_iff using nth_mem by fastforce

lemma link_datagram_cases:
  assumes "link_datagram cfg frames d" "parse_fragment d = Some (h, fh, p)"
  obtains (data) f t i where "frame_of frames (fh_frame_sequence fh) = Some (f, t)" "link_ok cfg f" "i < fragment_count_size cfg f"
      "h = stream_header f (length (fragment_block cfg f i))"
      "fh = fragment_header cfg f t (i * max_fragment_payload_size cfg) i (of_nat (fragment_count_size cfg f)) kData"
      "p = fragment_block cfg f i"
  | (parity) f t where "frame_of frames (fh_frame_sequence fh) = Some (f, t)" "link_ok cfg f" "1 < fragment_count_size cfg f"
      "h = stream_header f (length (parity_of (frame_blocks cfg f)))"
      "fh = fragment_header cfg f t 0 0 (of_nat (fragment_count_size cfg f)) kXorParity"
      "p = parity_of (frame_blocks cfg f)"
proof -
  obtain s f t where f: "frame_of frames s = Some (f, t)" "link_ok cfg f" "d \<in> set (frame_datagrams cfg f t)"
    using assms(1) by (auto simp: link_datagram_def)
  have s: "ef_sequence f = s" using frame_of_Some [OF f(1)] by simp
  consider i where "i < fragment_count_size cfg f" "d = data_datagram cfg f t (of_nat (fragment_count_size cfg f)) i"
    | "has_parity cfg f" "d = parity_datagram cfg f t (of_nat (fragment_count_size cfg f)) (parity_of (frame_blocks cfg f))"
    using f(3) by (auto simp: frame_datagrams_def Let_def split: if_splits)
  then show ?thesis
  proof cases
    case 1
    have pr: "h = stream_header f (length (fragment_block cfg f i))"
      "fh = fragment_header cfg f t (i * max_fragment_payload_size cfg) i (of_nat (fragment_count_size cfg f)) kData"
      "p = fragment_block cfg f i"
      using parse_data [OF f(2) 1(1), of t] assms(2) 1(2) by auto
    have "fh_frame_sequence fh = s" by (simp add: pr(2) fragment_header_def s)
    then show ?thesis using f(1) by (intro data [OF _ f(2) 1(1) pr]) simp
  next
    case 2
    have pr: "h = stream_header f (length (parity_of (frame_blocks cfg f)))"
      "fh = fragment_header cfg f t 0 0 (of_nat (fragment_count_size cfg f)) kXorParity"
      "p = parity_of (frame_blocks cfg f)"
      using parse_parity [OF f(2), of t] assms(2) 2(2) by auto
    have "fh_frame_sequence fh = s" "1 < fragment_count_size cfg f"
      using 2(1) by (simp_all add: pr(2) fragment_header_def s has_parity_def)
    then show ?thesis using f(1) by (intro parity [OF _ f(2) _ pr]) simp_all
  qed
qed

lemma started_assembles:
  assumes ok: "link_ok cfg f" and count: "fh_fragment_count fh = of_nat (fragment_count_size cfg f)"
    and fh: "fh = fragment_header cfg f t off i c role"
  shows "assembles ccfg cfg f t (start_assembly ccfg (stream_header f n) fh now UdpFrameAssembly_new)"
proof -
  have "unat (of_nat (fragment_count_size cfg f) :: u16) = fragment_count_size cfg f"
    using link_ok_simps(2) [OF ok] by (intro unat_of_nat_small) simp
  moreover have "unat (of_nat (length (ef_payload f)) :: u32) = length (ef_payload f)"
    using link_ok_simps(5) [OF ok] by (intro unat_of_nat_small) simp
  ultimately show ?thesis
    using count fh
    by (auto simp: assembles_def start_assembly_def UdpFrameAssembly_new_def Let_def fragment_header_def frame_metadata_def
        stream_header_def FillMessageMagic_def)
qed

interpretation link: assembly_contract ccfg "link_assembly ccfg cfg frames" "link_frame ccfg cfg frames" "link_datagram cfg frames"
  for ccfg cfg frames
proof unfold_locales
  fix s a now
  assume "link_assembly ccfg cfg frames s a"
  then show "link_assembly ccfg cfg frames s (a\<lparr>ua_last_nack_timestamp_ns := now, ua_nack_attempts := ua_nack_attempts a + 1\<rparr>)"
    by (auto simp: link_assembly_def assembles_def)
next
  fix s a a'
  assume A: "link_assembly ccfg cfg frames s a" and fp: "fec_possible ccfg a" and r: "recover_fragment a = Some a'"
  obtain f t where f: "frame_of frames s = Some (f, t)" "link_ok cfg f" "assembles ccfg cfg f t a"
    using A by (auto simp: link_assembly_def)
  obtain k where k: "only_missing (ua_received_fragments a) = Some k" using recover_fragment_Some [OF r] by metis
  have fec: "ua_has_fec_payload a" using fp by (simp add: fec_possible_def)
  note om = only_missing_Some [OF k]
  have kn: "k < fragment_count_size cfg f" "\<forall>i<fragment_count_size cfg f. i \<noteq> k \<longrightarrow> ua_received_fragments a ! i"
    using om f(3) by (auto simp: assembles_def)
  obtain n where n: "recover_fragment a = Some (a\<lparr>ua_payload := write_at (unat (missing_offset a k)) (fragment_block cfg f k) (ua_payload a),
            ua_received_fragments := (ua_received_fragments a)[k := True],
            ua_fragment_offsets := (ua_fragment_offsets a)[k := missing_offset a k],
            ua_fragment_payload_sizes := (ua_fragment_payload_sizes a)[k := n],
            ua_received_fragment_count := ua_received_fragment_count a + 1\<rparr>)" "unat n = length (fragment_block cfg f k)"
    using recover_missing [OF f(2,3) fec k] by blast
  have "assembles ccfg cfg f t a'"
    using write_block [OF f(2,3) kn(1) om(2) missing_position(1) [OF f(2,3) kn] n(2), of "ua_last_fragment_timestamp_ns a"] n(1) r
    by simp
  then show "link_assembly ccfg cfg frames s a'" using f by (auto simp: link_assembly_def)
next
  fix d h fh p now
  assume D: "link_datagram cfg frames d" and p: "parse_fragment d = Some (h, fh, p)"
  show "link_assembly ccfg cfg frames (fh_frame_sequence fh) (start_assembly ccfg h fh now UdpFrameAssembly_new)"
    using D p
  proof (cases rule: link_datagram_cases)
    case (data f t i)
    then show ?thesis using started_assembles [OF data(2) _ data(5)] unfolding link_assembly_def
      by (intro exI conjI) (assumption, assumption, simp add: fragment_header_def)
  next
    case (parity f t)
    then show ?thesis using started_assembles [OF parity(2) _ parity(5)] unfolding link_assembly_def
      by (intro exI conjI) (assumption, assumption, simp add: fragment_header_def)
  qed
next
  fix s a
  assume "link_assembly ccfg cfg frames s a"
  then show "ua_received_fragments a \<noteq> []" using link_ok_simps(3) by (fastforce simp: link_assembly_def assembles_def)
next
  fix d h fh p a now
  assume D: "link_datagram cfg frames d" and p: "parse_fragment d = Some (h, fh, p)"
    and A: "link_assembly ccfg cfg frames (fh_frame_sequence fh) a" and role: "fh_fragment_role fh = UdpFragmentRole_code kXorParity"
  show "link_assembly ccfg cfg frames (fh_frame_sequence fh)
      ((if cc_udp_fec_enabled ccfg then store_parity p now a else a)\<lparr>ua_last_fragment_timestamp_ns := now\<rparr>)"
    using D p
  proof (cases rule: link_datagram_cases)
    case (data f t i)
    then show ?thesis using role by (simp add: fragment_header_def)
  next
    case (parity f t)
    then show ?thesis using A by (auto simp: link_assembly_def assembles_def store_parity_def)
  qed
next
  fix d h fh p a now
  assume D: "link_datagram cfg frames d" and p: "parse_fragment d = Some (h, fh, p)"
    and A: "link_assembly ccfg cfg frames (fh_frame_sequence fh) a"
    and role: "fh_fragment_role fh = UdpFragmentRole_code kData" and new: "\<not> ua_received_fragments a ! unat (fh_fragment_index fh)"
  show "link_assembly ccfg cfg frames (fh_frame_sequence fh) (store_data fh p now a)"
    using D p
  proof (cases rule: link_datagram_cases)
    case (data f t i)
    note l = link_ok_simps [OF data(2)]
    have a: "assembles ccfg cfg f t a" using A data(1) by (auto simp: link_assembly_def)
    have u: "unat (fh_fragment_index fh) = i"
      unfolding data(5) fragment_header_def UdpFrameFragmentHeader.simps using l(2) data(3) by (intro unat_of_nat_small) simp
    have e: "i * max_fragment_payload_size cfg + length (fragment_block cfg f i) \<le> length (ef_payload f)"
      using block_end [OF l(1) data(3)] by simp
    have o: "unat (fh_fragment_offset fh) = i * max_fragment_payload_size cfg"
      unfolding data(5) fragment_header_def UdpFrameFragmentHeader.simps using l(5) e by (intro unat_of_nat_small) simp
    have n: "unat (of_nat (length p) :: u32) = length (fragment_block cfg f i)"
      unfolding data(6) using l(5) e by (intro unat_of_nat_small) simp
    have "assembles ccfg cfg f t (store_data fh p now a)"
      using write_block [OF data(2) a data(3) _ o n, of now] new u data(6) by (simp add: store_data_def Let_def)
    then show ?thesis using data(1,2) by (auto simp: link_assembly_def)
  next
    case (parity f t)
    then show ?thesis using role by (simp add: fragment_header_def)
  qed
next
  fix s a now
  assume A: "link_assembly ccfg cfg frames s a" and all: "ua_received_fragment_count a = length (ua_received_fragments a)"
  obtain f t where f: "frame_of frames s = Some (f, t)" "link_ok cfg f" "assembles ccfg cfg f t a"
    using A by (auto simp: link_assembly_def)
  have "is_frame ccfg cfg f t (completed_udp_frame ccfg a now)"
    using assembles_complete [OF f(2,3) all] f(3) by (simp add: is_frame_def completed_udp_frame_def Let_def assembles_def)
  then show "link_frame ccfg cfg frames (completed_udp_frame ccfg a now)"
    using frame_of_Some [OF f(1)] by (auto simp: link_frame_def)
qed

subsection \<open>End to end\<close>

text \<open>Successive calls of \<open>ReceiveUdpFrame\<close> whose \<^verbatim>\<open>recv\<close>s return datagrams that satisfy \<open>D\<close>, in any
  order and number, and the frames they hand out.\<close>

inductive receives :: "(bytes \<Rightarrow> bool) \<Rightarrow> StreamClient \<Rightarrow> StreamClient \<Rightarrow> ReceivedFrame list \<Rightarrow> bool" for D c0 where
  none: "receives D c0 c0 []"
| call: "receives D c0 c out \<Longrightarrow> \<forall>d. Received d \<in> set rs \<longrightarrow> D d \<Longrightarrow> ReceiveUdpFrame rs c = (c', r) \<Longrightarrow>
    receives D c0 c' (out @ (case r of Frame f \<Rightarrow> [f] | _ \<Rightarrow> []))"

lemma receives_link:
  assumes "receives D c0 c out" "\<forall>d. D d \<longrightarrow> link_datagram cfg frames d"
    and "receiver_inv ccfg (link_assembly ccfg cfg frames) (link_frame ccfg cfg frames) c0"
  shows "receiver_inv ccfg (link_assembly ccfg cfg frames) (link_frame ccfg cfg frames) c \<and>
    (\<forall>f\<in>set out. link_frame ccfg cfg frames f)"
  using assms
proof (induction rule: receives.induct)
  case none
  then show ?case by simp
next
  case (call c out rs c' r)
  have "\<forall>d. Received d \<in> set rs \<longrightarrow> link_datagram cfg frames d" using call.hyps(2) call.prems(1) by blast
  moreover have "receiver_inv ccfg (link_assembly ccfg cfg frames) (link_frame ccfg cfg frames) c"
    using call.IH call.prems by blast
  ultimately have "receiver_inv ccfg (link_assembly ccfg cfg frames) (link_frame ccfg cfg frames) c' \<and>
      (\<forall>f. r = Frame f \<longrightarrow> link_frame ccfg cfg frames f)"
    using link.receive_inv call.hyps(3) by blast
  then show ?case using call.IH call.prems by (auto split: receive_outcome.splits)
qed

lemma frame_of_distinct:
  assumes "distinct (map (\<lambda>(f, t). ef_sequence f) frames)" "(f, t) \<in> set frames"
  shows "frame_of frames (ef_sequence f) = Some (f, t)"
  using assms by (induction frames) (auto simp: frame_of_def image_iff)


lemma only_missing_one:
  assumes "Suc (received_count xs) = length xs"
  shows "\<exists>k. only_missing xs = Some k"
proof -
  have f: "length (filter (\<lambda>i. \<not> xs ! i) [0..<length xs]) = length (filter (\<lambda>x. \<not> x) xs)"
    by (simp only: length_filter_conv_card) (auto intro: arg_cong [of _ _ card])
  have "length (filter (\<lambda>x. \<not> x) xs) = 1"
    using assms sum_length_filter_compl [of "\<lambda>x. x" xs] by (simp add: received_count_def)
  then obtain k where "filter (\<lambda>i. \<not> xs ! i) [0..<length xs] = [k]"
    using f by (metis One_nat_def length_0_conv length_Suc_conv)
  then show ?thesis by (simp add: only_missing_def)
qed

text \<open>C5: With the parity of a frame at hand any one missing fragment is recovered: when all fragments but one have
  arrived, whichever it is and in whatever order the others came, the recovery completes the
  assembly and its payload is the payload of the frame.\<close>

theorem fec_recovers_any_fragment:
  assumes "link_ok cfg f" "assembles ccfg cfg f t a" "fec_possible (sc_config c) a"
    and "Suc (ua_received_fragment_count a) = fragment_count_size cfg f"
  shows "\<exists>c' a'. MaybeRecoverWithUdpFec a c = (c', a', True) \<and>
    ua_received_fragment_count a' = length (ua_received_fragments a') \<and> ua_payload a' = ef_payload f"
proof -
  have "Suc (received_count (ua_received_fragments a)) = length (ua_received_fragments a)"
    using assms(2,4) by (simp add: assembles_def)
  then obtain k where k: "only_missing (ua_received_fragments a) = Some k" using only_missing_one by blast
  note om = only_missing_Some [OF k]
  have kn: "k < fragment_count_size cfg f" "\<forall>i<fragment_count_size cfg f. i \<noteq> k \<longrightarrow> ua_received_fragments a ! i"
    using om assms(2) by (auto simp: assembles_def)
  have fec: "ua_has_fec_payload a" using assms(3) by (simp add: fec_possible_def)
  obtain n where n: "recover_fragment a = Some (a\<lparr>ua_payload := write_at (unat (missing_offset a k)) (fragment_block cfg f k) (ua_payload a),
            ua_received_fragments := (ua_received_fragments a)[k := True],
            ua_fragment_offsets := (ua_fragment_offsets a)[k := missing_offset a k],
            ua_fragment_payload_sizes := (ua_fragment_payload_sizes a)[k := n],
            ua_received_fragment_count := ua_received_fragment_count a + 1\<rparr>)" "unat n = length (fragment_block cfg f k)"
    using recover_missing [OF assms(1,2) fec k] by blast
  define a' where "a' = the (recover_fragment a)"
  have a': "recover_fragment a = Some a'" using n(1) by (simp add: a'_def)
  have as: "assembles ccfg cfg f t a'"
    using write_block [OF assms(1,2) kn(1) om(2) missing_position(1) [OF assms(1,2) kn] n(2), of "ua_last_fragment_timestamp_ns a"] n(1) a'
    by simp
  have "ua_received_fragment_count a' = length (ua_received_fragments a')"
    using n(1) a' assms(2,4) by (auto simp: assembles_def)
  moreover obtain c' where "MaybeRecoverWithUdpFec a c = (c', a', True)"
    using a' assms(3) by (simp add: MaybeRecoverWithUdpFec_def)
  ultimately show ?thesis using assembles_complete [OF assms(1) as] by blast
qed

subsection \<open>Requests and their answers\<close>

definition nack_item :: "u64 \<Rightarrow> u16 \<Rightarrow> UdpNackItem" where
  "nack_item s i = \<lparr>ni_frame_sequence = s, ni_fragment_index = i, ni_reserved = 0\<rparr>"

lemma nack_message_parts:
  fixes indices :: "u16 list"
  assumes "length indices < 2 ^ 16"
  shows "sizeof_MessageHeader \<le> length (nack_message t s indices)"
    "get_MessageHeader (slice 0 sizeof_MessageHeader (nack_message t s indices)) = (FillMessageMagic MessageHeader_zero)
       \<lparr>mh_message_type := MessageType_code kUdpNack,
        mh_payload_length := of_nat (sizeof_UdpNackHeader + length indices * sizeof_UdpNackItem)\<rparr>"
    "length (nack_message t s indices) = sizeof_MessageHeader + sizeof_UdpNackHeader + length indices * sizeof_UdpNackItem"
    "get_UdpNackHeader (slice sizeof_MessageHeader sizeof_UdpNackHeader (nack_message t s indices)) =
       \<lparr>nh_request_timestamp_ns = t, nh_request_count = of_nat (length indices), nh_reserved = 0\<rparr>"
    "drop (sizeof_MessageHeader + sizeof_UdpNackHeader) (nack_message t s indices) = concat (map put_UdpNackItem (map (nack_item s) indices))"
proof -
  have l: "length (concat (map put_UdpNackItem (map (nack_item s) indices))) = sizeof_UdpNackItem * length indices"
    by (subst nack_item_codec.length_puts) simp
  have c: "concat (map (\<lambda>index. put_UdpNackItem \<lparr>ni_frame_sequence = s, ni_fragment_index = index, ni_reserved = 0\<rparr>) indices) =
      concat (map put_UdpNackItem (map (nack_item s) indices))"
    by (simp add: nack_item_def comp_def)
  show "length (nack_message t s indices) = sizeof_MessageHeader + sizeof_UdpNackHeader + length indices * sizeof_UdpNackItem"
    unfolding nack_message_def c using l by simp
  then show "sizeof_MessageHeader \<le> length (nack_message t s indices)" by simp
  show "get_MessageHeader (slice 0 sizeof_MessageHeader (nack_message t s indices)) = (FillMessageMagic MessageHeader_zero)
       \<lparr>mh_message_type := MessageType_code kUdpNack,
        mh_payload_length := of_nat (sizeof_UdpNackHeader + length indices * sizeof_UdpNackItem)\<rparr>"
    unfolding nack_message_def by (rule header_codec.get_front)
  show "get_UdpNackHeader (slice sizeof_MessageHeader sizeof_UdpNackHeader (nack_message t s indices)) =
       \<lparr>nh_request_timestamp_ns = t, nh_request_count = of_nat (length indices), nh_reserved = 0\<rparr>"
    unfolding nack_message_def by (rule nack_header_codec.get_at) simp
  show "drop (sizeof_MessageHeader + sizeof_UdpNackHeader) (nack_message t s indices) = concat (map put_UdpNackItem (map (nack_item s) indices))"
    unfolding nack_message_def c by simp
qed

text \<open>What the client asks for is what the server reads: parsing a NACK message returns its time and exactly its
  fragment indices, in order.\<close>

theorem ParseNackRequest_nack_message:
  assumes "length indices < 2 ^ 16"
  shows "ParseNackRequest (nack_message t s indices) =
    Some (\<lparr>nh_request_timestamp_ns = t, nh_request_count = of_nat (length indices), nh_reserved = 0\<rparr>, map (nack_item s) indices)"
proof -
  have n: "unat (of_nat (length indices) :: u16) = length indices" using assms by (intro unat_of_nat_small) simp
  have u: "unat (of_nat (sizeof_UdpNackHeader + length indices * sizeof_UdpNackItem) :: u32) =
      sizeof_UdpNackHeader + length indices * sizeof_UdpNackItem"
    using assms by (intro unat_of_nat_small) simp
  have g: "map (\<lambda>i. get_UdpNackItem (slice (i * sizeof_UdpNackItem) sizeof_UdpNackItem (concat (map put_UdpNackItem (map (nack_item s) indices)))))
      [0..<length indices] = map (nack_item s) indices"
    using nack_item_codec.gets_puts [of "map (nack_item s) indices" "[]"] by simp
  show ?thesis
    unfolding ParseNackRequest_def nack_message_parts [OF assms] Let_def using u g n
    by (auto simp: HasValidMessageMagic_def FillMessageMagic_def simp del: of_nat_add of_nat_mult)
qed

lemma nack_not_keepalive:
  assumes "length indices < 2 ^ 16"
  shows "\<not> IsKeepAlivePacket (nack_message t s indices)" "IsNackPacket (nack_message t s indices)"
  unfolding IsKeepAlivePacket_def IsNackPacket_def nack_message_parts(2) [OF assms] Let_def
  using nack_message_parts(1) [OF assms] by (auto simp: HasValidMessageMagic_def FillMessageMagic_def)

text \<open>A fragment of a cached frame is found in the cache, with the datagram first sent for it.\<close>

lemma cached_fragment_found:
  assumes "server_inv cfg frames b" "distinct (map (\<lambda>(f, t). ef_sequence f) frames)" "(f, t) \<in> set frames"
    and "cached_frame cfg f t \<in> set (ub_retransmit_cache (PruneRetransmitCacheLocked now b))"
    and "tc_udp_enable_nack cfg" "unat i < fragment_count_size cfg f"
  shows "\<exists>g. find_cached (ub_retransmit_cache (PruneRetransmitCacheLocked now b)) (nack_item (ef_sequence f) i) = Some g \<and>
    take (cg_datagram_size g) (cg_datagram g) = data_datagram cfg f t (of_nat (fragment_count_size cfg f)) (unat i)"
proof -
  let ?n = "fragment_count_size cfg f" and ?cache = "ub_retransmit_cache (PruneRetransmitCacheLocked now b)"
  let ?g = "\<lparr>cg_fragment_index = of_nat (unat i), cg_datagram_size = length (data_datagram cfg f t (of_nat ?n) (unat i)),
      cg_datagram = data_datagram cfg f t (of_nat ?n) (unat i)\<rparr>"
  have "?g \<in> set (cf_fragments (cached_frame cfg f t))"
    using assms(5,6) by (force simp: cached_frame_def cache_entries_def Let_def)
  moreover have "cached_frame cfg f t \<in> set (filter (\<lambda>e. cf_frame_sequence e = ef_sequence f) ?cache)"
    using assms(4) by (simp add: cached_frame_def)
  ultimately have "?g \<in> set (concat (map cf_fragments (filter (\<lambda>e. cf_frame_sequence e = ef_sequence f) ?cache)))"
    by auto
  then have "find_cached ?cache (nack_item (ef_sequence f) i) \<noteq> None"
    unfolding find_cached_def find_None_iff by (auto simp: nack_item_def intro!: bexI [of _ ?g])
  then obtain g where g: "find_cached ?cache (nack_item (ef_sequence f) i) = Some g" by blast
  have "\<exists>(f', t')\<in>set frames. ef_sequence f' = ef_sequence f \<and>
    take (cg_datagram_size g) (cg_datagram g) = data_datagram cfg f' t' (of_nat (fragment_count_size cfg f')) (unat i)"
    using cached_in_frame [OF assms(1) PruneRetransmit_cache g] by (simp add: nack_item_def) blast
  then obtain f' t' where f': "(f', t') \<in> set frames" "ef_sequence f' = ef_sequence f"
    "take (cg_datagram_size g) (cg_datagram g) = data_datagram cfg f' t' (of_nat (fragment_count_size cfg f')) (unat i)"
    by blast
  have "frame_of frames (ef_sequence f) = Some (f', t')"
    using frame_of_distinct [OF assms(2) f'(1)] by (simp only: f'(2))
  then have "f' = f" "t' = t" using frame_of_distinct [OF assms(2,3)] by simp_all
  then show ?thesis using g f'(3) by blast
qed

text \<open>Handling a request sends the cached datagrams of its items, up to the limit.\<close>

lemma HandleNackRequest_sends:
  assumes "tc_udp_enable_nack (ub_config b)" "items \<noteq> []" "0 \<le> ub_socket_fd b" "reliable b"
  shows "sent (HandleNackRequest a now hdr items b) = sent b @ map (\<lambda>g. (a, take (cg_datagram_size g) (cg_datagram g)))
    (List.map_filter (find_cached (ub_retransmit_cache (PruneRetransmitCacheLocked now b))) (take (nack_limit b) items))"
proof -
  obtain b2 where b2: "HandleNackRequest a now hdr items b = fold (resend_item a) (take (nack_limit b) items) b2"
    "ub_retransmit_cache b2 = ub_retransmit_cache (PruneRetransmitCacheLocked now b)" "sent b2 = sent b" "reliable b2 = reliable b"
    using HandleNackRequest_eq [OF assms(1-3), of a now hdr] by auto
  show ?thesis
    using resend_fold_spec [of a "take (nack_limit b) items" b2] b2 assms(4) unfolding b2(1) b2(2) by auto
qed

text \<open>C14: A NACK request is answered with the datagrams it asks for: if the frame is still cached when the request is
  handled and the request is within the limit, the server sends the requester exactly the original
  datagrams of the missing fragments.\<close>

theorem nack_answered:
  assumes "server_inv cfg frames b" "distinct (map (\<lambda>(f, t). ef_sequence f) frames)" "(f, t) \<in> set frames"
    and "cached_frame cfg f t \<in> set (ub_retransmit_cache (PruneRetransmitCacheLocked (stamp b) b))"
    and "tc_udp_enable_nack cfg" "0 \<le> ub_socket_fd b" "reliable b" "sendable cfg f"
    and "indices \<noteq> []" "length indices < 2 ^ 16" "length indices \<le> nack_limit b"
    and "\<forall>i\<in>set indices. unat i < fragment_count_size cfg f"
  shows "sent (HandleDatagram a (nack_message request_ns (ef_sequence f) indices) b) = sent b @
    map (\<lambda>i. (a, data_datagram cfg f t (of_nat (fragment_count_size cfg f)) (unat i))) indices"
proof -
  define b1 where "b1 = RegisterClient a (stamp b) None (fst (MonotonicNow b))"
  have cfg: "ub_config b = cfg" using assms(1) by (simp add: server_inv_def)
  have b1: "ub_config b1 = cfg" "ub_retransmit_cache b1 = ub_retransmit_cache b" "ub_socket_fd b1 = ub_socket_fd b"
      "sent b1 = sent b" "reliable b1 = reliable b"
    using cfg by (simp_all add: b1_def RegisterClient_def PruneStaleClientsLocked_def MonotonicNow_def reliable_def Let_def split: option.splits)
  have inv1: "server_inv cfg frames b1" using assms(1) b1 cfg by (simp add: server_inv_def)
  let ?cache = "ub_retransmit_cache (PruneRetransmitCacheLocked (stamp b) b1)"
  have cache: "?cache = ub_retransmit_cache (PruneRetransmitCacheLocked (stamp b) b)"
    using b1 cfg by (simp add: PruneRetransmitCacheLocked_def Let_def)
  have m: "MonotonicNow b = (fst (MonotonicNow b), stamp b)" by (simp add: stamp_def prod_eq_iff)
  have run: "HandleDatagram a (nack_message request_ns (ef_sequence f) indices) b =
    HandleNackRequest a (stamp b) \<lparr>nh_request_timestamp_ns = request_ns, nh_request_count = of_nat (length indices), nh_reserved = 0\<rparr>
      (map (nack_item (ef_sequence f)) indices) b1"
    by (subst HandleDatagram_def, subst m)
      (simp add: nack_not_keepalive [OF assms(10)] ParseNackRequest_nack_message [OF assms(10)] b1_def)
  have found: "\<exists>g. find_cached ?cache (nack_item (ef_sequence f) i) = Some g \<and>
      take (cg_datagram_size g) (cg_datagram g) = data_datagram cfg f t (of_nat (fragment_count_size cfg f)) (unat i)"
    if "i \<in> set indices" for i
    using cached_fragment_found [OF inv1 assms(2,3) assms(4) [folded cache] assms(5)] assms(12) that by blast
  have "map (\<lambda>g. (a, take (cg_datagram_size g) (cg_datagram g)))
      (List.map_filter (find_cached ?cache) (map (nack_item (ef_sequence f)) is)) =
    map (\<lambda>i. (a, data_datagram cfg f t (of_nat (fragment_count_size cfg f)) (unat i))) is" if "set is \<subseteq> set indices" for "is"
    using that by (induction "is") (use found in \<open>fastforce simp: List.map_filter_def\<close>)+
  from this [OF order_refl] show ?thesis
    unfolding run using HandleNackRequest_sends [of b1 "map (nack_item (ef_sequence f)) indices" a "stamp b"] assms(5,6,7,9,11) b1 cfg
    by (simp add: nack_limit_def)
qed

text \<open>What one \<open>SendUdpNack\<close> puts on the wire.\<close>

lemma send_nacks_items:
  assumes "0 < m" "m < 2 ^ 16" "\<forall>n. ce_send_ok (sc_env c) n"
  shows "\<exists>msgs. send_nacks m s missing c = (fst (send_nacks m s missing c), True) \<and>
    ce_sent (sc_env (fst (send_nacks m s missing c))) = ce_sent (sc_env c) @ msgs \<and>
    (\<forall>msg\<in>set msgs. \<exists>h items. ParseNackRequest msg = Some (h, items) \<and> length items \<le> m) \<and>
    concat (map (\<lambda>msg. snd (the (ParseNackRequest msg))) msgs) = map (nack_item s) missing"
  using assms(3)
proof (induction "length missing" arbitrary: missing c rule: less_induct)
  case less
  show ?case
  proof (cases "missing = []")
    case True
    then show ?thesis using assms(1) by (simp add: send_nacks.simps [of m s "[]"])
  next
    case False
    obtain c1 t where n: "MonotonicNowNs c = (c1, t)" by fastforce
    let ?msg = "nack_message t s (take m missing)"
    obtain c2 ok where d: "send_datagram ?msg c1 = (c2, ok)" by fastforce
    have c1: "ce_send_ok (sc_env c1) = ce_send_ok (sc_env c)" "ce_sent (sc_env c1) = ce_sent (sc_env c)"
      using n by (auto simp: MonotonicNowNs_def Let_def)
    have c2: "ok" "ce_send_ok (sc_env c2) = ce_send_ok (sc_env c)" "ce_sent (sc_env c2) = ce_sent (sc_env c) @ [?msg]"
      using d c1 less.prems by (auto simp: send_datagram_def Let_def)
    define c3 where "c3 = upd_stats (\<lambda>s. s\<lparr>us_nack_requests_sent := us_nack_requests_sent s + 1,
                  us_nack_fragments_requested := us_nack_fragments_requested s + of_nat (length (take m missing))\<rparr>) c2"
    have run: "send_nacks m s missing c = send_nacks m s (drop m missing) c3"
      using False assms(1) n d c2(1) by (subst send_nacks.simps) (simp add: c3_def)
    have "\<forall>n. ce_send_ok (sc_env c3) n" using c2(2) less.prems by (simp add: c3_def)
    then obtain msgs where m: "send_nacks m s (drop m missing) c3 = (fst (send_nacks m s (drop m missing) c3), True)"
      "ce_sent (sc_env (fst (send_nacks m s (drop m missing) c3))) = ce_sent (sc_env c3) @ msgs"
      "\<forall>msg\<in>set msgs. \<exists>h items. ParseNackRequest msg = Some (h, items) \<and> length items \<le> m"
      "concat (map (\<lambda>msg. snd (the (ParseNackRequest msg))) msgs) = map (nack_item s) (drop m missing)"
      using less.hyps [of "drop m missing" c3] False assms(1) by auto
    have p: "ParseNackRequest ?msg = Some (\<lparr>nh_request_timestamp_ns = t, nh_request_count = of_nat (length (take m missing)), nh_reserved = 0\<rparr>,
        map (nack_item s) (take m missing))"
      using assms(2) by (intro ParseNackRequest_nack_message) simp
    have "ce_sent (sc_env (fst (send_nacks m s missing c))) = ce_sent (sc_env c) @ (?msg # msgs)"
      using m(2) c2(3) run by (simp add: c3_def)
    moreover have "\<forall>msg\<in>set (?msg # msgs). \<exists>h items. ParseNackRequest msg = Some (h, items) \<and> length items \<le> m"
      using m(3) p by simp
    moreover have "concat (map (\<lambda>msg. snd (the (ParseNackRequest msg))) (?msg # msgs)) = map (nack_item s) missing"
      using m(4) p by (simp flip: map_append)
    ultimately show ?thesis using m(1) run by metis
  qed
qed

text \<open>C37: A NACK round asks for every missing fragment: when the socket takes the messages, the requests the server
  reads from them are, joined in order, exactly one for each missing fragment, none of the messages
  longer than the configured limit.\<close>

theorem SendUdpNack_covers_missing:
  assumes "0 \<le> sc_socket_fd c" "missing \<noteq> []" "\<forall>n. ce_send_ok (sc_env c) n"
    and "cc_udp_nack_max_requests_per_packet (sc_config c) < 2 ^ 16"
  shows "\<exists>c' msgs. SendUdpNack s missing c = (c', True) \<and> ce_sent (sc_env c') = ce_sent (sc_env c) @ msgs \<and>
    concat (map (\<lambda>msg. snd (the (ParseNackRequest msg))) msgs) = map (nack_item s) missing \<and>
    (\<forall>msg\<in>set msgs. length (snd (the (ParseNackRequest msg))) \<le> max 1 (cc_udp_nack_max_requests_per_packet (sc_config c)))"
proof -
  let ?m = "max 1 (cc_udp_nack_max_requests_per_packet (sc_config c))"
  have m: "0 < ?m" "?m < 2 ^ 16" using assms(4) by auto
  have r: "SendUdpNack s missing c = send_nacks ?m s missing c" using assms(1,2) by (simp add: SendUdpNack_def)
  show ?thesis
    using send_nacks_items [OF m assms(3), of s missing] unfolding r by fastforce
qed

subsection \<open>Examples\<close>

theorem ParseNackRequest_nack_message_witness:
  "ParseNackRequest (nack_message 5 7 [1, 2]) =
    Some (\<lparr>nh_request_timestamp_ns = 5, nh_request_count = 2, nh_reserved = 0\<rparr>, [nack_item 7 1, nack_item 7 2])"
  using ParseNackRequest_nack_message [of "[1, 2]" 5 7] by simp

theorem SendUdpNack_covers_missing_witness:
  "\<exists>c' msgs. SendUdpNack 7 [1, 4] example_client = (c', True) \<and> ce_sent (sc_env c') = msgs \<and>
    concat (map (\<lambda>msg. snd (the (ParseNackRequest msg))) msgs) = [nack_item 7 1, nack_item 7 4]"
proof -
  have "0 \<le> sc_socket_fd example_client" "\<forall>n. ce_send_ok (sc_env example_client) n" "ce_sent (sc_env example_client) = []"
    "cc_udp_nack_max_requests_per_packet (sc_config example_client) < 2 ^ 16"
    by (simp_all add: example_client_def StreamClient_new_def example_env_def ClientConfig_default_def)
  then show ?thesis using SendUdpNack_covers_missing [of example_client "[1, 4]" 7] by fastforce
qed


theorem nack_answered_witness:
  "sent (HandleDatagram example_address (nack_message 5 7 [2])
     (example_backend\<lparr>ub_retransmit_cache := [cached_frame example_udp_config example_udp_frame 1000]\<rparr>)) =
   [(example_address, data_datagram example_udp_config example_udp_frame 1000 3 2)]"
proof -
  let ?b = "example_backend\<lparr>ub_retransmit_cache := [cached_frame example_udp_config example_udp_frame 1000]\<rparr>"
  have inv: "server_inv example_udp_config [(example_udp_frame, 1000)] ?b" by (simp add: server_inv_def)
  have st: "stamp ?b = 1000" by (simp add: stamp_def example_backend_def UdpStreamingBackend_new_def example_udp_env_def)
  have a: "cf_cached_timestamp_ns (cached_frame example_udp_config example_udp_frame 1000) = 1000"
    by (simp add: cached_frame_def)
  have c: "cached_frame example_udp_config example_udp_frame 1000 \<in> set (ub_retransmit_cache (PruneRetransmitCacheLocked (stamp ?b) ?b))"
    unfolding st by (simp add: a PruneRetransmitCacheLocked_def Let_def)
  have r: "reliable ?b" "nack_limit ?b = 16" "tc_udp_enable_nack example_udp_config"
    using example_backend_simps(3) by (simp_all add: reliable_def nack_limit_def example_udp_config_def TransportConfig_default_def)
  have s: "ef_sequence example_udp_frame = 7" by (simp add: example_udp_frame_def)
  show ?thesis
    using nack_answered [OF inv _ _ c r(3) _ r(1) example_sendable, of "[2]" example_address 5]
    by (simp add: r(2) s example_count)
qed

definition small_config :: TransportConfig where
  "small_config = example_udp_config\<lparr>tc_udp_max_datagram_size := udp_header_size + 2\<rparr>"

definition small_frame :: EncodedFrame where
  "small_frame = example_udp_frame\<lparr>ef_payload := [1, 2, 3, 4, 5]\<rparr>"

text \<open>The middle one of three fragments is lost, the parity is there.\<close>

definition example_assembly :: UdpFrameAssembly where
  "example_assembly =
     (let fh = (\<lambda>i. fragment_header small_config small_frame 9 (i * 2) i 3 kData);
          a = start_assembly (sc_config example_client) (stream_header small_frame 2) (fh 0) 1000 UdpFrameAssembly_new;
          a = store_data (fh 2) [5] 1000 a;
          a = store_parity (parity_of (frame_blocks small_config small_frame)) 1000 a
      in store_data (fh 0) [1, 2] 1000 a)"

lemma small_link: "link_ok small_config small_frame" "fragment_count_size small_config small_frame = 3"
  "max_fragment_payload_size small_config = 2" "frame_blocks small_config small_frame = [[1, 2], [3, 4], [5]]"
  by code_simp+

lemma example_assembly_fields:
  "ua_received_fragments example_assembly = [True, False, True]" "ua_received_fragment_count example_assembly = 2"
  "ua_fragment_offsets example_assembly = [0, 0, 4]" "ua_fragment_payload_sizes example_assembly = [2, 0, 1]"
  "ua_payload example_assembly = [1, 2, 0, 0, 5]"
  "ua_has_fec_payload example_assembly" "ua_fec_payload_timestamp_ns example_assembly = 1000"
  by code_simp+

lemma example_assembly_headers:
  "ua_metadata example_assembly = frame_metadata (sc_config example_client) small_config small_frame 9"
  "mh_sub_type (ua_header example_assembly) = StreamPayloadType_code (ef_type small_frame)"
  "ua_fec_payload example_assembly = parity_of (frame_blocks small_config small_frame)"
  by code_simp+

lemma small_assembles: "assembles (sc_config example_client) small_config small_frame 9 example_assembly"
proof -
  have i: "(\<forall>i<3. P i) \<longleftrightarrow> P 0 \<and> P 1 \<and> P (2::nat)" for P by (simp add: numeral_3_eq_3 numeral_2_eq_2 All_less_Suc2)
  have b: "fragment_block small_config small_frame i = frame_blocks small_config small_frame ! i" if "i < 3" for i
    using that by (simp add: frame_blocks_def small_link(2))
  have r: "received_count [True, False, True] = 2" by code_simp
  have l: "length (ef_payload small_frame) = 5" by (simp add: small_frame_def)
  show ?thesis
    unfolding assembles_def small_link(2,3) i example_assembly_headers(1,2)
    by (simp add: example_assembly_fields example_assembly_headers(3) b small_link(4) r l slice_def)
qed

theorem fec_recovers_any_fragment_witness:
  "\<exists>c' a'. MaybeRecoverWithUdpFec example_assembly example_client = (c', a', True) \<and> ua_payload a' = [1, 2, 3, 4, 5]"
proof -
  have p: "fec_possible (sc_config example_client) example_assembly"
    by (simp add: fec_possible_def example_assembly_fields example_client_def StreamClient_new_def ClientConfig_default_def)
  have n: "Suc (ua_received_fragment_count example_assembly) = fragment_count_size small_config small_frame"
    by (simp add: example_assembly_fields small_link(2))
  have "ef_payload small_frame = [1, 2, 3, 4, 5]" by (simp add: small_frame_def)
  then show ?thesis using fec_recovers_any_fragment [OF small_link(1) small_assembles p n] by auto
qed

end
