(* ===== verification/Queues.thy ===== *)
theory Queues
  imports AV_Prelude "HOL-Library.Sublist"
begin

section \<open>The two bounded queues\<close>

text \<open>
  \<^verbatim>\<open>sserver/src/common/concurrency/ThreadSafeQueue.h\<close> and
  \<^verbatim>\<open>sclient/src/common/concurrency/BoundedQueue.h\<close>. Every public operation of both classes
  holds the class's mutex from its first to its last access, so an operation is one atomic
  function of the state; waiting on the condition variable is the absence of a step (an operation
  that cannot proceed has no successor state, or reports its time-out).
  The queue (a \<^verbatim>\<open>std::deque\<close>) is a list with its front at the head.
\<close>

subsection \<open>ThreadSafeQueue (server)\<close>

record 'a ThreadSafeQueue =
  tsq_queue :: "'a list"

definition ThreadSafeQueue_new :: "'a ThreadSafeQueue" where
  "ThreadSafeQueue_new = \<lparr>tsq_queue = []\<rparr>"

definition Push :: "'a \<Rightarrow> 'a ThreadSafeQueue \<Rightarrow> 'a ThreadSafeQueue" where
  "Push value q = q\<lparr>tsq_queue := tsq_queue q @ [value]\<rparr>"

text \<open>The eviction loop \<^verbatim>\<open>while (queue_.size() >= max_size && !queue_.empty()) pop_front\<close>:
  the remaining queue and the number of elements dropped.\<close>

fun drop_oldest_loop :: "nat \<Rightarrow> 'a list \<Rightarrow> nat \<Rightarrow> 'a list \<times> nat" where
  "drop_oldest_loop max_size [] dropped = ([], dropped)"
| "drop_oldest_loop max_size (x # xs) dropped =
     (if max_size \<le> length (x # xs) then drop_oldest_loop max_size xs (Suc dropped)
      else (x # xs, dropped))"

definition PushDropOldestCountDropped ::
  "'a \<Rightarrow> nat \<Rightarrow> 'a ThreadSafeQueue \<Rightarrow> 'a ThreadSafeQueue \<times> nat" where
  "PushDropOldestCountDropped value max_size q =
     (case drop_oldest_loop max_size (tsq_queue q) 0 of
        (kept, dropped) \<Rightarrow> (q\<lparr>tsq_queue := kept @ [value]\<rparr>, dropped))"

definition PushDropOldest :: "'a \<Rightarrow> nat \<Rightarrow> 'a ThreadSafeQueue \<Rightarrow> 'a ThreadSafeQueue" where
  "PushDropOldest value max_size q = fst (PushDropOldestCountDropped value max_size q)"

text \<open>\<^verbatim>\<open>std::find_if\<close> and \<^verbatim>\<open>erase\<close> of the candidate it found.\<close>

fun erase_first :: "('a \<Rightarrow> bool) \<Rightarrow> 'a list \<Rightarrow> 'a list option" where
  "erase_first P [] = None"
| "erase_first P (x # xs) = (if P x then Some xs else map_option ((#) x) (erase_first P xs))"

lemma length_erase_first: "erase_first P xs = Some ys \<Longrightarrow> length xs = Suc (length ys)"
  by (induction P xs arbitrary: ys rule: erase_first.induct) (auto split: if_splits)

function drop_selective_loop :: "('a \<Rightarrow> bool) \<Rightarrow> nat \<Rightarrow> 'a list \<Rightarrow> nat \<Rightarrow> 'a list \<times> nat" where
  "drop_selective_loop P max_size xs dropped =
     (if max_size \<le> length xs \<and> xs \<noteq> [] then
        (case erase_first P xs of
           Some ys \<Rightarrow> drop_selective_loop P max_size ys (Suc dropped)
         | None \<Rightarrow> drop_selective_loop P max_size (tl xs) (Suc dropped))
      else (xs, dropped))"
  by pat_completeness auto
termination
  by (relation "measure (\<lambda>(P, m, xs, d). length xs)") (auto dest: length_erase_first)

declare drop_selective_loop.simps [simp del]

definition PushDropSelective ::
  "'a \<Rightarrow> nat \<Rightarrow> ('a \<Rightarrow> bool) \<Rightarrow> 'a ThreadSafeQueue \<Rightarrow> 'a ThreadSafeQueue \<times> nat" where
  "PushDropSelective value max_size P q =
     (case drop_selective_loop P max_size (tsq_queue q) 0 of
        (kept, dropped) \<Rightarrow> (q\<lparr>tsq_queue := kept @ [value]\<rparr>, dropped))"

definition ThreadSafeQueue_TryPop :: "'a ThreadSafeQueue \<Rightarrow> 'a ThreadSafeQueue \<times> 'a option" where
  "ThreadSafeQueue_TryPop q =
     (case tsq_queue q of [] \<Rightarrow> (q, None) | x # xs \<Rightarrow> (q\<lparr>tsq_queue := xs\<rparr>, Some x))"

text \<open>\<open>WaitPopFor\<close>: the wait ends with a non-empty queue, or times out (\<open>None\<close>).
  \<open>arrivals\<close> is what other threads push before the time-out while the mutex is released.\<close>

fun WaitPopFor :: "('a ThreadSafeQueue \<Rightarrow> 'a ThreadSafeQueue) list \<Rightarrow> 'a ThreadSafeQueue \<Rightarrow>
    'a ThreadSafeQueue \<times> 'a option" where
  "WaitPopFor arrivals q =
     (case tsq_queue q of
        x # xs \<Rightarrow> (q\<lparr>tsq_queue := xs\<rparr>, Some x)
      | [] \<Rightarrow> (case arrivals of [] \<Rightarrow> (q, None) | f # fs \<Rightarrow> WaitPopFor fs (f q)))"

definition ThreadSafeQueue_Clear :: "'a ThreadSafeQueue \<Rightarrow> 'a ThreadSafeQueue" where
  "ThreadSafeQueue_Clear q = q\<lparr>tsq_queue := []\<rparr>"

definition ThreadSafeQueue_Empty :: "'a ThreadSafeQueue \<Rightarrow> bool" where
  "ThreadSafeQueue_Empty q \<longleftrightarrow> tsq_queue q = []"

definition ThreadSafeQueue_Size :: "'a ThreadSafeQueue \<Rightarrow> nat" where
  "ThreadSafeQueue_Size q = length (tsq_queue q)"

definition AnyMatching :: "('a \<Rightarrow> bool) \<Rightarrow> 'a ThreadSafeQueue \<Rightarrow> bool" where
  "AnyMatching P q \<longleftrightarrow> list_ex P (tsq_queue q)"

subsection \<open>BoundedQueue (client)\<close>

record 'a BoundedQueue =
  bq_capacity :: nat
  bq_closed :: bool
  bq_queue :: "'a list"

definition BoundedQueue_new :: "nat \<Rightarrow> 'a BoundedQueue" where
  "BoundedQueue_new capacity = \<lparr>bq_capacity = max 1 capacity, bq_closed = False, bq_queue = []\<rparr>"

definition PushOrDropOldest :: "'a \<Rightarrow> 'a BoundedQueue \<Rightarrow> 'a BoundedQueue \<times> bool" where
  "PushOrDropOldest value q =
     (if bq_closed q then (q, False)
      else
        let kept = (if bq_capacity q \<le> length (bq_queue q) then tl (bq_queue q) else bq_queue q)
        in (q\<lparr>bq_queue := kept @ [value]\<rparr>, True))"

text \<open>\<open>WaitPop\<close> blocks (no step, outer \<open>None\<close>) while the queue is open and empty; otherwise it
  returns the front, or fails when the queue is closed and drained.\<close>

definition WaitPop :: "'a BoundedQueue \<Rightarrow> ('a BoundedQueue \<times> 'a option) option" where
  "WaitPop q =
     (if \<not> (bq_closed q \<or> bq_queue q \<noteq> []) then None
      else Some (case bq_queue q of [] \<Rightarrow> (q, None) | x # xs \<Rightarrow> (q\<lparr>bq_queue := xs\<rparr>, Some x)))"

definition BoundedQueue_TryPop :: "'a BoundedQueue \<Rightarrow> 'a BoundedQueue \<times> 'a option" where
  "BoundedQueue_TryPop q =
     (case bq_queue q of [] \<Rightarrow> (q, None) | x # xs \<Rightarrow> (q\<lparr>bq_queue := xs\<rparr>, Some x))"

definition BoundedQueue_Size :: "'a BoundedQueue \<Rightarrow> nat" where
  "BoundedQueue_Size q = length (bq_queue q)"

definition BoundedQueue_Close :: "'a BoundedQueue \<Rightarrow> 'a BoundedQueue" where
  "BoundedQueue_Close q = q\<lparr>bq_closed := True\<rparr>"

subsection \<open>The eviction loops\<close>

lemma drop_oldest_loop_eq:
  "drop_oldest_loop m xs d = (drop (Suc (length xs) - max 1 m) xs, d + min (length xs) (Suc (length xs) - max 1 m))"
proof (induction m xs d rule: drop_oldest_loop.induct)
  case (1 m d)
  then show ?case by simp
next
  case (2 m x xs d)
  show ?case
  proof (cases "m \<le> length (x # xs)")
    case True
    then have "Suc (length (x # xs)) - max 1 m = Suc (Suc (length xs) - max 1 m)" by simp
    with 2 True show ?thesis by simp
  next
    case False
    then show ?thesis by simp
  qed
qed

text \<open>What the selective loop keeps: the first elements satisfying the predicate go first, and
  only when none is left does the front go.\<close>

lemma erase_first_None_iff: "erase_first P xs = None \<longleftrightarrow> (\<forall>x\<in>set xs. \<not> P x)"
  by (induction xs) auto

lemma erase_first_filter_not: "erase_first P xs = Some ys \<Longrightarrow> filter (\<lambda>x. \<not> P x) ys = filter (\<lambda>x. \<not> P x) xs"
  by (induction P xs arbitrary: ys rule: erase_first.induct) (auto split: if_splits)

lemma erase_first_filter: "erase_first P xs = Some ys \<Longrightarrow> filter P ys = tl (filter P xs)"
  by (induction P xs arbitrary: ys rule: erase_first.induct) (auto split: if_splits)

lemma drop_selective_loop_length:
  "length (fst (drop_selective_loop P m xs d)) = min (length xs) (m - 1)"
proof (induction P m xs d rule: drop_selective_loop.induct)
  case (1 P m xs d)
  then show ?case
    by (cases xs; subst drop_selective_loop.simps)
       (auto dest: length_erase_first split: option.splits simp: min_def)
qed

lemma drop_selective_loop_dropped:
  "snd (drop_selective_loop P m xs d) + length (fst (drop_selective_loop P m xs d)) = d + length xs"
proof (induction P m xs d rule: drop_selective_loop.induct)
  case (1 P m xs d)
  then show ?case
    by (subst (1 2) drop_selective_loop.simps)
       (auto dest: length_erase_first split: option.splits)
qed

text \<open>While a droppable element is left, no protected one is dropped.\<close>

lemma drop_selective_loop_protects:
  assumes "length (filter (\<lambda>x. \<not> P x) xs) < m"
  shows "filter (\<lambda>x. \<not> P x) (fst (drop_selective_loop P m xs d)) = filter (\<lambda>x. \<not> P x) xs"
  using assms
proof (induction P m xs d rule: drop_selective_loop.induct)
  case (1 P m xs d)
  show ?case
  proof (cases "m \<le> length xs \<and> xs \<noteq> []")
    case True
    have "\<exists>x\<in>set xs. P x"
    proof (rule ccontr)
      assume "\<not> (\<exists>x\<in>set xs. P x)"
      then have "filter (\<lambda>x. \<not> P x) xs = xs" by simp
      with True "1.prems" show False by simp
    qed
    then obtain ys where ys: "erase_first P xs = Some ys"
      using erase_first_None_iff [of P xs] by (cases "erase_first P xs") auto
    have same: "filter (\<lambda>x. \<not> P x) ys = filter (\<lambda>x. \<not> P x) xs"
      using ys by (rule erase_first_filter_not)
    have "filter (\<lambda>x. \<not> P x) (fst (drop_selective_loop P m ys (Suc d))) = filter (\<lambda>x. \<not> P x) ys"
      using True ys same "1.prems" by (intro "1.IH") auto
    then show ?thesis
      using True ys same by (subst drop_selective_loop.simps) simp
  next
    case False
    then show ?thesis by (subst drop_selective_loop.simps) auto
  qed
qed

subsection \<open>The contract the two queues share\<close>

text \<open>
  What the capture, transport and playback pipelines rely on when they hand frames through a
  queue: a push never blocks and evicts from the front only, a pop takes the front. \<open>live\<close> is the
  set of states in which pushes are accepted, \<open>cap\<close> the number of elements kept.
\<close>

datatype 'a queue_op = Enqueue 'a | Dequeue

definition pushed_values :: "'a queue_op list \<Rightarrow> 'a list" where
  "pushed_values ops = concat (map (\<lambda>op. case op of Enqueue x \<Rightarrow> [x] | Dequeue \<Rightarrow> []) ops)"

text \<open>Running a schedule of operations of any number of producers and consumers, in the order in
  which they obtain the mutex: the final state and the values the consumers received, in order.\<close>

fun run_queue ::
  "('a \<Rightarrow> 'q \<Rightarrow> 'q) \<Rightarrow> ('q \<Rightarrow> 'q \<times> 'a option) \<Rightarrow> 'q \<Rightarrow> 'a queue_op list \<Rightarrow> 'q \<times> 'a list" where
  "run_queue push pop q [] = (q, [])"
| "run_queue push pop q (Enqueue x # ops) = run_queue push pop (push x q) ops"
| "run_queue push pop q (Dequeue # ops) =
     (case pop q of (q1, r) \<Rightarrow> case run_queue push pop q1 ops of
        (q2, out) \<Rightarrow> (q2, (case r of None \<Rightarrow> [] | Some x \<Rightarrow> [x]) @ out))"

lemma pushed_values_simps [simp]:
  "pushed_values [] = []"
  "pushed_values (Enqueue x # ops) = x # pushed_values ops"
  "pushed_values (Dequeue # ops) = pushed_values ops"
  by (simp_all add: pushed_values_def)

locale drop_oldest_queue =
  fixes push :: "'a \<Rightarrow> 'q \<Rightarrow> 'q"
    and pop :: "'q \<Rightarrow> 'q \<times> 'a option"
    and contents :: "'q \<Rightarrow> 'a list"
    and cap :: nat
    and live :: "'q \<Rightarrow> bool"
  assumes contents_push: "live q \<Longrightarrow> length (contents q) \<le> cap \<Longrightarrow>
      contents (push x q) = drop (Suc (length (contents q)) - cap) (contents q) @ [x]"
    and live_push: "live q \<Longrightarrow> live (push x q)"
    and pop_spec: "live q \<Longrightarrow> pop q = (q', r) \<Longrightarrow>
      live q' \<and> (case contents q of [] \<Rightarrow> r = None \<and> q' = q
                 | x # xs \<Rightarrow> r = Some x \<and> contents q' = xs)"
    and cap_pos: "0 < cap"
begin

lemma push_bounded: "live q \<Longrightarrow> length (contents q) \<le> cap \<Longrightarrow> length (contents (push x q)) \<le> cap"
  using cap_pos by (simp add: contents_push)

lemma pop_bounded: "live q \<Longrightarrow> pop q = (q', r) \<Longrightarrow> length (contents q) \<le> cap \<Longrightarrow> length (contents q') \<le> cap"
  by (drule (1) pop_spec) (auto split: list.splits)

lemma run_queue_bounded:
  "live q \<Longrightarrow> length (contents q) \<le> cap \<Longrightarrow> run_queue push pop q ops = (q', out) \<Longrightarrow>
     live q' \<and> length (contents q') \<le> cap"
proof (induction ops arbitrary: q out)
  case Nil
  then show ?case by simp
next
  case (Cons op ops)
  show ?case
  proof (cases op)
    case (Enqueue x)
    with Cons.prems show ?thesis
      using Cons.IH [of "push x q"] live_push push_bounded by simp
  next
    case Dequeue
    obtain q1 r where q1: "pop q = (q1, r)" by fastforce
    have "live q1" using pop_spec [OF Cons.prems(1) q1] by simp
    moreover have "length (contents q1) \<le> cap" using q1 Cons.prems by (blast intro: pop_bounded)
    ultimately show ?thesis
      using Cons.IH [of q1] Cons.prems(3) Dequeue q1 by (auto split: prod.splits)
  qed
qed

text \<open>Values come out in the order they went in, none twice and none invented.\<close>

lemma run_queue_fifo:
  "live q \<Longrightarrow> length (contents q) \<le> cap \<Longrightarrow> run_queue push pop q ops = (q', out) \<Longrightarrow>
     subseq (out @ contents q') (contents q @ pushed_values ops)"
proof (induction ops arbitrary: q out)
  case Nil
  then show ?case by simp
next
  case (Cons op ops)
  show ?case
  proof (cases op)
    case (Enqueue x)
    have "subseq (out @ contents q') (contents (push x q) @ pushed_values ops)"
      using Cons.prems Enqueue by (auto intro: Cons.IH live_push push_bounded)
    moreover have "subseq (contents (push x q)) (contents q @ [x])"
      using Cons.prems by (simp add: contents_push suffix_imp_subseq suffix_drop)
    ultimately show ?thesis
      using Enqueue subseq_append [of "contents (push x q)" "pushed_values ops" "contents q @ [x]"]
      by (auto intro: subseq_order.trans)
  next
    case Dequeue
    obtain q1 r where q1: "pop q = (q1, r)" by fastforce
    obtain out1 where out1: "run_queue push pop q1 ops = (q', out1)"
      and out: "out = (case r of None \<Rightarrow> [] | Some x \<Rightarrow> [x]) @ out1"
      using Cons.prems(3) Dequeue q1 by (auto split: prod.splits)
    have "live q1" using pop_spec [OF Cons.prems(1) q1] by simp
    then have "subseq (out1 @ contents q') (contents q1 @ pushed_values ops)"
      using out1 q1 Cons.prems by (blast intro: Cons.IH pop_bounded)
    then show ?thesis
      using pop_spec [OF Cons.prems(1) q1] out Dequeue by (auto split: list.splits)
  qed
qed

text \<open>Without a consumer the queue holds the most recent \<open>cap\<close> values.\<close>

lemma fold_push_contents:
  "live q \<Longrightarrow> length (contents q) \<le> cap \<Longrightarrow>
     contents (fold push xs q) = drop (length (contents q @ xs) - cap) (contents q @ xs)"
proof (induction xs arbitrary: q)
  case Nil
  then show ?case by simp
next
  case (Cons x xs)
  then have "contents (fold push xs (push x q)) =
      drop (length (contents (push x q) @ xs) - cap) (contents (push x q) @ xs)"
    by (intro Cons.IH live_push push_bounded)
  then show ?case
    using Cons.prems cap_pos
    by (cases "length (contents q) < cap") (auto simp: contents_push Suc_diff_le)
qed

end

text \<open>Both queues provide the contract: the server's with the bound passed at each push, the
  client's with the capacity fixed at construction and as long as it is open.\<close>

lemma PushDropOldest_queue:
  "tsq_queue (PushDropOldest x m q) =
     drop (Suc (length (tsq_queue q)) - max 1 m) (tsq_queue q) @ [x]"
  by (simp add: PushDropOldest_def PushDropOldestCountDropped_def drop_oldest_loop_eq)

lemma drop_full_is_tl: "Suc n = length xs \<Longrightarrow> drop (length xs - n) xs = tl xs"
  by (metis diff_Suc_1' Suc_diff_le drop0 drop_Suc le_refl diff_self_eq_0 One_nat_def)

interpretation tsq: drop_oldest_queue "\<lambda>x. PushDropOldest x (Suc n)" ThreadSafeQueue_TryPop tsq_queue
    "Suc n" "\<lambda>_. True" for n
  by unfold_locales
     (auto simp: PushDropOldest_queue ThreadSafeQueue_TryPop_def split: list.splits)

interpretation bq: drop_oldest_queue "\<lambda>x q. fst (PushOrDropOldest x q)" BoundedQueue_TryPop bq_queue
    "Suc n" "\<lambda>q. \<not> bq_closed q \<and> bq_capacity q = Suc n" for n
  by unfold_locales
     (auto simp: PushOrDropOldest_def BoundedQueue_TryPop_def Let_def drop_full_is_tl split: list.splits)

end
