(* ===== verification/Tcp_Session.thy ===== *)
theory Tcp_Session
  imports Server_Config Frames Stream_Protocol Queues Latency Sockets
begin

section \<open>A TCP client session of the server\<close>

text \<open>
  \<^verbatim>\<open>sserver/src/modules/transport/tcp/TcpClientSession.cpp\<close>: the encoder thread puts frames into
  a bounded queue, the send thread takes them out and writes them to the socket, the receive thread
  watches for keep-alive messages. The object is the record \<open>TcpClientSession\<close>; \<open>ts_wire\<close> is what the
  kernel has accepted for sending on its socket. The clock and the latency recorder all sessions share
  are in \<open>TcpEnv\<close>. Log output is left out.

  The three threads share the queue (every operation of which is atomic, theory \<open>Queues\<close>), the flag
  \<^verbatim>\<open>running_\<close> and the descriptor. The handlers are therefore cut where another thread can
  come in between, and \<open>session_run\<close> is the interleaving of their parts.
\<close>

subsection \<open>State\<close>

record TcpEnv =
  te_clock :: "nat \<Rightarrow> u64"
  te_clock_reads :: nat
  te_send_latency_recorder :: "LatencyRecorder option"

definition tcp_now :: "TcpEnv \<Rightarrow> TcpEnv \<times> u64" where
  "tcp_now e = (e\<lparr>te_clock_reads := Suc (te_clock_reads e)\<rparr>, te_clock e (te_clock_reads e))"

record QueuedFrame =
  qf_frame :: EncodedFramePtr
  qf_enqueue_timestamp_ns :: u64

record TcpClientSession =
  ts_socket_fd :: int
  ts_config :: TransportConfig
  ts_running :: bool
  ts_outbound_frames :: "QueuedFrame ThreadSafeQueue"
  ts_queue_wait_latency_recorder :: LatencyRecorder
  ts_send_time_latency_recorder :: LatencyRecorder
  ts_latency_log_interval_frames :: int
  ts_sent_frames :: u64
  ts_overflow_dropped_frames :: u64
  ts_stale_dropped_frames :: u64
  ts_dropped_incoming_non_keyframes :: u64
  ts_backpressure_events :: u64
  ts_max_queue_depth :: nat
  ts_remote_endpoint :: string
  ts_wire :: bytes

text \<open>The constructor; \<open>endpoint\<close> is what \<^verbatim>\<open>BuildRemoteEndpoint\<close> reads from the socket.\<close>

definition TcpClientSession_new :: "int \<Rightarrow> TransportConfig \<Rightarrow> int \<Rightarrow> string \<Rightarrow> TcpClientSession" where
  "TcpClientSession_new fd cfg interval endpoint =
     \<lparr>ts_socket_fd = fd, ts_config = cfg, ts_running = False, ts_outbound_frames = ThreadSafeQueue_new,
      ts_queue_wait_latency_recorder = LatencyRecorder_new 4096,
      ts_send_time_latency_recorder = LatencyRecorder_new 4096,
      ts_latency_log_interval_frames = interval, ts_sent_frames = 0, ts_overflow_dropped_frames = 0,
      ts_stale_dropped_frames = 0, ts_dropped_incoming_non_keyframes = 0, ts_backpressure_events = 0,
      ts_max_queue_depth = 0, ts_remote_endpoint = endpoint, ts_wire = []\<rparr>"

definition Start_session :: "TcpClientSession \<Rightarrow> TcpClientSession \<times> bool" where
  "Start_session s = (if ts_socket_fd s < 0 then (s, False) else (s\<lparr>ts_running := True\<rparr>, True))"

definition CloseSocket_tcp :: "TcpClientSession \<Rightarrow> TcpClientSession" where
  "CloseSocket_tcp s = (if 0 \<le> ts_socket_fd s then s\<lparr>ts_socket_fd := -1\<rparr> else s)"

text \<open>What both loops do when they end, and the first half of \<open>Stop\<close>.\<close>

definition leave_session :: "TcpClientSession \<Rightarrow> TcpClientSession" where
  "leave_session s = CloseSocket_tcp (s\<lparr>ts_running := False\<rparr>)"

text \<open>\<open>Stop\<close> empties the queue once both threads have ended.\<close>

definition Stop_session :: "TcpClientSession \<Rightarrow> TcpClientSession" where
  "Stop_session s = (let s = leave_session s in s\<lparr>ts_outbound_frames := ThreadSafeQueue_Clear (ts_outbound_frames s)\<rparr>)"

subsection \<open>Enqueueing a frame\<close>

definition droppable :: "QueuedFrame \<Rightarrow> bool" where
  "droppable candidate = (case qf_frame candidate of None \<Rightarrow> False | Some frame \<Rightarrow> \<not> ef_is_keyframe frame)"

text \<open>The four accesses to the queue, in order: its depth before the push, whether a droppable frame
  is in it, the push, its depth after it. \<open>None\<close> ends the call.\<close>

definition enqueue_begin ::
  "EncodedFramePtr \<Rightarrow> TcpEnv \<Rightarrow> TcpClientSession \<Rightarrow> TcpEnv \<times> TcpClientSession \<times> (QueuedFrame \<times> nat) option" where
  "enqueue_begin frame e s =
     (if \<not> ts_running s \<or> frame = None then (e, s, None)
      else
        let (e, now_ns) = tcp_now e; depth = ThreadSafeQueue_Size (ts_outbound_frames s);
            s = (if tc_max_pending_frames (ts_config s) \<le> depth
                 then s\<lparr>ts_backpressure_events := ts_backpressure_events s + 1\<rparr> else s)
        in (e, s, Some (\<lparr>qf_frame = frame, qf_enqueue_timestamp_ns = now_ns\<rparr>, depth)))"

definition enqueue_admit :: "QueuedFrame \<Rightarrow> nat \<Rightarrow> TcpClientSession \<Rightarrow> TcpClientSession \<times> bool" where
  "enqueue_admit queued_frame depth s =
     (if tc_queue_drop_policy (ts_config s) = ''drop_oldest_non_key'' \<and> droppable queued_frame \<and>
         tc_max_pending_frames (ts_config s) \<le> depth \<and> \<not> AnyMatching droppable (ts_outbound_frames s)
      then (s\<lparr>ts_dropped_incoming_non_keyframes := ts_dropped_incoming_non_keyframes s + 1\<rparr>, False)
      else (s, True))"

definition enqueue_push :: "QueuedFrame \<Rightarrow> TcpClientSession \<Rightarrow> TcpClientSession" where
  "enqueue_push queued_frame s =
     (let max_size = tc_max_pending_frames (ts_config s);
          (q, dropped) =
            (if tc_queue_drop_policy (ts_config s) = ''drop_oldest_non_key''
             then PushDropSelective queued_frame max_size droppable (ts_outbound_frames s)
             else PushDropOldestCountDropped queued_frame max_size (ts_outbound_frames s))
      in s\<lparr>ts_outbound_frames := q,
           ts_overflow_dropped_frames := ts_overflow_dropped_frames s + of_nat dropped\<rparr>)"

definition enqueue_note_depth :: "TcpClientSession \<Rightarrow> TcpClientSession" where
  "enqueue_note_depth s =
     (let current_depth = ThreadSafeQueue_Size (ts_outbound_frames s) in
      if ts_max_queue_depth s < current_depth then s\<lparr>ts_max_queue_depth := current_depth\<rparr> else s)"

definition EnqueueFrame :: "EncodedFramePtr \<Rightarrow> TcpEnv \<Rightarrow> TcpClientSession \<Rightarrow> TcpEnv \<times> TcpClientSession" where
  "EnqueueFrame frame e s =
     (case enqueue_begin frame e s of
        (e, s, None) \<Rightarrow> (e, s)
      | (e, s, Some (queued_frame, depth)) \<Rightarrow>
          (case enqueue_admit queued_frame depth s of
             (s, False) \<Rightarrow> (e, s)
           | (s, True) \<Rightarrow> (e, enqueue_note_depth (enqueue_push queued_frame s))))"

subsection \<open>Writing to the socket\<close>

text \<open>The buffers left after \<open>sent\<close> bytes went out.\<close>

fun shift_parts :: "nat \<Rightarrow> bytes list \<Rightarrow> bytes list" where
  "shift_parts sent [] = []"
| "shift_parts sent (part # parts) =
     (if length part \<le> sent then shift_parts (sent - length part) parts else drop sent part # parts)"

text \<open>The loop of \<open>SendMessageParts\<close>: what it put on the wire and its result, \<open>None\<close> while the call
  is blocked.\<close>

fun send_parts :: "send_result list \<Rightarrow> bytes list \<Rightarrow> bytes \<times> bool option" where
  "send_parts rs [] = ([], Some True)"
| "send_parts [] parts = ([], None)"
| "send_parts (r # rs) parts =
     (case r of
        SendInterrupted \<Rightarrow> send_parts rs parts
      | SendFailed \<Rightarrow> ([], Some False)
      | StopSeen \<Rightarrow> ([], Some False)
      | SendCount sent \<Rightarrow>
          if sent = 0 then ([], Some False)
          else case send_parts rs (shift_parts sent parts) of
                 (written, result) \<Rightarrow> (take sent (concat parts) @ written, result))"

definition SendMessageParts :: "send_result list \<Rightarrow> bytes list \<Rightarrow> TcpClientSession \<Rightarrow> TcpClientSession \<times> bool option" where
  "SendMessageParts rs parts s =
     (let parts = filter (\<lambda>part. part \<noteq> []) parts in
      if \<not> ts_running s then (s, Some (parts = []))
      else case send_parts rs parts of (written, result) \<Rightarrow> (s\<lparr>ts_wire := ts_wire s @ written\<rparr>, result))"

definition frame_diagnostics :: "EncodedFrame \<Rightarrow> u64 \<Rightarrow> FrameDiagnosticMetadata" where
  "frame_diagnostics frame send_ns =
     \<lparr>md_sequence = ef_sequence frame, md_capture_timestamp_ns = ef_capture_timestamp_ns frame,
      md_encode_start_timestamp_ns = ef_encode_start_timestamp_ns frame,
      md_encode_end_timestamp_ns = ef_encode_end_timestamp_ns frame, md_transport_send_timestamp_ns = send_ns\<rparr>"

definition tcp_header :: "TransportConfig \<Rightarrow> EncodedFrame \<Rightarrow> MessageHeader" where
  "tcp_header cfg frame =
     (FillMessageMagic MessageHeader_zero)\<lparr>mh_message_type := MessageType_code kAvStream,
       mh_sub_type := StreamPayloadType_code (ef_type frame),
       mh_payload_length :=
         (if tc_embed_frame_metadata cfg then of_nat (sizeof_FrameDiagnosticMetadata + length (ef_payload frame))
          else of_nat (length (ef_payload frame)))\<rparr>"

definition message_parts :: "TransportConfig \<Rightarrow> EncodedFrame \<Rightarrow> u64 \<Rightarrow> bytes list" where
  "message_parts cfg frame send_ns =
     [put_MessageHeader (tcp_header cfg frame),
      (if tc_embed_frame_metadata cfg then put_FrameDiagnosticMetadata (frame_diagnostics frame send_ns) else []),
      ef_payload frame]"

definition SendFrame ::
  "send_result list \<Rightarrow> EncodedFrame \<Rightarrow> u64 \<Rightarrow> TcpClientSession \<Rightarrow> TcpClientSession \<times> bool option" where
  "SendFrame rs frame send_ns s = SendMessageParts rs (message_parts (ts_config s) frame send_ns) s"

subsection \<open>The send thread\<close>

text \<open>How one pass of the loop with a popped frame ends. Sending a null frame would be a crash.\<close>

datatype send_outcome = FrameSent u64 | FrameStale | SendBroken | SendBlocked | NullDereference

definition queue_wait_exceeded :: "TransportConfig \<Rightarrow> QueuedFrame \<Rightarrow> u64 \<Rightarrow> bool" where
  "queue_wait_exceeded cfg queued_frame wait_ns \<longleftrightarrow>
     0 < tc_max_queue_wait_ms cfg \<and> droppable queued_frame \<and>
     of_int (tc_max_queue_wait_ms cfg) * 1000 * 1000 < wait_ns"

definition record_sent :: "EncodedFrame \<Rightarrow> u64 \<Rightarrow> TcpEnv \<Rightarrow> TcpClientSession \<Rightarrow> TcpEnv \<times> TcpClientSession" where
  "record_sent frame send_end_ns e s =
     (case te_send_latency_recorder e of
        None \<Rightarrow> (e, s)
      | Some recorder \<Rightarrow>
          if ef_capture_timestamp_ns frame = 0 then (e, s)
          else (e\<lparr>te_send_latency_recorder := Some (RecordNs (send_end_ns - ef_capture_timestamp_ns frame) recorder)\<rparr>,
                s\<lparr>ts_sent_frames := ts_sent_frames s + 1\<rparr>))"

text \<open>The wait is recorded when the clock allows; then a frame that waited too long is dropped.\<close>

definition has_waited :: "QueuedFrame \<Rightarrow> u64 \<Rightarrow> bool" where
  "has_waited queued_frame start_ns \<longleftrightarrow>
     qf_enqueue_timestamp_ns queued_frame \<noteq> 0 \<and> qf_enqueue_timestamp_ns queued_frame \<le> start_ns"

definition note_queue_wait :: "QueuedFrame \<Rightarrow> u64 \<Rightarrow> TcpClientSession \<Rightarrow> TcpClientSession" where
  "note_queue_wait queued_frame start_ns s =
     (if has_waited queued_frame start_ns
      then s\<lparr>ts_queue_wait_latency_recorder :=
               RecordNs (start_ns - qf_enqueue_timestamp_ns queued_frame) (ts_queue_wait_latency_recorder s)\<rparr>
      else s)"

definition note_send_time :: "u64 \<Rightarrow> u64 \<Rightarrow> TcpClientSession \<Rightarrow> TcpClientSession" where
  "note_send_time start_ns end_ns s =
     (if start_ns \<le> end_ns
      then s\<lparr>ts_send_time_latency_recorder := RecordNs (end_ns - start_ns) (ts_send_time_latency_recorder s)\<rparr>
      else s)"

definition transmit_frame ::
  "send_result list \<Rightarrow> EncodedFrame \<Rightarrow> u64 \<Rightarrow> TcpEnv \<Rightarrow> TcpClientSession \<Rightarrow> TcpEnv \<times> TcpClientSession \<times> send_outcome" where
  "transmit_frame rs frame start_ns e s =
     (case SendFrame rs frame start_ns s of
        (s, None) \<Rightarrow> (e, s, SendBlocked)
      | (s, Some False) \<Rightarrow> (e, s, SendBroken)
      | (s, Some True) \<Rightarrow>
          let (e, end_ns) = tcp_now e; (e, s) = record_sent frame end_ns e (note_send_time start_ns end_ns s)
          in (e, s, FrameSent start_ns))"

definition send_queued ::
  "send_result list \<Rightarrow> QueuedFrame \<Rightarrow> TcpEnv \<Rightarrow> TcpClientSession \<Rightarrow> TcpEnv \<times> TcpClientSession \<times> send_outcome" where
  "send_queued rs queued_frame e s =
     (let (e, start_ns) = tcp_now e; s = note_queue_wait queued_frame start_ns s in
      if has_waited queued_frame start_ns \<and>
         queue_wait_exceeded (ts_config s) queued_frame (start_ns - qf_enqueue_timestamp_ns queued_frame)
      then (e, s\<lparr>ts_stale_dropped_frames := ts_stale_dropped_frames s + 1\<rparr>, FrameStale)
      else
        case qf_frame queued_frame of
          None \<Rightarrow> (e, s, NullDereference)
        | Some frame \<Rightarrow> transmit_frame rs frame start_ns e s)"

text \<open>The whole loop. Each pass is given what other threads push while it waits for a frame, and the
  results of its \<^verbatim>\<open>sendmsg\<close> calls. After the last pass the thread is still running.\<close>

fun SendLoop ::
  "((QueuedFrame ThreadSafeQueue \<Rightarrow> QueuedFrame ThreadSafeQueue) list \<times> send_result list) list \<Rightarrow>
    TcpEnv \<Rightarrow> TcpClientSession \<Rightarrow> TcpEnv \<times> TcpClientSession" where
  "SendLoop passes e s =
     (if \<not> ts_running s then (e, leave_session s)
      else case passes of
        [] \<Rightarrow> (e, s)
      | (arrivals, rs) # passes \<Rightarrow>
          (case WaitPopFor arrivals (ts_outbound_frames s) of
             (q, None) \<Rightarrow> SendLoop passes e (s\<lparr>ts_outbound_frames := q\<rparr>)
           | (q, Some queued_frame) \<Rightarrow>
               (case send_queued rs queued_frame e (s\<lparr>ts_outbound_frames := q\<rparr>) of
                  (e, s, SendBroken) \<Rightarrow> (e, leave_session s)
                | (e, s, SendBlocked) \<Rightarrow> (e, s)
                | (e, s, NullDereference) \<Rightarrow> (e, s)
                | (e, s, _) \<Rightarrow> SendLoop passes e s)))"

subsection \<open>The receive thread\<close>

text \<open>Reading exactly \<open>length\<close> bytes; \<open>None\<close> when the call is still waiting for data.\<close>

fun ReceiveAll_server :: "nat \<Rightarrow> recv_result list \<Rightarrow> recv_result list \<times> bytes option option" where
  "ReceiveAll_server count rs =
     (if count = 0 then (rs, Some (Some []))
      else case rs of
        [] \<Rightarrow> ([], None)
      | RecvInterrupted # rs \<Rightarrow> ReceiveAll_server count rs
      | RecvEof # rs \<Rightarrow> (rs, Some None)
      | RecvWouldBlock # rs \<Rightarrow> (rs, Some None)
      | RecvError _ # rs \<Rightarrow> (rs, Some None)
      | Received data # rs \<Rightarrow>
          if data = [] then (rs, Some None)
          else if count < length data then (Received (drop count data) # rs, Some (Some (take count data)))
          else (case ReceiveAll_server (count - length data) rs of
                  (rs, r) \<Rightarrow> (rs, map_option (map_option ((@) data)) r)))"

declare SendLoop.simps [simp del] ReceiveAll_server.simps [simp del]

text \<open>What \<^verbatim>\<open>select\<close> reports; \<open>StopNoticed\<close>: the flag \<^verbatim>\<open>running_\<close> was cleared meanwhile.\<close>

datatype select_result = Readable | PollTimeout | PollInterrupted | PollFailed | StopNoticed

definition is_keepalive_header :: "bytes \<Rightarrow> bool" where
  "is_keepalive_header data =
     (let header = get_MessageHeader data in
      HasValidMessageMagic header \<and> mh_message_type header = MessageType_code kKeepAlive)"

definition keep_alive_limit :: int where "keep_alive_limit = 5"

fun ReceiveLoop_tcp :: "int \<Rightarrow> select_result list \<Rightarrow> recv_result list \<Rightarrow> TcpClientSession \<Rightarrow> TcpClientSession" where
  "ReceiveLoop_tcp keep_alive_budget [] rs s = (if ts_running s then s else leave_session s)"
| "ReceiveLoop_tcp keep_alive_budget (event # events) rs s =
     (if \<not> ts_running s then leave_session s
      else case event of
        StopNoticed \<Rightarrow> leave_session s
      | PollTimeout \<Rightarrow>
          if keep_alive_budget - 1 \<le> 0 then leave_session s
          else ReceiveLoop_tcp (keep_alive_budget - 1) events rs s
      | PollInterrupted \<Rightarrow> ReceiveLoop_tcp keep_alive_budget events rs s
      | PollFailed \<Rightarrow> leave_session s
      | Readable \<Rightarrow>
          (case ReceiveAll_server sizeof_MessageHeader rs of
             (rs, None) \<Rightarrow> s
           | (rs, Some None) \<Rightarrow> leave_session s
           | (rs, Some (Some data)) \<Rightarrow>
               ReceiveLoop_tcp (if is_keepalive_header data then keep_alive_limit else keep_alive_budget) events rs s))"

end
