(* ===== verification/Tcp_Session_Correct.thy ===== *)
theory Tcp_Session_Correct
  imports Tcp_Session
begin

section \<open>Correctness of the TCP session\<close>

text \<open>
  What the socket sees of a session: messages are written whole and in order whatever the kernel
  accepts at a time, the queue is bounded and spares key frames, every frame offered is accounted for,
  and a silent client is disconnected.
\<close>

subsection \<open>Writing a message\<close>

lemma shift_parts_concat: "concat (shift_parts n parts) = drop n (concat parts)"
  by (induction n parts rule: shift_parts.induct) auto

lemma shift_parts_nonempty: "[] \<notin> set parts \<Longrightarrow> [] \<notin> set (shift_parts n parts)"
  by (induction n parts rule: shift_parts.induct) auto

lemma concat_nonempty: "parts \<noteq> [] \<Longrightarrow> [] \<notin> set parts \<Longrightarrow> concat parts \<noteq> []"
  by (cases parts) auto

lemma send_parts_spec:
  assumes "[] \<notin> set parts" "send_parts rs parts = (written, result)"
  shows "prefix written (concat parts) \<and> (result = Some True \<longleftrightarrow> written = concat parts)"
  using assms
proof (induction rs parts arbitrary: written result rule: send_parts.induct)
  case (3 r rs part parts)
  let ?all = "part # parts"
  have ne: "concat ?all \<noteq> []" using "3.prems"(1) by auto
  show ?case
  proof (cases r)
    case (SendCount sent)
    show ?thesis
    proof (cases "sent = 0")
      case False
      obtain w where w: "send_parts rs (shift_parts sent ?all) = (w, result)" "written = take sent (concat ?all) @ w"
        using "3.prems"(2) SendCount False by (auto split: prod.splits)
      have "prefix w (drop sent (concat ?all)) \<and> (result = Some True \<longleftrightarrow> w = drop sent (concat ?all))"
        using "3.IH"(1) [OF SendCount False shift_parts_nonempty [OF "3.prems"(1)] w(1)]
      by (simp only: shift_parts_concat)
      then show ?thesis unfolding w(2) by (metis append_take_drop_id same_prefix_prefix same_append_eq)
    qed (use "3.prems" SendCount ne in auto)
  qed (use "3" ne in auto)
qed auto

lemma concat_filter_nonempty: "concat (filter (\<lambda>p. p \<noteq> []) parts) = concat parts"
  by (induction parts) auto

text \<open>C36: However the kernel splits the write, what a \<open>SendMessageParts\<close> puts on the wire is a prefix of its
  parts joined in order, and the call succeeds exactly when it is all of them.\<close>

theorem SendMessageParts_exact:
  assumes "ts_running s" "SendMessageParts rs parts s = (s', result)"
  shows "\<exists>written. s' = s\<lparr>ts_wire := ts_wire s @ written\<rparr> \<and> prefix written (concat parts) \<and>
    (result = Some True \<longleftrightarrow> written = concat parts)"
proof -
  let ?p = "filter (\<lambda>p. p \<noteq> []) parts"
  obtain w where w: "send_parts rs ?p = (w, result)" "s' = s\<lparr>ts_wire := ts_wire s @ w\<rparr>"
    using assms by (auto simp: SendMessageParts_def Let_def split: prod.splits)
  show ?thesis using send_parts_spec [OF _ w(1)] w(2) by (auto simp: concat_filter_nonempty)
qed

text \<open>The message of a frame.\<close>

definition tcp_message :: "TransportConfig \<Rightarrow> EncodedFrame \<Rightarrow> u64 \<Rightarrow> bytes" where
  "tcp_message cfg frame send_ns = concat (message_parts cfg frame send_ns)"

lemma SendFrame_spec:
  assumes "SendFrame rs frame send_ns s = (s', result)"
  shows "\<exists>written. s' = s\<lparr>ts_wire := ts_wire s @ written\<rparr> \<and> prefix written (tcp_message (ts_config s) frame send_ns) \<and>
    (result = Some True \<longrightarrow> written = tcp_message (ts_config s) frame send_ns)"
proof (cases "ts_running s")
  case True
  then obtain w where "s' = s\<lparr>ts_wire := ts_wire s @ w\<rparr>" "prefix w (tcp_message (ts_config s) frame send_ns)"
    "result = Some True \<longleftrightarrow> w = tcp_message (ts_config s) frame send_ns"
    using SendMessageParts_exact [OF True, of rs "message_parts (ts_config s) frame send_ns" s' result] assms
    unfolding SendFrame_def tcp_message_def by blast
  then show ?thesis by blast
next
  case False
  have "put_MessageHeader h \<noteq> []" for h by (auto simp: put_MessageHeader_def put_magic_def split: prod.splits)
  then have "filter (\<lambda>p. p \<noteq> []) (message_parts (ts_config s) frame send_ns) \<noteq> []" by (simp add: message_parts_def)
  then have "s' = s \<and> result = Some False" using assms False by (auto simp: SendFrame_def SendMessageParts_def Let_def)
  then show ?thesis by (intro exI [of _ "[]"]) simp
qed

subsection \<open>The queue\<close>

lemma erase_first_subseq: "erase_first P xs = Some ys \<Longrightarrow> subseq ys xs"
  by (induction P xs arbitrary: ys rule: erase_first.induct) (auto split: if_splits)

lemma drop_selective_loop_subseq: "subseq (fst (drop_selective_loop P m xs d)) xs"
proof (induction P m xs d rule: drop_selective_loop.induct)
  case (1 P m xs d)
  have "subseq (tl xs) xs" by (cases xs) auto
  then show ?case
    using "1.IH" erase_first_subseq [of P xs]
    by (subst drop_selective_loop.simps) (auto split: option.splits intro: subseq_order.trans)
qed

abbreviation queued :: "TcpClientSession \<Rightarrow> QueuedFrame list" where
  "queued s \<equiv> tsq_queue (ts_outbound_frames s)"

abbreviation max_pending :: "TcpClientSession \<Rightarrow> nat" where
  "max_pending s \<equiv> tc_max_pending_frames (ts_config s)"

lemma enqueue_push_spec:
  obtains kept dropped where
    "enqueue_push qf s = s\<lparr>ts_outbound_frames := \<lparr>tsq_queue = kept @ [qf]\<rparr>,
       ts_overflow_dropped_frames := ts_overflow_dropped_frames s + of_nat dropped\<rparr>"
    "subseq kept (queued s)" "length kept + dropped = length (queued s)" "length kept = min (length (queued s)) (max_pending s - 1)"
    "tc_queue_drop_policy (ts_config s) = ''drop_oldest_non_key'' \<Longrightarrow>
       length (filter (\<lambda>q. \<not> droppable q) (queued s)) < max_pending s \<Longrightarrow>
       filter (\<lambda>q. \<not> droppable q) kept = filter (\<lambda>q. \<not> droppable q) (queued s)"
proof (cases "tc_queue_drop_policy (ts_config s) = ''drop_oldest_non_key''")
  case True
  obtain kept dropped where k: "drop_selective_loop droppable (max_pending s) (queued s) 0 = (kept, dropped)" by fastforce
  show thesis
  proof (rule that)
    show "enqueue_push qf s = s\<lparr>ts_outbound_frames := \<lparr>tsq_queue = kept @ [qf]\<rparr>,
       ts_overflow_dropped_frames := ts_overflow_dropped_frames s + of_nat dropped\<rparr>"
      using True k by (simp add: enqueue_push_def PushDropSelective_def Let_def)
  qed (use k drop_selective_loop_subseq [of droppable "max_pending s" "queued s" 0]
      drop_selective_loop_dropped [of droppable "max_pending s" "queued s" 0]
      drop_selective_loop_length [of droppable "max_pending s" "queued s" 0]
      drop_selective_loop_protects [of droppable "queued s" "max_pending s" 0] in auto)
next
  case False
  let ?n = "Suc (length (queued s)) - max 1 (max_pending s)"
  show thesis
  proof (rule that)
    show "enqueue_push qf s = s\<lparr>ts_outbound_frames := \<lparr>tsq_queue = drop ?n (queued s) @ [qf]\<rparr>,
       ts_overflow_dropped_frames := ts_overflow_dropped_frames s + of_nat (min (length (queued s)) ?n)\<rparr>"
      using False by (simp add: enqueue_push_def PushDropOldestCountDropped_def drop_oldest_loop_eq Let_def)
    show "subseq (drop ?n (queued s)) (queued s)" by (simp add: suffix_drop suffix_imp_subseq)
  qed (use False in auto)
qed

lemma enqueue_begin_Some:
  assumes "enqueue_begin frame e s = (e', s', Some (qf, depth))"
  shows "frame \<noteq> None" "ts_running s" "qf_frame qf = frame" "depth = length (queued s)"
    "\<exists>n. s' = s\<lparr>ts_backpressure_events := n\<rparr>"
proof -
  have same: "\<exists>n. s = s\<lparr>ts_backpressure_events := n\<rparr>" by (rule exI [of _ "ts_backpressure_events s"]) simp
  show "frame \<noteq> None" "ts_running s" "qf_frame qf = frame" "depth = length (queued s)"
    "\<exists>n. s' = s\<lparr>ts_backpressure_events := n\<rparr>"
    using assms same by (auto simp: enqueue_begin_def tcp_now_def ThreadSafeQueue_Size_def Let_def split: if_splits)
qed

text \<open>With the policy \<^verbatim>\<open>drop_oldest_non_key\<close>, as long as fewer key frames than the limit are waiting, a
  new frame displaces no key frame: the key frames in the queue are those before it, in order, and the new one if it
  is a key frame.\<close>

theorem EnqueueFrame_protects_keyframes:
  assumes "tc_queue_drop_policy (ts_config s) = ''drop_oldest_non_key''"
    and "length (filter (\<lambda>q. \<not> droppable q) (queued s)) < max_pending s" "ts_running s"
  shows "map qf_frame (filter (\<lambda>q. \<not> droppable q) (queued (snd (EnqueueFrame (Some frame) e s)))) =
    map qf_frame (filter (\<lambda>q. \<not> droppable q) (queued s)) @ (if ef_is_keyframe frame then [Some frame] else [])"
proof -
  obtain e1 s1 qf depth where b: "enqueue_begin (Some frame) e s = (e1, s1, Some (qf, depth))"
    using assms(3) by (auto simp: enqueue_begin_def tcp_now_def Let_def)
  note bs = enqueue_begin_Some [OF b]
  obtain n where s1: "s1 = s\<lparr>ts_backpressure_events := n\<rparr>" using bs(5) by blast
  have d: "droppable qf \<longleftrightarrow> \<not> ef_is_keyframe frame" using bs(3) by (simp add: droppable_def)
  show ?thesis
  proof (cases "snd (enqueue_admit qf depth s1)")
    case True
    then have a: "enqueue_admit qf depth s1 = (s1, True)" by (auto simp: enqueue_admit_def split: if_splits)
    have queued1: "queued s1 = queued s" "max_pending s1 = max_pending s" "ts_config s1 = ts_config s" by (simp_all add: s1)
    obtain kept dropped where k: "enqueue_push qf s1 = s1\<lparr>ts_outbound_frames := \<lparr>tsq_queue = kept @ [qf]\<rparr>,
       ts_overflow_dropped_frames := ts_overflow_dropped_frames s1 + of_nat dropped\<rparr>"
      "filter (\<lambda>q. \<not> droppable q) kept = filter (\<lambda>q. \<not> droppable q) (queued s)"
      using enqueue_push_spec [of qf s1] assms(1,2) unfolding queued1 by metis
    have "queued (snd (EnqueueFrame (Some frame) e s)) = kept @ [qf]"
      using b a k(1) by (simp add: EnqueueFrame_def enqueue_note_depth_def Let_def)
    then show ?thesis using k(2) d bs(3) by simp
  next
    case False
    then have a: "\<exists>s2. enqueue_admit qf depth s1 = (s2, False) \<and> queued s2 = queued s" "droppable qf"
      by (auto simp: enqueue_admit_def s1 split: if_splits)
    then have "queued (snd (EnqueueFrame (Some frame) e s)) = queued s" using b by (auto simp: EnqueueFrame_def)
    then show ?thesis using a(2) d by simp
  qed
qed

subsection \<open>A run of the session\<close>

text \<open>Where the encoder thread and the send thread are.\<close>

datatype enqueue_pc = NoEnqueue | Begun QueuedFrame nat | AdmittedFrame QueuedFrame | PushedFrame
datatype send_pc = Waiting | Sending QueuedFrame | SendLeft

text \<open>What happened so far: the frames handed to \<open>EnqueueFrame\<close> while the session ran, the frames
  completely sent with their time stamps, the bytes of a message that was cut off, and the number of
  frames lost when the session ended.\<close>

record session_history =
  offered :: "EncodedFrame list"
  delivered :: "(EncodedFrame \<times> u64) list"
  cut_off :: bytes
  discarded :: nat

definition no_history :: session_history where
  "no_history = \<lparr>offered = [], delivered = [], cut_off = [], discarded = 0\<rparr>"

definition written_since :: "TcpClientSession \<Rightarrow> TcpClientSession \<Rightarrow> bytes" where
  "written_since s s' = drop (length (ts_wire s)) (ts_wire s')"

text \<open>The steps of the threads in any order. The receive thread only ever ends the session
  (\<open>ReceiveLoop_tcp_effect\<close> below), and so does the first half of \<open>Stop\<close>.\<close>

inductive session_run ::
  "TcpEnv \<Rightarrow> TcpClientSession \<Rightarrow> enqueue_pc \<Rightarrow> send_pc \<Rightarrow> session_history \<Rightarrow> bool" where
  start: "session_run e (TcpClientSession_new fd cfg interval endpoint) NoEnqueue Waiting no_history"
| started: "session_run e s pc spc h \<Longrightarrow> Start_session s = (s', ok) \<Longrightarrow> spc = Waiting \<Longrightarrow> session_run e s' pc spc h"
| begin_enqueue: "session_run e s NoEnqueue spc h \<Longrightarrow>
    enqueue_begin (Some frame) e s = (e', s', Some (qf, depth)) \<Longrightarrow>
    session_run e' s' (Begun qf depth) spc (h\<lparr>offered := offered h @ [frame]\<rparr>)"
| refuse: "session_run e s (Begun qf depth) spc h \<Longrightarrow> enqueue_admit qf depth s = (s', False) \<Longrightarrow>
    session_run e s' NoEnqueue spc h"
| admit: "session_run e s (Begun qf depth) spc h \<Longrightarrow> enqueue_admit qf depth s = (s', True) \<Longrightarrow>
    session_run e s' (AdmittedFrame qf) spc h"
| push: "session_run e s (AdmittedFrame qf) spc h \<Longrightarrow> session_run e (enqueue_push qf s) PushedFrame spc h"
| note_depth: "session_run e s PushedFrame spc h \<Longrightarrow> session_run e (enqueue_note_depth s) NoEnqueue spc h"
| pop: "session_run e s pc Waiting h \<Longrightarrow> ts_running s \<Longrightarrow> WaitPopFor [] (ts_outbound_frames s) = (q, Some qf) \<Longrightarrow>
    session_run e (s\<lparr>ts_outbound_frames := q\<rparr>) pc (Sending qf) h"
| send: "session_run e s pc (Sending qf) h \<Longrightarrow> send_queued rs qf e s = (e', s', FrameSent t) \<Longrightarrow>
    session_run e' s' pc Waiting (h\<lparr>delivered := delivered h @ [(the (qf_frame qf), t)]\<rparr>)"
| stale: "session_run e s pc (Sending qf) h \<Longrightarrow> send_queued rs qf e s = (e', s', FrameStale) \<Longrightarrow>
    session_run e' s' pc Waiting h"
| broken: "session_run e s pc (Sending qf) h \<Longrightarrow> send_queued rs qf e s = (e', s', SendBroken) \<Longrightarrow>
    session_run e' (leave_session s') pc SendLeft (h\<lparr>cut_off := written_since s s', discarded := Suc (discarded h)\<rparr>)"
| leave_send: "session_run e s pc Waiting h \<Longrightarrow> \<not> ts_running s \<Longrightarrow> session_run e (leave_session s) pc SendLeft h"
| leave_receive: "session_run e s pc spc h \<Longrightarrow> session_run e (leave_session s) pc spc h"
| stop: "session_run e s pc SendLeft h \<Longrightarrow>
    session_run e (Stop_session s) pc SendLeft (h\<lparr>discarded := discarded h + length (queued s)\<rparr>)"

text \<open>The frames the session still holds, oldest first.\<close>

definition held :: "send_pc \<Rightarrow> TcpClientSession \<Rightarrow> enqueue_pc \<Rightarrow> QueuedFrame list" where
  "held spc s pc =
     (case spc of Sending qf \<Rightarrow> [qf] | _ \<Rightarrow> []) @ queued s @
     (case pc of Begun qf depth \<Rightarrow> [qf] | AdmittedFrame qf \<Rightarrow> [qf] | _ \<Rightarrow> [])"

definition dropped_count :: "TcpClientSession \<Rightarrow> u64" where
  "dropped_count s = ts_overflow_dropped_frames s + ts_stale_dropped_frames s + ts_dropped_incoming_non_keyframes s"

definition session_ok :: "TcpClientSession \<Rightarrow> enqueue_pc \<Rightarrow> send_pc \<Rightarrow> session_history \<Rightarrow> bool" where
  "session_ok s pc spc h \<longleftrightarrow>
     subseq (map (Some \<circ> fst) (delivered h) @ map qf_frame (held spc s pc)) (map Some (offered h)) \<and>
     ts_wire s = concat (map (\<lambda>(f, t). tcp_message (ts_config s) f t) (delivered h)) @ cut_off h \<and>
     (spc \<noteq> SendLeft \<longrightarrow> cut_off h = []) \<and>
     length (queued s) \<le> max 1 (max_pending s) \<and>
     of_nat (length (offered h)) =
       of_nat (length (held spc s pc)) + dropped_count s + of_nat (length (delivered h)) + of_nat (discarded h)"

lemma leave_session_simps [simp]:
  "ts_config (leave_session s) = ts_config s" "ts_outbound_frames (leave_session s) = ts_outbound_frames s"
  "ts_wire (leave_session s) = ts_wire s" "dropped_count (leave_session s) = dropped_count s"
  "ts_running (leave_session s) = False"
  by (simp_all add: leave_session_def CloseSocket_tcp_def dropped_count_def)

lemma Start_session_simps:
  assumes "Start_session s = (s', ok)"
  shows "ts_config s' = ts_config s" "ts_outbound_frames s' = ts_outbound_frames s"
    "ts_wire s' = ts_wire s" "dropped_count s' = dropped_count s"
  using assms by (auto simp: Start_session_def dropped_count_def split: if_splits)

lemma held_cong: "queued s' = queued s \<Longrightarrow> held spc s' pc = held spc s pc"
  by (simp add: held_def)

text \<open>A step that leaves configuration, queue, wire and drop counters alone.\<close>

lemma session_ok_cong:
  assumes "session_ok s pc spc h" "ts_config s' = ts_config s" "ts_outbound_frames s' = ts_outbound_frames s"
    "ts_wire s' = ts_wire s" "dropped_count s' = dropped_count s"
  shows "session_ok s' pc spc h"
  using assms held_cong [of s' s] by (simp add: session_ok_def)

text \<open>Queue, wire and drop counters of two states of the same session.\<close>

definition same_traffic :: "TcpClientSession \<Rightarrow> TcpClientSession \<Rightarrow> bool" where
  "same_traffic s s' \<longleftrightarrow> ts_config s' = ts_config s \<and> ts_outbound_frames s' = ts_outbound_frames s \<and>
     ts_wire s' = ts_wire s \<and> dropped_count s' = dropped_count s"

lemma record_sent_same: "record_sent frame t e s = (e', s') \<Longrightarrow> same_traffic s s'"
  by (auto simp: record_sent_def same_traffic_def dropped_count_def split: option.splits if_splits)

lemma note_same: "same_traffic s (note_queue_wait qf t s)" "same_traffic s (note_send_time t t' s)"
  by (simp_all add: note_queue_wait_def note_send_time_def same_traffic_def dropped_count_def)

lemma same_traffic_trans: "same_traffic s t \<Longrightarrow> same_traffic t u \<Longrightarrow> same_traffic s u"
  by (simp add: same_traffic_def)

definition cut_message :: "TcpClientSession \<Rightarrow> EncodedFrame \<Rightarrow> u64 \<Rightarrow> TcpClientSession \<Rightarrow> bool" where
  "cut_message s f t s' \<longleftrightarrow> (\<exists>w. ts_wire s' = ts_wire s @ w \<and> prefix w (tcp_message (ts_config s) f t))"

lemma transmit_frame_effect:
  assumes "transmit_frame rs f t e s = (e', s', r)"
  shows "ts_config s' = ts_config s" "ts_outbound_frames s' = ts_outbound_frames s" "dropped_count s' = dropped_count s"
    "r = FrameSent t \<and> ts_wire s' = ts_wire s @ tcp_message (ts_config s) f t \<or>
     (r = SendBroken \<or> r = SendBlocked) \<and> cut_message s f t s'"
proof -
  obtain s2 res where s2: "SendFrame rs f t s = (s2, res)" by fastforce
  obtain w where w: "s2 = s\<lparr>ts_wire := ts_wire s @ w\<rparr>" "prefix w (tcp_message (ts_config s) f t)"
    "res = Some True \<longrightarrow> w = tcp_message (ts_config s) f t"
    using SendFrame_spec [OF s2] by blast
  have d: "dropped_count s2 = dropped_count s" by (simp add: w(1) dropped_count_def)
  have "(same_traffic s2 s' \<and> r = FrameSent t \<and> res = Some True) \<or> (s' = s2 \<and> (r = SendBroken \<or> r = SendBlocked))"
    using assms s2 same_traffic_trans [OF note_same(2) record_sent_same]
    by (auto simp: transmit_frame_def tcp_now_def Let_def split: option.splits bool.splits prod.splits)
  then show "ts_config s' = ts_config s" "ts_outbound_frames s' = ts_outbound_frames s" "dropped_count s' = dropped_count s"
    "r = FrameSent t \<and> ts_wire s' = ts_wire s @ tcp_message (ts_config s) f t \<or>
     (r = SendBroken \<or> r = SendBlocked) \<and> cut_message s f t s'"
    using w d by (auto simp: same_traffic_def cut_message_def)
qed

lemma send_queued_cases:
  assumes "send_queued rs qf e s = (e', s', r)"
  obtains (null) "r = NullDereference" "qf_frame qf = None"
    | (stale) s1 where "r = FrameStale" "same_traffic s s1" "s' = s1\<lparr>ts_stale_dropped_frames := ts_stale_dropped_frames s1 + 1\<rparr>"
    | (sent) f t where "r = FrameSent t" "qf_frame qf = Some f" "ts_config s' = ts_config s"
        "ts_outbound_frames s' = ts_outbound_frames s" "dropped_count s' = dropped_count s"
        "ts_wire s' = ts_wire s @ tcp_message (ts_config s) f t"
    | (cut) f t where "r = SendBroken \<or> r = SendBlocked" "qf_frame qf = Some f" "ts_config s' = ts_config s"
        "ts_outbound_frames s' = ts_outbound_frames s" "dropped_count s' = dropped_count s" "cut_message s f t s'"
proof -
  obtain e1 t where t: "tcp_now e = (e1, t)" by fastforce
  define s1 where "s1 = note_queue_wait qf t s"
  have s1: "same_traffic s s1" by (simp add: s1_def note_same)
  have "(r = FrameStale \<and> s' = s1\<lparr>ts_stale_dropped_frames := ts_stale_dropped_frames s1 + 1\<rparr>) \<or>
      (r = NullDereference \<and> qf_frame qf = None) \<or>
      (\<exists>f. qf_frame qf = Some f \<and> transmit_frame rs f t e1 s1 = (e', s', r))"
    using assms by (auto simp: send_queued_def t Let_def s1_def split: if_splits option.splits)
  then consider "r = FrameStale \<and> s' = s1\<lparr>ts_stale_dropped_frames := ts_stale_dropped_frames s1 + 1\<rparr>"
    | "r = NullDereference \<and> qf_frame qf = None"
    | f where "qf_frame qf = Some f" "transmit_frame rs f t e1 s1 = (e', s', r)" by blast
  then show thesis
  proof cases
    case 3
    then show ?thesis
      using transmit_frame_effect [OF 3(2)] s1 sent cut by (auto simp: same_traffic_def cut_message_def)
  qed (use stale s1 null in auto)
qed

lemma session_ok_start: "session_ok (TcpClientSession_new fd cfg interval endpoint) NoEnqueue Waiting no_history"
  by (simp add: session_ok_def no_history_def held_def TcpClientSession_new_def ThreadSafeQueue_new_def dropped_count_def)

lemma session_ok_begin:
  assumes "session_ok s NoEnqueue spc h" "enqueue_begin (Some frame) e s = (e', s', Some (qf, depth))"
  shows "session_ok s' (Begun qf depth) spc (h\<lparr>offered := offered h @ [frame]\<rparr>)"
proof -
  obtain n where n: "s' = s\<lparr>ts_backpressure_events := n\<rparr>" and q: "qf_frame qf = Some frame"
    using enqueue_begin_Some [OF assms(2)] by blast
  have h: "held spc s' (Begun qf depth) = held spc s NoEnqueue @ [qf]" by (simp add: held_def n)
  have "subseq ((map (Some \<circ> fst) (delivered h) @ map qf_frame (held spc s NoEnqueue)) @ [Some frame])
     (map Some (offered h) @ [Some frame])"
    using assms(1) unfolding session_ok_def by (intro list_emb_append_mono) auto
  then show ?thesis using assms(1) h q by (simp add: session_ok_def n dropped_count_def)
qed

lemma session_ok_refuse:
  assumes "session_ok s (Begun qf depth) spc h" "enqueue_admit qf depth s = (s', False)"
  shows "session_ok s' NoEnqueue spc h"
proof -
  have s': "s' = s\<lparr>ts_dropped_incoming_non_keyframes := ts_dropped_incoming_non_keyframes s + 1\<rparr>"
    using assms(2) by (auto simp: enqueue_admit_def split: if_splits)
  have h: "held spc s (Begun qf depth) = held spc s' NoEnqueue @ [qf]" by (simp add: held_def s')
  have d: "dropped_count s' = dropped_count s + 1" by (simp add: s' dropped_count_def)
  have "subseq (map (Some \<circ> fst) (delivered h) @ map qf_frame (held spc s' NoEnqueue)) (map Some (offered h))"
    using assms(1) prefix_imp_subseq [OF prefixI [OF refl]] unfolding session_ok_def h map_append append_assoc [symmetric]
    by (blast intro: subseq_order.trans)
  then show ?thesis using assms(1) d unfolding session_ok_def h by (simp add: s')
qed

lemma session_ok_admit:
  assumes "session_ok s (Begun qf depth) spc h" "enqueue_admit qf depth s = (s', True)"
  shows "session_ok s' (AdmittedFrame qf) spc h"
proof -
  have "s' = s" using assms(2) by (auto simp: enqueue_admit_def split: if_splits)
  then show ?thesis using assms(1) by (simp add: session_ok_def held_def)
qed

lemma session_ok_push:
  assumes "session_ok s (AdmittedFrame qf) spc h"
  shows "session_ok (enqueue_push qf s) PushedFrame spc h"
proof -
  obtain kept dropped where k: "enqueue_push qf s = s\<lparr>ts_outbound_frames := \<lparr>tsq_queue = kept @ [qf]\<rparr>,
       ts_overflow_dropped_frames := ts_overflow_dropped_frames s + of_nat dropped\<rparr>"
    "subseq kept (queued s)" "length kept + dropped = length (queued s)" "length kept = min (length (queued s)) (max_pending s - 1)"
    by (rule enqueue_push_spec)
  have d: "dropped_count (enqueue_push qf s) = dropped_count s + of_nat dropped" by (simp add: k(1) dropped_count_def)
  let ?f = "case spc of Sending qf \<Rightarrow> [qf] | _ \<Rightarrow> []"
  have h: "held spc (enqueue_push qf s) PushedFrame = ?f @ kept @ [qf]" "held spc s (AdmittedFrame qf) = ?f @ queued s @ [qf]"
    by (simp_all add: held_def k(1))
  have "subseq (map (Some \<circ> fst) (delivered h) @ map qf_frame (held spc (enqueue_push qf s) PushedFrame))
      (map (Some \<circ> fst) (delivered h) @ map qf_frame (held spc s (AdmittedFrame qf)))"
    using k(2) unfolding h by (auto intro!: list_emb_append_mono subseq_map)
  then have "subseq (map (Some \<circ> fst) (delivered h) @ map qf_frame (held spc (enqueue_push qf s) PushedFrame)) (map Some (offered h))"
    using assms unfolding session_ok_def by (blast intro: subseq_order.trans)
  moreover have "(of_nat (length (held spc s (AdmittedFrame qf))) :: u64) =
      of_nat (length (held spc (enqueue_push qf s) PushedFrame)) + of_nat dropped"
    unfolding h by (simp flip: k(3))
  ultimately show ?thesis using assms k(4) d by (simp add: session_ok_def k(1) algebra_simps)
qed

lemma session_ok_pop:
  assumes "session_ok s pc Waiting h" "WaitPopFor [] (ts_outbound_frames s) = (q, Some qf)"
  shows "session_ok (s\<lparr>ts_outbound_frames := q\<rparr>) pc (Sending qf) h"
proof -
  have q: "queued s = qf # tsq_queue q" using assms(2) by (auto split: list.splits)
  have "held (Sending qf) (s\<lparr>ts_outbound_frames := q\<rparr>) pc = held Waiting s pc" by (simp add: held_def q)
  then show ?thesis using assms(1) q by (simp add: session_ok_def dropped_count_def)
qed

lemma held_sending: "queued s' = queued s \<Longrightarrow> held (Sending qf) s pc = qf # held Waiting s' pc"
  "queued s' = queued s \<Longrightarrow> held (Sending qf) s pc = qf # held SendLeft s' pc"
  by (simp_all add: held_def)

lemma session_ok_send:
  assumes "session_ok s pc (Sending qf) h" "send_queued rs qf e s = (e', s', FrameSent t)"
  shows "session_ok s' pc Waiting (h\<lparr>delivered := delivered h @ [(the (qf_frame qf), t)]\<rparr>)"
  using assms(2)
proof (cases rule: send_queued_cases)
  case (sent f t')
  then have "t' = t" by simp
  with sent assms(1) held_sending(1) [of s' s qf pc] show ?thesis by (simp add: session_ok_def)
qed auto

lemma subseq_drop_mid: "subseq (xs @ y # ys) zs \<Longrightarrow> subseq (xs @ ys) zs"
  by (erule subseq_order.trans [rotated]) (auto intro: list_emb_append_mono)

lemma session_ok_stale:
  assumes "session_ok s pc (Sending qf) h" "send_queued rs qf e s = (e', s', FrameStale)"
  shows "session_ok s' pc Waiting h"
  using assms(2)
proof (cases rule: send_queued_cases)
  case (stale s1)
  then have "dropped_count s' = dropped_count s + 1" by (simp add: same_traffic_def dropped_count_def algebra_simps)
  moreover have "held (Sending qf) s pc = qf # held Waiting s' pc"
    using stale by (intro held_sending) (simp add: same_traffic_def)
  ultimately show ?thesis
    using assms(1) stale subseq_drop_mid [of "map (Some \<circ> fst) (delivered h)" "qf_frame qf"]
    by (simp add: session_ok_def same_traffic_def)
qed auto

lemma session_ok_broken:
  assumes "session_ok s pc (Sending qf) h" "send_queued rs qf e s = (e', s', SendBroken)"
  shows "session_ok (leave_session s') pc SendLeft (h\<lparr>cut_off := written_since s s', discarded := Suc (discarded h)\<rparr>)"
  using assms(2)
proof (cases rule: send_queued_cases)
  case (cut f t)
  have "held (Sending qf) s pc = qf # held SendLeft (leave_session s') pc" using cut by (intro held_sending) simp
  moreover have "ts_wire s' = ts_wire s @ written_since s s'" using cut(6) by (auto simp: cut_message_def written_since_def)
  ultimately show ?thesis
    using assms(1) cut subseq_drop_mid [of "map (Some \<circ> fst) (delivered h)" "qf_frame qf"]
    by (simp add: session_ok_def)
qed auto

lemma session_ok_leave:
  assumes "session_ok s pc spc h" "spc = spc' \<or> (spc = Waiting \<and> spc' = SendLeft)"
  shows "session_ok (leave_session s) pc spc' h"
proof -
  have "held spc' (leave_session s) pc = held spc s pc" using assms(2) by (auto simp: held_def)
  then show ?thesis using assms by (auto simp: session_ok_def)
qed

lemma session_ok_stop:
  assumes "session_ok s pc SendLeft h"
  shows "session_ok (Stop_session s) pc SendLeft (h\<lparr>discarded := discarded h + length (queued s)\<rparr>)"
proof -
  let ?s = "Stop_session s"
  have s: "queued ?s = []" "ts_config ?s = ts_config s" "ts_wire ?s = ts_wire s" "dropped_count ?s = dropped_count s"
    by (simp_all add: Stop_session_def ThreadSafeQueue_Clear_def Let_def dropped_count_def leave_session_def CloseSocket_tcp_def)
  have h: "held SendLeft s pc = queued s @ held SendLeft ?s pc" by (simp add: held_def s)
  have "subseq (map (Some \<circ> fst) (delivered h) @ map qf_frame (held SendLeft ?s pc))
     (map (Some \<circ> fst) (delivered h) @ map qf_frame (held SendLeft s pc))"
    unfolding h by (auto intro!: list_emb_append_mono)
  then have "subseq (map (Some \<circ> fst) (delivered h) @ map qf_frame (held SendLeft ?s pc)) (map Some (offered h))"
    using assms unfolding session_ok_def by (blast intro: subseq_order.trans)
  then show ?thesis using assms s h by (simp add: session_ok_def)
qed

lemma session_run_ok: "session_run e s pc spc h \<Longrightarrow> session_ok s pc spc h"
proof (induction rule: session_run.induct)
  case (started e s pc spc h s' ok)
  then show ?case using session_ok_cong Start_session_simps by blast
next
  case (note_depth e s spc h)
  have "session_ok (enqueue_note_depth s) PushedFrame spc h"
    by (rule session_ok_cong [OF note_depth.IH]) (simp_all add: enqueue_note_depth_def dropped_count_def Let_def)
  then show ?case by (simp add: session_ok_def held_def)
next
  case (leave_receive e s pc spc h)
  then show ?case by (blast intro: session_ok_leave)
next
  case (leave_send e s pc h)
  then show ?case by (blast intro: session_ok_leave)
qed (blast intro: session_ok_start session_ok_begin session_ok_refuse session_ok_admit session_ok_push session_ok_pop
    session_ok_send session_ok_stale session_ok_broken session_ok_stop)+

text \<open>C2: Whatever the interleaving of encoder thread, send thread, receive thread and \<open>Stop\<close>, the bytes on the
  socket are the messages of the delivered frames, whole and one after the other, followed by at most one message cut
  off when the connection broke; and the delivered frames followed by those still held are, in order, among the frames
  offered: none is repeated, reordered or invented.\<close>

theorem session_wire_in_order:
  assumes "session_run e s pc spc h"
  shows "ts_wire s = concat (map (\<lambda>(f, t). tcp_message (ts_config s) f t) (delivered h)) @ cut_off h \<and>
    (spc \<noteq> SendLeft \<longrightarrow> cut_off h = []) \<and>
    subseq (map (Some \<circ> fst) (delivered h) @ map qf_frame (held spc s pc)) (map Some (offered h))"
  using session_run_ok [OF assms] by (simp add: session_ok_def)

text \<open>C12: The queue of a session never exceeds its limit, and every frame offered is delivered, still held, or
  counted by exactly one of the drop counters (or was lost when the session ended); the counters are 64 bits wide.\<close>

theorem session_accounts_for_every_frame:
  assumes "session_run e s pc spc h"
  shows "length (queued s) \<le> max 1 (tc_max_pending_frames (ts_config s)) \<and>
    (of_nat (length (offered h)) :: u64) =
      of_nat (length (delivered h) + length (held spc s pc) + discarded h) +
      ts_overflow_dropped_frames s + ts_stale_dropped_frames s + ts_dropped_incoming_non_keyframes s"
  using session_run_ok [OF assms] by (simp add: session_ok_def dropped_count_def algebra_simps)

text \<open>The send thread never meets a null frame.\<close>

lemma send_queued_no_null:
  assumes "session_run e s pc (Sending qf) h" "send_queued rs qf e s = (e', s', r)"
  shows "r \<noteq> NullDereference"
proof
  assume "r = NullDereference"
  have "qf_frame qf = None" using assms(2) by (rule send_queued_cases) (use \<open>r = NullDereference\<close> in auto)
  moreover have "qf_frame qf \<in> set (map (Some \<circ> fst) (delivered h) @ map qf_frame (held (Sending qf) s pc))"
    by (simp add: held_def)
  moreover have "subseq (map (Some \<circ> fst) (delivered h) @ map qf_frame (held (Sending qf) s pc)) (map Some (offered h))"
    using session_run_ok [OF assms(1)] by (simp only: session_ok_def)
  ultimately show False by (fastforce elim: list_emb_set)
qed

subsection \<open>The receive thread\<close>

lemma ReceiveLoop_tcp_effect:
  "ReceiveLoop_tcp budget events rs s = s \<or> ReceiveLoop_tcp budget events rs s = leave_session s"
  by (induction budget events rs s rule: ReceiveLoop_tcp.induct)
     (auto split: select_result.splits prod.splits option.splits)

lemma ReceiveLoop_tcp_timeouts:
  "0 < budget \<Longrightarrow> budget \<le> int n \<Longrightarrow> ReceiveLoop_tcp budget (replicate n PollTimeout @ events) rs s = leave_session s"
  by (induction n arbitrary: budget) auto

text \<open>Reading takes exactly what it returns off the stream, and waits only for data that has not come.\<close>

lemma ReceiveAll_server_eqs:
  "ReceiveAll_server 0 rs = (rs, Some (Some []))"
  "0 < count \<Longrightarrow> ReceiveAll_server count [] = ([], None)"
  "0 < count \<Longrightarrow> ReceiveAll_server count (RecvInterrupted # rs) = ReceiveAll_server count rs"
  "0 < count \<Longrightarrow> ReceiveAll_server count (RecvEof # rs) = (rs, Some None)"
  "0 < count \<Longrightarrow> ReceiveAll_server count (RecvWouldBlock # rs) = (rs, Some None)"
  "0 < count \<Longrightarrow> ReceiveAll_server count (RecvError m # rs) = (rs, Some None)"
  "0 < count \<Longrightarrow> ReceiveAll_server count (Received data # rs) =
     (if data = [] then (rs, Some None)
      else if count < length data then (Received (drop count data) # rs, Some (Some (take count data)))
      else (case ReceiveAll_server (count - length data) rs of (rs, r) \<Rightarrow> (rs, map_option (map_option ((@) data)) r)))"
  by (subst ReceiveAll_server.simps, simp)+

lemma ReceiveAll_server_spec:
  assumes "ReceiveAll_server count rs = (rs', r)"
  shows "(r = None \<longrightarrow> length (stream_bytes rs) < count) \<and>
    (\<forall>data. r = Some (Some data) \<longrightarrow> length data = count \<and> stream_bytes rs = data @ stream_bytes rs')"
  using assms
proof (induction rs arbitrary: count rs' r)
  case Nil
  then show ?case by (cases "count = 0") (auto simp: ReceiveAll_server_eqs)
next
  case (Cons x xs)
  show ?case
  proof (cases "count = 0")
    case False
    show ?thesis
    proof (cases x)
      case (Received data)
      obtain rs1 r1 where r1: "ReceiveAll_server (count - length data) xs = (rs1, r1)" by fastforce
      show ?thesis
      proof (cases "data = [] \<or> count < length data")
        case True
        then show ?thesis using Cons.prems False by (auto simp: Received ReceiveAll_server_eqs split: if_splits)
      next
        case more: False
        then have e: "rs' = rs1" "r = map_option (map_option ((@) data)) r1"
          using Cons.prems False r1 by (simp_all add: Received ReceiveAll_server_eqs)
        have "r1 = None \<longrightarrow> length (stream_bytes xs) < count - length data"
          "\<And>d. r1 = Some (Some d) \<Longrightarrow> length d = count - length data \<and> stream_bytes xs = d @ stream_bytes rs1"
          using Cons.IH [OF r1] by blast+
        then show ?thesis using more by (auto simp: e Received)
      qed
    qed (use Cons False in \<open>auto simp: ReceiveAll_server_eqs\<close>)
  qed (use Cons.prems in \<open>auto simp: ReceiveAll_server_eqs\<close>)
qed

text \<open>A client that falls silent is disconnected: five \<^verbatim>\<open>select\<close> time-outs in a row end the session,
  whatever the client sent before, provided every header it began is complete.\<close>

theorem silent_client_disconnected:
  assumes "0 < budget" "budget \<le> keep_alive_limit"
    and "sizeof_MessageHeader * count_list before Readable \<le> length (stream_bytes rs)"
  shows "ReceiveLoop_tcp budget (before @ replicate 5 PollTimeout @ after) rs s = leave_session s"
  using assms
proof (induction before arbitrary: budget rs)
  case Nil
  have "budget \<le> int 5" using Nil.prems(2) by (simp add: keep_alive_limit_def)
  then show ?case using ReceiveLoop_tcp_timeouts [of budget 5 after rs s] Nil.prems(1) by simp
next
  case (Cons event before)
  show ?case
  proof (cases "ts_running s \<and> event = Readable")
    case True
    obtain rs' r where r: "ReceiveAll_server sizeof_MessageHeader rs = (rs', r)" by fastforce
    have n: "r \<noteq> None" using ReceiveAll_server_spec [OF r] Cons.prems(3) True by auto
    show ?thesis
    proof (cases "the r")
      case (Some data)
      then have d: "length data = sizeof_MessageHeader" "stream_bytes rs = data @ stream_bytes rs'"
        using ReceiveAll_server_spec [OF r] n by auto
      have "sizeof_MessageHeader * count_list before Readable \<le> length (stream_bytes rs')"
        using Cons.prems(3) True d by simp
      then show ?thesis using Cons.IH Cons.prems(1,2) True n Some r by (auto simp: keep_alive_limit_def)
    qed (use n True r in auto)
  next
    case False
    then show ?thesis using Cons by (cases event) auto
  qed
qed

text \<open>Inside a header there is no time-out: one byte keeps a session open for good.\<close>

lemma half_header_never_times_out:
  assumes "ts_running s"
  shows "ReceiveLoop_tcp keep_alive_limit (Readable # replicate n PollTimeout) [Received [0xFC]] s = s"
  using assms by (simp add: ReceiveAll_server_eqs)

subsection \<open>Closing the descriptor\<close>

text \<open>\<open>CloseSocket\<close> runs without a lock in three threads: each reads the descriptor, closes it and stores
  -1. A thread is before the test, between test and \<^verbatim>\<open>close\<close>, before the store, or done; a schedule
  names the thread that moves next. \<open>closed\<close> logs the descriptors given to \<^verbatim>\<open>close\<close>.\<close>

datatype close_pc = BeforeTest | BeforeClose | BeforeStore | CloseDone

record close_state =
  shared_fd :: int
  close_pcs :: "close_pc list"
  closed :: "int list"

definition close_step :: "nat \<Rightarrow> close_state \<Rightarrow> close_state" where
  "close_step i c =
     (case close_pcs c ! i of
        BeforeTest \<Rightarrow> c\<lparr>close_pcs := (close_pcs c)[i := if 0 \<le> shared_fd c then BeforeClose else CloseDone]\<rparr>
      | BeforeClose \<Rightarrow> c\<lparr>close_pcs := (close_pcs c)[i := BeforeStore], closed := closed c @ [shared_fd c]\<rparr>
      | BeforeStore \<Rightarrow> c\<lparr>close_pcs := (close_pcs c)[i := CloseDone], shared_fd := -1\<rparr>
      | CloseDone \<Rightarrow> c)"

definition close_run :: "int \<Rightarrow> nat \<Rightarrow> nat list \<Rightarrow> close_state" where
  "close_run fd threads schedule =
     fold close_step schedule \<lparr>shared_fd = fd, close_pcs = replicate threads BeforeTest, closed = []\<rparr>"

text \<open>One thread at a time the descriptor is closed once; with two at once it can be closed twice, the
  second time when the number may already belong to a new connection.\<close>

lemma close_alone: "0 \<le> fd \<Longrightarrow> closed (close_run fd 2 [0, 0, 0, 1, 1, 1]) = [fd]"
  by (simp add: close_run_def close_step_def numeral_2_eq_2)

text \<open>The receive thread and the send thread of a session ending at the same time can close its descriptor
  twice: \<open>CloseSocket\<close> tests and closes it without a lock.\<close>

theorem CloseSocket_race:
  "\<exists>schedule. closed (close_run 7 2 schedule) = [7, 7] \<and> set (close_pcs (close_run 7 2 schedule)) = {CloseDone}"
  by (rule exI [of _ "[0, 1, 0, 1, 0, 1]"]) (simp add: close_run_def close_step_def numeral_2_eq_2)

subsection \<open>An example session\<close>

definition example_tcp_config :: TransportConfig where
  "example_tcp_config = TransportConfig_default\<lparr>tc_embed_frame_metadata := False, tc_max_pending_frames := 2,
     tc_queue_drop_policy := ''drop_oldest_non_key''\<rparr>"

definition example_tcp_env :: TcpEnv where
  "example_tcp_env = \<lparr>te_clock = (\<lambda>n. of_nat (1000 * (n + 1))), te_clock_reads = 0, te_send_latency_recorder = None\<rparr>"

definition example_session :: TcpClientSession where
  "example_session = (TcpClientSession_new 5 example_tcp_config 120 ''client'')\<lparr>ts_running := True\<rparr>"

definition tcp_frame :: "bytes \<Rightarrow> EncodedFrame" where
  "tcp_frame payload = EncodedFrame_default\<lparr>ef_payload := payload\<rparr>"

lemma example_session_simps [simp]:
  "ts_config example_session = example_tcp_config" "ts_running example_session" "queued example_session = []"
  "ts_wire example_session = []" "tc_max_pending_frames example_tcp_config = 2"
  "\<not> tc_embed_frame_metadata example_tcp_config" "tc_queue_drop_policy example_tcp_config = ''drop_oldest_non_key''"
  by (simp_all add: example_session_def example_tcp_config_def TcpClientSession_new_def ThreadSafeQueue_new_def)

theorem SendMessageParts_exact_witness:
  "\<exists>written. fst (SendMessageParts [SendCount 3, SendInterrupted, SendCount 2] [[1, 2], [], [3, 4, 5]] example_session) =
      example_session\<lparr>ts_wire := written\<rparr> \<and> written = [1, 2, 3, 4, 5]"
proof -
  let ?r = "SendMessageParts [SendCount 3, SendInterrupted, SendCount 2] [[1, 2], [], [3, 4, 5]] example_session"
  have r: "?r = (fst ?r, Some True)" by (simp add: SendMessageParts_def Let_def)
  show ?thesis using SendMessageParts_exact [OF _ r] by auto
qed

theorem EnqueueFrame_protects_keyframes_witness:
  "map qf_frame (filter (\<lambda>q. \<not> droppable q) (queued (snd (EnqueueFrame (Some (tcp_frame [9])) example_tcp_env
     (example_session\<lparr>ts_outbound_frames := \<lparr>tsq_queue =
        [\<lparr>qf_frame = Some (tcp_frame [1]\<lparr>ef_is_keyframe := True\<rparr>), qf_enqueue_timestamp_ns = 1\<rparr>,
         \<lparr>qf_frame = Some (tcp_frame [2]), qf_enqueue_timestamp_ns = 2\<rparr>]\<rparr>\<rparr>))))) = [Some (tcp_frame [1]\<lparr>ef_is_keyframe := True\<rparr>)]"
  by (subst EnqueueFrame_protects_keyframes) (simp_all add: droppable_def tcp_frame_def EncodedFrame_default_def)

text \<open>One frame goes through the session in two writes while the next one is being enqueued.\<close>

lemma example_session_run:
  "\<exists>e s pc. session_run e s pc Waiting
     \<lparr>offered = [tcp_frame [1, 2, 3], tcp_frame [4]], delivered = [(tcp_frame [1, 2, 3], 3000)], cut_off = [], discarded = 0\<rparr> \<and>
     ts_config s = example_tcp_config"
proof -
  let ?f = "tcp_frame [1, 2, 3]" and ?g = "tcp_frame [4]"
  let ?new = "TcpClientSession_new 5 example_tcp_config 120 ''client''"
  have "Start_session ?new = (example_session, True)"
    by (simp add: Start_session_def example_session_def TcpClientSession_new_def)
  from session_run.started [OF session_run.start this refl]
  have r0: "session_run example_tcp_env example_session NoEnqueue Waiting no_history" .
  let ?e1 = "example_tcp_env\<lparr>te_clock_reads := 1\<rparr>" and ?qf = "\<lparr>qf_frame = Some ?f, qf_enqueue_timestamp_ns = 1000\<rparr>"
  have "enqueue_begin (Some ?f) example_tcp_env example_session = (?e1, example_session, Some (?qf, 0))"
    by (simp add: enqueue_begin_def tcp_now_def ThreadSafeQueue_Size_def Let_def example_tcp_env_def)
  from session_run.begin_enqueue [OF r0 this]
  have r1: "session_run ?e1 example_session (Begun ?qf 0) Waiting (no_history\<lparr>offered := [?f]\<rparr>)" by (simp add: no_history_def)
  have "enqueue_admit ?qf 0 example_session = (example_session, True)" by (simp add: enqueue_admit_def)
  note r2 = session_run.push [OF session_run.admit [OF r1 this]]
  let ?s2 = "example_session\<lparr>ts_outbound_frames := \<lparr>tsq_queue = [?qf]\<rparr>\<rparr>"
  have p: "enqueue_push ?qf example_session = ?s2"
    by (simp add: enqueue_push_def PushDropSelective_def drop_selective_loop.simps Let_def)
  let ?s3 = "?s2\<lparr>ts_max_queue_depth := 1\<rparr>"
  have "enqueue_note_depth ?s2 = ?s3"
    by (simp add: enqueue_note_depth_def ThreadSafeQueue_Size_def Let_def example_session_def TcpClientSession_new_def)
  with session_run.note_depth [OF r2 [unfolded p]]
  have r3: "session_run ?e1 ?s3 NoEnqueue Waiting (no_history\<lparr>offered := [?f]\<rparr>)" by simp
  let ?s4 = "?s3\<lparr>ts_outbound_frames := \<lparr>tsq_queue = []\<rparr>\<rparr>"
  have "WaitPopFor [] (ts_outbound_frames ?s3) = (\<lparr>tsq_queue = []\<rparr>, Some ?qf)" "ts_running ?s3" by simp_all
  with session_run.pop [OF r3] have r4: "session_run ?e1 ?s4 NoEnqueue (Sending ?qf) (no_history\<lparr>offered := [?f]\<rparr>)" by simp
  let ?e5 = "example_tcp_env\<lparr>te_clock_reads := 2\<rparr>" and ?qg = "\<lparr>qf_frame = Some ?g, qf_enqueue_timestamp_ns = 2000\<rparr>"
  have "enqueue_begin (Some ?g) ?e1 ?s4 = (?e5, ?s4, Some (?qg, 0))"
    by (simp add: enqueue_begin_def tcp_now_def ThreadSafeQueue_Size_def Let_def example_tcp_env_def)
  from session_run.begin_enqueue [OF r4 this]
  have r5: "session_run ?e5 ?s4 (Begun ?qg 0) (Sending ?qf) (no_history\<lparr>offered := [?f, ?g]\<rparr>)" by (simp add: no_history_def)
  obtain e6 s6 where s6: "send_queued [SendCount 13, SendInterrupted, SendCount 2] ?qf ?e5 ?s4 = (e6, s6, FrameSent 3000)"
    "ts_config s6 = example_tcp_config"
  proof -
    let ?r = "send_queued [SendCount 13, SendInterrupted, SendCount 2] ?qf ?e5 ?s4"
    have l: "length (put_MessageHeader h) = 12" for h by (rule header_codec.length_put)
    have "put_MessageHeader h \<noteq> []" for h using l [of h] by (metis list.size(3) zero_neq_numeral)
    then have w: "\<exists>s. SendFrame [SendCount 13, SendInterrupted, SendCount 2] ?f 3000 s' = (s, Some True) \<and> ts_config s = ts_config s'"
      if "ts_running s'" "ts_config s' = example_tcp_config" for s'
      using that l by (simp add: SendFrame_def SendMessageParts_def message_parts_def tcp_frame_def Let_def)
    let ?s5 = "note_queue_wait ?qf 3000 ?s4"
    have s5: "ts_running ?s5" "ts_config ?s5 = example_tcp_config" by (simp_all add: note_queue_wait_def)
    obtain s where s: "SendFrame [SendCount 13, SendInterrupted, SendCount 2] ?f 3000 ?s5 = (s, Some True)" "ts_config s = example_tcp_config"
      using w [OF s5] s5(2) by auto
    have t: "tcp_now ?e5 = (example_tcp_env\<lparr>te_clock_reads := 3\<rparr>, 3000)" by (simp add: tcp_now_def example_tcp_env_def)
    have "\<not> queue_wait_exceeded example_tcp_config ?qf 2000"
      by (simp add: queue_wait_exceeded_def example_tcp_config_def TransportConfig_default_def)
    then have "\<exists>e6 s6. ?r = (e6, s6, FrameSent 3000) \<and> ts_config s6 = example_tcp_config"
      using s s5(2) by (simp add: send_queued_def t Let_def has_waited_def transmit_frame_def tcp_now_def record_sent_def
          note_send_time_def example_tcp_env_def)
    then show thesis using that by blast
  qed
  from session_run.send [OF r5 s6(1)] s6(2) show ?thesis
    by - (rule exI [of _ e6], rule exI [of _ s6], rule exI [of _ "Begun ?qg 0"], simp add: no_history_def)
qed

theorem session_wire_in_order_witness:
  "\<exists>s :: TcpClientSession. ts_wire s = tcp_message example_tcp_config (tcp_frame [1, 2, 3]) 3000 \<and> ts_config s = example_tcp_config"
proof -
  obtain e s pc where r: "session_run e s pc Waiting \<lparr>offered = [tcp_frame [1, 2, 3], tcp_frame [4]],
      delivered = [(tcp_frame [1, 2, 3], 3000)], cut_off = [], discarded = 0\<rparr>" "ts_config s = example_tcp_config"
    using example_session_run by blast
  from session_wire_in_order [OF r(1)] r(2) show ?thesis by - (rule exI [of _ s], simp)
qed

theorem session_accounts_for_every_frame_witness:
  "\<exists>(s :: TcpClientSession) pc. (2 :: u64) = of_nat (1 + length (held Waiting s pc)) + ts_overflow_dropped_frames s + ts_stale_dropped_frames s +
      ts_dropped_incoming_non_keyframes s \<and> length (queued s) \<le> 2"
proof -
  obtain e s pc where r: "session_run e s pc Waiting \<lparr>offered = [tcp_frame [1, 2, 3], tcp_frame [4]],
      delivered = [(tcp_frame [1, 2, 3], 3000)], cut_off = [], discarded = 0\<rparr>" "ts_config s = example_tcp_config"
    using example_session_run by blast
  from session_accounts_for_every_frame [OF r(1)] r(2) show ?thesis by - (rule exI [of _ s], rule exI [of _ pc], simp)
qed

theorem silent_client_disconnected_witness:
  "\<not> ts_running (ReceiveLoop_tcp 5 ([Readable, PollTimeout] @ replicate 5 PollTimeout @ [Readable]) [Received (replicate 12 0)] example_session)"
  by (subst silent_client_disconnected) (simp_all add: keep_alive_limit_def)

end

