(* ===== verification/Tcp_Backend.thy ===== *)
theory Tcp_Backend
  imports Tcp_Session_Correct
begin

section \<open>The TCP backend of the server\<close>

text \<open>
  \<^verbatim>\<open>sserver/src/modules/transport/tcp/TcpStreamingBackend.cpp\<close>: the listening socket, the thread
  that accepts clients, and the list of their sessions, to which a broadcast frame is handed. The
  descriptors, the success of the socket calls and what \<^verbatim>\<open>accept\<close> returns are arguments; a shared
  pointer to a session is the session in the list.
\<close>

record TcpStreamingBackend =
  tb_config :: TransportConfig
  tb_latency_log_interval_frames :: int
  tb_listen_socket_fd :: int
  tb_bound_port :: int
  tb_running :: bool
  tb_clients :: "TcpClientSession list"
  tb_state :: ModuleState

definition TcpStreamingBackend_new :: TcpStreamingBackend where
  "TcpStreamingBackend_new =
     \<lparr>tb_config = TransportConfig_default, tb_latency_log_interval_frames = 120, tb_listen_socket_fd = -1,
      tb_bound_port = 0, tb_running = False, tb_clients = [], tb_state = kCreated\<rparr>"

definition initialize_tcp :: "TransportConfig \<Rightarrow> int \<Rightarrow> TcpStreamingBackend \<Rightarrow> TcpStreamingBackend \<times> bool" where
  "initialize_tcp config log_interval b =
     (b\<lparr>tb_config := config, tb_latency_log_interval_frames := log_interval, tb_state := kInitialized\<rparr>, True)"

definition CloseListenSocket :: "TcpStreamingBackend \<Rightarrow> TcpStreamingBackend" where
  "CloseListenSocket b = (if 0 \<le> tb_listen_socket_fd b then b\<lparr>tb_listen_socket_fd := -1\<rparr> else b)"

definition OpenListenSocket ::
  "int \<Rightarrow> bool \<Rightarrow> bool \<Rightarrow> u16 option \<Rightarrow> TcpStreamingBackend \<Rightarrow> TcpStreamingBackend \<times> bool" where
  "OpenListenSocket opened bound listening port b =
     (let b = b\<lparr>tb_listen_socket_fd := opened\<rparr> in
      if opened < 0 then (b, False)
      else if \<not> bound then (CloseListenSocket b, False)
      else if \<not> listening then (CloseListenSocket b, False)
      else if tc_listen_port (tb_config b) = 0 then
        (case port of None \<Rightarrow> (b, True) | Some p \<Rightarrow> (b\<lparr>tb_bound_port := int (unat p)\<rparr>, True))
      else (b\<lparr>tb_bound_port := tc_listen_port (tb_config b)\<rparr>, True))"

definition start_tcp ::
  "int \<Rightarrow> bool \<Rightarrow> bool \<Rightarrow> u16 option \<Rightarrow> TcpStreamingBackend \<Rightarrow> TcpStreamingBackend \<times> bool" where
  "start_tcp opened bound listening port b =
     (if \<not> tc_enabled (tb_config b) then (b\<lparr>tb_state := kRunning\<rparr>, True)
      else
        let (b, ok) = OpenListenSocket opened bound listening port b in
        if \<not> ok then (b\<lparr>tb_state := kFailed\<rparr>, False)
        else (b\<lparr>tb_running := True, tb_state := kRunning\<rparr>, True))"

text \<open>The clients are taken out of the list and stopped one by one; nobody else holds them then. The
  sessions that were stopped are returned beside the new state.\<close>

definition stop_tcp :: "TcpStreamingBackend \<Rightarrow> TcpStreamingBackend \<times> TcpClientSession list" where
  "stop_tcp b =
     (if tb_state b \<noteq> kRunning then (b, [])
      else
        let b = CloseListenSocket (b\<lparr>tb_running := False\<rparr>); clients_copy = tb_clients b
        in (b\<lparr>tb_clients := [], tb_state := kStopped\<rparr>, map Stop_session clients_copy))"

definition shutdown_tcp :: "TcpStreamingBackend \<Rightarrow> TcpStreamingBackend \<times> TcpClientSession list" where
  "shutdown_tcp b = (case stop_tcp b of (b, stopped) \<Rightarrow> (b\<lparr>tb_state := kShutdown\<rparr>, stopped))"

definition PruneClosedClients :: "TcpStreamingBackend \<Rightarrow> TcpStreamingBackend" where
  "PruneClosedClients b = b\<lparr>tb_clients := filter ts_running (tb_clients b)\<rparr>"

text \<open>The frame goes to every session that runs, in order; the clock advances with each.\<close>

fun enqueue_all :: "EncodedFramePtr \<Rightarrow> TcpEnv \<Rightarrow> TcpClientSession list \<Rightarrow> TcpEnv \<times> TcpClientSession list" where
  "enqueue_all frame e [] = (e, [])"
| "enqueue_all frame e (s # sessions) =
     (let (e, s) = (if ts_running s then EnqueueFrame frame e s else (e, s));
          (e, sessions) = enqueue_all frame e sessions
      in (e, s # sessions))"

definition Broadcast_tcp :: "EncodedFramePtr \<Rightarrow> TcpEnv \<Rightarrow> TcpStreamingBackend \<Rightarrow> TcpEnv \<times> TcpStreamingBackend" where
  "Broadcast_tcp frame e b =
     (if \<not> tc_enabled (tb_config b) \<or> frame = None then (e, b)
      else
        let (e, clients) = enqueue_all frame e (tb_clients b)
        in (e, PruneClosedClients (b\<lparr>tb_clients := clients\<rparr>)))"

text \<open>What \<^verbatim>\<open>accept\<close> reports: a descriptor with the address of its peer, nothing yet (or a
  signal), or an error; \<open>AcceptStop\<close> is \<^verbatim>\<open>running_\<close> found false.\<close>

datatype accept_result = Accepted int string | AcceptNothing | AcceptFailed | AcceptStop

fun AcceptLoop :: "accept_result list \<Rightarrow> TcpStreamingBackend \<Rightarrow> TcpStreamingBackend" where
  "AcceptLoop [] b = b"
| "AcceptLoop (event # events) b =
     (if \<not> tb_running b then b
      else
        case event of
          AcceptStop \<Rightarrow> b
        | AcceptFailed \<Rightarrow> b
        | AcceptNothing \<Rightarrow> AcceptLoop events b
        | Accepted fd endpoint \<Rightarrow>
            (case Start_session (TcpClientSession_new fd (tb_config b) (tb_latency_log_interval_frames b) endpoint) of
               (s, False) \<Rightarrow> AcceptLoop events b
             | (s, True) \<Rightarrow> AcceptLoop events (PruneClosedClients (b\<lparr>tb_clients := tb_clients b @ [s]\<rparr>))))"

subsection \<open>Broadcast\<close>

text \<open>What a frame does to a session's queue does not depend on the clock.\<close>

lemma enqueue_push_frames:
  assumes "qf_frame qf = qf_frame qf'"
  shows "map qf_frame (queued (enqueue_push qf s)) = map qf_frame (queued (enqueue_push qf' s))"
  using assms by (simp add: enqueue_push_def PushDropSelective_def PushDropOldestCountDropped_def Let_def split_beta)

lemma EnqueueFrame_queued:
  "map qf_frame (queued (snd (EnqueueFrame frame e s))) = map qf_frame (queued (snd (EnqueueFrame frame e' s)))"
proof (cases "ts_running s \<and> frame \<noteq> None")
  case True
  let ?qf = "\<lambda>e. \<lparr>qf_frame = frame, qf_enqueue_timestamp_ns = snd (tcp_now e)\<rparr>"
  let ?d = "length (queued s)"
  let ?s = "if tc_max_pending_frames (ts_config s) \<le> ?d then s\<lparr>ts_backpressure_events := ts_backpressure_events s + 1\<rparr> else s"
  have b: "enqueue_begin frame e s = (fst (tcp_now e), ?s, Some (?qf e, ?d))" for e
    using True by (simp add: enqueue_begin_def ThreadSafeQueue_Size_def Let_def split_beta)
  have a: "enqueue_admit (?qf e) ?d ?s = enqueue_admit (?qf e') ?d ?s" by (simp add: enqueue_admit_def droppable_def)
  have n: "queued (enqueue_note_depth s') = queued s'" for s' by (simp add: enqueue_note_depth_def Let_def)
  show ?thesis
    using a enqueue_push_frames [of "?qf e" "?qf e'"]
    by (cases "enqueue_admit (?qf e') ?d ?s") (simp add: EnqueueFrame_def b n split: bool.split)
qed (simp add: EnqueueFrame_def enqueue_begin_def)

lemma EnqueueFrame_running: "ts_running (snd (EnqueueFrame frame e s)) = ts_running s"
  by (auto simp: EnqueueFrame_def enqueue_begin_def enqueue_admit_def enqueue_push_def enqueue_note_depth_def Let_def
      split_beta split: bool.splits option.splits prod.splits if_splits)

definition frames_queued :: "TcpClientSession \<Rightarrow> EncodedFramePtr list" where
  "frames_queued s = map qf_frame (queued s)"

lemma enqueue_all_frames:
  "map frames_queued (filter ts_running (snd (enqueue_all frame e sessions))) =
    map (\<lambda>s. frames_queued (snd (EnqueueFrame frame e0 s))) (filter ts_running sessions)"
proof (induction sessions arbitrary: e)
  case (Cons s sessions)
  have "frames_queued (snd (EnqueueFrame frame e s)) = frames_queued (snd (EnqueueFrame frame e0 s))"
    unfolding frames_queued_def by (rule EnqueueFrame_queued)
  then show ?case
    using Cons.IH by (cases "ts_running s") (simp_all add: Let_def split_beta EnqueueFrame_running)
qed simp

text \<open>A broadcast reaches every client that is still connected, each as if it were alone (a slow client costs the
  others nothing), and removes the others from the list.\<close>

theorem Broadcast_tcp_reaches_all:
  "tc_enabled (tb_config b) \<Longrightarrow>
   map frames_queued (tb_clients (snd (Broadcast_tcp (Some frame) e b))) =
     map (\<lambda>s. frames_queued (snd (EnqueueFrame (Some frame) e0 s))) (filter ts_running (tb_clients b))"
  using enqueue_all_frames [of "Some frame" e "tb_clients b" e0]
  by (simp add: Broadcast_tcp_def PruneClosedClients_def Let_def split_beta)

subsection \<open>Lifecycle\<close>

text \<open>The calls in the order the application makes them, with the accept thread in between.\<close>

inductive tcp_lifecycle :: "TcpStreamingBackend \<Rightarrow> bool" where
  created: "tcp_lifecycle TcpStreamingBackend_new"
| initialized: "tcp_lifecycle b \<Longrightarrow> tb_state b \<noteq> kRunning \<Longrightarrow> tcp_lifecycle (fst (initialize_tcp config interval b))"
| started: "tcp_lifecycle b \<Longrightarrow> tb_state b = kInitialized \<Longrightarrow>
    tcp_lifecycle (fst (start_tcp opened bound listening port b))"
| broadcast: "tcp_lifecycle b \<Longrightarrow> tb_state b = kRunning \<Longrightarrow> tcp_lifecycle (snd (Broadcast_tcp frame e b))"
| accepted: "tcp_lifecycle b \<Longrightarrow> tb_state b = kRunning \<Longrightarrow> tcp_lifecycle (AcceptLoop events b)"
| stopped: "tcp_lifecycle b \<Longrightarrow> tcp_lifecycle (fst (stop_tcp b))"
| shut_down: "tcp_lifecycle b \<Longrightarrow> tcp_lifecycle (fst (shutdown_tcp b))"

definition released :: "TcpStreamingBackend \<Rightarrow> bool" where
  "released b \<longleftrightarrow> tb_listen_socket_fd b < 0 \<and> tb_clients b = [] \<and> \<not> tb_running b"

lemma AcceptLoop_state [simp]: "tb_state (AcceptLoop events b) = tb_state b"
  by (induction events arbitrary: b) (auto simp: PruneClosedClients_def split: accept_result.splits prod.splits bool.splits)

lemma tcp_lifecycle_released: "tcp_lifecycle b \<Longrightarrow> tb_state b \<noteq> kRunning \<Longrightarrow> released b"
  by (induction rule: tcp_lifecycle.induct)
     (auto simp: released_def TcpStreamingBackend_new_def initialize_tcp_def start_tcp_def OpenListenSocket_def
        CloseListenSocket_def stop_tcp_def shutdown_tcp_def Broadcast_tcp_def PruneClosedClients_def Let_def split_beta
      split: if_splits option.splits)

text \<open>Whatever calls came before, \<open>shutdown\<close> leaves the backend without listening socket and without clients, and
  every session it still had is stopped.\<close>

theorem tcp_backend_releases:
  assumes "tcp_lifecycle b"
  shows "released (fst (shutdown_tcp b)) \<and> tb_state (fst (shutdown_tcp b)) = kShutdown \<and>
    filter ts_running (snd (shutdown_tcp b)) = [] \<and> length (snd (shutdown_tcp b)) = length (tb_clients b)"
proof (cases "tb_state b = kRunning")
  case True
  then show ?thesis
    by (auto simp: shutdown_tcp_def stop_tcp_def released_def CloseListenSocket_def Stop_session_def leave_session_def
        CloseSocket_tcp_def Let_def filter_empty_conv)
next
  case False
  then show ?thesis using tcp_lifecycle_released [OF assms False] by (simp add: shutdown_tcp_def stop_tcp_def released_def)
qed

theorem Broadcast_tcp_reaches_all_witness:
  "map frames_queued (tb_clients (snd (Broadcast_tcp (Some (tcp_frame [7])) example_tcp_env
     (TcpStreamingBackend_new\<lparr>tb_clients := [example_session, example_session\<lparr>ts_running := False\<rparr>]\<rparr>)))) = [[Some (tcp_frame [7])]]"
proof -
  have "map qf_frame (queued (snd (EnqueueFrame (Some (tcp_frame [7])) example_tcp_env example_session))) = [Some (tcp_frame [7])]"
    by (simp add: EnqueueFrame_def enqueue_begin_def tcp_now_def enqueue_admit_def ThreadSafeQueue_Size_def enqueue_push_def
        PushDropSelective_def drop_selective_loop.simps enqueue_note_depth_def Let_def)
  then show ?thesis
    by (subst Broadcast_tcp_reaches_all [where ?e0.0 = example_tcp_env])
       (simp_all add: TcpStreamingBackend_new_def TransportConfig_default_def frames_queued_def)
qed

theorem tcp_backend_releases_witness:
  "released (fst (shutdown_tcp (AcceptLoop [Accepted 5 ''client''] (fst (start_tcp 3 True True None
     (fst (initialize_tcp example_tcp_config 120 TcpStreamingBackend_new)))))))"
proof -
  let ?i = "fst (initialize_tcp example_tcp_config 120 TcpStreamingBackend_new)"
  have "tb_state TcpStreamingBackend_new \<noteq> kRunning" by (simp add: TcpStreamingBackend_new_def)
  from tcp_lifecycle.initialized [OF tcp_lifecycle.created this] have i: "tcp_lifecycle ?i" .
  have "tb_state ?i = kInitialized" by (simp add: initialize_tcp_def)
  from tcp_lifecycle.started [OF i this] have s: "tcp_lifecycle (fst (start_tcp 3 True True None ?i))" .
  have "tb_state (fst (start_tcp 3 True True None ?i)) = kRunning"
    by (simp add: start_tcp_def OpenListenSocket_def initialize_tcp_def Let_def)
  from tcp_lifecycle.accepted [OF s this] show ?thesis using tcp_backend_releases by blast
qed

end
