(* ===== verification/Tcp_Receiver.thy ===== *)
theory Tcp_Receiver
  imports Rtp_Receiver
begin

section \<open>The TCP receiver of the client\<close>

text \<open>
  \<^verbatim>\<open>sclient/src/modules/network/StreamClientTcp.cpp\<close>: a message is read from the stream header
  first, then the sender's metadata when it is expected, then the payload. What the network delivers
  is a list of \<^verbatim>\<open>recv\<close> results, of which the unread rest is returned (theory \<open>Sockets\<close>).
\<close>

definition kMaxPayloadLength :: u32 where "kMaxPayloadLength = 50 * 1024 * 1024"
definition kMaxConsecutiveTimeouts :: nat where "kMaxConsecutiveTimeouts = 10"

datatype read_result = ReadDone bytes | ReadFailed string | ReadBlocked

fun prepend_data :: "bytes \<Rightarrow> read_result \<Rightarrow> read_result" where
  "prepend_data data (ReadDone rest) = ReadDone (data @ rest)"
| "prepend_data data r = r"

fun ReceiveAll_client :: "nat \<Rightarrow> nat \<Rightarrow> recv_result list \<Rightarrow> recv_result list \<times> read_result" where
  "ReceiveAll_client count consecutive_timeouts [] =
     (if count = 0 then ([], ReadDone []) else ([], ReadBlocked))"
| "ReceiveAll_client count consecutive_timeouts (r # rs) =
     (if count = 0 then (r # rs, ReadDone [])
      else case r of
        RecvInterrupted \<Rightarrow> ReceiveAll_client count consecutive_timeouts rs
      | RecvWouldBlock \<Rightarrow>
          if kMaxConsecutiveTimeouts \<le> Suc consecutive_timeouts then (rs, ReadFailed ''receive timed out'')
          else ReceiveAll_client count (Suc consecutive_timeouts) rs
      | RecvError _ \<Rightarrow> (rs, ReadFailed ''failed to receive data'')
      | RecvEof \<Rightarrow> (rs, ReadFailed ''server closed the connection'')
      | Received data \<Rightarrow>
          if data = [] then (rs, ReadFailed ''server closed the connection'')
          else if count < length data then (Received (drop count data) # rs, ReadDone (take count data))
          else (case ReceiveAll_client (count - length data) 0 rs of (rs, result) \<Rightarrow> (rs, prepend_data data result)))"

text \<open>The last step: the payload is read and the frame stamped.\<close>

definition receive_payload ::
  "MessageHeader \<Rightarrow> FrameDiagnosticMetadata \<Rightarrow> bool \<Rightarrow> u32 \<Rightarrow> recv_result list \<Rightarrow> StreamClient \<Rightarrow>
    recv_result list \<times> StreamClient \<times> receive_outcome" where
  "receive_payload header metadata available payload_length rs c =
     (case ReceiveAll_client (unat payload_length) 0 rs of
        (rs, ReadFailed message) \<Rightarrow> (rs, c, Failed message)
      | (rs, ReadBlocked) \<Rightarrow> (rs, c, Blocked)
      | (rs, ReadDone payload) \<Rightarrow>
          (case MonotonicNowNs c of
             (c, now_ns) \<Rightarrow> (rs, c, Frame \<lparr>fr_header = header, fr_metadata = metadata, fr_sender_metadata_available = available,
                                    fr_receive_timestamp_ns = now_ns, fr_payload = payload\<rparr>)))"

definition receive_metadata ::
  "MessageHeader \<Rightarrow> recv_result list \<Rightarrow> StreamClient \<Rightarrow> recv_result list \<times> StreamClient \<times> receive_outcome" where
  "receive_metadata header rs c =
     (let payload_length = mh_payload_length header in
      if payload_length < of_nat sizeof_FrameDiagnosticMetadata then (rs, c, Failed ''payload is smaller than metadata'')
      else
        case ReceiveAll_client sizeof_FrameDiagnosticMetadata 0 rs of
          (rs, ReadFailed message) \<Rightarrow> (rs, c, Failed message)
        | (rs, ReadBlocked) \<Rightarrow> (rs, c, Blocked)
        | (rs, ReadDone data) \<Rightarrow>
            let metadata = get_FrameDiagnosticMetadata data in
            receive_payload header metadata (HasSenderLatencyMetadata metadata)
              (payload_length - of_nat sizeof_FrameDiagnosticMetadata) rs c)"

definition ReceiveTcpFrame ::
  "recv_result list \<Rightarrow> StreamClient \<Rightarrow> recv_result list \<times> StreamClient \<times> receive_outcome" where
  "ReceiveTcpFrame rs c =
     (case ReceiveAll_client sizeof_MessageHeader 0 rs of
        (rs, ReadFailed message) \<Rightarrow> (rs, c, Failed message)
      | (rs, ReadBlocked) \<Rightarrow> (rs, c, Blocked)
      | (rs, ReadDone data) \<Rightarrow>
          let header = get_MessageHeader data in
          if \<not> HasValidMessageMagic header then (rs, c, Failed ''received invalid message magic'')
          else if kMaxPayloadLength < mh_payload_length header then (rs, c, Failed ''payload length exceeds maximum'')
          else if cc_expect_metadata (sc_config c) then receive_metadata header rs c
          else receive_payload header FrameDiagnosticMetadata_zero False (mh_payload_length header) rs c)"

subsection \<open>Reading from the stream\<close>

text \<open>What comes out of a read is the front of the stream; the rest stays.\<close>

lemma ReceiveAll_client_done:
  assumes "ReceiveAll_client count t rs = (rs', ReadDone data)"
  shows "length data = count \<and> stream_bytes rs = data @ stream_bytes rs'"
  using assms
proof (induction count t rs arbitrary: data rule: ReceiveAll_client.induct)
  case (2 count t r rs)
  show ?case
  proof (cases "count = 0")
    case False
    show ?thesis
    proof (cases r)
      case (Received d)
      show ?thesis
      proof (cases "d = [] \<or> count < length d")
        case more: False
        obtain rs1 res where res: "ReceiveAll_client (count - length d) 0 rs = (rs1, res)" by fastforce
        with "2.prems" False Received more obtain d1 where d1: "res = ReadDone d1" "data = d @ d1" "rs' = rs1"
          by (cases res) auto
        then show ?thesis using "2.IH"(1) [OF False Received] more res Received by auto
      qed (use "2.prems" False Received in \<open>auto split: if_splits\<close>)
    qed (use 2 False in \<open>auto split: if_splits\<close>)
  qed (use "2.prems" in auto)
qed (auto split: if_splits)

text \<open>A schedule on which nothing but interruptions keeps data from arriving.\<close>

definition steady :: "recv_result list \<Rightarrow> bool" where
  "steady rs \<longleftrightarrow> list_all (\<lambda>r. case r of Received data \<Rightarrow> data \<noteq> [] | RecvInterrupted \<Rightarrow> True | _ \<Rightarrow> False) rs"

lemma steady_simps [simp]:
  "steady []" "steady (Received data # rs) \<longleftrightarrow> data \<noteq> [] \<and> steady rs" "steady (RecvInterrupted # rs) \<longleftrightarrow> steady rs"
  "\<not> steady (RecvWouldBlock # rs)" "\<not> steady (RecvEof # rs)" "\<not> steady (RecvError m # rs)"
  by (simp_all add: steady_def)

lemma ReceiveAll_client_steady:
  assumes "steady rs" "count \<le> length (stream_bytes rs)"
  shows "\<exists>rs'. ReceiveAll_client count t rs = (rs', ReadDone (take count (stream_bytes rs))) \<and> steady rs' \<and>
    stream_bytes rs' = drop count (stream_bytes rs)"
  using assms
proof (induction count t rs rule: ReceiveAll_client.induct)
  case (2 count t r rs)
  show ?case
  proof (cases "count = 0")
    case False
    show ?thesis
    proof (cases r)
      case (Received d)
      show ?thesis
      proof (cases "count < length d")
        case more: False
        have "\<exists>rs'. ReceiveAll_client (count - length d) 0 rs = (rs', ReadDone (take (count - length d) (stream_bytes rs))) \<and>
            steady rs' \<and> stream_bytes rs' = drop (count - length d) (stream_bytes rs)"
          using "2.IH"(1) [OF False Received _ more] "2.prems" Received more by auto
        then show ?thesis using False Received more "2.prems"(1) by auto
      qed (use "2.prems" False Received in auto)
    qed (use 2 False in auto)
  qed (use "2.prems" in auto)
qed auto

subsection \<open>Errors\<close>

definition header_error :: "bool \<Rightarrow> MessageHeader \<Rightarrow> string option" where
  "header_error expect_metadata header =
     (if \<not> HasValidMessageMagic header then Some ''received invalid message magic''
      else if kMaxPayloadLength < mh_payload_length header then Some ''payload length exceeds maximum''
      else if expect_metadata \<and> mh_payload_length header < of_nat sizeof_FrameDiagnosticMetadata
      then Some ''payload is smaller than metadata''
      else None)"

definition read_errors :: "string set" where
  "read_errors = {''receive timed out'', ''failed to receive data'', ''server closed the connection''}"

lemma ReceiveAll_client_failed: "ReceiveAll_client count t rs = (rs', ReadFailed m) \<Longrightarrow> m \<in> read_errors"
proof (induction count t rs arbitrary: rs' rule: ReceiveAll_client.induct)
  case (2 count t r rs)
  obtain rs1 res where res: "ReceiveAll_client (count - (case r of Received d \<Rightarrow> length d | _ \<Rightarrow> 0)) 0 rs = (rs1, res)" by fastforce
  show ?case
    using 2 res by (cases r; cases res) (auto simp: read_errors_def split: if_splits)
qed (simp split: if_splits)

text \<open>What a call returns: a frame only if its header passed every check, of exactly the announced length and never
  more than the limit; otherwise one of the messages of the code, the client unchanged.\<close>

definition checked_result :: "bool \<Rightarrow> receive_outcome \<Rightarrow> bool" where
  "checked_result expect_metadata result \<longleftrightarrow>
     (case result of
        Frame f \<Rightarrow> header_error expect_metadata (fr_header f) = None \<and>
          length (fr_payload f) + (if expect_metadata then sizeof_FrameDiagnosticMetadata else 0) =
            unat (mh_payload_length (fr_header f)) \<and> length (fr_payload f) \<le> 50 * 1024 * 1024
      | Failed m \<Rightarrow> m \<in> read_errors \<or> (\<exists>header. header_error expect_metadata header = Some m)
      | Blocked \<Rightarrow> True)"

lemma receive_payload_checked:
  assumes "receive_payload header metadata available n rs c = (rs', c', r)" "header_error expect header = None"
    and "unat n + (if expect then sizeof_FrameDiagnosticMetadata else 0) = unat (mh_payload_length header)"
  shows "checked_result expect r \<and> (c' = c \<or> (\<exists>f. r = Frame f))"
proof -
  have "\<not> kMaxPayloadLength < mh_payload_length header" using assms(2) by (simp add: header_error_def split: if_splits)
  then have "unat n \<le> 50 * 1024 * 1024" using assms(3) by (simp add: word_less_nat_alt kMaxPayloadLength_def)
  then show ?thesis
    using assms ReceiveAll_client_done [of "unat n" 0 rs] ReceiveAll_client_failed [of "unat n" 0 rs]
    by (auto simp: receive_payload_def checked_result_def split: read_result.splits prod.splits)
qed

lemma receive_metadata_checked:
  assumes "receive_metadata header rs c = (rs', c', r)" "HasValidMessageMagic header" "\<not> kMaxPayloadLength < mh_payload_length header"
  shows "checked_result True r \<and> (c' = c \<or> (\<exists>f. r = Frame f))"
proof (cases "mh_payload_length header < of_nat sizeof_FrameDiagnosticMetadata")
  case True
  then have "header_error True header = Some ''payload is smaller than metadata''" using assms by (simp add: header_error_def)
  then show ?thesis using assms True by (auto simp: receive_metadata_def checked_result_def)
next
  case False
  let ?n = "mh_payload_length header - of_nat sizeof_FrameDiagnosticMetadata"
  have n: "unat ?n + sizeof_FrameDiagnosticMetadata = unat (mh_payload_length header)"
    using False by (subst unat_sub) (auto simp: not_less word_le_nat_alt)
  have h: "header_error True header = None" using assms False by (simp add: header_error_def)
  obtain rs1 res where res: "ReceiveAll_client sizeof_FrameDiagnosticMetadata 0 rs = (rs1, res)" by fastforce
  show ?thesis
  proof (cases res)
    case (ReadDone data)
    let ?md = "get_FrameDiagnosticMetadata data"
    have "receive_payload header ?md (HasSenderLatencyMetadata ?md) ?n rs1 c = (rs', c', r)"
      using assms(1) False res ReadDone by (simp add: receive_metadata_def Let_def)
    then show ?thesis using receive_payload_checked [where expect = True] h n by simp
  next
    case (ReadFailed m)
    then have "m \<in> read_errors" using res ReceiveAll_client_failed by metis
    then show ?thesis using assms(1) False res ReadFailed by (auto simp: receive_metadata_def checked_result_def)
  qed (use assms(1) False res in \<open>auto simp: receive_metadata_def checked_result_def\<close>)
qed

text \<open>On every schedule of the network \<open>ReceiveTcpFrame\<close> hands out a frame only if its header passed all
  checks, with a payload of exactly the announced length and at most 50 MB; in all other cases it fails with one of its
  messages, or waits, and leaves the client as it was.\<close>

theorem ReceiveTcpFrame_checked:
  assumes "ReceiveTcpFrame rs c = (rs', c', r)"
  shows "checked_result (cc_expect_metadata (sc_config c)) r \<and> (c' = c \<or> (\<exists>f. r = Frame f))"
proof -
  let ?e = "cc_expect_metadata (sc_config c)"
  obtain rs1 res where res: "ReceiveAll_client sizeof_MessageHeader 0 rs = (rs1, res)" by fastforce
  show ?thesis
  proof (cases res)
    case (ReadDone data)
    let ?h = "get_MessageHeader data"
    show ?thesis
    proof (cases "HasValidMessageMagic ?h \<and> \<not> kMaxPayloadLength < mh_payload_length ?h")
      case True
      show ?thesis
      proof (cases ?e)
        case e: True
        have "receive_metadata ?h rs1 c = (rs', c', r)"
          using assms res ReadDone True e by (simp add: ReceiveTcpFrame_def Let_def)
        then show ?thesis using receive_metadata_checked True e by auto
      next
        case e: False
        have "receive_payload ?h FrameDiagnosticMetadata_zero False (mh_payload_length ?h) rs1 c = (rs', c', r)"
          using assms res ReadDone True e by (simp add: ReceiveTcpFrame_def Let_def)
        moreover have "header_error False ?h = None" using True by (simp add: header_error_def)
        ultimately show ?thesis using receive_payload_checked [where expect = False] e by auto
      qed
    next
      case False
      then have "\<exists>m. header_error ?e ?h = Some m \<and> r = Failed m \<and> c' = c"
        using assms res ReadDone by (auto simp: ReceiveTcpFrame_def Let_def header_error_def split: if_splits)
      then show ?thesis by (auto simp: checked_result_def)
    qed
  next
    case (ReadFailed m)
    then have "m \<in> read_errors" using res ReceiveAll_client_failed by metis
    then show ?thesis using assms res ReadFailed by (auto simp: ReceiveTcpFrame_def checked_result_def)
  qed (use assms res in \<open>auto simp: ReceiveTcpFrame_def checked_result_def\<close>)
qed

theorem ReceiveTcpFrame_checked_witness:
  "\<exists>c' r. ReceiveTcpFrame [Received (replicate 12 0)] example_client = ([], c', r) \<and> c' = example_client \<and>
     r = Failed ''received invalid message magic'' \<and> checked_result True r"
proof -
  have r: "ReceiveTcpFrame [Received (replicate 12 0)] example_client =
    ([], example_client, Failed ''received invalid message magic'')"
    by (simp add: ReceiveTcpFrame_def HasValidMessageMagic_def get_MessageHeader_def get_magic_def kMessageMagic_def slice_def)
  have "cc_expect_metadata (sc_config example_client)" by (simp add: ClientConfig_default_def)
  then show ?thesis using ReceiveTcpFrame_checked [OF r] r by simp
qed

end

