(* ===== verification/Tcp_Link.thy ===== *)
theory Tcp_Link
  imports Tcp_Backend Tcp_Receiver
begin

section \<open>Server and client over TCP\<close>

text \<open>
  The messages the send thread of a session writes are what the client's \<open>ReceiveTcpFrame\<close> reads,
  however the byte stream is cut on the way.
\<close>

definition fits_tcp :: "TransportConfig \<Rightarrow> EncodedFrame \<Rightarrow> bool" where
  "fits_tcp cfg f \<longleftrightarrow>
     (if tc_embed_frame_metadata cfg then sizeof_FrameDiagnosticMetadata else 0) + length (ef_payload f) \<le> unat kMaxPayloadLength"

definition is_tcp_frame :: "TransportConfig \<Rightarrow> EncodedFrame \<times> u64 \<Rightarrow> ReceivedFrame \<Rightarrow> bool" where
  "is_tcp_frame cfg ft r \<longleftrightarrow>
     (case ft of (f, t) \<Rightarrow>
        fr_payload r = ef_payload f \<and> fr_header r = tcp_header cfg f \<and>
        fr_metadata r = (if tc_embed_frame_metadata cfg then frame_diagnostics f t else FrameDiagnosticMetadata_zero) \<and>
        fr_sender_metadata_available r =
          (tc_embed_frame_metadata cfg \<and> HasSenderLatencyMetadata (frame_diagnostics f t)))"

lemma tcp_get_put_header: "get_MessageHeader (put_MessageHeader h) = h"
  by (rule header_codec.get_put)

lemma get_put_diagnostics: "get_FrameDiagnosticMetadata (put_FrameDiagnosticMetadata m) = m"
  by (rule metadata_codec.get_put)

lemma length_put_header: "length (put_MessageHeader h) = sizeof_MessageHeader"
  by (rule header_codec.length_put)

lemma length_put_diagnostics: "length (put_FrameDiagnosticMetadata m) = sizeof_FrameDiagnosticMetadata"
  by (rule metadata_codec.length_put)

lemma kMax: "unat kMaxPayloadLength = 52428800"
  by (simp add: kMaxPayloadLength_def)

lemma fits_length:
  assumes "fits_tcp cfg f"
  shows "unat (mh_payload_length (tcp_header cfg f)) =
      (if tc_embed_frame_metadata cfg then sizeof_FrameDiagnosticMetadata else 0) + length (ef_payload f)"
    "\<not> kMaxPayloadLength < mh_payload_length (tcp_header cfg f)"
proof -
  let ?n = "(if tc_embed_frame_metadata cfg then sizeof_FrameDiagnosticMetadata else 0) + length (ef_payload f)"
  have e: "mh_payload_length (tcp_header cfg f) = of_nat ?n"
    by (simp add: tcp_header_def del: of_nat_add)
  have n: "?n \<le> 52428800" using assms unfolding fits_tcp_def kMax .
  then show u: "unat (mh_payload_length (tcp_header cfg f)) = ?n" unfolding e by (intro unat_of_nat_small) simp
  show "\<not> kMaxPayloadLength < mh_payload_length (tcp_header cfg f)"
    using u n by (simp add: word_less_nat_alt kMax)
qed

text \<open>The steps of one read, in the order of the code.\<close>

lemma read_part:
  assumes "steady rs" "stream_bytes rs = part @ rest" "length part = count"
  obtains rs' where "ReceiveAll_client count 0 rs = (rs', ReadDone part)" "steady rs'" "stream_bytes rs' = rest"
  using ReceiveAll_client_steady [OF assms(1), of count 0] assms(2,3) by auto

lemma receive_payload_ok:
  assumes "steady rs" "stream_bytes rs = payload @ rest" "length payload = unat n"
  obtains rs' c' now_ns where "receive_payload header metadata available n rs c =
      (rs', c', Frame \<lparr>fr_header = header, fr_metadata = metadata, fr_sender_metadata_available = available,
         fr_receive_timestamp_ns = now_ns, fr_payload = payload\<rparr>)"
    "steady rs'" "stream_bytes rs' = rest" "sc_config c' = sc_config c"
proof -
  obtain rs' where r: "ReceiveAll_client (unat n) 0 rs = (rs', ReadDone payload)" "steady rs'" "stream_bytes rs' = rest"
    using assms by (rule read_part)
  then show thesis
    using that by (simp add: receive_payload_def MonotonicNowNs_def Let_def)
qed

lemma receive_one:
  assumes "steady rs" "stream_bytes rs = tcp_message cfg f t @ rest" "fits_tcp cfg f"
    and "cc_expect_metadata (sc_config c) = tc_embed_frame_metadata cfg"
  obtains rs' c' r where "ReceiveTcpFrame rs c = (rs', c', Frame r)" "steady rs'" "stream_bytes rs' = rest"
    "sc_config c' = sc_config c" "is_tcp_frame cfg (f, t) r"
proof -
  let ?h = "tcp_header cfg f"
  have b: "stream_bytes rs = put_MessageHeader ?h @
      (if tc_embed_frame_metadata cfg then put_FrameDiagnosticMetadata (frame_diagnostics f t) else []) @ ef_payload f @ rest"
    using assms(2) by (simp add: tcp_message_def message_parts_def)
  obtain rs1 where r1: "ReceiveAll_client sizeof_MessageHeader 0 rs = (rs1, ReadDone (put_MessageHeader ?h))" "steady rs1"
    "stream_bytes rs1 = (if tc_embed_frame_metadata cfg then put_FrameDiagnosticMetadata (frame_diagnostics f t) else []) @ ef_payload f @ rest"
    using assms(1) b length_put_header by (rule read_part)
  have m: "HasValidMessageMagic ?h" by (simp add: tcp_header_def HasValidMessageMagic_def FillMessageMagic_def)
  note u = fits_length [OF assms(3)]
  show thesis
  proof (cases "tc_embed_frame_metadata cfg")
    case True
    let ?n = "mh_payload_length ?h - of_nat sizeof_FrameDiagnosticMetadata"
    have ge: "\<not> mh_payload_length ?h < of_nat sizeof_FrameDiagnosticMetadata"
      using u(1) True by (simp add: word_less_nat_alt)
    then have n: "length (ef_payload f) = unat ?n" using u(1) True by (subst unat_sub) (auto simp: not_less)
    have b1: "stream_bytes rs1 = put_FrameDiagnosticMetadata (frame_diagnostics f t) @ ef_payload f @ rest"
      using r1(3) True by simp
    obtain rs2 where r2: "ReceiveAll_client sizeof_FrameDiagnosticMetadata 0 rs1 =
        (rs2, ReadDone (put_FrameDiagnosticMetadata (frame_diagnostics f t)))" "steady rs2" "stream_bytes rs2 = ef_payload f @ rest"
      using r1(2) b1 length_put_diagnostics by (rule read_part)
    obtain rs3 c3 now where r3: "receive_payload ?h (frame_diagnostics f t) (HasSenderLatencyMetadata (frame_diagnostics f t)) ?n rs2 c =
      (rs3, c3, Frame \<lparr>fr_header = ?h, fr_metadata = frame_diagnostics f t,
         fr_sender_metadata_available = HasSenderLatencyMetadata (frame_diagnostics f t),
         fr_receive_timestamp_ns = now, fr_payload = ef_payload f\<rparr>)"
      "steady rs3" "stream_bytes rs3 = rest" "sc_config c3 = sc_config c"
      using r2(2,3) n by (rule receive_payload_ok)
    have "ReceiveTcpFrame rs c = receive_metadata ?h rs1 c"
      using r1(1) m u(2) assms(4) True by (simp add: ReceiveTcpFrame_def tcp_get_put_header Let_def)
    also have "\<dots> = receive_payload ?h (frame_diagnostics f t) (HasSenderLatencyMetadata (frame_diagnostics f t)) ?n rs2 c"
      using ge r2(1) by (simp add: receive_metadata_def get_put_diagnostics Let_def)
    finally show thesis using that [of rs3 c3] r3 True by (simp add: is_tcp_frame_def)
  next
    case False
    have b1: "stream_bytes rs1 = ef_payload f @ rest" and n: "length (ef_payload f) = unat (mh_payload_length ?h)"
      using r1(3) u(1) False by simp_all
    obtain rs3 c3 now where r3: "receive_payload ?h FrameDiagnosticMetadata_zero False (mh_payload_length ?h) rs1 c =
      (rs3, c3, Frame \<lparr>fr_header = ?h, fr_metadata = FrameDiagnosticMetadata_zero, fr_sender_metadata_available = False,
         fr_receive_timestamp_ns = now, fr_payload = ef_payload f\<rparr>)"
      "steady rs3" "stream_bytes rs3 = rest" "sc_config c3 = sc_config c"
      using r1(2) b1 n by (rule receive_payload_ok)
    have "ReceiveTcpFrame rs c = receive_payload ?h FrameDiagnosticMetadata_zero False (mh_payload_length ?h) rs1 c"
      using r1(1) m u(2) assms(4) False by (simp add: ReceiveTcpFrame_def tcp_get_put_header Let_def)
    then show thesis using that [of rs3 c3] r3 False by (simp add: is_tcp_frame_def)
  qed
qed

text \<open>The client calls \<open>ReceiveTcpFrame\<close> again and again; the frames it gets.\<close>

fun receive_frames :: "nat \<Rightarrow> recv_result list \<Rightarrow> StreamClient \<Rightarrow> recv_result list \<times> StreamClient \<times> ReceivedFrame list" where
  "receive_frames 0 rs c = (rs, c, [])"
| "receive_frames (Suc n) rs c =
     (case ReceiveTcpFrame rs c of
        (rs, c, Frame f) \<Rightarrow> (case receive_frames n rs c of (rs, c, fs) \<Rightarrow> (rs, c, f # fs))
      | (rs, c, _) \<Rightarrow> (rs, c, []))"

lemma receive_messages:
  assumes "steady rs" "stream_bytes rs = concat (map (\<lambda>(f, t). tcp_message cfg f t) fts) @ rest"
    and "\<forall>(f, t)\<in>set fts. fits_tcp cfg f" "cc_expect_metadata (sc_config c) = tc_embed_frame_metadata cfg"
  shows "\<exists>rs' c' frames. receive_frames (length fts) rs c = (rs', c', frames) \<and>
    list_all2 (is_tcp_frame cfg) fts frames \<and> stream_bytes rs' = rest"
  using assms
proof (induction fts arbitrary: rs c)
  case (Cons ft fts)
  obtain f t where ft: "ft = (f, t)" by fastforce
  obtain rs1 c1 r where r: "ReceiveTcpFrame rs c = (rs1, c1, Frame r)" "steady rs1"
    "stream_bytes rs1 = concat (map (\<lambda>(f, t). tcp_message cfg f t) fts) @ rest" "sc_config c1 = sc_config c" "is_tcp_frame cfg (f, t) r"
    using receive_one [OF Cons.prems(1), of cfg f t "concat (map (\<lambda>(f, t). tcp_message cfg f t) fts) @ rest" c] Cons.prems ft by auto
  obtain rs2 c2 frames where "receive_frames (length fts) rs1 c1 = (rs2, c2, frames)" "list_all2 (is_tcp_frame cfg) fts frames"
    "stream_bytes rs2 = rest"
    using Cons.IH [OF r(2,3), of c1] Cons.prems(3,4) r(4) ft by auto
  then show ?case using r ft by auto
qed simp

text \<open>C4: TCP end to end: in every run of a session, a client that reads what the session has written, cut into
  pieces in any way, gets exactly the delivered frames, in order, with payload, type and time stamps, and what is left
  over is the message that was cut off.\<close>

theorem tcp_link_delivers:
  assumes "session_run e s pc spc h" "\<forall>(f, t)\<in>set (delivered h). fits_tcp (ts_config s) f"
    and "steady rs" "stream_bytes rs = ts_wire s" "cc_expect_metadata (sc_config c) = tc_embed_frame_metadata (ts_config s)"
  shows "\<exists>rs' c' frames. receive_frames (length (delivered h)) rs c = (rs', c', frames) \<and>
    list_all2 (is_tcp_frame (ts_config s)) (delivered h) frames \<and> stream_bytes rs' = cut_off h"
proof (rule receive_messages [OF assms(3) _ assms(2,5)])
  show "stream_bytes rs = concat (map (\<lambda>(f, t). tcp_message (ts_config s) f t) (delivered h)) @ cut_off h"
    using session_run_ok [OF assms(1)] assms(4) by (simp add: session_ok_def)
qed

theorem tcp_link_delivers_witness:
  "\<exists>rs' c' r. receive_frames 1 [Received (take 5 (tcp_message example_tcp_config (tcp_frame [1, 2, 3]) 3000)), RecvInterrupted,
       Received (drop 5 (tcp_message example_tcp_config (tcp_frame [1, 2, 3]) 3000))]
     (example_client\<lparr>sc_config := ClientConfig_default\<lparr>cc_expect_metadata := False\<rparr>\<rparr>) = (rs', c', [r]) \<and>
     fr_payload r = [1, 2, 3] \<and> stream_bytes rs' = []"
proof -
  let ?m = "tcp_message example_tcp_config (tcp_frame [1, 2, 3]) 3000"
  let ?rs = "[Received (take 5 ?m), RecvInterrupted, Received (drop 5 ?m)]"
  let ?c = "example_client\<lparr>sc_config := ClientConfig_default\<lparr>cc_expect_metadata := False\<rparr>\<rparr>"
  let ?h = "\<lparr>offered = [tcp_frame [1, 2, 3], tcp_frame [4]], delivered = [(tcp_frame [1, 2, 3], 3000)], cut_off = [], discarded = 0\<rparr>"
  obtain e s pc where r: "session_run e s pc Waiting ?h" "ts_config s = example_tcp_config" using example_session_run by blast
  have p: "ef_payload (tcp_frame [1, 2, 3]) = [1, 2, 3]" by (simp add: tcp_frame_def)
  have fits: "\<forall>(f, t)\<in>set (delivered ?h). fits_tcp (ts_config s) f" using r(2) p by (simp add: fits_tcp_def kMax)
  have "length ?m = 15" using length_put_header p by (simp add: tcp_message_def message_parts_def)
  then have st: "steady ?rs" by (auto simp flip: length_greater_0_conv)
  have w: "stream_bytes ?rs = ts_wire s" using session_run_ok [OF r(1)] r(2) by (simp add: session_ok_def)
  have "cc_expect_metadata (sc_config ?c) = tc_embed_frame_metadata (ts_config s)" using r(2) by simp
  from tcp_link_delivers [OF r(1) fits st w this] show ?thesis
    using p by (auto simp: list_all2_Cons1 is_tcp_frame_def)
qed

end
