(* ===== verification/Stream_Connection.thy ===== *)
theory Stream_Connection
  imports Udp_Receiver Tcp_Receiver Udp_Sender_Correct
begin

section \<open>The connection of the client\<close>

text \<open>
  \<^verbatim>\<open>sclient/src/modules/network/StreamClient.cpp\<close>: opening and closing the connection, the
  keep-alive messages with the receiver report, and the choice of the receiver by transport. The
  results of the socket calls are arguments; the memory image of a \<^verbatim>\<open>double\<close> in the report
  is the parameter \<open>double_bits\<close>.
\<close>

subsection \<open>Operations\<close>

definition Close_client :: "StreamClient \<Rightarrow> StreamClient" where
  "Close_client c =
     (let c = c\<lparr>sc_running := False\<rparr>;
          c = (if 0 \<le> sc_socket_fd c then c\<lparr>sc_socket_fd := -1\<rparr> else c);
          c = c\<lparr>sc_udp_assemblies := [], sc_udp_jitter_buffer := []\<rparr>
      in ResetRtpState (ResetUdpState c))"

definition jitter_config :: "ClientConfig \<Rightarrow> AdaptiveJitterBufferConfig" where
  "jitter_config cfg = AdaptiveJitterBufferConfig_default
     \<lparr>ac_min_delay_ms := cc_udp_jitter_buffer_min_delay_ms cfg,
      ac_safety_factor := cc_udp_jitter_buffer_safety_factor cfg,
      ac_base_max_wait_ms := cc_udp_jitter_buffer_max_wait_ms cfg,
      ac_base_max_frames := cc_udp_jitter_buffer_max_frames cfg\<rparr>"

definition apply_strategy :: "string \<Rightarrow> AdaptiveJitterBuffer \<Rightarrow> AdaptiveJitterBuffer" where
  "apply_strategy strategy aj =
     (if strategy = ''off'' then SetFixedMode kBypass aj
      else if strategy = ''low'' then SetFixedMode kLowLatency aj
      else if strategy = ''smooth'' then SetFixedMode kSmooth aj
      else if strategy = ''auto'' then EnableAutoMode aj
      else aj)"

text \<open>The part of \<open>Connect\<close> before the socket is created.\<close>

definition prepare_client :: "ClientConfig \<Rightarrow> StreamClient \<Rightarrow> StreamClient" where
  "prepare_client config c =
     (let c = Close_client c; c = c\<lparr>sc_config := config\<rparr>; c = ResetRtpState (ResetUdpState c)
      in c\<lparr>sc_adaptive_jitter := apply_strategy (cc_udp_jitter_buffer_strategy config)
             (Configure (jitter_config config) (sc_adaptive_jitter c))\<rparr>)"

definition keepalive_header :: "nat \<Rightarrow> MessageHeader" where
  "keepalive_header payload_length =
     (FillMessageMagic MessageHeader_zero)\<lparr>mh_message_type := MessageType_code kKeepAlive,
        mh_payload_length := of_nat payload_length\<rparr>"

definition receiver_report :: "(real \<Rightarrow> u64) \<Rightarrow> u64 \<Rightarrow> UdpReceiveStats \<Rightarrow> UdpReceiverReport" where
  "receiver_report double_bits now_ns stats =
     \<lparr>rr_report_timestamp_ns = now_ns, rr_datagrams_received = us_datagrams_received stats,
      rr_invalid_datagrams = us_invalid_datagrams stats, rr_fragments_received = us_fragments_received stats,
      rr_duplicate_fragments = us_duplicate_fragments stats, rr_timed_out_fragments = us_timed_out_fragments stats,
      rr_timed_out_frames = us_timed_out_frames stats, rr_completed_frames = us_completed_frames stats,
      rr_reordered_frames = us_reordered_frames stats, rr_jitter_samples = us_jitter_samples stats,
      rr_jitter_last_ms = double_bits (us_jitter_last_ms stats), rr_jitter_avg_ms = double_bits (us_jitter_avg_ms stats),
      rr_jitter_max_ms = double_bits (us_jitter_max_ms stats)\<rparr>"

definition SendKeepAlive :: "(real \<Rightarrow> u64) \<Rightarrow> StreamClient \<Rightarrow> StreamClient \<times> bool" where
  "SendKeepAlive double_bits c =
     (if cc_transport (sc_config c) \<noteq> ''udp'' then send_datagram (put_MessageHeader (keepalive_header 0)) c
      else
        let stats = udp_receive_stats c; (c, now_ns) = MonotonicNowNs c in
        send_datagram
          (put_MessageHeader (keepalive_header sizeof_UdpReceiverReport)
           @ put_UdpReceiverReport (receiver_report double_bits now_ns stats)) c)"

text \<open>The loop of the keep-alive thread: each element tells whether \<^verbatim>\<open>running_\<close> is still set
  after one more sleep.\<close>

fun KeepAliveLoop :: "(real \<Rightarrow> u64) \<Rightarrow> bool list \<Rightarrow> StreamClient \<Rightarrow> StreamClient" where
  "KeepAliveLoop double_bits [] c = c"
| "KeepAliveLoop double_bits (still_running # sleeps) c =
     (if \<not> sc_running c then c
      else if \<not> still_running then c
      else case SendKeepAlive double_bits c of
             (c, False) \<Rightarrow> c\<lparr>sc_running := False\<rparr>
           | (c, True) \<Rightarrow> KeepAliveLoop double_bits sleeps c)"

text \<open>\<open>Connect\<close>: \<open>opened\<close> is the descriptor \<^verbatim>\<open>socket\<close> returned, \<open>host_ok\<close> tells whether
  \<^verbatim>\<open>inet_pton\<close> accepts the host, \<open>attached\<close> whether \<^verbatim>\<open>bind\<close> (RTP) or
  \<^verbatim>\<open>connect\<close> succeeds. The result is the error message, if any.\<close>

definition Connect ::
  "(real \<Rightarrow> u64) \<Rightarrow> int \<Rightarrow> bool \<Rightarrow> bool \<Rightarrow> ClientConfig \<Rightarrow> StreamClient \<Rightarrow> StreamClient \<times> string option" where
  "Connect double_bits opened host_ok attached config c =
     (let c = prepare_client config c; c = c\<lparr>sc_socket_fd := opened\<rparr> in
      if opened < 0 then (c, Some ''failed to create socket'')
      else if \<not> host_ok then (Close_client c, Some (''invalid host: '' @ cc_host config))
      else if \<not> attached then
        (Close_client c, Some (if cc_transport config = ''rtp'' then ''failed to bind RTP socket'' else ''failed to connect''))
      else
        let c = c\<lparr>sc_running := True\<rparr> in
        if cc_transport config \<noteq> ''rtp'' then
          (case SendKeepAlive double_bits c of
             (c, False) \<Rightarrow> (Close_client c, Some ''failed to send initial keepalive'')
           | (c, True) \<Rightarrow> (c, None))
        else (c, None))"

definition ReceiveFrame :: "recv_result list \<Rightarrow> StreamClient \<Rightarrow> StreamClient \<times> receive_outcome" where
  "ReceiveFrame rs c =
     (if sc_socket_fd c < 0 then (c, Failed ''client is not connected'')
      else if cc_transport (sc_config c) = ''udp'' then ReceiveUdpFrame rs c
      else if cc_transport (sc_config c) = ''rtp'' then ReceiveRtpFrame rs c
      else case ReceiveTcpFrame rs c of (rs, c, outcome) \<Rightarrow> (c, outcome))"

text \<open>\<open>name\<close> is what \<^verbatim>\<open>getsockname\<close> reports, if it does.\<close>

definition BoundPort :: "u16 option \<Rightarrow> StreamClient \<Rightarrow> int" where
  "BoundPort name c = (if sc_socket_fd c < 0 then 0 else case name of None \<Rightarrow> 0 | Some port \<Rightarrow> int (unat port))"

subsection \<open>Closed and fresh clients\<close>

text \<open>No frame, assembly or statistic of an earlier connection is left.\<close>

definition fresh :: "StreamClient \<Rightarrow> bool" where
  "fresh c \<longleftrightarrow>
     sc_udp_assemblies c = [] \<and> sc_udp_jitter_buffer c = [] \<and> sc_rtp_frame_assembly c = RtpFrameAssembly_zero \<and>
     \<not> sc_has_next_jitter_buffer_sequence c \<and> \<not> sc_has_last_completed_frame_sequence c \<and>
     sc_recently_completed c = {} \<and> sc_recently_completed_order c = [] \<and> sc_udp_test_dropped_fragments c = [] \<and>
     us_completed_frames (sc_stats c) = 0 \<and> sc_stats_snapshot c = sc_stats c"

definition closed_client :: "StreamClient \<Rightarrow> bool" where
  "closed_client c \<longleftrightarrow> sc_socket_fd c < 0 \<and> \<not> sc_running c \<and> fresh c"

lemma Reset_fresh:
  "sc_udp_assemblies c = [] \<Longrightarrow> sc_udp_jitter_buffer c = [] \<Longrightarrow> fresh (ResetRtpState (ResetUdpState c))"
  by (simp add: fresh_def ResetRtpState_def ResetUdpState_def PublishUdpReceiveStatsSnapshot_def UdpReceiveStats_zero_def
      AdaptiveJitterBuffer_Reset_def)

lemma Reset_simps [simp]:
  "sc_socket_fd (ResetRtpState (ResetUdpState c)) = sc_socket_fd c" "sc_running (ResetRtpState (ResetUdpState c)) = sc_running c"
  "sc_config (ResetRtpState (ResetUdpState c)) = sc_config c" "sc_env (ResetRtpState (ResetUdpState c)) = sc_env c"
  "sc_udp_assemblies (ResetRtpState (ResetUdpState c)) = sc_udp_assemblies c"
  "sc_udp_jitter_buffer (ResetRtpState (ResetUdpState c)) = sc_udp_jitter_buffer c"
  by (simp_all add: ResetRtpState_def ResetUdpState_def PublishUdpReceiveStatsSnapshot_def)

lemma Close_client_closed: "closed_client (Close_client c)"
  by (auto simp: closed_client_def Close_client_def Let_def intro!: Reset_fresh)

lemma Close_client_simps [simp]:
  "sc_config (Close_client c) = sc_config c" "sc_env (Close_client c) = sc_env c"
  "sc_udp_assemblies (Close_client c) = []" "sc_udp_jitter_buffer (Close_client c) = []"
  by (simp_all add: Close_client_def Let_def)

lemma fresh_simps [simp]:
  "fresh (c\<lparr>sc_socket_fd := n\<rparr>) = fresh c" "fresh (c\<lparr>sc_running := r\<rparr>) = fresh c" "fresh (c\<lparr>sc_env := e\<rparr>) = fresh c"
  "fresh (c\<lparr>sc_adaptive_jitter := aj\<rparr>) = fresh c"
  by (simp_all add: fresh_def)

lemma prepare_client_spec:
  "fresh (prepare_client config c)" "sc_config (prepare_client config c) = config"
  "sc_env (prepare_client config c) = sc_env c" "\<not> sc_running (prepare_client config c)"
proof -
  have "fresh (ResetRtpState (ResetUdpState (Close_client c\<lparr>sc_config := config\<rparr>)))" by (intro Reset_fresh) simp_all
  then show "fresh (prepare_client config c)" by (simp add: prepare_client_def Let_def)
  show "\<not> sc_running (prepare_client config c)"
    using Close_client_closed [of c] by (simp add: prepare_client_def Let_def closed_client_def)
qed (simp_all add: prepare_client_def Let_def)

subsection \<open>Keep-alive messages\<close>

definition keepalive_message :: "(real \<Rightarrow> u64) \<Rightarrow> StreamClient \<Rightarrow> bytes" where
  "keepalive_message double_bits c =
     (if cc_transport (sc_config c) \<noteq> ''udp'' then put_MessageHeader (keepalive_header 0)
      else put_MessageHeader (keepalive_header sizeof_UdpReceiverReport)
           @ put_UdpReceiverReport (receiver_report double_bits (snd (MonotonicNowNs c)) (sc_stats_snapshot c)))"

lemma SendKeepAlive_spec:
  obtains e ok where "SendKeepAlive double_bits c = (c\<lparr>sc_env := e\<rparr>, ok)"
    "ce_sent e = ce_sent (sc_env c) @ [keepalive_message double_bits c]" "ok = ce_send_ok (sc_env c) (length (ce_sent (sc_env c)))"
proof (cases "cc_transport (sc_config c) = ''udp''")
  case True
  then show thesis
    by - (rule that, (simp add: SendKeepAlive_def send_datagram_def MonotonicNowNs_def udp_receive_stats_def
        keepalive_message_def Let_def)+)
next
  case False
  then show thesis
    by - (rule that, (simp add: SendKeepAlive_def send_datagram_def keepalive_message_def Let_def)+)
qed

lemma get_put_header_front: "get_MessageHeader (slice 0 sizeof_MessageHeader (put_MessageHeader h @ rest)) = h"
proof -
  have "length (put_MessageHeader h) = sizeof_MessageHeader" by (rule header_codec.length_put)
  then have "slice 0 sizeof_MessageHeader (put_MessageHeader h @ rest) = put_MessageHeader h" by (simp add: slice_def)
  then show ?thesis by (simp only: header_codec.get_put)
qed

lemma keepalive_header_simps:
  "HasValidMessageMagic (keepalive_header n)" "mh_message_type (keepalive_header n) = MessageType_code kKeepAlive"
  "mh_payload_length (keepalive_header n) = of_nat n"
  by (simp_all add: keepalive_header_def HasValidMessageMagic_def FillMessageMagic_def)

lemma IsKeepAlive_keepalive: "IsKeepAlivePacket (put_MessageHeader (keepalive_header n) @ rest)"
proof -
  have "length (put_MessageHeader (keepalive_header n)) = sizeof_MessageHeader" by (rule header_codec.length_put)
  then show ?thesis
    by (simp add: IsKeepAlivePacket_def get_put_header_front keepalive_header_simps Let_def)
qed

lemma ParseKeepAliveReport_report:
  "ParseKeepAliveReport (put_MessageHeader (keepalive_header sizeof_UdpReceiverReport) @ put_UdpReceiverReport r) = Some r"
proof -
  have l: "length (put_MessageHeader (keepalive_header sizeof_UdpReceiverReport)) = sizeof_MessageHeader"
    "length (put_UdpReceiverReport r) = sizeof_UdpReceiverReport"
    by (rule header_codec.length_put report_codec.length_put)+
  then have "slice sizeof_MessageHeader sizeof_UdpReceiverReport
      (put_MessageHeader (keepalive_header sizeof_UdpReceiverReport) @ put_UdpReceiverReport r) = put_UdpReceiverReport r"
    by (simp add: slice_def)
  then show ?thesis
    using l by (simp add: ParseKeepAliveReport_def get_put_header_front keepalive_header_simps report_codec.get_put Let_def)
qed

lemma keepalive_message_is_keepalive: "IsKeepAlivePacket (keepalive_message double_bits c)"
  using IsKeepAlive_keepalive [of 0 "[]"] IsKeepAlive_keepalive by (simp add: keepalive_message_def)

text \<open>The keep-alive of a UDP client registers it at the server: the server parses the report the client took of
  its statistics, bit for bit, and lists the sender with it.\<close>

theorem keepalive_registers_client:
  assumes "cc_transport (sc_config c) = ''udp''" "distinct (addresses b)"
  shows "\<exists>msg report. ce_sent (sc_env (fst (SendKeepAlive double_bits c))) = ce_sent (sc_env c) @ [msg] \<and>
    report = receiver_report double_bits (rr_report_timestamp_ns report) (sc_stats_snapshot c) \<and>
    (\<exists>ep\<in>set (ub_clients (HandleDatagram a msg b)). ep_address ep = a \<and> ep_has_report ep \<and> ep_latest_report ep = Some report)"
proof -
  let ?msg = "keepalive_message double_bits c"
  let ?report = "receiver_report double_bits (snd (MonotonicNowNs c)) (sc_stats_snapshot c)"
  have msg: "?msg = put_MessageHeader (keepalive_header sizeof_UdpReceiverReport) @ put_UdpReceiverReport ?report"
    using assms(1) by (simp add: keepalive_message_def)
  have p: "ParseKeepAliveReport ?msg = Some ?report" unfolding msg by (rule ParseKeepAliveReport_report)
  have h: "HandleDatagram a ?msg b = RegisterClient a (snd (MonotonicNow b)) (Some ?report) (fst (MonotonicNow b))"
    using keepalive_message_is_keepalive [of double_bits c] p by (simp add: HandleDatagram_def split_beta)
  have "distinct (addresses (fst (MonotonicNow b)))" using assms(2) by (simp add: MonotonicNow_def addresses_def Let_def)
  from RegisterClient_spec [OF this, of a "snd (MonotonicNow b)" "Some ?report"]
  have "\<exists>ep\<in>set (ub_clients (HandleDatagram a ?msg b)). ep_address ep = a \<and> ep_has_report ep \<and> ep_latest_report ep = Some ?report"
    unfolding h by blast
  moreover have "ce_sent (sc_env (fst (SendKeepAlive double_bits c))) = ce_sent (sc_env c) @ [?msg]"
    by (rule SendKeepAlive_spec [of double_bits c]) simp
  moreover have "?report = receiver_report double_bits (rr_report_timestamp_ns ?report) (sc_stats_snapshot c)"
    by (simp add: receiver_report_def)
  ultimately show ?thesis by blast
qed

subsection \<open>Connecting\<close>

text \<open>\<open>Connect\<close> either succeeds, and then the client runs on the new socket with nothing left of an earlier
  connection and has sent one keep-alive (none over RTP), or it fails with a message, and then the client is closed, no
  socket open; which of the two is decided by the socket calls alone.\<close>

theorem Connect_outcome:
  "case Connect double_bits opened host_ok attached config c of
     (c', None) \<Rightarrow>
       0 \<le> opened \<and> host_ok \<and> attached \<and> sc_socket_fd c' = opened \<and> sc_running c' \<and> sc_config c' = config \<and> fresh c' \<and>
       (\<exists>sent. ce_sent (sc_env c') = ce_sent (sc_env c) @ sent \<and> list_all IsKeepAlivePacket sent \<and>
          length sent = (if cc_transport config = ''rtp'' then 0 else 1))
   | (c', Some message) \<Rightarrow>
       closed_client c' \<and> sc_config c' = config \<and> message \<noteq> [] \<and>
       \<not> (0 \<le> opened \<and> host_ok \<and> attached \<and>
          (cc_transport config = ''rtp'' \<or> ce_send_ok (sc_env c) (length (ce_sent (sc_env c)))))"
proof -
  define c1 where "c1 = (prepare_client config c)\<lparr>sc_socket_fd := opened\<rparr>"
  have c1: "fresh c1" "sc_config c1 = config" "sc_env c1 = sc_env c" "\<not> sc_running c1" "sc_socket_fd c1 = opened"
    by (simp_all add: c1_def prepare_client_spec)
  have run: "Connect double_bits opened host_ok attached config c =
     (if opened < 0 then (c1, Some ''failed to create socket'')
      else if \<not> host_ok then (Close_client c1, Some (''invalid host: '' @ cc_host config))
      else if \<not> attached then
        (Close_client c1, Some (if cc_transport config = ''rtp'' then ''failed to bind RTP socket'' else ''failed to connect''))
      else if cc_transport config \<noteq> ''rtp'' then
          (case SendKeepAlive double_bits (c1\<lparr>sc_running := True\<rparr>) of
             (c, False) \<Rightarrow> (Close_client c, Some ''failed to send initial keepalive'')
           | (c, True) \<Rightarrow> (c, None))
      else (c1\<lparr>sc_running := True\<rparr>, None))"
    by (simp add: Connect_def c1_def)
  show ?thesis
  proof (cases "0 \<le> opened \<and> host_ok \<and> attached \<and> cc_transport config \<noteq> ''rtp''")
    case True
    obtain e ok where k: "SendKeepAlive double_bits (c1\<lparr>sc_running := True\<rparr>) = (c1\<lparr>sc_running := True\<rparr>\<lparr>sc_env := e\<rparr>, ok)"
      "ce_sent e = ce_sent (sc_env c) @ [keepalive_message double_bits (c1\<lparr>sc_running := True\<rparr>)]"
      "ok = ce_send_ok (sc_env c) (length (ce_sent (sc_env c)))"
      by (rule SendKeepAlive_spec [of double_bits "c1\<lparr>sc_running := True\<rparr>"]) (simp add: c1)
    show ?thesis
    proof (cases ok)
      case True
      then show ?thesis using \<open>0 \<le> opened \<and> _\<close> k c1 keepalive_message_is_keepalive unfolding run by simp
    next
      case False
      then show ?thesis using \<open>0 \<le> opened \<and> _\<close> k c1 Close_client_closed unfolding run by simp
    qed
  next
    case False
    then show ?thesis using c1 Close_client_closed unfolding run by (auto simp: closed_client_def)
  qed
qed

text \<open>The keep-alive thread sends one message after each sleep, and the first that is not taken stops the client.\<close>

lemma KeepAliveLoop_stops:
  "sc_running c \<Longrightarrow> \<not> ce_send_ok (sc_env c) (length (ce_sent (sc_env c))) \<Longrightarrow>
    \<not> sc_running (KeepAliveLoop double_bits (True # sleeps) c)"
  by (rule SendKeepAlive_spec [of double_bits c]) simp

theorem keepalive_registers_client_witness:
  "\<exists>msg. ce_sent (sc_env (fst (SendKeepAlive (\<lambda>_. 0) (example_client\<lparr>sc_config := ClientConfig_default\<lparr>cc_transport := ''udp''\<rparr>\<rparr>)))) =
      ce_sent (sc_env example_client) @ [msg] \<and> example_address \<in> ep_address ` set (ub_clients (HandleDatagram example_address msg example_backend))"
proof -
  let ?c = "example_client\<lparr>sc_config := ClientConfig_default\<lparr>cc_transport := ''udp''\<rparr>\<rparr>"
  have "cc_transport (sc_config ?c) = ''udp''" "distinct (addresses example_backend)" by (simp_all add: addresses_def)
  from keepalive_registers_client [OF this, of "\<lambda>_. 0" example_address] show ?thesis by force
qed

end

