(* ===== verification/Text_Format.thy ===== *)
theory Text_Format
  imports AV_Prelude
begin

section \<open>Text: numbers, blanks and lines\<close>

text \<open>
  What configuration files, command lines and session descriptions are read and written with:
  \<^verbatim>\<open>std::to_string\<close>, \<^verbatim>\<open>std::isspace\<close> in the C locale, \<^verbatim>\<open>std::getline\<close>, and the
  extraction of an integer from an \<^verbatim>\<open>std::istringstream\<close> that must use up the whole text.
\<close>

subsection \<open>Writing numbers\<close>

fun dec_nat :: "nat \<Rightarrow> string" where
  "dec_nat n = (if n < 10 then [char_of (48 + n)] else dec_nat (n div 10) @ [char_of (48 + n mod 10)])"

declare dec_nat.simps [simp del]

definition dec_int :: "int \<Rightarrow> string" where
  "dec_int i = (if i < 0 then ''-'' @ dec_nat (nat (- i)) else dec_nat (nat i))"

subsection \<open>Reading numbers\<close>

definition is_digit :: "char \<Rightarrow> bool" where
  "is_digit c \<longleftrightarrow> 48 \<le> (of_char c :: nat) \<and> (of_char c :: nat) \<le> 57"

definition digits_value :: "string \<Rightarrow> nat" where
  "digits_value s = foldl (\<lambda>n c. 10 * n + (of_char c - 48)) 0 s"

definition split_sign :: "string \<Rightarrow> bool \<times> string" where
  "split_sign s = (case s of CHR ''-'' # rest \<Rightarrow> (True, rest) | CHR ''+'' # rest \<Rightarrow> (False, rest) | _ \<Rightarrow> (False, s))"

definition int_max :: int where "int_max = 2 ^ 31 - 1"

definition is_space :: "char \<Rightarrow> bool" where
  "is_space c \<longleftrightarrow> (of_char c :: nat) = 32 \<or> 9 \<le> (of_char c :: nat) \<and> (of_char c :: nat) \<le> 13"

text \<open>\<^verbatim>\<open>stream >> value\<close> for a number: blanks are skipped, then an optional sign and the digits
  that follow are used up; it fails without a digit or when the value is out of the range of the type.
  For an unsigned type a minus sign is accepted and the value negated modulo its width. The result is
  the value and what is left of the text.\<close>

definition extract_digits :: "string \<Rightarrow> (bool \<times> nat \<times> string) option" where
  "extract_digits s =
     (case split_sign (dropWhile is_space s) of (negative, rest) \<Rightarrow>
        if takeWhile is_digit rest = [] then None
        else Some (negative, digits_value (takeWhile is_digit rest), dropWhile is_digit rest))"

definition extract_int :: "string \<Rightarrow> (int \<times> string) option" where
  "extract_int s =
     (case extract_digits s of
        None \<Rightarrow> None
      | Some (negative, n, rest) \<Rightarrow>
          let i = (if negative then - int n else int n) in
          if - int_max - 1 \<le> i \<and> i \<le> int_max then Some (i, rest) else None)"

definition extract_size :: "string \<Rightarrow> (nat \<times> string) option" where
  "extract_size s =
     (case extract_digits s of
        None \<Rightarrow> None
      | Some (negative, n, rest) \<Rightarrow>
          if 2 ^ 64 \<le> n then None else Some (if negative then (2 ^ 64 - n) mod 2 ^ 64 else n, rest))"

text \<open>\<^verbatim>\<open>stream >> value\<close> with \<^verbatim>\<open>!stream.fail() && stream.eof()\<close>: the number has to use
  up the whole text.\<close>

definition whole :: "('a \<times> string) option \<Rightarrow> 'a option" where
  "whole extracted = (case extracted of Some (value, []) \<Rightarrow> Some value | _ \<Rightarrow> None)"

definition read_int :: "string \<Rightarrow> int option" where
  "read_int s = whole (extract_int s)"

definition read_size :: "string \<Rightarrow> nat option" where
  "read_size s = whole (extract_size s)"

text \<open>\<^verbatim>\<open>stream >> value\<close> for a string: the next word.\<close>

definition extract_word :: "string \<Rightarrow> (string \<times> string) option" where
  "extract_word s =
     (let t = dropWhile is_space s; word = takeWhile (\<lambda>c. \<not> is_space c) t in
      if word = [] then None else Some (word, dropWhile (\<lambda>c. \<not> is_space c) t))"

subsection \<open>Blanks and lines\<close>

definition Trim :: "string \<Rightarrow> string" where
  "Trim value = rev (dropWhile is_space (rev (dropWhile is_space value)))"

definition newline :: char where "newline = CHR 0x0A"

text \<open>The lines \<^verbatim>\<open>std::getline\<close> yields until it fails.\<close>

fun getlines_from :: "string \<Rightarrow> string \<Rightarrow> string list" where
  "getlines_from current [] = (if current = [] then [] else [current])"
| "getlines_from current (c # cs) =
     (if c = newline then current # getlines_from [] cs else getlines_from (current @ [c]) cs)"

definition getlines :: "string \<Rightarrow> string list" where
  "getlines content = getlines_from [] content"

text \<open>Lines written with \<^verbatim>\<open>output << line << "\n"\<close>.\<close>

definition unlines :: "string list \<Rightarrow> string" where
  "unlines ls = concat (map (\<lambda>l. l @ [newline]) ls)"

subsection \<open>Their inverses\<close>

lemma getlines_from_line: "newline \<notin> set l \<Longrightarrow> getlines_from cur (l @ newline # rest) = (cur @ l) # getlines_from [] rest"
  by (induction l arbitrary: cur) auto

lemma getlines_unlines: "list_all (\<lambda>l. newline \<notin> set l) ls \<Longrightarrow> getlines (unlines ls) = ls"
  unfolding getlines_def by (induction ls) (auto simp: unlines_def getlines_from_line)

lemma of_char_digit: "d < 10 \<Longrightarrow> of_char (char_of (48 + d) :: char) = 48 + (d :: nat)"
  by simp

lemma digits_value_append: "digits_value (s @ [c]) = 10 * digits_value s + (of_char c - 48)"
  by (simp add: digits_value_def)

lemma digits_value_dec_nat: "digits_value (dec_nat n) = n"
proof (induction n rule: dec_nat.induct)
  case (1 n)
  show ?case
  proof (cases "n < 10")
    case True
    then show ?thesis by (subst dec_nat.simps) (simp add: digits_value_def)
  next
    case False
    then show ?thesis using 1 by (subst dec_nat.simps) (simp add: digits_value_append)
  qed
qed

lemma is_digit_dec_nat: "list_all is_digit (dec_nat n)"
proof (induction n rule: dec_nat.induct)
  case (1 n)
  have d: "is_digit (char_of (48 + d))" if "d < 10" for d :: nat using that by (simp add: is_digit_def)
  show ?case using 1 d by (subst dec_nat.simps) simp
qed

lemma dec_nat_nonempty [simp]: "dec_nat n \<noteq> []"
  by (subst dec_nat.simps) simp

lemma is_digit_not_sign: "is_digit c \<Longrightarrow> c \<noteq> CHR ''-'' \<and> c \<noteq> CHR ''+''"
  by (auto simp: is_digit_def)

lemma is_digit_not_space: "is_digit c \<Longrightarrow> \<not> is_space c"
  by (auto simp: is_digit_def is_space_def)

lemma dropWhile_same: "s = [] \<or> \<not> P (hd s) \<Longrightarrow> dropWhile P s = s"
  by (cases s) auto

lemma takeWhile_none: "s = [] \<or> \<not> P (hd s) \<Longrightarrow> takeWhile P s = []"
  by (cases s) auto

lemma hd_digits: "list_all is_digit s \<Longrightarrow> s \<noteq> [] \<Longrightarrow> is_digit (hd s)"
  by (cases s) auto

lemma takeWhile_digits:
  assumes "list_all is_digit s" "rest = [] \<or> \<not> is_digit (hd rest)"
  shows "takeWhile is_digit (s @ rest) = s" "dropWhile is_digit (s @ rest) = rest"
  using assms by (simp_all add: list_all_iff takeWhile_append2 dropWhile_append2 takeWhile_none dropWhile_same)

lemma split_sign_dec: "split_sign (dec_nat n @ rest) = (False, dec_nat n @ rest)"
proof -
  have "is_digit (hd (dec_nat n))" using is_digit_dec_nat by (rule hd_digits) simp
  then show ?thesis using is_digit_not_sign
    by (cases "dec_nat n") (auto simp: split_sign_def split: char.splits bool.splits)
qed

lemma extract_digits_dec_nat:
  assumes "rest = [] \<or> \<not> is_digit (hd rest)"
  shows "extract_digits (dec_nat n @ rest) = Some (False, n, rest)"
    and "extract_digits (CHR ''-'' # dec_nat n @ rest) = Some (True, n, rest)"
proof -
  have "is_digit (hd (dec_nat n))" using is_digit_dec_nat by (rule hd_digits) simp
  then have "dropWhile is_space (dec_nat n @ rest) = dec_nat n @ rest"
    by (intro dropWhile_same) (simp add: is_digit_not_space)
  then show "extract_digits (dec_nat n @ rest) = Some (False, n, rest)"
    by (simp add: extract_digits_def split_sign_dec takeWhile_digits [OF is_digit_dec_nat assms] digits_value_dec_nat)
  have "\<not> is_space (CHR ''-'')" by (simp add: is_space_def)
  then show "extract_digits (CHR ''-'' # dec_nat n @ rest) = Some (True, n, rest)"
    by (simp add: extract_digits_def split_sign_def takeWhile_digits [OF is_digit_dec_nat assms] digits_value_dec_nat)
qed

lemma extract_int_dec_int:
  assumes "- int_max - 1 \<le> i" "i \<le> int_max" "rest = [] \<or> \<not> is_digit (hd rest)"
  shows "extract_int (dec_int i @ rest) = Some (i, rest)"
  using assms by (simp add: extract_int_def dec_int_def extract_digits_dec_nat Let_def)

lemma read_int_dec_int: "- int_max - 1 \<le> i \<Longrightarrow> i \<le> int_max \<Longrightarrow> read_int (dec_int i) = Some i"
  using extract_int_dec_int [of i "[]"] by (simp add: read_int_def whole_def)

lemma read_size_dec_nat: "n < 2 ^ 64 \<Longrightarrow> read_size (dec_nat n) = Some n"
  using extract_digits_dec_nat [of "[]" n] by (simp add: read_size_def extract_size_def whole_def)

text \<open>A text that neither begins nor ends with a blank is left alone.\<close>

lemma Trim_same: "s = [] \<or> (\<not> is_space (hd s) \<and> \<not> is_space (last s)) \<Longrightarrow> Trim s = s"
  by (auto simp: Trim_def dropWhile_same hd_rev)

end
