(* ===== verification/Rtp_Backend.thy ===== *)
theory Rtp_Backend
  imports Server_Config Rtp_Packetizer Sockets Text_Format Latency
begin

section \<open>The RTP backend of the server\<close>

text \<open>
  \<^verbatim>\<open>sserver/src/modules/transport/rtp/RtpStreamingBackend.cpp\<close>: one remote receiver, to which
  every frame is sent as the packets of the packetizer, spread over a short window; the session is
  described in an SDP file. The object is the record \<open>RtpStreamingBackend\<close>. The world outside is
  \<open>RtpEnv\<close>: the n-th reading of the monotonic clock (both of \<^verbatim>\<open>steady_clock\<close> and of
  \<^verbatim>\<open>MonotonicNowNs\<close>), the result of the n-th \<^verbatim>\<open>sendto\<close>, and the logs of the packets the
  kernel took whole and of the requested sleeps. \<^verbatim>\<open>inet_pton\<close>, the success of the socket
  calls and of opening the SDP file are arguments. Log output is left out.
\<close>

subsection \<open>State\<close>

record RtpEnv =
  re_clock :: "nat \<Rightarrow> u64"
  re_clock_reads :: nat
  re_sendto :: "nat \<Rightarrow> bytes \<Rightarrow> int"
  re_send_calls :: nat
  re_sent :: "(Sockaddr \<times> bytes) list"
  re_sleeps :: "int list"

record RtpStreamingBackend =
  rb_config :: TransportConfig
  rb_latency_log_interval_frames :: int
  rb_socket_fd :: int
  rb_bound_port :: int
  rb_remote_address :: Sockaddr
  rb_has_remote_address :: bool
  rb_send_latency_recorder :: "LatencyRecorder option"
  rb_packetizer :: "RtpPacketizer option"
  rb_state :: ModuleState
  rb_sent_frames :: u64
  rb_sent_packets :: u64
  rb_failed_frames :: u64
  rb_fallback_frame_interval_ns :: u64
  rb_previous_frame_capture_timestamp_ns :: u64
  rb_env :: RtpEnv

definition kMaxRtpPacingWindowNs :: u64 where "kMaxRtpPacingWindowNs = 2 * 1000 * 1000"
definition kRtpPacingFrameFractionDivisor :: u64 where "kRtpPacingFrameFractionDivisor = 4"
definition kMinRtpPacingIntervalNs :: u64 where "kMinRtpPacingIntervalNs = 50 * 1000"

definition RtpStreamingBackend_new :: "LatencyRecorder option \<Rightarrow> RtpEnv \<Rightarrow> RtpStreamingBackend" where
  "RtpStreamingBackend_new send_latency_recorder env =
     \<lparr>rb_config = TransportConfig_default, rb_latency_log_interval_frames = 120, rb_socket_fd = - 1,
      rb_bound_port = 0, rb_remote_address = \<lparr>sin_port = 0, sin_addr = 0\<rparr>, rb_has_remote_address = False,
      rb_send_latency_recorder = send_latency_recorder, rb_packetizer = None, rb_state = kCreated,
      rb_sent_frames = 0, rb_sent_packets = 0, rb_failed_frames = 0, rb_fallback_frame_interval_ns = 0,
      rb_previous_frame_capture_timestamp_ns = 0, rb_env = env\<rparr>"

definition rtp_now :: "RtpEnv \<Rightarrow> RtpEnv \<times> u64" where
  "rtp_now e = (e\<lparr>re_clock_reads := Suc (re_clock_reads e)\<rparr>, re_clock e (re_clock_reads e))"

definition rtp_sendto :: "Sockaddr \<Rightarrow> bytes \<Rightarrow> RtpEnv \<Rightarrow> RtpEnv \<times> bool" where
  "rtp_sendto address packet e =
     (let ok = (re_sendto e (re_send_calls e) packet = int (length packet)) in
      (e\<lparr>re_send_calls := Suc (re_send_calls e), re_sent := re_sent e @ (if ok then [(address, packet)] else [])\<rparr>, ok))"

subsection \<open>Life cycle\<close>

definition fallback_interval :: "CaptureConfig \<Rightarrow> u64" where
  "fallback_interval capture =
     (if 0 < cp_frame_interval_ms capture then of_int (cp_frame_interval_ms capture) * 1000000
      else if 0 < cp_fps capture then 1000000000 div of_int (cp_fps capture)
      else 0)"

definition initialize_rtp :: "AppConfig \<Rightarrow> RtpStreamingBackend \<Rightarrow> RtpStreamingBackend \<times> bool" where
  "initialize_rtp config b =
     (b\<lparr>rb_config := ac_transport config,
        rb_latency_log_interval_frames := rt_latency_log_interval_frames (ac_runtime config),
        rb_fallback_frame_interval_ns := fallback_interval (ac_capture config),
        rb_previous_frame_capture_timestamp_ns := 0, rb_state := kInitialized\<rparr>, True)"

definition CloseSocket_rtp :: "RtpStreamingBackend \<Rightarrow> RtpStreamingBackend" where
  "CloseSocket_rtp b =
     (let b = (if 0 \<le> rb_socket_fd b then b\<lparr>rb_socket_fd := - 1\<rparr> else b) in b\<lparr>rb_bound_port := 0\<rparr>)"

definition OpenSocket_rtp ::
  "(string \<Rightarrow> u32 option) \<Rightarrow> int \<Rightarrow> bool \<Rightarrow> u16 option \<Rightarrow> RtpStreamingBackend \<Rightarrow> RtpStreamingBackend \<times> bool" where
  "OpenSocket_rtp inet_pton opened bound port b =
     (let b = b\<lparr>rb_socket_fd := opened\<rparr> in
      if opened < 0 then (b, False)
      else if inet_pton (tc_bind_address (rb_config b)) = None then (CloseSocket_rtp b, False)
      else if \<not> bound then (CloseSocket_rtp b, False)
      else case port of
             Some p \<Rightarrow> (b\<lparr>rb_bound_port := int (unat p)\<rparr>, True)
           | None \<Rightarrow> (b\<lparr>rb_bound_port := tc_listen_port (rb_config b)\<rparr>, True))"

definition ConfigureRemoteAddress ::
  "(string \<Rightarrow> u32 option) \<Rightarrow> RtpStreamingBackend \<Rightarrow> RtpStreamingBackend \<times> bool" where
  "ConfigureRemoteAddress inet_pton b =
     (let b = b\<lparr>rb_remote_address := \<lparr>sin_port = of_int (tc_rtp_remote_port (rb_config b)), sin_addr = 0\<rparr>\<rparr> in
      case inet_pton (tc_rtp_remote_host (rb_config b)) of
        None \<Rightarrow> (b\<lparr>rb_has_remote_address := False\<rparr>, False)
      | Some address \<Rightarrow>
          (b\<lparr>rb_remote_address := (rb_remote_address b)\<lparr>sin_addr := address\<rparr>, rb_has_remote_address := True\<rparr>, True))"

text \<open>The text of the session description.\<close>

definition sdp_lines :: "TransportConfig \<Rightarrow> string list" where
  "sdp_lines c =
     [''v=0'',
      ''o=- 0 0 IN IP4 '' @ tc_rtp_remote_host c,
      ''s=sserver RTP stream'',
      ''c=IN IP4 '' @ tc_rtp_remote_host c,
      ''t=0 0'',
      ''m=video '' @ dec_int (tc_rtp_remote_port c) @ '' RTP/AVP '' @ dec_int (tc_rtp_payload_type c),
      ''a=rtpmap:'' @ dec_int (tc_rtp_payload_type c) @ '' H264/'' @ dec_int (tc_rtp_clock_rate c),
      ''a=fmtp:'' @ dec_int (tc_rtp_payload_type c) @ '' packetization-mode=1'',
      ''a=recvonly'']"

text \<open>The file that is written, if any, and the success; \<open>can_open\<close> says which paths can be opened.\<close>

definition WriteSdpFile :: "(string \<Rightarrow> bool) \<Rightarrow> RtpStreamingBackend \<Rightarrow> (string \<times> string) option \<times> bool" where
  "WriteSdpFile can_open b =
     (if tc_rtp_sdp_path (rb_config b) = [] then (None, True)
      else if \<not> can_open (tc_rtp_sdp_path (rb_config b)) then (None, False)
      else (Some (tc_rtp_sdp_path (rb_config b), unlines (sdp_lines (rb_config b))), True))"

text \<open>\<open>seed\<close> is the pseudo-random sequence number generator of the packetizer and the clock reading
  it is seeded with.\<close>

definition new_packetizer :: "(u32 \<Rightarrow> u32) \<times> u64 \<Rightarrow> TransportConfig \<Rightarrow> RtpPacketizer" where
  "new_packetizer seed c =
     RtpPacketizer_new (fst seed) (snd seed) (of_int (tc_rtp_payload_type c)) (of_int (tc_rtp_clock_rate c))
       (tc_rtp_max_payload_size c) (of_int (tc_rtp_ssrc c)) (tc_rtp_enable_latency_extension c)"

definition start_rtp ::
  "(string \<Rightarrow> u32 option) \<Rightarrow> int \<Rightarrow> bool \<Rightarrow> u16 option \<Rightarrow> (string \<Rightarrow> bool) \<Rightarrow> (u32 \<Rightarrow> u32) \<times> u64 \<Rightarrow>
   RtpStreamingBackend \<Rightarrow> RtpStreamingBackend \<times> (string \<times> string) option \<times> bool" where
  "start_rtp inet_pton opened bound port can_open seed b =
     (if \<not> tc_enabled (rb_config b) then (b\<lparr>rb_state := kRunning\<rparr>, None, True)
      else
        let (b, configured) = ConfigureRemoteAddress inet_pton b in
        if \<not> configured then (b\<lparr>rb_state := kFailed\<rparr>, None, False)
        else
          let (b, opened_ok) = OpenSocket_rtp inet_pton opened bound port b in
          if \<not> opened_ok then (b\<lparr>rb_state := kFailed\<rparr>, None, False)
          else
            let b = b\<lparr>rb_packetizer := Some (new_packetizer seed (rb_config b))\<rparr>;
                (file, written) = WriteSdpFile can_open b
            in if \<not> written then
                 (let b = CloseSocket_rtp b in (b\<lparr>rb_packetizer := None, rb_state := kFailed\<rparr>, None, False))
               else (b\<lparr>rb_state := kRunning\<rparr>, file, True))"

definition stop_rtp :: "RtpStreamingBackend \<Rightarrow> RtpStreamingBackend" where
  "stop_rtp b =
     (let b = CloseSocket_rtp (b\<lparr>rb_packetizer := None\<rparr>) in
      b\<lparr>rb_has_remote_address := False, rb_previous_frame_capture_timestamp_ns := 0, rb_state := kStopped\<rparr>)"

definition shutdown_rtp :: "RtpStreamingBackend \<Rightarrow> RtpStreamingBackend" where
  "shutdown_rtp b = (stop_rtp b)\<lparr>rb_state := kShutdown\<rparr>"

subsection \<open>Pacing\<close>

text \<open>The interval between two frames: what their capture times say, otherwise the configured one.\<close>

definition measured_interval :: "u64 \<Rightarrow> RtpStreamingBackend \<Rightarrow> u64" where
  "measured_interval current_capture_timestamp_ns b =
     (if current_capture_timestamp_ns \<noteq> 0 \<and> rb_previous_frame_capture_timestamp_ns b \<noteq> 0 \<and>
         rb_previous_frame_capture_timestamp_ns b < current_capture_timestamp_ns
      then current_capture_timestamp_ns - rb_previous_frame_capture_timestamp_ns b
      else rb_fallback_frame_interval_ns b)"

definition interval_of :: "nat \<Rightarrow> u64 \<Rightarrow> u64" where
  "interval_of packet_count frame_interval_ns =
     (if frame_interval_ns = 0 then 0
      else
        let pacing_window_ns = min kMaxRtpPacingWindowNs (frame_interval_ns div kRtpPacingFrameFractionDivisor) in
        if pacing_window_ns < kMinRtpPacingIntervalNs then 0
        else
          let interval_ns = pacing_window_ns div of_nat (packet_count - 1) in
          if interval_ns < kMinRtpPacingIntervalNs then 0 else interval_ns)"

definition ComputePacingInterval :: "nat \<Rightarrow> u64 \<Rightarrow> RtpStreamingBackend \<Rightarrow> RtpStreamingBackend \<times> u64" where
  "ComputePacingInterval packet_count current_capture_timestamp_ns b =
     (let b' = (if current_capture_timestamp_ns \<noteq> 0
                then b\<lparr>rb_previous_frame_capture_timestamp_ns := current_capture_timestamp_ns\<rparr> else b) in
      if packet_count < 4 then (b', 0)
      else (b', interval_of packet_count (measured_interval current_capture_timestamp_ns b)))"

text \<open>Durations and time points are signed 64-bit counts of nanoseconds, far from their bounds here:
  integers.\<close>

definition PacePacketBurst :: "nat \<Rightarrow> u64 \<Rightarrow> u64 \<Rightarrow> RtpEnv \<Rightarrow> RtpEnv" where
  "PacePacketBurst packet_index frame_send_start pacing_interval e =
     (if packet_index = 0 \<or> pacing_interval = 0 then e
      else
        let target_send_time = uint frame_send_start + uint pacing_interval * int packet_index;
            (e, now) = rtp_now e
        in if target_send_time \<le> uint now then e
           else e\<lparr>re_sleeps := re_sleeps e @ [target_send_time - uint now]\<rparr>)"

subsection \<open>Sending a frame\<close>

datatype rtp_send_error = PacketTooLarge | ExtensionMissing | SendtoFailed

definition send_rtp_packet ::
  "TransportConfig \<Rightarrow> Sockaddr \<Rightarrow> nat \<Rightarrow> u64 \<Rightarrow> u64 \<Rightarrow> bytes \<Rightarrow> RtpEnv \<Rightarrow> RtpEnv \<times> rtp_send_error option" where
  "send_rtp_packet c address index frame_send_start pacing_interval packet e =
     (if tc_udp_max_datagram_size c < length packet then (e, Some PacketTooLarge)
      else
        let e = PacePacketBurst index frame_send_start pacing_interval e;
            (e, send_timestamp_ns) = rtp_now e
        in case (if tc_rtp_enable_latency_extension c
                 then UpdateRtpLatencyExtensionTransportSendTimestamp packet send_timestamp_ns else Some packet) of
             None \<Rightarrow> (e, Some ExtensionMissing)
           | Some packet \<Rightarrow>
               let (e, sent) = rtp_sendto address packet e in (e, if sent then None else Some SendtoFailed))"

text \<open>The loop over the packets, from position \<open>index\<close> on, with the number of packets sent and the
  error that ended it.\<close>

fun send_rtp_packets ::
  "TransportConfig \<Rightarrow> Sockaddr \<Rightarrow> nat \<Rightarrow> u64 \<Rightarrow> u64 \<Rightarrow> bytes list \<Rightarrow> RtpEnv \<Rightarrow> RtpEnv \<times> nat \<times> rtp_send_error option" where
  "send_rtp_packets c address index frame_send_start pacing_interval [] e = (e, 0, None)"
| "send_rtp_packets c address index frame_send_start pacing_interval (packet # packets) e =
     (case send_rtp_packet c address index frame_send_start pacing_interval packet e of
        (e, Some error) \<Rightarrow> (e, 0, Some error)
      | (e, None) \<Rightarrow>
          (case send_rtp_packets c address (Suc index) frame_send_start pacing_interval packets e of
             (e, n, error) \<Rightarrow> (e, Suc n, error)))"

definition record_capture_to_send :: "EncodedFrame \<Rightarrow> RtpStreamingBackend \<Rightarrow> RtpStreamingBackend" where
  "record_capture_to_send frame b =
     (case rb_send_latency_recorder b of
        None \<Rightarrow> b
      | Some recorder \<Rightarrow>
          if ef_capture_timestamp_ns frame = 0 then b
          else
            let (e, now) = rtp_now (rb_env b) in
            b\<lparr>rb_env := e,
              rb_send_latency_recorder := Some (RecordNs (now - ef_capture_timestamp_ns frame) recorder)\<rparr>)"

definition send_paced :: "EncodedFrame \<Rightarrow> bytes list \<Rightarrow> RtpStreamingBackend \<Rightarrow> RtpStreamingBackend" where
  "send_paced frame packets b =
     (let (b, pacing_interval) = ComputePacingInterval (length packets) (ef_capture_timestamp_ns frame) b;
          (e, frame_send_start) = rtp_now (rb_env b);
          (e, n, error) =
             send_rtp_packets (rb_config b) (rb_remote_address b) 0 frame_send_start pacing_interval packets e;
          b = b\<lparr>rb_env := e, rb_sent_packets := rb_sent_packets b + of_nat n\<rparr>
      in case error of
           Some _ \<Rightarrow> b\<lparr>rb_failed_frames := rb_failed_frames b + 1\<rparr>
         | None \<Rightarrow> record_capture_to_send frame (b\<lparr>rb_sent_frames := rb_sent_frames b + 1\<rparr>))"

definition Broadcast_rtp :: "EncodedFramePtr \<Rightarrow> RtpStreamingBackend \<Rightarrow> RtpStreamingBackend" where
  "Broadcast_rtp frame b =
     (case (frame, rb_packetizer b) of
        (Some f, Some p) \<Rightarrow>
          if \<not> tc_enabled (rb_config b) \<or> rb_socket_fd b < 0 \<or> \<not> rb_has_remote_address b then b
          else
            (case Packetize p (Some f) of
               (p, Inl message) \<Rightarrow> b\<lparr>rb_packetizer := Some p, rb_failed_frames := rb_failed_frames b + 1\<rparr>
             | (p, Inr packets) \<Rightarrow> send_paced f packets (b\<lparr>rb_packetizer := Some p\<rparr>))
      | _ \<Rightarrow> b)"

end
