(* ===== verification/Session_Description.thy ===== *)
theory Session_Description
  imports Text_Format
begin

section \<open>Session descriptions read by the client\<close>

text \<open>
  \<^verbatim>\<open>sclient/src/common/net/SdpSessionDescription.cpp\<close>: the address, the port, the payload type
  and the clock rate of the video stream, taken from the lines of an SDP text. A failure is the text
  of the message.
\<close>

record RtpVideoSessionDescription =
  vd_connection_address :: string
  vd_video_port :: int
  vd_payload_type :: int
  vd_clock_rate :: int

definition RtpVideoSessionDescription_new :: RtpVideoSessionDescription where
  "RtpVideoSessionDescription_new =
     \<lparr>vd_connection_address = [], vd_video_port = 0, vd_payload_type = - 1, vd_clock_rate = 0\<rparr>"

text \<open>The description so far and the three flags of the loop.\<close>

record SdpState =
  ss_description :: RtpVideoSessionDescription
  ss_have_connection_address :: bool
  ss_have_media_description :: bool
  ss_have_rtpmap :: bool

definition SdpState_new :: SdpState where
  "SdpState_new =
     \<lparr>ss_description = RtpVideoSessionDescription_new, ss_have_connection_address = False,
      ss_have_media_description = False, ss_have_rtpmap = False\<rparr>"

definition has_prefix :: "string \<Rightarrow> string \<Rightarrow> bool" where
  "has_prefix prefix s \<longleftrightarrow> take (length prefix) s = prefix"

text \<open>\<^verbatim>\<open>media_stream >> port >> transport >> payload_type\<close>.\<close>

definition read_media :: "string \<Rightarrow> (int \<times> string \<times> int) option" where
  "read_media s =
     (case extract_int s of
        None \<Rightarrow> None
      | Some (port, s) \<Rightarrow>
          (case extract_word s of
             None \<Rightarrow> None
           | Some (transport, s) \<Rightarrow>
               (case extract_int s of
                  None \<Rightarrow> None
                | Some (payload_type, _) \<Rightarrow> Some (port, transport, payload_type))))"

definition parse_connection :: "string \<Rightarrow> SdpState \<Rightarrow> SdpState" where
  "parse_connection trimmed s =
     (let address = Trim (drop 9 trimmed) in
      s\<lparr>ss_description := (ss_description s)\<lparr>vd_connection_address := address\<rparr>,
        ss_have_connection_address := (address \<noteq> [])\<rparr>)"

definition parse_media :: "string \<Rightarrow> SdpState \<Rightarrow> string + SdpState" where
  "parse_media trimmed s =
     (case read_media (drop 8 trimmed) of
        None \<Rightarrow> Inl ''invalid video media description in SDP''
      | Some (port, transport, payload_type) \<Rightarrow>
          if transport \<noteq> ''RTP/AVP'' \<or> port \<le> 0 \<or> payload_type < 0 \<or> payload_type > 127
          then Inl ''invalid video media description in SDP''
          else Inr (s\<lparr>ss_description := (ss_description s)\<lparr>vd_video_port := port, vd_payload_type := payload_type\<rparr>,
                      ss_have_media_description := True\<rparr>))"

definition accept_rtpmap :: "int \<Rightarrow> string \<Rightarrow> SdpState \<Rightarrow> string + SdpState" where
  "accept_rtpmap payload_type encoding s =
     (if \<not> has_prefix ''H264/'' encoding then Inr s
      else
        case read_int (drop 5 encoding) of
          None \<Rightarrow> Inl ''invalid H264 clock rate in SDP''
        | Some clock_rate \<Rightarrow>
            if clock_rate \<le> 0 then Inl ''invalid H264 clock rate in SDP''
            else if 0 \<le> vd_payload_type (ss_description s) \<and> payload_type \<noteq> vd_payload_type (ss_description s)
              then Inl ''SDP rtpmap payload type does not match video media description''
            else Inr (s\<lparr>ss_description := (ss_description s)\<lparr>vd_payload_type := payload_type, vd_clock_rate := clock_rate\<rparr>,
                        ss_have_rtpmap := True\<rparr>))"

definition parse_rtpmap :: "string \<Rightarrow> SdpState \<Rightarrow> string + SdpState" where
  "parse_rtpmap trimmed s =
     (if CHR '' '' \<notin> set trimmed then Inl ''invalid rtpmap line in SDP''
      else
        let not_blank = (\<lambda>ch. ch \<noteq> CHR '' '') in
        case read_int (drop 9 (takeWhile not_blank trimmed)) of
          None \<Rightarrow> Inl ''invalid payload type in SDP rtpmap''
        | Some payload_type \<Rightarrow> accept_rtpmap payload_type (tl (dropWhile not_blank trimmed)) s)"

definition parse_sdp_line :: "string \<Rightarrow> SdpState \<Rightarrow> string + SdpState" where
  "parse_sdp_line line s =
     (let trimmed = Trim line in
      if trimmed = [] then Inr s
      else if has_prefix ''c=IN IP4 '' trimmed then Inr (parse_connection trimmed s)
      else if has_prefix ''m=video '' trimmed then parse_media trimmed s
      else if has_prefix ''a=rtpmap:'' trimmed then parse_rtpmap trimmed s
      else Inr s)"

fun parse_sdp_lines :: "string list \<Rightarrow> SdpState \<Rightarrow> string + SdpState" where
  "parse_sdp_lines [] s = Inr s"
| "parse_sdp_lines (line # lines) s =
     (case parse_sdp_line line s of Inl message \<Rightarrow> Inl message | Inr s \<Rightarrow> parse_sdp_lines lines s)"

definition ParseRtpVideoSessionDescription :: "string \<Rightarrow> string + RtpVideoSessionDescription" where
  "ParseRtpVideoSessionDescription contents =
     (case parse_sdp_lines (getlines contents) SdpState_new of
        Inl message \<Rightarrow> Inl message
      | Inr s \<Rightarrow>
          if \<not> ss_have_connection_address s then Inl ''SDP is missing connection address''
          else if \<not> ss_have_media_description s then Inl ''SDP is missing video media description''
          else if \<not> ss_have_rtpmap s then Inl ''SDP is missing H264 rtpmap''
          else Inr (ss_description s))"

definition LoadRtpVideoSessionDescription ::
  "(string \<Rightarrow> string option) \<Rightarrow> string \<Rightarrow> string + RtpVideoSessionDescription" where
  "LoadRtpVideoSessionDescription files file_path =
     (case files file_path of
        None \<Rightarrow> Inl (''failed to open SDP file: '' @ file_path)
      | Some contents \<Rightarrow> ParseRtpVideoSessionDescription contents)"

subsection \<open>What a description that parses guarantees\<close>

definition sdp_state_ok :: "SdpState \<Rightarrow> bool" where
  "sdp_state_ok s \<longleftrightarrow>
     (ss_have_connection_address s \<longrightarrow> vd_connection_address (ss_description s) \<noteq> []) \<and>
     (ss_have_media_description s \<longrightarrow> 0 < vd_video_port (ss_description s)) \<and>
     (ss_have_rtpmap s \<longrightarrow> 0 < vd_clock_rate (ss_description s))"

lemma sdp_state_ok_new: "sdp_state_ok SdpState_new"
  by (simp add: sdp_state_ok_def SdpState_new_def)

lemma parse_sdp_line_ok:
  assumes "sdp_state_ok s" "parse_sdp_line line s = Inr s'"
  shows "sdp_state_ok s'"
  using assms
  by (auto simp: parse_sdp_line_def Let_def parse_connection_def parse_media_def parse_rtpmap_def accept_rtpmap_def
      sdp_state_ok_def split: if_splits option.splits)

lemma parse_sdp_lines_ok: "sdp_state_ok s \<Longrightarrow> parse_sdp_lines lines s = Inr s' \<Longrightarrow> sdp_state_ok s'"
  by (induction lines arbitrary: s) (auto split: sum.splits dest: parse_sdp_line_ok)

lemma parsed_description_ok:
  assumes "ParseRtpVideoSessionDescription contents = Inr d"
  shows "vd_connection_address d \<noteq> [] \<and> 0 < vd_video_port d \<and> 0 < vd_clock_rate d"
proof -
  obtain s where "parse_sdp_lines (getlines contents) SdpState_new = Inr s" "d = ss_description s"
    "ss_have_connection_address s" "ss_have_media_description s" "ss_have_rtpmap s"
    using assms by (auto simp: ParseRtpVideoSessionDescription_def split: sum.splits if_splits)
  then show ?thesis using parse_sdp_lines_ok [OF sdp_state_ok_new] unfolding sdp_state_ok_def by blast
qed

end
