(* ===== verification/Client_Options.thy ===== *)
theory Client_Options
  imports Stream_Client Session_Description
begin

section \<open>The command line of the client\<close>

text \<open>
  \<^verbatim>\<open>sclient/src/app/cli/CliOptions.cpp\<close> and the part of \<^verbatim>\<open>sclient/src/app/main.cpp\<close>
  that turns the command line and the session description into the configuration of the client. A
  chain of \<^verbatim>\<open>strcmp\<close> is a table of options searched in the order of the chain. All options
  but \<^verbatim>\<open>--help\<close> take one value: the next argument. \<^verbatim>\<open>strtod\<close> is an argument of the
  model: the value it reads, the rest of the text and whether it sets \<^verbatim>\<open>errno\<close>.
\<close>

datatype DecodeBackend = kAuto_decode | kSoftware

datatype RenderBackend = kAuto_render | kOpenGl

subsection \<open>Reading values\<close>

type_synonym strtod_fun = "string \<Rightarrow> real \<times> string \<times> bool"

definition ParseDouble :: "strtod_fun \<Rightarrow> string \<Rightarrow> real option" where
  "ParseDouble strtod value =
     (if value = [] then None
      else case strtod value of (parsed, end_of, range_error) \<Rightarrow>
             if range_error \<or> end_of = value \<or> end_of \<noteq> [] then None else Some parsed)"

text \<open>\<^verbatim>\<open>static_cast<int>\<close> of a \<^verbatim>\<open>long\<close>.\<close>

definition long_to_int :: "int \<Rightarrow> int" where
  "long_to_int i = (i + 2 ^ 31) mod 2 ^ 32 - 2 ^ 31"

definition strtol :: "string \<Rightarrow> (int \<times> string) option" where
  "strtol s =
     (case extract_digits s of
        None \<Rightarrow> None
      | Some (negative, n, rest) \<Rightarrow>
          let i = (if negative then - int n else int n) in
          if - (2 ^ 63) \<le> i \<and> i < 2 ^ 63 then Some (i, rest) else None)"

definition ParseInt_cli :: "string \<Rightarrow> int option" where
  "ParseInt_cli value = (if value = [] then None else map_option long_to_int (whole (strtol value)))"

definition ParseBoolFlag :: "string \<Rightarrow> bool option" where
  "ParseBoolFlag value =
     (if value = ''on'' \<or> value = ''true'' \<or> value = ''1'' then Some True
      else if value = ''off'' \<or> value = ''false'' \<or> value = ''0'' then Some False
      else None)"

definition ParseDecodeBackend :: "string \<Rightarrow> DecodeBackend option" where
  "ParseDecodeBackend value =
     (if value = ''auto'' then Some kAuto_decode else if value = ''software'' then Some kSoftware else None)"

definition ParseRenderBackend :: "string \<Rightarrow> RenderBackend option" where
  "ParseRenderBackend value =
     (if value = ''auto'' then Some kAuto_render else if value = ''opengl'' then Some kOpenGl else None)"

subsection \<open>Results of parsing\<close>

record CliParseResult =
  cr_handled :: bool
  cr_success :: bool
  cr_show_help :: bool
  cr_error_message :: string

definition CliParseResult_new :: CliParseResult where
  "CliParseResult_new = \<lparr>cr_handled = False, cr_success = True, cr_show_help = False, cr_error_message = []\<rparr>"

definition BuildInvalidValueResult :: "string \<Rightarrow> CliParseResult" where
  "BuildInvalidValueResult option_name =
     CliParseResult_new\<lparr>cr_handled := True, cr_success := False, cr_error_message := ''invalid value for '' @ option_name\<rparr>"

definition BuildMissingValueResult :: "string \<Rightarrow> CliParseResult" where
  "BuildMissingValueResult option_name =
     CliParseResult_new\<lparr>cr_handled := True, cr_success := False, cr_error_message := ''missing value for '' @ option_name\<rparr>"

definition BuildHandledSuccess :: CliParseResult where
  "BuildHandledSuccess = CliParseResult_new\<lparr>cr_handled := True\<rparr>"

definition BuildHelpResult :: CliParseResult where
  "BuildHelpResult = CliParseResult_new\<lparr>cr_handled := True, cr_show_help := True\<rparr>"

subsection \<open>Options\<close>

text \<open>The variables the options write: those all programs share, and those of the client and of the
  benchmark.\<close>

record StreamOptions =
  so_config :: ClientConfig
  so_decode_backend :: DecodeBackend

record ClientOptions = StreamOptions +
  co_render_backend :: RenderBackend
  co_renderer_vsync_enabled :: bool
  co_window_title :: string
  co_receive_queue_capacity :: nat
  co_decode_queue_capacity :: nat

record BenchmarkOptions = StreamOptions +
  bo_frames_to_measure :: int
  bo_decode_frames :: bool

text \<open>What an option does with its value: whether the value is accepted, and the changed variables.\<close>

type_synonym 's cli_action = "string \<Rightarrow> 's \<Rightarrow> bool \<times> 's"

definition store :: "(string \<Rightarrow> 's \<Rightarrow> 's) \<Rightarrow> 's cli_action" where
  "store field value s = (True, field value s)"

definition store_choice :: "string list \<Rightarrow> (string \<Rightarrow> 's \<Rightarrow> 's) \<Rightarrow> 's cli_action" where
  "store_choice choices field value s = (value \<in> set choices, field value s)"

definition store_parsed :: "(string \<Rightarrow> 'v option) \<Rightarrow> ('v \<Rightarrow> 's \<Rightarrow> 's) \<Rightarrow> 's cli_action" where
  "store_parsed parse field value s =
     (case parse value of None \<Rightarrow> (False, s) | Some v \<Rightarrow> (True, field v s))"

definition store_positive :: "(string \<Rightarrow> real option) \<Rightarrow> (real \<Rightarrow> 's \<Rightarrow> 's) \<Rightarrow> 's cli_action" where
  "store_positive parse field value s =
     (case parse value of None \<Rightarrow> (False, s) | Some v \<Rightarrow> (0 < v, field v s))"

definition store_capacity :: "(nat \<Rightarrow> 's \<Rightarrow> 's) \<Rightarrow> 's cli_action" where
  "store_capacity field value s =
     (case ParseInt_cli value of None \<Rightarrow> (False, s) | Some v \<Rightarrow> if v < 1 then (False, s) else (True, field (nat v) s))"

text \<open>One option with the arguments after it: the result, and the arguments that are left.\<close>

definition run_option :: "string \<Rightarrow> 's cli_action \<Rightarrow> string list \<Rightarrow> 's \<Rightarrow> CliParseResult \<times> string list \<times> 's" where
  "run_option name action following s =
     (case following of
        [] \<Rightarrow> (BuildMissingValueResult name, [], s)
      | value # rest \<Rightarrow>
          (case action value s of
             (True, s) \<Rightarrow> (BuildHandledSuccess, rest, s)
           | (False, s) \<Rightarrow> (BuildInvalidValueResult name, rest, s)))"

definition set_config :: "(ClientConfig \<Rightarrow> ClientConfig) \<Rightarrow> 'a StreamOptions_scheme \<Rightarrow> 'a StreamOptions_scheme" where
  "set_config f s = s\<lparr>so_config := f (so_config s)\<rparr>"

definition playout_options :: "strtod_fun \<Rightarrow> (string \<times> 'a StreamOptions_scheme cli_action) list" where
  "playout_options strtod =
    [(''--host'', store (\<lambda>v. set_config (\<lambda>c. c\<lparr>cc_host := v\<rparr>))),
     (''--port'', store_parsed ParseInt_cli (\<lambda>v. set_config (\<lambda>c. c\<lparr>cc_port := v\<rparr>))),
     (''--sdp'', store (\<lambda>v. set_config (\<lambda>c. c\<lparr>cc_sdp_path := v\<rparr>))),
     (''--metadata'', store_parsed ParseBoolFlag (\<lambda>v. set_config (\<lambda>c. c\<lparr>cc_expect_metadata := v\<rparr>))),
     (''--udp-jitter-buffer'',
      store_parsed ParseBoolFlag (\<lambda>v. set_config (\<lambda>c. c\<lparr>cc_udp_jitter_buffer_enabled := v\<rparr>))),
     (''--udp-jitter-buffer-strategy'',
      store_choice [''fixed'', ''adaptive'', ''auto'', ''off'', ''low'', ''smooth'']
        (\<lambda>v. set_config (\<lambda>c. c\<lparr>cc_udp_jitter_buffer_strategy := v\<rparr>))),
     (''--udp-jitter-buffer-target-ms'',
      store_parsed ParseInt_cli (\<lambda>v. set_config (\<lambda>c. c\<lparr>cc_udp_jitter_buffer_target_delay_ms := v\<rparr>))),
     (''--udp-jitter-buffer-adaptive-max-ms'',
      store_parsed ParseInt_cli (\<lambda>v. set_config (\<lambda>c. c\<lparr>cc_udp_jitter_buffer_adaptive_max_delay_ms := v\<rparr>))),
     (''--udp-jitter-buffer-min-ms'',
      store_parsed ParseInt_cli (\<lambda>v. set_config (\<lambda>c. c\<lparr>cc_udp_jitter_buffer_min_delay_ms := v\<rparr>))),
     (''--udp-jitter-buffer-safety'',
      store_positive (ParseDouble strtod) (\<lambda>v. set_config (\<lambda>c. c\<lparr>cc_udp_jitter_buffer_safety_factor := v\<rparr>))),
     (''--udp-jitter-buffer-max-wait-ms'',
      store_parsed ParseInt_cli (\<lambda>v. set_config (\<lambda>c. c\<lparr>cc_udp_jitter_buffer_max_wait_ms := v\<rparr>))),
     (''--udp-jitter-buffer-max-frames'',
      store_parsed ParseInt_cli (\<lambda>v. set_config (\<lambda>c. c\<lparr>cc_udp_jitter_buffer_max_frames := nat (max 1 v)\<rparr>)))]"

definition repair_options :: "(string \<times> 'a StreamOptions_scheme cli_action) list" where
  "repair_options =
    [(''--udp-nack'', store_parsed ParseBoolFlag (\<lambda>v. set_config (\<lambda>c. c\<lparr>cc_udp_nack_enabled := v\<rparr>))),
     (''--udp-fec'', store_parsed ParseBoolFlag (\<lambda>v. set_config (\<lambda>c. c\<lparr>cc_udp_fec_enabled := v\<rparr>))),
     (''--udp-nack-delay-ms'',
      store_parsed ParseInt_cli (\<lambda>v. set_config (\<lambda>c. c\<lparr>cc_udp_nack_request_delay_ms := v\<rparr>))),
     (''--udp-nack-retry-ms'',
      store_parsed ParseInt_cli (\<lambda>v. set_config (\<lambda>c. c\<lparr>cc_udp_nack_retry_interval_ms := v\<rparr>))),
     (''--udp-nack-max-retries'',
      store_parsed ParseInt_cli (\<lambda>v. set_config (\<lambda>c. c\<lparr>cc_udp_nack_max_retries := v\<rparr>))),
     (''--inject-loss-pattern'',
      store_choice [''none'', ''single'', ''burst'', ''alternate'']
        (\<lambda>v. set_config (\<lambda>c. c\<lparr>cc_udp_test_loss_pattern := v\<rparr>))),
     (''--inject-loss-period'',
      store_parsed ParseInt_cli (\<lambda>v. set_config (\<lambda>c. c\<lparr>cc_udp_test_loss_period := max 1 v\<rparr>))),
     (''--inject-loss-count'',
      store_parsed ParseInt_cli (\<lambda>v. set_config (\<lambda>c. c\<lparr>cc_udp_test_loss_count := max 1 v\<rparr>))),
     (''--decoder'', store_parsed ParseDecodeBackend (\<lambda>v s. s\<lparr>so_decode_backend := v\<rparr>))]"

definition shared_options :: "strtod_fun \<Rightarrow> (string \<times> 'a StreamOptions_scheme cli_action) list" where
  "shared_options strtod = playout_options strtod @ repair_options"

definition ParseSharedStreamOption ::
  "strtod_fun \<Rightarrow> string \<Rightarrow> string list \<Rightarrow> 'a StreamOptions_scheme \<Rightarrow>
   CliParseResult \<times> string list \<times> 'a StreamOptions_scheme" where
  "ParseSharedStreamOption strtod name following s =
     (case map_of (shared_options strtod) name of
        Some action \<Rightarrow> run_option name action following s
      | None \<Rightarrow>
          if name = ''--help'' then (BuildHelpResult, following, s) else (CliParseResult_new, following, s))"

definition client_options :: "(string \<times> ClientOptions cli_action) list" where
  "client_options =
    [(''--transport'', store (\<lambda>v. set_config (\<lambda>c. c\<lparr>cc_transport := v\<rparr>))),
     (''--renderer'', store_parsed ParseRenderBackend (\<lambda>v s. s\<lparr>co_render_backend := v\<rparr>)),
     (''--vsync'', store_parsed ParseBoolFlag (\<lambda>v s. s\<lparr>co_renderer_vsync_enabled := v\<rparr>)),
     (''--window-title'', store (\<lambda>v s. s\<lparr>co_window_title := v\<rparr>)),
     (''--receive-queue'', store_capacity (\<lambda>v s. s\<lparr>co_receive_queue_capacity := v\<rparr>)),
     (''--decode-queue'', store_capacity (\<lambda>v s. s\<lparr>co_decode_queue_capacity := v\<rparr>))]"

definition ParseClientOption ::
  "strtod_fun \<Rightarrow> string \<Rightarrow> string list \<Rightarrow> ClientOptions \<Rightarrow> CliParseResult \<times> string list \<times> ClientOptions" where
  "ParseClientOption strtod name following s =
     (case ParseSharedStreamOption strtod name following s of
        (result, rest, s) \<Rightarrow>
          if cr_handled result then (result, rest, s)
          else
            case map_of client_options name of
              Some action \<Rightarrow> run_option name action following s
            | None \<Rightarrow> (CliParseResult_new, following, s))"

definition benchmark_options :: "(string \<times> BenchmarkOptions cli_action) list" where
  "benchmark_options =
    [(''--frames'', store_parsed ParseInt_cli (\<lambda>v s. s\<lparr>bo_frames_to_measure := max 1 v\<rparr>)),
     (''--decode'', store_parsed ParseBoolFlag (\<lambda>v s. s\<lparr>bo_decode_frames := v\<rparr>)),
     (''--inject-jitter-pattern'',
      store_choice [''none'', ''saw'', ''burst'', ''alternate'']
        (\<lambda>v. set_config (\<lambda>c. c\<lparr>cc_udp_test_jitter_pattern := v\<rparr>))),
     (''--inject-jitter-amplitude-ms'',
      store_parsed ParseInt_cli (\<lambda>v. set_config (\<lambda>c. c\<lparr>cc_udp_test_jitter_amplitude_ms := v\<rparr>))),
     (''--inject-jitter-period'',
      store_parsed ParseInt_cli (\<lambda>v. set_config (\<lambda>c. c\<lparr>cc_udp_test_jitter_period := max 2 v\<rparr>)))]"

definition ParseUdpBenchmarkOption ::
  "strtod_fun \<Rightarrow> string \<Rightarrow> string list \<Rightarrow> BenchmarkOptions \<Rightarrow> CliParseResult \<times> string list \<times> BenchmarkOptions" where
  "ParseUdpBenchmarkOption strtod name following s =
     (case ParseSharedStreamOption strtod name following s of
        (result, rest, s) \<Rightarrow>
          if cr_handled result then (result, rest, s)
          else
            case map_of benchmark_options name of
              Some action \<Rightarrow> run_option name action following s
            | None \<Rightarrow> (CliParseResult_new, following, s))"

subsection \<open>The configuration of a client\<close>

definition ClientOptions_default :: ClientOptions where
  "ClientOptions_default =
     \<lparr>so_config = ClientConfig_default, so_decode_backend = kAuto_decode, co_render_backend = kAuto_render,
      co_renderer_vsync_enabled = False, co_window_title = ''sclient'', co_receive_queue_capacity = 8,
      co_decode_queue_capacity = 3\<rparr>"

text \<open>\<open>ExitWith\<close> is the end of the program with that status.\<close>

datatype startup = ExitWith int | Configured ClientOptions

lemma run_option_length: "run_option name action following s = (r, rest, s') \<Longrightarrow> length rest \<le> length following"
  by (auto simp: run_option_def split: list.splits prod.splits bool.splits)

lemma ParseSharedStreamOption_length:
  "ParseSharedStreamOption strtod name following s = (r, rest, s') \<Longrightarrow> length rest \<le> length following"
  by (auto simp: ParseSharedStreamOption_def split: option.splits if_splits dest: run_option_length)

lemma ParseClientOption_length:
  "ParseClientOption strtod name following s = (r, rest, s') \<Longrightarrow> length rest \<le> length following"
  by (auto simp: ParseClientOption_def split: option.splits if_splits prod.splits
      dest: run_option_length ParseSharedStreamOption_length)

function parse_arguments :: "strtod_fun \<Rightarrow> string list \<Rightarrow> ClientOptions \<Rightarrow> startup" where
  "parse_arguments strtod [] s = Configured s"
| "parse_arguments strtod (name # following) s =
     (case ParseClientOption strtod name following s of
        (result, rest, s) \<Rightarrow>
          if cr_show_help result then ExitWith 0
          else if \<not> cr_success result then ExitWith 1
          else if \<not> cr_handled result then ExitWith 1
          else parse_arguments strtod rest s)"
  by pat_completeness auto
termination
  by (relation "measure (\<lambda>(_, args, _). length args)")
    (auto dest!: sym [of "(_, _, _)"] ParseClientOption_length)

definition apply_session_description :: "(string \<Rightarrow> string option) \<Rightarrow> ClientConfig \<Rightarrow> string + ClientConfig" where
  "apply_session_description files config =
     (if cc_sdp_path config = [] then Inr config
      else
        case LoadRtpVideoSessionDescription files (cc_sdp_path config) of
          Inl message \<Rightarrow> Inl (''failed to load RTP SDP: '' @ message)
        | Inr d \<Rightarrow>
            Inr (config\<lparr>cc_transport := ''rtp'', cc_host := vd_connection_address d, cc_port := vd_video_port d,
                        cc_rtp_payload_type := vd_payload_type d, cc_rtp_clock_rate := vd_clock_rate d\<rparr>))"

definition configure_client :: "strtod_fun \<Rightarrow> (string \<Rightarrow> string option) \<Rightarrow> string list \<Rightarrow> startup" where
  "configure_client strtod files args =
     (case parse_arguments strtod args ClientOptions_default of
        ExitWith status \<Rightarrow> ExitWith status
      | Configured s \<Rightarrow>
          if cc_transport (so_config s) \<noteq> ''tcp'' \<and> cc_transport (so_config s) \<noteq> ''udp''
             \<and> cc_transport (so_config s) \<noteq> ''rtp''
          then ExitWith 1
          else
            case apply_session_description files (so_config s) of
              Inl message \<Rightarrow> ExitWith 1
            | Inr config \<Rightarrow> Configured (s\<lparr>so_config := config\<rparr>))"

subsection \<open>What a command line that is accepted gives\<close>

definition int_range :: "int \<Rightarrow> bool" where "int_range i \<longleftrightarrow> - (2 ^ 31) \<le> i \<and> i < 2 ^ 31"

definition config_ok :: "ClientConfig \<Rightarrow> bool" where
  "config_ok c \<longleftrightarrow>
     cc_udp_jitter_buffer_strategy c \<in> set [''fixed'', ''adaptive'', ''auto'', ''off'', ''low'', ''smooth''] \<and>
     cc_udp_test_loss_pattern c \<in> set [''none'', ''single'', ''burst'', ''alternate''] \<and>
     1 \<le> cc_udp_jitter_buffer_max_frames c \<and> 0 < cc_udp_jitter_buffer_safety_factor c \<and>
     1 \<le> cc_udp_test_loss_period c \<and> 1 \<le> cc_udp_test_loss_count c \<and>
     list_all int_range
       [cc_udp_jitter_buffer_target_delay_ms c, cc_udp_jitter_buffer_adaptive_max_delay_ms c,
        cc_udp_jitter_buffer_min_delay_ms c, cc_udp_jitter_buffer_max_wait_ms c, cc_udp_nack_request_delay_ms c,
        cc_udp_nack_retry_interval_ms c, cc_udp_nack_max_retries c]"

definition options_ok :: "ClientOptions \<Rightarrow> bool" where
  "options_ok s \<longleftrightarrow> config_ok (so_config s) \<and> 1 \<le> co_receive_queue_capacity s \<and> 1 \<le> co_decode_queue_capacity s"

lemma long_to_int_range: "int_range (long_to_int i)"
  by (simp add: int_range_def long_to_int_def)

lemma ParseInt_cli_range: "ParseInt_cli v = Some i \<Longrightarrow> int_range i"
  by (auto simp: ParseInt_cli_def long_to_int_range split: if_splits)

text \<open>An option that, when it accepts its value, keeps the variables well formed.\<close>

definition keeps_ok :: "ClientOptions cli_action \<Rightarrow> bool" where
  "keeps_ok action \<longleftrightarrow> (\<forall>v s s'. options_ok s \<longrightarrow> action v s = (True, s') \<longrightarrow> options_ok s')"

lemma set_config_simps [simp]:
  "so_config (set_config f s) = f (so_config s)"
  "co_receive_queue_capacity (set_config f s) = co_receive_queue_capacity s"
  "co_decode_queue_capacity (set_config f s) = co_decode_queue_capacity s"
  by (simp_all add: set_config_def)

lemma keeps_ok_store: "(\<And>v s. options_ok s \<Longrightarrow> options_ok (field v s)) \<Longrightarrow> keeps_ok (store field)"
  by (auto simp: keeps_ok_def store_def)

lemma keeps_ok_store_choice:
  "(\<And>v s. options_ok s \<Longrightarrow> v \<in> set choices \<Longrightarrow> options_ok (field v s)) \<Longrightarrow> keeps_ok (store_choice choices field)"
  by (auto simp: keeps_ok_def store_choice_def)

lemma keeps_ok_store_parsed:
  "(\<And>v x s. options_ok s \<Longrightarrow> parse v = Some x \<Longrightarrow> options_ok (field x s)) \<Longrightarrow> keeps_ok (store_parsed parse field)"
  by (auto simp: keeps_ok_def store_parsed_def split: option.splits)

lemma keeps_ok_store_positive:
  "(\<And>x s. options_ok s \<Longrightarrow> 0 < x \<Longrightarrow> options_ok (field x s)) \<Longrightarrow> keeps_ok (store_positive parse field)"
  by (auto simp: keeps_ok_def store_positive_def split: option.splits)

lemma keeps_ok_store_capacity:
  "(\<And>x s. options_ok s \<Longrightarrow> 1 \<le> x \<Longrightarrow> options_ok (field x s)) \<Longrightarrow> keeps_ok (store_capacity field)"
  by (auto simp: keeps_ok_def store_capacity_def split: option.splits if_splits)

lemmas keeps_ok_intros =
  keeps_ok_store keeps_ok_store_choice keeps_ok_store_parsed keeps_ok_store_positive keeps_ok_store_capacity

lemma shared_options_ok: "list_all (\<lambda>(k, action). keeps_ok action) (shared_options strtod)"
  unfolding shared_options_def playout_options_def repair_options_def append.simps list.pred_inject prod.case
  by (intro conjI TrueI keeps_ok_intros) (simp_all add: options_ok_def config_ok_def ParseInt_cli_range)

lemma client_options_ok: "list_all (\<lambda>(k, action). keeps_ok action) client_options"
  unfolding client_options_def list.pred_inject prod.case
  by (intro conjI TrueI keeps_ok_intros) (simp_all add: options_ok_def config_ok_def)

lemma run_option_ok:
  assumes "keeps_ok action" "run_option name action following s = (r, rest, s')" "options_ok s" "cr_success r"
  shows "options_ok s'"
  using assms
  by (auto simp: run_option_def keeps_ok_def BuildInvalidValueResult_def BuildMissingValueResult_def
      CliParseResult_new_def split: list.splits prod.splits bool.splits)

lemma run_option_handled: "run_option name action following s = (r, rest, s') \<Longrightarrow> cr_handled r"
  by (auto simp: run_option_def BuildInvalidValueResult_def BuildMissingValueResult_def BuildHandledSuccess_def
      split: list.splits prod.splits bool.splits)

lemma table_ok:
  "list_all (\<lambda>(k, action). keeps_ok action) table \<Longrightarrow> map_of table name = Some action \<Longrightarrow> keeps_ok action"
  by (auto simp: list_all_iff dest: map_of_SomeD)

lemma ParseClientOption_ok:
  assumes "ParseClientOption strtod name following s = (r, rest, s')" "options_ok s" "cr_success r"
  shows "options_ok s'"
proof (cases "map_of (shared_options strtod :: (string \<times> ClientOptions cli_action) list) name")
  case (Some action)
  then have "run_option name action following s = (r, rest, s')"
    using assms(1)
    by (cases "run_option name action following s")
      (simp add: ParseClientOption_def ParseSharedStreamOption_def run_option_handled)
  then show ?thesis using run_option_ok [OF table_ok [OF shared_options_ok Some]] assms(2,3) by blast
next
  case None
  then show ?thesis
    using assms run_option_ok [OF table_ok [OF client_options_ok]]
    by (auto simp: ParseClientOption_def ParseSharedStreamOption_def BuildHelpResult_def CliParseResult_new_def
        split: if_splits option.splits)
qed

lemma parse_arguments_ok:
  "options_ok s \<Longrightarrow> parse_arguments strtod args s = Configured s' \<Longrightarrow> options_ok s'"
  by (induction strtod args s rule: parse_arguments.induct)
    (auto split: prod.splits if_splits dest: ParseClientOption_ok)

lemma ClientOptions_default_ok: "options_ok ClientOptions_default"
  by (simp add: options_ok_def config_ok_def ClientOptions_default_def ClientConfig_default_def int_range_def)

text \<open>whatever the command line, a client that goes on to connect has a known transport, playout
  strategy and loss pattern, queues and a playout buffer of at least one frame, a positive safety
  factor, a loss period and count of at least one, and times that fit in an \<^verbatim>\<open>int\<close>; and if it
  loaded a session description, it uses RTP with a positive port and clock rate.\<close>

theorem configure_client_ok:
  assumes "configure_client strtod files args = Configured s"
  shows "options_ok s \<and> cc_transport (so_config s) \<in> {''tcp'', ''udp'', ''rtp''} \<and>
    (cc_sdp_path (so_config s) = [] \<or>
     cc_transport (so_config s) = ''rtp'' \<and> 0 < cc_port (so_config s) \<and> 0 < cc_rtp_clock_rate (so_config s))"
proof -
  obtain t config where p: "parse_arguments strtod args ClientOptions_default = Configured t"
    and c: "apply_session_description files (so_config t) = Inr config" and s: "s = t\<lparr>so_config := config\<rparr>"
    and tr: "cc_transport (so_config t) \<in> {''tcp'', ''udp'', ''rtp''}"
    using assms by (auto simp: configure_client_def split: startup.splits if_splits sum.splits)
  have t: "options_ok t" using parse_arguments_ok [OF ClientOptions_default_ok p] .
  show ?thesis
  proof (cases "cc_sdp_path (so_config t) = []")
    case True
    then show ?thesis using c s t tr by (auto simp: apply_session_description_def)
  next
    case False
    then obtain d where d: "LoadRtpVideoSessionDescription files (cc_sdp_path (so_config t)) = Inr d"
      and cfg: "config = (so_config t)\<lparr>cc_transport := ''rtp'', cc_host := vd_connection_address d,
          cc_port := vd_video_port d, cc_rtp_payload_type := vd_payload_type d, cc_rtp_clock_rate := vd_clock_rate d\<rparr>"
      using c by (auto simp: apply_session_description_def split: sum.splits)
    have "0 < vd_video_port d \<and> 0 < vd_clock_rate d"
      using d parsed_description_ok by (auto simp: LoadRtpVideoSessionDescription_def split: option.splits)
    then show ?thesis using t cfg s by (simp add: options_ok_def config_ok_def)
  qed
qed

text \<open>A port that does not fit in an \<^verbatim>\<open>int\<close> is accepted, and cut to its low 32 bits.\<close>

definition example_arguments :: "string list" where
  "example_arguments = [''--transport'', ''udp'', ''--port'', ''4294977295'', ''--udp-nack'', ''off'']"

definition example_options :: ClientOptions where
  "example_options = set_config (\<lambda>c. c\<lparr>cc_transport := ''udp'', cc_port := 9999, cc_udp_nack_enabled := False\<rparr>)
     ClientOptions_default"

lemma ParseInt_cli_truncates: "ParseInt_cli ''4294977295'' = Some 9999"
  by code_simp

lemma example_configured:
  "configure_client (\<lambda>_. (1, [], False)) (\<lambda>_. None) example_arguments = Configured example_options"
  by (simp add: configure_client_def example_arguments_def ParseClientOption_def ParseSharedStreamOption_def
      shared_options_def playout_options_def repair_options_def client_options_def run_option_def store_def store_parsed_def ParseInt_cli_truncates
      CliParseResult_new_def BuildHandledSuccess_def ParseBoolFlag_def)
    (simp add: apply_session_description_def example_options_def set_config_def ClientOptions_default_def
      ClientConfig_default_def)

theorem configure_client_ok_witness:
  "options_ok example_options \<and> cc_port (so_config example_options) = 9999 \<and>
   configure_client (\<lambda>_. (1, [], False)) (\<lambda>_. None) example_arguments = Configured example_options"
  using configure_client_ok [OF example_configured] example_configured
  by (simp add: example_options_def)

end
