(* ===== verification/Config_Loader.thy ===== *)
theory Config_Loader
  imports Server_Config Text_Format Rtp_Protocol
begin

section \<open>Loading and checking the configuration of the server\<close>

text \<open>
  \<^verbatim>\<open>sserver/src/config/AppConfig.cpp\<close>: \<^verbatim>\<open>AppConfig::Validate\<close> with the
  backend selections it calls (\<^verbatim>\<open>Capture.h\<close>, \<^verbatim>\<open>Transport.h\<close>,
  \<^verbatim>\<open>VideoEncoder.h\<close>), and \<^verbatim>\<open>ConfigLoader::LoadFromFile\<close>. A check that
  fails is the text of the error message, \<open>None\<close> a check that passed; a load gives the message or
  the configuration. The \<^verbatim>\<open>else if\<close> chain over the keys is a table searched in the order of
  the chain, one entry for each branch.
\<close>

subsection \<open>The backends a configuration selects\<close>

datatype CaptureBackend = kAuto_capture | kNull | kV4L2

datatype TransportBackend = kAuto_transport | kTcp | kUdp | kRtp

datatype EncodeBackend = kAuto_encode | kX264

text \<open>A text in single quotes, for the messages that end in one.\<close>

definition quoted :: "string \<Rightarrow> string" where
  "quoted s = CHR 0x27 # s @ [CHR 0x27]"

definition ResolveCaptureBackendSelection :: "CaptureConfig \<Rightarrow> string + CaptureBackend \<times> string" where
  "ResolveCaptureBackendSelection config =
     (if cp_source config = ''null'' then Inr (kNull, ''null'')
      else if cp_source config = ''v4l2'' then Inr (kV4L2, ''v4l2'')
      else Inl (''capture.source must be either '' @ quoted ''v4l2'' @ '' or '' @ quoted ''null''))"

definition ResolveTransportBackendSelection :: "TransportConfig \<Rightarrow> string + TransportBackend \<times> string" where
  "ResolveTransportBackendSelection config =
     (if tc_backend config = ''tcp'' then Inr (kTcp, ''tcp'')
      else if tc_backend config = ''udp'' then Inr (kUdp, ''udp'')
      else if tc_backend config = ''rtp'' then Inr (kRtp, ''rtp'')
      else Inl (''transport.backend must be one of '' @ quoted ''tcp'' @ '', '' @ quoted ''udp'' @ '' or '' @ quoted ''rtp''))"

definition ResolveVideoEncoderBackendSelection :: "CodecConfig \<Rightarrow> string + EncodeBackend \<times> string" where
  "ResolveVideoEncoderBackendSelection config =
     (if cd_backend config = [] then Inl ''codec.backend must not be empty''
      else if cd_backend config = ''x264'' then Inr (kX264, ''x264'')
      else if cd_backend config = ''libx264''
        then Inl ''codec.backend=libx264 is no longer supported; use codec.backend=x264 for software encoding''
      else Inl (''codec.backend must be '' @ quoted ''x264''))"

subsection \<open>The checks\<close>

text \<open>Two checks in a row: the second only runs when the first passed.\<close>

definition and_then :: "string option \<Rightarrow> string option \<Rightarrow> string option" where
  "and_then first second = (case first of Some message \<Rightarrow> Some message | None \<Rightarrow> second)"

definition reject_if :: "bool \<Rightarrow> string \<Rightarrow> string option" where
  "reject_if bad message = (if bad then Some message else None)"

fun first_error :: "(bool \<times> string) list \<Rightarrow> string option" where
  "first_error [] = None"
| "first_error ((bad, message) # checks) = and_then (reject_if bad message) (first_error checks)"

definition selection_error :: "string + 'a \<Rightarrow> string option" where
  "selection_error selection = (case selection of Inl message \<Rightarrow> Some message | Inr _ \<Rightarrow> None)"

definition validate_app :: "AppConfig \<Rightarrow> string option" where
  "validate_app c = first_error
     [(ac_app_name c = [], ''app.name must not be empty''),
      (rt_shutdown_grace_period_ms (ac_runtime c) < 0, ''runtime.shutdown_grace_period_ms must be >= 0''),
      (rt_latency_log_interval_frames (ac_runtime c) \<le> 0, ''runtime.latency_log_interval_frames must be > 0'')]"

definition validate_capture :: "CaptureConfig \<Rightarrow> string option" where
  "validate_capture c =
     (if cp_enabled c then
        and_then (selection_error (ResolveCaptureBackendSelection c))
          (first_error
            [(cp_width c \<le> 0 \<or> cp_height c \<le> 0 \<or> cp_fps c \<le> 0 \<or> cp_frame_interval_ms c < 0,
              ''capture dimensions, fps and frame_interval_ms must be positive''),
             (cp_device_buffer_count c \<le> 0, ''capture.device_buffer_count must be > 0''),
             (cp_null_payload_mode c \<noteq> ''text'' \<and> cp_null_payload_mode c \<noteq> ''h264_test_pattern'',
              ''capture.null_payload_mode must be '' @ quoted ''text'' @ '' or '' @ quoted ''h264_test_pattern'')])
      else None)"

definition max_rtp_payload_size :: "TransportConfig \<Rightarrow> nat" where
  "max_rtp_payload_size c =
     (if tc_udp_max_datagram_size c > kRtpPacketOverheadWithLatencyExtension
      then tc_udp_max_datagram_size c - kRtpPacketOverheadWithLatencyExtension else 0)"

definition validate_rtp :: "TransportConfig \<Rightarrow> string option" where
  "validate_rtp c =
     (if tc_backend c = ''rtp'' then
        first_error
          [(tc_rtp_remote_port c \<le> 0 \<or> tc_rtp_remote_port c > 65535,
            ''transport.rtp_remote_port must be in [1, 65535]''),
           (tc_rtp_payload_type c < 0 \<or> tc_rtp_payload_type c > 127,
            ''transport.rtp_payload_type must be in [0, 127]''),
           (tc_rtp_clock_rate c \<le> 0, ''transport.rtp_clock_rate must be > 0''),
           (tc_rtp_ssrc c < 0, ''transport.rtp_ssrc must be >= 0''),
           (tc_rtp_max_payload_size c < 64 \<or> tc_rtp_max_payload_size c > max_rtp_payload_size c,
            ''transport.rtp_max_payload_size must be in [64, transport.udp_max_datagram_size - RTP header overhead]''),
           (tc_rtp_remote_host c = [], ''transport.rtp_remote_host must not be empty'')]
      else None)"

definition validate_queue :: "TransportConfig \<Rightarrow> string option" where
  "validate_queue c = first_error
     [(tc_listen_port c < 0 \<or> tc_listen_port c > 65535, ''transport.listen_port must be in [0, 65535]''),
      (tc_max_pending_frames c = 0, ''transport.max_pending_frames must be > 0''),
      (tc_max_queue_wait_ms c < 0, ''transport.max_queue_wait_ms must be >= 0''),
      (tc_queue_drop_policy c \<noteq> ''drop_oldest'' \<and> tc_queue_drop_policy c \<noteq> ''drop_oldest_non_key'',
       ''transport.queue_drop_policy must be '' @ quoted ''drop_oldest'' @ '' or '' @ quoted ''drop_oldest_non_key''),
      (tc_accept_loop_interval_ms c < 0, ''transport.accept_loop_interval_ms must be >= 0'')]"

definition validate_udp :: "TransportConfig \<Rightarrow> string option" where
  "validate_udp c = first_error
     [(tc_udp_client_timeout_ms c \<le> 0, ''transport.udp_client_timeout_ms must be > 0''),
      (tc_udp_max_datagram_size c < 512 \<or> tc_udp_max_datagram_size c > 65507,
       ''transport.udp_max_datagram_size must be in [512, 65507]''),
      (tc_udp_target_payload_size c < 256 \<or> tc_udp_target_payload_size c > tc_udp_max_datagram_size c,
       ''transport.udp_target_payload_size must be in [256, transport.udp_max_datagram_size]''),
      (tc_udp_receive_buffer_bytes c \<le> 0 \<or> tc_udp_send_buffer_bytes c \<le> 0,
       ''transport UDP buffer sizes must be > 0''),
      (tc_udp_retransmit_cache_frames c = 0, ''transport.udp_retransmit_cache_frames must be > 0''),
      (tc_udp_retransmit_cache_max_age_ms c \<le> 0, ''transport.udp_retransmit_cache_max_age_ms must be > 0''),
      (tc_udp_retransmit_max_fragments_per_request c = 0,
       ''transport.udp_retransmit_max_fragments_per_request must be > 0'')]"

definition validate_transport :: "TransportConfig \<Rightarrow> string option" where
  "validate_transport c =
     (if tc_enabled c then
        and_then (selection_error (ResolveTransportBackendSelection c))
          (and_then (validate_queue c) (and_then (validate_udp c) (validate_rtp c)))
      else None)"

definition validate_codec :: "CodecConfig \<Rightarrow> string option" where
  "validate_codec c =
     (case ResolveVideoEncoderBackendSelection c of
        Inl message \<Rightarrow> Some message
      | Inr (backend, _) \<Rightarrow>
          if backend = kX264 then
            first_error
              [(cd_x264_keyint_max c \<le> 0 \<or> cd_x264_keyint_min c \<le> 0 \<or> cd_x264_threads c \<le> 0
                \<or> cd_x264_slice_count c \<le> 0 \<or> cd_x264_slice_count_max c \<le> 0 \<or> cd_x264_frame_reference c \<le> 0,
                ''codec x264 integer settings must be positive''),
               (cd_x264_bframes c < 0 \<or> cd_x264_lookahead c < 0 \<or> cd_x264_sync_lookahead c < 0
                \<or> cd_x264_subpel_refine c < 0,
                ''codec x264 lookahead/bframes/subpel settings must be >= 0'')]
          else None)"

definition Validate :: "AppConfig \<Rightarrow> string option" where
  "Validate c =
     and_then (validate_app c)
       (and_then (validate_capture (ac_capture c))
         (and_then (validate_transport (ac_transport c)) (validate_codec (ac_codec c))))"

subsection \<open>Reading one setting\<close>

definition ParseBool :: "string \<Rightarrow> bool option" where
  "ParseBool value =
     (let normalized = Trim value in
      if normalized = ''true'' \<or> normalized = ''1'' \<or> normalized = ''yes'' \<or> normalized = ''on'' then Some True
      else if normalized = ''false'' \<or> normalized = ''0'' \<or> normalized = ''no'' \<or> normalized = ''off''
        then Some False
      else None)"

definition ParseInt :: "string \<Rightarrow> int option" where
  "ParseInt value = read_int (Trim value)"

definition ParseSize :: "string \<Rightarrow> nat option" where
  "ParseSize value = read_size (Trim value)"

text \<open>A branch of the chain: the value, the number of the line and the configuration so far give the
  message or the changed configuration.\<close>

type_synonym setting = "string \<Rightarrow> nat \<Rightarrow> AppConfig \<Rightarrow> string + AppConfig"

definition set_string :: "(string \<Rightarrow> AppConfig \<Rightarrow> AppConfig) \<Rightarrow> setting" where
  "set_string field value line c = Inr (field value c)"

definition invalid_at :: "string \<Rightarrow> nat \<Rightarrow> string" where
  "invalid_at what line = ''invalid '' @ what @ '' at line '' @ dec_nat line"

definition set_parsed ::
    "(string \<Rightarrow> 'v option) \<Rightarrow> string \<Rightarrow> ('v \<Rightarrow> AppConfig \<Rightarrow> AppConfig) \<Rightarrow> setting" where
  "set_parsed parse what field value line c =
     (case parse value of None \<Rightarrow> Inl (invalid_at what line) | Some v \<Rightarrow> Inr (field v c))"

definition set_int :: "string \<Rightarrow> (int \<Rightarrow> AppConfig \<Rightarrow> AppConfig) \<Rightarrow> setting" where
  "set_int = set_parsed ParseInt"

definition set_size :: "string \<Rightarrow> (nat \<Rightarrow> AppConfig \<Rightarrow> AppConfig) \<Rightarrow> setting" where
  "set_size = set_parsed ParseSize"

definition set_bool :: "string \<Rightarrow> (bool \<Rightarrow> AppConfig \<Rightarrow> AppConfig) \<Rightarrow> setting" where
  "set_bool = set_parsed ParseBool"

text \<open>The members of the configuration that are structs of their own.\<close>

definition set_runtime :: "(RuntimeConfig \<Rightarrow> RuntimeConfig) \<Rightarrow> AppConfig \<Rightarrow> AppConfig" where
  "set_runtime f c = c\<lparr>ac_runtime := f (ac_runtime c)\<rparr>"

definition set_capture :: "(CaptureConfig \<Rightarrow> CaptureConfig) \<Rightarrow> AppConfig \<Rightarrow> AppConfig" where
  "set_capture f c = c\<lparr>ac_capture := f (ac_capture c)\<rparr>"

definition set_transport :: "(TransportConfig \<Rightarrow> TransportConfig) \<Rightarrow> AppConfig \<Rightarrow> AppConfig" where
  "set_transport f c = c\<lparr>ac_transport := f (ac_transport c)\<rparr>"

definition set_codec :: "(CodecConfig \<Rightarrow> CodecConfig) \<Rightarrow> AppConfig \<Rightarrow> AppConfig" where
  "set_codec f c = c\<lparr>ac_codec := f (ac_codec c)\<rparr>"

subsection \<open>The settings, in the order of the chain\<close>

definition general_settings :: "(string \<times> setting) list" where
  "general_settings =
    [(''app.name'', set_string (\<lambda>v c. c\<lparr>ac_app_name := v\<rparr>)),
     (''runtime.shutdown_grace_period_ms'', set_int ''integer'' (\<lambda>v. set_runtime (\<lambda>g. g\<lparr>rt_shutdown_grace_period_ms := v\<rparr>))),
     (''runtime.latency_log_interval_frames'', set_int ''runtime.latency_log_interval_frames'' (\<lambda>v. set_runtime (\<lambda>g. g\<lparr>rt_latency_log_interval_frames := v\<rparr>)))]"

definition capture_settings :: "(string \<times> setting) list" where
  "capture_settings =
    [(''capture.enabled'', set_bool ''boolean'' (\<lambda>v. set_capture (\<lambda>g. g\<lparr>cp_enabled := v\<rparr>))),
     (''capture.source'', set_string (\<lambda>v. set_capture (\<lambda>g. g\<lparr>cp_source := v\<rparr>))),
     (''capture.device'', set_string (\<lambda>v. set_capture (\<lambda>g. g\<lparr>cp_device := v\<rparr>))),
     (''capture.width'', set_int ''capture.width'' (\<lambda>v. set_capture (\<lambda>g. g\<lparr>cp_width := v\<rparr>))),
     (''capture.height'', set_int ''capture.height'' (\<lambda>v. set_capture (\<lambda>g. g\<lparr>cp_height := v\<rparr>))),
     (''capture.fps'', set_int ''capture.fps'' (\<lambda>v. set_capture (\<lambda>g. g\<lparr>cp_fps := v\<rparr>))),
     (''capture.frame_interval_ms'', set_int ''capture.frame_interval_ms'' (\<lambda>v. set_capture (\<lambda>g. g\<lparr>cp_frame_interval_ms := v\<rparr>))),
     (''capture.device_buffer_count'', set_int ''capture.device_buffer_count'' (\<lambda>v. set_capture (\<lambda>g. g\<lparr>cp_device_buffer_count := v\<rparr>))),
     (''capture.null_payload_bytes'', set_size ''capture.null_payload_bytes'' (\<lambda>v. set_capture (\<lambda>g. g\<lparr>cp_null_payload_bytes := v\<rparr>))),
     (''capture.null_payload_mode'', set_string (\<lambda>v. set_capture (\<lambda>g. g\<lparr>cp_null_payload_mode := v\<rparr>)))]"

definition transport_settings :: "(string \<times> setting) list" where
  "transport_settings =
    [(''transport.enabled'', set_bool ''transport.enabled'' (\<lambda>v. set_transport (\<lambda>g. g\<lparr>tc_enabled := v\<rparr>))),
     (''transport.backend'', set_string (\<lambda>v. set_transport (\<lambda>g. g\<lparr>tc_backend := v\<rparr>))),
     (''transport.bind_address'', set_string (\<lambda>v. set_transport (\<lambda>g. g\<lparr>tc_bind_address := v\<rparr>))),
     (''transport.listen_port'', set_int ''transport.listen_port'' (\<lambda>v. set_transport (\<lambda>g. g\<lparr>tc_listen_port := v\<rparr>))),
     (''transport.max_pending_frames'', set_size ''transport.max_pending_frames'' (\<lambda>v. set_transport (\<lambda>g. g\<lparr>tc_max_pending_frames := v\<rparr>))),
     (''transport.max_queue_wait_ms'', set_int ''transport.max_queue_wait_ms'' (\<lambda>v. set_transport (\<lambda>g. g\<lparr>tc_max_queue_wait_ms := v\<rparr>))),
     (''transport.queue_drop_policy'', set_string (\<lambda>v. set_transport (\<lambda>g. g\<lparr>tc_queue_drop_policy := v\<rparr>))),
     (''transport.accept_loop_interval_ms'', set_int ''transport.accept_loop_interval_ms'' (\<lambda>v. set_transport (\<lambda>g. g\<lparr>tc_accept_loop_interval_ms := v\<rparr>))),
     (''transport.enable_nodelay'', set_bool ''transport.enable_nodelay'' (\<lambda>v. set_transport (\<lambda>g. g\<lparr>tc_enable_nodelay := v\<rparr>))),
     (''transport.embed_frame_metadata'', set_bool ''transport.embed_frame_metadata'' (\<lambda>v. set_transport (\<lambda>g. g\<lparr>tc_embed_frame_metadata := v\<rparr>))),
     (''transport.udp_client_timeout_ms'', set_int ''transport.udp_client_timeout_ms'' (\<lambda>v. set_transport (\<lambda>g. g\<lparr>tc_udp_client_timeout_ms := v\<rparr>))),
     (''transport.udp_max_datagram_size'', set_size ''transport.udp_max_datagram_size'' (\<lambda>v. set_transport (\<lambda>g. g\<lparr>tc_udp_max_datagram_size := v\<rparr>))),
     (''transport.udp_target_payload_size'', set_size ''transport.udp_target_payload_size'' (\<lambda>v. set_transport (\<lambda>g. g\<lparr>tc_udp_target_payload_size := v\<rparr>))),
     (''transport.udp_receive_buffer_bytes'', set_int ''transport.udp_receive_buffer_bytes'' (\<lambda>v. set_transport (\<lambda>g. g\<lparr>tc_udp_receive_buffer_bytes := v\<rparr>))),
     (''transport.udp_send_buffer_bytes'', set_int ''transport.udp_send_buffer_bytes'' (\<lambda>v. set_transport (\<lambda>g. g\<lparr>tc_udp_send_buffer_bytes := v\<rparr>))),
     (''transport.udp_enable_nack'', set_bool ''transport.udp_enable_nack'' (\<lambda>v. set_transport (\<lambda>g. g\<lparr>tc_udp_enable_nack := v\<rparr>))),
     (''transport.udp_enable_fec'', set_bool ''transport.udp_enable_fec'' (\<lambda>v. set_transport (\<lambda>g. g\<lparr>tc_udp_enable_fec := v\<rparr>))),
     (''transport.udp_retransmit_cache_frames'', set_size ''transport.udp_retransmit_cache_frames'' (\<lambda>v. set_transport (\<lambda>g. g\<lparr>tc_udp_retransmit_cache_frames := v\<rparr>))),
     (''transport.udp_retransmit_cache_max_age_ms'', set_int ''transport.udp_retransmit_cache_max_age_ms'' (\<lambda>v. set_transport (\<lambda>g. g\<lparr>tc_udp_retransmit_cache_max_age_ms := v\<rparr>))),
     (''transport.udp_retransmit_max_fragments_per_request'', set_size ''transport.udp_retransmit_max_fragments_per_request'' (\<lambda>v. set_transport (\<lambda>g. g\<lparr>tc_udp_retransmit_max_fragments_per_request := v\<rparr>)))]"

definition rtp_settings :: "(string \<times> setting) list" where
  "rtp_settings =
    [(''transport.rtp_remote_host'', set_string (\<lambda>v. set_transport (\<lambda>g. g\<lparr>tc_rtp_remote_host := v\<rparr>))),
     (''transport.rtp_remote_port'', set_int ''transport.rtp_remote_port'' (\<lambda>v. set_transport (\<lambda>g. g\<lparr>tc_rtp_remote_port := v\<rparr>))),
     (''transport.rtp_payload_type'', set_int ''transport.rtp_payload_type'' (\<lambda>v. set_transport (\<lambda>g. g\<lparr>tc_rtp_payload_type := v\<rparr>))),
     (''transport.rtp_clock_rate'', set_int ''transport.rtp_clock_rate'' (\<lambda>v. set_transport (\<lambda>g. g\<lparr>tc_rtp_clock_rate := v\<rparr>))),
     (''transport.rtp_ssrc'', set_int ''transport.rtp_ssrc'' (\<lambda>v. set_transport (\<lambda>g. g\<lparr>tc_rtp_ssrc := v\<rparr>))),
     (''transport.rtp_max_payload_size'', set_size ''transport.rtp_max_payload_size'' (\<lambda>v. set_transport (\<lambda>g. g\<lparr>tc_rtp_max_payload_size := v\<rparr>))),
     (''transport.rtp_enable_latency_extension'', set_bool ''transport.rtp_enable_latency_extension'' (\<lambda>v. set_transport (\<lambda>g. g\<lparr>tc_rtp_enable_latency_extension := v\<rparr>))),
     (''transport.rtp_sdp_path'', set_string (\<lambda>v. set_transport (\<lambda>g. g\<lparr>tc_rtp_sdp_path := v\<rparr>)))]"

definition codec_settings :: "(string \<times> setting) list" where
  "codec_settings =
    [(''codec.backend'', set_string (\<lambda>v. set_codec (\<lambda>g. g\<lparr>cd_backend := v\<rparr>))),
     (''codec.x264_preset'', set_string (\<lambda>v. set_codec (\<lambda>g. g\<lparr>cd_x264_preset := v\<rparr>))),
     (''codec.x264_tune'', set_string (\<lambda>v. set_codec (\<lambda>g. g\<lparr>cd_x264_tune := v\<rparr>))),
     (''codec.x264_profile'', set_string (\<lambda>v. set_codec (\<lambda>g. g\<lparr>cd_x264_profile := v\<rparr>))),
     (''codec.x264_annexb'', set_bool ''codec.x264_annexb'' (\<lambda>v. set_codec (\<lambda>g. g\<lparr>cd_x264_annexb := v\<rparr>))),
     (''codec.x264_repeat_headers'', set_bool ''codec.x264_repeat_headers'' (\<lambda>v. set_codec (\<lambda>g. g\<lparr>cd_x264_repeat_headers := v\<rparr>))),
     (''codec.x264_keyint_max'', set_int ''codec.x264_keyint_max'' (\<lambda>v. set_codec (\<lambda>g. g\<lparr>cd_x264_keyint_max := v\<rparr>))),
     (''codec.x264_keyint_min'', set_int ''codec.x264_keyint_min'' (\<lambda>v. set_codec (\<lambda>g. g\<lparr>cd_x264_keyint_min := v\<rparr>))),
     (''codec.x264_bframes'', set_int ''codec.x264_bframes'' (\<lambda>v. set_codec (\<lambda>g. g\<lparr>cd_x264_bframes := v\<rparr>))),
     (''codec.x264_threads'', set_int ''codec.x264_threads'' (\<lambda>v. set_codec (\<lambda>g. g\<lparr>cd_x264_threads := v\<rparr>))),
     (''codec.x264_sliced_threads'', set_bool ''codec.x264_sliced_threads'' (\<lambda>v. set_codec (\<lambda>g. g\<lparr>cd_x264_sliced_threads := v\<rparr>))),
     (''codec.x264_slice_count'', set_int ''codec.x264_slice_count'' (\<lambda>v. set_codec (\<lambda>g. g\<lparr>cd_x264_slice_count := v\<rparr>))),
     (''codec.x264_slice_count_max'', set_int ''codec.x264_slice_count_max'' (\<lambda>v. set_codec (\<lambda>g. g\<lparr>cd_x264_slice_count_max := v\<rparr>))),
     (''codec.x264_frame_reference'', set_int ''codec.x264_frame_reference'' (\<lambda>v. set_codec (\<lambda>g. g\<lparr>cd_x264_frame_reference := v\<rparr>))),
     (''codec.x264_lookahead'', set_int ''codec.x264_lookahead'' (\<lambda>v. set_codec (\<lambda>g. g\<lparr>cd_x264_lookahead := v\<rparr>))),
     (''codec.x264_sync_lookahead'', set_int ''codec.x264_sync_lookahead'' (\<lambda>v. set_codec (\<lambda>g. g\<lparr>cd_x264_sync_lookahead := v\<rparr>))),
     (''codec.x264_subpel_refine'', set_int ''codec.x264_subpel_refine'' (\<lambda>v. set_codec (\<lambda>g. g\<lparr>cd_x264_subpel_refine := v\<rparr>))),
     (''codec.x264_mb_tree'', set_bool ''codec.x264_mb_tree'' (\<lambda>v. set_codec (\<lambda>g. g\<lparr>cd_x264_mb_tree := v\<rparr>))),
     (''codec.x264_scenecut'', set_int ''codec.x264_scenecut'' (\<lambda>v. set_codec (\<lambda>g. g\<lparr>cd_x264_scenecut := v\<rparr>)))]"


definition all_settings :: "(string \<times> setting) list" where
  "all_settings =
     general_settings @ capture_settings @ transport_settings @ rtp_settings @ codec_settings"

definition apply_setting :: "string \<Rightarrow> setting" where
  "apply_setting key value line c =
     (case map_of all_settings key of
        None \<Rightarrow> Inl (''unsupported config key at line '' @ dec_nat line @ '': '' @ key)
      | Some s \<Rightarrow> s value line c)"

subsection \<open>Reading a file\<close>

definition load_line :: "nat \<Rightarrow> string \<Rightarrow> AppConfig \<Rightarrow> string + AppConfig" where
  "load_line line_number line loaded =
     (let trimmed = Trim line in
      if trimmed = [] \<or> hd trimmed = CHR ''#'' then Inr loaded
      else if CHR ''='' \<notin> set trimmed
        then Inl (''invalid config line '' @ dec_nat line_number @ '': missing '' @ quoted ''='')
      else apply_setting (Trim (takeWhile (\<lambda>ch. ch \<noteq> CHR ''='') trimmed))
             (Trim (tl (dropWhile (\<lambda>ch. ch \<noteq> CHR ''='') trimmed))) line_number loaded)"

fun load_lines :: "nat \<Rightarrow> string list \<Rightarrow> AppConfig \<Rightarrow> string + AppConfig" where
  "load_lines line_number [] loaded = Inr loaded"
| "load_lines line_number (line # lines) loaded =
     (case load_line line_number line loaded of
        Inl message \<Rightarrow> Inl message
      | Inr loaded' \<Rightarrow> load_lines (Suc line_number) lines loaded')"

text \<open>\<open>files\<close> is the file system: the content of a file that can be opened. The destination of the
  caller may be a null pointer.\<close>

definition LoadFromFile :: "(string \<Rightarrow> string option) \<Rightarrow> string \<Rightarrow> bool \<Rightarrow> string + AppConfig" where
  "LoadFromFile files file_path has_output =
     (if \<not> has_output then Inl ''config output pointer is null''
      else case files file_path of
             None \<Rightarrow> Inl (''failed to open config file: '' @ file_path)
           | Some content \<Rightarrow>
               (case load_lines 1 (getlines content) CreateDefault of
                  Inl message \<Rightarrow> Inl message
                | Inr loaded \<Rightarrow>
                    (case Validate loaded of Some message \<Rightarrow> Inl message | None \<Rightarrow> Inr loaded)))"

end
