(* ===== verification/Config_Loader_Correct.thy ===== *)
theory Config_Loader_Correct
  imports Config_Loader
begin

section \<open>What loading a configuration gives\<close>

text \<open>
  Every error of a line names the line; the lines before the first bad one do not matter to its message.
  A file that sets every key to the text of a configuration's field loads that configuration (each branch
  of the chain writes the field its key names and no other). A configuration that passes the checks gives
  the senders the sizes and bounds their correctness rests on.
\<close>

subsection \<open>The first bad line\<close>

lemma set_parsed_error:
  "set_parsed parse what field value line c = Inl message \<longleftrightarrow> parse value = None \<and> message = invalid_at what line"
  by (auto simp: set_parsed_def split: option.splits)

definition names_line :: "nat \<Rightarrow> string \<Rightarrow> bool" where
  "names_line line message \<longleftrightarrow> (\<exists>before after. message = before @ ''line '' @ dec_nat line @ after)"

lemma names_line_invalid_at: "names_line line (invalid_at what line)"
proof -
  have "invalid_at what line = (''invalid '' @ what @ '' at '') @ ''line '' @ dec_nat line @ []"
    by (simp add: invalid_at_def)
  then show ?thesis unfolding names_line_def by blast
qed

definition setting_ok :: "setting \<Rightarrow> bool" where
  "setting_ok s \<longleftrightarrow> (\<forall>value line c message. s value line c = Inl message \<longrightarrow> names_line line message)"

lemma setting_ok_set_string [simp]: "setting_ok (set_string field)"
  by (simp add: setting_ok_def set_string_def)

lemma setting_ok_set_parsed [simp]:
  "setting_ok (set_int what fi)" "setting_ok (set_size what fs)" "setting_ok (set_bool what fb)"
  by (auto simp: setting_ok_def set_int_def set_size_def set_bool_def set_parsed_error names_line_invalid_at)

lemma settings_ok: "list_all (\<lambda>(k, s). setting_ok s) all_settings"
  by (simp add: all_settings_def general_settings_def capture_settings_def transport_settings_def
      rtp_settings_def codec_settings_def)

lemma apply_setting_error:
  assumes "apply_setting key value line c = Inl message"
  shows "names_line line message"
proof (cases "map_of all_settings key")
  case None
  then have "message = ''unsupported config key at '' @ ''line '' @ dec_nat line @ '': '' @ key"
    using assms by (simp add: apply_setting_def)
  then show ?thesis unfolding names_line_def by blast
next
  case (Some s)
  then have "setting_ok s" using settings_ok by (auto simp: list_all_iff dest: map_of_SomeD)
  then show ?thesis using assms Some by (auto simp: apply_setting_def setting_ok_def)
qed

lemma load_line_error:
  assumes "load_line n line c = Inl message"
  shows "names_line n message"
proof (cases "CHR ''='' \<in> set (Trim line)")
  case True
  then show ?thesis using assms by (auto simp: load_line_def Let_def apply_setting_error split: if_splits)
next
  case False
  then have "message = ''invalid config '' @ ''line '' @ dec_nat n @ '': missing '' @ quoted ''=''"
    using assms by (simp add: load_line_def Let_def split: if_splits)
  then show ?thesis unfolding names_line_def by blast
qed

lemma load_lines_append:
  "load_lines n (xs @ ys) c =
     (case load_lines n xs c of Inl m \<Rightarrow> Inl m | Inr c' \<Rightarrow> load_lines (n + length xs) ys c')"
  by (induction xs arbitrary: n c) (auto split: sum.splits)

lemma load_lines_first_error:
  "load_lines n lines c = Inl message \<Longrightarrow>
     \<exists>before line after loaded.
        lines = before @ line # after \<and> load_lines n before c = Inr loaded
        \<and> load_line (n + length before) line loaded = Inl message"
proof (induction lines arbitrary: n c)
  case (Cons l lines)
  show ?case
  proof (cases "load_line n l c")
    case (Inl m)
    then have "l # lines = [] @ l # lines \<and> load_lines n [] c = Inr c \<and> load_line (n + length []) l c = Inl message"
      using Cons.prems by simp
    then show ?thesis by blast
  next
    case (Inr c')
    then obtain before line after loaded where
      "lines = before @ line # after" "load_lines (Suc n) before c' = Inr loaded"
      "load_line (Suc n + length before) line loaded = Inl message"
      using Cons by fastforce
    then have "l # lines = (l # before) @ line # after \<and> load_lines n (l # before) c = Inr loaded
        \<and> load_line (n + length (l # before)) line loaded = Inl message"
      using Inr by simp
    then show ?thesis by blast
  qed
qed simp

subsection \<open>A file with every key\<close>

definition dec_bool :: "bool \<Rightarrow> string" where
  "dec_bool b = (if b then ''true'' else ''false'')"

definition config_pairs :: "AppConfig \<Rightarrow> (string \<times> string) list" where
  "config_pairs c =
    [(''app.name'', ac_app_name c),
     (''runtime.shutdown_grace_period_ms'', dec_int (rt_shutdown_grace_period_ms (ac_runtime c))),
     (''runtime.latency_log_interval_frames'', dec_int (rt_latency_log_interval_frames (ac_runtime c))),
     (''capture.enabled'', dec_bool (cp_enabled (ac_capture c))),
     (''capture.source'', cp_source (ac_capture c)),
     (''capture.device'', cp_device (ac_capture c)),
     (''capture.width'', dec_int (cp_width (ac_capture c))),
     (''capture.height'', dec_int (cp_height (ac_capture c))),
     (''capture.fps'', dec_int (cp_fps (ac_capture c))),
     (''capture.frame_interval_ms'', dec_int (cp_frame_interval_ms (ac_capture c))),
     (''capture.device_buffer_count'', dec_int (cp_device_buffer_count (ac_capture c))),
     (''capture.null_payload_bytes'', dec_nat (cp_null_payload_bytes (ac_capture c))),
     (''capture.null_payload_mode'', cp_null_payload_mode (ac_capture c)),
     (''transport.enabled'', dec_bool (tc_enabled (ac_transport c))),
     (''transport.backend'', tc_backend (ac_transport c)),
     (''transport.bind_address'', tc_bind_address (ac_transport c)),
     (''transport.listen_port'', dec_int (tc_listen_port (ac_transport c))),
     (''transport.max_pending_frames'', dec_nat (tc_max_pending_frames (ac_transport c))),
     (''transport.max_queue_wait_ms'', dec_int (tc_max_queue_wait_ms (ac_transport c))),
     (''transport.queue_drop_policy'', tc_queue_drop_policy (ac_transport c)),
     (''transport.accept_loop_interval_ms'', dec_int (tc_accept_loop_interval_ms (ac_transport c))),
     (''transport.enable_nodelay'', dec_bool (tc_enable_nodelay (ac_transport c))),
     (''transport.embed_frame_metadata'', dec_bool (tc_embed_frame_metadata (ac_transport c))),
     (''transport.udp_client_timeout_ms'', dec_int (tc_udp_client_timeout_ms (ac_transport c))),
     (''transport.udp_max_datagram_size'', dec_nat (tc_udp_max_datagram_size (ac_transport c))),
     (''transport.udp_target_payload_size'', dec_nat (tc_udp_target_payload_size (ac_transport c))),
     (''transport.udp_receive_buffer_bytes'', dec_int (tc_udp_receive_buffer_bytes (ac_transport c))),
     (''transport.udp_send_buffer_bytes'', dec_int (tc_udp_send_buffer_bytes (ac_transport c))),
     (''transport.udp_enable_nack'', dec_bool (tc_udp_enable_nack (ac_transport c))),
     (''transport.udp_enable_fec'', dec_bool (tc_udp_enable_fec (ac_transport c))),
     (''transport.udp_retransmit_cache_frames'', dec_nat (tc_udp_retransmit_cache_frames (ac_transport c))),
     (''transport.udp_retransmit_cache_max_age_ms'', dec_int (tc_udp_retransmit_cache_max_age_ms (ac_transport c))),
     (''transport.udp_retransmit_max_fragments_per_request'', dec_nat (tc_udp_retransmit_max_fragments_per_request (ac_transport c))),
     (''transport.rtp_remote_host'', tc_rtp_remote_host (ac_transport c)),
     (''transport.rtp_remote_port'', dec_int (tc_rtp_remote_port (ac_transport c))),
     (''transport.rtp_payload_type'', dec_int (tc_rtp_payload_type (ac_transport c))),
     (''transport.rtp_clock_rate'', dec_int (tc_rtp_clock_rate (ac_transport c))),
     (''transport.rtp_ssrc'', dec_int (tc_rtp_ssrc (ac_transport c))),
     (''transport.rtp_max_payload_size'', dec_nat (tc_rtp_max_payload_size (ac_transport c))),
     (''transport.rtp_enable_latency_extension'', dec_bool (tc_rtp_enable_latency_extension (ac_transport c))),
     (''transport.rtp_sdp_path'', tc_rtp_sdp_path (ac_transport c)),
     (''codec.backend'', cd_backend (ac_codec c)),
     (''codec.x264_preset'', cd_x264_preset (ac_codec c)),
     (''codec.x264_tune'', cd_x264_tune (ac_codec c)),
     (''codec.x264_profile'', cd_x264_profile (ac_codec c)),
     (''codec.x264_annexb'', dec_bool (cd_x264_annexb (ac_codec c))),
     (''codec.x264_repeat_headers'', dec_bool (cd_x264_repeat_headers (ac_codec c))),
     (''codec.x264_keyint_max'', dec_int (cd_x264_keyint_max (ac_codec c))),
     (''codec.x264_keyint_min'', dec_int (cd_x264_keyint_min (ac_codec c))),
     (''codec.x264_bframes'', dec_int (cd_x264_bframes (ac_codec c))),
     (''codec.x264_threads'', dec_int (cd_x264_threads (ac_codec c))),
     (''codec.x264_sliced_threads'', dec_bool (cd_x264_sliced_threads (ac_codec c))),
     (''codec.x264_slice_count'', dec_int (cd_x264_slice_count (ac_codec c))),
     (''codec.x264_slice_count_max'', dec_int (cd_x264_slice_count_max (ac_codec c))),
     (''codec.x264_frame_reference'', dec_int (cd_x264_frame_reference (ac_codec c))),
     (''codec.x264_lookahead'', dec_int (cd_x264_lookahead (ac_codec c))),
     (''codec.x264_sync_lookahead'', dec_int (cd_x264_sync_lookahead (ac_codec c))),
     (''codec.x264_subpel_refine'', dec_int (cd_x264_subpel_refine (ac_codec c))),
     (''codec.x264_mb_tree'', dec_bool (cd_x264_mb_tree (ac_codec c))),
     (''codec.x264_scenecut'', dec_int (cd_x264_scenecut (ac_codec c)))]"

definition config_line :: "string \<times> string \<Rightarrow> string" where
  "config_line kv = fst kv @ ''='' @ snd kv"

text \<open>What a file cannot express: blanks around a value and line breaks in it, and numbers outside the
  range of the field's type.\<close>

definition value_ok :: "string \<Rightarrow> bool" where
  "value_ok v \<longleftrightarrow> newline \<notin> set v \<and> (v = [] \<or> \<not> is_space (hd v) \<and> \<not> is_space (last v))"

definition int_ok :: "int \<Rightarrow> bool" where
  "int_ok i \<longleftrightarrow> - int_max - 1 \<le> i \<and> i \<le> int_max"

definition size_ok :: "nat \<Rightarrow> bool" where "size_ok n \<longleftrightarrow> n < 2 ^ 64"

definition config_strings :: "AppConfig \<Rightarrow> string list" where
  "config_strings c =
     [ac_app_name c, cp_source (ac_capture c), cp_device (ac_capture c), cp_null_payload_mode (ac_capture c),
      tc_backend (ac_transport c), tc_bind_address (ac_transport c), tc_queue_drop_policy (ac_transport c),
      tc_rtp_remote_host (ac_transport c), tc_rtp_sdp_path (ac_transport c), cd_backend (ac_codec c),
      cd_x264_preset (ac_codec c), cd_x264_tune (ac_codec c), cd_x264_profile (ac_codec c)]"

definition config_ints :: "AppConfig \<Rightarrow> int list" where
  "config_ints c =
     [rt_shutdown_grace_period_ms (ac_runtime c), rt_latency_log_interval_frames (ac_runtime c),
      cp_width (ac_capture c), cp_height (ac_capture c), cp_fps (ac_capture c),
      cp_frame_interval_ms (ac_capture c), cp_device_buffer_count (ac_capture c),
      tc_listen_port (ac_transport c), tc_max_queue_wait_ms (ac_transport c),
      tc_accept_loop_interval_ms (ac_transport c), tc_udp_client_timeout_ms (ac_transport c),
      tc_udp_receive_buffer_bytes (ac_transport c), tc_udp_send_buffer_bytes (ac_transport c),
      tc_udp_retransmit_cache_max_age_ms (ac_transport c), tc_rtp_remote_port (ac_transport c),
      tc_rtp_payload_type (ac_transport c), tc_rtp_clock_rate (ac_transport c), tc_rtp_ssrc (ac_transport c),
      cd_x264_keyint_max (ac_codec c), cd_x264_keyint_min (ac_codec c), cd_x264_bframes (ac_codec c),
      cd_x264_threads (ac_codec c), cd_x264_slice_count (ac_codec c), cd_x264_slice_count_max (ac_codec c),
      cd_x264_frame_reference (ac_codec c), cd_x264_lookahead (ac_codec c),
      cd_x264_sync_lookahead (ac_codec c), cd_x264_subpel_refine (ac_codec c), cd_x264_scenecut (ac_codec c)]"

definition config_sizes :: "AppConfig \<Rightarrow> nat list" where
  "config_sizes c =
     [cp_null_payload_bytes (ac_capture c), tc_max_pending_frames (ac_transport c),
      tc_udp_max_datagram_size (ac_transport c), tc_udp_target_payload_size (ac_transport c),
      tc_udp_retransmit_cache_frames (ac_transport c),
      tc_udp_retransmit_max_fragments_per_request (ac_transport c), tc_rtp_max_payload_size (ac_transport c)]"

definition writable :: "AppConfig \<Rightarrow> bool" where
  "writable c \<longleftrightarrow> list_all value_ok (config_strings c) \<and> list_all int_ok (config_ints c)
     \<and> list_all size_ok (config_sizes c)"

definition key_ok :: "string \<Rightarrow> bool" where
  "key_ok k \<longleftrightarrow> k \<noteq> [] \<and> hd k \<noteq> CHR ''#'' \<and> list_all (\<lambda>ch. \<not> is_space ch \<and> ch \<noteq> CHR ''='') k"

lemma Trim_key: "key_ok k \<Longrightarrow> Trim k = k"
  by (intro Trim_same) (auto simp: key_ok_def list_all_iff)

lemma Trim_value: "value_ok v \<Longrightarrow> Trim v = v"
  by (intro Trim_same) (auto simp: value_ok_def)

lemma Trim_config_line:
  assumes "key_ok k" "value_ok v"
  shows "Trim (config_line (k, v)) = config_line (k, v)"
proof -
  have "\<not> is_space (hd (config_line (k, v)))" using assms by (auto simp: key_ok_def config_line_def list_all_iff)
  moreover have "\<not> is_space (last (config_line (k, v)))"
    using assms by (auto simp: value_ok_def config_line_def is_space_def)
  ultimately show ?thesis by (intro Trim_same) simp
qed

lemma load_line_config_line:
  assumes "key_ok k" "value_ok v"
  shows "load_line n (config_line (k, v)) c = apply_setting k v n c"
proof -
  let ?not_eq = "\<lambda>ch. ch \<noteq> CHR ''=''"
  have all: "\<And>ch. ch \<in> set k \<Longrightarrow> ?not_eq ch" using assms(1) by (auto simp: key_ok_def list_all_iff)
  have "takeWhile ?not_eq (config_line (k, v)) = k" "dropWhile ?not_eq (config_line (k, v)) = CHR ''='' # v"
    using all by (simp_all add: config_line_def takeWhile_append2 dropWhile_append2)
  moreover have "config_line (k, v) \<noteq> []" "hd (config_line (k, v)) \<noteq> CHR ''#''"
    "CHR ''='' \<in> set (config_line (k, v))"
    using assms(1) by (auto simp: config_line_def key_ok_def)
  ultimately show ?thesis
    by (simp add: load_line_def Let_def Trim_config_line [OF assms] Trim_key [OF assms(1)] Trim_value [OF assms(2)])
qed

text \<open>The lines of a file that sets the keys of a part of the table in its order.\<close>

fun apply_values :: "(string \<times> setting) list \<Rightarrow> string list \<Rightarrow> nat \<Rightarrow> AppConfig \<Rightarrow> string + AppConfig" where
  "apply_values ((k, s) # settings) (v # vs) n c =
     (case s v n c of Inl m \<Rightarrow> Inl m | Inr c' \<Rightarrow> apply_values settings vs (Suc n) c')"
| "apply_values _ _ n c = Inr c"

lemma apply_values_append:
  "length ss = length vs \<Longrightarrow>
   apply_values (ss @ ss') (vs @ vs') n c =
     (case apply_values ss vs n c of Inl m \<Rightarrow> Inl m | Inr c' \<Rightarrow> apply_values ss' vs' (n + length ss) c')"
  by (induction ss vs arbitrary: n c rule: list_induct2) (auto split: sum.splits)

lemma keys_distinct: "distinct (map fst all_settings)"
  by (simp add: all_settings_def general_settings_def capture_settings_def transport_settings_def
      rtp_settings_def codec_settings_def)

lemma keys_ok: "list_all key_ok (map fst all_settings)"
  by (simp add: all_settings_def general_settings_def capture_settings_def transport_settings_def
      rtp_settings_def codec_settings_def key_ok_def is_space_def)

lemma load_lines_values:
  assumes "set ss \<subseteq> set all_settings" "list_all value_ok vs" "length ss = length vs"
  shows "load_lines n (map config_line (zip (map fst ss) vs)) c = apply_values ss vs n c"
  using assms(3,1,2)
proof (induction ss vs arbitrary: n c rule: list_induct2)
  case (Cons x ss v vs)
  obtain k s where x: "x = (k, s)" by (cases x)
  have "map_of all_settings k = Some s" using Cons.prems(1) x keys_distinct by simp
  moreover have "key_ok k" using Cons.prems(1) x keys_ok by (auto simp: list_all_iff)
  ultimately show ?case using Cons x
    by (auto simp: load_line_config_line apply_setting_def split: sum.splits)
qed simp

subsection \<open>Each setting writes its own field\<close>

lemma value_ok_digits: "list_all is_digit s \<Longrightarrow> value_ok s"
  by (cases s rule: rev_cases) (auto simp: value_ok_def list_all_iff is_digit_not_space is_digit_def newline_def
      hd_append intro: is_digit_not_space)

lemma value_ok_dec_nat [simp]: "value_ok (dec_nat n)"
  by (simp add: value_ok_digits is_digit_dec_nat)

lemma value_ok_dec_int [simp]: "value_ok (dec_int i)"
proof (cases "i < 0")
  case True
  have "value_ok (dec_nat (nat (- i)))" by simp
  then show ?thesis using True by (simp add: dec_int_def value_ok_def newline_def is_space_def)
qed (simp add: dec_int_def)

lemma value_ok_dec_bool [simp]: "value_ok (dec_bool b)"
  by (simp add: value_ok_def dec_bool_def newline_def is_space_def)

lemma set_string_apply [simp]: "set_string field v n c = Inr (field v c)"
  by (simp add: set_string_def)

lemma set_int_dec_int [simp]: "int_ok i \<Longrightarrow> set_int what field (dec_int i) n c = Inr (field i c)"
  by (simp add: set_int_def set_parsed_def ParseInt_def Trim_value read_int_dec_int int_ok_def)

lemma set_size_dec_nat [simp]: "size_ok i \<Longrightarrow> set_size what field (dec_nat i) n c = Inr (field i c)"
  by (simp add: set_size_def set_parsed_def ParseSize_def Trim_value read_size_dec_nat size_ok_def)

lemma set_bool_dec_bool [simp]: "set_bool what field (dec_bool b) n c = Inr (field b c)"
proof -
  have "Trim (dec_bool b) = dec_bool b" by (simp add: Trim_value)
  then have "ParseBool (dec_bool b) = Some b" by (cases b) (simp_all add: ParseBool_def Let_def dec_bool_def)
  then show ?thesis by (simp add: set_bool_def set_parsed_def)
qed

lemma set_part_comp:
  "set_runtime f (set_runtime g c) = set_runtime (\<lambda>x. f (g x)) c"
  "set_capture f1 (set_capture g1 c) = set_capture (\<lambda>x. f1 (g1 x)) c"
  "set_transport f2 (set_transport g2 c) = set_transport (\<lambda>x. f2 (g2 x)) c"
  "set_codec f3 (set_codec g3 c) = set_codec (\<lambda>x. f3 (g3 x)) c"
  by (simp_all add: set_runtime_def set_capture_def set_transport_def set_codec_def)

text \<open>The values of the pairs, part by part of the table.\<close>

lemma general_values:
  assumes "writable c"
  shows "apply_values general_settings (take 3 (map snd (config_pairs c))) n d
           = Inr (d\<lparr>ac_app_name := ac_app_name c, ac_runtime := ac_runtime c\<rparr>)"
  using assms
  by (simp add: writable_def config_ints_def config_pairs_def general_settings_def set_part_comp)
    (simp add: set_runtime_def)

lemma capture_values:
  assumes "writable c"
  shows "apply_values capture_settings (take 10 (drop 3 (map snd (config_pairs c)))) n d
           = Inr (d\<lparr>ac_capture := ac_capture c\<rparr>)"
  using assms
  by (simp add: writable_def config_ints_def config_sizes_def config_pairs_def capture_settings_def set_part_comp)
    (simp add: set_capture_def)

lemma transport_values:
  assumes "writable c"
  shows "apply_values (transport_settings @ rtp_settings) (take 28 (drop 13 (map snd (config_pairs c)))) n d
           = Inr (d\<lparr>ac_transport := ac_transport c\<rparr>)"
  using assms
  by (simp add: writable_def config_ints_def config_sizes_def config_pairs_def transport_settings_def
      rtp_settings_def set_part_comp)
    (simp add: set_transport_def)

lemma codec_values:
  assumes "writable c"
  shows "apply_values codec_settings (drop 41 (map snd (config_pairs c))) n d
           = Inr (d\<lparr>ac_codec := ac_codec c\<rparr>)"
  using assms
  by (simp add: writable_def config_ints_def config_sizes_def config_pairs_def codec_settings_def set_part_comp)
    (simp add: set_codec_def)

lemma values_split:
  "map snd (config_pairs c) =
     take 3 (map snd (config_pairs c)) @ take 10 (drop 3 (map snd (config_pairs c)))
       @ take 28 (drop 13 (map snd (config_pairs c))) @ drop 41 (map snd (config_pairs c))"
  by (simp add: config_pairs_def)

lemma config_values:
  assumes "writable c"
  shows "apply_values all_settings (map snd (config_pairs c)) n d = Inr c"
proof -
  have len: "length (take 3 (map snd (config_pairs c))) = length general_settings"
    "length (take 10 (drop 3 (map snd (config_pairs c)))) = length capture_settings"
    "length (take 28 (drop 13 (map snd (config_pairs c)))) = length (transport_settings @ rtp_settings)"
    by (simp_all add: config_pairs_def general_settings_def capture_settings_def transport_settings_def
        rtp_settings_def)
  have all: "all_settings = general_settings @ capture_settings @ (transport_settings @ rtp_settings) @ codec_settings"
    by (simp add: all_settings_def)
  show ?thesis
    by (subst values_split, unfold all)
      (simp only: apply_values_append [OF len(1) [symmetric]] apply_values_append [OF len(2) [symmetric]]
        apply_values_append [OF len(3) [symmetric]] general_values [OF assms] capture_values [OF assms]
        transport_values [OF assms] codec_values [OF assms] sum.case, simp)
qed

lemma pairs_zip: "config_pairs c = zip (map fst all_settings) (map snd (config_pairs c))"
proof -
  have "map fst (config_pairs c) = map fst all_settings"
    by (simp add: config_pairs_def all_settings_def general_settings_def capture_settings_def
        transport_settings_def rtp_settings_def codec_settings_def)
  then show ?thesis by (metis zip_map_fst_snd)
qed

lemma values_ok: "writable c \<Longrightarrow> list_all value_ok (map snd (config_pairs c))"
  by (simp add: writable_def config_strings_def config_pairs_def)

lemma load_pairs:
  assumes "writable c"
  shows "load_lines n (map config_line (config_pairs c)) d = Inr c"
proof -
  have "length all_settings = length (map snd (config_pairs c))"
    by (simp add: config_pairs_def all_settings_def general_settings_def capture_settings_def
        transport_settings_def rtp_settings_def codec_settings_def)
  then have "load_lines n (map config_line (zip (map fst all_settings) (map snd (config_pairs c)))) d
      = apply_values all_settings (map snd (config_pairs c)) n d"
    by (intro load_lines_values values_ok assms) simp
  then show ?thesis using config_values [OF assms] by (simp add: pairs_zip [symmetric])
qed

subsection \<open>The text of a file\<close>

definition config_text :: "AppConfig \<Rightarrow> string" where
  "config_text c = unlines (map config_line (config_pairs c))"

lemma config_line_newline:
  assumes "key_ok k" "value_ok v"
  shows "newline \<notin> set (config_line (k, v))"
proof -
  have "is_space newline" by (simp add: is_space_def newline_def)
  then have "newline \<notin> set k" using assms(1) by (auto simp: key_ok_def list_all_iff)
  then show ?thesis using assms(2) by (simp add: config_line_def value_ok_def) (simp add: newline_def)
qed

lemma config_text_lines:
  assumes "writable c"
  shows "getlines (config_text c) = map config_line (config_pairs c)"
proof -
  have "newline \<notin> set (config_line (k, v))" if "(k, v) \<in> set (config_pairs c)" for k v
  proof -
    have "(k, v) \<in> set (zip (map fst all_settings) (map snd (config_pairs c)))"
      using that by (simp only: pairs_zip [symmetric])
    then have k: "k \<in> set (map fst all_settings)" and v: "v \<in> set (map snd (config_pairs c))"
      by (rule set_zip_leftD, rule set_zip_rightD)
    have "key_ok k" using keys_ok [unfolded list_all_iff] k by (rule bspec)
    moreover have "value_ok v" using values_ok [OF assms, unfolded list_all_iff] v by (rule bspec)
    ultimately show ?thesis by (rule config_line_newline)
  qed
  then show ?thesis unfolding config_text_def
    by (intro getlines_unlines) (auto simp: list_all_iff)
qed


subsection \<open>The properties\<close>

text \<open>C7: loading the file that sets every key to the text of a valid configuration's field gives exactly
  that configuration: every one of the keys is read into the field it names, with the parser of that
  field's type, and into no other.\<close>

theorem LoadFromFile_config_text:
  assumes "writable c" "Validate c = None" "files path = Some (config_text c)"
  shows "LoadFromFile files path True = Inr c"
  using assms by (simp add: LoadFromFile_def config_text_lines load_pairs)

text \<open>a file that is rejected is rejected for its first bad line, and the message names the number of
  that line, whatever follows it; or every line is accepted and a check of the whole configuration
  fails.\<close>

theorem LoadFromFile_rejects:
  assumes "files path = Some content" "LoadFromFile files path True = Inl message"
  shows "(\<exists>before line after loaded.
            getlines content = before @ line # after \<and> load_lines 1 before CreateDefault = Inr loaded \<and>
            load_line (length before + 1) line loaded = Inl message \<and> names_line (length before + 1) message) \<or>
         (\<exists>loaded. load_lines 1 (getlines content) CreateDefault = Inr loaded \<and> Validate loaded = Some message)"
proof (cases "load_lines 1 (getlines content) CreateDefault")
  case (Inl m)
  then have "load_lines 1 (getlines content) CreateDefault = Inl message"
    using assms by (simp add: LoadFromFile_def)
  from load_lines_first_error [OF this] show ?thesis using load_line_error by fastforce
next
  case (Inr loaded)
  then show ?thesis using assms by (auto simp: LoadFromFile_def split: option.splits)
qed

definition example_config :: AppConfig where
  "example_config = CreateDefault\<lparr>ac_app_name := ''cam = 1'', ac_transport := TransportConfig_default\<lparr>tc_backend := ''rtp'',
     tc_rtp_remote_port := 6000, tc_udp_enable_nack := True\<rparr>\<rparr>"

lemma example_config_valid: "Validate example_config = None"
  by code_simp

lemma example_config_writable: "writable example_config"
  by (simp add: writable_def config_strings_def config_ints_def config_sizes_def example_config_def CreateDefault_def
      RuntimeConfig_default_def CaptureConfig_default_def TransportConfig_default_def CodecConfig_default_def
      value_ok_def int_ok_def size_ok_def int_max_def newline_def is_space_def)

theorem LoadFromFile_config_text_witness:
  "LoadFromFile [''server.conf'' \<mapsto> config_text example_config] ''server.conf'' True = Inr example_config"
  by (rule LoadFromFile_config_text [OF example_config_writable example_config_valid]) simp

definition example_bad_file :: string where
  "example_bad_file = ''# port'' @ [newline] @ ''transport.listen_port = 99x'' @ [newline] @ ''nonsense''"

theorem LoadFromFile_rejects_witness:
  "\<exists>before line after. getlines example_bad_file = before @ line # after \<and>
     LoadFromFile [''server.conf'' \<mapsto> example_bad_file] ''server.conf'' True =
       Inl ''invalid transport.listen_port at line 2'' \<and>
     names_line (length before + 1) ''invalid transport.listen_port at line 2''"
proof -
  have l: "load_lines 1 (getlines example_bad_file) CreateDefault = Inl ''invalid transport.listen_port at line 2''"
    by code_simp
  then have e: "LoadFromFile [''server.conf'' \<mapsto> example_bad_file] ''server.conf'' True =
      Inl ''invalid transport.listen_port at line 2''" by (simp add: LoadFromFile_def)
  show ?thesis
    using LoadFromFile_rejects [of "[''server.conf'' \<mapsto> example_bad_file]" "''server.conf''", OF _ e] l e by fastforce
qed

text \<open>A negative text is accepted for an unsigned setting: it wraps around.\<close>

lemma ParseSize_negative: "ParseSize ''-1'' = Some (2 ^ 64 - 1)"
  by code_simp

end
