(* ===== verification/Config_Safety.thy ===== *)
theory Config_Safety
  imports Config_Loader_Correct Udp_Sender_Correct Rtp_Backend
begin

section \<open>What a loaded configuration guarantees the transports\<close>

text \<open>
  The correctness of the UDP sender and of the RTP backend rests on bounds of the configuration
  (\<open>sendable\<close>, \<open>packetizer_fits\<close>, \<open>rtp_config_ok\<close>). Here they follow from the configuration having
  been loaded: from the checks of \<^verbatim>\<open>Validate\<close> and from how values are read.
\<close>

subsection \<open>Texts and numbers as read\<close>

definition loaded_ok :: "AppConfig \<Rightarrow> bool" where
  "loaded_ok c \<longleftrightarrow> value_ok (tc_rtp_remote_host (ac_transport c)) \<and> int_ok (tc_rtp_clock_rate (ac_transport c))"

lemma extract_int_ok: "extract_int s = Some (i, rest) \<Longrightarrow> int_ok i"
  by (auto simp: extract_int_def int_ok_def Let_def split: option.splits if_splits)

lemma ParseInt_ok: "ParseInt v = Some i \<Longrightarrow> int_ok i"
  by (auto simp: ParseInt_def read_int_def whole_def dest: extract_int_ok split: option.splits list.splits)

definition keeps_loaded :: "setting \<Rightarrow> bool" where
  "keeps_loaded s \<longleftrightarrow> (\<forall>v n c c'. value_ok v \<longrightarrow> loaded_ok c \<longrightarrow> s v n c = Inr c' \<longrightarrow> loaded_ok c')"

lemma keeps_loaded_intros:
  "(\<And>v c. value_ok v \<Longrightarrow> loaded_ok c \<Longrightarrow> loaded_ok (field v c)) \<Longrightarrow> keeps_loaded (set_string field)"
  "(\<And>i c. int_ok i \<Longrightarrow> loaded_ok c \<Longrightarrow> loaded_ok (fieldi i c)) \<Longrightarrow> keeps_loaded (set_int what fieldi)"
  "(\<And>n c. loaded_ok c \<Longrightarrow> loaded_ok (fieldn n c)) \<Longrightarrow> keeps_loaded (set_size what fieldn)"
  "(\<And>b c. loaded_ok c \<Longrightarrow> loaded_ok (fieldb b c)) \<Longrightarrow> keeps_loaded (set_bool what fieldb)"
  by (auto simp: keeps_loaded_def set_string_def set_int_def set_size_def set_bool_def set_parsed_def
      ParseInt_ok split: option.splits)

lemma settings_keep_loaded: "list_all (\<lambda>(k, s). keeps_loaded s) all_settings"
  unfolding all_settings_def general_settings_def capture_settings_def transport_settings_def rtp_settings_def
    codec_settings_def append.simps list.pred_inject prod.case
  by (intro conjI TrueI keeps_loaded_intros)
    (simp_all add: loaded_ok_def set_runtime_def set_capture_def set_transport_def set_codec_def)

lemma value_ok_Trim: "newline \<notin> set s \<Longrightarrow> value_ok (Trim s)"
proof -
  assume s: "newline \<notin> set s"
  have d: "set (dropWhile P t) \<subseteq> set t" for P and t :: string by (auto dest: set_dropWhileD)
  let ?t = "dropWhile is_space s"
  have "set (Trim s) \<subseteq> set s" unfolding Trim_def set_rev using d [of is_space s] d [of is_space "rev ?t"] by (metis set_rev subset_trans)
  moreover have "Trim s = [] \<or> \<not> is_space (hd (Trim s)) \<and> \<not> is_space (last (Trim s))"
  proof (cases "Trim s = []")
    case False
    then have r: "dropWhile is_space (rev ?t) \<noteq> []" by (simp add: Trim_def)
    then have l: "\<not> is_space (last (Trim s))" by (simp add: Trim_def last_rev hd_dropWhile)
    obtain u where u: "rev ?t = u @ dropWhile is_space (rev ?t)" by (metis takeWhile_dropWhile_id)
    then have "?t = Trim s @ rev u" unfolding Trim_def by (metis rev_append rev_rev_ident)
    moreover have "?t \<noteq> []" using r by (metis dropWhile.simps(1) rev.simps(1))
    ultimately have "\<not> is_space (hd (Trim s))" using False by (metis hd_append2 hd_dropWhile)
    then show ?thesis using l by simp
  qed simp
  ultimately show ?thesis using s by (auto simp: value_ok_def)
qed

lemma set_tl_dropWhile: "set (tl (dropWhile P s)) \<subseteq> set s"
  by (induction s) auto

lemma load_line_keeps:
  assumes "newline \<notin> set line" "loaded_ok c" "load_line n line c = Inr c'"
  shows "loaded_ok c'"
proof (cases "Trim line = [] \<or> hd (Trim line) = CHR ''#'' \<or> CHR ''='' \<notin> set (Trim line)")
  case True
  then show ?thesis using assms by (auto simp: load_line_def Let_def split: if_splits)
next
  case False
  let ?v = "Trim (tl (dropWhile (\<lambda>ch. ch \<noteq> CHR ''='') (Trim line)))"
  have "newline \<notin> set (Trim line)" using value_ok_Trim [OF assms(1)] by (simp add: value_ok_def)
  then have "newline \<notin> set (tl (dropWhile (\<lambda>ch. ch \<noteq> CHR ''='') (Trim line)))"
    using set_tl_dropWhile [THEN subsetD] by metis
  then have v: "value_ok ?v" by (rule value_ok_Trim)
  obtain k where "apply_setting k ?v n c = Inr c'" using assms(3) False by (auto simp: load_line_def Let_def)
  then obtain s where "map_of all_settings k = Some s" "s ?v n c = Inr c'"
    by (auto simp: apply_setting_def split: option.splits)
  then show ?thesis using settings_keep_loaded v assms(2)
    by (auto simp: list_all_iff keeps_loaded_def dest!: map_of_SomeD)
qed

lemma load_lines_keeps:
  "list_all (\<lambda>l. newline \<notin> set l) lines \<Longrightarrow> loaded_ok c \<Longrightarrow> load_lines n lines c = Inr c' \<Longrightarrow> loaded_ok c'"
  by (induction lines arbitrary: n c) (auto split: sum.splits dest: load_line_keeps)

lemma getlines_no_newline: "list_all (\<lambda>l. newline \<notin> set l) (getlines s)"
proof -
  have "newline \<notin> set cur \<Longrightarrow> list_all (\<lambda>l. newline \<notin> set l) (getlines_from cur s)" for cur
    by (induction cur s rule: getlines_from.induct) auto
  then show ?thesis by (simp add: getlines_def)
qed

lemma LoadFromFile_ok:
  assumes "LoadFromFile files path has_output = Inr c"
  shows "loaded_ok c" "Validate c = None"
proof -
  obtain content where l: "load_lines 1 (getlines content) CreateDefault = Inr c" and v: "Validate c = None"
    using assms by (auto simp: LoadFromFile_def split: if_splits option.splits sum.splits)
  have "loaded_ok CreateDefault"
    by (simp add: loaded_ok_def CreateDefault_def TransportConfig_default_def value_ok_def int_ok_def int_max_def
        newline_def is_space_def)
  from load_lines_keeps [OF getlines_no_newline this l] show "loaded_ok c" .
  show "Validate c = None" by (rule v)
qed

subsection \<open>What the checks leave\<close>

lemma reject_if_None: "reject_if bad message = None \<longleftrightarrow> \<not> bad"
  by (simp add: reject_if_def)

lemma first_error_None: "first_error checks = None \<longleftrightarrow> list_all (\<lambda>(bad, message). \<not> bad) checks"
  by (induction checks rule: first_error.induct) (auto simp: and_then_def reject_if_def)

lemma and_then_None: "and_then a b = None \<longleftrightarrow> a = None \<and> b = None"
  by (auto simp: and_then_def split: option.splits)

lemma Validate_transport:
  assumes "Validate c = None" "tc_enabled (ac_transport c)"
  shows "validate_queue (ac_transport c) = None" "validate_udp (ac_transport c) = None"
    "validate_rtp (ac_transport c) = None"
  using assms by (simp_all add: Validate_def validate_transport_def and_then_None)

lemma Validate_udp:
  assumes "Validate c = None" "tc_enabled (ac_transport c)"
  shows "512 \<le> tc_udp_max_datagram_size (ac_transport c)" "tc_udp_max_datagram_size (ac_transport c) \<le> 65507"
    "256 \<le> tc_udp_target_payload_size (ac_transport c)" "0 < tc_max_pending_frames (ac_transport c)"
    "0 < tc_udp_retransmit_cache_frames (ac_transport c)"
  using Validate_transport [OF assms]
  by (simp_all add: validate_udp_def validate_queue_def and_then_None reject_if_None)

text \<open>The packets of the backend's own packetizer.\<close>

definition packetizer_fits :: "TransportConfig \<Rightarrow> RtpPacketizer \<Rightarrow> bool" where
  "packetizer_fits c p \<longleftrightarrow>
     rp_enable_latency_extension p = tc_rtp_enable_latency_extension c \<and>
     kRtpPacketOverheadWithLatencyExtension + rp_max_payload_size p \<le> tc_udp_max_datagram_size c"

text \<open>A host name as it comes out of the configuration file: without blanks around it and line breaks.\<close>

definition host_ok :: "string \<Rightarrow> bool" where
  "host_ok host \<longleftrightarrow> host \<noteq> [] \<and> newline \<notin> set host \<and> \<not> is_space (hd host) \<and> \<not> is_space (last host)"

definition rtp_config_ok :: "TransportConfig \<Rightarrow> bool" where
  "rtp_config_ok c \<longleftrightarrow>
     host_ok (tc_rtp_remote_host c) \<and> 0 < tc_rtp_remote_port c \<and> tc_rtp_remote_port c \<le> 65535 \<and>
     0 \<le> tc_rtp_payload_type c \<and> tc_rtp_payload_type c \<le> 127 \<and> 0 < tc_rtp_clock_rate c \<and> int_ok (tc_rtp_clock_rate c)"

lemma Validate_rtp:
  assumes "Validate c = None" "tc_enabled (ac_transport c)" "tc_backend (ac_transport c) = ''rtp''" "loaded_ok c"
  shows "rtp_config_ok (ac_transport c)" (is ?cfg)
    "packetizer_fits (ac_transport c) (new_packetizer seed (ac_transport c))"
    "64 \<le> rp_max_payload_size (new_packetizer seed (ac_transport c))"
    "unat (rp_payload_type (new_packetizer seed (ac_transport c))) = nat (tc_rtp_payload_type (ac_transport c))"
proof -
  let ?t = "ac_transport c"
  have v: "0 < tc_rtp_remote_port ?t \<and> tc_rtp_remote_port ?t \<le> 65535" "0 \<le> tc_rtp_payload_type ?t"
    "tc_rtp_payload_type ?t \<le> 127" "0 < tc_rtp_clock_rate ?t" "64 \<le> tc_rtp_max_payload_size ?t"
    "tc_rtp_max_payload_size ?t \<le> max_rtp_payload_size ?t" "tc_rtp_remote_host ?t \<noteq> []"
    using Validate_transport(3) [OF assms(1,2)] assms(3) by (simp_all add: validate_rtp_def and_then_None reject_if_None)
  show "rtp_config_ok ?t" using v assms(4)
    by (simp add: rtp_config_ok_def host_ok_def loaded_ok_def value_ok_def)
  show "packetizer_fits ?t (new_packetizer seed ?t)" using v
    by (auto simp: packetizer_fits_def new_packetizer_def RtpPacketizer_new_def max_rtp_payload_size_def split: if_splits)
  show "64 \<le> rp_max_payload_size (new_packetizer seed ?t)" using v
    by (simp add: new_packetizer_def RtpPacketizer_new_def)
  show "unat (rp_payload_type (new_packetizer seed ?t)) = nat (tc_rtp_payload_type ?t)"
  proof -
    have "uint (of_int (tc_rtp_payload_type ?t) :: u8) = tc_rtp_payload_type ?t"
      using v by (simp add: unsigned_of_int take_bit_int_eq_self)
    then show ?thesis by (simp add: new_packetizer_def RtpPacketizer_new_def unat_eq_nat_uint)
  qed
qed

subsection \<open>Frames that can be sent\<close>

lemma fragment_count_le:
  assumes "0 < max_fragment_payload_size t" "length (ef_payload f) \<le> n * max_fragment_payload_size t" "0 < n"
  shows "fragment_count_size t f \<le> n"
proof (cases "ef_payload f = []")
  case True
  then show ?thesis using assms(3) by (simp add: fragment_count_size_def)
next
  case False
  let ?m = "max_fragment_payload_size t"
  have "(fragment_count_size t f - 1) * ?m < n * ?m" using count_bounds(2) [OF assms(1) False] assms(2) by linarith
  then have "fragment_count_size t f - 1 < n" by simp
  then show ?thesis by linarith
qed

text \<open>C22: with any configuration that was loaded, every frame of up to 16 MB passes the checks of the UDP
  sender, and all its datagrams, parity included, fit in a UDP packet; with the RTP backend, every
  packet of a frame fits too, and the send time can be stamped into it exactly when the configuration
  asks for it.\<close>

theorem loaded_config_sendable:
  assumes "LoadFromFile files path has_output = Inr c" "tc_enabled (ac_transport c)"
    and "length (ef_payload f) \<le> 65535 * 256"
  shows "sendable (ac_transport c) f \<and>
    (\<forall>d\<in>set (frame_datagrams (ac_transport c) f send_ns). length d \<le> 65507) \<and>
    (tc_backend (ac_transport c) = ''rtp'' \<longrightarrow>
       packetizer_fits (ac_transport c) (new_packetizer seed (ac_transport c)) \<and>
       64 \<le> rp_max_payload_size (new_packetizer seed (ac_transport c)))"
proof -
  let ?t = "ac_transport c"
  note v = LoadFromFile_ok [OF assms(1)]
  note u = Validate_udp [OF v(2) assms(2)]
  have m: "256 \<le> max_fragment_payload_size ?t" using u by (simp add: max_fragment_payload_size_def)
  then have "(65535 :: nat) * 256 \<le> 65535 * max_fragment_payload_size ?t" by simp
  then have "fragment_count_size ?t f \<le> 65535" using m assms(3) by (intro fragment_count_le) linarith+
  then have s: "sendable ?t f" using u by (simp add: sendable_def)
  have "length d \<le> 65507" if "d \<in> set (frame_datagrams ?t f send_ns)" for d
    using frame_datagrams_bounded [OF s that] u(2) by linarith
  then show ?thesis using s Validate_rtp(2,3) [OF v(2) assms(2) _ v(1)] by blast
qed

lemma example_config_loads:
  "LoadFromFile [''server.conf'' \<mapsto> config_text example_config] ''server.conf'' True = Inr example_config"
  by (simp add: LoadFromFile_def config_text_lines [OF example_config_writable] load_pairs [OF example_config_writable]
      example_config_valid)

lemma example_config_simps [simp]:
  "tc_enabled (ac_transport example_config)" "tc_backend (ac_transport example_config) = ''rtp''"
  "tc_rtp_remote_port (ac_transport example_config) = 6000" "tc_rtp_payload_type (ac_transport example_config) = 96"
  "tc_rtp_remote_host (ac_transport example_config) = ''127.0.0.1''"
  by (simp_all add: example_config_def TransportConfig_default_def)

theorem loaded_config_sendable_witness:
  "sendable (ac_transport example_config) (EncodedFrame_default\<lparr>ef_payload := replicate 70000 7\<rparr>) \<and>
   packetizer_fits (ac_transport example_config) (new_packetizer (id, 0) (ac_transport example_config))"
  using loaded_config_sendable [OF example_config_loads, of "EncodedFrame_default\<lparr>ef_payload := replicate 70000 7\<rparr>"]
  by simp

end
