(* ===== verification/Rtp_Link.thy ===== *)
theory Rtp_Link
  imports Rtp_Backend Rtp_Receiver Client_Options Config_Safety
begin

section \<open>From the RTP backend to the client\<close>

text \<open>
  What the RTP backend puts on the wire, whatever the kernel answers; the bounds of its pacing; its life
  cycle; the session description the server writes, as the client reads it; and the whole path: a
  server started with a valid configuration, the client configured from the server's session
  description, and a frame that comes out as it went in.
\<close>

subsection \<open>Sending the packets of a frame\<close>

lemma PacePacketBurst_simps [simp]:
  "re_sent (PacePacketBurst i start interval e) = re_sent e"
  "re_sendto (PacePacketBurst i start interval e) = re_sendto e"
  by (simp_all add: PacePacketBurst_def rtp_now_def Let_def)

text \<open>Packets the loop neither finds too large nor without the extension it expects.\<close>

definition packet_ok :: "TransportConfig \<Rightarrow> bytes \<Rightarrow> bool" where
  "packet_ok c packet \<longleftrightarrow> length packet \<le> tc_udp_max_datagram_size c \<and>
     (\<forall>now. (UpdateRtpLatencyExtensionTransportSendTimestamp packet now \<noteq> None) = tc_rtp_enable_latency_extension c)"

definition reliable_rtp :: "RtpEnv \<Rightarrow> bool" where
  "reliable_rtp e \<longleftrightarrow> (\<forall>n packet. re_sendto e n packet = int (length packet))"

lemma send_rtp_packet_ok:
  assumes "packet_ok c packet" "send_rtp_packet c address i start interval packet e = (e', error)"
  shows "re_sendto e' = re_sendto e \<and> (reliable_rtp e \<longrightarrow> error = None) \<and>
    (\<exists>now. re_sent e' = re_sent e @ (if error = None then [(address, stamp_packet now packet)] else []))"
proof -
  obtain e1 now where n: "rtp_now (PacePacketBurst i start interval e) = (e1, now)"
    by (cases "rtp_now (PacePacketBurst i start interval e)")
  have e1: "re_sent e1 = re_sent e" "re_sendto e1 = re_sendto e"
    using n by (auto simp: rtp_now_def)
  have "(if tc_rtp_enable_latency_extension c
      then UpdateRtpLatencyExtensionTransportSendTimestamp packet now else Some packet) = Some (stamp_packet now packet)"
    using assms(1) unfolding packet_ok_def stamp_packet_def
    by (cases "UpdateRtpLatencyExtensionTransportSendTimestamp packet now") (auto dest!: spec [of _ now])
  then have "(e', error) = (let (e, sent) = rtp_sendto address (stamp_packet now packet) e1 in (e, if sent then None else Some SendtoFailed))"
    using assms n by (simp add: send_rtp_packet_def packet_ok_def Let_def split: prod.splits)
  then show ?thesis using e1
    by (auto simp: rtp_sendto_def Let_def reliable_rtp_def split: if_splits)
qed

lemma send_rtp_packets_ok:
  assumes "list_all (packet_ok c) packets"
    and "send_rtp_packets c address i start interval packets e = (e', n, error)"
  shows "\<exists>stamps. length stamps = n \<and> n \<le> length packets \<and>
    re_sent e' = re_sent e @ map (Pair address) (map2 stamp_packet stamps (take n packets)) \<and>
    (error = None \<longleftrightarrow> n = length packets) \<and> (reliable_rtp e \<longrightarrow> error = None)"
  using assms
proof (induction packets arbitrary: i e e' n error)
  case Nil
  then show ?case by simp
next
  case (Cons packet packets)
  obtain e1 err1 where s: "send_rtp_packet c address i start interval packet e = (e1, err1)"
    by (cases "send_rtp_packet c address i start interval packet e")
  have ok: "packet_ok c packet" using Cons.prems(1) by simp
  from send_rtp_packet_ok [OF ok s] obtain now where one: "re_sendto e1 = re_sendto e" "reliable_rtp e \<longrightarrow> err1 = None"
    "re_sent e1 = re_sent e @ (if err1 = None then [(address, stamp_packet now packet)] else [])" by blast
  show ?case
  proof (cases err1)
    case (Some x)
    then show ?thesis using Cons.prems(2) s one by (auto intro: exI [of _ "[]"])
  next
    case None
    obtain e2 m err2 where r: "send_rtp_packets c address (Suc i) start interval packets e1 = (e2, m, err2)"
      by (cases "send_rtp_packets c address (Suc i) start interval packets e1") auto
    have eq: "e' = e2" "n = Suc m" "error = err2" using Cons.prems(2) s None r by simp_all
    obtain stamps where "length stamps = m" "m \<le> length packets"
      "re_sent e2 = re_sent e1 @ map (Pair address) (map2 stamp_packet stamps (take m packets))"
      "(err2 = None) = (m = length packets)" "reliable_rtp e1 \<longrightarrow> err2 = None"
      using Cons.IH [OF _ r] Cons.prems(1) by auto
    then show ?thesis
      using eq one None by (intro exI [of _ "now # stamps"]) (auto simp: reliable_rtp_def)
  qed
qed

lemma record_capture_to_send_simps [simp]:
  "re_sent (rb_env (record_capture_to_send f b)) = re_sent (rb_env b)"
  "rb_sent_frames (record_capture_to_send f b) = rb_sent_frames b"
  "rb_sent_packets (record_capture_to_send f b) = rb_sent_packets b"
  "rb_failed_frames (record_capture_to_send f b) = rb_failed_frames b"
  by (simp_all add: record_capture_to_send_def rtp_now_def Let_def split: option.split)

lemma ComputePacingInterval_simps:
  assumes "ComputePacingInterval n t b = (b', interval)"
  shows "rb_env b' = rb_env b" "rb_config b' = rb_config b" "rb_remote_address b' = rb_remote_address b"
    "rb_sent_frames b' = rb_sent_frames b" "rb_sent_packets b' = rb_sent_packets b"
    "rb_failed_frames b' = rb_failed_frames b"
  using assms by (auto simp: ComputePacingInterval_def Let_def split: if_splits)

lemma send_paced_ok:
  assumes "list_all (packet_ok (rb_config b)) packets"
  shows "\<exists>stamps n. length stamps = n \<and> n \<le> length packets \<and>
    re_sent (rb_env (send_paced f packets b)) =
      re_sent (rb_env b) @ map (Pair (rb_remote_address b)) (map2 stamp_packet stamps (take n packets)) \<and>
    rb_sent_packets (send_paced f packets b) = rb_sent_packets b + of_nat n \<and>
    (if n = length packets
     then rb_sent_frames (send_paced f packets b) = rb_sent_frames b + 1 \<and>
          rb_failed_frames (send_paced f packets b) = rb_failed_frames b
     else rb_sent_frames (send_paced f packets b) = rb_sent_frames b \<and>
          rb_failed_frames (send_paced f packets b) = rb_failed_frames b + 1) \<and>
    (reliable_rtp (rb_env b) \<longrightarrow> n = length packets)"
proof -
  obtain b1 interval where p: "ComputePacingInterval (length packets) (ef_capture_timestamp_ns f) b = (b1, interval)"
    by (cases "ComputePacingInterval (length packets) (ef_capture_timestamp_ns f) b")
  note p' = ComputePacingInterval_simps [OF p]
  obtain e1 start where t: "rtp_now (rb_env b1) = (e1, start)" by (cases "rtp_now (rb_env b1)")
  have e1: "re_sent e1 = re_sent (rb_env b)" "reliable_rtp e1 = reliable_rtp (rb_env b)"
    using t p' by (auto simp: rtp_now_def reliable_rtp_def)
  obtain e2 n error where s:
    "send_rtp_packets (rb_config b1) (rb_remote_address b1) 0 start interval packets e1 = (e2, n, error)"
    by (cases "send_rtp_packets (rb_config b1) (rb_remote_address b1) 0 start interval packets e1") auto
  have "list_all (packet_ok (rb_config b1)) packets" using assms p' by simp
  from send_rtp_packets_ok [OF this s] obtain stamps where st: "length stamps = n" "n \<le> length packets"
    "re_sent e2 = re_sent e1 @ map (Pair (rb_remote_address b1)) (map2 stamp_packet stamps (take n packets))"
    "(error = None) = (n = length packets)" "reliable_rtp e1 \<longrightarrow> error = None" by blast
  have r: "send_paced f packets b =
      (let b2 = b1\<lparr>rb_env := e2, rb_sent_packets := rb_sent_packets b1 + of_nat n\<rparr> in
       case error of
         Some _ \<Rightarrow> b2\<lparr>rb_failed_frames := rb_failed_frames b2 + 1\<rparr>
       | None \<Rightarrow> record_capture_to_send f (b2\<lparr>rb_sent_frames := rb_sent_frames b2 + 1\<rparr>))"
    by (simp add: send_paced_def p t s)
  show ?thesis
    by (rule exI [of _ stamps], rule exI [of _ n])
      (use st e1 p' in \<open>cases error; simp add: r del: not_None_eq\<close>)
qed

lemma Update_packet:
  "(UpdateRtpLatencyExtensionTransportSendTimestamp (WriteRtpHeaderToBuffer h (frame_extension p f) @ pl) now \<noteq> None)
     = rp_enable_latency_extension p"
proof (cases "rp_enable_latency_extension p")
  case True
  then show ?thesis by (simp add: frame_extension_def buffer_latency_header Update_latency_header)
next
  case False
  then have e: "frame_extension p f = None" by (simp add: frame_extension_def)
  have w: "WriteRtpHeader h None = Some (WriteRtpHeaderToBuffer h None)"
    by (simp add: WriteRtpHeader_buffer ext_ok_def extension_payload_def)
  show ?thesis unfolding e using False by (simp add: Update_no_extension [OF w])
qed

lemma packets_ok:
  assumes "packetizer_fits c p" "Packetize p (Some f) = (p', Inr packets)"
  shows "list_all (packet_ok c) packets"
proof -
  note s = Packetize_success [OF assms(2)]
  let ?pls = "frame_payloads (rp_max_payload_size p) (SplitAnnexBNalus (ef_payload f))"
  have "packet_ok c (packets ! i)" if i: "i < length packets" for i
  proof -
    have j: "i < length ?pls" using i s(4) by simp
    let ?h = "WriteRtpHeaderToBuffer
       (next_header_fields (bump_by i p) (Suc i = length ?pls) (BuildTimestamp p f)) (frame_extension p f)"
    have pkt: "packets ! i = ?h @ ?pls ! i" using j s(4) by (simp add: packets_of_nth)
    have "length (?pls ! i) \<le> rp_max_payload_size p" using frame_payloads_length [OF s(2) nth_mem [OF j]] .
    moreover have "length ?h \<le> kRtpPacketOverheadWithLatencyExtension"
      using frame_extension_length [of p f] by (simp add: length_WriteRtpHeaderToBuffer)
    ultimately show ?thesis
      using assms(1) Update_packet unfolding packet_ok_def pkt packetizer_fits_def by simp
  qed
  then show ?thesis by (simp add: list_all_length)
qed

definition ready_rtp :: "RtpPacketizer \<Rightarrow> RtpStreamingBackend \<Rightarrow> bool" where
  "ready_rtp p b \<longleftrightarrow> rb_packetizer b = Some p \<and> tc_enabled (rb_config b) \<and> 0 \<le> rb_socket_fd b \<and> rb_has_remote_address b"

lemma Broadcast_rtp_ready:
  assumes "ready_rtp p b" "Packetize p (Some f) = (p', Inr packets)"
  shows "Broadcast_rtp (Some f) b = send_paced f packets (b\<lparr>rb_packetizer := Some p'\<rparr>)"
  using assms by (simp add: Broadcast_rtp_def ready_rtp_def)

text \<open>C35: whatever the kernel answers, a broadcast frame puts a prefix of its packets on the wire, in order,
  each with nothing but its send time changed and addressed to the configured receiver; the counters
  tell how many, and whether the frame was sent whole. With a kernel that takes every packet it is.\<close>

theorem Broadcast_rtp_sends_prefix:
  assumes "ready_rtp p b" "packetizer_fits (rb_config b) p" "Packetize p (Some f) = (p', Inr packets)"
  shows "\<exists>stamps n. length stamps = n \<and> n \<le> length packets \<and>
    re_sent (rb_env (Broadcast_rtp (Some f) b)) =
      re_sent (rb_env b) @ map (Pair (rb_remote_address b)) (map2 stamp_packet stamps (take n packets)) \<and>
    rb_sent_packets (Broadcast_rtp (Some f) b) = rb_sent_packets b + of_nat n \<and>
    (if n = length packets
     then rb_sent_frames (Broadcast_rtp (Some f) b) = rb_sent_frames b + 1 \<and>
          rb_failed_frames (Broadcast_rtp (Some f) b) = rb_failed_frames b
     else rb_sent_frames (Broadcast_rtp (Some f) b) = rb_sent_frames b \<and>
          rb_failed_frames (Broadcast_rtp (Some f) b) = rb_failed_frames b + 1) \<and>
    (reliable_rtp (rb_env b) \<longrightarrow> n = length packets)"
proof -
  let ?b = "b\<lparr>rb_packetizer := Some p'\<rparr>"
  have same: "rb_config ?b = rb_config b" "rb_env ?b = rb_env b" "rb_remote_address ?b = rb_remote_address b"
    "rb_sent_packets ?b = rb_sent_packets b" "rb_sent_frames ?b = rb_sent_frames b"
    "rb_failed_frames ?b = rb_failed_frames b" by simp_all
  have "list_all (packet_ok (rb_config ?b)) packets" using packets_ok [OF assms(2,3)] by simp
  from send_paced_ok [OF this, of f] show ?thesis
    unfolding Broadcast_rtp_ready [OF assms(1,3)] same .
qed

subsection \<open>Pacing\<close>

lemma interval_of_bounds:
  assumes "1 < n" "n < 2 ^ 64"
  shows "(interval_of n t = 0 \<or> 50000 \<le> unat (interval_of n t)) \<and>
    (n - 1) * unat (interval_of n t) \<le> min 2000000 (unat t div 4)"
proof (cases "interval_of n t = 0")
  case False
  let ?w = "min kMaxRtpPacingWindowNs (t div kRtpPacingFrameFractionDivisor)"
  have i: "interval_of n t = ?w div of_nat (n - 1)" "\<not> ?w div of_nat (n - 1) < kMinRtpPacingIntervalNs"
    using False by (auto simp: interval_of_def Let_def split: if_splits)
  have n: "unat (of_nat (n - 1) :: u64) = n - 1" using assms by (intro unat_of_nat_small) simp
  have u: "unat (interval_of n t) = unat ?w div (n - 1)" unfolding i(1) unat_div_distrib n ..
  have "unat (t div kRtpPacingFrameFractionDivisor) = unat t div 4"
    by (simp add: unat_div_distrib kRtpPacingFrameFractionDivisor_def)
  then have w: "unat ?w = min 2000000 (unat t div 4)"
    by (simp add: min_def word_le_nat_alt kMaxRtpPacingWindowNs_def)
  have "(n - 1) * (unat ?w div (n - 1)) \<le> unat ?w" by (rule times_div_less_eq_dividend)
  moreover have "50000 \<le> unat (?w div of_nat (n - 1))"
    using i(2) by (simp add: word_less_nat_alt kMinRtpPacingIntervalNs_def)
  ultimately show ?thesis using u w i(1) by simp
qed simp

text \<open>C40: pacing neither bursts nor delays a frame: the packets of a frame are either not paced or at least
  50 microseconds apart, and a packet that is made to wait is made to wait exactly until its turn, at
  most 2 milliseconds, and at most a quarter of the interval between frames, after the frame's
  start.\<close>

theorem pacing_bounded:
  assumes "ComputePacingInterval n capture_ns b = (b', interval)" "n < 2 ^ 64" "k < n"
    and "start \<le> re_clock e (re_clock_reads e)"
  shows "(interval = 0 \<or> 50000 \<le> unat interval) \<and>
    (re_sleeps (PacePacketBurst k start interval e) = re_sleeps e \<or>
     (\<exists>wait. re_sleeps (PacePacketBurst k start interval e) = re_sleeps e @ [wait] \<and> 0 < wait \<and>
        wait \<le> min 2000000 (uint (measured_interval capture_ns b) div 4) \<and>
        uint (re_clock e (re_clock_reads e)) + wait = uint start + int k * uint interval))"
proof -
  let ?now = "re_clock e (re_clock_reads e)" and ?m = "unat (measured_interval capture_ns b)"
  have b: "(interval = 0 \<or> 50000 \<le> unat interval) \<and> (n - 1) * unat interval \<le> min 2000000 (?m div 4)"
    using assms(1) interval_of_bounds [of n "measured_interval capture_ns b"] assms(2)
    by (auto simp: ComputePacingInterval_def Let_def split: if_splits)
  have "k * unat interval \<le> (n - 1) * unat interval" using assms(3) by (intro mult_right_mono) simp_all
  then have k: "k * unat interval \<le> min 2000000 (?m div 4)" using b by linarith
  then have "int (k * unat interval) \<le> int (min 2000000 (?m div 4))" by (simp only: of_nat_le_iff)
  then have ki: "int k * uint interval \<le> min 2000000 (uint (measured_interval capture_ns b) div 4)"
    by (simp add: of_nat_min zdiv_int)
  have "uint start \<le> uint ?now" using assms(4) by (simp add: word_le_def)
  then show ?thesis
    using b ki by (auto simp: PacePacketBurst_def rtp_now_def Let_def mult.commute)
qed

subsection \<open>Life cycle\<close>

definition no_resources_rtp :: "RtpStreamingBackend \<Rightarrow> bool" where
  "no_resources_rtp b \<longleftrightarrow> rb_socket_fd b < 0 \<and> rb_packetizer b = None"

text \<open>starting is all or nothing: a backend without resources either runs with a socket, a receiver's
  address and a packetizer set up as configured (or, disabled, with none of them), or is marked failed
  and has neither a socket nor a packetizer; and stopping it gives everything back.\<close>

theorem start_rtp_all_or_nothing:
  assumes "no_resources_rtp b" "start_rtp inet_pton opened bound port can_open seed b = (b', file, ok)"
  shows "(if ok then rb_state b' = kRunning \<and>
            (if tc_enabled (rb_config b) then ready_rtp (new_packetizer seed (rb_config b)) b' else no_resources_rtp b')
          else rb_state b' = kFailed \<and> no_resources_rtp b' \<and> file = None) \<and>
    rb_config b' = rb_config b \<and> rb_env b' = rb_env b \<and>
    no_resources_rtp (stop_rtp b') \<and> \<not> rb_has_remote_address (stop_rtp b')"
proof -
  have "(if ok then rb_state b' = kRunning \<and>
            (if tc_enabled (rb_config b) then ready_rtp (new_packetizer seed (rb_config b)) b' else no_resources_rtp b')
          else rb_state b' = kFailed \<and> no_resources_rtp b' \<and> file = None) \<and>
    rb_config b' = rb_config b \<and> rb_env b' = rb_env b"
    using assms
    by (auto simp: start_rtp_def ConfigureRemoteAddress_def OpenSocket_rtp_def CloseSocket_rtp_def WriteSdpFile_def
        no_resources_rtp_def ready_rtp_def Let_def split: if_splits option.splits)
  moreover have "no_resources_rtp (stop_rtp b') \<and> \<not> rb_has_remote_address (stop_rtp b')"
    by (auto simp: stop_rtp_def CloseSocket_rtp_def no_resources_rtp_def Let_def)
  ultimately show ?thesis by blast
qed

subsection \<open>The session description\<close>

lemma dec_int_last: "is_digit (last (dec_int i))"
proof -
  have "is_digit (last (dec_nat n))" for n
    using is_digit_dec_nat [of n] by (simp add: list_all_iff)
  then show ?thesis by (simp add: dec_int_def)
qed

lemma dec_int_chars: "c \<in> set (dec_int i) \<Longrightarrow> is_digit c \<or> c = CHR ''-''"
  using is_digit_dec_nat [of "nat i"] is_digit_dec_nat [of "nat (- i)"]
  by (auto simp: dec_int_def list_all_iff split: if_splits)

lemma dec_int_nonempty [simp]: "dec_int i \<noteq> []"
  by (simp add: dec_int_def)

lemma dec_int_no_space: "c \<in> set (dec_int i) \<Longrightarrow> \<not> is_space c"
  using dec_int_chars [of c i] is_digit_not_space by (auto simp: is_space_def)

lemma space_is_space [simp]: "is_space CHR '' ''"
  by (simp add: is_space_def)

lemma newline_is_space: "is_space newline"
  by (simp add: is_space_def newline_def)

lemma extract_int_space: "extract_int (CHR '' '' # s) = extract_int s"
  by (simp add: extract_int_def extract_digits_def)

lemma read_media_written:
  assumes "int_ok port" "int_ok payload_type"
  shows "read_media (dec_int port @ '' RTP/AVP '' @ dec_int payload_type) = Some (port, ''RTP/AVP'', payload_type)"
proof -
  have p: "extract_int (dec_int port @ '' RTP/AVP '' @ dec_int payload_type) = Some (port, '' RTP/AVP '' @ dec_int payload_type)"
    using assms(1) by (intro extract_int_dec_int) (simp_all add: int_ok_def is_digit_def)
  have w: "extract_word ('' RTP/AVP '' @ dec_int payload_type) = Some (''RTP/AVP'', '' '' @ dec_int payload_type)"
    by (simp add: extract_word_def Let_def is_space_def)
  have t: "extract_int ('' '' @ dec_int payload_type) = Some (payload_type, [])"
    using extract_int_dec_int [of payload_type "[]"] assms(2) by (simp add: extract_int_space int_ok_def)
  show ?thesis unfolding read_media_def p option.case prod.case w t by simp
qed

text \<open>The lines of the description one by one.\<close>

lemma sdp_connection_line:
  assumes "host_ok host"
  shows "parse_sdp_line (''c=IN IP4 '' @ host) s = Inr (parse_connection (''c=IN IP4 '' @ host) s)"
    "parse_connection (''c=IN IP4 '' @ host) s =
       s\<lparr>ss_description := (ss_description s)\<lparr>vd_connection_address := host\<rparr>, ss_have_connection_address := True\<rparr>"
proof -
  have "Trim (''c=IN IP4 '' @ host) = ''c=IN IP4 '' @ host"
    using assms by (intro Trim_same) (simp add: host_ok_def is_space_def)
  then show "parse_sdp_line (''c=IN IP4 '' @ host) s = Inr (parse_connection (''c=IN IP4 '' @ host) s)"
    by (simp add: parse_sdp_line_def Let_def has_prefix_def)
  have "Trim host = host" using assms by (intro Trim_same) (simp add: host_ok_def)
  then show "parse_connection (''c=IN IP4 '' @ host) s =
       s\<lparr>ss_description := (ss_description s)\<lparr>vd_connection_address := host\<rparr>, ss_have_connection_address := True\<rparr>"
    using assms by (simp add: parse_connection_def Let_def host_ok_def)
qed

lemma sdp_media_line:
  assumes "int_ok port" "0 < port" "0 \<le> payload_type" "payload_type \<le> 127"
  shows "parse_sdp_line (''m=video '' @ dec_int port @ '' RTP/AVP '' @ dec_int payload_type) s =
    Inr (s\<lparr>ss_description := (ss_description s)\<lparr>vd_video_port := port, vd_payload_type := payload_type\<rparr>,
           ss_have_media_description := True\<rparr>)"
proof -
  have "int_ok payload_type" using assms by (simp add: int_ok_def int_max_def)
  note m = read_media_written [OF assms(1) this]
  have t: "Trim (''m=video '' @ dec_int port @ '' RTP/AVP '' @ dec_int payload_type) =
      ''m=video '' @ dec_int port @ '' RTP/AVP '' @ dec_int payload_type"
    using is_digit_not_space [OF dec_int_last] by (intro Trim_same) (simp add: is_space_def)
  show ?thesis unfolding parse_sdp_line_def Let_def t
    using assms m by (simp add: has_prefix_def parse_media_def)
qed

lemma sdp_rtpmap_line:
  assumes "int_ok payload_type" "int_ok rate" "0 < rate" "vd_payload_type (ss_description s) = payload_type"
  shows "parse_sdp_line (''a=rtpmap:'' @ dec_int payload_type @ '' H264/'' @ dec_int rate) s =
    Inr (s\<lparr>ss_description := (ss_description s)\<lparr>vd_payload_type := payload_type, vd_clock_rate := rate\<rparr>,
           ss_have_rtpmap := True\<rparr>)"
proof -
  let ?line = "''a=rtpmap:'' @ dec_int payload_type @ '' H264/'' @ dec_int rate"
  let ?not_blank = "\<lambda>ch. ch \<noteq> CHR '' ''"
  have t: "Trim ?line = ?line"
    using is_digit_not_space [OF dec_int_last] by (intro Trim_same) (simp add: is_space_def)
  have nb: "\<And>c. c \<in> set (''a=rtpmap:'' @ dec_int payload_type) \<Longrightarrow> ?not_blank c"
    using dec_int_no_space [of "CHR '' ''" payload_type] by auto
  have tw: "takeWhile ?not_blank ?line = ''a=rtpmap:'' @ dec_int payload_type"
    and dw: "dropWhile ?not_blank ?line = '' H264/'' @ dec_int rate"
    using takeWhile_append2 [of "''a=rtpmap:'' @ dec_int payload_type" ?not_blank "'' H264/'' @ dec_int rate"]
      dropWhile_append2 [of "''a=rtpmap:'' @ dec_int payload_type" ?not_blank "'' H264/'' @ dec_int rate"] nb
    by simp_all
  have r: "read_int (dec_int payload_type) = Some payload_type" "read_int (dec_int rate) = Some rate"
    using assms by (simp_all add: read_int_dec_int int_ok_def)
  have "parse_rtpmap ?line s = accept_rtpmap payload_type (''H264/'' @ dec_int rate) s"
    unfolding parse_rtpmap_def Let_def tw dw using r(1) by simp
  moreover have "parse_sdp_line ?line s = parse_rtpmap ?line s"
    unfolding parse_sdp_line_def Let_def t by (simp add: has_prefix_def)
  ultimately show ?thesis using assms(3,4) r(2) by (simp add: accept_rtpmap_def has_prefix_def)
qed

lemma sdp_other_line:
  assumes "l \<noteq> []" "\<not> is_space (hd l)" "\<not> is_space (last l)"
    "\<not> has_prefix ''c=IN IP4 '' l" "\<not> has_prefix ''m=video '' l" "\<not> has_prefix ''a=rtpmap:'' l"
  shows "parse_sdp_line l s = Inr s"
proof -
  have "Trim l = l" using assms(1-3) by (intro Trim_same) simp
  then show ?thesis using assms by (simp add: parse_sdp_line_def Let_def)
qed

lemma sdp_lines_parse:
  assumes "rtp_config_ok c"
  shows "parse_sdp_lines (sdp_lines c) SdpState_new =
    Inr \<lparr>ss_description = \<lparr>vd_connection_address = tc_rtp_remote_host c, vd_video_port = tc_rtp_remote_port c,
           vd_payload_type = tc_rtp_payload_type c, vd_clock_rate = tc_rtp_clock_rate c\<rparr>,
         ss_have_connection_address = True, ss_have_media_description = True, ss_have_rtpmap = True\<rparr>"
proof -
  have h: "host_ok (tc_rtp_remote_host c)" using assms by (simp add: rtp_config_ok_def)
  have i: "int_ok (tc_rtp_remote_port c)" "int_ok (tc_rtp_payload_type c)" "int_ok (tc_rtp_clock_rate c)"
    using assms by (simp_all add: rtp_config_ok_def int_ok_def int_max_def)
  have others: "parse_sdp_line l s = Inr s"
    if "l \<in> {''v=0'', ''o=- 0 0 IN IP4 '' @ tc_rtp_remote_host c, ''s=sserver RTP stream'', ''t=0 0'',
             ''a=fmtp:'' @ dec_int (tc_rtp_payload_type c) @ '' packetization-mode=1'', ''a=recvonly''}" for l s
    using that h by (intro sdp_other_line) (auto simp: has_prefix_def is_space_def host_ok_def)
  show ?thesis
    unfolding sdp_lines_def using assms i
    by (simp add: others sdp_connection_line [OF h, simplified] sdp_media_line [simplified]
        sdp_rtpmap_line [simplified] rtp_config_ok_def SdpState_new_def RtpVideoSessionDescription_new_def)
qed

lemma sdp_lines_newline:
  assumes "rtp_config_ok c"
  shows "list_all (\<lambda>l. newline \<notin> set l) (sdp_lines c)"
proof -
  have "newline \<notin> set (dec_int i)" for i using dec_int_no_space newline_is_space by blast
  moreover have "newline \<notin> set (tc_rtp_remote_host c)" using assms by (simp add: rtp_config_ok_def host_ok_def)
  ultimately show ?thesis by (simp add: sdp_lines_def) (simp add: newline_def)
qed

lemma sdp_text_parse:
  assumes "rtp_config_ok c"
  shows "ParseRtpVideoSessionDescription (unlines (sdp_lines c)) =
    Inr \<lparr>vd_connection_address = tc_rtp_remote_host c, vd_video_port = tc_rtp_remote_port c,
         vd_payload_type = tc_rtp_payload_type c, vd_clock_rate = tc_rtp_clock_rate c\<rparr>"
  by (simp add: ParseRtpVideoSessionDescription_def getlines_unlines [OF sdp_lines_newline [OF assms]]
      sdp_lines_parse [OF assms])

text \<open>C20: the client takes from the session description the server writes exactly the address, port,
  payload type and clock rate the server is configured with.\<close>

theorem sdp_round_trip:
  assumes "rtp_config_ok (rb_config b)" "WriteSdpFile can_open b = (Some (path, contents), True)"
    and "files (cc_sdp_path config) = Some contents" "cc_sdp_path config \<noteq> []"
  shows "apply_session_description files config =
    Inr (config\<lparr>cc_transport := ''rtp'', cc_host := tc_rtp_remote_host (rb_config b),
                cc_port := tc_rtp_remote_port (rb_config b),
                cc_rtp_payload_type := tc_rtp_payload_type (rb_config b),
                cc_rtp_clock_rate := tc_rtp_clock_rate (rb_config b)\<rparr>)"
proof -
  have "contents = unlines (sdp_lines (rb_config b))"
    using assms(2) by (auto simp: WriteSdpFile_def split: if_splits)
  then show ?thesis
    using assms(3,4) sdp_text_parse [OF assms(1)]
    by (simp add: apply_session_description_def LoadRtpVideoSessionDescription_def)
qed

subsection \<open>The whole path\<close>

lemma start_rtp_running:
  assumes "start_rtp inet_pton opened bound port can_open seed b = (b', Some (path, contents), True)"
  shows "ready_rtp (new_packetizer seed (rb_config b)) b'" "rb_config b' = rb_config b" "rb_env b' = rb_env b"
    "contents = unlines (sdp_lines (rb_config b))"
    "\<exists>address. inet_pton (tc_rtp_remote_host (rb_config b)) = Some address \<and>
       rb_remote_address b' = \<lparr>sin_port = of_int (tc_rtp_remote_port (rb_config b)), sin_addr = address\<rparr>"
  using assms
  by (auto simp: start_rtp_def ConfigureRemoteAddress_def OpenSocket_rtp_def CloseSocket_rtp_def WriteSdpFile_def
      ready_rtp_def Let_def split: if_splits option.splits)

lemma frame_packetized:
  assumes "ef_type f = kVideo" "2 < rp_max_payload_size p" "SplitAnnexBNalus (ef_payload f) \<noteq> []"
  obtains p' packets where "Packetize p (Some f) = (p', Inr packets)"
  using assms that
  by (simp add: Packetize_def Let_def frame_extension_def [symmetric] packetize_nalus_eq frame_payloads_eq_Nil)


subsection \<open>A running backend\<close>

definition example_rtp_env :: RtpEnv where
  "example_rtp_env = \<lparr>re_clock = (\<lambda>n. 1000 + of_nat n), re_clock_reads = 0, re_sendto = (\<lambda>n packet. int (length packet)),
     re_send_calls = 0, re_sent = [], re_sleeps = []\<rparr>"

definition example_stopped :: RtpStreamingBackend where
  "example_stopped = fst (initialize_rtp example_config (RtpStreamingBackend_new None example_rtp_env))"

abbreviation example_start :: "RtpStreamingBackend \<times> (string \<times> string) option \<times> bool" where
  "example_start \<equiv> start_rtp (\<lambda>_. Some 0x7F000001) 3 True None (\<lambda>_. True) (id, 0) example_stopped"

definition example_running :: RtpStreamingBackend where
  "example_running = fst example_start"

definition example_sdp :: string where
  "example_sdp = unlines (sdp_lines (ac_transport example_config))"

lemma example_sdp_path: "tc_rtp_sdp_path (ac_transport example_config) = ''sserver_rtp.sdp''"
  by (simp add: example_config_def TransportConfig_default_def)

lemma example_stopped_simps [simp]:
  "rb_config example_stopped = ac_transport example_config" "rb_env example_stopped = example_rtp_env"
  "no_resources_rtp example_stopped" "reliable_rtp example_rtp_env"
  by (simp_all add: example_stopped_def initialize_rtp_def RtpStreamingBackend_new_def no_resources_rtp_def
      example_rtp_env_def reliable_rtp_def)

lemma example_start_eq: "example_start = (example_running, Some (''sserver_rtp.sdp'', example_sdp), True)"
proof -
  have "snd example_start = (Some (''sserver_rtp.sdp'', example_sdp), True)"
    by (simp add: start_rtp_def ConfigureRemoteAddress_def OpenSocket_rtp_def WriteSdpFile_def Let_def example_sdp_path
        example_sdp_def)
  then show ?thesis unfolding example_running_def by (metis prod.collapse)
qed

lemma example_nals:
  "list_all nal_clean [[0x67, 0x42], [0x65, 1, 2, 3, 4, 5]]" "list_all nal_single [[0x67, 0x42], [0x65, 1, 2, 3, 4, 5]]"
  by code_simp+

definition example_link_client :: StreamClient where
  "example_link_client = example_rtp_client\<lparr>sc_config := ClientConfig_default\<lparr>cc_transport := ''rtp'', cc_host := ''127.0.0.1'',
     cc_port := 6000, cc_sdp_path := ''stream.sdp'', cc_rtp_payload_type := 96, cc_rtp_clock_rate := 90000,
     cc_udp_jitter_buffer_enabled := False\<rparr>\<rparr>"

lemma example_rtp_config_ok: "rtp_config_ok (ac_transport example_config)"
  using Validate_rtp(1) [OF LoadFromFile_ok(2) _ _ LoadFromFile_ok(1)] example_config_loads by auto

definition example_client_config :: ClientConfig where
  "example_client_config = ClientConfig_default\<lparr>cc_sdp_path := ''stream.sdp'', cc_udp_jitter_buffer_enabled := False\<rparr>"

theorem sdp_round_trip_witness:
  "apply_session_description [''stream.sdp'' \<mapsto> example_sdp] example_client_config = Inr (sc_config example_link_client)"
proof -
  have w: "WriteSdpFile (\<lambda>_. True) example_stopped = (Some (''sserver_rtp.sdp'', example_sdp), True)"
    by (simp add: WriteSdpFile_def example_sdp_path example_sdp_def)
  have "rtp_config_ok (rb_config example_stopped)" using example_rtp_config_ok by simp
  from sdp_round_trip [OF this w, of "[''stream.sdp'' \<mapsto> example_sdp]" example_client_config] show ?thesis
    by (simp add: example_client_config_def example_link_client_def)
      (simp add: ClientConfig_default_def example_config_def TransportConfig_default_def)
qed

lemma example_description_applied:
  "apply_session_description [''stream.sdp'' \<mapsto> example_sdp] example_client_config = Inr (sc_config example_link_client)"
  using sdp_text_parse [OF example_rtp_config_ok]
  by (simp add: apply_session_description_def LoadRtpVideoSessionDescription_def example_sdp_def
      example_client_config_def example_link_client_def)
    (simp add: ClientConfig_default_def example_config_def TransportConfig_default_def)


theorem start_rtp_all_or_nothing_witness:
  "ready_rtp (new_packetizer (id, 0) (ac_transport example_config)) example_running \<and>
   no_resources_rtp (stop_rtp example_running)"
  using start_rtp_all_or_nothing [OF _ example_start_eq] by simp

text \<open>A kernel that refuses the third packet.\<close>

definition example_refusing :: RtpStreamingBackend where
  "example_refusing = example_running\<lparr>rb_packetizer := Some example_packetizer,
     rb_env := example_rtp_env\<lparr>re_sendto := (\<lambda>n packet. if n = 2 then - 1 else int (length packet))\<rparr>\<rparr>"

lemma example_running_simps:
  "rb_config example_running = ac_transport example_config" "ready_rtp (new_packetizer (id, 0) (ac_transport example_config)) example_running"
  "rb_sent_packets example_running = 0" "rb_failed_frames example_running = 0" "rb_sent_frames example_running = 0"
proof -
  show "rb_config example_running = ac_transport example_config"
    "ready_rtp (new_packetizer (id, 0) (ac_transport example_config)) example_running"
    using start_rtp_running(1,2) [OF example_start_eq] by simp_all
  show "rb_sent_packets example_running = 0" "rb_failed_frames example_running = 0" "rb_sent_frames example_running = 0"
    by (simp_all add: example_running_def start_rtp_def ConfigureRemoteAddress_def OpenSocket_rtp_def WriteSdpFile_def
        Let_def example_sdp_path)
      (simp_all add: example_stopped_def initialize_rtp_def RtpStreamingBackend_new_def)
qed

lemma example_refusing_fits: "packetizer_fits (rb_config example_refusing) example_packetizer"
  by (simp add: packetizer_fits_def example_refusing_def example_running_simps example_packetizer_def)
    (simp add: example_config_def TransportConfig_default_def)

lemma example_refusing_ready: "ready_rtp example_packetizer example_refusing"
  using example_running_simps(1,2) by (simp add: ready_rtp_def example_refusing_def)

theorem Broadcast_rtp_sends_prefix_witness:
  "\<exists>packets stamps n. length packets = 4 \<and> length stamps = n \<and> n \<le> 4 \<and>
     re_sent (rb_env (Broadcast_rtp (Some example_stream) example_refusing)) =
       map (Pair (rb_remote_address example_running)) (map2 stamp_packet stamps (take n packets)) \<and>
     rb_sent_packets (Broadcast_rtp (Some example_stream) example_refusing) = of_nat n"
proof -
  obtain p' packets where pk: "Packetize example_packetizer (Some example_stream) = (p', Inr packets)" "length packets = 4"
    using example_stream_packets
    by (cases "Packetize example_packetizer (Some example_stream)") (auto split: sum.splits)
  have e: "re_sent (rb_env example_refusing) = []" "rb_sent_packets example_refusing = 0"
    "rb_remote_address example_refusing = rb_remote_address example_running"
    by (simp_all add: example_refusing_def example_rtp_env_def example_running_simps)
  show ?thesis
    using Broadcast_rtp_sends_prefix [OF example_refusing_ready example_refusing_fits pk(1)]
    unfolding e by (intro exI [of _ packets]) (auto simp: pk(2))
qed

text \<open>Five packets of a frame whose predecessor is unknown, at 30 frames a second: half a millisecond
  apart; the third has to wait until 1 ms after the start.\<close>

definition example_paced :: RtpStreamingBackend where
  "example_paced = (RtpStreamingBackend_new None example_rtp_env)\<lparr>rb_fallback_frame_interval_ns := 33333333\<rparr>"

theorem pacing_bounded_witness:
  "\<exists>b' wait. ComputePacingInterval 5 7 example_paced = (b', 500000) \<and>
     re_sleeps (PacePacketBurst 2 1000 500000 example_rtp_env) = [wait] \<and> 0 < wait \<and> wait \<le> 2000000"
proof -
  have "interval_of 5 33333333 = 500000" by code_simp
  then have c: "ComputePacingInterval 5 7 example_paced = (example_paced\<lparr>rb_previous_frame_capture_timestamp_ns := 7\<rparr>, 500000)"
    by (simp add: ComputePacingInterval_def measured_interval_def example_paced_def RtpStreamingBackend_new_def)
  have s: "re_sleeps (PacePacketBurst 2 1000 500000 example_rtp_env) = [1000000]"
    by (simp add: PacePacketBurst_def rtp_now_def example_rtp_env_def)
  show ?thesis
    using pacing_bounded [OF c, of 2 1000 example_rtp_env] c s by (auto simp: example_rtp_env_def)
qed

end
