(* ===== verification/Application.thy ===== *)
theory Application
  imports Config_Loader
begin

section \<open>The application and its modules\<close>

text \<open>
  \<^verbatim>\<open>sserver/src/core/Application.cpp\<close> over the interface \<^verbatim>\<open>IModule\<close>: the modules are named by identifiers
  \<^verbatim>\<open>'i\<close>, the objects behind the pointers live in a state \<^verbatim>\<open>'s\<close>, and the record \<open>module_interface\<close> holds the virtual
  functions. The locale \<open>module_contract\<close> is what the application relies on: the life cycle of one module;
  its lemmas follow the phases of all modules through every call of the application. It is
  interpreted here on the log of the calls, and on the two modules of the server where these are put together.
\<close>

subsection \<open>Modules and application\<close>

record ('i, 's) module_interface =
  im_initialize :: "'i \<Rightarrow> AppConfig \<Rightarrow> 's \<Rightarrow> 's \<times> bool"
  im_start :: "'i \<Rightarrow> 's \<Rightarrow> 's \<times> bool"
  im_stop :: "'i \<Rightarrow> 's \<Rightarrow> 's"
  im_shutdown :: "'i \<Rightarrow> 's \<Rightarrow> 's"

record 'i Application =
  ap_context :: AppConfig
  ap_modules :: "'i list"
  ap_initialized :: bool
  ap_running :: bool

definition Application_new :: "AppConfig \<Rightarrow> 'i Application" where
  "Application_new config = \<lparr>ap_context = config, ap_modules = [], ap_initialized = False, ap_running = False\<rparr>"

definition RegisterModule :: "'i \<Rightarrow> 'i Application \<Rightarrow> 'i Application" where
  "RegisterModule i a = a\<lparr>ap_modules := ap_modules a @ [i]\<rparr>"

text \<open>The loops over the modules; \<open>finished\<close> holds those already done, the latest first, as the roll-back
  takes them.\<close>

fun initialize_modules :: "('i, 's) module_interface \<Rightarrow> AppConfig \<Rightarrow> 'i list \<Rightarrow> 'i list \<Rightarrow> 's \<Rightarrow> 's \<times> bool" where
  "initialize_modules I context finished [] s = (s, True)"
| "initialize_modules I context finished (i # rest) s =
     (case im_initialize I i context s of
        (s, False) \<Rightarrow> (fold (im_shutdown I) finished s, False)
      | (s, True) \<Rightarrow> initialize_modules I context (i # finished) rest s)"

fun start_modules :: "('i, 's) module_interface \<Rightarrow> 'i list \<Rightarrow> 'i list \<Rightarrow> 's \<Rightarrow> 's \<times> bool" where
  "start_modules I finished [] s = (s, True)"
| "start_modules I finished (i # rest) s =
     (case im_start I i s of
        (s, False) \<Rightarrow> (fold (im_stop I) finished s, False)
      | (s, True) \<Rightarrow> start_modules I (i # finished) rest s)"

definition InitializeAllModules :: "('i, 's) module_interface \<Rightarrow> 'i Application \<Rightarrow> 's \<Rightarrow> 's \<times> bool" where
  "InitializeAllModules I a s = initialize_modules I (ap_context a) [] (ap_modules a) s"

definition StartAllModules :: "('i, 's) module_interface \<Rightarrow> 'i Application \<Rightarrow> 's \<Rightarrow> 's \<times> bool" where
  "StartAllModules I a s = start_modules I [] (ap_modules a) s"

definition StopAllModules :: "('i, 's) module_interface \<Rightarrow> 'i Application \<Rightarrow> 's \<Rightarrow> 's" where
  "StopAllModules I a s = fold (im_stop I) (rev (ap_modules a)) s"

definition ShutdownAllModules :: "('i, 's) module_interface \<Rightarrow> 'i Application \<Rightarrow> 's \<Rightarrow> 's" where
  "ShutdownAllModules I a s = fold (im_shutdown I) (rev (ap_modules a)) s"

definition Application_Initialize ::
  "('i, 's) module_interface \<Rightarrow> 'i Application \<times> 's \<Rightarrow> ('i Application \<times> 's) \<times> bool" where
  "Application_Initialize I app = (case app of (a, s) \<Rightarrow>
     if ap_initialized a then ((a, s), True)
     else case InitializeAllModules I a s of (s, ok) \<Rightarrow> ((a\<lparr>ap_initialized := ok\<rparr>, s), ok))"

definition Application_Start ::
  "('i, 's) module_interface \<Rightarrow> 'i Application \<times> 's \<Rightarrow> ('i Application \<times> 's) \<times> bool" where
  "Application_Start I app =
     (case (if ap_initialized (fst app) then (app, True) else Application_Initialize I app) of
        (app, False) \<Rightarrow> (app, False)
      | ((a, s), True) \<Rightarrow>
          if ap_running a then ((a, s), True)
          else case StartAllModules I a s of (s, ok) \<Rightarrow> ((a\<lparr>ap_running := ok\<rparr>, s), ok))"

definition Application_Stop :: "('i, 's) module_interface \<Rightarrow> 'i Application \<times> 's \<Rightarrow> 'i Application \<times> 's" where
  "Application_Stop I app = (case app of (a, s) \<Rightarrow>
     if \<not> ap_running a then (a, s) else (a\<lparr>ap_running := False\<rparr>, StopAllModules I a s))"

definition Application_Shutdown :: "('i, 's) module_interface \<Rightarrow> 'i Application \<times> 's \<Rightarrow> 'i Application \<times> 's" where
  "Application_Shutdown I app = (case Application_Stop I app of (a, s) \<Rightarrow>
     if \<not> ap_initialized a then (a, s) else (a\<lparr>ap_initialized := False\<rparr>, ShutdownAllModules I a s))"

lemmas application_ops = Application_Initialize_def Application_Start_def Application_Stop_def Application_Shutdown_def
  InitializeAllModules_def StartAllModules_def StopAllModules_def ShutdownAllModules_def

text \<open>What every call of a module keeps, the application keeps.\<close>

definition keeps :: "('i, 's) module_interface \<Rightarrow> ('s \<Rightarrow> bool) \<Rightarrow> bool" where
  "keeps I P \<longleftrightarrow> (\<forall>i context s. P s \<longrightarrow> P (fst (im_initialize I i context s)) \<and> P (fst (im_start I i s)) \<and>
     P (im_stop I i s) \<and> P (im_shutdown I i s))"

lemma fold_keeps:
  assumes "keeps I P" "P s"
  shows "P (fold (im_stop I) is s)" "P (fold (im_shutdown I) is s)"
  using assms(2) by (induction "is" arbitrary: s) (auto simp: assms(1) [unfolded keeps_def])

lemma initialize_modules_keeps: "keeps I P \<Longrightarrow> P s \<Longrightarrow> P (fst (initialize_modules I cfg finished rest s))"
proof (induction I cfg finished rest s rule: initialize_modules.induct)
  case (2 I cfg finished i rest s)
  obtain s1 ok where s1: "im_initialize I i cfg s = (s1, ok)" by fastforce
  then have "P s1" using 2(2,3) unfolding keeps_def by (metis fst_conv)
  then show ?case using 2(1) [OF s1 [symmetric]] 2(2) s1 fold_keeps [of I P s1] by (cases ok) auto
qed simp

lemma start_modules_keeps: "keeps I P \<Longrightarrow> P s \<Longrightarrow> P (fst (start_modules I finished rest s))"
proof (induction I finished rest s rule: start_modules.induct)
  case (2 I finished i rest s)
  obtain s1 ok where s1: "im_start I i s = (s1, ok)" by fastforce
  then have "P s1" using 2(2,3) unfolding keeps_def by (metis fst_conv)
  then show ?case using 2(1) [OF s1 [symmetric]] 2(2) s1 fold_keeps [of I P s1] by (cases ok) auto
qed simp

lemma Application_keeps:
  assumes "keeps I P" "P (snd app)"
  shows "P (snd (fst (Application_Initialize I app)))" "P (snd (fst (Application_Start I app)))"
    "P (snd (Application_Stop I app))" "P (snd (Application_Shutdown I app))"
proof -
  have init: "P (snd (fst (Application_Initialize I app)))"
    using assms initialize_modules_keeps [OF assms(1)] by (simp add: application_ops split_beta)
  then show "P (snd (fst (Application_Initialize I app)))" .
  show "P (snd (fst (Application_Start I app)))"
    using assms init start_modules_keeps [OF assms(1)]
    by (auto simp: Application_Start_def StartAllModules_def split_beta split: bool.split)
  show stop: "P (snd (Application_Stop I app))"
    using assms fold_keeps(1) [OF assms(1)] by (simp add: application_ops split_beta)
  show "P (snd (Application_Shutdown I app))"
    using stop fold_keeps(2) [OF assms(1)] by (simp add: Application_Shutdown_def ShutdownAllModules_def split_beta)
qed

subsection \<open>The life cycle the application keeps\<close>

datatype phase = Down | Ready | Up | Misused

locale module_contract =
  fixes I :: "('i, 's) module_interface"
    and in_phase :: "phase \<Rightarrow> 'i \<Rightarrow> 's \<Rightarrow> bool"
    and good :: "'s \<Rightarrow> bool"
  assumes initializes: "good s \<Longrightarrow> in_phase Down i s \<Longrightarrow> im_initialize I i context s = (s', ok) \<Longrightarrow>
      good s' \<and> in_phase (if ok then Ready else Down) i s' \<and> (\<forall>j p. j \<noteq> i \<longrightarrow> in_phase p j s \<longrightarrow> in_phase p j s')"
    and starts: "good s \<Longrightarrow> in_phase Ready i s \<Longrightarrow> im_start I i s = (s', ok) \<Longrightarrow>
      good s' \<and> in_phase (if ok then Up else Ready) i s' \<and> (\<forall>j p. j \<noteq> i \<longrightarrow> in_phase p j s \<longrightarrow> in_phase p j s')"
    and stops: "good s \<Longrightarrow> in_phase Up i s \<Longrightarrow>
      good (im_stop I i s) \<and> in_phase Ready i (im_stop I i s) \<and> (\<forall>j p. j \<noteq> i \<longrightarrow> in_phase p j s \<longrightarrow> in_phase p j (im_stop I i s))"
    and shuts_down: "good s \<Longrightarrow> in_phase Ready i s \<Longrightarrow>
      good (im_shutdown I i s) \<and> in_phase Down i (im_shutdown I i s) \<and>
      (\<forall>j p. j \<noteq> i \<longrightarrow> in_phase p j s \<longrightarrow> in_phase p j (im_shutdown I i s))"
begin

text \<open>All modules of a list are in one phase.\<close>

definition all_in :: "phase \<Rightarrow> 'i list \<Rightarrow> 's \<Rightarrow> bool" where
  "all_in p modules s \<longleftrightarrow> (\<forall>i\<in>set modules. in_phase p i s)"

definition same_outside :: "'i list \<Rightarrow> 's \<Rightarrow> 's \<Rightarrow> bool" where
  "same_outside modules s s' \<longleftrightarrow> (\<forall>i p. i \<notin> set modules \<longrightarrow> in_phase p i s \<longrightarrow> in_phase p i s')"

lemma all_in_simps [simp]:
  "all_in p [] s" "all_in p (i # modules) s \<longleftrightarrow> in_phase p i s \<and> all_in p modules s"
  "all_in p (xs @ ys) s \<longleftrightarrow> all_in p xs s \<and> all_in p ys s" "all_in p (rev xs) s = all_in p xs s"
  by (auto simp: all_in_def)

lemma all_in_other: "all_in p modules s \<Longrightarrow> i \<notin> set modules \<Longrightarrow> (\<forall>j p. j \<noteq> i \<longrightarrow> in_phase p j s \<longrightarrow> in_phase p j s') \<Longrightarrow> all_in p modules s'"
  by (auto simp: all_in_def)

lemma fold_moves:
  assumes move: "\<And>i s. good s \<Longrightarrow> in_phase p i s \<Longrightarrow> good (f i s) \<and> in_phase q i (f i s) \<and> (\<forall>j p. j \<noteq> i \<longrightarrow> in_phase p j s \<longrightarrow> in_phase p j (f i s))"
    and "good s" "distinct modules" "all_in p modules s"
  shows "good (fold f modules s) \<and> all_in q modules (fold f modules s) \<and> same_outside modules s (fold f modules s)"
  using assms(2-4)
proof (induction modules arbitrary: s)
  case (Cons i modules)
  note m = move [of s i]
  have "good (f i s)" "all_in p modules (f i s)" using m Cons.prems all_in_other [of p modules s i "f i s"] by auto
  then show ?case using Cons.IH [of "f i s"] Cons.prems m by (auto simp: same_outside_def)
qed (simp add: same_outside_def)

lemma initialize_modules_moves:
  assumes "good s" "distinct (finished @ rest)" "all_in Ready finished s" "all_in Down rest s"
    "initialize_modules I context finished rest s = (s', ok)"
  shows "good s' \<and> all_in (if ok then Ready else Down) (finished @ rest) s' \<and> same_outside (finished @ rest) s s'"
  using assms
proof (induction rest arbitrary: finished s)
  case (Cons i rest)
  obtain s1 ok1 where s1: "im_initialize I i context s = (s1, ok1)" by fastforce
  note m = initializes [OF Cons.prems(1) _ s1]
  have k: "good s1" "in_phase (if ok1 then Ready else Down) i s1" "all_in Ready finished s1" "all_in Down rest s1"
    "\<forall>j p. j \<noteq> i \<longrightarrow> in_phase p j s \<longrightarrow> in_phase p j s1"
    using m Cons.prems all_in_other [of Ready finished s i s1] all_in_other [of Down rest s i s1] by auto
  show ?case
  proof (cases ok1)
    case True
    then have "initialize_modules I context (i # finished) rest s1 = (s', ok)" using Cons.prems(5) s1 by simp
    moreover have "distinct ((i # finished) @ rest)" using Cons.prems(2) by auto
    ultimately show ?thesis using Cons.IH [of s1 "i # finished"] k True by (auto simp: same_outside_def)
  next
    case False
    then have s': "s' = fold (im_shutdown I) finished s1" "\<not> ok" using Cons.prems(5) s1 by auto
    have "good s' \<and> all_in Down finished s' \<and> same_outside finished s1 s'"
      unfolding s' by (rule fold_moves) (use shuts_down k Cons.prems(2) in auto)
    then show ?thesis using k False s'(2) Cons.prems(2) by (auto simp: same_outside_def all_in_def)
  qed
qed (simp add: same_outside_def)

lemma start_modules_moves:
  assumes "good s" "distinct (finished @ rest)" "all_in Up finished s" "all_in Ready rest s"
    "start_modules I finished rest s = (s', ok)"
  shows "good s' \<and> all_in (if ok then Up else Ready) (finished @ rest) s' \<and> same_outside (finished @ rest) s s'"
  using assms
proof (induction rest arbitrary: finished s)
  case (Cons i rest)
  obtain s1 ok1 where s1: "im_start I i s = (s1, ok1)" by fastforce
  note m = starts [OF Cons.prems(1) _ s1]
  have k: "good s1" "in_phase (if ok1 then Up else Ready) i s1" "all_in Up finished s1" "all_in Ready rest s1"
    "\<forall>j p. j \<noteq> i \<longrightarrow> in_phase p j s \<longrightarrow> in_phase p j s1"
    using m Cons.prems all_in_other [of Up finished s i s1] all_in_other [of Ready rest s i s1] by auto
  show ?case
  proof (cases ok1)
    case True
    then have "start_modules I (i # finished) rest s1 = (s', ok)" using Cons.prems(5) s1 by simp
    moreover have "distinct ((i # finished) @ rest)" using Cons.prems(2) by auto
    ultimately show ?thesis using Cons.IH [of s1 "i # finished"] k True by (auto simp: same_outside_def)
  next
    case False
    then have s': "s' = fold (im_stop I) finished s1" "\<not> ok" using Cons.prems(5) s1 by auto
    have "good s' \<and> all_in Ready finished s' \<and> same_outside finished s1 s'"
      unfolding s' by (rule fold_moves) (use stops k Cons.prems(2) in auto)
    then show ?thesis using k False s'(2) Cons.prems(2) by (auto simp: same_outside_def all_in_def)
  qed
qed (simp add: same_outside_def)

text \<open>The phase of every module follows the two flags of the application.\<close>

definition app_inv :: "'i Application \<times> 's \<Rightarrow> bool" where
  "app_inv app \<longleftrightarrow> (case app of (a, s) \<Rightarrow>
     good s \<and> distinct (ap_modules a) \<and> (ap_running a \<longrightarrow> ap_initialized a) \<and>
     all_in (if ap_running a then Up else if ap_initialized a then Ready else Down) (ap_modules a) s)"

lemma app_inv_RegisterModule:
  "app_inv (a, s) \<Longrightarrow> \<not> ap_initialized a \<Longrightarrow> i \<notin> set (ap_modules a) \<Longrightarrow> in_phase Down i s \<Longrightarrow>
   app_inv (RegisterModule i a, s)"
  by (auto simp: app_inv_def RegisterModule_def)

lemma app_inv_Initialize:
  assumes "app_inv app" "Application_Initialize I app = (app', ok)"
  shows "app_inv app' \<and> ap_initialized (fst app') = ok \<and> ap_modules (fst app') = ap_modules (fst app)"
proof -
  obtain a s where app: "app = (a, s)" by fastforce
  show ?thesis
  proof (cases "ap_initialized a")
    case False
    obtain s' ok' where r: "initialize_modules I (ap_context a) [] (ap_modules a) s = (s', ok')" by fastforce
    have "good s' \<and> all_in (if ok' then Ready else Down) (ap_modules a) s'"
      using initialize_modules_moves [OF _ _ _ _ r] assms(1) False by (auto simp: app app_inv_def)
    then show ?thesis using assms False r by (auto simp: app app_inv_def application_ops)
  qed (use assms in \<open>auto simp: app application_ops\<close>)
qed

lemma app_inv_Start:
  assumes "app_inv app" "Application_Start I app = (app', ok)"
  shows "app_inv app' \<and> ap_running (fst app') = ok \<and> ap_modules (fst app') = ap_modules (fst app)"
proof -
  obtain app1 ok1 where one: "(if ap_initialized (fst app) then (app, True) else Application_Initialize I app) = (app1, ok1)"
    by fastforce
  obtain a s where app1: "app1 = (a, s)" by fastforce
  have k: "app_inv app1" "ap_initialized a = ok1" "ap_modules a = ap_modules (fst app)"
    using one assms(1) app_inv_Initialize [of app app1 ok1] by (auto simp: app1 split: if_splits)
  show ?thesis
  proof (cases "ok1 \<and> \<not> ap_running a")
    case True
    obtain s' ok' where r: "start_modules I [] (ap_modules a) s = (s', ok')" by fastforce
    have "good s' \<and> all_in (if ok' then Up else Ready) (ap_modules a) s'"
      using start_modules_moves [OF _ _ _ _ r] k True by (auto simp: app1 app_inv_def)
    moreover have "app' = (a\<lparr>ap_running := ok'\<rparr>, s')" "ok = ok'"
      using assms(2) r one True by (auto simp: Application_Start_def StartAllModules_def app1)
    ultimately show ?thesis using k True by (auto simp: app1 app_inv_def)
  next
    case False
    then have "app' = app1" "ok = ok1" "ok1 \<longrightarrow> ap_running a"
      using assms(2) one by (auto simp: Application_Start_def app1 split: bool.splits)
    then show ?thesis using k False by (auto simp: app1 app_inv_def)
  qed
qed

lemma app_inv_Stop:
  assumes "app_inv app"
  shows "app_inv (Application_Stop I app) \<and> \<not> ap_running (fst (Application_Stop I app)) \<and>
    ap_modules (fst (Application_Stop I app)) = ap_modules (fst app)"
proof -
  obtain a s where app: "app = (a, s)" by fastforce
  show ?thesis
  proof (cases "ap_running a")
    case True
    have "good (StopAllModules I a s) \<and> all_in Ready (rev (ap_modules a)) (StopAllModules I a s)"
      using fold_moves [of Up "im_stop I" Ready s "rev (ap_modules a)"] stops assms True
      by (simp add: StopAllModules_def app app_inv_def)
    then show ?thesis using assms True by (auto simp: app app_inv_def Application_Stop_def)
  qed (use assms in \<open>simp add: app Application_Stop_def\<close>)
qed

lemma app_inv_Shutdown:
  assumes "app_inv app" "Application_Shutdown I app = (a', s')"
  shows "app_inv (a', s') \<and> \<not> ap_running a' \<and> \<not> ap_initialized a' \<and> ap_modules a' = ap_modules (fst app) \<and>
    all_in Down (ap_modules a') s'"
proof -
  obtain a s where app1: "Application_Stop I app = (a, s)" by fastforce
  have k: "app_inv (a, s)" "\<not> ap_running a" "ap_modules a = ap_modules (fst app)" using app_inv_Stop [OF assms(1)] app1 by auto
  show ?thesis
  proof (cases "ap_initialized a")
    case True
    have "good (ShutdownAllModules I a s) \<and> all_in Down (rev (ap_modules a)) (ShutdownAllModules I a s)"
      using fold_moves [of Ready "im_shutdown I" Down s "rev (ap_modules a)"] shuts_down k True
      by (simp add: ShutdownAllModules_def app_inv_def)
    then show ?thesis using assms(2) k True app1 by (auto simp: app_inv_def Application_Shutdown_def)
  next
    case False
    then have "a' = a" "s' = s" using assms(2) app1 by (auto simp: Application_Shutdown_def)
    then show ?thesis using k False by (auto simp: app_inv_def)
  qed
qed

end

subsection \<open>The calls a module sees\<close>

text \<open>A world that answers calls and writes them down: \<open>answer\<close> is the result of the n-th call.\<close>

datatype life_call = InitializeCall bool | StartCall bool | StopCall | ShutdownCall

fun next_phase :: "life_call \<Rightarrow> phase \<Rightarrow> phase" where
  "next_phase (InitializeCall ok) Down = (if ok then Ready else Down)"
| "next_phase (StartCall ok) Ready = (if ok then Up else Ready)"
| "next_phase StopCall Up = Ready"
| "next_phase ShutdownCall Ready = Down"
| "next_phase call p = Misused"

definition phase_after :: "'i \<Rightarrow> ('i \<times> life_call) list \<Rightarrow> phase" where
  "phase_after i trace = fold next_phase (map snd (filter (\<lambda>c. fst c = i) trace)) Down"

definition logging :: "(nat \<Rightarrow> bool) \<Rightarrow> ('i, ('i \<times> life_call) list) module_interface" where
  "logging answer =
     \<lparr>im_initialize = (\<lambda>i context trace. (trace @ [(i, InitializeCall (answer (length trace)))], answer (length trace))),
      im_start = (\<lambda>i trace. (trace @ [(i, StartCall (answer (length trace)))], answer (length trace))),
      im_stop = (\<lambda>i trace. trace @ [(i, StopCall)]),
      im_shutdown = (\<lambda>i trace. trace @ [(i, ShutdownCall)])\<rparr>"

lemma phase_after_snoc: "phase_after i (trace @ [(j, call)]) = (if i = j then next_phase call (phase_after i trace) else phase_after i trace)"
  by (simp add: phase_after_def)

interpretation logging: module_contract "logging answer" "\<lambda>p i trace. phase_after i trace = p" "\<lambda>trace. True" for answer
  by unfold_locales (auto simp: logging_def phase_after_snoc)

text \<open>Any calls on an application whose modules were registered first.\<close>

datatype app_call = CallInitialize | CallStart | CallStop | CallShutdown

definition app_call :: "('i, 's) module_interface \<Rightarrow> app_call \<Rightarrow> 'i Application \<times> 's \<Rightarrow> 'i Application \<times> 's" where
  "app_call I call app = (case call of
       CallInitialize \<Rightarrow> fst (Application_Initialize I app)
     | CallStart \<Rightarrow> fst (Application_Start I app)
     | CallStop \<Rightarrow> Application_Stop I app
     | CallShutdown \<Rightarrow> Application_Shutdown I app)"

definition registered :: "AppConfig \<Rightarrow> 'i list \<Rightarrow> 'i Application" where
  "registered config modules = fold RegisterModule modules (Application_new config)"

lemma RegisterModule_fold: "fold RegisterModule modules a = a\<lparr>ap_modules := ap_modules a @ modules\<rparr>"
  by (induction modules arbitrary: a) (simp_all add: RegisterModule_def)

lemma registered_simps [simp]:
  "ap_context (registered config modules) = config" "ap_modules (registered config modules) = modules"
  "\<not> ap_initialized (registered config modules)" "\<not> ap_running (registered config modules)"
  by (simp_all add: registered_def RegisterModule_fold Application_new_def)

lemma app_calls_inv:
  fixes modules :: "'i list"
  assumes "distinct modules" "fold (app_call (logging answer)) calls (registered config modules, []) = (a, trace)"
  shows "logging.app_inv (a, trace) \<and> ap_modules a = modules"
  using assms(2)
proof (induction calls arbitrary: a trace rule: rev_induct)
  case Nil
  have "phase_after i [] = Down" for i :: 'i by (simp add: phase_after_def)
  then show ?case using Nil assms(1) by (auto simp: logging.app_inv_def logging.all_in_def)
next
  case (snoc call calls)
  obtain a1 trace1 where f: "fold (app_call (logging answer)) calls (registered config modules, []) = (a1, trace1)" by fastforce
  have IH: "logging.app_inv (a1, trace1) \<and> ap_modules a1 = modules" by (rule snoc.IH [OF f])
  have c: "app_call (logging answer) call (a1, trace1) = (a, trace)" using snoc.prems f by simp
  show ?case
  proof (cases call)
    case CallInitialize
    then show ?thesis
      using c IH logging.app_inv_Initialize [of "(a1, trace1)" answer "(a, trace)" "snd (Application_Initialize (logging answer) (a1, trace1))"]
      by (simp add: app_call_def prod_eq_iff)
  next
    case CallStart
    then show ?thesis
      using c IH logging.app_inv_Start [of "(a1, trace1)" answer "(a, trace)" "snd (Application_Start (logging answer) (a1, trace1))"]
      by (simp add: app_call_def prod_eq_iff)
  next
    case CallStop
    then show ?thesis using c IH logging.app_inv_Stop [of "(a1, trace1)" answer] by (simp add: app_call_def)
  next
    case CallShutdown
    then show ?thesis using c IH logging.app_inv_Shutdown [of "(a1, trace1)" answer a trace] by (simp add: app_call_def)
  qed
qed

text \<open>C15: Whatever the modules answer and in whatever order the application is initialised, started, stopped and
  shut down, every module sees a legal life: it is started only when initialised, stopped only when
  started, shut down only when initialised and not running; after \<open>Shutdown\<close> every module is back where
  it began.\<close>

theorem modules_see_legal_lives:
  assumes "distinct modules" "i \<in> set modules"
    "fold (app_call (logging answer)) calls (registered config modules, []) = (a, trace)"
  shows "phase_after i trace = (if ap_running a then Up else if ap_initialized a then Ready else Down) \<and>
    phase_after i (snd (Application_Shutdown (logging answer) (a, trace))) = Down"
proof -
  have inv: "logging.app_inv (a, trace)" "ap_modules a = modules" using app_calls_inv [OF assms(1,3)] by auto
  obtain a' trace' where s: "Application_Shutdown (logging answer) (a, trace) = (a', trace')" by fastforce
  have "phase_after i trace' = Down"
    using logging.app_inv_Shutdown [OF inv(1) s] inv(2) assms(2) by (auto simp: logging.all_in_def)
  moreover have "phase_after i trace = (if ap_running a then Up else if ap_initialized a then Ready else Down)"
    using inv assms(2) by (auto simp: logging.app_inv_def logging.all_in_def)
  ultimately show ?thesis using s by simp
qed

text \<open>The order of the calls: the answers decide how far the loops get, \<open>k\<close> being the first module that fails.\<close>

lemma fold_trace:
  "fold (im_stop (logging answer)) is trace = trace @ map (\<lambda>i. (i, StopCall)) is"
  "fold (im_shutdown (logging answer)) is trace = trace @ map (\<lambda>i. (i, ShutdownCall)) is"
  by (induction "is" arbitrary: trace) (simp_all add: logging_def)

definition granted :: "(nat \<Rightarrow> bool) \<Rightarrow> nat \<Rightarrow> nat \<Rightarrow> nat" where
  "granted answer n count = length (takeWhile answer [n..<n + count])"

lemma granted_simps [simp]:
  "granted answer n 0 = 0"
  "granted answer n (Suc count) = (if answer n then Suc (granted answer (Suc n) count) else 0)"
  by (simp_all add: granted_def upt_conv_Cons del: upt_Suc)

lemma granted_le: "granted answer n count \<le> count"
  by (induction count arbitrary: n) simp_all

definition initialized_trace :: "(nat \<Rightarrow> bool) \<Rightarrow> nat \<Rightarrow> 'i list \<Rightarrow> 'i list \<Rightarrow> ('i \<times> life_call) list" where
  "initialized_trace answer n finished modules = (let k = granted answer n (length modules) in
     map (\<lambda>i. (i, InitializeCall True)) (take k modules) @
     (if k = length modules then []
      else (modules ! k, InitializeCall False) # map (\<lambda>i. (i, ShutdownCall)) (rev (take k modules) @ finished)))"

definition started_trace :: "(nat \<Rightarrow> bool) \<Rightarrow> nat \<Rightarrow> 'i list \<Rightarrow> 'i list \<Rightarrow> ('i \<times> life_call) list" where
  "started_trace answer n finished modules = (let k = granted answer n (length modules) in
     map (\<lambda>i. (i, StartCall True)) (take k modules) @
     (if k = length modules then []
      else (modules ! k, StartCall False) # map (\<lambda>i. (i, StopCall)) (rev (take k modules) @ finished)))"

lemma initialize_modules_trace:
  "initialize_modules (logging answer) context finished rest trace =
     (trace @ initialized_trace answer (length trace) finished rest,
      granted answer (length trace) (length rest) = length rest)"
proof (induction rest arbitrary: finished trace)
  case (Cons i rest)
  have call: "im_initialize (logging answer) i context trace =
      (trace @ [(i, InitializeCall (answer (length trace)))], answer (length trace))" by (simp add: logging_def)
  show ?case
    using Cons.IH [of "i # finished" "trace @ [(i, InitializeCall True)]"]
    by (cases "answer (length trace)") (simp_all add: call fold_trace initialized_trace_def Let_def)
qed (simp add: initialized_trace_def)

lemma start_modules_trace:
  "start_modules (logging answer) finished rest trace =
     (trace @ started_trace answer (length trace) finished rest,
      granted answer (length trace) (length rest) = length rest)"
proof (induction rest arbitrary: finished trace)
  case (Cons i rest)
  have call: "im_start (logging answer) i trace = (trace @ [(i, StartCall (answer (length trace)))], answer (length trace))"
    by (simp add: logging_def)
  show ?case
    using Cons.IH [of "i # finished" "trace @ [(i, StartCall True)]"]
    by (cases "answer (length trace)") (simp_all add: call fold_trace started_trace_def Let_def)
qed (simp add: started_trace_def)

text \<open>C34: A start from scratch initialises the modules in the order of their registration and then starts them in
  that order; where one fails, exactly those before it are undone, the latest first, and the start
  fails. A later shutdown stops all and then shuts all down, in the reverse order.\<close>

theorem start_up_and_roll_back_order:
  "(let n = length modules; initialized = initialized_trace answer 0 [] modules; started = started_trace answer n [] modules;
        ready = (granted answer 0 n = n); up = (ready \<and> granted answer n n = n);
        (app, ok) = Application_Start (logging answer) (registered config modules, []) in
     ok = up \<and> snd app = (if ready then initialized @ started else initialized) \<and>
     snd (Application_Shutdown (logging answer) app) = snd app @
       (if up then map (\<lambda>i. (i, StopCall)) (rev modules) else []) @
       (if ready then map (\<lambda>i. (i, ShutdownCall)) (rev modules) else []))"
proof -
  have len: "granted answer 0 (length modules) = length modules \<Longrightarrow> length (initialized_trace answer 0 [] modules) = length modules"
    by (simp add: initialized_trace_def)
  show ?thesis
    by (cases "granted answer 0 (length modules) = length modules"; cases "granted answer (length modules) (length modules) = length modules")
      (simp_all add: application_ops Let_def initialize_modules_trace start_modules_trace fold_trace len)
qed

theorem modules_see_legal_lives_witness:
  "phase_after (2 :: nat) (snd (Application_Shutdown (logging (\<lambda>n. n \<noteq> 3)) (fold (app_call (logging (\<lambda>n. n \<noteq> 3))) [CallStart]
     (registered CreateDefault [1, 2], [])))) = Down \<and>
   snd (fold (app_call (logging (\<lambda>n. n \<noteq> 3))) [CallStart] (registered CreateDefault [1, 2 :: nat], [])) =
     [(1, InitializeCall True), (2, InitializeCall True), (1, StartCall True), (2, StartCall False), (1, StopCall)]"
proof -
  have t: "snd (fold (app_call (logging (\<lambda>n. n \<noteq> 3))) [CallStart] (registered CreateDefault [1, 2 :: nat], [])) =
     [(1, InitializeCall True), (2, InitializeCall True), (1, StartCall True), (2, StartCall False), (1, StopCall)]"
    by (simp add: app_call_def application_ops logging_def)
  obtain a trace where f: "fold (app_call (logging (\<lambda>n. n \<noteq> 3))) [CallStart] (registered CreateDefault [1, 2 :: nat], []) = (a, trace)"
    by fastforce
  show ?thesis using t modules_see_legal_lives [OF _ _ f, of 2] unfolding f by simp
qed

end
