(* ===== verification/Transport_Facade.thy ===== *)
theory Transport_Facade
  imports Config_Loader Tcp_Backend Udp_Sender_Correct Rtp_Link
begin

section \<open>The transport facade\<close>

text \<open>
  \<^verbatim>\<open>sserver/src/modules/transport/Transport.h\<close>, \<^verbatim>\<open>Transport.cpp\<close> and \<^verbatim>\<open>TransportModule.cpp\<close>: the choice of the
  back end by configuration, and the life cycle of the module. \<^verbatim>\<open>ITransportBackend\<close>, the interface of the
  back ends, is the datatype \<open>transport_backend\<close> of its three implementations; what the facade relies
  on is the locale \<open>backend_contract\<close>. The module adds only its name and log lines to the facade.
\<close>

subsection \<open>The back ends behind their interface\<close>

text \<open>The clock and the threads of the TCP back end live beside it.\<close>

datatype transport_backend =
    TcpBackend TcpEnv TcpStreamingBackend
  | UdpBackend UdpStreamingBackend
  | RtpBackend RtpStreamingBackend

text \<open>What the system answers when a back end starts: the descriptor, the results of \<^verbatim>\<open>bind\<close> and
  \<^verbatim>\<open>listen\<close>, the port it reports, address parsing, whether a file can be written, and the random seed.\<close>

record net_answers =
  na_socket :: int
  na_bind :: bool
  na_listen :: bool
  na_port :: "u16 option"
  na_inet_pton :: "string \<Rightarrow> u32 option"
  na_can_open :: "string \<Rightarrow> bool"
  na_seed :: "(u32 \<Rightarrow> u32) \<times> u64"

definition backend_initialize :: "AppConfig \<Rightarrow> transport_backend \<Rightarrow> transport_backend \<times> bool" where
  "backend_initialize context b =
     (let interval = rt_latency_log_interval_frames (ac_runtime context); config = ac_transport context in
      case b of
        TcpBackend e b \<Rightarrow> (case initialize_tcp config interval b of (b, ok) \<Rightarrow> (TcpBackend e b, ok))
      | UdpBackend b \<Rightarrow> (case initialize_udp config interval b of (b, ok) \<Rightarrow> (UdpBackend b, ok))
      | RtpBackend b \<Rightarrow> (case initialize_rtp context b of (b, ok) \<Rightarrow> (RtpBackend b, ok)))"

definition backend_start :: "net_answers \<Rightarrow> transport_backend \<Rightarrow> transport_backend \<times> bool" where
  "backend_start a b = (case b of
       TcpBackend e b \<Rightarrow> (case start_tcp (na_socket a) (na_bind a) (na_listen a) (na_port a) b of
         (b, ok) \<Rightarrow> (TcpBackend e b, ok))
     | UdpBackend b \<Rightarrow> (case start_udp (na_socket a) (na_bind a) (na_port a) b of (b, ok) \<Rightarrow> (UdpBackend b, ok))
     | RtpBackend b \<Rightarrow> (case start_rtp (na_inet_pton a) (na_socket a) (na_bind a) (na_port a) (na_can_open a) (na_seed a) b of
         (b, file, ok) \<Rightarrow> (RtpBackend b, ok)))"

definition backend_stop :: "transport_backend \<Rightarrow> transport_backend" where
  "backend_stop b = (case b of
       TcpBackend e b \<Rightarrow> TcpBackend e (fst (stop_tcp b))
     | UdpBackend b \<Rightarrow> UdpBackend (stop_udp b)
     | RtpBackend b \<Rightarrow> RtpBackend (stop_rtp b))"

definition backend_shutdown :: "transport_backend \<Rightarrow> transport_backend" where
  "backend_shutdown b = (case b of
       TcpBackend e b \<Rightarrow> TcpBackend e (fst (shutdown_tcp b))
     | UdpBackend b \<Rightarrow> UdpBackend (shutdown_udp b)
     | RtpBackend b \<Rightarrow> RtpBackend (shutdown_rtp b))"

definition backend_state :: "transport_backend \<Rightarrow> ModuleState" where
  "backend_state b = (case b of
       TcpBackend e b \<Rightarrow> tb_state b | UdpBackend b \<Rightarrow> ub_state b | RtpBackend b \<Rightarrow> rb_state b)"

definition backend_Broadcast :: "EncodedFramePtr \<Rightarrow> transport_backend \<Rightarrow> transport_backend" where
  "backend_Broadcast frame b = (case b of
       TcpBackend e b \<Rightarrow> (case Broadcast_tcp frame e b of (e, b) \<Rightarrow> TcpBackend e b)
     | UdpBackend b \<Rightarrow> UdpBackend (Broadcast_udp frame b)
     | RtpBackend b \<Rightarrow> RtpBackend (Broadcast_rtp frame b))"

definition backend_bound_port :: "transport_backend \<Rightarrow> int" where
  "backend_bound_port b = (case b of
       TcpBackend e b \<Rightarrow> tb_bound_port b | UdpBackend b \<Rightarrow> ub_bound_port b | RtpBackend b \<Rightarrow> rb_bound_port b)"

subsection \<open>The facade\<close>

text \<open>A new back end is given the recorder; the worlds of the three are parameters.\<close>

record worlds =
  w_tcp :: TcpEnv
  w_udp :: UdpEnv
  w_rtp :: RtpEnv

definition TransportBackendFactory_Create ::
  "worlds \<Rightarrow> LatencyRecorder option \<Rightarrow> TransportBackend \<times> string \<Rightarrow> transport_backend option" where
  "TransportBackendFactory_Create w recorder selection = (case fst selection of
       kTcp \<Rightarrow> Some (TcpBackend (w_tcp w) TcpStreamingBackend_new)
     | kUdp \<Rightarrow> Some (UdpBackend (UdpStreamingBackend_new recorder (w_udp w)))
     | kRtp \<Rightarrow> Some (RtpBackend (RtpStreamingBackend_new recorder (w_rtp w)))
     | kAuto_transport \<Rightarrow> None)"

definition backend_selection :: "transport_backend \<Rightarrow> TransportBackend \<times> string" where
  "backend_selection b = (case b of
       TcpBackend e b \<Rightarrow> (kTcp, ''tcp'') | UdpBackend b \<Rightarrow> (kUdp, ''udp'') | RtpBackend b \<Rightarrow> (kRtp, ''rtp''))"

record Transport =
  tr_requested :: "TransportBackend \<times> string"
  tr_active :: "TransportBackend \<times> string"
  tr_backend :: "transport_backend option"
  tr_recorder :: "LatencyRecorder option"
  tr_state :: ModuleState

definition Transport_new :: "LatencyRecorder option \<Rightarrow> Transport" where
  "Transport_new recorder =
     \<lparr>tr_requested = (kAuto_transport, ''auto''), tr_active = (kTcp, ''tcp''), tr_backend = None,
      tr_recorder = recorder, tr_state = kCreated\<rparr>"

text \<open>\<open>shutdown\<close> shuts the back end down and destroys it. Nothing of it can be observed afterwards; that a
  back end holds nothing once it is shut down is the law \<open>shuts\<close> of the contract below.\<close>

definition Transport_shutdown :: "Transport \<Rightarrow> Transport" where
  "Transport_shutdown t =
     \<lparr>tr_requested = (kAuto_transport, ''auto''), tr_active = (kTcp, ''tcp''), tr_backend = None,
      tr_recorder = tr_recorder t, tr_state = kShutdown\<rparr>"

definition Transport_initialize :: "worlds \<Rightarrow> AppConfig \<Rightarrow> Transport \<Rightarrow> Transport \<times> bool" where
  "Transport_initialize w context t =
     (let t = Transport_shutdown t in
      case ResolveTransportBackendSelection (ac_transport context) of
        Inl _ \<Rightarrow> (t\<lparr>tr_state := kFailed\<rparr>, False)
      | Inr selection \<Rightarrow>
          let t = t\<lparr>tr_requested := selection\<rparr> in
          (case TransportBackendFactory_Create w (tr_recorder t) selection of
             None \<Rightarrow> (t\<lparr>tr_state := kFailed\<rparr>, False)
           | Some b \<Rightarrow> (case backend_initialize context b of
               (b, False) \<Rightarrow> (t\<lparr>tr_backend := None, tr_state := kFailed\<rparr>, False)
             | (b, True) \<Rightarrow> (t\<lparr>tr_backend := Some b, tr_active := backend_selection b,
                 tr_state := backend_state b\<rparr>, True))))"

definition Transport_start :: "net_answers \<Rightarrow> Transport \<Rightarrow> Transport \<times> bool" where
  "Transport_start a t = (case tr_backend t of
       None \<Rightarrow> (t\<lparr>tr_state := kFailed\<rparr>, False)
     | Some b \<Rightarrow> (case backend_start a b of
         (b, ok) \<Rightarrow> (t\<lparr>tr_backend := Some b, tr_state := backend_state b\<rparr>, ok)))"

definition Transport_stop :: "Transport \<Rightarrow> Transport" where
  "Transport_stop t = (case tr_backend t of
       Some b \<Rightarrow> t\<lparr>tr_backend := Some (backend_stop b), tr_state := backend_state (backend_stop b)\<rparr>
     | None \<Rightarrow> t\<lparr>tr_state := kStopped\<rparr>)"

definition Transport_state :: "Transport \<Rightarrow> ModuleState" where
  "Transport_state t = (case tr_backend t of Some b \<Rightarrow> backend_state b | None \<Rightarrow> tr_state t)"

definition Transport_Broadcast :: "EncodedFramePtr \<Rightarrow> Transport \<Rightarrow> Transport" where
  "Transport_Broadcast frame t = (case tr_backend t of
       Some b \<Rightarrow> t\<lparr>tr_backend := Some (backend_Broadcast frame b)\<rparr> | None \<Rightarrow> t)"

definition Transport_bound_port :: "Transport \<Rightarrow> int" where
  "Transport_bound_port t = (case tr_backend t of None \<Rightarrow> 0 | Some b \<Rightarrow> backend_bound_port b)"

definition Transport_backend_name :: "Transport \<Rightarrow> string" where
  "Transport_backend_name t = snd (tr_active t)"

subsection \<open>What the facade relies on\<close>

text \<open>The contract of a back end, with \<open>holds\<close> for holding a socket or a client and \<open>fine\<close> for its
  invariant: a start that fails holds nothing, nothing is held after a stop or a shutdown, and neither
  broadcasting nor its thread changes the state.\<close>

locale backend_contract =
  fixes bstart :: "net_answers \<Rightarrow> 'b \<Rightarrow> 'b \<times> bool"
    and bstop bshutdown :: "'b \<Rightarrow> 'b"
    and bstate :: "'b \<Rightarrow> ModuleState"
    and bcast :: "EncodedFramePtr \<Rightarrow> 'b \<Rightarrow> 'b"
    and bthread :: "'e \<Rightarrow> 'b \<Rightarrow> 'b"
    and holds fine :: "'b \<Rightarrow> bool"
  assumes fine_holds: "fine b \<Longrightarrow> holds b \<Longrightarrow> bstate b = kRunning"
    and starts: "fine b \<Longrightarrow> \<not> holds b \<Longrightarrow> bstart a b = (b', ok) \<Longrightarrow>
      fine b' \<and> (if ok then bstate b' = kRunning else \<not> holds b' \<and> bstate b' = kFailed)"
    and stops: "fine b \<Longrightarrow> fine (bstop b) \<and> \<not> holds (bstop b) \<and> bstate (bstop b) \<noteq> kRunning"
    and shuts: "fine b \<Longrightarrow> fine (bshutdown b) \<and> \<not> holds (bshutdown b) \<and> bstate (bshutdown b) = kShutdown"
    and broadcasts: "fine b \<Longrightarrow> fine (bcast f b) \<and> bstate (bcast f b) = bstate b"
    and threads: "fine b \<Longrightarrow> fine (bthread ev b) \<and> bstate (bthread ev b) = bstate b"
begin

text \<open>A back end driven by any calls that start it only when it does not run.\<close>

inductive driven :: "'b \<Rightarrow> 'b \<Rightarrow> bool" where
  refl: "driven b b"
| start: "driven b c \<Longrightarrow> bstate c \<noteq> kRunning \<Longrightarrow> driven b (fst (bstart a c))"
| stop: "driven b c \<Longrightarrow> driven b (bstop c)"
| broadcast: "driven b c \<Longrightarrow> driven b (bcast f c)"
| thread: "driven b c \<Longrightarrow> driven b (bthread ev c)"

lemma driven_fine: "driven b c \<Longrightarrow> fine b \<Longrightarrow> fine c"
proof (induction rule: driven.induct)
  case (start b c a)
  then have "\<not> holds c" using fine_holds by blast
  then show ?case using start starts [of c a "fst (bstart a c)" "snd (bstart a c)"] by simp
qed (use stops broadcasts threads in blast)+

lemma driven_releases:
  "driven b c \<Longrightarrow> fine b \<Longrightarrow> \<not> holds (bstop c) \<and> bstate (bstop c) \<noteq> kRunning \<and> (bstate c \<noteq> kRunning \<longrightarrow> \<not> holds c)"
  using driven_fine stops fine_holds by blast

lemma start_outcome:
  "driven b c \<Longrightarrow> fine b \<Longrightarrow> bstate c \<noteq> kRunning \<Longrightarrow> bstart a c = (d, ok) \<Longrightarrow>
   (if ok then bstate d = kRunning else \<not> holds d \<and> bstate d = kFailed)"
  using driven_fine starts fine_holds by blast

end

subsection \<open>The three back ends keep the contract\<close>

lemma Broadcast_tcp_simps [simp]:
  "tb_state (snd (Broadcast_tcp frame e b)) = tb_state b"
  "tb_running (snd (Broadcast_tcp frame e b)) = tb_running b"
  "tb_listen_socket_fd (snd (Broadcast_tcp frame e b)) = tb_listen_socket_fd b"
  by (simp_all add: Broadcast_tcp_def PruneClosedClients_def Let_def split_beta)

lemma Broadcast_tcp_released: "released b \<Longrightarrow> snd (Broadcast_tcp frame e b) = b"
  by (cases b) (simp add: Broadcast_tcp_def PruneClosedClients_def released_def Let_def split_beta)

lemma AcceptLoop_released: "released b \<Longrightarrow> AcceptLoop events b = b"
  by (cases events) (simp_all add: released_def)

interpretation tcp_backend: backend_contract
  "\<lambda>a. start_tcp (na_socket a) (na_bind a) (na_listen a) (na_port a)" "fst \<circ> stop_tcp" "fst \<circ> shutdown_tcp" tb_state
  "\<lambda>frame b. snd (Broadcast_tcp frame e b)" AcceptLoop "\<lambda>b. \<not> released b" "\<lambda>b. tb_state b \<noteq> kRunning \<longrightarrow> released b"
  for e
proof
  fix b a b' ok assume "tb_state b \<noteq> kRunning \<longrightarrow> released b" "\<not> \<not> released b"
    "start_tcp (na_socket a) (na_bind a) (na_listen a) (na_port a) b = (b', ok)"
  then show "(tb_state b' \<noteq> kRunning \<longrightarrow> released b') \<and> (if ok then tb_state b' = kRunning else \<not> \<not> released b' \<and> tb_state b' = kFailed)"
    by (auto simp: start_tcp_def OpenListenSocket_def CloseListenSocket_def released_def Let_def split: if_splits option.splits)
qed (auto simp: stop_tcp_def shutdown_tcp_def CloseListenSocket_def released_def Let_def Broadcast_tcp_released [unfolded released_def]
      AcceptLoop_released [unfolded released_def])

text \<open>What no call of the UDP back end but its life cycle changes.\<close>

definition same_socket :: "UdpStreamingBackend \<Rightarrow> UdpStreamingBackend \<Rightarrow> bool" where
  "same_socket b b' \<longleftrightarrow> ub_state b' = ub_state b \<and> ub_socket_fd b' = ub_socket_fd b"

lemma same_socket_simps [simp]:
  "same_socket b b" "same_socket b (fst (MonotonicNow b))" "same_socket b (PruneStaleClientsLocked now b)"
  "same_socket b (PruneRetransmitCacheLocked now b)" "same_socket b (CacheFrameFragments f b)"
  "same_socket b (RegisterClient a now report b)" "same_socket b (fst (SnapshotClients now b))"
  by (simp_all add: same_socket_def MonotonicNow_def PruneStaleClientsLocked_def PruneRetransmitCacheLocked_def
      CacheFrameFragments_def RegisterClient_def SnapshotClients_def Let_def split: option.split)

lemma same_socket_trans: "same_socket a b \<Longrightarrow> same_socket b c \<Longrightarrow> same_socket a c"
  by (simp add: same_socket_def)

lemma same_sender_socket: "same_sender b b' \<Longrightarrow> same_socket b b'"
  by (simp add: same_sender_def same_socket_def)

lemma resend_item_socket: "same_socket b (resend_item a item b)"
  by (simp add: resend_item_def sendto_call_def same_socket_def Let_def split: option.split)

lemma resend_fold_socket: "same_socket b (fold (resend_item a) items b)"
proof (induction items arbitrary: b)
  case (Cons item items)
  show ?case using same_socket_trans [OF resend_item_socket Cons.IH] by simp
qed simp

lemma HandleNackRequest_socket: "same_socket b (HandleNackRequest a now hdr items b)"
proof (cases "\<not> tc_udp_enable_nack (ub_config b) \<or> items = [] \<or> ub_socket_fd b < 0")
  case False
  show ?thesis
    unfolding HandleNackRequest_def Let_def if_not_P [OF False]
    by (rule same_socket_trans [OF _ resend_fold_socket]) (simp add: same_socket_def PruneRetransmitCacheLocked_def Let_def)
qed (simp add: HandleNackRequest_def)

lemma HandleDatagram_socket: "same_socket b (HandleDatagram a buffer b)"
proof -
  have n: "same_socket (fst (MonotonicNow b)) (HandleNackRequest a now hdr items (RegisterClient a now report (fst (MonotonicNow b))))"
    for now hdr items report by (rule same_socket_trans [OF _ HandleNackRequest_socket]) simp
  show ?thesis
    unfolding HandleDatagram_def Let_def split_beta
    by (rule same_socket_trans [of b "fst (MonotonicNow b)"]) (simp_all add: n split: option.split)
qed

lemma SendFrameFragments_socket:
  assumes "SendFrameFragments (Some frame) clients b = (b', ok)"
  shows "same_socket b b'"
  using assms
proof (cases rule: SendFrameFragments_cases)
  case refused
  then show ?thesis by simp
next
  case (failed b1)
  show ?thesis
    using same_socket_trans [OF _ same_sender_socket, of b "fst (MonotonicNow b)"] send_fragments_spec [OF failed(3)] failed by simp
next
  case (data b1 cached fec b2 sent_parity)
  have "same_socket b b1"
    using same_socket_trans [OF _ same_sender_socket, of b "fst (MonotonicNow b)"] send_fragments_spec [OF data(2)] by simp
  moreover have "same_socket b1 b2"
    using data(3) transmit_same same_sender_socket by (auto split: if_splits)
  ultimately have "same_socket b b2" by (rule same_socket_trans)
  then show ?thesis using data(5) same_socket_trans [of b b2] by (cases "sent_parity \<and> tc_udp_enable_nack (ub_config b) \<and> cached \<noteq> []") simp_all
qed

lemma Broadcast_udp_socket: "same_socket b (Broadcast_udp frame b)"
proof (cases "\<not> tc_enabled (ub_config b) \<or> frame = None \<or> ub_socket_fd b < 0")
  case on: False
  then obtain f where f: "frame = Some f" by (cases frame) auto
  obtain b0 now where m: "MonotonicNow b = (b0, now)" by fastforce
  obtain b1 clients where c: "SnapshotClients now b0 = (b1, clients)" by fastforce
  obtain b2 ok where s: "SendFrameFragments (Some f) clients b1 = (b2, ok)" by fastforce
  have "same_socket b b1"
    using same_socket_simps(2) [of b] same_socket_simps(7) [of b0 now] same_socket_trans m c by simp
  moreover have "same_socket b b2" using same_socket_trans [OF calculation SendFrameFragments_socket [OF s]] .
  moreover have "same_socket b (fst (MonotonicNow b2))" using same_socket_trans [OF calculation(2) same_socket_simps(2)] .
  moreover obtain b3 now3 where n: "MonotonicNow b2 = (b3, now3)" by fastforce
  ultimately show ?thesis
    using on unfolding Broadcast_udp_def m Let_def case_prod_conv c f s
    by (simp add: s n same_socket_def split: option.split)
qed (simp add: Broadcast_udp_def)

definition released_udp :: "UdpStreamingBackend \<Rightarrow> bool" where
  "released_udp b \<longleftrightarrow> ub_socket_fd b < 0 \<and> ub_clients b = [] \<and> ub_retransmit_cache b = [] \<and> \<not> ub_running b"

lemma Broadcast_udp_released: "released_udp b \<Longrightarrow> Broadcast_udp frame b = b"
  by (simp add: released_udp_def Broadcast_udp_def)

lemma ReceiveLoop_released: "released_udp b \<Longrightarrow> ReceiveLoop_udp events b = b"
  by (cases events; cases b) (simp_all add: released_udp_def leave_loop_def CloseSocket_udp_def)

lemma leave_loop_state [simp]: "ub_state (leave_loop b) = ub_state b"
  by (simp add: leave_loop_def CloseSocket_udp_def)

lemma ReceiveLoop_state [simp]: "ub_state (ReceiveLoop_udp events b) = ub_state b"
proof (induction events arbitrary: b)
  case (Cons event events)
  then show ?case
    using HandleDatagram_socket same_socket_simps(2,3)
    by (cases event) (simp_all add: Let_def split_beta same_socket_def)
qed simp

interpretation udp_backend: backend_contract
  "\<lambda>a. start_udp (na_socket a) (na_bind a) (na_port a)" stop_udp shutdown_udp ub_state
  Broadcast_udp ReceiveLoop_udp "\<lambda>b. \<not> released_udp b" "\<lambda>b. ub_state b \<noteq> kRunning \<longrightarrow> released_udp b"
proof
  fix b a b' ok assume "ub_state b \<noteq> kRunning \<longrightarrow> released_udp b" "\<not> \<not> released_udp b"
    "start_udp (na_socket a) (na_bind a) (na_port a) b = (b', ok)"
  then show "(ub_state b' \<noteq> kRunning \<longrightarrow> released_udp b') \<and> (if ok then ub_state b' = kRunning else \<not> \<not> released_udp b' \<and> ub_state b' = kFailed)"
    by (auto simp: start_udp_def OpenSocket_udp_def CloseSocket_udp_def released_udp_def Let_def split: if_splits option.splits)
next
  fix b f assume "ub_state b \<noteq> kRunning \<longrightarrow> released_udp b"
  then show "(ub_state (Broadcast_udp f b) \<noteq> kRunning \<longrightarrow> released_udp (Broadcast_udp f b)) \<and> ub_state (Broadcast_udp f b) = ub_state b"
    using Broadcast_udp_socket [of b f] Broadcast_udp_released [of b f] by (auto simp: same_socket_def)
qed (auto simp: stop_udp_def shutdown_udp_def CloseSocket_udp_def ReceiveLoop_released [unfolded released_udp_def] released_udp_def)

lemma record_capture_to_send_state [simp]:
  "rb_state (record_capture_to_send frame b) = rb_state b \<and> rb_socket_fd (record_capture_to_send frame b) = rb_socket_fd b"
  by (simp add: record_capture_to_send_def Let_def split_beta split: option.split)

lemma Broadcast_rtp_simps:
  "rb_state (Broadcast_rtp frame b) = rb_state b \<and> rb_socket_fd (Broadcast_rtp frame b) = rb_socket_fd b"
  by (simp add: Broadcast_rtp_def send_paced_def ComputePacingInterval_def Let_def split_beta split: option.split sum.split prod.split)

lemma Broadcast_rtp_released: "no_resources_rtp b \<Longrightarrow> Broadcast_rtp frame b = b"
  by (simp add: no_resources_rtp_def Broadcast_rtp_def split: option.split)

interpretation rtp_backend: backend_contract
  "\<lambda>a b. case start_rtp (na_inet_pton a) (na_socket a) (na_bind a) (na_port a) (na_can_open a) (na_seed a) b of (b, file, ok) \<Rightarrow> (b, ok)"
  stop_rtp shutdown_rtp rb_state Broadcast_rtp "\<lambda>(ev :: unit) b. b" "\<lambda>b. \<not> no_resources_rtp b"
  "\<lambda>b. rb_state b \<noteq> kRunning \<longrightarrow> no_resources_rtp b"
proof
  fix b a b' ok assume "rb_state b \<noteq> kRunning \<longrightarrow> no_resources_rtp b" "\<not> \<not> no_resources_rtp b"
    "(case start_rtp (na_inet_pton a) (na_socket a) (na_bind a) (na_port a) (na_can_open a) (na_seed a) b of (b, file, ok) \<Rightarrow> (b, ok)) = (b', ok)"
  then show "(rb_state b' \<noteq> kRunning \<longrightarrow> no_resources_rtp b') \<and> (if ok then rb_state b' = kRunning else \<not> \<not> no_resources_rtp b' \<and> rb_state b' = kFailed)"
    by (auto simp: start_rtp_def ConfigureRemoteAddress_def OpenSocket_rtp_def CloseSocket_rtp_def WriteSdpFile_def
        no_resources_rtp_def Let_def split: if_splits option.splits prod.splits)
qed (auto simp: stop_rtp_def shutdown_rtp_def CloseSocket_rtp_def no_resources_rtp_def Let_def Broadcast_rtp_simps
      Broadcast_rtp_released [unfolded no_resources_rtp_def])

subsection \<open>The facade over any back end\<close>

definition backend_releases :: "transport_backend \<Rightarrow> bool" where
  "backend_releases b = (case b of
       TcpBackend e b \<Rightarrow> released b | UdpBackend b \<Rightarrow> released_udp b | RtpBackend b \<Rightarrow> no_resources_rtp b)"

text \<open>What the thread of a back end does: accept clients, or receive datagrams; RTP has none.\<close>

definition backend_thread :: "accept_result list \<times> UdpEvent list \<Rightarrow> transport_backend \<Rightarrow> transport_backend" where
  "backend_thread events b = (case b of
       TcpBackend e b \<Rightarrow> TcpBackend e (AcceptLoop (fst events) b)
     | UdpBackend b \<Rightarrow> UdpBackend (ReceiveLoop_udp (snd events) b)
     | RtpBackend b \<Rightarrow> RtpBackend b)"

lemmas backend_ops = backend_start_def backend_stop_def backend_shutdown_def backend_state_def backend_Broadcast_def
  backend_thread_def backend_releases_def

interpretation backend: backend_contract backend_start backend_stop backend_shutdown backend_state backend_Broadcast
  backend_thread "\<lambda>b. \<not> backend_releases b" "\<lambda>b. backend_state b \<noteq> kRunning \<longrightarrow> backend_releases b"
proof
  fix b a b' ok assume fine: "backend_state b \<noteq> kRunning \<longrightarrow> backend_releases b" "\<not> \<not> backend_releases b"
    and s: "backend_start a b = (b', ok)"
  show "(backend_state b' \<noteq> kRunning \<longrightarrow> backend_releases b') \<and>
      (if ok then backend_state b' = kRunning else \<not> \<not> backend_releases b' \<and> backend_state b' = kFailed)"
  proof (cases b)
    case (TcpBackend e t)
    obtain t' where t: "start_tcp (na_socket a) (na_bind a) (na_listen a) (na_port a) t = (t', ok)" "b' = TcpBackend e t'"
      using s TcpBackend by (cases "start_tcp (na_socket a) (na_bind a) (na_listen a) (na_port a) t") (simp add: backend_start_def)
    have "tb_state t \<noteq> kRunning \<longrightarrow> released t" "\<not> \<not> released t" using fine TcpBackend by (simp_all add: backend_ops)
    from tcp_backend.starts [OF this t(1)] show ?thesis using t(2) by (simp add: backend_ops)
  next
    case (UdpBackend u)
    obtain u' where u: "start_udp (na_socket a) (na_bind a) (na_port a) u = (u', ok)" "b' = UdpBackend u'"
      using s UdpBackend by (cases "start_udp (na_socket a) (na_bind a) (na_port a) u") (simp add: backend_start_def)
    have "ub_state u \<noteq> kRunning \<longrightarrow> released_udp u" "\<not> \<not> released_udp u" using fine UdpBackend by (simp_all add: backend_ops)
    from udp_backend.starts [OF this u(1)] show ?thesis using u(2) by (simp add: backend_ops)
  next
    case (RtpBackend r)
    obtain r' where r: "(case start_rtp (na_inet_pton a) (na_socket a) (na_bind a) (na_port a) (na_can_open a) (na_seed a) r of
        (b, file, ok) \<Rightarrow> (b, ok)) = (r', ok)" "b' = RtpBackend r'"
      using s RtpBackend by (cases "start_rtp (na_inet_pton a) (na_socket a) (na_bind a) (na_port a) (na_can_open a) (na_seed a) r")
        (simp add: backend_start_def split_beta)
    have "rb_state r \<noteq> kRunning \<longrightarrow> no_resources_rtp r" "\<not> \<not> no_resources_rtp r" using fine RtpBackend by (simp_all add: backend_ops)
    from rtp_backend.starts [OF this r(1)] show ?thesis using r(2) by (simp add: backend_ops)
  qed
next
  fix b f assume fine: "backend_state b \<noteq> kRunning \<longrightarrow> backend_releases b"
  show "(backend_state (backend_Broadcast f b) \<noteq> kRunning \<longrightarrow> backend_releases (backend_Broadcast f b)) \<and>
      backend_state (backend_Broadcast f b) = backend_state b"
  proof (cases b)
    case (TcpBackend e t)
    then show ?thesis using fine tcp_backend.broadcasts [of t f e] by (auto simp: backend_ops split_beta)
  next
    case (UdpBackend u)
    then show ?thesis using fine udp_backend.broadcasts [of u f] by (auto simp: backend_ops)
  next
    case (RtpBackend r)
    then show ?thesis using fine rtp_backend.broadcasts [of r f] by (auto simp: backend_ops)
  qed
next
  fix b assume fine: "backend_state b \<noteq> kRunning \<longrightarrow> backend_releases b"
  show "(backend_state (backend_stop b) \<noteq> kRunning \<longrightarrow> backend_releases (backend_stop b)) \<and>
      \<not> \<not> backend_releases (backend_stop b) \<and> backend_state (backend_stop b) \<noteq> kRunning"
  proof (cases b)
    case (TcpBackend e t)
    then show ?thesis using fine tcp_backend.stops [of t] by (simp add: backend_ops)
  next
    case (UdpBackend u)
    then show ?thesis using fine udp_backend.stops [of u] by (simp add: backend_ops)
  next
    case (RtpBackend r)
    then show ?thesis using fine rtp_backend.stops [of r] by (simp add: backend_ops)
  qed
  show "(backend_state (backend_shutdown b) \<noteq> kRunning \<longrightarrow> backend_releases (backend_shutdown b)) \<and>
      \<not> \<not> backend_releases (backend_shutdown b) \<and> backend_state (backend_shutdown b) = kShutdown"
  proof (cases b)
    case (TcpBackend e t)
    then show ?thesis using fine tcp_backend.shuts [of t] by (simp add: backend_ops)
  next
    case (UdpBackend u)
    then show ?thesis using fine udp_backend.shuts [of u] by (simp add: backend_ops)
  next
    case (RtpBackend r)
    then show ?thesis using fine rtp_backend.shuts [of r] by (simp add: backend_ops)
  qed
next
  fix b events assume fine: "backend_state b \<noteq> kRunning \<longrightarrow> backend_releases b"
  then show "(backend_state (backend_thread events b) \<noteq> kRunning \<longrightarrow> backend_releases (backend_thread events b)) \<and>
      backend_state (backend_thread events b) = backend_state b"
    by (cases b) (simp_all add: backend_ops AcceptLoop_released ReceiveLoop_released)
qed simp

definition Transport_releases :: "Transport \<Rightarrow> bool" where
  "Transport_releases t = (case tr_backend t of None \<Rightarrow> True | Some b \<Rightarrow> backend_releases b)"

text \<open>Every life of the module: it is initialised and shut down at will, started when it does not run, and
  frames and the network reach it at any time.\<close>

inductive transport_life :: "Transport \<Rightarrow> bool" where
  created: "transport_life (Transport_new recorder)"
| initialized: "transport_life t \<Longrightarrow> transport_life (fst (Transport_initialize w context t))"
| started: "transport_life t \<Longrightarrow> Transport_state t \<noteq> kRunning \<Longrightarrow> transport_life (fst (Transport_start a t))"
| stopped: "transport_life t \<Longrightarrow> transport_life (Transport_stop t)"
| shut_down: "transport_life t \<Longrightarrow> transport_life (Transport_shutdown t)"
| broadcast: "transport_life t \<Longrightarrow> transport_life (Transport_Broadcast frame t)"
| thread: "transport_life t \<Longrightarrow> transport_life (t\<lparr>tr_backend := map_option (backend_thread events) (tr_backend t)\<rparr>)"

subsection \<open>Every life of the module\<close>

lemma new_backend:
  assumes "TransportBackendFactory_Create w recorder selection = Some b" "backend_initialize context b = (c, ok)"
  shows "ok \<and> backend_state c = kInitialized \<and> backend_releases c"
  using assms
  by (auto simp: TransportBackendFactory_Create_def backend_initialize_def initialize_tcp_def initialize_udp_def initialize_rtp_def
      backend_state_def backend_releases_def released_def released_udp_def no_resources_rtp_def TcpStreamingBackend_new_def
      UdpStreamingBackend_new_def RtpStreamingBackend_new_def split: TransportBackend.splits)

definition transport_fine :: "Transport \<Rightarrow> bool" where
  "transport_fine t \<longleftrightarrow> Transport_state t \<noteq> kRunning \<longrightarrow> Transport_releases t"

lemmas transport_ops = Transport_stop_def Transport_state_def Transport_releases_def Transport_Broadcast_def transport_fine_def

lemma Transport_initialize_outcome:
  assumes "Transport_initialize w context t = (t', ok)"
  shows "Transport_releases t' \<and> Transport_state t' = (if ok then kInitialized else kFailed)"
proof (cases "ResolveTransportBackendSelection (ac_transport context)")
  case (Inl message)
  then show ?thesis using assms by (auto simp: Transport_initialize_def Transport_shutdown_def transport_ops)
next
  case (Inr selection)
  show ?thesis
  proof (cases "TransportBackendFactory_Create w (tr_recorder t) selection")
    case None
    then show ?thesis using assms Inr by (auto simp: Transport_initialize_def Transport_shutdown_def transport_ops)
  next
    case (Some b)
    obtain c good where c: "backend_initialize context b = (c, good)" by fastforce
    show ?thesis
      using assms Inr Some c new_backend [OF Some c] by (auto simp: Transport_initialize_def Transport_shutdown_def transport_ops)
  qed
qed

lemma transport_life_fine: "transport_life t \<Longrightarrow> transport_fine t"
proof (induction rule: transport_life.induct)
  case (initialized t w cfg)
  show ?case
    using Transport_initialize_outcome [of w cfg t] by (cases "Transport_initialize w cfg t") (simp add: transport_fine_def)
next
  case (started t a)
  show ?case
  proof (cases "tr_backend t")
    case (Some b)
    then show ?thesis
      using started backend.starts [of b a "fst (backend_start a b)" "snd (backend_start a b)"]
      by (simp add: Transport_start_def transport_ops split_beta)
  qed (simp add: Transport_start_def transport_ops)
next
  case (stopped t)
  then show ?case using backend.stops by (cases "tr_backend t") (simp_all add: transport_ops)
next
  case (broadcast t frame)
  then show ?case using backend.broadcasts by (cases "tr_backend t") (simp_all add: transport_ops)
next
  case (thread t events)
  then show ?case using backend.threads by (cases "tr_backend t") (simp_all add: transport_ops)
qed (simp_all add: Transport_new_def Transport_shutdown_def transport_ops)

text \<open>C19: However the module is driven, whichever back end the configuration chose: a start that fails
  reports \<open>kFailed\<close> and holds no socket and no client; while the module does not run nothing is held;
  and after \<open>stop\<close> it neither runs nor holds anything.\<close>

theorem transport_never_leaks:
  assumes "transport_life t"
  shows "(Transport_state t \<noteq> kRunning \<longrightarrow> Transport_releases t) \<and>
    Transport_releases (Transport_stop t) \<and> Transport_state (Transport_stop t) \<noteq> kRunning \<and>
    (\<forall>a t' ok. Transport_state t \<noteq> kRunning \<longrightarrow> Transport_start a t = (t', ok) \<longrightarrow>
       (if ok then Transport_state t' = kRunning else Transport_state t' = kFailed \<and> Transport_releases t'))"
proof -
  have fine: "transport_fine t" using transport_life_fine [OF assms] .
  then have stop: "Transport_releases (Transport_stop t) \<and> Transport_state (Transport_stop t) \<noteq> kRunning"
    using backend.stops by (cases "tr_backend t") (simp_all add: transport_ops)
  have out: "if ok then Transport_state t' = kRunning else Transport_state t' = kFailed \<and> Transport_releases t'"
    if "Transport_state t \<noteq> kRunning" "Transport_start a t = (t', ok)" for a t' ok
  proof (cases "tr_backend t")
    case (Some b)
    obtain b' good where b': "backend_start a b = (b', good)" by fastforce
    have t': "t' = t\<lparr>tr_backend := Some b', tr_state := backend_state b'\<rparr>" "ok = good"
      using that(2) Some b' by (simp_all add: Transport_start_def)
    have "backend_state b \<noteq> kRunning \<longrightarrow> backend_releases b" "\<not> \<not> backend_releases b"
      using that(1) fine Some by (simp_all add: transport_ops)
    from backend.starts [OF this b'] show ?thesis unfolding t' by (simp add: transport_ops)
  qed (use that in \<open>auto simp: Transport_start_def transport_ops\<close>)
  have "Transport_state t \<noteq> kRunning \<longrightarrow> Transport_releases t" using fine by (simp add: transport_fine_def)
  then show ?thesis using stop out by blast
qed

text \<open>A configuration that passes its checks with the transport enabled always initialises, with the
  back end it names; without initialisation, or after a refused one, frames go nowhere and no port is
  reported.\<close>

theorem checked_config_initialises:
  "Validate context = None \<Longrightarrow> tc_enabled (ac_transport context) \<Longrightarrow>
   (case Transport_initialize w context t of (t', ok) \<Rightarrow>
      ok \<and> Transport_backend_name t' = tc_backend (ac_transport context) \<and> Transport_state t' = kInitialized) \<and>
   Transport_Broadcast frame (Transport_shutdown t) = Transport_shutdown t \<and> Transport_bound_port (Transport_shutdown t) = 0"
proof -
  assume v: "Validate context = None" "tc_enabled (ac_transport context)"
  then obtain selection where s: "ResolveTransportBackendSelection (ac_transport context) = Inr selection"
    by (auto simp: Validate_def validate_transport_def and_then_def selection_error_def split: option.splits sum.splits if_splits)
  then have "(case Transport_initialize w context t of (t', ok) \<Rightarrow>
      ok \<and> Transport_backend_name t' = tc_backend (ac_transport context) \<and> Transport_state t' = kInitialized)"
    by (auto simp: ResolveTransportBackendSelection_def Transport_initialize_def TransportBackendFactory_Create_def
        backend_initialize_def backend_selection_def Transport_backend_name_def backend_state_def transport_ops
        initialize_tcp_def initialize_udp_def initialize_rtp_def split: if_splits)
  then show ?thesis by (simp add: Transport_Broadcast_def Transport_bound_port_def Transport_shutdown_def)
qed

definition example_worlds :: worlds where
  "example_worlds = \<lparr>w_tcp = example_tcp_env, w_udp = example_udp_env, w_rtp = example_rtp_env\<rparr>"

definition refused_bind :: net_answers where
  "refused_bind = \<lparr>na_socket = 3, na_bind = False, na_listen = True, na_port = None, na_inet_pton = (\<lambda>_. None),
     na_can_open = (\<lambda>_. True), na_seed = (id, 0)\<rparr>"

theorem transport_never_leaks_witness:
  "let t = fst (Transport_initialize example_worlds CreateDefault (Transport_new None));
       t' = fst (Transport_start (refused_bind\<lparr>na_bind := True\<rparr>) t) in
   Transport_state t' = kRunning \<and> \<not> Transport_releases t' \<and> Transport_releases (Transport_stop t') \<and>
   Transport_state (fst (Transport_start refused_bind t)) = kFailed \<and> Transport_releases (fst (Transport_start refused_bind t))"
proof -
  let ?t = "fst (Transport_initialize example_worlds CreateDefault (Transport_new None))"
  let ?t' = "fst (Transport_start (refused_bind\<lparr>na_bind := True\<rparr>) ?t)"
  have l: "transport_life ?t" by (rule transport_life.initialized [OF transport_life.created])
  have i: "Transport_state ?t \<noteq> kRunning" by code_simp
  have r: "Transport_state ?t' = kRunning" "snd (Transport_start refused_bind ?t) = False" by code_simp+
  have h: "\<not> Transport_releases ?t'" by code_simp
  have f: "Transport_start refused_bind ?t = (fst (Transport_start refused_bind ?t), False)"
    using r(2) by (simp add: prod_eq_iff)
  have "Transport_releases (Transport_stop ?t')"
    by (rule transport_never_leaks [OF transport_life.started [OF l i], THEN conjunct2, THEN conjunct1])
  moreover have "Transport_state (fst (Transport_start refused_bind ?t)) = kFailed \<and> Transport_releases (fst (Transport_start refused_bind ?t))"
    using transport_never_leaks [OF l, THEN conjunct2, THEN conjunct2, THEN conjunct2, rule_format, OF i f] by simp
  ultimately show ?thesis unfolding Let_def using h r(1) by simp
qed

theorem checked_config_initialises_witness:
  "Transport_backend_name (fst (Transport_initialize example_worlds CreateDefault (Transport_new None))) = ''tcp''"
proof -
  have "Validate CreateDefault = None" "tc_enabled (ac_transport CreateDefault)" "tc_backend (ac_transport CreateDefault) = ''tcp''"
    by code_simp+
  from checked_config_initialises [OF this(1,2), of example_worlds "Transport_new None" None] this(3) show ?thesis by auto
qed

end
