(* ===== verification/Yuv_Convert.thy ===== *)
theory Yuv_Convert
  imports AV_Prelude "HOL-Library.Monad_Syntax"
begin

section \<open>From YUYV 4:2:2 to I420\<close>

text \<open>
  \<^verbatim>\<open>ConvertYuyv422ToI420Scalar\<close> and \<^verbatim>\<open>ConvertYuyv422ToI420Neon\<close> of
  \<^verbatim>\<open>sserver/src/modules/encoding/video/x264/X264VideoEncoderBackend.cpp\<close>: the same
  conversion twice, once sample by sample and once sixteen pixels at a time. A plane is the
  list of its bytes; a load or a store outside a plane is undefined behaviour of the C++ code and
  the whole conversion then has no result (\<open>None\<close>). The loops are instances of one counting
  loop. Indices are naturals: the \<^verbatim>\<open>int\<close> products of the code are exact for every frame whose
  byte count fits an \<^verbatim>\<open>int\<close>, which is what \<^verbatim>\<open>width * height * 2\<close> already needs.
\<close>

subsection \<open>Memory and loops\<close>

definition load :: "bytes \<Rightarrow> nat \<Rightarrow> u8 option" where
  "load mem i = (if i < length mem then Some (mem ! i) else None)"

definition store_byte :: "nat \<Rightarrow> u8 \<Rightarrow> bytes \<Rightarrow> bytes option" where
  "store_byte i b mem = (if i < length mem then Some (mem[i := b]) else None)"

definition load_block :: "bytes \<Rightarrow> nat \<Rightarrow> nat \<Rightarrow> bytes option" where
  "load_block mem i n = (if i + n \<le> length mem then Some (slice i n mem) else None)"

definition store_block :: "nat \<Rightarrow> bytes \<Rightarrow> bytes \<Rightarrow> bytes option" where
  "store_block i bs mem = (if i + length bs \<le> length mem then Some (write_at i bs mem) else None)"

text \<open>\<open>for_loop step i n body s\<close> is \<^verbatim>\<open>for (; i < n; i += step) body\<close>; a step of zero would loop
  for ever and counts as undefined.\<close>

function for_loop :: "nat \<Rightarrow> nat \<Rightarrow> nat \<Rightarrow> (nat \<Rightarrow> 's \<Rightarrow> 's option) \<Rightarrow> 's \<Rightarrow> 's option" where
  "for_loop step i n body s =
     (if n \<le> i then Some s
      else if step = 0 then None
      else (case body i s of None \<Rightarrow> None | Some s' \<Rightarrow> for_loop step (i + step) n body s'))"
  by pat_completeness auto
termination
  by (relation "measure (\<lambda>(step, i, n, body, s). n - i)") auto

declare for_loop.simps [simp del]

text \<open>The two rules for it: the loop runs to its end when every body does, and whatever a body
  keeps holds at the end of a loop that ran.\<close>

lemma for_loop_total:
  assumes "I i s" "0 < step"
    and body: "\<And>j s. j < n \<Longrightarrow> I j s \<Longrightarrow> \<exists>s'. body j s = Some s' \<and> I (j + step) s'"
  shows "\<exists>s' k. for_loop step i n body s = Some s' \<and> n \<le> k \<and> I k s'"
  using assms(1,2) body
proof (induction step i n body s rule: for_loop.induct)
  case (1 step i n body s)
  show ?case
  proof (cases "n \<le> i")
    case True
    then show ?thesis using 1(2) by (subst for_loop.simps) auto
  next
    case False
    then obtain s' where s': "body i s = Some s'" "I (i + step) s'" using 1(2) 1(4) [of i s] by auto
    have "\<exists>t k. for_loop step (i + step) n body s' = Some t \<and> n \<le> k \<and> I k t"
      using 1(1) [OF False _ s'(1) s'(2) 1(3)] 1(3) 1(4) by auto
    then show ?thesis using False 1(3) s'(1) by (subst for_loop.simps) auto
  qed
qed

text \<open>The index advances by \<open>step\<close>, so the number \<open>m\<close> of rounds is known from the bound and the
  invariant can count them.\<close>

lemma for_loop_count:
  assumes "I 0 s" "0 < step" "n \<le> i + step * m" "i + step * m < n + step"
    and body: "\<And>j s. j < m \<Longrightarrow> I j s \<Longrightarrow> \<exists>s'. body (i + step * j) s = Some s' \<and> I (Suc j) s'"
  shows "\<exists>s'. for_loop step i n body s = Some s' \<and> I m s'"
proof -
  have below: "j < m" if "i + step * j < n" for j
  proof (rule ccontr)
    assume "\<not> j < m"
    then have "step * m \<le> step * j" by simp
    then show False using that assms(3) by linarith
  qed
  have "\<exists>s' k. for_loop step i n body s = Some s' \<and> n \<le> k \<and> (\<exists>j\<le>m. k = i + step * j \<and> I j s')"
  proof (rule for_loop_total)
    show "\<exists>j\<le>m. i = i + step * j \<and> I j s" using assms(1) by (intro exI [of _ 0]) simp
    fix k s assume "k < n" "\<exists>j\<le>m. k = i + step * j \<and> I j s"
    then obtain j where j: "j < m" "k = i + step * j" "I j s" using below by blast
    then obtain s' where "body k s = Some s'" "I (Suc j) s'" using body by blast
    then show "\<exists>s'. body k s = Some s' \<and> (\<exists>j\<le>m. k + step = i + step * j \<and> I j s')"
      using j by (intro exI [of _ s'] conjI exI [of _ "Suc j"]) auto
  qed (fact assms(2))
  then obtain s' j where s': "for_loop step i n body s = Some s'" "j \<le> m" "n \<le> i + step * j" "I j s'"
    by blast
  have "j = m"
  proof (rule ccontr)
    assume "j \<noteq> m"
    then have "step * Suc j \<le> step * m" using s'(2) by (intro mult_le_mono2) simp
    then show False using s'(3) assms(4) by simp
  qed
  then show ?thesis using s' by blast
qed

lemma for_loop_Some:
  assumes "for_loop step i n body s = Some s'" "I i s"
    and body: "\<And>j s s'. j < n \<Longrightarrow> I j s \<Longrightarrow> body j s = Some s' \<Longrightarrow> I (j + step) s'"
  shows "\<exists>k. n \<le> k \<and> I k s'"
  using assms
proof (induction step i n body s rule: for_loop.induct)
  case (1 step i n body s)
  show ?case
  proof (cases "n \<le> i")
    case True
    then show ?thesis using 1(2,3) by (subst (asm) for_loop.simps) auto
  next
    case False
    then obtain t where t: "step \<noteq> 0" "body i s = Some t" "for_loop step (i + step) n body t = Some s'"
      using 1(2) by (subst (asm) for_loop.simps) (auto split: if_splits option.splits)
    then show ?thesis using 1(1) [OF False t(1,2,3)] 1(3,4) False by force
  qed
qed

subsection \<open>The two conversions\<close>

text \<open>The scalar code: the index of the luminance samples runs on across the rows.\<close>

type_synonym chroma = "bytes \<times> bytes"

definition scalar_luma_pair :: "bytes \<Rightarrow> nat \<Rightarrow> nat \<Rightarrow> nat \<Rightarrow> nat \<times> bytes \<Rightarrow> (nat \<times> bytes) option" where
  "scalar_luma_pair src width row col = (\<lambda>(y_index, y_plane).
     let row_start = row * (width * 2) in do {
       y0 \<leftarrow> load src (row_start + col * 2);
       y_plane \<leftarrow> store_byte y_index y0 y_plane;
       y1 \<leftarrow> load src (row_start + col * 2 + 2);
       y_plane \<leftarrow> store_byte (y_index + 1) y1 y_plane;
       Some (y_index + 2, y_plane) })"

definition scalar_chroma_pair :: "bytes \<Rightarrow> nat \<Rightarrow> nat \<Rightarrow> nat \<Rightarrow> chroma \<Rightarrow> chroma option" where
  "scalar_chroma_pair src width row col = (\<lambda>(u_plane, v_plane).
     let offset = row * (width * 2) + col * 2; uv_row = row div 2 * (width div 2) in do {
       u \<leftarrow> load src (offset + 1);
       u_plane \<leftarrow> store_byte (uv_row + col div 2) u u_plane;
       v \<leftarrow> load src (offset + 3);
       v_plane \<leftarrow> store_byte (uv_row + col div 2) v v_plane;
       Some (u_plane, v_plane) })"

definition ConvertYuyv422ToI420Scalar ::
  "bytes \<Rightarrow> nat \<Rightarrow> nat \<Rightarrow> bytes \<times> bytes \<times> bytes \<Rightarrow> (bytes \<times> bytes \<times> bytes) option" where
  "ConvertYuyv422ToI420Scalar src width height = (\<lambda>(y_plane, u_plane, v_plane). do {
     (y_index, y_plane) \<leftarrow> for_loop 1 0 height
        (\<lambda>row. for_loop 2 0 width (scalar_luma_pair src width row)) (0, y_plane);
     (u_plane, v_plane) \<leftarrow> for_loop 2 0 height
        (\<lambda>row. for_loop 2 0 width (scalar_chroma_pair src width row)) (u_plane, v_plane);
     Some (y_plane, u_plane, v_plane) })"

text \<open>The NEON code. \<^verbatim>\<open>vld2q_u8\<close> reads 32 bytes and separates the even from the odd ones;
  \<^verbatim>\<open>vuzp_u8\<close> separates the even from the odd elements of two vectors put one after the other.\<close>

definition even_lanes :: "'a list \<Rightarrow> 'a list" where
  "even_lanes xs = map (\<lambda>i. xs ! (2 * i)) [0..<length xs div 2]"

definition odd_lanes :: "'a list \<Rightarrow> 'a list" where
  "odd_lanes xs = map (\<lambda>i. xs ! (2 * i + 1)) [0..<length xs div 2]"

definition vld2q_u8 :: "bytes \<Rightarrow> nat \<Rightarrow> (bytes \<times> bytes) option" where
  "vld2q_u8 mem p = map_option (\<lambda>block. (even_lanes block, odd_lanes block)) (load_block mem p 32)"

definition vuzp_u8 :: "bytes \<Rightarrow> bytes \<Rightarrow> bytes \<times> bytes" where
  "vuzp_u8 a b = (even_lanes (a @ b), odd_lanes (a @ b))"

type_synonym planes = "bytes \<times> bytes \<times> bytes"

definition neon_even_block :: "bytes \<Rightarrow> nat \<Rightarrow> nat \<Rightarrow> nat \<Rightarrow> planes \<Rightarrow> planes option" where
  "neon_even_block src width row col = (\<lambda>(y_plane, u_plane, v_plane).
     let uv_row = row div 2 * (width div 2) in do {
       (lum, chrom) \<leftarrow> vld2q_u8 src (row * (width * 2) + col * 2);
       y_plane \<leftarrow> store_block (row * width + col) lum y_plane;
       let (u, v) = vuzp_u8 (take 8 chrom) (drop 8 chrom);
       u_plane \<leftarrow> store_block (uv_row + col div 2) u u_plane;
       v_plane \<leftarrow> store_block (uv_row + col div 2) v v_plane;
       Some (y_plane, u_plane, v_plane) })"

definition neon_even_tail :: "bytes \<Rightarrow> nat \<Rightarrow> nat \<Rightarrow> nat \<Rightarrow> planes \<Rightarrow> planes option" where
  "neon_even_tail src width row col = (\<lambda>(y_plane, u_plane, v_plane).
     let p = row * (width * 2) + col * 2; uv_row = row div 2 * (width div 2) in do {
       p0 \<leftarrow> load src p;
       y_plane \<leftarrow> store_byte (row * width + col) p0 y_plane;
       p2 \<leftarrow> load src (p + 2);
       y_plane \<leftarrow> store_byte (row * width + (col + 1)) p2 y_plane;
       p1 \<leftarrow> load src (p + 1);
       u_plane \<leftarrow> store_byte (uv_row + col div 2) p1 u_plane;
       p3 \<leftarrow> load src (p + 3);
       v_plane \<leftarrow> store_byte (uv_row + col div 2) p3 v_plane;
       Some (y_plane, u_plane, v_plane) })"

definition neon_odd_block :: "bytes \<Rightarrow> nat \<Rightarrow> nat \<Rightarrow> nat \<Rightarrow> planes \<Rightarrow> planes option" where
  "neon_odd_block src width row col = (\<lambda>(y_plane, u_plane, v_plane). do {
     (lum, chrom) \<leftarrow> vld2q_u8 src (row * (width * 2) + col * 2);
     y_plane \<leftarrow> store_block (row * width + col) lum y_plane;
     Some (y_plane, u_plane, v_plane) })"

definition neon_odd_tail :: "bytes \<Rightarrow> nat \<Rightarrow> nat \<Rightarrow> nat \<Rightarrow> planes \<Rightarrow> planes option" where
  "neon_odd_tail src width row col = (\<lambda>(y_plane, u_plane, v_plane).
     let p = row * (width * 2) + col * 2 in do {
       p0 \<leftarrow> load src p;
       y_plane \<leftarrow> store_byte (row * width + col) p0 y_plane;
       p2 \<leftarrow> load src (p + 2);
       y_plane \<leftarrow> store_byte (row * width + (col + 1)) p2 y_plane;
       Some (y_plane, u_plane, v_plane) })"

definition ConvertYuyv422ToI420Neon :: "bytes \<Rightarrow> nat \<Rightarrow> nat \<Rightarrow> planes \<Rightarrow> planes option" where
  "ConvertYuyv422ToI420Neon src width height =
     (let aligned_width = width div 16 * 16 in
      for_loop 2 0 height (\<lambda>row planes. do {
        planes \<leftarrow> for_loop 16 0 aligned_width (neon_even_block src width row) planes;
        planes \<leftarrow> for_loop 2 aligned_width width (neon_even_tail src width row) planes;
        if row + 1 < height then do {
          planes \<leftarrow> for_loop 16 0 aligned_width (neon_odd_block src width (row + 1)) planes;
          for_loop 2 aligned_width width (neon_odd_tail src width (row + 1)) planes }
        else Some planes }))"

subsection \<open>Planes filled up to a position\<close>

text \<open>Both versions write every plane from its first byte on, without a gap. \<open>filled f k plane\<close> is the
  plane whose first \<open>k\<close> samples are those of \<open>f\<close>.\<close>

definition filled :: "(nat \<Rightarrow> 'a) \<Rightarrow> nat \<Rightarrow> 'a list \<Rightarrow> 'a list" where
  "filled f k plane = map f [0..<k] @ drop k plane"

lemma filled_0 [simp]: "filled f 0 plane = plane"
  by (simp add: filled_def)

lemma length_filled [simp]: "k \<le> length plane \<Longrightarrow> length (filled f k plane) = length plane"
  by (simp add: filled_def)

lemma store_filled:
  assumes "k < length plane" "b = f k"
  shows "store_byte k b (filled f k plane) = Some (filled f (Suc k) plane)"
proof -
  have "drop k plane = plane ! k # drop (Suc k) plane" using assms(1) by (rule Cons_nth_drop_Suc [symmetric])
  then show ?thesis using assms by (simp add: store_byte_def filled_def list_update_append)
qed

lemma filled_add: "filled f (k + n) plane = map f [0..<k] @ map f [k..<k + n] @ drop (k + n) plane"
  unfolding filled_def by (metis append_assoc map_append upt_add_eq_append zero_le)

lemma store_block_filled:
  assumes "k + n \<le> length plane" "bs = map f [k..<k + n]"
  shows "store_block k bs (filled f k plane) = Some (filled f (k + n) plane)"
proof -
  have len: "length bs = n" unfolding assms(2) by (simp only: length_map length_upt diff_add_inverse)
  have "take k (filled f k plane) = map f [0..<k]" by (simp add: filled_def)
  moreover have "drop (k + n) (filled f k plane) = drop (k + n) plane"
    by (simp add: filled_def add.commute)
  moreover have "k + length bs \<le> length (filled f k plane)" using assms(1) len by simp
  ultimately show ?thesis
    unfolding store_block_def write_at_def filled_add by (simp only: len if_True) (simp only: assms(2))
qed

lemma load_Some: "i < length mem \<Longrightarrow> load mem i = Some (mem ! i)"
  by (simp add: load_def)

lemma vld2q_u8_Some:
  assumes "p + 32 \<le> length mem"
  shows "vld2q_u8 mem p = Some (map (\<lambda>i. mem ! (p + 2 * i)) [0..<16], map (\<lambda>i. mem ! (p + 2 * i + 1)) [0..<16])"
proof -
  have l: "length (slice p 32 mem) div 2 = 16" using assms by simp
  have "even_lanes (slice p 32 mem) = map (\<lambda>i. mem ! (p + 2 * i)) [0..<16]"
    unfolding even_lanes_def l using assms by (intro map_cong refl) (subst nth_slice, auto)
  moreover have "odd_lanes (slice p 32 mem) = map (\<lambda>i. mem ! (p + 2 * i + 1)) [0..<16]"
    unfolding odd_lanes_def l using assms by (intro map_cong refl) (subst nth_slice, auto)
  ultimately show ?thesis
    unfolding vld2q_u8_def load_block_def if_P [OF assms] option.map by (simp only:)
qed

lemma vuzp_u8_map:
  "vuzp_u8 (take 8 (map f [0..<16])) (drop 8 (map f [0..<16])) =
     (map (\<lambda>i. f (2 * i)) [0..<8], map (\<lambda>i. f (2 * i + 1)) [0..<8])"
proof -
  have l: "length (map f [0..<16]) div 2 = 8" by (simp only: length_map length_upt)
  show ?thesis unfolding vuzp_u8_def append_take_drop_id even_lanes_def odd_lanes_def l prod.inject
    by (intro conjI map_cong refl) auto
qed

subsection \<open>What both versions compute\<close>

text \<open>Sample \<open>k\<close> of the luminance plane is byte \<open>2 k\<close> of the packed frame. Sample \<open>k\<close> of a chrominance
  plane belongs to a pair of pixels of an even row, whose four bytes start at \<open>chroma_offset\<close>.\<close>

definition luma_sample :: "bytes \<Rightarrow> nat \<Rightarrow> u8" where
  "luma_sample src k = src ! (2 * k)"

definition chroma_offset :: "nat \<Rightarrow> nat \<Rightarrow> nat" where
  "chroma_offset width k = (k div (width div 2)) * (4 * width) + 4 * (k mod (width div 2))"

definition u_sample :: "bytes \<Rightarrow> nat \<Rightarrow> nat \<Rightarrow> u8" where
  "u_sample src width k = src ! (chroma_offset width k + 1)"

definition v_sample :: "bytes \<Rightarrow> nat \<Rightarrow> nat \<Rightarrow> u8" where
  "v_sample src width k = src ! (chroma_offset width k + 3)"

definition chroma_size :: "nat \<Rightarrow> nat \<Rightarrow> nat" where
  "chroma_size width height = width div 2 * ((height + 1) div 2)"

definition I420_of_YUYV :: "bytes \<Rightarrow> nat \<Rightarrow> nat \<Rightarrow> planes \<Rightarrow> planes" where
  "I420_of_YUYV src width height = (\<lambda>(y_plane, u_plane, v_plane).
     (filled (luma_sample src) (width * height) y_plane,
      filled (u_sample src width) (chroma_size width height) u_plane,
      filled (v_sample src width) (chroma_size width height) v_plane))"

text \<open>The buffers are large enough for a frame of the given size.\<close>

definition buffers_fit :: "bytes \<Rightarrow> nat \<Rightarrow> nat \<Rightarrow> planes \<Rightarrow> bool" where
  "buffers_fit src width height = (\<lambda>(y_plane, u_plane, v_plane).
     width * height * 2 \<le> length src \<and> width * height \<le> length y_plane \<and>
     chroma_size width height \<le> length u_plane \<and> chroma_size width height \<le> length v_plane)"

lemma row_fits:
  assumes "row < height" "col + n \<le> (width :: nat)"
  shows "row * width + col + n \<le> width * height"
proof -
  have "row * width + width \<le> height * width" using assms(1)
    by (metis Suc_leI add.commute mult_Suc mult_le_mono1)
  then show ?thesis using assms(2) by (simp add: mult.commute)
qed

lemma chroma_fits:
  assumes "2 * r < height" "c + n \<le> (m :: nat)"
  shows "r * m + c + n \<le> chroma_size (2 * m) height"
  using row_fits [of r "(height + 1) div 2" c n m] assms by (simp add: chroma_size_def)

lemma chroma_offset_pair: "c < m \<Longrightarrow> chroma_offset (2 * m) (r * m + c) = 2 * r * (2 * m * 2) + 2 * c * 2"
  by (simp add: chroma_offset_def)

subsection \<open>The scalar version\<close>

lemma store_filled2:
  assumes "Suc k < length plane"
  shows "store_byte k (f k) (filled f k plane) \<bind> (\<lambda>p. store_byte (Suc k) (f (Suc k)) p \<bind> g) =
    g (filled f (Suc (Suc k)) plane)"
  using assms by (simp add: store_filled)

lemma scalar_luma_pair_filled:
  assumes "Suc k < length y" "2 * k + 2 < length src" "row * (width * 2) + col * 2 = 2 * k"
  shows "scalar_luma_pair src width row col (k, filled (luma_sample src) k y) =
    Some (k + 2, filled (luma_sample src) (k + 2) y)"
proof -
  have "load src (2 * k) = Some (luma_sample src k)" "load src (2 * k + 2) = Some (luma_sample src (Suc k))"
    using assms(2) by (simp_all add: load_def luma_sample_def)
  then show ?thesis unfolding scalar_luma_pair_def prod.case Let_def assms(3)
    using store_filled2 [OF assms(1), of "luma_sample src"] by simp
qed

lemma scalar_chroma_pair_filled:
  assumes "k < length u" "k < length v" "chroma_offset width k + 3 < length src"
    and "row * (width * 2) + col * 2 = chroma_offset width k"
    and "row div 2 * (width div 2) + col div 2 = k"
  shows "scalar_chroma_pair src width row col
      (filled (u_sample src width) k u, filled (v_sample src width) k v) =
    Some (filled (u_sample src width) (Suc k) u, filled (v_sample src width) (Suc k) v)"
proof -
  have "load src (chroma_offset width k + 1) = Some (u_sample src width k)"
    "load src (chroma_offset width k + 3) = Some (v_sample src width k)"
    using assms(3) by (simp_all add: load_def u_sample_def v_sample_def)
  then show ?thesis unfolding scalar_chroma_pair_def prod.case Let_def assms(4,5)
    by (simp add: store_filled assms(1,2))
qed

lemma scalar_luma_row:
  assumes "row < height" "2 * m * height * 2 \<le> length src" "2 * m * height \<le> length y"
  shows "for_loop 2 0 (2 * m) (scalar_luma_pair src (2 * m) row)
           (row * (2 * m), filled (luma_sample src) (row * (2 * m)) y) =
         Some (Suc row * (2 * m), filled (luma_sample src) (Suc row * (2 * m)) y)"
proof -
  let ?k = "\<lambda>c. row * (2 * m) + 2 * c"
  have "\<exists>s'. for_loop 2 0 (2 * m) (scalar_luma_pair src (2 * m) row)
      (row * (2 * m), filled (luma_sample src) (row * (2 * m)) y) = Some s' \<and>
    s' = (?k m, filled (luma_sample src) (?k m) y)"
  proof (rule for_loop_count [where I = "\<lambda>c s. s = (?k c, filled (luma_sample src) (?k c) y)"])
    fix c s assume c: "c < m" and s: "s = (?k c, filled (luma_sample src) (?k c) y)"
    have "?k c + 2 \<le> 2 * m * height" using row_fits [OF assms(1), of "2 * c" 2 "2 * m"] c by simp
    then have k: "Suc (?k c) < length y" "2 * ?k c + 2 < length src"
      using assms(2,3) by simp_all
    have "scalar_luma_pair src (2 * m) row (2 * c) s = Some (?k (Suc c), filled (luma_sample src) (?k (Suc c)) y)"
      using scalar_luma_pair_filled [OF k, of row "2 * m" "2 * c"] by (simp add: s)
    then show "\<exists>s'. scalar_luma_pair src (2 * m) row (0 + 2 * c) s = Some s' \<and>
        s' = (?k (Suc c), filled (luma_sample src) (?k (Suc c)) y)" by simp
  qed simp_all
  then show ?thesis by (simp add: add.commute)
qed

lemma scalar_chroma_row:
  assumes "2 * r < height" "2 * m * height * 2 \<le> length src"
    and "chroma_size (2 * m) height \<le> length u" "chroma_size (2 * m) height \<le> length v"
  shows "for_loop 2 0 (2 * m) (scalar_chroma_pair src (2 * m) (2 * r))
           (filled (u_sample src (2 * m)) (r * m) u, filled (v_sample src (2 * m)) (r * m) v) =
         Some (filled (u_sample src (2 * m)) (Suc r * m) u, filled (v_sample src (2 * m)) (Suc r * m) v)"
proof -
  let ?P = "\<lambda>k. (filled (u_sample src (2 * m)) k u, filled (v_sample src (2 * m)) k v)"
  have "\<exists>s'. for_loop 2 0 (2 * m) (scalar_chroma_pair src (2 * m) (2 * r)) (?P (r * m)) = Some s' \<and>
    s' = ?P (r * m + m)"
  proof (rule for_loop_count [where I = "\<lambda>c s. s = ?P (r * m + c)"])
    fix c s assume c: "c < m" and s: "s = ?P (r * m + c)"
    have "r * m + c + 1 \<le> chroma_size (2 * m) height" using chroma_fits [OF assms(1), of c 1 m] c by simp
    then have k: "r * m + c < length u" "r * m + c < length v" using assms(3,4) by simp_all
    have "2 * r * (2 * m) + 2 * c + 2 \<le> 2 * m * height"
      using row_fits [OF assms(1), of "2 * c" 2 "2 * m"] c by simp
    then have o3: "chroma_offset (2 * m) (r * m + c) + 3 < length src"
      unfolding chroma_offset_pair [OF c] using assms(2) by linarith
    have "scalar_chroma_pair src (2 * m) (2 * r) (2 * c) s = Some (?P (r * m + Suc c))"
      unfolding s add_Suc_right
      by (rule scalar_chroma_pair_filled [OF k o3]) (simp_all add: chroma_offset_pair [OF c])
    then show "\<exists>s'. scalar_chroma_pair src (2 * m) (2 * r) (0 + 2 * c) s = Some s' \<and>
        s' = ?P (r * m + Suc c)" by simp
  qed simp_all
  then show ?thesis by (simp add: add.commute)
qed

lemma scalar_converts:
  assumes "even width" "buffers_fit src width height planes"
  shows "ConvertYuyv422ToI420Scalar src width height planes = Some (I420_of_YUYV src width height planes)"
proof -
  obtain m where m: "width = 2 * m" using assms(1) by (rule evenE)
  obtain y u v where planes: "planes = (y, u, v)" by (cases planes) auto
  have fit: "2 * m * height * 2 \<le> length src" "2 * m * height \<le> length y"
    "chroma_size (2 * m) height \<le> length u" "chroma_size (2 * m) height \<le> length v"
    using assms(2) unfolding buffers_fit_def planes m prod.case by blast+
  have "\<exists>s'. for_loop 1 0 height (\<lambda>row. for_loop 2 0 (2 * m) (scalar_luma_pair src (2 * m) row)) (0, y) = Some s' \<and>
    s' = (height * (2 * m), filled (luma_sample src) (height * (2 * m)) y)"
  proof (rule for_loop_count [where I = "\<lambda>row s. s = (row * (2 * m), filled (luma_sample src) (row * (2 * m)) y)"])
    fix row s
    assume "row < height" "s = (row * (2 * m), filled (luma_sample src) (row * (2 * m)) y)"
    then show "\<exists>s'. for_loop 2 0 (2 * m) (scalar_luma_pair src (2 * m) (0 + 1 * row)) s = Some s' \<and>
      s' = (Suc row * (2 * m), filled (luma_sample src) (Suc row * (2 * m)) y)"
      using scalar_luma_row fit(1,2) by simp
  qed simp_all
  moreover have "\<exists>s'. for_loop 2 0 height (\<lambda>row. for_loop 2 0 (2 * m) (scalar_chroma_pair src (2 * m) row)) (u, v) = Some s' \<and>
    s' = (filled (u_sample src (2 * m)) ((height + 1) div 2 * m) u, filled (v_sample src (2 * m)) ((height + 1) div 2 * m) v)"
  proof (rule for_loop_count [where I = "\<lambda>r s. s = (filled (u_sample src (2 * m)) (r * m) u, filled (v_sample src (2 * m)) (r * m) v)"])
    fix r s
    assume r: "r < (height + 1) div 2"
      and s: "s = (filled (u_sample src (2 * m)) (r * m) u, filled (v_sample src (2 * m)) (r * m) v)"
    have "2 * r < height" using r by linarith
    then show "\<exists>s'. for_loop 2 0 (2 * m) (scalar_chroma_pair src (2 * m) (0 + 2 * r)) s = Some s' \<and>
      s' = (filled (u_sample src (2 * m)) (Suc r * m) u, filled (v_sample src (2 * m)) (Suc r * m) v)"
      using scalar_chroma_row fit(1,3,4) s by simp
  qed (simp, simp, linarith, linarith)
  ultimately show ?thesis
    by (simp add: ConvertYuyv422ToI420Scalar_def I420_of_YUYV_def planes m chroma_size_def mult.commute)
qed

subsection \<open>The NEON version\<close>

lemma map_upt_shift: "map f [k..<k + n] = map (\<lambda>i. f (k + i)) [0..<n]"
  by (rule nth_equalityI) auto

definition yuv_filled :: "bytes \<Rightarrow> nat \<Rightarrow> nat \<Rightarrow> nat \<Rightarrow> planes \<Rightarrow> planes" where
  "yuv_filled src width k kc = (\<lambda>(y, u, v).
     (filled (luma_sample src) k y, filled (u_sample src width) kc u, filled (v_sample src width) kc v))"

lemma vld2q_u8_luma:
  assumes "2 * k + 32 \<le> length src"
  shows "vld2q_u8 src (2 * k) =
    Some (map (luma_sample src) [k..<k + 16], map (\<lambda>i. src ! (2 * k + 2 * i + 1)) [0..<16])"
  unfolding vld2q_u8_Some [OF assms] map_upt_shift luma_sample_def
  by (simp only: option.inject prod.inject add_mult_distrib2)

lemma neon_even_block_filled:
  assumes "k + 16 \<le> length y" "kc + 8 \<le> length u" "kc + 8 \<le> length v" "2 * k + 32 \<le> length src"
    and idx: "row * (width * 2) + col * 2 = 2 * k" "row * width + col = k"
      "row div 2 * (width div 2) + col div 2 = kc"
    and off: "\<And>i. i < 8 \<Longrightarrow> chroma_offset width (kc + i) = 2 * k + 4 * i"
  shows "neon_even_block src width row col (yuv_filled src width k kc (y, u, v)) =
    Some (yuv_filled src width (k + 16) (kc + 8) (y, u, v))"
proof -
  let ?f = "\<lambda>i. src ! (2 * k + 2 * i + 1)"
  have u: "map (\<lambda>i. ?f (2 * i)) [0..<8] = map (u_sample src width) [kc..<kc + 8]"
    unfolding map_upt_shift u_sample_def by (intro map_cong refl) (simp add: off)
  have v: "map (\<lambda>i. ?f (2 * i + 1)) [0..<8] = map (v_sample src width) [kc..<kc + 8]"
    unfolding map_upt_shift v_sample_def by (intro map_cong refl) (simp add: off numeral_3_eq_3)
  have "vuzp_u8 (take 8 (map ?f [0..<16])) (drop 8 (map ?f [0..<16])) =
      (map (u_sample src width) [kc..<kc + 8], map (v_sample src width) [kc..<kc + 8])"
    unfolding vuzp_u8_map u v ..
  then show ?thesis
    unfolding neon_even_block_def yuv_filled_def prod.case Let_def idx vld2q_u8_luma [OF assms(4)]
      Option.bind.bind_lunit
    by (simp only: prod.case store_block_filled [OF assms(1) refl] store_block_filled [OF assms(2) refl]
        store_block_filled [OF assms(3) refl] Option.bind.bind_lunit)
qed

lemma neon_odd_block_filled:
  assumes "k + 16 \<le> length y" "2 * k + 32 \<le> length src"
    and idx: "row * (width * 2) + col * 2 = 2 * k" "row * width + col = k"
  shows "neon_odd_block src width row col (yuv_filled src width k kc (y, u, v)) =
    Some (yuv_filled src width (k + 16) kc (y, u, v))"
  unfolding neon_odd_block_def yuv_filled_def prod.case idx vld2q_u8_luma [OF assms(2)] Option.bind.bind_lunit
  by (simp only: prod.case store_block_filled [OF assms(1) refl] Option.bind.bind_lunit)

lemma neon_even_tail_filled:
  assumes "Suc k < length y" "kc < length u" "kc < length v" "2 * k + 3 < length src"
    and idx: "row * (width * 2) + col * 2 = 2 * k" "row * width + col = k" "row * width + (col + 1) = Suc k"
      "row div 2 * (width div 2) + col div 2 = kc"
    and off: "chroma_offset width kc = 2 * k"
  shows "neon_even_tail src width row col (yuv_filled src width k kc (y, u, v)) =
    Some (yuv_filled src width (k + 2) (Suc kc) (y, u, v))"
proof -
  have "load src (2 * k) = Some (luma_sample src k)" "load src (2 * k + 2) = Some (luma_sample src (Suc k))"
    "load src (2 * k + 1) = Some (u_sample src width kc)" "load src (2 * k + 3) = Some (v_sample src width kc)"
    using assms(4) by (simp_all add: load_def luma_sample_def u_sample_def v_sample_def off)
  then show ?thesis unfolding neon_even_tail_def yuv_filled_def prod.case Let_def idx
    by (simp add: store_filled2 [OF assms(1), of "luma_sample src"] store_filled assms(2,3))
qed

lemma neon_odd_tail_filled:
  assumes "Suc k < length y" "2 * k + 3 < length src"
    and idx: "row * (width * 2) + col * 2 = 2 * k" "row * width + col = k" "row * width + (col + 1) = Suc k"
  shows "neon_odd_tail src width row col (yuv_filled src width k kc (y, u, v)) =
    Some (yuv_filled src width (k + 2) kc (y, u, v))"
proof -
  have "load src (2 * k) = Some (luma_sample src k)" "load src (2 * k + 2) = Some (luma_sample src (Suc k))"
    using assms(2) by (simp_all add: load_def luma_sample_def)
  then show ?thesis unfolding neon_odd_tail_def yuv_filled_def prod.case Let_def idx
    by (simp add: store_filled2 [OF assms(1), of "luma_sample src"])
qed

lemma neon_even_row:
  assumes fit: "buffers_fit src (2 * m) height (y, u, v)" and r: "2 * r < height"
  shows "(do { s \<leftarrow> for_loop 16 0 (16 * (m div 8)) (neon_even_block src (2 * m) (2 * r))
                (yuv_filled src (2 * m) (2 * r * (2 * m)) (r * m) (y, u, v));
               for_loop 2 (16 * (m div 8)) (2 * m) (neon_even_tail src (2 * m) (2 * r)) s }) =
    Some (yuv_filled src (2 * m) (2 * r * (2 * m) + 2 * m) (r * m + m) (y, u, v))"
proof -
  let ?k = "2 * r * (2 * m)" and ?q = "m div 8"
  let ?P = "\<lambda>a b. yuv_filled src (2 * m) (?k + a) (r * m + b) (y, u, v)"
  have luma: "?k + a \<le> length y \<and> 2 * (?k + a) \<le> length src" if "a \<le> 2 * m" for a
    using row_fits [OF r, of a 0 "2 * m"] that fit unfolding buffers_fit_def by simp
  have chroma: "r * m + b \<le> length u \<and> r * m + b \<le> length v" if "b \<le> m" for b
    using chroma_fits [OF r, of b 0 m] that fit unfolding buffers_fit_def by simp
  have 1: "\<exists>s'. for_loop 16 0 (16 * ?q) (neon_even_block src (2 * m) (2 * r)) (?P 0 0) = Some s' \<and>
      s' = ?P (16 * ?q) (8 * ?q)"
  proof (rule for_loop_count [where I = "\<lambda>j s. s = ?P (16 * j) (8 * j)"])
    fix j s assume j: "j < ?q" and s: "s = ?P (16 * j) (8 * j)"
    have j': "8 * j + 8 \<le> m" using j by simp
    have "neon_even_block src (2 * m) (2 * r) (16 * j) s = Some (?P (16 * j + 16) (8 * j + 8))"
      unfolding s add.assoc [symmetric]
      by (rule neon_even_block_filled)
        (use luma [of "16 * j + 16"] chroma [of "8 * j + 8"] j' in
          \<open>simp_all add: add.assoc chroma_offset_pair distrib_left\<close>)
    then show "\<exists>s'. neon_even_block src (2 * m) (2 * r) (0 + 16 * j) s = Some s' \<and>
        s' = ?P (16 * Suc j) (8 * Suc j)" by (simp add: add.commute)
  qed simp_all
  have 2: "\<exists>s'. for_loop 2 (16 * ?q) (2 * m) (neon_even_tail src (2 * m) (2 * r)) (?P (16 * ?q) (8 * ?q)) = Some s' \<and>
      s' = ?P (16 * ?q + 2 * (m - 8 * ?q)) (8 * ?q + (m - 8 * ?q))"
  proof (rule for_loop_count [where I = "\<lambda>j s. s = ?P (16 * ?q + 2 * j) (8 * ?q + j)"])
    fix j s assume j: "j < m - 8 * ?q" and s: "s = ?P (16 * ?q + 2 * j) (8 * ?q + j)"
    define c where "c = 8 * ?q + j"
    have c: "c < m" "16 * ?q + 2 * j = 2 * c" using j by (simp_all add: c_def)
    have next_c: "16 * ?q + 2 * Suc j = 2 * c + 2" "8 * ?q + j = c" "8 * ?q + Suc j = Suc c"
      by (simp_all add: c_def)
    have "neon_even_tail src (2 * m) (2 * r) (2 * c) (?P (2 * c) c) = Some (?P (2 * c + 2) (Suc c))"
      unfolding add.assoc [symmetric] add_Suc_right
      by (rule neon_even_tail_filled)
        (use luma [of "2 * c + 2"] chroma [of "c + 1"] c in
          \<open>simp_all add: add.assoc chroma_offset_pair distrib_left\<close>)
    then show "\<exists>s'. neon_even_tail src (2 * m) (2 * r) (16 * ?q + 2 * j) s = Some s' \<and>
        s' = ?P (16 * ?q + 2 * Suc j) (8 * ?q + Suc j)"
      unfolding s next_c c(2) by blast
  qed auto
  have "16 * ?q + 2 * (m - 8 * ?q) = 2 * m" "8 * ?q + (m - 8 * ?q) = m"
    using div_times_less_eq_dividend [of m 8] by linarith+
  with 2 have "for_loop 2 (16 * ?q) (2 * m) (neon_even_tail src (2 * m) (2 * r)) (?P (16 * ?q) (8 * ?q)) =
      Some (?P (2 * m) m)" by (auto simp only:)
  moreover have "for_loop 16 0 (16 * ?q) (neon_even_block src (2 * m) (2 * r)) (?P 0 0) =
      Some (?P (16 * ?q) (8 * ?q))" using 1 by (auto simp only:)
  ultimately show ?thesis unfolding add_0_right by (simp only: Option.bind.bind_lunit)
qed

lemma neon_odd_row:
  assumes fit: "buffers_fit src (2 * m) height (y, u, v)" and r: "row < height"
  shows "(do { s \<leftarrow> for_loop 16 0 (16 * (m div 8)) (neon_odd_block src (2 * m) row)
                (yuv_filled src (2 * m) (row * (2 * m)) kc (y, u, v));
               for_loop 2 (16 * (m div 8)) (2 * m) (neon_odd_tail src (2 * m) row) s }) =
    Some (yuv_filled src (2 * m) (row * (2 * m) + 2 * m) kc (y, u, v))"
proof -
  let ?k = "row * (2 * m)" and ?q = "m div 8"
  let ?P = "\<lambda>a. yuv_filled src (2 * m) (?k + a) kc (y, u, v)"
  have luma: "?k + a \<le> length y \<and> 2 * (?k + a) \<le> length src" if "a \<le> 2 * m" for a
    using row_fits [OF r, of a 0 "2 * m"] that fit unfolding buffers_fit_def by simp
  have 1: "\<exists>s'. for_loop 16 0 (16 * ?q) (neon_odd_block src (2 * m) row) (?P 0) = Some s' \<and> s' = ?P (16 * ?q)"
  proof (rule for_loop_count [where I = "\<lambda>j s. s = ?P (16 * j)"])
    fix j s assume j: "j < ?q" and s: "s = ?P (16 * j)"
    have "neon_odd_block src (2 * m) row (16 * j) s = Some (?P (16 * j + 16))"
      unfolding s add.assoc [symmetric]
      by (rule neon_odd_block_filled) (use luma [of "16 * j + 16"] j in \<open>simp_all add: add.assoc distrib_left\<close>)
    then show "\<exists>s'. neon_odd_block src (2 * m) row (0 + 16 * j) s = Some s' \<and> s' = ?P (16 * Suc j)"
      by (simp add: add.commute)
  qed simp_all
  have 2: "\<exists>s'. for_loop 2 (16 * ?q) (2 * m) (neon_odd_tail src (2 * m) row) (?P (16 * ?q)) = Some s' \<and>
      s' = ?P (16 * ?q + 2 * (m - 8 * ?q))"
  proof (rule for_loop_count [where I = "\<lambda>j s. s = ?P (16 * ?q + 2 * j)"])
    fix j s assume j: "j < m - 8 * ?q" and s: "s = ?P (16 * ?q + 2 * j)"
    define c where "c = 8 * ?q + j"
    have c: "c < m" "16 * ?q + 2 * j = 2 * c" using j by (simp_all add: c_def)
    have next_c: "16 * ?q + 2 * Suc j = 2 * c + 2" "8 * ?q + j = c" "8 * ?q + Suc j = Suc c"
      by (simp_all add: c_def)
    have "neon_odd_tail src (2 * m) row (2 * c) (?P (2 * c)) = Some (?P (2 * c + 2))"
      unfolding add.assoc [symmetric]
      by (rule neon_odd_tail_filled) (use luma [of "2 * c + 2"] c in \<open>simp_all add: add.assoc distrib_left\<close>)
    then show "\<exists>s'. neon_odd_tail src (2 * m) row (16 * ?q + 2 * j) s = Some s' \<and> s' = ?P (16 * ?q + 2 * Suc j)"
      unfolding s next_c c(2) by blast
  qed auto
  have "16 * ?q + 2 * (m - 8 * ?q) = 2 * m"
    using div_times_less_eq_dividend [of m 8] by linarith
  with 2 have "for_loop 2 (16 * ?q) (2 * m) (neon_odd_tail src (2 * m) row) (?P (16 * ?q)) = Some (?P (2 * m))"
    by (auto simp only:)
  moreover have "for_loop 16 0 (16 * ?q) (neon_odd_block src (2 * m) row) (?P 0) = Some (?P (16 * ?q))"
    using 1 by (auto simp only:)
  ultimately show ?thesis unfolding add_0_right by (simp only: Option.bind.bind_lunit)
qed

lemma neon_converts:
  assumes "even width" "buffers_fit src width height planes"
  shows "ConvertYuyv422ToI420Neon src width height planes = Some (I420_of_YUYV src width height planes)"
proof -
  obtain m where m: "width = 2 * m" using assms(1) by (rule evenE)
  obtain y u v where planes: "planes = (y, u, v)" by (cases planes) auto
  note fit = assms(2) [unfolded planes m]
  have al: "2 * m div 16 * 16 = 16 * (m div 8)" using div_mult2_eq [of "2 * m" 2 8] by simp
  let ?P = "\<lambda>r. yuv_filled src (2 * m) (min (2 * r) height * (2 * m)) (r * m) (y, u, v)"
  let ?M = "(height + 1) div 2"
  let ?body = "\<lambda>row planes. do {
        planes \<leftarrow> for_loop 16 0 (16 * (m div 8)) (neon_even_block src (2 * m) row) planes;
        planes \<leftarrow> for_loop 2 (16 * (m div 8)) (2 * m) (neon_even_tail src (2 * m) row) planes;
        if row + 1 < height then do {
          planes \<leftarrow> for_loop 16 0 (16 * (m div 8)) (neon_odd_block src (2 * m) (row + 1)) planes;
          for_loop 2 (16 * (m div 8)) (2 * m) (neon_odd_tail src (2 * m) (row + 1)) planes }
        else Some planes }"
  have "\<exists>s'. for_loop 2 0 height ?body (y, u, v) = Some s' \<and> s' = ?P ?M"
  proof (rule for_loop_count [where I = "\<lambda>r s. s = ?P r"])
    show "(y, u, v) = ?P 0" by (simp add: yuv_filled_def)
    fix r s assume r: "r < ?M" and s: "s = ?P r"
    have r': "2 * r < height" using r by linarith
    have p: "?P r = yuv_filled src (2 * m) (2 * r * (2 * m)) (r * m) (y, u, v)"
      using r' by (simp add: min_def)
    show "\<exists>s'. ?body (0 + 2 * r) s = Some s' \<and> s' = ?P (Suc r)"
    proof (cases "2 * r + 1 < height")
      case True
      have q: "2 * r * (2 * m) + 2 * m = (2 * r + 1) * (2 * m)" by simp
      have "?body (2 * r) s = Some (yuv_filled src (2 * m) ((2 * r + 1) * (2 * m) + 2 * m) (r * m + m) (y, u, v))"
        using neon_even_row [OF fit r'] neon_odd_row [OF fit True, of "r * m + m"] True
        unfolding s p q Option.bind_assoc [symmetric] by simp
      then show ?thesis using True by (simp add: min_def algebra_simps)
    next
      case False
      have h: "2 * r + 1 = height" using False r' by linarith
      have "?body (2 * r) s = Some (yuv_filled src (2 * m) (2 * r * (2 * m) + 2 * m) (r * m + m) (y, u, v))"
        using neon_even_row [OF fit r'] False unfolding s p Option.bind_assoc [symmetric] by simp
      then show ?thesis using h [symmetric] by (simp add: min_def algebra_simps)
    qed
  qed (simp, linarith, linarith)
  moreover have "min (2 * ?M) height = height" by linarith
  ultimately show ?thesis
    unfolding ConvertYuyv422ToI420Neon_def Let_def planes m al
    by (simp add: I420_of_YUYV_def yuv_filled_def chroma_size_def mult.commute)
qed

subsection \<open>Properties\<close>

text \<open>C11: The two versions of the colour conversion are equivalent: for a frame of even width whose
  buffers have the size of the frame, the NEON version (sixteen pixels at a time, with a scalar
  tail, rows in pairs) and the scalar version both end without leaving a buffer, and both
  leave the same three planes: every luminance sample, and the chrominance of the even rows.\<close>

theorem neon_equals_scalar:
  assumes "even width" "buffers_fit src width height planes"
  shows "ConvertYuyv422ToI420Neon src width height planes = Some (I420_of_YUYV src width height planes) \<and>
    ConvertYuyv422ToI420Scalar src width height planes = Some (I420_of_YUYV src width height planes)"
  using neon_converts [OF assms] scalar_converts [OF assms] by (rule conjI)

theorem neon_equals_scalar_witness:
  "ConvertYuyv422ToI420Neon (map word_of_nat [0..<8]) 2 2 ([0, 0, 0, 0], [0], [0]) = Some ([0, 2, 4, 6], [1], [3]) \<and>
   ConvertYuyv422ToI420Scalar (map word_of_nat [0..<8]) 2 2 ([0, 0, 0, 0], [0], [0]) = Some ([0, 2, 4, 6], [1], [3])"
proof -
  have "buffers_fit (map word_of_nat [0..<8]) 2 2 ([0, 0, 0, 0], [0], [0])"
    by (simp add: buffers_fit_def chroma_size_def)
  moreover have "I420_of_YUYV (map word_of_nat [0..<8]) 2 2 ([0, 0, 0, 0], [0], [0]) = ([0, 2, 4, 6], [1], [3])"
    by code_simp
  ultimately show ?thesis using neon_equals_scalar [of 2 "map word_of_nat [0..<8]" 2 "([0, 0, 0, 0], [0], [0])"]
    by simp
qed

text \<open>The conversion needs the even width: with an odd one the running index of the scalar version
  reaches \<open>height * (width + 1)\<close> and the conversion leaves a luminance plane of the size of the frame.\<close>

lemma store_byte_Some: "store_byte i b mem = Some mem' \<Longrightarrow> i < length mem \<and> length mem' = length mem"
  by (auto simp: store_byte_def split: if_splits)

lemma scalar_luma_pair_index:
  assumes "scalar_luma_pair src width row col (k, y) = Some (k', y')"
  shows "k' = k + 2 \<and> Suc k < length y \<and> length y' = length y"
  using assms by (auto simp: scalar_luma_pair_def Let_def bind_eq_Some_conv dest!: store_byte_Some)

lemma scalar_luma_row_index:
  assumes "for_loop 2 0 width (scalar_luma_pair src width row) (k, y) = Some (k', y')" "odd width"
  shows "k' = k + width + 1 \<and> k' \<le> length y \<and> length y' = length y"
proof -
  have "\<exists>j. width \<le> j \<and> (case (k', y') of (a, p) \<Rightarrow>
      even j \<and> j \<le> width + 1 \<and> a = k + j \<and> length p = length y \<and> (j = 0 \<or> a \<le> length y))"
  proof (rule for_loop_Some [OF assms(1)])
    fix j s s'
    assume j: "j < width" and s: "case s of (a, p) \<Rightarrow>
        even j \<and> j \<le> width + 1 \<and> a = k + j \<and> length p = length y \<and> (j = 0 \<or> a \<le> length y)"
      and step: "scalar_luma_pair src width row j s = Some s'"
    obtain a p a' p' where "s = (a, p)" "s' = (a', p')" by fastforce
    then show "case s' of (a, p) \<Rightarrow>
        even (j + 2) \<and> j + 2 \<le> width + 1 \<and> a = k + (j + 2) \<and> length p = length y \<and> (j + 2 = 0 \<or> a \<le> length y)"
      using scalar_luma_pair_index [of src width row j a p a' p'] s step j by simp
  qed simp
  then obtain j where j: "width \<le> j" "even j" "j \<le> width + 1" "k' = k + j" "length y' = length y"
    "j = 0 \<or> k' \<le> length y" by auto
  have "j = width + 1" using j(1,2,3) assms(2) by (metis add.commute le_Suc_eq le_antisym plus_1_eq_Suc)
  then show ?thesis using j by simp
qed

theorem odd_width_overflows:
  assumes "odd width" "0 < height" "length y_plane = width * height"
  shows "ConvertYuyv422ToI420Scalar src width height (y_plane, u_plane, v_plane) = None"
proof (rule ccontr)
  assume "ConvertYuyv422ToI420Scalar src width height (y_plane, u_plane, v_plane) \<noteq> None"
  then obtain n p where rows: "for_loop 1 0 height
        (\<lambda>row. for_loop 2 0 width (scalar_luma_pair src width row)) (0, y_plane) = Some (n, p)"
    by (auto simp: ConvertYuyv422ToI420Scalar_def bind_eq_None_conv)
  have "\<exists>k. height \<le> k \<and> (case (n, p) of (a, p) \<Rightarrow>
      a = k * (width + 1) \<and> length p = length y_plane \<and> (k = 0 \<or> a \<le> length y_plane))"
  proof (rule for_loop_Some [OF rows])
    fix k s s'
    assume s: "case s of (a, p) \<Rightarrow>
        a = k * (width + 1) \<and> length p = length y_plane \<and> (k = 0 \<or> a \<le> length y_plane)"
      and step: "for_loop 2 0 width (scalar_luma_pair src width k) s = Some s'"
    obtain a p a' p' where "s = (a, p)" "s' = (a', p')" by fastforce
    then show "case s' of (a, p) \<Rightarrow>
        a = (k + 1) * (width + 1) \<and> length p = length y_plane \<and> (k + 1 = 0 \<or> a \<le> length y_plane)"
      using scalar_luma_row_index [of width src k a p a' p'] s step assms(1) by simp
  qed simp
  then obtain k where k: "height \<le> k" "k * (width + 1) \<le> length y_plane" using assms(2) by auto
  have "height * (width + 1) \<le> k * (width + 1)" using k(1) by (rule mult_le_mono1)
  then show False using k(2) assms(2,3) by (simp add: mult.commute)
qed

end
