(* ===== verification/Video_Encoder.thy ===== *)
theory Video_Encoder
  imports Yuv_Convert Config_Loader
begin

section \<open>The video encoder\<close>

text \<open>
  \<^verbatim>\<open>sserver/src/modules/encoding/video/x264/X264VideoEncoderBackend.cpp\<close>, the encoder on top of
  the x264 library, and \<^verbatim>\<open>VideoEncoder.h\<close> and \<^verbatim>\<open>VideoEncoder.cpp\<close>, its facade. The x264 library is not
  part of the repository: its entry points are the parameter \<open>x264_library\<close> of the model, with
  an encoder handle of any type \<open>'h\<close> that \<open>x264_encode\<close> returns changed. The handle does not show
  that the library closes it. \<^verbatim>\<open>malloc\<close> leaves its block uninitialised, so the picture is
  \<open>Uninitialised\<close> until \<^verbatim>\<open>x264_picture_alloc\<close> has run; cleaning such a picture frees the
  pointers it happens to contain, which is undefined (\<open>None\<close>).
\<close>

subsection \<open>The library\<close>

text \<open>The fields of \<^verbatim>\<open>x264_param_t\<close> the code assigns.\<close>

record x264_param =
  i_width :: int
  i_height :: int
  i_lookahead :: int
  i_sync_lookahead :: int
  i_fps_num :: int
  i_fps_den :: int
  b_annexb :: int
  i_keyint_max :: int
  i_keyint_min :: int
  i_bframe :: int
  b_repeat_headers :: int
  i_threads :: int
  b_sliced_threads :: int
  i_slice_count :: int
  i_slice_count_max :: int
  i_frame_reference :: int
  i_subpel_refine :: int
  b_mb_tree :: int
  i_scenecut_threshold :: int

text \<open>\<open>x264_encode handle planes pts\<close> is \<^verbatim>\<open>x264_encoder_encode\<close>: the handle afterwards, and the NAL payloads
  and the key-frame flag, or \<open>None\<close> for a negative result. \<open>malloc_param\<close> and
  \<open>malloc_picture\<close> say whether the two allocations succeed.\<close>

record 'h x264_library =
  malloc_param :: bool
  malloc_picture :: bool
  x264_param_default_preset :: "string \<Rightarrow> string \<Rightarrow> x264_param"
  x264_param_apply_profile :: "string \<Rightarrow> x264_param \<Rightarrow> x264_param"
  x264_encoder_open :: "x264_param \<Rightarrow> 'h option"
  x264_picture_alloc :: "int \<Rightarrow> int \<Rightarrow> planes"
  x264_encoder_encode :: "'h \<Rightarrow> planes \<Rightarrow> int \<Rightarrow> 'h \<times> (bytes list \<times> bool) option"

subsection \<open>The back end\<close>

datatype picture = Uninitialised | Allocated planes

record 'h X264Backend =
  xb_param :: "x264_param option"
  xb_handle :: "'h option"
  xb_picture :: "picture option"
  xb_pts :: int

definition X264Backend_new :: "'h X264Backend" where
  "X264Backend_new = \<lparr>xb_param = None, xb_handle = None, xb_picture = None, xb_pts = 0\<rparr>"

text \<open>\<^verbatim>\<open>Shutdown\<close>: the picture is cleaned and freed, the parameters are freed, the encoder is closed.\<close>

definition X264_Shutdown :: "'h X264Backend \<Rightarrow> 'h X264Backend option" where
  "X264_Shutdown s =
     (if xb_picture s = Some Uninitialised then None
      else Some (s\<lparr>xb_picture := None, xb_param := None, xb_handle := None, xb_pts := 0\<rparr>))"

definition flag :: "bool \<Rightarrow> int" where
  "flag b = (if b then 1 else 0)"

definition configured_param :: "'h x264_library \<Rightarrow> int \<Rightarrow> int \<Rightarrow> int \<Rightarrow> CodecConfig \<Rightarrow> x264_param" where
  "configured_param lib width height fps config =
     x264_param_apply_profile lib (cd_x264_profile config)
       ((x264_param_default_preset lib (cd_x264_preset config) (cd_x264_tune config))
          \<lparr>i_width := width, i_height := height,
           i_lookahead := cd_x264_lookahead config, i_sync_lookahead := cd_x264_sync_lookahead config,
           i_fps_num := fps, i_fps_den := 1, b_annexb := flag (cd_x264_annexb config),
           i_keyint_max := cd_x264_keyint_max config, i_keyint_min := cd_x264_keyint_min config,
           i_bframe := cd_x264_bframes config, b_repeat_headers := flag (cd_x264_repeat_headers config),
           i_threads := cd_x264_threads config, b_sliced_threads := flag (cd_x264_sliced_threads config),
           i_slice_count := cd_x264_slice_count config, i_slice_count_max := cd_x264_slice_count_max config,
           i_frame_reference := cd_x264_frame_reference config,
           i_subpel_refine := cd_x264_subpel_refine config, b_mb_tree := flag (cd_x264_mb_tree config),
           i_scenecut_threshold := cd_x264_scenecut config\<rparr>)"

text \<open>\<^verbatim>\<open>Initialize\<close>, with the error text of a failure.\<close>

definition X264_Initialize :: "'h x264_library \<Rightarrow> int \<Rightarrow> int \<Rightarrow> int \<Rightarrow> CodecConfig \<Rightarrow> 'h X264Backend \<Rightarrow>
    ('h X264Backend \<times> string option) option" where
  "X264_Initialize lib width height fps config s = do {
     s \<leftarrow> X264_Shutdown s;
     let s = s\<lparr>xb_param := (if malloc_param lib then
                 Some (x264_param_default_preset lib (cd_x264_preset config) (cd_x264_tune config)) else None),
               xb_picture := (if malloc_picture lib then Some Uninitialised else None)\<rparr>;
     if xb_param s = None \<or> xb_picture s = None then do {
       s \<leftarrow> X264_Shutdown s;
       Some (s, Some ''x264 allocation failed'') }
     else do {
       let param = configured_param lib width height fps config;
       let s = s\<lparr>xb_param := Some param\<rparr>;
       case x264_encoder_open lib param of
         None \<Rightarrow> do {
           s \<leftarrow> X264_Shutdown s;
           Some (s, Some ''x264_encoder_open failed'') }
       | Some handle \<Rightarrow>
           Some (s\<lparr>xb_handle := Some handle,
                   xb_picture := Some (Allocated (x264_picture_alloc lib width height)), xb_pts := 0\<rparr>, None) } }"

text \<open>What a call of \<^verbatim>\<open>EncodeYuyv422Frame\<close> returns: the result, and the output parameters where the
  call assigned them. \<open>neon\<close> is the build flag \<^verbatim>\<open>SSERVER_HAS_NEON\<close>.\<close>

datatype encode_outcome =
    NotReady
  | TooShort
  | EncodeFailed
  | NoOutput bool
  | Encoded bytes bool

definition expected_length :: "x264_param \<Rightarrow> nat" where
  "expected_length param = nat (i_width param * i_height param * 2)"

definition convert_frame :: "bool \<Rightarrow> bytes \<Rightarrow> int \<Rightarrow> int \<Rightarrow> planes \<Rightarrow> planes option" where
  "convert_frame neon input width height planes =
     (if neon then ConvertYuyv422ToI420Neon input (nat width) (nat height) planes
      else ConvertYuyv422ToI420Scalar input (nat width) (nat height) planes)"

definition collect_nals :: "'h \<times> (bytes list \<times> bool) option \<Rightarrow> 'h X264Backend \<Rightarrow>
    'h X264Backend \<times> encode_outcome" where
  "collect_nals encoded s = (case encoded of
       (handle, None) \<Rightarrow> (s\<lparr>xb_handle := Some handle\<rparr>, EncodeFailed)
     | (handle, Some (nals, b_keyframe)) \<Rightarrow>
         (s\<lparr>xb_handle := Some handle\<rparr>,
          if concat nals = [] then NoOutput b_keyframe else Encoded (concat nals) b_keyframe))"

definition X264_EncodeYuyv422Frame :: "'h x264_library \<Rightarrow> bool \<Rightarrow> bytes \<Rightarrow> 'h X264Backend \<Rightarrow>
    ('h X264Backend \<times> encode_outcome) option" where
  "X264_EncodeYuyv422Frame lib neon input s =
     (case (xb_handle s, xb_picture s, xb_param s) of
        (Some handle, Some picture, Some param) \<Rightarrow>
          if length input < expected_length param then Some (s, TooShort)
          else (case picture of
              Uninitialised \<Rightarrow> None
            | Allocated planes \<Rightarrow> do {
                planes \<leftarrow> convert_frame neon input (i_width param) (i_height param) planes;
                let pts = xb_pts s;
                let s = s\<lparr>xb_picture := Some (Allocated planes), xb_pts := pts + 1\<rparr>;
                Some (collect_nals (x264_encoder_encode lib handle planes pts) s) })
      | _ \<Rightarrow> Some (s, NotReady))"

subsection \<open>The facade\<close>

definition VideoEncoderBackendFactory_Create :: "EncodeBackend \<times> string \<Rightarrow> string + 'h X264Backend" where
  "VideoEncoderBackendFactory_Create selection = (case fst selection of
       kX264 \<Rightarrow> Inr X264Backend_new
     | kAuto_encode \<Rightarrow> Inl ''requested encode backend is not supported'')"

record 'h VideoEncoder =
  ve_requested :: "EncodeBackend \<times> string"
  ve_active :: "EncodeBackend \<times> string"
  ve_backend :: "'h X264Backend option"

definition VideoEncoder_new :: "'h VideoEncoder" where
  "VideoEncoder_new =
     \<lparr>ve_requested = (kAuto_encode, ''auto''), ve_active = (kX264, ''x264''), ve_backend = None\<rparr>"

definition VideoEncoder_Shutdown :: "'h VideoEncoder \<Rightarrow> 'h VideoEncoder option" where
  "VideoEncoder_Shutdown e = (case ve_backend e of
       None \<Rightarrow> Some VideoEncoder_new
     | Some b \<Rightarrow> map_option (\<lambda>_. VideoEncoder_new) (X264_Shutdown b))"

text \<open>\<^verbatim>\<open>Initialize\<close>: the error is the message of the step that failed. Releasing the back end after a
  failed initialisation runs its destructor, which shuts it down once more.\<close>

definition VideoEncoder_Initialize :: "'h x264_library \<Rightarrow> int \<Rightarrow> int \<Rightarrow> int \<Rightarrow> CodecConfig \<Rightarrow>
    'h VideoEncoder \<Rightarrow> ('h VideoEncoder \<times> string option) option" where
  "VideoEncoder_Initialize lib width height fps config e = do {
     e \<leftarrow> VideoEncoder_Shutdown e;
     case ResolveVideoEncoderBackendSelection config of
       Inl msg \<Rightarrow> Some (e, Some msg)
     | Inr selection \<Rightarrow>
         let e = e\<lparr>ve_requested := selection\<rparr> in
         (case VideoEncoderBackendFactory_Create selection of
            Inl msg \<Rightarrow> Some (e, Some msg)
          | Inr b \<Rightarrow> do {
              (b, err) \<leftarrow> X264_Initialize lib width height fps config b;
              case err of
                Some msg \<Rightarrow> do { _ \<leftarrow> X264_Shutdown b; Some (e\<lparr>ve_backend := None\<rparr>, Some msg) }
              | None \<Rightarrow> Some (e\<lparr>ve_backend := Some b, ve_active := (kX264, ''x264'')\<rparr>, None) }) }"

definition VideoEncoder_EncodeYuyv422Frame :: "'h x264_library \<Rightarrow> bool \<Rightarrow> bytes \<Rightarrow> 'h VideoEncoder \<Rightarrow>
    ('h VideoEncoder \<times> encode_outcome) option" where
  "VideoEncoder_EncodeYuyv422Frame lib neon input e = (case ve_backend e of
       None \<Rightarrow> Some (e, NotReady)
     | Some b \<Rightarrow> do {
         (b, outcome) \<leftarrow> X264_EncodeYuyv422Frame lib neon input b;
         Some (e\<lparr>ve_backend := Some b\<rparr>, outcome) })"

definition CodecFactory_Create :: "CodecConfig \<Rightarrow> 'h VideoEncoder option" where
  "CodecFactory_Create config = (case ResolveVideoEncoderBackendSelection config of
       Inl _ \<Rightarrow> None | Inr _ \<Rightarrow> Some VideoEncoder_new)"

text \<open>Destroying the owner's encoder, where there is one, shuts it down.\<close>

definition release_encoder :: "'h VideoEncoder option \<Rightarrow> unit option" where
  "release_encoder e = (case e of None \<Rightarrow> Some () | Some e \<Rightarrow> map_option (\<lambda>_. ()) (VideoEncoder_Shutdown e))"

subsection \<open>Well-formed encoders\<close>

text \<open>Between calls a back end is either empty or complete: all three objects exist and the
  picture has its planes.\<close>

definition ready :: "x264_param \<Rightarrow> 'h \<Rightarrow> planes \<Rightarrow> int \<Rightarrow> 'h X264Backend" where
  "ready param handle planes pts =
     \<lparr>xb_param = Some param, xb_handle = Some handle, xb_picture = Some (Allocated planes), xb_pts = pts\<rparr>"

definition backend_wf :: "'h X264Backend \<Rightarrow> bool" where
  "backend_wf b \<longleftrightarrow> b = X264Backend_new \<or> (\<exists>param handle planes pts. b = ready param handle planes pts)"

lemma ready_wf [simp]: "backend_wf (ready param handle planes pts)"
  unfolding backend_wf_def by blast

lemma X264_Shutdown_wf: "backend_wf b \<Longrightarrow> X264_Shutdown b = Some X264Backend_new"
  by (auto simp: backend_wf_def X264_Shutdown_def X264Backend_new_def ready_def)

lemma X264_Initialize_opens:
  assumes "backend_wf b" "malloc_param lib" "malloc_picture lib"
    and "x264_encoder_open lib (configured_param lib width height fps config) = Some handle"
  shows "X264_Initialize lib width height fps config b =
    Some (ready (configured_param lib width height fps config) handle
            (x264_picture_alloc lib width height) 0, None)"
  using assms by (simp add: X264_Initialize_def X264_Shutdown_wf Let_def ready_def X264Backend_new_def)

text \<open>A picture that was allocated but not initialised when x264 refuses to open is cleaned.\<close>

lemma X264_Initialize_refused:
  assumes "backend_wf b" "malloc_param lib" "malloc_picture lib"
    and "x264_encoder_open lib (configured_param lib width height fps config) = None"
  shows "X264_Initialize lib width height fps config b = None"
  using assms by (simp add: X264_Initialize_def X264_Shutdown_wf Let_def X264_Shutdown_def)

lemma X264_Initialize_wf:
  assumes "backend_wf b" "X264_Initialize lib width height fps config b = Some (b', err)"
  shows "backend_wf b'"
proof (cases "malloc_param lib \<and> malloc_picture lib")
  case True
  then show ?thesis
    using X264_Initialize_opens [OF assms(1), of lib width height fps config]
      X264_Initialize_refused [OF assms(1), of lib width height fps config] assms(2)
    by (cases "x264_encoder_open lib (configured_param lib width height fps config)")
      auto
next
  case False
  then have "b' = X264Backend_new"
    using assms(2) by (auto simp: X264_Initialize_def X264_Shutdown_wf [OF assms(1)] Let_def
        X264_Shutdown_def X264Backend_new_def split: if_splits)
  then show ?thesis by (simp add: backend_wf_def)
qed

subsection \<open>What the library sees of the frames\<close>

text \<open>The planes x264 allocates have exactly the size of the frame.\<close>

definition planes_exact :: "int \<Rightarrow> int \<Rightarrow> planes \<Rightarrow> bool" where
  "planes_exact width height = (\<lambda>(y, u, v).
     length y = nat width * nat height \<and> length u = chroma_size (nat width) (nat height) \<and>
     length v = chroma_size (nat width) (nat height))"

text \<open>The I420 image of a packed frame, and what the library answers to a sequence of frames when it
  is given the image of each of them, numbered from \<open>pts\<close>.\<close>

definition i420_image :: "int \<Rightarrow> int \<Rightarrow> bytes \<Rightarrow> planes" where
  "i420_image width height frame =
     (map (luma_sample frame) [0..<nat width * nat height],
      map (u_sample frame (nat width)) [0..<chroma_size (nat width) (nat height)],
      map (v_sample frame (nat width)) [0..<chroma_size (nat width) (nat height)])"

definition outcome_of :: "(bytes list \<times> bool) option \<Rightarrow> encode_outcome" where
  "outcome_of answer = (case answer of
       None \<Rightarrow> EncodeFailed
     | Some (nals, key) \<Rightarrow> if concat nals = [] then NoOutput key else Encoded (concat nals) key)"

fun library_answers :: "'h x264_library \<Rightarrow> int \<Rightarrow> int \<Rightarrow> 'h \<Rightarrow> int \<Rightarrow> bytes list \<Rightarrow> encode_outcome list" where
  "library_answers lib width height handle pts [] = []"
| "library_answers lib width height handle pts (frame # frames) =
     (case x264_encoder_encode lib handle (i420_image width height frame) pts of
        (handle', answer) \<Rightarrow> outcome_of answer # library_answers lib width height handle' (pts + 1) frames)"

fun encode_all :: "'h x264_library \<Rightarrow> bool \<Rightarrow> bytes list \<Rightarrow> 'h VideoEncoder \<Rightarrow>
    ('h VideoEncoder \<times> encode_outcome list) option" where
  "encode_all lib neon [] e = Some (e, [])"
| "encode_all lib neon (frame # frames) e = do {
     (e, outcome) \<leftarrow> VideoEncoder_EncodeYuyv422Frame lib neon frame e;
     (e, outcomes) \<leftarrow> encode_all lib neon frames e;
     Some (e, outcome # outcomes) }"

lemma collect_nals_outcome:
  "collect_nals (handle, answer) s = (s\<lparr>xb_handle := Some handle\<rparr>, outcome_of answer)"
  by (simp add: collect_nals_def outcome_of_def split: option.splits prod.splits)

lemma filled_exact: "length plane = n \<Longrightarrow> filled f n plane = map f [0..<n]"
  by (simp add: filled_def)

lemma I420_exact:
  "planes_exact width height planes \<Longrightarrow>
     I420_of_YUYV frame (nat width) (nat height) planes = i420_image width height frame"
  by (auto simp: planes_exact_def I420_of_YUYV_def i420_image_def filled_exact)

lemma i420_image_exact [simp]: "planes_exact width height (i420_image width height frame)"
  by (simp add: planes_exact_def i420_image_def)

lemma convert_frame_exact:
  assumes "planes_exact width height planes" "even width" "0 \<le> width" "0 \<le> height"
    and "nat (width * height * 2) \<le> length frame"
  shows "convert_frame neon frame width height planes = Some (i420_image width height frame)"
proof -
  have "even (nat width)" using assms(2,3) by (simp add: even_nat_iff)
  moreover have "buffers_fit frame (nat width) (nat height) planes"
    using assms by (auto simp: buffers_fit_def planes_exact_def nat_mult_distrib)
  ultimately show ?thesis
    unfolding convert_frame_def I420_exact [OF assms(1), symmetric]
    by (simp add: neon_converts scalar_converts)
qed

lemma X264_EncodeYuyv422Frame_ready:
  assumes "planes_exact (i_width param) (i_height param) planes" "even (i_width param)"
    and "0 \<le> i_width param" "0 \<le> i_height param" "expected_length param \<le> length frame"
    and "x264_encoder_encode lib handle (i420_image (i_width param) (i_height param) frame) pts = (handle', answer)"
  shows "X264_EncodeYuyv422Frame lib neon frame (ready param handle planes pts) =
    Some (ready param handle' (i420_image (i_width param) (i_height param) frame) (pts + 1), outcome_of answer)"
proof -
  have "convert_frame neon frame (i_width param) (i_height param) planes =
      Some (i420_image (i_width param) (i_height param) frame)"
    using convert_frame_exact [OF assms(1-4)] assms(5) by (simp add: expected_length_def)
  then show ?thesis
    using assms(5,6) by (simp add: X264_EncodeYuyv422Frame_def ready_def Let_def collect_nals_outcome)
qed

lemma encode_all_ready:
  assumes "even (i_width param)" "0 \<le> i_width param" "0 \<le> i_height param"
    and "planes_exact (i_width param) (i_height param) planes"
    and "\<And>frame. frame \<in> set frames \<Longrightarrow> expected_length param \<le> length frame"
  shows "\<exists>e'. encode_all lib neon frames (e\<lparr>ve_backend := Some (ready param handle planes pts)\<rparr>) =
    Some (e', library_answers lib (i_width param) (i_height param) handle pts frames)"
  using assms(4,5)
proof (induction frames arbitrary: handle planes pts e)
  case Nil
  show ?case by simp
next
  case (Cons frame frames)
  obtain handle' answer where
    answer: "x264_encoder_encode lib handle (i420_image (i_width param) (i_height param) frame) pts = (handle', answer)"
    by fastforce
  have long: "expected_length param \<le> length frame" using Cons.prems(2) by simp
  note step = X264_EncodeYuyv422Frame_ready [OF Cons.prems(1) assms(1,2,3) long answer]
  obtain e' where "encode_all lib neon frames (e\<lparr>ve_backend := Some (ready param handle'
      (i420_image (i_width param) (i_height param) frame) (pts + 1))\<rparr>) =
    Some (e', library_answers lib (i_width param) (i_height param) handle' (pts + 1) frames)"
    using Cons.IH [OF i420_image_exact] Cons.prems(2) by (metis list.set_intros(2))
  then show ?case by (simp add: VideoEncoder_EncodeYuyv422Frame_def step answer)
qed

subsection \<open>Well-formed facades\<close>

definition encoder_wf :: "'h VideoEncoder \<Rightarrow> bool" where
  "encoder_wf e \<longleftrightarrow> (\<forall>b. ve_backend e = Some b \<longrightarrow> backend_wf b)"

lemma encoder_wf_new [simp]: "encoder_wf VideoEncoder_new"
  by (simp add: encoder_wf_def VideoEncoder_new_def)

lemma VideoEncoder_Shutdown_wf: "encoder_wf e \<Longrightarrow> VideoEncoder_Shutdown e = Some VideoEncoder_new"
  by (auto simp: VideoEncoder_Shutdown_def encoder_wf_def X264_Shutdown_wf split: option.splits)

lemma release_encoder_None [simp]: "release_encoder None = Some ()"
  by (simp add: release_encoder_def)

lemma release_encoder_wf: "encoder_wf e \<Longrightarrow> release_encoder (Some e) = Some ()"
  by (simp add: release_encoder_def VideoEncoder_Shutdown_wf)

lemma backend_wf_new [simp]: "backend_wf X264Backend_new"
  by (simp add: backend_wf_def)

lemma VideoEncoder_Initialize_x264:
  assumes "encoder_wf e" "cd_backend config = ''x264''"
  shows "VideoEncoder_Initialize lib width height fps config e =
    (case X264_Initialize lib width height fps config X264Backend_new of
       None \<Rightarrow> None
     | Some (b, None) \<Rightarrow> Some (\<lparr>ve_requested = (kX264, ''x264''), ve_active = (kX264, ''x264''), ve_backend = Some b\<rparr>, None)
     | Some (b, Some msg) \<Rightarrow> Some (VideoEncoder_new\<lparr>ve_requested := (kX264, ''x264'')\<rparr>, Some msg))"
  using assms X264_Initialize_wf [OF backend_wf_new, of lib width height fps config]
  by (auto simp: VideoEncoder_Initialize_def VideoEncoder_Shutdown_wf ResolveVideoEncoderBackendSelection_def
      VideoEncoderBackendFactory_Create_def VideoEncoder_new_def X264_Shutdown_wf split: option.splits)

lemma VideoEncoder_Initialize_wf:
  assumes "encoder_wf e" "VideoEncoder_Initialize lib width height fps config e = Some (e', err)"
  shows "encoder_wf e' \<and> (err = None \<longleftrightarrow> ve_backend e' \<noteq> None)"
proof (cases "cd_backend config = ''x264''")
  case True
  then show ?thesis
    using assms X264_Initialize_wf [OF backend_wf_new, of lib width height fps config]
    unfolding VideoEncoder_Initialize_x264 [OF assms(1) True]
    by (auto simp: encoder_wf_def VideoEncoder_new_def split: option.splits)
next
  case False
  then show ?thesis
    using assms
    by (auto simp: VideoEncoder_Initialize_def VideoEncoder_Shutdown_wf ResolveVideoEncoderBackendSelection_def
        encoder_wf_def VideoEncoder_new_def split: if_splits)
qed

lemma collect_nals_ready:
  "\<exists>handle'. fst (collect_nals encoded (ready param handle planes pts)) = ready param handle' planes pts"
  by (cases encoded) (auto simp: collect_nals_outcome ready_def)

lemma X264_EncodeYuyv422Frame_wf:
  assumes "backend_wf b" "X264_EncodeYuyv422Frame lib neon frame b = Some (b', outcome)"
  shows "backend_wf b'"
proof (cases "b = X264Backend_new")
  case True
  then show ?thesis using assms by (simp add: X264_EncodeYuyv422Frame_def X264Backend_new_def)
next
  case False
  then obtain param handle planes pts where b: "b = ready param handle planes pts"
    using assms(1) by (auto simp: backend_wf_def)
  show ?thesis
  proof (cases "length frame < expected_length param")
    case True
    then show ?thesis using assms(1,2) b by (simp add: X264_EncodeYuyv422Frame_def ready_def)
  next
    case long: False
    then obtain planes' where "convert_frame neon frame (i_width param) (i_height param) planes = Some planes'"
      using assms(2) by (cases "convert_frame neon frame (i_width param) (i_height param) planes")
        (auto simp: X264_EncodeYuyv422Frame_def b ready_def)
    then have "collect_nals (x264_encoder_encode lib handle planes' pts) (ready param handle planes' (pts + 1)) =
        (b', outcome)"
      using long assms(2) by (simp add: X264_EncodeYuyv422Frame_def b ready_def Let_def)
    then show ?thesis using collect_nals_ready by (metis fst_conv ready_wf)
  qed
qed

subsection \<open>Properties\<close>

text \<open>C16: The x264 library sees every captured frame exactly once, as its I420 image, in order and
  numbered from zero, whatever the build (NEON or scalar) and whatever is left in the planes from
  the frame before; the outcomes of the calls are the library's answers, NAL units put one after
  the other. Relies on documented behaviour of x264: the planes it allocates have the size of the
  picture, and applying a profile does not change the size.\<close>

theorem encoder_sees_each_frame:
  assumes wf: "encoder_wf e" and backend: "cd_backend config = ''x264''"
    and size: "even width" "0 \<le> width" "0 \<le> height"
    and memory: "malloc_param lib" "malloc_picture lib"
    and opens: "x264_encoder_open lib (configured_param lib width height fps config) = Some handle"
    and alloc: "planes_exact width height (x264_picture_alloc lib width height)"
    and profile: "\<And>name param. i_width (x264_param_apply_profile lib name param) = i_width param \<and>
      i_height (x264_param_apply_profile lib name param) = i_height param"
    and long: "\<And>frame. frame \<in> set frames \<Longrightarrow> nat (width * height * 2) \<le> length frame"
  shows "\<exists>e1 e2. VideoEncoder_Initialize lib width height fps config e = Some (e1, None) \<and>
    encode_all lib neon frames e1 = Some (e2, library_answers lib width height handle 0 frames)"
proof -
  let ?param = "configured_param lib width height fps config"
  let ?b = "ready ?param handle (x264_picture_alloc lib width height) 0"
  let ?e1 = "\<lparr>ve_requested = (kX264, ''x264''), ve_active = (kX264, ''x264''), ve_backend = Some ?b\<rparr>"
  have dims: "i_width ?param = width" "i_height ?param = height"
    by (simp_all add: configured_param_def profile)
  have "VideoEncoder_Initialize lib width height fps config e = Some (?e1, None)"
    using VideoEncoder_Initialize_x264 [OF wf backend] X264_Initialize_opens [OF backend_wf_new memory opens]
    by simp
  moreover obtain e2 where "encode_all lib neon frames (?e1\<lparr>ve_backend := Some ?b\<rparr>) =
      Some (e2, library_answers lib (i_width ?param) (i_height ?param) handle 0 frames)"
    using encode_all_ready [of ?param "x264_picture_alloc lib width height" frames lib neon handle 0 ?e1]
      size alloc long unfolding dims expected_length_def by blast
  ultimately show ?thesis by (auto simp: dims)
qed

text \<open>A library that answers with the luminance plane; its handle counts the frames.\<close>

definition echo_param :: x264_param where
  "echo_param = \<lparr>i_width = 0, i_height = 0, i_lookahead = 0, i_sync_lookahead = 0, i_fps_num = 0,
     i_fps_den = 0, b_annexb = 0, i_keyint_max = 0, i_keyint_min = 0, i_bframe = 0, b_repeat_headers = 0,
     i_threads = 0, b_sliced_threads = 0, i_slice_count = 0, i_slice_count_max = 0, i_frame_reference = 0,
     i_subpel_refine = 0, b_mb_tree = 0, i_scenecut_threshold = 0\<rparr>"

definition echo_planes :: "int \<Rightarrow> int \<Rightarrow> planes" where
  "echo_planes width height = (replicate (nat width * nat height) 0,
     replicate (chroma_size (nat width) (nat height)) 0, replicate (chroma_size (nat width) (nat height)) 0)"

definition echo_library :: "nat x264_library" where
  "echo_library =
     \<lparr>malloc_param = True, malloc_picture = True, x264_param_default_preset = (\<lambda>_ _. echo_param),
      x264_param_apply_profile = (\<lambda>_ param. param),
      x264_encoder_open = (\<lambda>param. if even (i_width param) then Some 0 else None),
      x264_picture_alloc = echo_planes,
      x264_encoder_encode = (\<lambda>n (y, u, v) pts. (n + 1, Some ([y, [of_int pts]], n = 0)))\<rparr>"

theorem encoder_sees_each_frame_witness:
  "\<exists>e1 e2. VideoEncoder_Initialize echo_library 2 2 30 CodecConfig_default VideoEncoder_new = Some (e1, None) \<and>
     encode_all echo_library True [[0, 1, 2, 3, 4, 5, 6, 7], [9, 1, 9, 3, 9, 5, 9, 7]] e1 =
       Some (e2, [Encoded [0, 2, 4, 6, 0] True, Encoded [9, 9, 9, 9, 1] False])"
proof -
  let ?frames = "[[0, 1, 2, 3, 4, 5, 6, 7], [9, 1, 9, 3, 9, 5, 9, 7]] :: bytes list"
  have answers: "library_answers echo_library 2 2 0 0 ?frames =
      [Encoded [0, 2, 4, 6, 0] True, Encoded [9, 9, 9, 9, 1] False]" by code_simp
  have "\<exists>e1 e2. VideoEncoder_Initialize echo_library 2 2 30 CodecConfig_default VideoEncoder_new = Some (e1, None) \<and>
    encode_all echo_library True ?frames e1 = Some (e2, library_answers echo_library 2 2 0 0 ?frames)"
  proof (rule encoder_sees_each_frame)
    show "planes_exact 2 2 (x264_picture_alloc echo_library 2 2)"
      by (simp add: echo_library_def planes_exact_def echo_planes_def)
    show "x264_encoder_open echo_library (configured_param echo_library 2 2 30 CodecConfig_default) = Some 0"
      by (simp add: echo_library_def configured_param_def)
    fix frame assume "frame \<in> set ?frames"
    then show "nat (2 * 2 * 2) \<le> length frame" by auto
  qed (simp_all add: echo_library_def CodecConfig_default_def)
  then show ?thesis by (simp only: answers)
qed

text \<open>C38: When x264 refuses to open (an odd width or height that the configuration accepts, an unknown
  profile), the roll-back of the initialisation cleans a picture nobody initialised: the call has no
  defined result.\<close>

theorem refused_open_cleans_uninitialised_picture:
  assumes "encoder_wf e" "cd_backend config = ''x264''" "malloc_param lib" "malloc_picture lib"
    and "x264_encoder_open lib (configured_param lib width height fps config) = None"
  shows "VideoEncoder_Initialize lib width height fps config e = None"
  using VideoEncoder_Initialize_x264 [OF assms(1,2)] X264_Initialize_refused [OF backend_wf_new assms(3-5)]
  by simp

theorem refused_open_witness:
  "VideoEncoder_Initialize echo_library 641 360 30 CodecConfig_default VideoEncoder_new = None"
  using refused_open_cleans_uninitialised_picture [of VideoEncoder_new CodecConfig_default echo_library 641 360 30]
  by (simp add: CodecConfig_default_def echo_library_def configured_param_def)

end
