(* ===== verification/Null_Capture.thy ===== *)
theory Null_Capture
  imports Video_Encoder Frames Text_Format
begin

section \<open>The synthetic capture device\<close>

text \<open>
  \<^verbatim>\<open>sserver/src/modules/capture/video/null/NullCaptureDevice.cpp\<close>: text frames, or a moving test
  pattern that goes through the video encoder. The readings of the monotonic clock are arguments;
  the pause of \<^verbatim>\<open>frame_interval_ms\<close> has no effect on the state. A result of \<open>None\<close> is undefined
  behaviour of the code (a store outside the synthetic frame, or the encoder's).
\<close>

record 'h NullCaptureDevice =
  nc_opened :: bool
  nc_streaming :: bool
  nc_sequence :: u64
  nc_encoder :: "'h VideoEncoder option"
  nc_yuyv_frame :: bytes

definition NullCaptureDevice_new :: "'h NullCaptureDevice" where
  "NullCaptureDevice_new =
     \<lparr>nc_opened = False, nc_streaming = False, nc_sequence = 0, nc_encoder = None, nc_yuyv_frame = []\<rparr>"

definition Null_Open :: "'h NullCaptureDevice \<Rightarrow> 'h NullCaptureDevice" where
  "Null_Open d = d\<lparr>nc_opened := True\<rparr>"

definition Null_Start :: "'h x264_library \<Rightarrow> CaptureConfig \<Rightarrow> CodecConfig \<Rightarrow> 'h NullCaptureDevice \<Rightarrow>
    ('h NullCaptureDevice \<times> bool) option" where
  "Null_Start lib config codec d =
     (if \<not> nc_opened d then Some (d, False)
      else if cp_null_payload_mode config = ''h264_test_pattern'' then do {
        (encoder, err) \<leftarrow> VideoEncoder_Initialize lib (cp_width config) (cp_height config) (cp_fps config)
           codec VideoEncoder_new;
        _ \<leftarrow> release_encoder (nc_encoder d);
        if err \<noteq> None then Some (d\<lparr>nc_encoder := None\<rparr>, False)
        else Some (d\<lparr>nc_encoder := Some encoder,
                     nc_yuyv_frame := replicate (nat (cp_width config * cp_height config * 2)) 0,
                     nc_streaming := True\<rparr>, True) }
      else Some (d\<lparr>nc_streaming := True\<rparr>, True))"

text \<open>One pair of pixels of the pattern: Y0 U Y1 V.\<close>

definition pattern_phase :: "u64 \<Rightarrow> nat" where
  "pattern_phase sequence = unat ((sequence * 7) mod 256)"

definition pattern_bytes :: "nat \<Rightarrow> nat \<Rightarrow> nat \<Rightarrow> bytes" where
  "pattern_bytes phase row column =
     [of_nat ((row + column + phase) mod 256), of_nat ((128 + row div 2 + phase) mod 256),
      of_nat ((row + column + 32 + phase) mod 256), of_nat ((64 + column div 2 + phase) mod 256)]"

definition store_pair :: "nat \<Rightarrow> bytes \<Rightarrow> bytes \<Rightarrow> bytes option" where
  "store_pair offset pair frame = do {
     frame \<leftarrow> store_byte (offset + 0) (pair ! 0) frame;
     frame \<leftarrow> store_byte (offset + 1) (pair ! 1) frame;
     frame \<leftarrow> store_byte (offset + 2) (pair ! 2) frame;
     store_byte (offset + 3) (pair ! 3) frame }"

definition FillSyntheticYuyvFrame :: "nat \<Rightarrow> nat \<Rightarrow> u64 \<Rightarrow> bytes \<Rightarrow> bytes option" where
  "FillSyntheticYuyvFrame width height sequence frame =
     (if frame = [] then Some frame
      else for_loop 1 0 height (\<lambda>row. for_loop 2 0 width (\<lambda>column.
        store_pair ((row * width + column) * 2) (pattern_bytes (pattern_phase sequence) row column))) frame)"

text \<open>\<^verbatim>\<open>"null-frame-"\<close> and the number, padded with a letter to the configured size.\<close>

definition text_bytes :: "string \<Rightarrow> bytes" where
  "text_bytes s = map of_char s"

definition text_payload :: "CaptureConfig \<Rightarrow> u64 \<Rightarrow> bytes" where
  "text_payload config sequence =
     (let text = text_bytes (''null-frame-'' @ dec_nat (unat sequence)) in
      if length text < cp_null_payload_bytes config
      then resize (cp_null_payload_bytes config) (65 + ucast (sequence mod 26)) text
      else text)"

text \<open>\<^verbatim>\<open>CaptureFrame\<close>: \<open>t0\<close> is the capture time, \<open>t1\<close> and \<open>t2\<close> are the readings around the encoder.\<close>

definition blank_frame :: "u64 \<Rightarrow> u64 \<Rightarrow> EncodedFrame" where
  "blank_frame sequence t0 = EncodedFrame_default\<lparr>ef_sequence := sequence, ef_type := kVideo,
     ef_capture_timestamp_ns := t0\<rparr>"

definition Null_CaptureFrame :: "'h x264_library \<Rightarrow> bool \<Rightarrow> CaptureConfig \<Rightarrow> u64 \<times> u64 \<times> u64 \<Rightarrow>
    'h NullCaptureDevice \<Rightarrow> ('h NullCaptureDevice \<times> EncodedFramePtr) option" where
  "Null_CaptureFrame lib neon config clock d = (case clock of (t0, t1, t2) \<Rightarrow>
     if \<not> nc_streaming d then Some (d, None)
     else let frame = blank_frame (nc_sequence d) t0;
              d = d\<lparr>nc_sequence := nc_sequence d + 1\<rparr>
       in case (cp_null_payload_mode config = ''h264_test_pattern'', nc_encoder d) of
          (True, Some encoder) \<Rightarrow> do {
            yuyv \<leftarrow> FillSyntheticYuyvFrame (nat (cp_width config)) (nat (cp_height config))
              (nc_sequence d) (nc_yuyv_frame d);
            (encoder, outcome) \<leftarrow> VideoEncoder_EncodeYuyv422Frame lib neon yuyv encoder;
            let d = d\<lparr>nc_yuyv_frame := yuyv, nc_encoder := Some encoder\<rparr>;
            case outcome of
              Encoded payload key \<Rightarrow> Some (d, Some (frame\<lparr>ef_encode_start_timestamp_ns := t1,
                ef_payload := payload, ef_is_keyframe := key, ef_encode_end_timestamp_ns := t2\<rparr>))
            | _ \<Rightarrow> Some (d, None) }
        | _ \<Rightarrow> Some (d, Some (frame\<lparr>ef_encode_start_timestamp_ns := t0, ef_is_keyframe := True,
            ef_payload := text_payload config (ef_sequence frame), ef_encode_end_timestamp_ns := t2\<rparr>)))"

definition Null_Stop :: "'h NullCaptureDevice \<Rightarrow> 'h NullCaptureDevice option" where
  "Null_Stop d =
     do { _ \<leftarrow> release_encoder (nc_encoder d); Some (d\<lparr>nc_streaming := False, nc_encoder := None\<rparr>) }"

definition Null_Close :: "'h NullCaptureDevice \<Rightarrow> 'h NullCaptureDevice" where
  "Null_Close d = d\<lparr>nc_opened := False\<rparr>"

definition Null_Describe :: string where
  "Null_Describe = ''null-capture-device''"

subsection \<open>The pattern\<close>

text \<open>Byte \<open>k\<close> of the pattern.\<close>

definition pattern_byte :: "nat \<Rightarrow> nat \<Rightarrow> nat \<Rightarrow> u8" where
  "pattern_byte width phase k =
     (let pixel = k div 4 * 2 in pattern_bytes phase (pixel div width) (pixel mod width) ! (k mod 4))"

lemma store_pair_filled:
  assumes "4 * p + 4 \<le> length frame" "\<And>i. i < 4 \<Longrightarrow> pair ! i = f (4 * p + i)"
  shows "store_pair (4 * p) pair (filled f (4 * p) frame) = Some (filled f (4 * Suc p) frame)"
proof -
  have "pair ! 0 = f (4 * p)" "pair ! 1 = f (4 * p + 1)" "pair ! 2 = f (4 * p + 2)" "pair ! 3 = f (4 * p + 3)"
    using assms(2) [of 0] assms(2) [of 1] assms(2) [of 2] assms(2) [of 3] by simp_all
  then show ?thesis
    using assms(1) by (simp add: store_pair_def store_filled numeral_3_eq_3 eval_nat_numeral)
qed

lemma pixel_position: "c < w \<Longrightarrow> (row * w + c) div w = row \<and> (row * w + c) mod w = (c :: nat)"
  by simp

lemma fill_row:
  assumes "row < height" "length frame = 2 * m * height * 2"
  shows "for_loop 2 0 (2 * m) (\<lambda>column. store_pair ((row * (2 * m) + column) * 2) (pattern_bytes phase row column))
      (filled (pattern_byte (2 * m) phase) (4 * (row * m)) frame) =
    Some (filled (pattern_byte (2 * m) phase) (4 * (Suc row * m)) frame)"
proof -
  let ?f = "pattern_byte (2 * m) phase"
  have "\<exists>s'. for_loop 2 0 (2 * m) (\<lambda>column. store_pair ((row * (2 * m) + column) * 2) (pattern_bytes phase row column))
      (filled ?f (4 * (row * m)) frame) = Some s' \<and> s' = filled ?f (4 * (row * m + m)) frame"
  proof (rule for_loop_count [where I = "\<lambda>c s. s = filled ?f (4 * (row * m + c)) frame"])
    fix c s assume c: "c < m" and s: "s = filled ?f (4 * (row * m + c)) frame"
    have off: "(row * (2 * m) + (0 + 2 * c)) * 2 = 4 * (row * m + c)" by simp
    have "row * m + c + 1 \<le> m * height" using row_fits [OF assms(1), of c 1 m] c by simp
    then have fits: "4 * (row * m + c) + 4 \<le> length frame" using assms(2) by simp
    have pixel: "2 * (row * m + c) div (2 * m) = row" "2 * (row * m + c) mod (2 * m) = 2 * c"
      using pixel_position [of "2 * c" "2 * m" row] c by (simp_all add: algebra_simps)
    have bytes: "pattern_bytes phase row (0 + 2 * c) ! i = ?f (4 * (row * m + c) + i)" if "i < 4" for i
    proof -
      have "(4 * (row * m + c) + i) div 4 = row * m + c" "(4 * (row * m + c) + i) mod 4 = i"
        using pixel_position [OF that, of "row * m + c"] by (simp_all only: mult.commute [of 4])
      then show ?thesis using pixel by (simp only: pattern_byte_def Let_def mult.commute [of _ 2] add_0)
    qed
    show "\<exists>s'. store_pair ((row * (2 * m) + (0 + 2 * c)) * 2) (pattern_bytes phase row (0 + 2 * c)) s = Some s' \<and>
        s' = filled ?f (4 * (row * m + Suc c)) frame"
      unfolding off s using store_pair_filled [of "row * m + c" frame _ ?f, OF fits bytes] by simp
  qed simp_all
  then show ?thesis by (simp add: add.commute)
qed

lemma fill_even:
  assumes "even width" "length frame = width * height * 2"
  shows "FillSyntheticYuyvFrame width height sequence frame =
    Some (map (pattern_byte width (pattern_phase sequence)) [0..<width * height * 2])"
proof (cases "frame = []")
  case True
  then show ?thesis using assms(2) by (auto simp: FillSyntheticYuyvFrame_def)
next
  case False
  obtain m where m: "width = 2 * m" using assms(1) by (rule evenE)
  let ?f = "pattern_byte (2 * m) (pattern_phase sequence)"
  have "\<exists>s'. for_loop 1 0 height (\<lambda>row. for_loop 2 0 (2 * m) (\<lambda>column. store_pair ((row * (2 * m) + column) * 2)
      (pattern_bytes (pattern_phase sequence) row column))) frame = Some s' \<and> s' = filled ?f (4 * (height * m)) frame"
  proof (rule for_loop_count [where I = "\<lambda>row s. s = filled ?f (4 * (row * m)) frame"])
    fix row s assume "row < height" "s = filled ?f (4 * (row * m)) frame"
    then show "\<exists>s'. for_loop 2 0 (2 * m) (\<lambda>column. store_pair (((0 + 1 * row) * (2 * m) + column) * 2)
        (pattern_bytes (pattern_phase sequence) (0 + 1 * row) column)) s = Some s' \<and>
        s' = filled ?f (4 * (Suc row * m)) frame"
      using fill_row [of row height frame m] assms(2) m by simp
  qed simp_all
  moreover have "4 * (height * m) = length frame" using assms(2) m by simp
  ultimately show ?thesis
    using False assms(2) m by (simp add: FillSyntheticYuyvFrame_def filled_def)
qed

text \<open>With an odd width the pair that starts at the last pixel of the frame is written two bytes past
  the buffer.\<close>

lemma store_pair_Some:
  "store_pair offset pair frame = Some frame' \<Longrightarrow> offset + 4 \<le> length frame \<and> length frame' = length frame"
  by (auto simp: store_pair_def bind_eq_Some_conv dest!: store_byte_Some)

lemma fill_row_reaches:
  assumes "for_loop 2 0 width (\<lambda>column. store_pair ((row * width + column) * 2) (pattern_bytes phase row column))
      frame = Some frame'" "odd width"
  shows "(row * width + width) * 2 + 2 \<le> length frame \<and> length frame' = length frame"
proof -
  have "\<exists>j. width \<le> j \<and> (even j \<and> j \<le> width + 1 \<and> length frame' = length frame \<and>
      (j = 0 \<or> (row * width + j) * 2 \<le> length frame))"
  proof (rule for_loop_Some [OF assms(1)])
    fix j s s'
    assume j: "j < width"
      and s: "even j \<and> j \<le> width + 1 \<and> length s = length frame \<and> (j = 0 \<or> (row * width + j) * 2 \<le> length frame)"
      and "store_pair ((row * width + j) * 2) (pattern_bytes phase row j) s = Some s'"
    then have "(row * width + j) * 2 + 4 \<le> length frame" "length s' = length frame"
      using store_pair_Some by metis+
    then show "even (j + 2) \<and> j + 2 \<le> width + 1 \<and> length s' = length frame \<and>
        (j + 2 = 0 \<or> (row * width + (j + 2)) * 2 \<le> length frame)"
      using s j by simp
  qed simp
  then obtain j where j: "width \<le> j" "even j" "j \<le> width + 1" "length frame' = length frame"
    "j = 0 \<or> (row * width + j) * 2 \<le> length frame" by blast
  have "j = width + 1" using j(1,2,3) assms(2) by (metis add.commute le_Suc_eq le_antisym plus_1_eq_Suc)
  then show ?thesis using j by simp
qed

lemma fill_odd:
  assumes "odd width" "0 < height" "length frame = width * height * 2"
  shows "FillSyntheticYuyvFrame width height sequence frame = None"
proof (rule ccontr)
  let ?body = "\<lambda>row. for_loop 2 0 width (\<lambda>column. store_pair ((row * width + column) * 2)
    (pattern_bytes (pattern_phase sequence) row column))"
  assume "FillSyntheticYuyvFrame width height sequence frame \<noteq> None"
  moreover have "0 < width" using assms(1) by (cases width) auto
  ultimately obtain s' where s': "for_loop 1 0 height ?body frame = Some s'"
    using assms(2,3) by (auto simp: FillSyntheticYuyvFrame_def split: if_splits)
  have "\<exists>k. height \<le> k \<and> (length s' = length frame \<and> (k = 0 \<or> k * width * 2 + 2 \<le> length frame))"
  proof (rule for_loop_Some [OF s'])
    fix k s t
    assume "length s = length frame \<and> (k = 0 \<or> k * width * 2 + 2 \<le> length frame)" "?body k s = Some t"
    then show "length t = length frame \<and> (k + 1 = 0 \<or> (k + 1) * width * 2 + 2 \<le> length frame)"
      using fill_row_reaches [of width k "pattern_phase sequence" s t] assms(1) by (simp add: add.commute)
  qed simp
  then obtain k where "height \<le> k" "k * width * 2 + 2 \<le> length frame" using assms(2) by auto
  moreover have "height * width \<le> k * width" using \<open>height \<le> k\<close> by (rule mult_le_mono1)
  ultimately show False using assms(3) by (simp add: mult.commute)
qed

subsection \<open>Runs of the device\<close>

fun Null_CaptureFrames :: "'h x264_library \<Rightarrow> bool \<Rightarrow> CaptureConfig \<Rightarrow> (u64 \<times> u64 \<times> u64) list \<Rightarrow>
    'h NullCaptureDevice \<Rightarrow> ('h NullCaptureDevice \<times> EncodedFramePtr list) option" where
  "Null_CaptureFrames lib neon config [] d = Some (d, [])"
| "Null_CaptureFrames lib neon config (clock # clocks) d = do {
     (d, frame) \<leftarrow> Null_CaptureFrame lib neon config clock d;
     (d, frames) \<leftarrow> Null_CaptureFrames lib neon config clocks d;
     Some (d, frame # frames) }"

text \<open>The frames the pattern mode should produce: frame \<open>i\<close> is the library's answer to the pattern of
  phase \<open>i + 1\<close>, under number \<open>i\<close>; there is no frame where the library had no output.\<close>

definition pattern_frame :: "int \<Rightarrow> int \<Rightarrow> u64 \<Rightarrow> bytes" where
  "pattern_frame width height sequence =
     map (pattern_byte (nat width) (pattern_phase sequence)) [0..<nat (width * height * 2)]"

definition framed :: "u64 \<Rightarrow> u64 \<times> u64 \<times> u64 \<Rightarrow> encode_outcome \<Rightarrow> EncodedFramePtr" where
  "framed sequence clock outcome = (case (clock, outcome) of
       ((t0, t1, t2), Encoded payload key) \<Rightarrow> Some ((blank_frame sequence t0)
          \<lparr>ef_encode_start_timestamp_ns := t1, ef_payload := payload, ef_is_keyframe := key,
           ef_encode_end_timestamp_ns := t2\<rparr>)
     | _ \<Rightarrow> None)"

fun framed_all :: "u64 \<Rightarrow> (u64 \<times> u64 \<times> u64) list \<Rightarrow> encode_outcome list \<Rightarrow> EncodedFramePtr list" where
  "framed_all sequence (clock # clocks) (outcome # outcomes) =
     framed sequence clock outcome # framed_all (sequence + 1) clocks outcomes"
| "framed_all sequence _ _ = []"

definition patterns :: "int \<Rightarrow> int \<Rightarrow> u64 \<Rightarrow> nat \<Rightarrow> bytes list" where
  "patterns width height sequence n = map (\<lambda>i. pattern_frame width height (sequence + of_nat i + 1)) [0..<n]"

lemma patterns_Suc:
  "patterns width height sequence (Suc n) =
     pattern_frame width height (sequence + 1) # patterns width height (sequence + 1) n"
  by (simp add: patterns_def upt_rec [of 0] map_Suc_upt [symmetric] comp_def ac_simps del: upt_Suc)

text \<open>A device that is streaming the pattern, with its encoder ready.\<close>

definition pattern_device :: "x264_param \<Rightarrow> 'h \<Rightarrow> planes \<Rightarrow> int \<Rightarrow> u64 \<Rightarrow> bytes \<Rightarrow> 'h NullCaptureDevice" where
  "pattern_device param handle planes pts sequence yuyv =
     \<lparr>nc_opened = True, nc_streaming = True, nc_sequence = sequence,
      nc_encoder = Some \<lparr>ve_requested = (kX264, ''x264''), ve_active = (kX264, ''x264''),
                         ve_backend = Some (ready param handle planes pts)\<rparr>, nc_yuyv_frame = yuyv\<rparr>"

lemma pattern_frame_length [simp]: "length (pattern_frame width height sequence) = nat (width * height * 2)"
  by (simp add: pattern_frame_def)

lemma Null_CaptureFrame_pattern:
  assumes mode: "cp_null_payload_mode config = ''h264_test_pattern''"
    and dims: "i_width param = cp_width config" "i_height param = cp_height config"
    and size: "even (cp_width config)" "0 \<le> cp_width config" "0 \<le> cp_height config"
    and planes: "planes_exact (cp_width config) (cp_height config) planes"
    and yuyv: "length yuyv = nat (cp_width config * cp_height config * 2)"
    and answer: "x264_encoder_encode lib handle
      (i420_image (cp_width config) (cp_height config) (pattern_frame (cp_width config) (cp_height config) (sequence + 1)))
      pts = (handle', answer)"
  shows "Null_CaptureFrame lib neon config clock (pattern_device param handle planes pts sequence yuyv) =
    Some (pattern_device param handle'
      (i420_image (cp_width config) (cp_height config) (pattern_frame (cp_width config) (cp_height config) (sequence + 1)))
      (pts + 1) (sequence + 1) (pattern_frame (cp_width config) (cp_height config) (sequence + 1)),
      framed sequence clock (outcome_of answer))"
proof -
  let ?w = "cp_width config" and ?h = "cp_height config"
  let ?p = "pattern_frame ?w ?h (sequence + 1)"
  obtain t0 t1 t2 where clock: "clock = (t0, t1, t2)" by (cases clock) auto
  have n: "nat ?w * nat ?h * 2 = nat (?w * ?h * 2)" using size by (simp add: nat_mult_distrib)
  have "even (nat ?w)" using size(1,2) by (simp add: even_nat_iff)
  then have fill: "FillSyntheticYuyvFrame (nat ?w) (nat ?h) (sequence + 1) yuyv = Some ?p"
    using fill_even [of "nat ?w" yuyv "nat ?h"] yuyv n by (simp add: pattern_frame_def)
  have encode: "X264_EncodeYuyv422Frame lib neon ?p (ready param handle planes pts) =
      Some (ready param handle' (i420_image ?w ?h ?p) (pts + 1), outcome_of answer)"
    using X264_EncodeYuyv422Frame_ready [of param planes ?p lib handle pts handle' answer neon]
      planes size answer dims by (simp add: expected_length_def)
  show ?thesis
    by (cases "outcome_of answer")
      (simp_all add: Null_CaptureFrame_def pattern_device_def clock Let_def mode fill
        VideoEncoder_EncodeYuyv422Frame_def encode framed_def)
qed

lemma Null_CaptureFrames_pattern:
  assumes "cp_null_payload_mode config = ''h264_test_pattern''"
    and "i_width param = cp_width config" "i_height param = cp_height config"
    and "even (cp_width config)" "0 \<le> cp_width config" "0 \<le> cp_height config"
    and "planes_exact (cp_width config) (cp_height config) planes"
    and "length yuyv = nat (cp_width config * cp_height config * 2)"
  shows "\<exists>d. Null_CaptureFrames lib neon config clocks (pattern_device param handle planes pts sequence yuyv) =
    Some (d, framed_all sequence clocks (library_answers lib (cp_width config) (cp_height config) handle pts
      (patterns (cp_width config) (cp_height config) sequence (length clocks))))"
  using assms(7,8)
proof (induction clocks arbitrary: handle planes pts sequence yuyv)
  case Nil
  show ?case by (simp add: patterns_def)
next
  case (Cons clock clocks)
  let ?w = "cp_width config" and ?h = "cp_height config"
  let ?p = "pattern_frame ?w ?h (sequence + 1)"
  obtain handle' answer where answer: "x264_encoder_encode lib handle (i420_image ?w ?h ?p) pts = (handle', answer)"
    by fastforce
  note step = Null_CaptureFrame_pattern [OF assms(1-6) Cons.prems answer, of neon clock]
  obtain d where "Null_CaptureFrames lib neon config clocks
      (pattern_device param handle' (i420_image ?w ?h ?p) (pts + 1) (sequence + 1) ?p) =
    Some (d, framed_all (sequence + 1) clocks (library_answers lib ?w ?h handle' (pts + 1)
      (patterns ?w ?h (sequence + 1) (length clocks))))"
    using Cons.IH [OF i420_image_exact pattern_frame_length] by blast
  then show ?case by (simp add: step answer patterns_Suc)
qed

subsection \<open>Properties\<close>

text \<open>The synthetic picture: with a buffer of the size of the frame, filling it stays inside the
  buffer and assigns every byte exactly when the width is even; with an odd width, which
  the configuration check accepts, the last pair of pixels is written past the end of the buffer.\<close>

theorem synthetic_frame_bounds:
  assumes "0 < height" "length frame = width * height * 2"
  shows "FillSyntheticYuyvFrame width height sequence frame =
    (if even width then Some (map (pattern_byte width (pattern_phase sequence)) [0..<width * height * 2]) else None)"
  using fill_even [OF _ assms(2)] fill_odd [OF _ assms] by simp

theorem synthetic_frame_bounds_witness:
  "FillSyntheticYuyvFrame 2 1 36 [0, 0, 0, 0] = Some [252, 124, 28, 60] \<and>
   FillSyntheticYuyvFrame 3 1 36 [0, 0, 0, 0, 0, 0] = None"
proof -
  have "map (pattern_byte 2 (pattern_phase 36)) [0..<2 * 1 * 2] = [252, 124, 28, 60]" by code_simp
  then show ?thesis
    using synthetic_frame_bounds [of 1 "[0, 0, 0, 0]" 2 36] synthetic_frame_bounds [of 1 "[0, 0, 0, 0, 0, 0]" 3 36]
    by simp
qed

text \<open>A session of the pattern mode, from opening the device on: for every even picture size the
  device starts, and the frames it captures are the library's answers to the patterns of the phases
  1, 2, ..., numbered from 0, with no frame where the library had no output; nothing is
  read or written outside a buffer.\<close>

theorem pattern_session:
  assumes mode: "cp_null_payload_mode config = ''h264_test_pattern''" and backend: "cd_backend codec = ''x264''"
    and size: "even (cp_width config)" "0 \<le> cp_width config" "0 \<le> cp_height config"
    and memory: "malloc_param lib" "malloc_picture lib"
    and opens: "x264_encoder_open lib (configured_param lib (cp_width config) (cp_height config) (cp_fps config) codec) = Some handle"
    and alloc: "planes_exact (cp_width config) (cp_height config) (x264_picture_alloc lib (cp_width config) (cp_height config))"
    and profile: "\<And>name param. i_width (x264_param_apply_profile lib name param) = i_width param \<and>
      i_height (x264_param_apply_profile lib name param) = i_height param"
  shows "\<exists>d1 d2. Null_Start lib config codec (Null_Open NullCaptureDevice_new) = Some (d1, True) \<and>
    Null_CaptureFrames lib neon config clocks d1 = Some (d2, framed_all 0 clocks
      (library_answers lib (cp_width config) (cp_height config) handle 0
        (patterns (cp_width config) (cp_height config) 0 (length clocks))))"
proof -
  let ?w = "cp_width config" and ?h = "cp_height config"
  let ?param = "configured_param lib ?w ?h (cp_fps config) codec"
  let ?d = "pattern_device ?param handle (x264_picture_alloc lib ?w ?h) 0 0 (replicate (nat (?w * ?h * 2)) 0)"
  have dims: "i_width ?param = ?w" "i_height ?param = ?h" by (simp_all add: configured_param_def profile)
  have "Null_Start lib config codec (Null_Open NullCaptureDevice_new) = Some (?d, True)"
    using VideoEncoder_Initialize_x264 [OF encoder_wf_new backend, where lib = lib]
      X264_Initialize_opens [OF backend_wf_new memory opens]
    by (simp add: Null_Start_def Null_Open_def NullCaptureDevice_new_def mode pattern_device_def)
  moreover have "\<exists>d2. Null_CaptureFrames lib neon config clocks ?d = Some (d2, framed_all 0 clocks
      (library_answers lib ?w ?h handle 0 (patterns ?w ?h 0 (length clocks))))"
    by (rule Null_CaptureFrames_pattern [OF mode dims size alloc]) simp
  ultimately show ?thesis by blast
qed

definition pattern_config :: CaptureConfig where
  "pattern_config = CaptureConfig_default\<lparr>cp_source := ''null'', cp_width := 2, cp_height := 1,
     cp_null_payload_mode := ''h264_test_pattern''\<rparr>"

theorem pattern_session_witness:
  "\<exists>(d1 :: nat NullCaptureDevice) (d2 :: nat NullCaptureDevice).
     Null_Start echo_library pattern_config CodecConfig_default (Null_Open NullCaptureDevice_new) = Some (d1, True) \<and>
     Null_CaptureFrames echo_library False pattern_config [(10, 11, 12), (20, 21, 22)] d1 = Some (d2,
       [Some (EncodedFrame_default\<lparr>ef_sequence := 0, ef_capture_timestamp_ns := 10, ef_encode_start_timestamp_ns := 11,
          ef_encode_end_timestamp_ns := 12, ef_is_keyframe := True, ef_payload := [7, 39, 0]\<rparr>),
        Some (EncodedFrame_default\<lparr>ef_sequence := 1, ef_capture_timestamp_ns := 20, ef_encode_start_timestamp_ns := 21,
          ef_encode_end_timestamp_ns := 22, ef_is_keyframe := False, ef_payload := [14, 46, 1]\<rparr>)])"
proof -
  let ?clocks = "[(10, 11, 12), (20, 21, 22)] :: (u64 \<times> u64 \<times> u64) list"
  let ?answers = "library_answers echo_library 2 1 0 0 (patterns 2 1 0 (length ?clocks))"
  have dims: "cp_width pattern_config = 2" "cp_height pattern_config = 1" "cp_fps pattern_config = 30"
    "cp_null_payload_mode pattern_config = ''h264_test_pattern''" by code_simp+
  have answers: "?answers = [Encoded [7, 39, 0] True, Encoded [14, 46, 1] False]" by code_simp
  have "\<exists>(d1 :: nat NullCaptureDevice) d2. Null_Start echo_library pattern_config CodecConfig_default
      (Null_Open NullCaptureDevice_new) = Some (d1, True) \<and>
    Null_CaptureFrames echo_library False pattern_config ?clocks d1 = Some (d2, framed_all 0 ?clocks
      (library_answers echo_library (cp_width pattern_config) (cp_height pattern_config) 0 0
        (patterns (cp_width pattern_config) (cp_height pattern_config) 0 (length ?clocks))))"
    by (rule pattern_session)
      (simp_all add: dims echo_library_def CodecConfig_default_def configured_param_def planes_exact_def echo_planes_def)
  then show ?thesis unfolding dims answers
    by (simp add: framed_def blank_frame_def EncodedFrame_default_def)
qed

text \<open>The text mode needs no encoder; its frames are numbered without a gap.\<close>

lemma text_frame:
  assumes "cp_null_payload_mode config \<noteq> ''h264_test_pattern''" "nc_streaming d"
  shows "Null_CaptureFrame lib neon config (t0, t1, t2) d =
    Some (d\<lparr>nc_sequence := nc_sequence d + 1\<rparr>,
      Some ((blank_frame (nc_sequence d) t0)\<lparr>ef_encode_start_timestamp_ns := t0, ef_is_keyframe := True,
        ef_payload := text_payload config (nc_sequence d), ef_encode_end_timestamp_ns := t2\<rparr>))"
  using assms by (simp add: Null_CaptureFrame_def Let_def blank_frame_def EncodedFrame_default_def)

end
