(* ===== verification/V4l2_Capture.thy ===== *)
theory V4l2_Capture
  imports Video_Encoder Frames
begin

section \<open>The camera\<close>

text \<open>
  \<^verbatim>\<open>sserver/src/modules/capture/video/v4l2/V4L2CaptureDevice.cpp\<close>: the capture device on top of the
  memory-mapped streaming interface of V4L2. The kernel is not part of the repository: what the
  system calls answer is the argument \<open>v4l2_answers\<close> of the operations, and the calls that take
  or return a resource (a descriptor, a mapping, a buffer of the driver's queue, the stream) are
  logged in the device in the order the code makes them. What they mean for the resources is
  defined from the log. \<open>None\<close> is undefined behaviour (reading outside a mapping).
\<close>

subsection \<open>System calls\<close>

datatype syscall =
    Opened int
  | Closed int
  | Mapped nat nat
  | Unmapped nat nat
  | Queued nat
  | QueueRefused nat
  | Dequeued nat
  | StreamedOn
  | StreamedOff

text \<open>The answers at start-up: \<open>va_stat\<close> is whether the path is a character device, \<open>va_querycap\<close> the
  capabilities (capture, streaming), \<open>va_s_fmt\<close> the format the driver settled on (width,
  height, pixel format), \<open>va_reqbufs\<close> the number of buffers granted for a request,
  \<open>va_querybuf\<close> the length of a buffer, \<open>va_mmap\<close> its address.\<close>

record v4l2_answers =
  va_stat :: "bool option"
  va_open :: "nat option"
  va_querycap :: "(bool \<times> bool) option"
  va_s_fmt :: "(int \<times> int \<times> string) option"
  va_g_parm :: "bool option"
  va_s_parm :: bool
  va_reqbufs :: "int \<Rightarrow> nat option"
  va_querybuf :: "nat \<Rightarrow> nat option"
  va_mmap :: "nat \<Rightarrow> nat option"
  va_qbuf :: "nat \<Rightarrow> bool"
  va_streamon :: bool

text \<open>\<^verbatim>\<open>IoctlWithRetry\<close>: the call is repeated while a signal interrupts it. The argument is the results of
  the attempts, an interrupted one being \<open>Interrupted\<close>; there is no result while every attempt so
  far was interrupted. The answers above are results of this function.\<close>

datatype ioctl_attempt = Interrupted | Done int

fun IoctlWithRetry :: "ioctl_attempt list \<Rightarrow> int option" where
  "IoctlWithRetry [] = None"
| "IoctlWithRetry (Interrupted # attempts) = IoctlWithRetry attempts"
| "IoctlWithRetry (Done result # attempts) = Some result"

subsection \<open>The device\<close>

text \<open>A mapped buffer is its address, absent when it is not mapped, and its length.\<close>

type_synonym MappedBuffer = "nat option \<times> nat"

record 'h V4L2CaptureDevice =
  vd_fd :: int
  vd_opened :: bool
  vd_streaming :: bool
  vd_logged_timestamp_source :: bool
  vd_buffers :: "MappedBuffer list"
  vd_sequence :: u64
  vd_encoder :: "'h VideoEncoder option"
  vd_calls :: "syscall list"

definition V4L2CaptureDevice_new :: "'h V4L2CaptureDevice" where
  "V4L2CaptureDevice_new =
     \<lparr>vd_fd = -1, vd_opened = False, vd_streaming = False, vd_logged_timestamp_source = False,
      vd_buffers = [], vd_sequence = 0, vd_encoder = None, vd_calls = []\<rparr>"

definition call :: "syscall \<Rightarrow> 'h V4L2CaptureDevice \<Rightarrow> 'h V4L2CaptureDevice" where
  "call c d = d\<lparr>vd_calls := vd_calls d @ [c]\<rparr>"

definition V4L2_Open :: "v4l2_answers \<Rightarrow> 'h V4L2CaptureDevice \<Rightarrow> 'h V4L2CaptureDevice \<times> bool" where
  "V4L2_Open a d = (case va_stat a of
       None \<Rightarrow> (d, False)
     | Some is_chr \<Rightarrow>
         if \<not> is_chr then (d, False)
         else (case va_open a of
             None \<Rightarrow> (d\<lparr>vd_fd := -1\<rparr>, False)
           | Some fd \<Rightarrow> (call (Opened (int fd)) (d\<lparr>vd_fd := int fd, vd_opened := True\<rparr>), True)))"

definition QueryCapabilities :: "v4l2_answers \<Rightarrow> bool" where
  "QueryCapabilities a = (case va_querycap a of
       None \<Rightarrow> False
     | Some (capture, streaming) \<Rightarrow> if \<not> capture then False else if \<not> streaming then False else True)"

text \<open>The format the driver settled on is not looked at.\<close>

definition ConfigureFormat :: "v4l2_answers \<Rightarrow> bool" where
  "ConfigureFormat a = (case va_s_fmt a of None \<Rightarrow> False | Some _ \<Rightarrow> True)"

text \<open>Every branch continues: a frame rate the driver does not take is only worth a warning.\<close>

definition ConfigureFrameRate :: "v4l2_answers \<Rightarrow> bool" where
  "ConfigureFrameRate a = (case va_g_parm a of
       None \<Rightarrow> True
     | Some timeperframe \<Rightarrow> if \<not> timeperframe then True else if \<not> va_s_parm a then True else True)"

fun map_buffers :: "v4l2_answers \<Rightarrow> nat list \<Rightarrow> 'h V4L2CaptureDevice \<Rightarrow> 'h V4L2CaptureDevice \<times> bool" where
  "map_buffers a [] d = (d, True)"
| "map_buffers a (index # indices) d = (case va_querybuf a index of
       None \<Rightarrow> (d, False)
     | Some len \<Rightarrow> (case va_mmap a index of
           None \<Rightarrow> (d\<lparr>vd_buffers := (vd_buffers d)[index := (None, len)]\<rparr>, False)
         | Some start \<Rightarrow> map_buffers a indices
             (call (Mapped start len) (d\<lparr>vd_buffers := (vd_buffers d)[index := (Some start, len)]\<rparr>))))"

definition InitializeMemoryMapping :: "v4l2_answers \<Rightarrow> CaptureConfig \<Rightarrow> 'h V4L2CaptureDevice \<Rightarrow>
    'h V4L2CaptureDevice \<times> bool" where
  "InitializeMemoryMapping a config d = (case va_reqbufs a (cp_device_buffer_count config) of
       None \<Rightarrow> (d, False)
     | Some count \<Rightarrow>
         if count < 2 then (d, False)
         else map_buffers a [0..<count] (d\<lparr>vd_buffers := replicate count (None, 0)\<rparr>))"

fun queue_buffers :: "v4l2_answers \<Rightarrow> nat list \<Rightarrow> 'h V4L2CaptureDevice \<Rightarrow> 'h V4L2CaptureDevice \<times> bool" where
  "queue_buffers a [] d = (d, True)"
| "queue_buffers a (index # indices) d =
     (if va_qbuf a index then queue_buffers a indices (call (Queued index) d)
      else (call (QueueRefused index) d, False))"

definition QueueCaptureBuffers :: "v4l2_answers \<Rightarrow> 'h V4L2CaptureDevice \<Rightarrow> 'h V4L2CaptureDevice \<times> bool" where
  "QueueCaptureBuffers a d = queue_buffers a [0..<length (vd_buffers d)] d"

fun unmap_calls :: "MappedBuffer list \<Rightarrow> syscall list" where
  "unmap_calls [] = []"
| "unmap_calls ((Some start, len) # buffers) = Unmapped start len # unmap_calls buffers"
| "unmap_calls ((None, len) # buffers) = unmap_calls buffers"

definition ReleaseMappedBuffers :: "'h V4L2CaptureDevice \<Rightarrow> 'h V4L2CaptureDevice" where
  "ReleaseMappedBuffers d = d\<lparr>vd_calls := vd_calls d @ unmap_calls (vd_buffers d), vd_buffers := []\<rparr>"

definition StartStreaming :: "v4l2_answers \<Rightarrow> 'h V4L2CaptureDevice \<Rightarrow> 'h V4L2CaptureDevice \<times> bool" where
  "StartStreaming a d = (if va_streamon a then (call StreamedOn d, True) else (d, False))"

definition StopStreaming :: "'h V4L2CaptureDevice \<Rightarrow> 'h V4L2CaptureDevice" where
  "StopStreaming d = call StreamedOff d"

text \<open>\<^verbatim>\<open>Start\<close>: the preparation up to the queued buffers, then the encoder, then the stream.\<close>

definition prepare_capture :: "v4l2_answers \<Rightarrow> CaptureConfig \<Rightarrow> 'h V4L2CaptureDevice \<Rightarrow>
    'h V4L2CaptureDevice \<times> bool" where
  "prepare_capture a config d =
     (if \<not> (QueryCapabilities a \<and> ConfigureFormat a \<and> ConfigureFrameRate a) then (d, False)
      else (case InitializeMemoryMapping a config d of
          (d, False) \<Rightarrow> (d, False)
        | (d, True) \<Rightarrow> QueueCaptureBuffers a d))"

definition V4L2_Start :: "'h x264_library \<Rightarrow> v4l2_answers \<Rightarrow> CaptureConfig \<Rightarrow> CodecConfig \<Rightarrow>
    'h V4L2CaptureDevice \<Rightarrow> ('h V4L2CaptureDevice \<times> bool) option" where
  "V4L2_Start lib a config codec d =
     (if \<not> vd_opened d then Some (d, False)
      else (case prepare_capture a config d of
          (d, False) \<Rightarrow> Some (ReleaseMappedBuffers d, False)
        | (d, True) \<Rightarrow> do {
            _ \<leftarrow> release_encoder (vd_encoder d);
            (encoder, err) \<leftarrow> VideoEncoder_Initialize lib (cp_width config) (cp_height config) (cp_fps config)
              codec VideoEncoder_new;
            if err \<noteq> None then Some ((ReleaseMappedBuffers d)\<lparr>vd_encoder := None\<rparr>, False)
            else (case StartStreaming a (d\<lparr>vd_encoder := Some encoder\<rparr>) of
                (d, False) \<Rightarrow> do {
                  _ \<leftarrow> release_encoder (vd_encoder d);
                  Some (ReleaseMappedBuffers (d\<lparr>vd_encoder := None\<rparr>), False) }
              | (d, True) \<Rightarrow> Some (d\<lparr>vd_streaming := True\<rparr>, True)) }))"

definition V4L2_Stop :: "'h V4L2CaptureDevice \<Rightarrow> 'h V4L2CaptureDevice option" where
  "V4L2_Stop d =
     (if \<not> vd_opened d then Some d
      else do {
        let d = (if vd_streaming d then (StopStreaming d)\<lparr>vd_streaming := False\<rparr> else d);
        _ \<leftarrow> release_encoder (vd_encoder d);
        Some (ReleaseMappedBuffers (d\<lparr>vd_encoder := None\<rparr>)) })"

definition V4L2_Close :: "'h V4L2CaptureDevice \<Rightarrow> 'h V4L2CaptureDevice" where
  "V4L2_Close d =
     (let d = (if 0 \<le> vd_fd d then (call (Closed (vd_fd d)) d)\<lparr>vd_fd := -1\<rparr> else d)
      in d\<lparr>vd_opened := False\<rparr>)"

definition V4L2_Describe :: "CaptureConfig \<Rightarrow> string" where
  "V4L2_Describe config = ''v4l2-capture-device('' @ cp_device config @ '')''"

subsection \<open>Capturing\<close>

definition TimevalToNs :: "u64 \<Rightarrow> u64 \<Rightarrow> u64" where
  "TimevalToNs tv_sec tv_usec = tv_sec * 1000000000 + tv_usec * 1000"

text \<open>A dequeued buffer: its index, the bytes used, the time stamp with its kind, and what the mapping of
  the buffer holds.\<close>

record v4l2_buffer =
  vb_index :: nat
  vb_bytesused :: nat
  vb_monotonic :: bool
  vb_tv_sec :: u64
  vb_tv_usec :: u64
  vb_memory :: bytes

definition buffer_timestamp :: "u64 \<Rightarrow> v4l2_buffer \<Rightarrow> u64" where
  "buffer_timestamp now b = (if vb_monotonic b then TimevalToNs (vb_tv_sec b) (vb_tv_usec b) else now)"

text \<open>The bytes at the buffer's mapping: \<^verbatim>\<open>bytesused\<close> of them, or the length of the mapping.\<close>

definition buffer_length :: "v4l2_buffer \<Rightarrow> MappedBuffer \<Rightarrow> nat" where
  "buffer_length b m = (if 0 < vb_bytesused b then vb_bytesused b else snd m)"

definition buffer_bytes :: "'h V4L2CaptureDevice \<Rightarrow> v4l2_buffer \<Rightarrow> bytes option" where
  "buffer_bytes d b =
     (if length (vd_buffers d) \<le> vb_index b then None
      else let m = vd_buffers d ! vb_index b in
        if fst m = None then None else load_block (vb_memory b) 0 (buffer_length b m))"

definition queue_again :: "v4l2_buffer \<Rightarrow> bool \<Rightarrow> 'h V4L2CaptureDevice \<Rightarrow> 'h V4L2CaptureDevice" where
  "queue_again b ok d = call (if ok then Queued (vb_index b) else QueueRefused (vb_index b)) d"

definition captured_frame :: "u64 \<Rightarrow> u64 \<Rightarrow> u64 \<times> u64 \<Rightarrow> bytes \<Rightarrow> bool \<Rightarrow> EncodedFrame" where
  "captured_frame sequence timestamp clock payload key =
     \<lparr>ef_type = kVideo, ef_sequence = sequence, ef_capture_timestamp_ns = timestamp,
      ef_encode_start_timestamp_ns = fst clock, ef_encode_end_timestamp_ns = snd clock,
      ef_is_keyframe = key, ef_payload = payload\<rparr>"

definition encode_with :: "'h x264_library \<Rightarrow> bool \<Rightarrow> bytes \<Rightarrow> 'h V4L2CaptureDevice \<Rightarrow>
    ('h V4L2CaptureDevice \<times> encode_outcome) option" where
  "encode_with lib neon data d = (case vd_encoder d of
       None \<Rightarrow> Some (d, NotReady)
     | Some encoder \<Rightarrow> do {
         (encoder, outcome) \<leftarrow> VideoEncoder_EncodeYuyv422Frame lib neon data encoder;
         Some (d\<lparr>vd_encoder := Some encoder\<rparr>, outcome) })"

text \<open>\<^verbatim>\<open>CaptureFrame\<close>. \<open>dq\<close> is the answer to the dequeue request (\<open>None\<close>: it failed, for want of a
  frame or otherwise), \<open>qbuf_ok\<close> the answer to giving the buffer back.\<close>

definition V4L2_CaptureFrame :: "'h x264_library \<Rightarrow> bool \<Rightarrow> v4l2_buffer option \<Rightarrow> bool \<Rightarrow> u64 \<Rightarrow> u64 \<times> u64 \<Rightarrow>
    'h V4L2CaptureDevice \<Rightarrow> ('h V4L2CaptureDevice \<times> EncodedFramePtr) option" where
  "V4L2_CaptureFrame lib neon dq qbuf_ok now clock d =
     (if \<not> vd_streaming d then Some (d, None)
      else (case dq of
          None \<Rightarrow> Some (d, None)
        | Some b \<Rightarrow> do {
            let d = (call (Dequeued (vb_index b)) d)\<lparr>vd_logged_timestamp_source := True\<rparr>;
            data \<leftarrow> buffer_bytes d b;
            (d, outcome) \<leftarrow> encode_with lib neon data d;
            let d = queue_again b qbuf_ok d;
            case outcome of
              Encoded payload key \<Rightarrow>
                if \<not> qbuf_ok then Some (d, None)
                else Some (d\<lparr>vd_sequence := vd_sequence d + 1\<rparr>,
                  Some (captured_frame (vd_sequence d) (buffer_timestamp now b) clock payload key))
            | _ \<Rightarrow> Some (d, None) }))"

record RawCaptureFrame =
  rf_data :: bytes
  rf_capture_timestamp_ns :: u64
  rf_bytes_used :: nat

definition V4L2_CaptureRawFrame :: "v4l2_buffer option \<Rightarrow> bool \<Rightarrow> u64 \<Rightarrow> 'h V4L2CaptureDevice \<Rightarrow>
    ('h V4L2CaptureDevice \<times> RawCaptureFrame option) option" where
  "V4L2_CaptureRawFrame dq qbuf_ok now d =
     (if \<not> vd_streaming d then Some (d, None)
      else (case dq of
          None \<Rightarrow> Some (d, None)
        | Some b \<Rightarrow> do {
            let d = (call (Dequeued (vb_index b)) d)\<lparr>vd_logged_timestamp_source := True\<rparr>;
            data \<leftarrow> buffer_bytes d b;
            Some (queue_again b qbuf_ok d,
              Some \<lparr>rf_data = data, rf_capture_timestamp_ns = buffer_timestamp now b,
                    rf_bytes_used = length data\<rparr>) }))"

definition V4L2_EncodeRawFrame :: "'h x264_library \<Rightarrow> bool \<Rightarrow> RawCaptureFrame option \<Rightarrow> u64 \<times> u64 \<Rightarrow>
    'h V4L2CaptureDevice \<Rightarrow> ('h V4L2CaptureDevice \<times> EncodedFramePtr) option" where
  "V4L2_EncodeRawFrame lib neon raw clock d = (case raw of
       None \<Rightarrow> Some (d, None)
     | Some raw \<Rightarrow> do {
         (d, outcome) \<leftarrow> encode_with lib neon (take (rf_bytes_used raw) (rf_data raw)) d;
         case outcome of
           Encoded payload key \<Rightarrow> Some (d\<lparr>vd_sequence := vd_sequence d + 1\<rparr>,
             Some (captured_frame (vd_sequence d) (rf_capture_timestamp_ns raw) clock payload key))
         | _ \<Rightarrow> Some (d, None) })"

subsection \<open>What the calls mean for the resources\<close>

text \<open>The descriptors that are open, the live mappings, the buffers the driver owns and whether the stream
  is on, after a sequence of calls. Switching the stream off, or closing the device, takes every buffer out
  of the driver's queue.\<close>

definition open_fds :: "syscall list \<Rightarrow> int list" where
  "open_fds calls = fold (\<lambda>c fds. case c of Opened fd \<Rightarrow> fd # fds | Closed fd \<Rightarrow> remove1 fd fds | _ \<Rightarrow> fds) calls []"

definition live_mappings :: "syscall list \<Rightarrow> (nat \<times> nat) list" where
  "live_mappings calls = fold (\<lambda>c ms. case c of
     Mapped start len \<Rightarrow> ms @ [(start, len)] | Unmapped start len \<Rightarrow> remove1 (start, len) ms | _ \<Rightarrow> ms) calls []"

definition driver_queue :: "syscall list \<Rightarrow> nat list" where
  "driver_queue calls = fold (\<lambda>c q. case c of
     Queued i \<Rightarrow> q @ [i] | Dequeued i \<Rightarrow> remove1 i q | StreamedOff \<Rightarrow> [] | Closed fd \<Rightarrow> [] | _ \<Rightarrow> q) calls []"

definition stream_on :: "syscall list \<Rightarrow> bool" where
  "stream_on calls = fold (\<lambda>c on. case c of
     StreamedOn \<Rightarrow> True | StreamedOff \<Rightarrow> False | Closed fd \<Rightarrow> False | _ \<Rightarrow> on) calls False"

lemmas resource_defs = open_fds_def live_mappings_def driver_queue_def stream_on_def

text \<open>A device that holds nothing, and one that is capturing.\<close>

definition holds_nothing :: "'h V4L2CaptureDevice \<Rightarrow> bool" where
  "holds_nothing d \<longleftrightarrow> vd_fd d = -1 \<and> \<not> vd_opened d \<and> \<not> vd_streaming d \<and> vd_encoder d = None \<and>
     vd_buffers d = [] \<and> open_fds (vd_calls d) = [] \<and> live_mappings (vd_calls d) = [] \<and>
     driver_queue (vd_calls d) = [] \<and> \<not> stream_on (vd_calls d)"

definition capturing :: "'h V4L2CaptureDevice \<Rightarrow> bool" where
  "capturing d \<longleftrightarrow> 0 \<le> vd_fd d \<and> vd_opened d \<and> vd_streaming d \<and>
     (\<exists>e. vd_encoder d = Some e \<and> encoder_wf e) \<and> 2 \<le> length (vd_buffers d) \<and>
     (\<forall>m \<in> set (vd_buffers d). fst m \<noteq> None) \<and>
     open_fds (vd_calls d) = [vd_fd d] \<and>
     live_mappings (vd_calls d) = map (\<lambda>m. (the (fst m), snd m)) (vd_buffers d) \<and> stream_on (vd_calls d)"

subsection \<open>Resources while the device starts and stops\<close>

lemma open_fds_simps [simp]:
  "open_fds [] = []"
  "open_fds (calls @ [Opened fd]) = fd # open_fds calls"
  "open_fds (calls @ [Closed fd]) = remove1 fd (open_fds calls)"
  "open_fds (calls @ [Mapped start len]) = open_fds calls"
  "open_fds (calls @ [Queued i]) = open_fds calls"
  "open_fds (calls @ [QueueRefused i]) = open_fds calls"
  "open_fds (calls @ [Dequeued i]) = open_fds calls"
  "open_fds (calls @ [StreamedOn]) = open_fds calls"
  "open_fds (calls @ [StreamedOff]) = open_fds calls"
  by (simp_all add: open_fds_def)

lemma live_mappings_simps [simp]:
  "live_mappings [] = []"
  "live_mappings (calls @ [Opened fd]) = live_mappings calls"
  "live_mappings (calls @ [Closed fd]) = live_mappings calls"
  "live_mappings (calls @ [Mapped start len]) = live_mappings calls @ [(start, len)]"
  "live_mappings (calls @ [Queued i]) = live_mappings calls"
  "live_mappings (calls @ [QueueRefused i]) = live_mappings calls"
  "live_mappings (calls @ [Dequeued i]) = live_mappings calls"
  "live_mappings (calls @ [StreamedOn]) = live_mappings calls"
  "live_mappings (calls @ [StreamedOff]) = live_mappings calls"
  by (simp_all add: live_mappings_def)

lemma driver_queue_simps [simp]:
  "driver_queue [] = []"
  "driver_queue (calls @ [Opened fd]) = driver_queue calls"
  "driver_queue (calls @ [Closed fd]) = []"
  "driver_queue (calls @ [Mapped start len]) = driver_queue calls"
  "driver_queue (calls @ [Queued i]) = driver_queue calls @ [i]"
  "driver_queue (calls @ [QueueRefused i]) = driver_queue calls"
  "driver_queue (calls @ [Dequeued i]) = remove1 i (driver_queue calls)"
  "driver_queue (calls @ [StreamedOn]) = driver_queue calls"
  "driver_queue (calls @ [StreamedOff]) = []"
  by (simp_all add: driver_queue_def)

lemma stream_on_simps [simp]:
  "stream_on [] = False"
  "stream_on (calls @ [Opened fd]) = stream_on calls"
  "stream_on (calls @ [Closed fd]) = False"
  "stream_on (calls @ [Mapped start len]) = stream_on calls"
  "stream_on (calls @ [Queued i]) = stream_on calls"
  "stream_on (calls @ [QueueRefused i]) = stream_on calls"
  "stream_on (calls @ [Dequeued i]) = stream_on calls"
  "stream_on (calls @ [StreamedOn]) = True"
  "stream_on (calls @ [StreamedOff]) = False"
  by (simp_all add: stream_on_def)

text \<open>The mappings a list of buffers stands for; releasing the buffers ends exactly those.\<close>

fun live_of :: "MappedBuffer list \<Rightarrow> (nat \<times> nat) list" where
  "live_of [] = []"
| "live_of ((Some start, len) # buffers) = (start, len) # live_of buffers"
| "live_of ((None, len) # buffers) = live_of buffers"

lemma unmap_calls_other [simp]:
  "open_fds (calls @ unmap_calls buffers) = open_fds calls"
  "driver_queue (calls @ unmap_calls buffers) = driver_queue calls"
  "stream_on (calls @ unmap_calls buffers) = stream_on calls"
  by (induction buffers arbitrary: calls rule: unmap_calls.induct) (simp_all add: resource_defs)

lemma unmap_calls_live:
  "live_mappings calls = live_of buffers \<Longrightarrow> live_mappings (calls @ unmap_calls buffers) = []"
proof (induction buffers arbitrary: calls rule: unmap_calls.induct)
  case (2 start len buffers)
  have "live_mappings (calls @ [Unmapped start len]) = live_of buffers"
    using 2(2) by (simp add: live_mappings_def)
  then show ?case using 2(1) [of "calls @ [Unmapped start len]"] by simp
qed simp_all

lemma live_of_append: "live_of (xs @ ys) = live_of xs @ live_of ys"
  by (induction xs rule: live_of.induct) simp_all

lemma live_of_unmapped: "\<forall>m \<in> set xs. fst m = None \<Longrightarrow> live_of xs = []"
  by (induction xs rule: live_of.induct) auto

lemma live_of_mapped: "\<forall>m \<in> set xs. fst m \<noteq> None \<Longrightarrow> live_of xs = map (\<lambda>m. (the (fst m), snd m)) xs"
  by (induction xs rule: live_of.induct) auto

lemma live_of_update:
  assumes "i < length bufs" "\<forall>m \<in> set (drop i bufs). fst m = None"
  shows "live_of (bufs[i := (Some start, len)]) = live_of bufs @ [(start, len)]"
    and "live_of (bufs[i := (None, len)]) = live_of bufs"
proof -
  have "bufs = take i bufs @ drop i bufs" by simp
  then have old: "live_of bufs = live_of (take i bufs)"
    using live_of_append live_of_unmapped [OF assms(2)] by (metis append_Nil2)
  have "set (drop (Suc i) bufs) \<subseteq> set (drop i bufs)" by (simp add: set_drop_subset_set_drop)
  then have "live_of (drop (Suc i) bufs) = []" using assms(2) by (intro live_of_unmapped) blast
  then show "live_of (bufs[i := (Some start, len)]) = live_of bufs @ [(start, len)]"
    "live_of (bufs[i := (None, len)]) = live_of bufs"
    using assms(1) by (simp_all add: upd_conv_take_nth_drop live_of_append old)
qed

text \<open>A device that is open and holds nothing but what its buffer list shows.\<close>

definition idle :: "'h V4L2CaptureDevice \<Rightarrow> bool" where
  "idle d \<longleftrightarrow> 0 \<le> vd_fd d \<and> vd_opened d \<and> \<not> vd_streaming d \<and> vd_encoder d = None \<and>
     open_fds (vd_calls d) = [vd_fd d] \<and> live_mappings (vd_calls d) = live_of (vd_buffers d) \<and>
     \<not> stream_on (vd_calls d)"

lemma V4L2_Open_resources:
  assumes "holds_nothing d" "V4L2_Open a d = (d', ok)"
  shows "if ok then idle d' \<and> vd_buffers d' = [] \<and> driver_queue (vd_calls d') = [] else holds_nothing d'"
  using assms
  by (auto simp: V4L2_Open_def holds_nothing_def idle_def call_def split: option.splits if_splits)

lemma map_buffers_idle:
  assumes "idle d" "map_buffers a [i..<n] d = (d', ok)" "length (vd_buffers d) = n"
    and "\<forall>m \<in> set (take i (vd_buffers d)). fst m \<noteq> None" "\<forall>m \<in> set (drop i (vd_buffers d)). fst m = None"
  shows "idle d' \<and> driver_queue (vd_calls d') = driver_queue (vd_calls d) \<and>
    (ok \<longrightarrow> length (vd_buffers d') = n \<and> (\<forall>m \<in> set (vd_buffers d'). fst m \<noteq> None))"
  using assms
proof (induction "n - i" arbitrary: i d)
  case 0
  then show ?case by simp
next
  case (Suc k)
  then have i: "i < n" by simp
  then have upt: "[i..<n] = i # [Suc i..<n]" by (rule upt_conv_Cons)
  let ?b = "\<lambda>start len. (vd_buffers d)[i := (Some start, len)]"
  show ?case
  proof (cases "\<exists>len start. va_querybuf a i = Some len \<and> va_mmap a i = Some start")
    case False
    then show ?thesis using Suc.prems i
      by (auto simp: upt idle_def live_of_update split: option.splits)
  next
    case True
    then obtain len start where ans: "va_querybuf a i = Some len" "va_mmap a i = Some start" by blast
    let ?d = "call (Mapped start len) (d\<lparr>vd_buffers := ?b start len\<rparr>)"
    have idle: "idle ?d"
      using Suc.prems(1,3,5) i by (simp add: idle_def call_def live_of_update)
    have taken: "take (Suc i) (?b start len) = take i (vd_buffers d) @ [(Some start, len)]"
      using i Suc.prems(3) by (simp add: take_Suc_conv_app_nth)
    have dropped: "drop (Suc i) (?b start len) = drop (Suc i) (vd_buffers d)" by simp
    have "set (drop (Suc i) (vd_buffers d)) \<subseteq> set (drop i (vd_buffers d))"
      by (simp add: set_drop_subset_set_drop)
    then have rest: "\<forall>m \<in> set (drop (Suc i) (vd_buffers ?d)). fst m = None"
      using Suc.prems(5) by (auto simp: call_def dropped)
    have front: "\<forall>m \<in> set (take (Suc i) (vd_buffers ?d)). fst m \<noteq> None"
      using Suc.prems(4) by (simp add: call_def taken)
    have run: "map_buffers a [Suc i..<n] ?d = (d', ok)" using Suc.prems(2) by (simp add: upt ans)
    have "length (vd_buffers ?d) = n" using Suc.prems(3) by (simp add: call_def)
    then show ?thesis using Suc.hyps(1) [OF _ idle run _ front rest] Suc.hyps(2)
      by (simp add: call_def)
  qed
qed

lemma queue_buffers_idle:
  assumes "idle d" "queue_buffers a is d = (d', ok)"
  shows "idle d' \<and> vd_buffers d' = vd_buffers d \<and> (ok \<longrightarrow> driver_queue (vd_calls d') = driver_queue (vd_calls d) @ is)"
  using assms
proof (induction a "is" d rule: queue_buffers.induct)
  case (2 a index indices d)
  have "idle (call (Queued index) d)" "idle (call (QueueRefused index) d)"
    using 2(2) by (simp_all add: idle_def call_def)
  then show ?case using 2(1,3) by (auto simp: call_def split: if_splits)
qed simp

lemma prepare_capture_idle:
  assumes "idle d" "vd_buffers d = []" "driver_queue (vd_calls d) = []" "prepare_capture a config d = (d', ok)"
  shows "idle d' \<and> (ok \<longrightarrow> 2 \<le> length (vd_buffers d') \<and> (\<forall>m \<in> set (vd_buffers d'). fst m \<noteq> None) \<and>
    driver_queue (vd_calls d') = [0..<length (vd_buffers d')])"
proof (cases "\<exists>n. va_reqbufs a (cp_device_buffer_count config) = Some n \<and> \<not> n < 2 \<and>
    QueryCapabilities a \<and> ConfigureFormat a \<and> ConfigureFrameRate a")
  case False
  then show ?thesis using assms
    by (auto simp: prepare_capture_def InitializeMemoryMapping_def split: if_splits option.splits)
next
  case True
  then obtain n where n: "va_reqbufs a (cp_device_buffer_count config) = Some n" "\<not> n < 2"
    "QueryCapabilities a" "ConfigureFormat a" "ConfigureFrameRate a" by blast
  let ?d = "d\<lparr>vd_buffers := replicate n (None, 0)\<rparr>"
  have "live_of (replicate n (None, 0)) = []" by (rule live_of_unmapped) simp
  then have idle: "idle ?d" using assms(1,2) by (simp add: idle_def)
  obtain d1 ok1 where m: "map_buffers a [0..<n] ?d = (d1, ok1)" by fastforce
  have d1: "idle d1 \<and> driver_queue (vd_calls d1) = [] \<and>
      (ok1 \<longrightarrow> length (vd_buffers d1) = n \<and> (\<forall>m \<in> set (vd_buffers d1). fst m \<noteq> None))"
    using map_buffers_idle [OF idle m] assms(3) by simp
  have prep: "prepare_capture a config d = (if ok1 then QueueCaptureBuffers a d1 else (d1, False))"
    using n m by (simp add: prepare_capture_def InitializeMemoryMapping_def split: bool.splits)
  show ?thesis
  proof (cases ok1)
    case False
    then show ?thesis using prep d1 assms(4) by auto
  next
    case ok1: True
    then have "queue_buffers a [0..<n] d1 = (d', ok)"
      using prep d1 assms(4) by (simp add: QueueCaptureBuffers_def)
    then show ?thesis using queue_buffers_idle [of d1 a "[0..<n]" d' ok] d1 ok1 n(2) by auto
  qed
qed

lemma ReleaseMappedBuffers_idle:
  "idle d \<Longrightarrow> idle (ReleaseMappedBuffers d) \<and> vd_buffers (ReleaseMappedBuffers d) = []"
  by (simp add: idle_def ReleaseMappedBuffers_def unmap_calls_live)

text \<open>\<^verbatim>\<open>Start\<close> either leaves the device capturing, with every buffer in the driver's queue, or open
  with no mapping left.\<close>

lemma V4L2_Start_resources:
  assumes "idle d" "vd_buffers d = []" "driver_queue (vd_calls d) = []"
    and "V4L2_Start lib a config codec d = Some (d', ok)"
  shows "if ok then capturing d' \<and> driver_queue (vd_calls d') = [0..<length (vd_buffers d')]
    else idle d' \<and> vd_buffers d' = []"
proof -
  obtain d1 ok1 where p: "prepare_capture a config d = (d1, ok1)" by fastforce
  note d1 = prepare_capture_idle [OF assms(1-3) p]
  have opened: "vd_opened d" using assms(1) by (simp add: idle_def)
  show ?thesis
  proof (cases ok1)
    case False
    then have "d' = ReleaseMappedBuffers d1" "\<not> ok"
      using assms(4) p opened by (auto simp: V4L2_Start_def)
    then show ?thesis using ReleaseMappedBuffers_idle [of d1] d1 by simp
  next
    case True
    have enc: "vd_encoder d1 = None" using d1 by (simp add: idle_def)
    obtain e err where e: "VideoEncoder_Initialize lib (cp_width config) (cp_height config) (cp_fps config) codec
        VideoEncoder_new = Some (e, err)"
      using assms(4) p opened True enc
      by (cases "VideoEncoder_Initialize lib (cp_width config) (cp_height config) (cp_fps config) codec VideoEncoder_new")
        (auto simp: V4L2_Start_def)
    note wf = VideoEncoder_Initialize_wf [OF encoder_wf_new e]
    show ?thesis
    proof (cases "err \<noteq> None \<or> \<not> va_streamon a")
      case True
      then have "\<not> ok \<and> d' = ReleaseMappedBuffers d1"
        using assms(4) p opened \<open>ok1\<close> enc e release_encoder_wf [of e] wf
        by (auto simp: V4L2_Start_def StartStreaming_def ReleaseMappedBuffers_def split: if_splits)
      then show ?thesis using ReleaseMappedBuffers_idle [of d1] d1 by simp
    next
      case False
      then have "ok \<and> d' = (call StreamedOn (d1\<lparr>vd_encoder := Some e\<rparr>))\<lparr>vd_streaming := True\<rparr>"
        using assms(4) p opened \<open>ok1\<close> enc e by (simp add: V4L2_Start_def StartStreaming_def)
      then show ?thesis using d1 \<open>ok1\<close> wf live_of_mapped [of "vd_buffers d1"]
        by (simp add: capturing_def idle_def call_def)
    qed
  qed
qed

lemma V4L2_Close_idle: "idle d \<Longrightarrow> vd_buffers d = [] \<Longrightarrow> holds_nothing (V4L2_Close d)"
  by (simp add: idle_def holds_nothing_def V4L2_Close_def call_def)

lemma V4L2_Stop_capturing:
  assumes "capturing d"
  shows "\<exists>d'. V4L2_Stop d = Some d' \<and> idle d' \<and> vd_buffers d' = []"
proof -
  obtain e where e: "vd_encoder d = Some e" "encoder_wf e" using assms by (auto simp: capturing_def)
  have "live_mappings (vd_calls d @ [StreamedOff]) = live_of (vd_buffers d)"
    using assms live_of_mapped [of "vd_buffers d"] by (simp add: capturing_def)
  then have "live_mappings ((vd_calls d @ [StreamedOff]) @ unmap_calls (vd_buffers d)) = []"
    by (rule unmap_calls_live)
  moreover have "open_fds ((vd_calls d @ [StreamedOff]) @ unmap_calls (vd_buffers d)) = open_fds (vd_calls d)"
    "\<not> stream_on ((vd_calls d @ [StreamedOff]) @ unmap_calls (vd_buffers d))"
    by (simp_all only: unmap_calls_other open_fds_simps stream_on_simps simp_thms)
  ultimately show ?thesis
    using assms e release_encoder_wf [OF e(2)]
    by (simp add: V4L2_Stop_def StopStreaming_def ReleaseMappedBuffers_def capturing_def idle_def call_def)
qed

subsection \<open>Capturing keeps the resources\<close>

lemma encode_with_capturing:
  assumes "capturing d" "encode_with lib neon data d = Some (d', outcome)"
  shows "capturing d' \<and> vd_calls d' = vd_calls d \<and> vd_sequence d' = vd_sequence d \<and> vd_buffers d' = vd_buffers d"
proof -
  obtain e where e: "vd_encoder d = Some e" "encoder_wf e" using assms(1) by (auto simp: capturing_def)
  have "encoder_wf e'" if "VideoEncoder_EncodeYuyv422Frame lib neon data e = Some (e', out)" for e' out
    using that e(2) X264_EncodeYuyv422Frame_wf [of _ lib neon data]
    by (auto simp: VideoEncoder_EncodeYuyv422Frame_def encoder_wf_def bind_eq_Some_conv split: option.splits)
  then show ?thesis using assms e
    by (auto simp: encode_with_def capturing_def bind_eq_Some_conv)
qed

text \<open>The lengths of the mapped buffers are the driver's.\<close>

lemma map_buffers_lengths:
  assumes "map_buffers a [i..<n] d = (d', True)" "length (vd_buffers d) = n"
    and "\<forall>j<i. va_querybuf a j = Some (snd (vd_buffers d ! j))"
  shows "length (vd_buffers d') = n \<and> (\<forall>j<n. va_querybuf a j = Some (snd (vd_buffers d' ! j)))"
  using assms
proof (induction "n - i" arbitrary: i d)
  case 0
  then show ?case by simp
next
  case (Suc k)
  then have i: "i < n" by simp
  then have upt: "[i..<n] = i # [Suc i..<n]" by (rule upt_conv_Cons)
  obtain len start where ans: "va_querybuf a i = Some len" "va_mmap a i = Some start"
    using Suc.prems(1) by (auto simp: upt split: option.splits)
  let ?d = "call (Mapped start len) (d\<lparr>vd_buffers := (vd_buffers d)[i := (Some start, len)]\<rparr>)"
  have "map_buffers a [Suc i..<n] ?d = (d', True)" using Suc.prems(1) by (simp add: upt ans)
  moreover have "\<forall>j<Suc i. va_querybuf a j = Some (snd (vd_buffers ?d ! j))"
    using Suc.prems(2,3) i ans(1) by (auto simp: call_def nth_list_update less_Suc_eq)
  ultimately show ?case using Suc.hyps(1) [of "Suc i" ?d] Suc.hyps(2) Suc.prems(2) by (simp add: call_def)
qed

definition granted :: "v4l2_answers \<Rightarrow> CaptureConfig \<Rightarrow> MappedBuffer list \<Rightarrow> bool" where
  "granted a config bufs \<longleftrightarrow> va_reqbufs a (cp_device_buffer_count config) = Some (length bufs) \<and>
     (\<forall>j<length bufs. va_querybuf a j = Some (snd (bufs ! j)))"

lemma queue_buffers_buffers: "queue_buffers a is d = (d', ok) \<Longrightarrow> vd_buffers d' = vd_buffers d"
  by (induction a "is" d rule: queue_buffers.induct) (auto simp: call_def split: if_splits)

lemma prepare_capture_granted:
  assumes "prepare_capture a config d = (d', True)"
  shows "granted a config (vd_buffers d')"
proof -
  obtain n d1 where n: "va_reqbufs a (cp_device_buffer_count config) = Some n"
    "map_buffers a [0..<n] (d\<lparr>vd_buffers := replicate n (None, 0)\<rparr>) = (d1, True)"
    "queue_buffers a [0..<length (vd_buffers d1)] d1 = (d', True)"
    using assms by (auto simp: prepare_capture_def InitializeMemoryMapping_def QueueCaptureBuffers_def
        split: if_splits option.splits prod.splits bool.splits)
  have "length (vd_buffers d1) = n \<and> (\<forall>j<n. va_querybuf a j = Some (snd (vd_buffers d1 ! j)))"
    by (rule map_buffers_lengths [OF n(2)]) simp_all
  then show ?thesis using n(1) queue_buffers_buffers [OF n(3)] by (simp add: granted_def)
qed

text \<open>A start that succeeds has the encoder's initialisation succeed.\<close>

lemma V4L2_Start_succeeds:
  assumes "V4L2_Start lib a config codec d = Some (d', True)"
  shows "granted a config (vd_buffers d') \<and> vd_sequence d' = vd_sequence d \<and>
    (\<exists>e. vd_encoder d' = Some e \<and> VideoEncoder_Initialize lib (cp_width config) (cp_height config) (cp_fps config)
      codec VideoEncoder_new = Some (e, None))"
proof -
  have seq_map: "vd_sequence (fst (map_buffers a is d)) = vd_sequence d" for "is" and d :: "'h V4L2CaptureDevice"
    by (induction a "is" d rule: map_buffers.induct) (auto simp: call_def split: option.splits)
  have seq_queue: "vd_sequence (fst (queue_buffers a is d)) = vd_sequence d" for "is" and d :: "'h V4L2CaptureDevice"
    by (induction a "is" d rule: queue_buffers.induct) (auto simp: call_def)
  obtain d1 where p: "prepare_capture a config d = (d1, True)"
    using assms by (auto simp: V4L2_Start_def split: if_splits prod.splits bool.splits)
  have "vd_sequence d1 = vd_sequence d"
  proof -
    obtain n d0 where m: "map_buffers a [0..<n] (d\<lparr>vd_buffers := replicate n (None, 0)\<rparr>) = (d0, True)"
      "queue_buffers a [0..<length (vd_buffers d0)] d0 = (d1, True)"
      using p by (auto simp: prepare_capture_def InitializeMemoryMapping_def QueueCaptureBuffers_def
          split: if_splits option.splits prod.splits bool.splits)
    show ?thesis
      using seq_map [of "[0..<n]" "d\<lparr>vd_buffers := replicate n (None, 0)\<rparr>"]
        seq_queue [of "[0..<length (vd_buffers d0)]" d0] by (simp add: m)
  qed
  then show ?thesis
    using assms p prepare_capture_granted [OF p]
    by (auto simp: V4L2_Start_def StartStreaming_def call_def bind_eq_Some_conv
        split: if_splits prod.splits bool.splits)
qed

subsection \<open>Sessions\<close>

text \<open>What a capture thread (and an encoding thread) ask of the device, in the order the calls take effect.\<close>

datatype capture_op =
    Grab "v4l2_buffer option" bool u64 "u64 \<times> u64"
  | GrabRaw "v4l2_buffer option" bool u64
  | EncodeRaw "RawCaptureFrame option" "u64 \<times> u64"

fun capture_step :: "'h x264_library \<Rightarrow> bool \<Rightarrow> capture_op \<Rightarrow> 'h V4L2CaptureDevice \<Rightarrow>
    ('h V4L2CaptureDevice \<times> EncodedFramePtr) option" where
  "capture_step lib neon (Grab dq ok now clock) d = V4L2_CaptureFrame lib neon dq ok now clock d"
| "capture_step lib neon (GrabRaw dq ok now) d =
     map_option (\<lambda>(d, raw). (d, None)) (V4L2_CaptureRawFrame dq ok now d)"
| "capture_step lib neon (EncodeRaw raw clock) d = V4L2_EncodeRawFrame lib neon raw clock d"

fun capture_run :: "'h x264_library \<Rightarrow> bool \<Rightarrow> capture_op list \<Rightarrow> 'h V4L2CaptureDevice \<Rightarrow>
    ('h V4L2CaptureDevice \<times> EncodedFrame list) option" where
  "capture_run lib neon [] d = Some (d, [])"
| "capture_run lib neon (op # ops) d = do {
     (d, frame) \<leftarrow> capture_step lib neon op d;
     (d, frames) \<leftarrow> capture_run lib neon ops d;
     Some (d, (case frame of None \<Rightarrow> frames | Some f \<Rightarrow> f # frames)) }"

text \<open>Open, start, capture, stop, close; a start that fails closes the device again.\<close>

definition camera_session :: "'h x264_library \<Rightarrow> bool \<Rightarrow> CaptureConfig \<Rightarrow> CodecConfig \<Rightarrow>
    v4l2_answers \<times> capture_op list \<Rightarrow> 'h V4L2CaptureDevice \<Rightarrow> ('h V4L2CaptureDevice \<times> EncodedFrame list) option" where
  "camera_session lib neon config codec s d = (case s of (a, ops) \<Rightarrow> (case V4L2_Open a d of
       (d, False) \<Rightarrow> Some (d, [])
     | (d, True) \<Rightarrow> do {
         (d, ok) \<leftarrow> V4L2_Start lib a config codec d;
         if \<not> ok then Some (V4L2_Close d, [])
         else do {
           (d, frames) \<leftarrow> capture_run lib neon ops d;
           d \<leftarrow> V4L2_Stop d;
           Some (V4L2_Close d, frames) } }))"

fun camera_sessions :: "'h x264_library \<Rightarrow> bool \<Rightarrow> CaptureConfig \<Rightarrow> CodecConfig \<Rightarrow>
    (v4l2_answers \<times> capture_op list) list \<Rightarrow> 'h V4L2CaptureDevice \<Rightarrow>
    ('h V4L2CaptureDevice \<times> EncodedFrame list) option" where
  "camera_sessions lib neon config codec [] d = Some (d, [])"
| "camera_sessions lib neon config codec (s # ss) d = do {
     (d, frames) \<leftarrow> camera_session lib neon config codec s d;
     (d, more) \<leftarrow> camera_sessions lib neon config codec ss d;
     Some (d, frames @ more) }"

text \<open>A capturing device whose encoder has planes of the size of the picture.\<close>

definition encoder_exact :: "CaptureConfig \<Rightarrow> 'h VideoEncoder \<Rightarrow> bool" where
  "encoder_exact config e \<longleftrightarrow> (\<exists>param handle planes pts. ve_backend e = Some (ready param handle planes pts) \<and>
     i_width param = cp_width config \<and> i_height param = cp_height config \<and>
     planes_exact (cp_width config) (cp_height config) planes)"

definition capturing_exact :: "CaptureConfig \<Rightarrow> 'h V4L2CaptureDevice \<Rightarrow> bool" where
  "capturing_exact config d \<longleftrightarrow> capturing d \<and> (\<exists>e. vd_encoder d = Some e \<and> encoder_exact config e)"

text \<open>What V4L2 promises of a buffer it hands out: it is one of the granted ones and the bytes used
  lie in its mapping.\<close>

definition buffer_sane :: "v4l2_answers \<Rightarrow> CaptureConfig \<Rightarrow> v4l2_buffer \<Rightarrow> bool" where
  "buffer_sane a config b \<longleftrightarrow> (case va_reqbufs a (cp_device_buffer_count config) of
      None \<Rightarrow> True | Some n \<Rightarrow> vb_index b < n) \<and>
    va_querybuf a (vb_index b) = Some (length (vb_memory b)) \<and> vb_bytesused b \<le> length (vb_memory b)"

fun op_sane :: "v4l2_answers \<Rightarrow> CaptureConfig \<Rightarrow> capture_op \<Rightarrow> bool" where
  "op_sane a config (Grab dq ok now clock) = (case dq of None \<Rightarrow> True | Some b \<Rightarrow> buffer_sane a config b)"
| "op_sane a config (GrabRaw dq ok now) = (case dq of None \<Rightarrow> True | Some b \<Rightarrow> buffer_sane a config b)"
| "op_sane a config (EncodeRaw raw clock) = True"

lemma buffer_bytes_sane:
  assumes "buffer_sane a config b" "granted a config (vd_buffers d)" "capturing d"
  shows "\<exists>data. buffer_bytes d b = Some data"
proof -
  have i: "vb_index b < length (vd_buffers d)" using assms(1,2) by (simp add: buffer_sane_def granted_def)
  then have "va_querybuf a (vb_index b) = Some (snd (vd_buffers d ! vb_index b))"
    using assms(2) by (simp add: granted_def)
  then have "buffer_length b (vd_buffers d ! vb_index b) \<le> length (vb_memory b)"
    using assms(1) by (simp add: buffer_sane_def buffer_length_def)
  moreover have "fst (vd_buffers d ! vb_index b) \<noteq> None" using assms(3) i by (simp add: capturing_def)
  ultimately show ?thesis using i by (simp add: buffer_bytes_def load_block_def Let_def)
qed

lemma encoder_exactI:
  assumes "ve_backend e = Some (ready param handle planes pts)" "i_width param = cp_width config"
    and "i_height param = cp_height config" "planes_exact (cp_width config) (cp_height config) planes"
  shows "encoder_exact config e"
  unfolding encoder_exact_def using assms by blast

lemma encode_exact:
  assumes "encoder_exact config e" "even (cp_width config)" "0 \<le> cp_width config" "0 \<le> cp_height config"
  shows "\<exists>e' outcome. VideoEncoder_EncodeYuyv422Frame lib neon data e = Some (e', outcome) \<and> encoder_exact config e'"
proof -
  obtain param handle planes pts where e: "ve_backend e = Some (ready param handle planes pts)"
    "i_width param = cp_width config" "i_height param = cp_height config"
    "planes_exact (cp_width config) (cp_height config) planes" using assms(1) by (auto simp: encoder_exact_def)
  show ?thesis
  proof (cases "expected_length param \<le> length data")
    case True
    obtain handle' answer where answer: "x264_encoder_encode lib handle
        (i420_image (i_width param) (i_height param) data) pts = (handle', answer)" by fastforce
    note step = X264_EncodeYuyv422Frame_ready [OF _ _ _ _ True answer, of planes neon]
    have "X264_EncodeYuyv422Frame lib neon data (ready param handle planes pts) =
        Some (ready param handle' (i420_image (cp_width config) (cp_height config) data) (pts + 1), outcome_of answer)"
      using step e assms(2-4) by simp
    moreover have "encoder_exact config (e\<lparr>ve_backend := Some (ready param handle'
        (i420_image (cp_width config) (cp_height config) data) (pts + 1))\<rparr>)"
      by (rule encoder_exactI [OF _ e(2,3) i420_image_exact]) simp
    ultimately show ?thesis using e(1) by (simp add: VideoEncoder_EncodeYuyv422Frame_def)
  next
    case False
    then have "X264_EncodeYuyv422Frame lib neon data (ready param handle planes pts) =
        Some (ready param handle planes pts, TooShort)"
      by (simp add: X264_EncodeYuyv422Frame_def ready_def)
    moreover have "encoder_exact config (e\<lparr>ve_backend := Some (ready param handle planes pts)\<rparr>)"
      by (rule encoder_exactI [OF _ e(2-4)]) simp
    ultimately show ?thesis using e(1) by (simp add: VideoEncoder_EncodeYuyv422Frame_def)
  qed
qed

lemma encode_with_exact:
  assumes "capturing_exact config d" "even (cp_width config)" "0 \<le> cp_width config" "0 \<le> cp_height config"
  shows "\<exists>d' outcome. encode_with lib neon data d = Some (d', outcome) \<and> capturing_exact config d' \<and>
    vd_buffers d' = vd_buffers d \<and> vd_sequence d' = vd_sequence d"
proof -
  obtain e where e: "vd_encoder d = Some e" "encoder_exact config e"
    using assms(1) by (auto simp: capturing_exact_def)
  obtain e' outcome where e': "VideoEncoder_EncodeYuyv422Frame lib neon data e = Some (e', outcome)"
    "encoder_exact config e'" using encode_exact [OF e(2) assms(2-4)] by blast
  then have run: "encode_with lib neon data d = Some (d\<lparr>vd_encoder := Some e'\<rparr>, outcome)"
    using e(1) by (simp add: encode_with_def)
  then have "capturing (d\<lparr>vd_encoder := Some e'\<rparr>)"
    using encode_with_capturing assms(1) by (metis capturing_exact_def)
  then show ?thesis using run e'(2) by (simp add: capturing_exact_def)
qed

lemma capturing_exact_calls [simp]:
  "capturing_exact config d \<Longrightarrow> capturing_exact config ((call (Dequeued i) d)\<lparr>vd_logged_timestamp_source := x\<rparr>)"
  "capturing_exact config d \<Longrightarrow> capturing_exact config (queue_again b ok d)"
  "capturing_exact config d \<Longrightarrow> capturing_exact config (d\<lparr>vd_sequence := n\<rparr>)"
  by (simp_all add: capturing_exact_def capturing_def call_def queue_again_def)

lemma queue_again_simps [simp]:
  "vd_buffers (queue_again b ok d) = vd_buffers d" "vd_sequence (queue_again b ok d) = vd_sequence d"
  by (simp_all add: queue_again_def call_def)

text \<open>One call: it is defined, keeps the device capturing, and numbers the frame it produces.\<close>

definition numbered :: "'h V4L2CaptureDevice \<Rightarrow> 'h V4L2CaptureDevice \<Rightarrow> EncodedFramePtr \<Rightarrow> bool" where
  "numbered d d' frame = (case frame of
     None \<Rightarrow> vd_sequence d' = vd_sequence d
   | Some f \<Rightarrow> ef_sequence f = vd_sequence d \<and> vd_sequence d' = vd_sequence d + 1)"

lemma capture_step_exact:
  assumes d: "capturing_exact config d" "granted a config (vd_buffers d)" and op: "op_sane a config op"
    and size: "even (cp_width config)" "0 \<le> cp_width config" "0 \<le> cp_height config"
  shows "\<exists>d' frame. capture_step lib neon op d = Some (d', frame) \<and> capturing_exact config d' \<and>
    vd_buffers d' = vd_buffers d \<and> numbered d d' frame"
proof -
  have streaming: "vd_streaming d" using d(1) by (simp add: capturing_exact_def capturing_def)
  have bytes: "\<exists>data. buffer_bytes ((call (Dequeued (vb_index b)) d)\<lparr>vd_logged_timestamp_source := True\<rparr>) b = Some data"
    if "buffer_sane a config b" for b
    using buffer_bytes_sane [OF that, of "(call (Dequeued (vb_index b)) d)\<lparr>vd_logged_timestamp_source := True\<rparr>"]
      d capturing_exact_calls(1) [OF d(1)] by (simp add: capturing_exact_def call_def)
  show ?thesis
  proof (cases op)
    case (Grab dq ok now clock)
    show ?thesis
    proof (cases dq)
      case None
      then show ?thesis using d streaming Grab by (simp add: V4L2_CaptureFrame_def numbered_def)
    next
      case (Some b)
      let ?d = "(call (Dequeued (vb_index b)) d)\<lparr>vd_logged_timestamp_source := True\<rparr>"
      obtain data where data: "buffer_bytes ?d b = Some data" using bytes op Grab Some by auto
      obtain d1 outcome where d1: "encode_with lib neon data ?d = Some (d1, outcome)"
        "capturing_exact config d1" "vd_buffers d1 = vd_buffers d" "vd_sequence d1 = vd_sequence d"
        using encode_with_exact [OF _ size, of ?d lib neon data] capturing_exact_calls(1) [OF d(1)]
        by (fastforce simp: call_def)
      show ?thesis
        using d1 by (cases outcome; cases ok)
          (auto simp: Grab Some V4L2_CaptureFrame_def streaming data numbered_def captured_frame_def Let_def)
    qed
  next
    case (GrabRaw dq ok now)
    show ?thesis
    proof (cases dq)
      case None
      then show ?thesis using d streaming GrabRaw by (simp add: V4L2_CaptureRawFrame_def numbered_def)
    next
      case (Some b)
      then obtain data where "buffer_bytes ((call (Dequeued (vb_index b)) d)\<lparr>vd_logged_timestamp_source := True\<rparr>) b = Some data"
        using bytes op GrabRaw by auto
      then show ?thesis
        using d streaming capturing_exact_calls(2) [OF capturing_exact_calls(1) [OF d(1)]]
        by (simp add: GrabRaw Some V4L2_CaptureRawFrame_def numbered_def) (simp add: call_def)
    qed
  next
    case (EncodeRaw raw clock)
    show ?thesis
    proof (cases raw)
      case None
      then show ?thesis using d EncodeRaw by (simp add: V4L2_EncodeRawFrame_def numbered_def)
    next
      case (Some r)
      obtain d1 outcome where d1: "encode_with lib neon (take (rf_bytes_used r) (rf_data r)) d = Some (d1, outcome)"
        "capturing_exact config d1" "vd_buffers d1 = vd_buffers d" "vd_sequence d1 = vd_sequence d"
        using encode_with_exact [OF d(1) size] by blast
      then show ?thesis
        by (cases outcome) (auto simp: EncodeRaw Some V4L2_EncodeRawFrame_def numbered_def captured_frame_def)
    qed
  qed
qed

text \<open>A run of calls numbers its frames consecutively.\<close>

definition consecutive :: "u64 \<Rightarrow> EncodedFrame list \<Rightarrow> bool" where
  "consecutive n frames \<longleftrightarrow> map ef_sequence frames = map (\<lambda>i. n + of_nat i) [0..<length frames]"

lemma consecutive_Nil [simp]: "consecutive n []"
  by (simp add: consecutive_def)

lemma consecutive_Cons: "consecutive n (f # fs) \<longleftrightarrow> ef_sequence f = n \<and> consecutive (n + 1) fs"
proof -
  have "[0..<length (f # fs)] = 0 # map Suc [0..<length fs]"
    by (simp add: map_Suc_upt upt_conv_Cons del: upt_Suc)
  then show ?thesis by (simp add: consecutive_def comp_def add.assoc del: upt_Suc)
qed

lemma consecutive_append:
  "consecutive n (fs @ gs) \<longleftrightarrow> consecutive n fs \<and> consecutive (n + of_nat (length fs)) gs"
  by (induction fs arbitrary: n) (auto simp: consecutive_Cons ac_simps)

lemma capture_run_exact:
  assumes "even (cp_width config)" "0 \<le> cp_width config" "0 \<le> cp_height config"
    and "capturing_exact config d" "granted a config (vd_buffers d)"
    and "\<And>op. op \<in> set ops \<Longrightarrow> op_sane a config op"
  shows "\<exists>d' frames. capture_run lib neon ops d = Some (d', frames) \<and> capturing_exact config d' \<and>
    consecutive (vd_sequence d) frames \<and> vd_sequence d' = vd_sequence d + of_nat (length frames)"
  using assms(4-6)
proof (induction ops arbitrary: d)
  case Nil
  then show ?case by simp
next
  case (Cons op ops)
  obtain d1 frame where step: "capture_step lib neon op d = Some (d1, frame)" "capturing_exact config d1"
    "vd_buffers d1 = vd_buffers d" "numbered d d1 frame"
    using capture_step_exact [OF Cons.prems(1,2) _ assms(1-3), of op lib neon] Cons.prems(3) by auto
  obtain d2 frames where run: "capture_run lib neon ops d1 = Some (d2, frames)" "capturing_exact config d2"
    "consecutive (vd_sequence d1) frames" "vd_sequence d2 = vd_sequence d1 + of_nat (length frames)"
    using Cons.IH [OF step(2)] Cons.prems(2,3) step(3) by auto
  show ?case
  proof (cases frame)
    case None
    then show ?thesis using step(1,4) run by (simp add: numbered_def)
  next
    case (Some f)
    then have "ef_sequence f = vd_sequence d" "vd_sequence d1 = vd_sequence d + 1"
      using step(4) by (simp_all add: numbered_def)
    then show ?thesis using Some step(1) run by (simp add: consecutive_Cons)
  qed
qed

lemma capturing_exact_start:
  assumes start: "V4L2_Start lib a config codec d = Some (d', True)" and d': "capturing d'"
    and backend: "cd_backend codec = ''x264''"
    and alloc: "planes_exact (cp_width config) (cp_height config) (x264_picture_alloc lib (cp_width config) (cp_height config))"
    and profile: "\<And>name param. i_width (x264_param_apply_profile lib name param) = i_width param \<and>
      i_height (x264_param_apply_profile lib name param) = i_height param"
  shows "capturing_exact config d'"
proof -
  let ?w = "cp_width config" and ?h = "cp_height config"
  let ?param = "configured_param lib ?w ?h (cp_fps config) codec"
  obtain e where e: "vd_encoder d' = Some e"
    "VideoEncoder_Initialize lib ?w ?h (cp_fps config) codec VideoEncoder_new = Some (e, None)"
    using V4L2_Start_succeeds [OF start] by blast
  obtain b where b: "X264_Initialize lib ?w ?h (cp_fps config) codec X264Backend_new = Some (b, None)"
    "ve_backend e = Some b"
    using e(2) unfolding VideoEncoder_Initialize_x264 [OF encoder_wf_new backend]
    by (auto split: option.splits)
  have memory: "malloc_param lib" "malloc_picture lib"
    using b(1) by (auto simp: X264_Initialize_def X264_Shutdown_wf Let_def bind_eq_Some_conv split: if_splits)
  obtain handle where opens: "x264_encoder_open lib ?param = Some handle"
    using b(1) X264_Initialize_refused [OF backend_wf_new memory]
    by (cases "x264_encoder_open lib ?param") auto
  have "b = ready ?param handle (x264_picture_alloc lib ?w ?h) 0"
    using b(1) X264_Initialize_opens [OF backend_wf_new memory opens] by simp
  moreover have "i_width ?param = ?w" "i_height ?param = ?h" by (simp_all add: configured_param_def profile)
  ultimately have "encoder_exact config e" using b(2) alloc by (intro encoder_exactI) simp_all
  then show ?thesis using d' e(1) by (simp add: capturing_exact_def)
qed

lemma map_buffers_sequence: "vd_sequence (fst (map_buffers a is d)) = vd_sequence d"
  by (induction a "is" d rule: map_buffers.induct) (auto simp: call_def split: option.splits)

lemma queue_buffers_sequence: "vd_sequence (fst (queue_buffers a is d)) = vd_sequence d"
  by (induction a "is" d rule: queue_buffers.induct) (auto simp: call_def)

lemma prepare_capture_sequence:
  assumes "prepare_capture a config d = (d', ok)"
  shows "vd_sequence d' = vd_sequence d"
proof -
  have init: "vd_sequence (fst (InitializeMemoryMapping a config d)) = vd_sequence d"
    by (simp add: InitializeMemoryMapping_def map_buffers_sequence split: option.splits)
  obtain d1 ok1 where d1: "InitializeMemoryMapping a config d = (d1, ok1)" by fastforce
  have "vd_sequence (fst (QueueCaptureBuffers a d1)) = vd_sequence d1"
    by (simp add: QueueCaptureBuffers_def queue_buffers_sequence)
  then show ?thesis using assms init
    by (cases ok1) (auto simp: prepare_capture_def d1 split: if_splits)
qed

lemma V4L2_Start_sequence:
  assumes "V4L2_Start lib a config codec d = Some (d', ok)"
  shows "vd_sequence d' = vd_sequence d"
proof -
  obtain d1 ok1 where p: "prepare_capture a config d = (d1, ok1)" by fastforce
  then show ?thesis using assms prepare_capture_sequence [OF p]
    by (auto simp: V4L2_Start_def ReleaseMappedBuffers_def StartStreaming_def call_def bind_eq_Some_conv
        split: if_splits bool.splits)
qed

lemma V4L2_Start_defined:
  assumes "idle d" "vd_buffers d = []" "driver_queue (vd_calls d) = []"
    and "\<exists>r. VideoEncoder_Initialize lib (cp_width config) (cp_height config) (cp_fps config) codec VideoEncoder_new = Some r"
  shows "\<exists>d' ok. V4L2_Start lib a config codec d = Some (d', ok)"
proof -
  obtain d1 ok1 where p: "prepare_capture a config d = (d1, ok1)" by fastforce
  have enc: "vd_encoder d1 = None" using prepare_capture_idle [OF assms(1-3) p] by (simp add: idle_def)
  obtain e err where e: "VideoEncoder_Initialize lib (cp_width config) (cp_height config) (cp_fps config) codec
      VideoEncoder_new = Some (e, err)" using assms(4) by auto
  have opened: "vd_opened d" using assms(1) by (simp add: idle_def)
  have False if "V4L2_Start lib a config codec d = None"
    using that p e enc opened release_encoder_wf [of e] VideoEncoder_Initialize_wf [OF encoder_wf_new e]
    by (cases ok1; cases "va_streamon a") (auto simp: V4L2_Start_def StartStreaming_def split: if_splits)
  then show ?thesis by (metis not_None_eq surj_pair)
qed

text \<open>A session of a device that holds nothing, when starting the encoder is defined.\<close>

lemma camera_session_exact:
  assumes d: "holds_nothing d"
    and backend: "cd_backend codec = ''x264''"
    and size: "even (cp_width config)" "0 \<le> cp_width config" "0 \<le> cp_height config"
    and init: "\<exists>r. VideoEncoder_Initialize lib (cp_width config) (cp_height config) (cp_fps config) codec
      VideoEncoder_new = Some r"
    and alloc: "planes_exact (cp_width config) (cp_height config) (x264_picture_alloc lib (cp_width config) (cp_height config))"
    and profile: "\<And>name param. i_width (x264_param_apply_profile lib name param) = i_width param \<and>
      i_height (x264_param_apply_profile lib name param) = i_height param"
    and ops: "\<And>op. op \<in> set ops \<Longrightarrow> op_sane a config op"
  shows "\<exists>d' frames. camera_session lib neon config codec (a, ops) d = Some (d', frames) \<and> holds_nothing d' \<and>
    consecutive (vd_sequence d) frames \<and> vd_sequence d' = vd_sequence d + of_nat (length frames)"
proof -
  have close_seq: "vd_sequence (V4L2_Close d) = vd_sequence d" for d :: "'h V4L2CaptureDevice"
    by (simp add: V4L2_Close_def call_def Let_def)
  obtain d1 ok1 where o: "V4L2_Open a d = (d1, ok1)" by fastforce
  have o': "if ok1 then idle d1 \<and> vd_buffers d1 = [] \<and> driver_queue (vd_calls d1) = [] else holds_nothing d1"
    by (rule V4L2_Open_resources [OF d o])
  have seq1: "vd_sequence d1 = vd_sequence d"
    using o by (auto simp: V4L2_Open_def call_def split: option.splits if_splits)
  show ?thesis
  proof (cases ok1)
    case False
    then show ?thesis using o o' seq1 by (simp add: camera_session_def)
  next
    case True
    then have idle: "idle d1" "vd_buffers d1 = []" "driver_queue (vd_calls d1) = []" using o' by simp_all
    obtain d2 ok2 where s: "V4L2_Start lib a config codec d1 = Some (d2, ok2)"
      using V4L2_Start_defined [OF idle init] by blast
    note s' = V4L2_Start_resources [OF idle s]
    show ?thesis
    proof (cases ok2)
      case False
      then show ?thesis
        using o s s' True V4L2_Close_idle [of d2] V4L2_Start_sequence [OF s] seq1
        by (simp add: camera_session_def close_seq)
    next
      case ok2: True
      then have start: "V4L2_Start lib a config codec d1 = Some (d2, True)" using s by simp
      have d2: "capturing_exact config d2"
        by (rule capturing_exact_start [OF start _ backend alloc profile]) (use s' ok2 in simp)
      have granted: "granted a config (vd_buffers d2)" and seq2: "vd_sequence d2 = vd_sequence d1"
        using V4L2_Start_succeeds [OF start] by simp_all
      obtain d3 frames where run: "capture_run lib neon ops d2 = Some (d3, frames)" "capturing_exact config d3"
        "consecutive (vd_sequence d2) frames" "vd_sequence d3 = vd_sequence d2 + of_nat (length frames)"
        using capture_run_exact [OF size d2 granted ops] by blast
      obtain d4 where d4: "V4L2_Stop d3 = Some d4" "idle d4" "vd_buffers d4 = []"
        using V4L2_Stop_capturing [of d3] run(2) by (auto simp: capturing_exact_def)
      have "vd_sequence d4 = vd_sequence d3"
        using d4(1) by (auto simp: V4L2_Stop_def ReleaseMappedBuffers_def StopStreaming_def call_def
            bind_eq_Some_conv Let_def split: if_splits)
      then show ?thesis
        using o start True run d4 V4L2_Close_idle [OF d4(2,3)] seq1 seq2
        by (simp add: camera_session_def close_seq)
    qed
  qed
qed

lemma camera_sessions_exact:
  assumes backend: "cd_backend codec = ''x264''"
    and size: "even (cp_width config)" "0 \<le> cp_width config" "0 \<le> cp_height config"
    and init: "\<exists>r. VideoEncoder_Initialize lib (cp_width config) (cp_height config) (cp_fps config) codec
      VideoEncoder_new = Some r"
    and alloc: "planes_exact (cp_width config) (cp_height config) (x264_picture_alloc lib (cp_width config) (cp_height config))"
    and profile: "\<And>name param. i_width (x264_param_apply_profile lib name param) = i_width param \<and>
      i_height (x264_param_apply_profile lib name param) = i_height param"
    and d: "holds_nothing d"
    and ops: "\<And>a ops op. (a, ops) \<in> set sessions \<Longrightarrow> op \<in> set ops \<Longrightarrow> op_sane a config op"
  shows "\<exists>d' frames. camera_sessions lib neon config codec sessions d = Some (d', frames) \<and> holds_nothing d' \<and>
    consecutive (vd_sequence d) frames"
  using d ops
proof (induction sessions arbitrary: d)
  case Nil
  then show ?case by simp
next
  case (Cons s sessions)
  obtain a ops where s: "s = (a, ops)" by fastforce
  obtain d1 frames where 1: "camera_session lib neon config codec (a, ops) d = Some (d1, frames)" "holds_nothing d1"
    "consecutive (vd_sequence d) frames" "vd_sequence d1 = vd_sequence d + of_nat (length frames)"
    using camera_session_exact [OF Cons.prems(1) backend size init alloc profile, of ops a neon]
      Cons.prems(2) s by (metis list.set_intros(1))
  obtain d2 more where 2: "camera_sessions lib neon config codec sessions d1 = Some (d2, more)" "holds_nothing d2"
    "consecutive (vd_sequence d1) more"
    using Cons.IH [OF 1(2)] Cons.prems(2) by (metis list.set_intros(2))
  then show ?case using 1 s by (simp add: consecutive_append)
qed

subsection \<open>Properties\<close>


definition camera_config :: CaptureConfig where
  "camera_config = CaptureConfig_default\<lparr>cp_width := 2, cp_height := 1\<rparr>"

definition camera_answers :: v4l2_answers where
  "camera_answers = \<lparr>va_stat = Some True, va_open = Some 7, va_querycap = Some (True, True),
     va_s_fmt = Some (2, 1, ''YUYV''), va_g_parm = Some True, va_s_parm = True, va_reqbufs = (\<lambda>_. Some 2),
     va_querybuf = (\<lambda>_. Some 4), va_mmap = (\<lambda>i. Some (4096 * (i + 1))), va_qbuf = (\<lambda>_. True), va_streamon = True\<rparr>"

definition camera_buffer :: v4l2_buffer where
  "camera_buffer = \<lparr>vb_index = 1, vb_bytesused = 4, vb_monotonic = True, vb_tv_sec = 2, vb_tv_usec = 5,
     vb_memory = [9, 128, 8, 127]\<rparr>"



definition running_camera :: "nat V4L2CaptureDevice" where
  "running_camera = \<lparr>vd_fd = 7, vd_opened = True, vd_streaming = True, vd_logged_timestamp_source = False,
     vd_buffers = [(Some 4096, 4), (Some 8192, 4)], vd_sequence = 0, vd_encoder = None, vd_calls = []\<rparr>"


text \<open>The driver may change the format it is asked for; starting does not depend on the format it
  settled on. The encoder keeps reading frames of the configured size and layout.\<close>

lemma map_buffers_format: "map_buffers (a\<lparr>va_s_fmt := f\<rparr>) is d = map_buffers a is d"
  by (induction a "is" d rule: map_buffers.induct) (auto split: option.splits)

lemma queue_buffers_format: "queue_buffers (a\<lparr>va_s_fmt := f\<rparr>) is d = queue_buffers a is d"
  by (induction a "is" d rule: queue_buffers.induct) auto

lemma InitializeMemoryMapping_format:
  "InitializeMemoryMapping (a\<lparr>va_s_fmt := f\<rparr>) config d = InitializeMemoryMapping a config d"
  by (simp add: InitializeMemoryMapping_def map_buffers_format split: option.split)

lemma prepare_capture_format:
  "prepare_capture (a\<lparr>va_s_fmt := Some f\<rparr>) config d = prepare_capture (a\<lparr>va_s_fmt := Some g\<rparr>) config d"
proof -
  have same: "QueueCaptureBuffers (a\<lparr>va_s_fmt := f\<rparr>) = QueueCaptureBuffers a"
    "QueryCapabilities (a\<lparr>va_s_fmt := f\<rparr>) = QueryCapabilities a" "ConfigureFormat (a\<lparr>va_s_fmt := Some x\<rparr>)"
    "ConfigureFrameRate (a\<lparr>va_s_fmt := f\<rparr>) = ConfigureFrameRate a" for f x
    by (simp_all add: fun_eq_iff QueueCaptureBuffers_def queue_buffers_format QueryCapabilities_def
        ConfigureFormat_def ConfigureFrameRate_def)
  show ?thesis unfolding prepare_capture_def InitializeMemoryMapping_format same by (simp add: same)
qed

lemma StartStreaming_format: "StartStreaming (a\<lparr>va_s_fmt := f\<rparr>) = StartStreaming a"
  by (simp add: fun_eq_iff StartStreaming_def)

lemma negotiated_format_ignored:
  "V4L2_Start lib (a\<lparr>va_s_fmt := Some f\<rparr>) config codec d = V4L2_Start lib (a\<lparr>va_s_fmt := Some g\<rparr>) config codec d"
  unfolding V4L2_Start_def prepare_capture_format [where f = f and g = g] StartStreaming_format ..

end
