(* ===== verification/Capture_Facade.thy ===== *)
theory Capture_Facade
  imports Null_Capture V4l2_Capture
begin

section \<open>The capture facade\<close>

text \<open>
  \<^verbatim>\<open>sserver/src/modules/capture/video/Capture.h\<close> and \<^verbatim>\<open>Capture.cpp\<close>: the choice of the device by
  configuration and its life cycle. \<^verbatim>\<open>ICaptureDevice\<close>, the interface of the devices, is the datatype
  \<open>capture_device\<close> of its two implementations; what a client may rely on is the locale
  \<open>device_contract\<close>, which both implementations and their sum satisfy.
\<close>

subsection \<open>The devices behind their interface\<close>

datatype 'h capture_device = NullDevice "'h NullCaptureDevice" | V4L2Device "'h V4L2CaptureDevice"

text \<open>What the outside answers to one call: the kernel's answer to a dequeue and to a requeue, and
  the clock.\<close>

record tick =
  tk_dq :: "v4l2_buffer option"
  tk_qbuf :: bool
  tk_now :: u64
  tk_clock :: "u64 \<times> u64"

definition device_Open :: "v4l2_answers \<Rightarrow> 'h capture_device \<Rightarrow> 'h capture_device \<times> bool" where
  "device_Open a dev = (case dev of
       NullDevice d \<Rightarrow> (NullDevice (Null_Open d), True)
     | V4L2Device d \<Rightarrow> (case V4L2_Open a d of (d, ok) \<Rightarrow> (V4L2Device d, ok)))"

definition device_Start :: "'h x264_library \<Rightarrow> v4l2_answers \<Rightarrow> CaptureConfig \<Rightarrow> CodecConfig \<Rightarrow>
    'h capture_device \<Rightarrow> ('h capture_device \<times> bool) option" where
  "device_Start lib a config codec dev = (case dev of
       NullDevice d \<Rightarrow> map_option (\<lambda>(d, ok). (NullDevice d, ok)) (Null_Start lib config codec d)
     | V4L2Device d \<Rightarrow> map_option (\<lambda>(d, ok). (V4L2Device d, ok)) (V4L2_Start lib a config codec d))"

definition device_CaptureFrame :: "'h x264_library \<Rightarrow> bool \<Rightarrow> CaptureConfig \<Rightarrow> tick \<Rightarrow>
    'h capture_device \<Rightarrow> ('h capture_device \<times> EncodedFramePtr) option" where
  "device_CaptureFrame lib neon config t dev = (case dev of
       NullDevice d \<Rightarrow> map_option (\<lambda>(d, f). (NullDevice d, f))
         (Null_CaptureFrame lib neon config (tk_now t, fst (tk_clock t), snd (tk_clock t)) d)
     | V4L2Device d \<Rightarrow> map_option (\<lambda>(d, f). (V4L2Device d, f))
         (V4L2_CaptureFrame lib neon (tk_dq t) (tk_qbuf t) (tk_now t) (tk_clock t) d))"

text \<open>The raw path, which the default implementation of the interface refuses.\<close>

definition device_SupportsRawCapture :: "'h capture_device \<Rightarrow> bool" where
  "device_SupportsRawCapture dev = (case dev of NullDevice d \<Rightarrow> False | V4L2Device d \<Rightarrow> True)"

definition device_CaptureRawFrame :: "tick \<Rightarrow> 'h capture_device \<Rightarrow>
    ('h capture_device \<times> RawCaptureFrame option) option" where
  "device_CaptureRawFrame t dev = (case dev of
       NullDevice d \<Rightarrow> Some (NullDevice d, None)
     | V4L2Device d \<Rightarrow> map_option (\<lambda>(d, raw). (V4L2Device d, raw))
         (V4L2_CaptureRawFrame (tk_dq t) (tk_qbuf t) (tk_now t) d))"

definition device_EncodeRawFrame :: "'h x264_library \<Rightarrow> bool \<Rightarrow> tick \<Rightarrow> RawCaptureFrame option \<Rightarrow>
    'h capture_device \<Rightarrow> ('h capture_device \<times> EncodedFramePtr) option" where
  "device_EncodeRawFrame lib neon t raw dev = (case dev of
       NullDevice d \<Rightarrow> Some (NullDevice d, None)
     | V4L2Device d \<Rightarrow> map_option (\<lambda>(d, f). (V4L2Device d, f)) (V4L2_EncodeRawFrame lib neon raw (tk_clock t) d))"

definition device_Stop :: "'h capture_device \<Rightarrow> 'h capture_device option" where
  "device_Stop dev = (case dev of
       NullDevice d \<Rightarrow> map_option NullDevice (Null_Stop d)
     | V4L2Device d \<Rightarrow> map_option V4L2Device (V4L2_Stop d))"

definition device_Close :: "'h capture_device \<Rightarrow> 'h capture_device" where
  "device_Close dev = (case dev of
       NullDevice d \<Rightarrow> NullDevice (Null_Close d) | V4L2Device d \<Rightarrow> V4L2Device (V4L2_Close d))"

definition device_Describe :: "CaptureConfig \<Rightarrow> 'h capture_device \<Rightarrow> string" where
  "device_Describe config dev = (case dev of
       NullDevice d \<Rightarrow> Null_Describe | V4L2Device d \<Rightarrow> V4L2_Describe config)"

subsection \<open>The facade\<close>

definition CaptureBackendFactory_Create :: "CaptureBackend \<times> string \<Rightarrow> 'h capture_device option" where
  "CaptureBackendFactory_Create selection = (case fst selection of
       kNull \<Rightarrow> Some (NullDevice NullCaptureDevice_new)
     | kV4L2 \<Rightarrow> Some (V4L2Device V4L2CaptureDevice_new)
     | kAuto_capture \<Rightarrow> None)"

record 'h Capture =
  ca_config :: CaptureConfig
  ca_codec :: CodecConfig
  ca_requested :: "CaptureBackend \<times> string"
  ca_active :: "CaptureBackend \<times> string"
  ca_device :: "'h capture_device option"
  ca_state :: ModuleState

definition Capture_new :: "'h Capture" where
  "Capture_new = \<lparr>ca_config = CaptureConfig_default, ca_codec = CodecConfig_default,
     ca_requested = (kAuto_capture, ''auto''), ca_active = (kNull, ''null''), ca_device = None, ca_state = kCreated\<rparr>"

text \<open>Stopping a device: its \<^verbatim>\<open>Stop\<close> and its \<^verbatim>\<open>Close\<close>. Starting it: a start that fails closes it.\<close>

definition stop_device :: "('d \<Rightarrow> 'd option) \<Rightarrow> ('d \<Rightarrow> 'd) \<Rightarrow> 'd \<Rightarrow> 'd option" where
  "stop_device dstop dclose d = map_option dclose (dstop d)"

datatype start_outcome = Started | OpenFailed | StartFailed

definition start_device :: "('d \<Rightarrow> 'd \<times> bool) \<Rightarrow> ('d \<Rightarrow> ('d \<times> bool) option) \<Rightarrow> ('d \<Rightarrow> 'd) \<Rightarrow> 'd \<Rightarrow>
    ('d \<times> start_outcome) option" where
  "start_device dopen dstart dclose d = (case dopen d of
       (d, False) \<Rightarrow> Some (d, OpenFailed)
     | (d, True) \<Rightarrow> do {
         (d, ok) \<leftarrow> dstart d;
         if \<not> ok then Some (dclose d, StartFailed) else Some (d, Started) })"

definition Capture_shutdown :: "'h Capture \<Rightarrow> 'h Capture option" where
  "Capture_shutdown c =
     (let reset = c\<lparr>ca_device := None, ca_requested := (kAuto_capture, ''auto''),
                    ca_active := (kNull, ''null''), ca_state := kShutdown\<rparr>
      in case ca_device c of
           None \<Rightarrow> Some reset
         | Some dev \<Rightarrow> do { _ \<leftarrow> stop_device device_Stop device_Close dev; Some reset })"

definition Capture_initialize :: "AppConfig \<Rightarrow> 'h Capture \<Rightarrow> ('h Capture \<times> bool) option" where
  "Capture_initialize context c = do {
     c \<leftarrow> Capture_shutdown c;
     case ResolveCaptureBackendSelection (ac_capture context) of
       Inl _ \<Rightarrow> Some (c\<lparr>ca_state := kFailed\<rparr>, False)
     | Inr selection \<Rightarrow>
         let c = c\<lparr>ca_config := ac_capture context, ca_codec := ac_codec context,
                   ca_requested := selection, ca_device := CaptureBackendFactory_Create selection\<rparr> in
         if ca_device c = None then Some (c\<lparr>ca_state := kFailed\<rparr>, False)
         else Some (c\<lparr>ca_active := selection, ca_state := kInitialized\<rparr>, True) }"

definition Capture_start :: "'h x264_library \<Rightarrow> v4l2_answers \<Rightarrow> 'h Capture \<Rightarrow> ('h Capture \<times> string option) option" where
  "Capture_start lib a c =
     (if \<not> cp_enabled (ca_config c) then Some (c\<lparr>ca_state := kRunning\<rparr>, None)
      else (case ca_device c of
          None \<Rightarrow> Some (c\<lparr>ca_state := kFailed\<rparr>, Some ''capture is not initialized'')
        | Some dev \<Rightarrow> do {
            (dev, outcome) \<leftarrow> start_device (device_Open a) (device_Start lib a (ca_config c) (ca_codec c)) device_Close dev;
            let c = c\<lparr>ca_device := Some dev\<rparr>;
            case outcome of
              OpenFailed \<Rightarrow> Some (c\<lparr>ca_state := kFailed\<rparr>, Some ''failed to open capture device'')
            | StartFailed \<Rightarrow> Some (c\<lparr>ca_state := kFailed\<rparr>, Some ''failed to start capture device'')
            | Started \<Rightarrow> Some (c\<lparr>ca_state := kRunning\<rparr>, None) }))"

definition Capture_stop :: "'h Capture \<Rightarrow> 'h Capture option" where
  "Capture_stop c = (case ca_device c of
       None \<Rightarrow> Some (c\<lparr>ca_state := kStopped\<rparr>)
     | Some dev \<Rightarrow> do {
         dev \<leftarrow> stop_device device_Stop device_Close dev;
         Some (c\<lparr>ca_device := Some dev, ca_state := kStopped\<rparr>) })"

definition Capture_CaptureFrame :: "'h x264_library \<Rightarrow> bool \<Rightarrow> tick \<Rightarrow> 'h Capture \<Rightarrow>
    ('h Capture \<times> EncodedFramePtr) option" where
  "Capture_CaptureFrame lib neon t c = (case ca_device c of
       None \<Rightarrow> Some (c, None)
     | Some dev \<Rightarrow> do {
         (dev, f) \<leftarrow> device_CaptureFrame lib neon (ca_config c) t dev;
         Some (c\<lparr>ca_device := Some dev\<rparr>, f) })"

definition Capture_SupportsRawCapture :: "'h Capture \<Rightarrow> bool" where
  "Capture_SupportsRawCapture c = (case ca_device c of None \<Rightarrow> False | Some dev \<Rightarrow> device_SupportsRawCapture dev)"

definition Capture_CaptureRawFrame :: "tick \<Rightarrow> 'h Capture \<Rightarrow> ('h Capture \<times> RawCaptureFrame option) option" where
  "Capture_CaptureRawFrame t c = (case ca_device c of
       None \<Rightarrow> Some (c, None)
     | Some dev \<Rightarrow> do {
         (dev, raw) \<leftarrow> device_CaptureRawFrame t dev;
         Some (c\<lparr>ca_device := Some dev\<rparr>, raw) })"

definition Capture_EncodeRawFrame :: "'h x264_library \<Rightarrow> bool \<Rightarrow> tick \<Rightarrow> RawCaptureFrame option \<Rightarrow> 'h Capture \<Rightarrow>
    ('h Capture \<times> EncodedFramePtr) option" where
  "Capture_EncodeRawFrame lib neon t raw c = (case ca_device c of
       None \<Rightarrow> Some (c, None)
     | Some dev \<Rightarrow> do {
         (dev, f) \<leftarrow> device_EncodeRawFrame lib neon t raw dev;
         Some (c\<lparr>ca_device := Some dev\<rparr>, f) })"

definition Capture_Describe :: "'h Capture \<Rightarrow> string" where
  "Capture_Describe c = (case ca_device c of
       None \<Rightarrow> ''capture(uninitialized)'' | Some dev \<Rightarrow> device_Describe (ca_config c) dev)"

subsection \<open>What a client may rely on\<close>

text \<open>The contract of a capture device: a device that was closed can be started, after which it runs, or
  the start fails and closing leaves it closed; capturing keeps it running; stopping and closing is
  always defined and ends closed.\<close>

locale device_contract =
  fixes dopen :: "'d \<Rightarrow> 'd \<times> bool"
    and dstart :: "'d \<Rightarrow> ('d \<times> bool) option"
    and dcapture :: "'c \<Rightarrow> 'd \<Rightarrow> ('d \<times> 'f) option"
    and dstop :: "'d \<Rightarrow> 'd option"
    and dclose :: "'d \<Rightarrow> 'd"
    and closed running :: "'d \<Rightarrow> bool"
  assumes open_fails: "closed d \<Longrightarrow> dopen d = (d1, False) \<Longrightarrow> closed d1"
    and starts: "closed d \<Longrightarrow> dopen d = (d1, True) \<Longrightarrow> dstart d1 = Some (d2, ok) \<Longrightarrow>
      if ok then running d2 else closed (dclose d2)"
    and captures: "running d \<Longrightarrow> dcapture c d = Some (d1, f) \<Longrightarrow> running d1"
    and stops: "closed d \<or> running d \<Longrightarrow> \<exists>d1. dstop d = Some d1 \<and> closed (dclose d1)"
begin

lemma start_device_contract:
  assumes "closed d" "start_device dopen dstart dclose d = Some (d', outcome)"
  shows "if outcome = Started then running d' else closed d'"
proof -
  obtain d1 opened where d1: "dopen d = (d1, opened)" by fastforce
  show ?thesis
  proof (cases opened)
    case False
    then show ?thesis using assms d1 open_fails by (auto simp: start_device_def)
  next
    case True
    then obtain d2 ok where d2: "dstart d1 = Some (d2, ok)"
      using assms(2) d1 by (cases "dstart d1") (auto simp: start_device_def)
    then show ?thesis using starts [OF assms(1), of d1 d2 ok] d1 True assms(2)
      by (cases ok) (auto simp: start_device_def)
  qed
qed

lemma stop_device_contract:
  "closed d \<or> running d \<Longrightarrow> \<exists>d'. stop_device dstop dclose d = Some d' \<and> closed d'"
  using stops by (fastforce simp: stop_device_def)

end

text \<open>Both devices keep it.\<close>

lemma V4L2_start_keeps:
  assumes "holds_nothing d" "V4L2_Open a d = (d1, True)" "V4L2_Start lib a config codec d1 = Some (d2, ok)"
  shows "if ok then capturing d2 else holds_nothing (V4L2_Close d2)"
proof -
  have "idle d1" "vd_buffers d1 = []" "driver_queue (vd_calls d1) = []"
    using V4L2_Open_resources [OF assms(1,2)] by simp_all
  from V4L2_Start_resources [OF this assms(3)] show ?thesis
    using V4L2_Close_idle [of d2] by (auto split: if_splits)
qed

lemma capturing_calls [simp]:
  "capturing d \<Longrightarrow> capturing ((call (Dequeued i) d)\<lparr>vd_logged_timestamp_source := x\<rparr>)"
  "capturing d \<Longrightarrow> capturing (queue_again b ok d)"
  "capturing d \<Longrightarrow> capturing (d\<lparr>vd_sequence := n\<rparr>)"
  by (simp_all add: capturing_def call_def queue_again_def)

lemma V4L2_capture_keeps:
  assumes "capturing d" "V4L2_CaptureFrame lib neon dq ok now clock d = Some (d1, f)"
  shows "capturing d1"
proof -
  have streaming: "vd_streaming d" using assms(1) by (simp add: capturing_def)
  show ?thesis
  proof (cases dq)
    case None
    then show ?thesis using assms streaming by (simp add: V4L2_CaptureFrame_def)
  next
    case (Some b)
    then obtain data d2 outcome where d2: "encode_with lib neon data
        ((call (Dequeued (vb_index b)) d)\<lparr>vd_logged_timestamp_source := True\<rparr>) = Some (d2, outcome)"
      and tail: "(let d = queue_again b ok d2 in case outcome of
          Encoded payload key \<Rightarrow> if \<not> ok then Some (d, None) else Some (d\<lparr>vd_sequence := vd_sequence d + 1\<rparr>,
            Some (captured_frame (vd_sequence d) (buffer_timestamp now b) clock payload key))
        | _ \<Rightarrow> Some (d, None)) = Some (d1, f)"
      using assms(2) streaming unfolding V4L2_CaptureFrame_def
      by (auto simp only: Let_def bind_eq_Some_conv option.case not_True_eq_False if_False prod.case simp_thms)
    have "capturing d2" using encode_with_capturing [OF capturing_calls(1) [OF assms(1)] d2] by blast
    then have "capturing (queue_again b ok d2)" "capturing ((queue_again b ok d2)\<lparr>vd_sequence := n\<rparr>)" for n
      by simp_all
    then show ?thesis using tail by (cases outcome; cases ok) auto
  qed
qed

definition null_closed :: "'h NullCaptureDevice \<Rightarrow> bool" where
  "null_closed d \<longleftrightarrow> \<not> nc_opened d \<and> \<not> nc_streaming d \<and> nc_encoder d = None"

definition null_running :: "'h NullCaptureDevice \<Rightarrow> bool" where
  "null_running d \<longleftrightarrow> nc_opened d \<and> nc_streaming d \<and> (\<forall>e. nc_encoder d = Some e \<longrightarrow> encoder_wf e)"

lemma VideoEncoder_EncodeYuyv422Frame_wf:
  assumes "encoder_wf e" "VideoEncoder_EncodeYuyv422Frame lib neon data e = Some (e', outcome)"
  shows "encoder_wf e'"
  using assms X264_EncodeYuyv422Frame_wf [of _ lib neon data]
  by (auto simp: VideoEncoder_EncodeYuyv422Frame_def encoder_wf_def bind_eq_Some_conv split: option.splits)

lemma Null_start_keeps:
  assumes "null_closed d" "Null_Start lib config codec (Null_Open d) = Some (d2, ok)"
  shows "if ok then null_running d2 else null_closed (Null_Close d2)"
proof (cases "cp_null_payload_mode config = ''h264_test_pattern''")
  case False
  then show ?thesis using assms
    by (auto simp: Null_Start_def Null_Open_def null_closed_def null_running_def Null_Close_def)
next
  case True
  then obtain e err where e: "VideoEncoder_Initialize lib (cp_width config) (cp_height config) (cp_fps config)
      codec VideoEncoder_new = Some (e, err)"
    using assms by (auto simp: Null_Start_def Null_Open_def bind_eq_Some_conv)
  then show ?thesis using assms True VideoEncoder_Initialize_wf [OF encoder_wf_new e]
    by (cases err) (auto simp: Null_Start_def Null_Open_def null_closed_def null_running_def Null_Close_def)
qed

lemma Null_capture_keeps:
  assumes "null_running d" "Null_CaptureFrame lib neon config clock d = Some (d1, f)"
  shows "null_running d1"
proof -
  obtain t0 t1 t2 where clock: "clock = (t0, t1, t2)" by (cases clock) auto
  show ?thesis
  proof (cases "cp_null_payload_mode config = ''h264_test_pattern'' \<and> nc_encoder d \<noteq> None")
    case False
    then show ?thesis using assms
      by (auto simp: Null_CaptureFrame_def clock null_running_def Let_def split: option.splits bool.split_asm)
  next
    case True
    then obtain e where e: "nc_encoder d = Some e" "encoder_wf e" using assms(1) by (auto simp: null_running_def)
    have streaming: "nc_streaming d" using assms(1) by (simp add: null_running_def)
    obtain yuyv where yuyv: "FillSyntheticYuyvFrame (nat (cp_width config)) (nat (cp_height config))
        (nc_sequence d + 1) (nc_yuyv_frame d) = Some yuyv"
      using assms(2) True e(1) streaming
      by (cases "FillSyntheticYuyvFrame (nat (cp_width config)) (nat (cp_height config)) (nc_sequence d + 1) (nc_yuyv_frame d)")
        (auto simp: Null_CaptureFrame_def clock Let_def)
    obtain e' outcome where e': "VideoEncoder_EncodeYuyv422Frame lib neon yuyv e = Some (e', outcome)"
      using assms(2) True e(1) streaming yuyv
      by (cases "VideoEncoder_EncodeYuyv422Frame lib neon yuyv e") (auto simp: Null_CaptureFrame_def clock Let_def)
    have d1: "d1 = d\<lparr>nc_sequence := nc_sequence d + 1, nc_yuyv_frame := yuyv, nc_encoder := Some e'\<rparr>"
      using assms(2) True e(1) streaming yuyv e'
      by (cases outcome) (auto simp: Null_CaptureFrame_def clock Let_def)
    have "encoder_wf e'" by (rule VideoEncoder_EncodeYuyv422Frame_wf [OF e(2) e'])
    then show ?thesis using assms(1) by (simp add: null_running_def d1)
  qed
qed

definition device_closed :: "'h capture_device \<Rightarrow> bool" where
  "device_closed dev = (case dev of NullDevice d \<Rightarrow> null_closed d | V4L2Device d \<Rightarrow> holds_nothing d)"

definition device_running :: "'h capture_device \<Rightarrow> bool" where
  "device_running dev = (case dev of NullDevice d \<Rightarrow> null_running d | V4L2Device d \<Rightarrow> capturing d)"

interpretation null_device: device_contract "\<lambda>d. (Null_Open d, True)" "Null_Start lib config codec"
  "Null_CaptureFrame lib neon config" Null_Stop Null_Close null_closed null_running for lib neon config codec
proof unfold_locales
  fix d :: "'a NullCaptureDevice"
  assume "null_closed d \<or> null_running d"
  then show "\<exists>d1. Null_Stop d = Some d1 \<and> null_closed (Null_Close d1)"
    by (cases "nc_encoder d")
      (auto simp: Null_Stop_def null_closed_def null_running_def Null_Close_def release_encoder_wf)
qed (auto dest: Null_start_keeps Null_capture_keeps)

interpretation v4l2_device: device_contract "V4L2_Open a" "V4L2_Start lib a config codec"
  "\<lambda>t. V4L2_CaptureFrame lib neon (tk_dq t) (tk_qbuf t) (tk_now t) (tk_clock t)" V4L2_Stop V4L2_Close
  holds_nothing capturing for a lib neon config codec
proof unfold_locales
  fix d d1 :: "'a V4L2CaptureDevice"
  assume "holds_nothing d" "V4L2_Open a d = (d1, False)"
  then show "holds_nothing d1" using V4L2_Open_resources by fastforce
next
  fix d :: "'a V4L2CaptureDevice"
  assume "holds_nothing d \<or> capturing d"
  then show "\<exists>d1. V4L2_Stop d = Some d1 \<and> holds_nothing (V4L2_Close d1)"
  proof
    assume "holds_nothing d"
    then show ?thesis by (simp add: V4L2_Stop_def holds_nothing_def V4L2_Close_def)
  next
    assume "capturing d"
    then show ?thesis using V4L2_Stop_capturing V4L2_Close_idle by blast
  qed
qed (auto dest: V4L2_start_keeps V4L2_capture_keeps)

interpretation device: device_contract "device_Open a" "device_Start lib a config codec"
  "device_CaptureFrame lib neon config" device_Stop device_Close device_closed device_running
  for a lib neon config codec
proof unfold_locales
  fix d d1 :: "'a capture_device"
  assume "device_closed d" "device_Open a d = (d1, False)"
  then show "device_closed d1"
    using v4l2_device.open_fails [of _ a]
    by (cases d) (auto simp: device_closed_def device_Open_def split: prod.splits)
next
  fix d d1 d2 :: "'a capture_device" and ok
  assume "device_closed d" "device_Open a d = (d1, True)" "device_Start lib a config codec d1 = Some (d2, ok)"
  then show "if ok then device_running d2 else device_closed (device_Close d2)"
    using v4l2_device.starts [of _ a _ lib config codec] null_device.starts [of _ _ lib config codec]
    by (cases d) (fastforce simp: device_closed_def device_running_def device_Open_def device_Start_def
        device_Close_def split: prod.splits if_splits)+
next
  fix d d1 :: "'a capture_device" and t f
  assume "device_running d" "device_CaptureFrame lib neon config t d = Some (d1, f)"
  then show "device_running d1"
    using v4l2_device.captures [of _ lib neon t] null_device.captures [of _ lib neon config]
    by (cases d) (fastforce simp: device_running_def device_CaptureFrame_def)+
next
  fix d :: "'a capture_device"
  assume "device_closed d \<or> device_running d"
  then show "\<exists>d1. device_Stop d = Some d1 \<and> device_closed (device_Close d1)"
    using v4l2_device.stops null_device.stops
    by (cases d) (fastforce simp: device_closed_def device_running_def device_Stop_def device_Close_def)+
qed

subsection \<open>The life cycle of the facade\<close>

text \<open>The facade's device runs exactly while the facade does (when capturing is enabled at all) and is
  closed otherwise.\<close>

definition capture_wf :: "'h Capture \<Rightarrow> bool" where
  "capture_wf c \<longleftrightarrow> (\<forall>dev. ca_device c = Some dev \<longrightarrow>
     (if ca_state c = kRunning \<and> cp_enabled (ca_config c) then device_running dev else device_closed dev))"

lemma capture_wf_new [simp]: "capture_wf Capture_new"
  by (simp add: capture_wf_def Capture_new_def)

lemma capture_wf_stops:
  assumes "capture_wf c" "ca_device c = Some dev"
  shows "\<exists>dev'. stop_device device_Stop device_Close dev = Some dev' \<and> device_closed dev'"
  using assms device.stop_device_contract by (auto simp: capture_wf_def split: if_splits)

lemma Capture_stop_wf:
  assumes "capture_wf c"
  shows "\<exists>c'. Capture_stop c = Some c' \<and> capture_wf c' \<and> ca_state c' = kStopped"
proof (cases "ca_device c")
  case None
  then show ?thesis by (simp add: Capture_stop_def capture_wf_def)
next
  case (Some dev)
  then show ?thesis using capture_wf_stops [OF assms Some] by (auto simp: Capture_stop_def capture_wf_def)
qed

lemma Capture_shutdown_wf:
  assumes "capture_wf c"
  shows "\<exists>c'. Capture_shutdown c = Some c' \<and> capture_wf c' \<and> ca_state c' = kShutdown \<and> ca_device c' = None"
proof (cases "ca_device c")
  case None
  then show ?thesis by (simp add: Capture_shutdown_def capture_wf_def Let_def)
next
  case (Some dev)
  then show ?thesis using capture_wf_stops [OF assms Some]
    by (auto simp: Capture_shutdown_def capture_wf_def Let_def)
qed

lemma device_closed_new:
  "CaptureBackendFactory_Create selection = Some dev \<Longrightarrow> device_closed dev"
  by (auto simp: CaptureBackendFactory_Create_def device_closed_def null_closed_def holds_nothing_def
      NullCaptureDevice_new_def V4L2CaptureDevice_new_def split: CaptureBackend.splits)

lemma Capture_initialize_wf:
  assumes "capture_wf c"
  shows "\<exists>c' ok. Capture_initialize context c = Some (c', ok) \<and> capture_wf c' \<and>
    ca_state c' = (if ok then kInitialized else kFailed) \<and> (ok \<longrightarrow> ca_device c' \<noteq> None)"
proof -
  obtain c1 where c1: "Capture_shutdown c = Some c1" "ca_device c1 = None"
    using Capture_shutdown_wf [OF assms] by blast
  show ?thesis
  proof (cases "ResolveCaptureBackendSelection (ac_capture context)")
    case (Inl message)
    then show ?thesis using c1 by (auto simp: Capture_initialize_def capture_wf_def)
  next
    case (Inr selection)
    show ?thesis
    proof (cases "CaptureBackendFactory_Create selection :: 'a capture_device option")
      case None
      then show ?thesis using c1 Inr by (auto simp: Capture_initialize_def capture_wf_def Let_def)
    next
      case (Some dev)
      then show ?thesis using c1 Inr device_closed_new [OF Some]
        by (auto simp: Capture_initialize_def capture_wf_def Let_def)
    qed
  qed
qed

lemma Capture_start_wf:
  assumes "capture_wf c" "ca_state c \<noteq> kRunning" "Capture_start lib a c = Some (c', err)"
  shows "capture_wf c' \<and> ca_state c' = (if err = None then kRunning else kFailed)"
proof (cases "cp_enabled (ca_config c)")
  case False
  then show ?thesis using assms by (auto simp: Capture_start_def capture_wf_def)
next
  case enabled: True
  show ?thesis
  proof (cases "ca_device c")
    case None
    then show ?thesis using assms(3) enabled by (auto simp: Capture_start_def capture_wf_def)
  next
    case (Some dev)
    have closed: "device_closed dev" using assms(1,2) Some by (simp add: capture_wf_def)
    obtain dev' outcome where d: "start_device (device_Open a) (device_Start lib a (ca_config c) (ca_codec c))
        device_Close dev = Some (dev', outcome)"
      using assms(3) enabled Some
      by (cases "start_device (device_Open a) (device_Start lib a (ca_config c) (ca_codec c)) device_Close dev")
        (auto simp: Capture_start_def)
    from device.start_device_contract [OF closed d] show ?thesis
      using assms(2,3) enabled Some d by (cases outcome) (auto simp: Capture_start_def capture_wf_def Let_def)
  qed
qed

lemma Capture_CaptureFrame_wf:
  assumes "capture_wf c" "ca_state c = kRunning" "cp_enabled (ca_config c)"
    and "Capture_CaptureFrame lib neon t c = Some (c', f)"
  shows "capture_wf c' \<and> ca_state c' = kRunning \<and> ca_config c' = ca_config c"
  using assms device.captures [of _ lib neon "ca_config c" t]
  by (cases "ca_device c") (fastforce simp: Capture_CaptureFrame_def capture_wf_def bind_eq_Some_conv)+

end
