(* ===== verification/Capture_Module.thy ===== *)
theory Capture_Module
  imports Capture_Facade Queues "HOL-Library.Sublist"
begin

section \<open>The capture module and its threads\<close>

text \<open>
  \<^verbatim>\<open>sserver/src/modules/capture/video/CaptureModule.cpp\<close>: the host of the capture threads. A device
  without a raw path is served by one thread (\<^verbatim>\<open>CaptureLoop\<close>), a camera by two, a capture pump and an
  encoding pump with a bounded queue between them. A thread is its program counter, with what
  it holds; one step of a thread is one access to the shared state (the flag, the device, the
  queue under its lock, the handler under its lock) or the call of the handler. \<^verbatim>\<open>stop\<close> is two
  steps of the main thread, the request and the end of the joins, between which the threads go on.
  The lists of grabbed, encoded, produced and delivered frames record what happened.
\<close>

datatype worker =
    WNone
  | WCheck
  | WGrab
  | WPush RawCaptureFrame
  | WDeliver EncodedFrame
  | WCall nat EncodedFrame
  | WDone

datatype encode_thread =
    ENone
  | ECheck
  | EPop
  | EEncode RawCaptureFrame
  | EDeliver EncodedFrame
  | ECall nat EncodedFrame
  | EDone

record 'h CaptureModule =
  cm_capture :: "'h Capture"
  cm_running :: bool
  cm_state :: ModuleState
  cm_use_raw_capture :: bool
  cm_raw_queue :: "RawCaptureFrame ThreadSafeQueue"
  cm_frame_handler :: "nat option"
  cm_worker_thread :: worker
  cm_encode_thread :: encode_thread
  cm_stopping :: bool
  cm_grabbed :: "RawCaptureFrame list"
  cm_encoded :: "RawCaptureFrame list"
  cm_produced :: "EncodedFrame list"
  cm_delivered :: "(nat \<times> EncodedFrame) list"

definition CaptureModule_new :: "'h CaptureModule" where
  "CaptureModule_new = \<lparr>cm_capture = Capture_new, cm_running = False, cm_state = kCreated,
     cm_use_raw_capture = False, cm_raw_queue = ThreadSafeQueue_new, cm_frame_handler = None,
     cm_worker_thread = WNone, cm_encode_thread = ENone, cm_stopping = False,
     cm_grabbed = [], cm_encoded = [], cm_produced = [], cm_delivered = []\<rparr>"

subsection \<open>Operations of the main thread\<close>

definition CaptureModule_initialize :: "AppConfig \<Rightarrow> 'h CaptureModule \<Rightarrow> ('h CaptureModule \<times> bool) option" where
  "CaptureModule_initialize context m = do {
     (c, ok) \<leftarrow> Capture_initialize context (cm_capture m);
     let m = m\<lparr>cm_capture := c\<rparr>;
     if \<not> ok then Some (m\<lparr>cm_state := kFailed\<rparr>, False) else Some (m\<lparr>cm_state := kInitialized\<rparr>, True) }"

definition CaptureModule_start :: "'h x264_library \<Rightarrow> v4l2_answers \<Rightarrow> 'h CaptureModule \<Rightarrow>
    ('h CaptureModule \<times> bool) option" where
  "CaptureModule_start lib a m = do {
     (c, err) \<leftarrow> Capture_start lib a (cm_capture m);
     let m = m\<lparr>cm_capture := c\<rparr>;
     if err \<noteq> None then Some (m\<lparr>cm_state := kFailed\<rparr>, False)
     else let m = m\<lparr>cm_running := True, cm_use_raw_capture := Capture_SupportsRawCapture c\<rparr>;
              m = (if cm_use_raw_capture m then m\<lparr>cm_worker_thread := WCheck, cm_encode_thread := ECheck\<rparr>
                   else m\<lparr>cm_worker_thread := WCheck\<rparr>)
          in Some (m\<lparr>cm_state := kRunning\<rparr>, True) }"

definition SetFrameHandler :: "nat option \<Rightarrow> 'h CaptureModule \<Rightarrow> 'h CaptureModule" where
  "SetFrameHandler handler m = m\<lparr>cm_frame_handler := handler\<rparr>"

text \<open>\<^verbatim>\<open>stop\<close>: nothing unless running; the flag is cleared and the queue's waiters are woken, then both
  threads are joined, then the device is stopped.\<close>

definition stop_request :: "'h CaptureModule \<Rightarrow> 'h CaptureModule" where
  "stop_request m =
     (if cm_state m \<noteq> kRunning then m else m\<lparr>cm_running := False, cm_stopping := True\<rparr>)"

definition joinable :: "'h CaptureModule \<Rightarrow> bool" where
  "joinable m \<longleftrightarrow> cm_worker_thread m \<in> {WNone, WDone} \<and> cm_encode_thread m \<in> {ENone, EDone}"

definition stop_joined :: "'h CaptureModule \<Rightarrow> 'h CaptureModule option" where
  "stop_joined m = do {
     c \<leftarrow> Capture_stop (cm_capture m);
     Some (m\<lparr>cm_worker_thread := WNone, cm_encode_thread := ENone, cm_capture := c,
             cm_state := kStopped, cm_stopping := False\<rparr>) }"

text \<open>What \<^verbatim>\<open>shutdown\<close> does after its \<^verbatim>\<open>stop\<close>.\<close>

definition shutdown_stopped :: "'h CaptureModule \<Rightarrow> 'h CaptureModule option" where
  "shutdown_stopped m = do {
     c \<leftarrow> Capture_shutdown (cm_capture m);
     Some (m\<lparr>cm_capture := c, cm_state := kShutdown\<rparr>) }"

subsection \<open>Steps of the threads\<close>

text \<open>One step of the worker: \<^verbatim>\<open>CapturePump\<close> when the device has a raw path, else \<^verbatim>\<open>CaptureLoop\<close>.\<close>

definition grab_raw :: "tick \<Rightarrow> 'h CaptureModule \<Rightarrow> 'h CaptureModule option" where
  "grab_raw t m = do {
     (c, raw) \<leftarrow> Capture_CaptureRawFrame t (cm_capture m);
     let m = m\<lparr>cm_capture := c\<rparr>;
     case raw of
       None \<Rightarrow> Some (m\<lparr>cm_worker_thread := WCheck\<rparr>)
     | Some r \<Rightarrow> Some (m\<lparr>cm_worker_thread := WPush r, cm_grabbed := cm_grabbed m @ [r]\<rparr>) }"

definition grab_encoded :: "'h x264_library \<Rightarrow> bool \<Rightarrow> tick \<Rightarrow> 'h CaptureModule \<Rightarrow> 'h CaptureModule option" where
  "grab_encoded lib neon t m = do {
     (c, frame) \<leftarrow> Capture_CaptureFrame lib neon t (cm_capture m);
     let m = m\<lparr>cm_capture := c\<rparr>;
     case frame of
       None \<Rightarrow> Some (m\<lparr>cm_worker_thread := WCheck\<rparr>)
     | Some f \<Rightarrow> Some (m\<lparr>cm_worker_thread := WDeliver f, cm_produced := cm_produced m @ [f]\<rparr>) }"

fun worker_step :: "'h x264_library \<Rightarrow> bool \<Rightarrow> tick \<Rightarrow> worker \<Rightarrow> 'h CaptureModule \<Rightarrow> 'h CaptureModule option" where
  "worker_step lib neon t WNone m = None"
| "worker_step lib neon t WDone m = None"
| "worker_step lib neon t WCheck m = Some (m\<lparr>cm_worker_thread := (if cm_running m then WGrab else WDone)\<rparr>)"
| "worker_step lib neon t WGrab m = (if cm_use_raw_capture m then grab_raw t m else grab_encoded lib neon t m)"
| "worker_step lib neon t (WPush r) m =
     Some (m\<lparr>cm_raw_queue := PushDropOldest r 3 (cm_raw_queue m), cm_worker_thread := WCheck\<rparr>)"
| "worker_step lib neon t (WDeliver f) m = Some (m\<lparr>cm_worker_thread :=
     (case cm_frame_handler m of None \<Rightarrow> WCheck | Some h \<Rightarrow> WCall h f)\<rparr>)"
| "worker_step lib neon t (WCall h f) m =
     Some (m\<lparr>cm_delivered := cm_delivered m @ [(h, f)], cm_worker_thread := WCheck\<rparr>)"

text \<open>One step of \<^verbatim>\<open>EncodePump\<close>. The timed wait on the queue ends with its front, or with the time-out when
  it is empty.\<close>

definition encode_raw :: "'h x264_library \<Rightarrow> bool \<Rightarrow> tick \<Rightarrow> RawCaptureFrame \<Rightarrow> 'h CaptureModule \<Rightarrow>
    'h CaptureModule option" where
  "encode_raw lib neon t r m = do {
     (c, frame) \<leftarrow> Capture_EncodeRawFrame lib neon t (Some r) (cm_capture m);
     let m = m\<lparr>cm_capture := c\<rparr>;
     case frame of
       None \<Rightarrow> Some (m\<lparr>cm_encode_thread := ECheck\<rparr>)
     | Some f \<Rightarrow> Some (m\<lparr>cm_encode_thread := EDeliver f, cm_produced := cm_produced m @ [f]\<rparr>) }"

fun encode_step :: "'h x264_library \<Rightarrow> bool \<Rightarrow> tick \<Rightarrow> encode_thread \<Rightarrow> 'h CaptureModule \<Rightarrow>
    'h CaptureModule option" where
  "encode_step lib neon t ENone m = None"
| "encode_step lib neon t EDone m = None"
| "encode_step lib neon t ECheck m = Some (m\<lparr>cm_encode_thread := (if cm_running m then EPop else EDone)\<rparr>)"
| "encode_step lib neon t EPop m = (case ThreadSafeQueue_TryPop (cm_raw_queue m) of
       (q, None) \<Rightarrow> Some (m\<lparr>cm_encode_thread := ECheck\<rparr>)
     | (q, Some r) \<Rightarrow> Some (m\<lparr>cm_raw_queue := q, cm_encode_thread := EEncode r, cm_encoded := cm_encoded m @ [r]\<rparr>))"
| "encode_step lib neon t (EEncode r) m = encode_raw lib neon t r m"
| "encode_step lib neon t (EDeliver f) m = Some (m\<lparr>cm_encode_thread :=
     (case cm_frame_handler m of None \<Rightarrow> ECheck | Some h \<Rightarrow> ECall h f)\<rparr>)"
| "encode_step lib neon t (ECall h f) m =
     Some (m\<lparr>cm_delivered := cm_delivered m @ [(h, f)], cm_encode_thread := ECheck\<rparr>)"

subsection \<open>Interleavings\<close>

text \<open>The main thread initialises, starts, stops and shuts down one after the other (while it waits for the
  threads it does nothing else); the handler may be exchanged at any time.\<close>

inductive cm_step :: "'h x264_library \<Rightarrow> bool \<Rightarrow> 'h CaptureModule \<Rightarrow> 'h CaptureModule \<Rightarrow> bool"
  for lib neon where
  initialize: "cm_step lib neon m m'"
    if "\<not> cm_stopping m" "cm_state m \<noteq> kRunning" "CaptureModule_initialize context m = Some (m', ok)"
| start: "cm_step lib neon m m'"
    if "\<not> cm_stopping m" "cm_state m \<noteq> kRunning" "CaptureModule_start lib a m = Some (m', ok)"
| set_handler: "cm_step lib neon m (SetFrameHandler h m)"
| request: "cm_step lib neon m (stop_request m)" if "\<not> cm_stopping m"
| join: "cm_step lib neon m m'" if "cm_stopping m" "joinable m" "stop_joined m = Some m'"
| shutdown: "cm_step lib neon m m'"
    if "\<not> cm_stopping m" "cm_state m \<noteq> kRunning" "shutdown_stopped m = Some m'"
| worker: "cm_step lib neon m m'" if "worker_step lib neon t (cm_worker_thread m) m = Some m'"
| encoder: "cm_step lib neon m m'" if "encode_step lib neon t (cm_encode_thread m) m = Some m'"

inductive cm_reachable :: "'h x264_library \<Rightarrow> bool \<Rightarrow> 'h CaptureModule \<Rightarrow> bool" for lib neon where
  new: "cm_reachable lib neon CaptureModule_new"
| step: "cm_reachable lib neon m'" if "cm_reachable lib neon m" "cm_step lib neon m m'"

subsection \<open>The device under the threads\<close>

lemma V4L2_raw_keeps:
  assumes "capturing d"
  shows "V4L2_CaptureRawFrame dq ok now d = Some (d1, raw) \<Longrightarrow> capturing d1"
    and "V4L2_EncodeRawFrame lib neon r clock d = Some (d2, f) \<Longrightarrow> capturing d2"
proof -
  assume "V4L2_CaptureRawFrame dq ok now d = Some (d1, raw)"
  then show "capturing d1" using assms
    by (auto simp: V4L2_CaptureRawFrame_def bind_eq_Some_conv Let_def split: if_splits option.split_asm)
next
  assume run: "V4L2_EncodeRawFrame lib neon r clock d = Some (d2, f)"
  show "capturing d2"
  proof (cases r)
    case None
    then show ?thesis using run assms by (simp add: V4L2_EncodeRawFrame_def)
  next
    case (Some raw)
    obtain d3 outcome where d3: "encode_with lib neon (take (rf_bytes_used raw) (rf_data raw)) d = Some (d3, outcome)"
      using run Some by (cases "encode_with lib neon (take (rf_bytes_used raw) (rf_data raw)) d")
        (auto simp: V4L2_EncodeRawFrame_def)
    have "capturing d3" using encode_with_capturing [OF assms d3] by blast
    then show ?thesis using run Some d3 by (cases outcome) (auto simp: V4L2_EncodeRawFrame_def)
  qed
qed

text \<open>A closed device produces nothing and stays as it is.\<close>

lemma device_closed_calls:
  assumes "device_closed dev"
  shows "device_CaptureFrame lib neon config t dev = Some (dev, None)"
    and "device_CaptureRawFrame t dev = Some (dev, None)"
    and "device_EncodeRawFrame lib neon t raw dev = Some (dev, None)"
  using assms
  by (cases dev; simp add: device_closed_def device_CaptureFrame_def device_CaptureRawFrame_def device_EncodeRawFrame_def
      null_closed_def holds_nothing_def Null_CaptureFrame_def V4L2_CaptureFrame_def V4L2_CaptureRawFrame_def
      V4L2_EncodeRawFrame_def encode_with_def split: prod.split option.split)+

lemma device_raw_keeps:
  assumes "device_running dev"
  shows "device_CaptureRawFrame t dev = Some (dev1, raw) \<Longrightarrow> device_running dev1"
    and "device_EncodeRawFrame lib neon t r dev = Some (dev2, f) \<Longrightarrow> device_running dev2"
  using assms
  by (cases dev; auto simp: device_running_def device_CaptureRawFrame_def device_EncodeRawFrame_def
      dest: V4L2_raw_keeps)+

text \<open>The calls of the threads keep the facade's invariant and its state.\<close>

definition same_life :: "'h Capture \<Rightarrow> 'h Capture \<Rightarrow> bool" where
  "same_life c c' \<longleftrightarrow> capture_wf c' \<and> ca_state c' = ca_state c"

lemma facade_call:
  assumes "capture_wf c" "ca_device c = Some dev" "dev_call dev = Some (dev', x)"
    and "\<And>d d' x. device_running d \<Longrightarrow> dev_call d = Some (d', x) \<Longrightarrow> device_running d'"
    and "\<And>d. device_closed d \<Longrightarrow> dev_call d = Some (d, y)"
  shows "same_life c (c\<lparr>ca_device := Some dev'\<rparr>)"
proof (cases "ca_state c = kRunning \<and> cp_enabled (ca_config c)")
  case True
  then show ?thesis using assms by (auto simp: same_life_def capture_wf_def)
next
  case False
  then have "device_closed dev" using assms(1,2) by (simp add: capture_wf_def)
  then show ?thesis using assms(3) assms(5) [of dev] False by (auto simp: same_life_def capture_wf_def)
qed

lemma Capture_calls_keep:
  assumes "capture_wf c"
  shows "Capture_CaptureFrame lib neon t c = Some (c1, f) \<Longrightarrow> same_life c c1"
    and "Capture_CaptureRawFrame t c = Some (c2, raw) \<Longrightarrow> same_life c c2"
    and "Capture_EncodeRawFrame lib neon t r c = Some (c3, f') \<Longrightarrow> same_life c c3"
proof -
  assume run: "Capture_CaptureFrame lib neon t c = Some (c1, f)"
  show "same_life c c1"
  proof (cases "ca_device c")
    case None
    then show ?thesis using run assms by (simp add: Capture_CaptureFrame_def same_life_def)
  next
    case (Some dev)
    then obtain dev' where "device_CaptureFrame lib neon (ca_config c) t dev = Some (dev', f)"
      "c1 = c\<lparr>ca_device := Some dev'\<rparr>" using run by (auto simp: Capture_CaptureFrame_def bind_eq_Some_conv)
    then show ?thesis
      using facade_call [where dev_call = "device_CaptureFrame lib neon (ca_config c) t", OF assms Some]
        device.captures device_closed_calls(1) by blast
  qed
next
  assume run: "Capture_CaptureRawFrame t c = Some (c2, raw)"
  show "same_life c c2"
  proof (cases "ca_device c")
    case None
    then show ?thesis using run assms by (simp add: Capture_CaptureRawFrame_def same_life_def)
  next
    case (Some dev)
    then obtain dev' where "device_CaptureRawFrame t dev = Some (dev', raw)" "c2 = c\<lparr>ca_device := Some dev'\<rparr>"
      using run by (auto simp: Capture_CaptureRawFrame_def bind_eq_Some_conv)
    then show ?thesis
      using facade_call [where dev_call = "device_CaptureRawFrame t", OF assms Some]
        device_raw_keeps(1) device_closed_calls(2) by blast
  qed
next
  assume run: "Capture_EncodeRawFrame lib neon t r c = Some (c3, f')"
  show "same_life c c3"
  proof (cases "ca_device c")
    case None
    then show ?thesis using run assms by (simp add: Capture_EncodeRawFrame_def same_life_def)
  next
    case (Some dev)
    then obtain dev' where "device_EncodeRawFrame lib neon t r dev = Some (dev', f')" "c3 = c\<lparr>ca_device := Some dev'\<rparr>"
      using run by (auto simp: Capture_EncodeRawFrame_def bind_eq_Some_conv)
    then show ?thesis
      using facade_call [where dev_call = "device_EncodeRawFrame lib neon t r", OF assms Some]
        device_raw_keeps(2) device_closed_calls(3) by blast
  qed
qed

subsection \<open>The invariant\<close>

definition raw_in_hand :: "worker \<Rightarrow> RawCaptureFrame list" where
  "raw_in_hand w = (case w of WPush r \<Rightarrow> [r] | _ \<Rightarrow> [])"

definition frame_in_hand :: "worker \<Rightarrow> encode_thread \<Rightarrow> EncodedFrame list" where
  "frame_in_hand w e = (case w of WDeliver f \<Rightarrow> [f] | WCall h f \<Rightarrow> [f] | _ \<Rightarrow> []) @
     (case e of EDeliver f \<Rightarrow> [f] | ECall h f \<Rightarrow> [f] | _ \<Rightarrow> [])"

text \<open>The life cycle: threads exist exactly while the module runs, the facade runs with it.\<close>

definition life_inv :: "'h CaptureModule \<Rightarrow> bool" where
  "life_inv m \<longleftrightarrow> capture_wf (cm_capture m) \<and>
     (ca_state (cm_capture m) = kRunning \<longleftrightarrow> cm_state m = kRunning) \<and>
     (cm_worker_thread m \<noteq> WNone \<longleftrightarrow> cm_state m = kRunning) \<and>
     (cm_encode_thread m \<noteq> ENone \<longleftrightarrow> cm_state m = kRunning \<and> cm_use_raw_capture m) \<and>
     (cm_stopping m \<longrightarrow> cm_state m = kRunning \<and> \<not> cm_running m)"

text \<open>The frames: what the pumps took, what waits and what is in hand are a subsequence of what was
  grabbed, the queue holds at most three, and the deliveries are a subsequence of what was produced.\<close>

definition frames_inv :: "'h CaptureModule \<Rightarrow> bool" where
  "frames_inv m \<longleftrightarrow>
     subseq (cm_encoded m @ tsq_queue (cm_raw_queue m) @ raw_in_hand (cm_worker_thread m)) (cm_grabbed m) \<and>
     length (tsq_queue (cm_raw_queue m)) \<le> 3 \<and>
     subseq (map snd (cm_delivered m) @ frame_in_hand (cm_worker_thread m) (cm_encode_thread m)) (cm_produced m)"

text \<open>Only one thread produces frames.\<close>

definition producer_inv :: "'h CaptureModule \<Rightarrow> bool" where
  "producer_inv m \<longleftrightarrow> (cm_use_raw_capture m \<longrightarrow> cm_state m = kRunning \<longrightarrow>
     (case cm_worker_thread m of WDeliver f \<Rightarrow> False | WCall h f \<Rightarrow> False | _ \<Rightarrow> True))"

definition module_inv :: "'h CaptureModule \<Rightarrow> bool" where
  "module_inv m \<longleftrightarrow> life_inv m \<and> frames_inv m \<and> producer_inv m"

lemmas module_inv_defs = module_inv_def life_inv_def frames_inv_def producer_inv_def

lemma module_inv_new: "module_inv CaptureModule_new"
  by (simp add: module_inv_defs CaptureModule_new_def raw_in_hand_def frame_in_hand_def ThreadSafeQueue_new_def
      capture_wf_def Capture_new_def)

text \<open>Dropping the oldest entries and adding one keeps a subsequence and the bound.\<close>

lemma subseq_drop_middle: "subseq (xs @ ys @ zs) ws \<Longrightarrow> subseq (xs @ drop n ys @ zs) ws"
proof -
  assume *: "subseq (xs @ ys @ zs) ws"
  have "subseq (drop n ys) ys" by (simp add: suffix_drop suffix_imp_subseq)
  then have "subseq (xs @ drop n ys @ zs) (xs @ ys @ zs)" by (intro list_emb_append_mono) simp_all
  then show ?thesis using * by (rule subseq_order.order_trans)
qed

lemma subseq_front: "subseq (xs @ ys) zs \<Longrightarrow> subseq xs zs"
  by (metis list_emb_append_mono list_emb_Nil append_Nil2 subseq_order.order_refl subseq_order.order_trans)

lemma PushDropOldest_3:
  "\<exists>n. tsq_queue (PushDropOldest r 3 q) = drop n (tsq_queue q) @ [r]"
  "length (tsq_queue (PushDropOldest r 3 q)) \<le> 3"
  by (auto simp: PushDropOldest_def PushDropOldestCountDropped_def drop_oldest_loop_eq)

lemma subseq_snoc:
  "subseq (xs @ ys) zs \<Longrightarrow> subseq (xs @ ys @ [z]) (zs @ [z])"
  "subseq xs zs \<Longrightarrow> subseq (xs @ [z]) (zs @ [z])"
  by (simp_all flip: append_assoc)

lemmas module_simps = module_inv_defs raw_in_hand_def frame_in_hand_def same_life_def subseq_snoc

lemma worker_step_inv:
  assumes "module_inv m" "worker_step lib neon t (cm_worker_thread m) m = Some m'"
  shows "module_inv m'"
proof -
  have wf: "capture_wf (cm_capture m)" using assms(1) by (simp add: module_inv_defs)
  show ?thesis
  proof (cases "cm_worker_thread m")
    case WGrab
    show ?thesis
    proof (cases "cm_use_raw_capture m")
      case True
      then obtain c raw where c: "Capture_CaptureRawFrame t (cm_capture m) = Some (c, raw)"
        using assms(2) WGrab by (cases "Capture_CaptureRawFrame t (cm_capture m)") (auto simp: grab_raw_def)
      have "same_life (cm_capture m) c" by (rule Capture_calls_keep(2) [OF wf c])
      moreover have "m' = (case raw of None \<Rightarrow> m\<lparr>cm_capture := c, cm_worker_thread := WCheck\<rparr>
          | Some r \<Rightarrow> m\<lparr>cm_capture := c, cm_worker_thread := WPush r, cm_grabbed := cm_grabbed m @ [r]\<rparr>)"
        using assms(2) WGrab True c by (cases raw) (auto simp: grab_raw_def)
      ultimately show ?thesis using assms(1) WGrab True
        by (cases raw) (simp_all add: module_simps)
    next
      case False
      then obtain c f where c: "Capture_CaptureFrame lib neon t (cm_capture m) = Some (c, f)"
        using assms(2) WGrab by (cases "Capture_CaptureFrame lib neon t (cm_capture m)") (auto simp: grab_encoded_def)
      have life: "same_life (cm_capture m) c" by (rule Capture_calls_keep(1) [OF wf c])
      have "cm_encode_thread m = ENone" using assms(1) False by (simp add: module_inv_defs)
      moreover have "m' = (case f of None \<Rightarrow> m\<lparr>cm_capture := c, cm_worker_thread := WCheck\<rparr>
          | Some f \<Rightarrow> m\<lparr>cm_capture := c, cm_worker_thread := WDeliver f, cm_produced := cm_produced m @ [f]\<rparr>)"
        using assms(2) WGrab False c by (cases f) (auto simp: grab_encoded_def)
      ultimately show ?thesis using assms(1) WGrab False life
        by (cases f) (simp_all add: module_simps)
    qed
  next
    case (WPush r)
    obtain n where n: "tsq_queue (PushDropOldest r 3 (cm_raw_queue m)) = drop n (tsq_queue (cm_raw_queue m)) @ [r]"
      using PushDropOldest_3(1) [of r "cm_raw_queue m"] by blast
    have "subseq (cm_encoded m @ drop n (tsq_queue (cm_raw_queue m)) @ [r]) (cm_grabbed m)"
      using assms(1) WPush by (intro subseq_drop_middle) (simp add: module_inv_defs raw_in_hand_def)
    moreover have "m' = m\<lparr>cm_raw_queue := PushDropOldest r 3 (cm_raw_queue m), cm_worker_thread := WCheck\<rparr>"
      using assms(2) WPush by simp
    ultimately show ?thesis using assms(1) WPush PushDropOldest_3(2) [of r "cm_raw_queue m"]
      by (simp add: module_simps n)
  next
    case (WDeliver f)
    have "subseq (map snd (cm_delivered m) @ frame_in_hand WCheck (cm_encode_thread m)) (cm_produced m)"
    proof -
      have "cm_encode_thread m = ENone" using assms(1) WDeliver by (cases "cm_encode_thread m") (auto simp: module_inv_defs)
      then show ?thesis using assms(1) subseq_front [of "map snd (cm_delivered m)" "[f]"] WDeliver
        by (simp add: module_inv_defs frame_in_hand_def)
    qed
    moreover have "m' = m\<lparr>cm_worker_thread := (case cm_frame_handler m of None \<Rightarrow> WCheck | Some h \<Rightarrow> WCall h f)\<rparr>"
      using assms(2) WDeliver by simp
    ultimately show ?thesis using assms(1) WDeliver
      by (cases "cm_frame_handler m") (simp_all add: module_simps, blast)
  next
    case (WCall h f)
    then have "m' = m\<lparr>cm_delivered := cm_delivered m @ [(h, f)], cm_worker_thread := WCheck\<rparr>"
      using assms(2) by simp
    then show ?thesis using assms(1) WCall by (simp add: module_simps)
  next
    case WCheck
    then have "m' = m\<lparr>cm_worker_thread := (if cm_running m then WGrab else WDone)\<rparr>"
      using assms(2) by simp
    then show ?thesis using assms(1) WCheck by (cases "cm_running m") (simp_all add: module_simps)
  qed (use assms(2) in simp_all)
qed

text \<open>While the encoding thread exists, the worker holds no encoded frame.\<close>

lemma encode_thread_alone:
  assumes "module_inv m" "cm_encode_thread m \<noteq> ENone"
  shows "frame_in_hand (cm_worker_thread m) e = frame_in_hand WNone e"
  using assms by (cases "cm_worker_thread m") (auto simp: module_inv_defs frame_in_hand_def)

lemma raw_TryPop_cases:
  obtains "tsq_queue q = []" "ThreadSafeQueue_TryPop q = (q, None)"
  | r rs where "tsq_queue q = r # rs" "ThreadSafeQueue_TryPop q = (q\<lparr>tsq_queue := rs\<rparr>, Some r)"
  by (cases "tsq_queue q") (auto simp: ThreadSafeQueue_TryPop_def)

lemma encode_step_inv:
  assumes "module_inv m" "encode_step lib neon t (cm_encode_thread m) m = Some m'"
  shows "module_inv m'"
proof -
  have wf: "capture_wf (cm_capture m)" using assms(1) by (simp add: module_inv_defs)
  have thread: "cm_encode_thread m \<noteq> ENone" using assms(2) by auto
  have hand: "frame_in_hand (cm_worker_thread m) e = frame_in_hand WNone e" for e
    by (rule encode_thread_alone [OF assms(1) thread])
  have life: "life_inv m" and raws: "subseq (cm_encoded m @ tsq_queue (cm_raw_queue m) @ raw_in_hand (cm_worker_thread m)) (cm_grabbed m)"
      "length (tsq_queue (cm_raw_queue m)) \<le> 3"
    and frames: "subseq (map snd (cm_delivered m) @ frame_in_hand WNone (cm_encode_thread m)) (cm_produced m)"
    and prod: "producer_inv m"
    using assms(1) hand by (simp_all add: module_inv_def frames_inv_def)
  have inv: "module_inv m'"
    if "life_inv m'" "cm_worker_thread m' = cm_worker_thread m" "cm_grabbed m' = cm_grabbed m"
      "cm_use_raw_capture m' = cm_use_raw_capture m" "cm_state m' = cm_state m"
      "cm_encoded m' @ tsq_queue (cm_raw_queue m') = cm_encoded m @ tsq_queue (cm_raw_queue m)"
      "length (tsq_queue (cm_raw_queue m')) \<le> 3"
      "subseq (map snd (cm_delivered m') @ frame_in_hand WNone (cm_encode_thread m')) (cm_produced m')"
    using that raws prod hand by (simp add: module_inv_def frames_inv_def producer_inv_def append_assoc [symmetric] del: append_assoc)
  show ?thesis
  proof (cases "cm_encode_thread m")
    case ECheck
    then have "m' = m\<lparr>cm_encode_thread := (if cm_running m then EPop else EDone)\<rparr>" using assms(2) by simp
    then show ?thesis using life raws frames ECheck by (intro inv) (simp_all add: life_inv_def frame_in_hand_def)
  next
    case EPop
    show ?thesis
    proof (cases rule: raw_TryPop_cases [of "cm_raw_queue m"])
      case 1
      then have "m' = m\<lparr>cm_encode_thread := ECheck\<rparr>" using assms(2) EPop by simp
      then show ?thesis using life raws frames EPop by (intro inv) (simp_all add: life_inv_def frame_in_hand_def)
    next
      case (2 r rs)
      then have "m' = m\<lparr>cm_raw_queue := (cm_raw_queue m)\<lparr>tsq_queue := rs\<rparr>, cm_encode_thread := EEncode r,
          cm_encoded := cm_encoded m @ [r]\<rparr>" using assms(2) EPop by simp
      then show ?thesis using life raws frames EPop 2
        by (intro inv) (simp_all add: life_inv_def frame_in_hand_def)
    qed
  next
    case (EEncode r)
    obtain c frame where c: "Capture_EncodeRawFrame lib neon t (Some r) (cm_capture m) = Some (c, frame)"
      using assms(2) EEncode by (cases "Capture_EncodeRawFrame lib neon t (Some r) (cm_capture m)") (auto simp: encode_raw_def)
    have "same_life (cm_capture m) c" by (rule Capture_calls_keep(3) [OF wf c])
    moreover have "m' = (case frame of None \<Rightarrow> m\<lparr>cm_capture := c, cm_encode_thread := ECheck\<rparr>
        | Some f \<Rightarrow> m\<lparr>cm_capture := c, cm_encode_thread := EDeliver f, cm_produced := cm_produced m @ [f]\<rparr>)"
      using assms(2) EEncode c by (cases frame) (auto simp: encode_raw_def)
    ultimately show ?thesis using life raws frames EEncode
      by (cases frame; intro inv) (simp_all add: life_inv_def frame_in_hand_def same_life_def)
  next
    case (EDeliver f)
    have "m' = m\<lparr>cm_encode_thread := (case cm_frame_handler m of None \<Rightarrow> ECheck | Some h \<Rightarrow> ECall h f)\<rparr>"
      using assms(2) EDeliver by simp
    then show ?thesis using life raws frames EDeliver subseq_front [of "map snd (cm_delivered m)" "[f]"]
      by (cases "cm_frame_handler m"; intro inv) (simp_all add: life_inv_def frame_in_hand_def)
  next
    case (ECall h f)
    then have "m' = m\<lparr>cm_delivered := cm_delivered m @ [(h, f)], cm_encode_thread := ECheck\<rparr>" using assms(2) by simp
    then show ?thesis using life raws frames ECall by (intro inv) (simp_all add: life_inv_def frame_in_hand_def)
  qed (use assms(2) in simp_all)
qed

lemma frames_invD:
  assumes "frames_inv m"
  shows "subseq (cm_encoded m @ tsq_queue (cm_raw_queue m)) (cm_grabbed m)"
    and "subseq (cm_encoded m) (cm_grabbed m)"
    and "subseq (map snd (cm_delivered m)) (cm_produced m)"
    and "length (tsq_queue (cm_raw_queue m)) \<le> 3"
proof -
  show 1: "subseq (cm_encoded m @ tsq_queue (cm_raw_queue m)) (cm_grabbed m)"
    by (rule subseq_front [where ys = "raw_in_hand (cm_worker_thread m)"]) (use assms in \<open>simp add: frames_inv_def\<close>)
  show "subseq (cm_encoded m) (cm_grabbed m)" using 1 by (rule subseq_front)
  show "subseq (map snd (cm_delivered m)) (cm_produced m)"
    by (rule subseq_front [where ys = "frame_in_hand (cm_worker_thread m) (cm_encode_thread m)"])
      (use assms in \<open>simp add: frames_inv_def\<close>)
qed (use assms in \<open>simp add: frames_inv_def\<close>)

lemma frames_inv_main:
  assumes "module_inv m" "cm_worker_thread m' = WNone" "cm_encode_thread m' = ENone"
    and "cm_grabbed m' = cm_grabbed m" "cm_encoded m' = cm_encoded m" "cm_produced m' = cm_produced m"
    and "cm_delivered m' = cm_delivered m" "cm_raw_queue m' = cm_raw_queue m"
  shows "frames_inv m'"
proof -
  have "frames_inv m" using assms(1) by (simp add: module_inv_def)
  note facts = frames_invD [OF this]
  show ?thesis unfolding frames_inv_def assms(2-) using facts by (simp add: raw_in_hand_def frame_in_hand_def)
qed

lemma not_running_threads:
  assumes "module_inv m" "cm_state m \<noteq> kRunning"
  shows "cm_worker_thread m = WNone" "cm_encode_thread m = ENone" "ca_state (cm_capture m) \<noteq> kRunning"
    "\<not> cm_stopping m"
  using assms by (auto simp: module_inv_defs)

lemma main_step_inv:
  assumes "module_inv m"
  shows "cm_state m \<noteq> kRunning \<Longrightarrow> CaptureModule_initialize context m = Some (m1, ok) \<Longrightarrow> module_inv m1"
    and "cm_state m \<noteq> kRunning \<Longrightarrow> CaptureModule_start lib a m = Some (m2, ok) \<Longrightarrow> module_inv m2"
    and "module_inv (SetFrameHandler h m)"
    and "\<not> cm_stopping m \<Longrightarrow> module_inv (stop_request m)"
    and "joinable m \<Longrightarrow> stop_joined m = Some m3 \<Longrightarrow> module_inv m3"
    and "cm_state m \<noteq> kRunning \<Longrightarrow> shutdown_stopped m = Some m4 \<Longrightarrow> module_inv m4"
proof -
  have wf: "capture_wf (cm_capture m)" using assms by (simp add: module_inv_defs)
  {
    assume idle: "cm_state m \<noteq> kRunning" and run: "CaptureModule_initialize context m = Some (m1, ok)"
    note threads = not_running_threads [OF assms idle]
    obtain c cok where c: "Capture_initialize context (cm_capture m) = Some (c, cok)" "capture_wf c"
      "ca_state c = (if cok then kInitialized else kFailed)" using Capture_initialize_wf [OF wf] by blast
    have m1: "m1 = m\<lparr>cm_capture := c, cm_state := (if cok then kInitialized else kFailed)\<rparr>"
      using run c by (auto simp: CaptureModule_initialize_def split: if_splits)
    have "frames_inv m1" by (rule frames_inv_main [OF assms]) (simp_all add: m1 threads)
    then show "module_inv m1" using threads c(2,3) by (simp add: module_inv_def life_inv_def producer_inv_def m1)
  next
    assume idle: "cm_state m \<noteq> kRunning" and run: "CaptureModule_start lib a m = Some (m2, ok)"
    note threads = not_running_threads [OF assms idle]
    obtain c err where c: "Capture_start lib a (cm_capture m) = Some (c, err)"
      using run by (cases "Capture_start lib a (cm_capture m)") (auto simp: CaptureModule_start_def)
    note c' = Capture_start_wf [OF wf threads(3) c]
    show "module_inv m2"
    proof (cases "err = None")
      case False
      then have m2: "m2 = m\<lparr>cm_capture := c, cm_state := kFailed\<rparr>" using run c by (auto simp: CaptureModule_start_def)
      have "frames_inv m2" by (rule frames_inv_main [OF assms]) (simp_all add: m2 threads)
      then show ?thesis using threads c' False by (simp add: module_inv_def life_inv_def producer_inv_def m2)
    next
      case True
      let ?raw = "Capture_SupportsRawCapture c"
      have m2: "m2 = m\<lparr>cm_capture := c, cm_running := True, cm_use_raw_capture := ?raw, cm_worker_thread := WCheck,
          cm_encode_thread := (if ?raw then ECheck else ENone), cm_state := kRunning\<rparr>"
        using run c True threads by (auto simp: CaptureModule_start_def Let_def)
      have "frames_inv (m\<lparr>cm_worker_thread := WNone\<rparr>)"
        by (rule frames_inv_main [OF assms]) (simp_all add: threads)
      then have "frames_inv m2" by (simp add: frames_inv_def raw_in_hand_def frame_in_hand_def m2 threads)
      then show ?thesis using threads c' True by (simp add: module_inv_def life_inv_def producer_inv_def m2)
    qed
  next
    show "module_inv (SetFrameHandler h m)" using assms by (simp add: module_inv_defs SetFrameHandler_def)
  next
    assume "\<not> cm_stopping m"
    then show "module_inv (stop_request m)" using assms by (simp add: module_inv_defs stop_request_def)
  next
    assume "joinable m" and run: "stop_joined m = Some m3"
    obtain c where c: "Capture_stop (cm_capture m) = Some c" "capture_wf c" "ca_state c = kStopped"
      using Capture_stop_wf [OF wf] by blast
    have m3: "m3 = m\<lparr>cm_worker_thread := WNone, cm_encode_thread := ENone, cm_capture := c, cm_state := kStopped,
        cm_stopping := False\<rparr>" using run c(1) by (simp add: stop_joined_def)
    have "frames_inv m3" by (rule frames_inv_main [OF assms]) (simp_all add: m3)
    then show "module_inv m3" using c(2,3) by (simp add: module_inv_def life_inv_def producer_inv_def m3)
  next
    assume idle: "cm_state m \<noteq> kRunning" and run: "shutdown_stopped m = Some m4"
    note threads = not_running_threads [OF assms idle]
    obtain c where c: "Capture_shutdown (cm_capture m) = Some c" "capture_wf c" "ca_state c = kShutdown"
      using Capture_shutdown_wf [OF wf] by blast
    have m4: "m4 = m\<lparr>cm_capture := c, cm_state := kShutdown\<rparr>" using run c(1) by (simp add: shutdown_stopped_def)
    have "frames_inv m4" by (rule frames_inv_main [OF assms]) (simp_all add: m4 threads)
    then show "module_inv m4" using c(2,3) threads by (simp add: module_inv_def life_inv_def producer_inv_def m4)
  }
qed

lemma cm_reachable_inv: "cm_reachable lib neon m \<Longrightarrow> module_inv m"
proof (induction rule: cm_reachable.induct)
  case new
  show ?case by (rule module_inv_new)
next
  case (step m m')
  from step(2) step.IH show ?case
    by cases (auto dest: worker_step_inv encode_step_inv intro: main_step_inv)
qed

subsection \<open>Properties\<close>

text \<open>C13: Whatever the interleaving of the capture pump, the encoding pump, the main thread and exchanges of the
  handler: the pump encodes frames in the order they were grabbed, each at most once, the queue between the
  pumps never holds more than three, and the frames handed to the handler are frames the device
  produced, in its order and each at most once.\<close>

theorem capture_threads_keep_order:
  assumes "cm_reachable lib neon m"
  shows "subseq (cm_encoded m) (cm_grabbed m) \<and> length (tsq_queue (cm_raw_queue m)) \<le> 3 \<and>
    subseq (map snd (cm_delivered m)) (cm_produced m)"
  using cm_reachable_inv [OF assms] frames_invD [of m] by (simp add: module_inv_def)

text \<open>Once \<^verbatim>\<open>stop\<close> has returned (and before a start, and after a start that failed) no capture thread is
  left, so nothing reaches the handler any more, and the device is closed: a camera has no descriptor,
  mapping, queued buffer or stream left.\<close>

theorem stopped_module_is_quiet:
  assumes "cm_reachable lib neon m" "cm_state m \<noteq> kRunning"
  shows "cm_worker_thread m = WNone \<and> cm_encode_thread m = ENone \<and>
    (case ca_device (cm_capture m) of None \<Rightarrow> True | Some dev \<Rightarrow> device_closed dev)"
proof -
  have inv: "module_inv m" by (rule cm_reachable_inv [OF assms(1)])
  have "capture_wf (cm_capture m)" using inv by (simp add: module_inv_defs)
  then show ?thesis using not_running_threads [OF inv assms(2)]
    by (auto simp: capture_wf_def split: option.splits)
qed

text \<open>A session of the synthetic device: initialise, start, deliver one frame, stop.\<close>

definition demo_tick :: tick where
  "demo_tick = \<lparr>tk_dq = None, tk_qbuf = True, tk_now = 7, tk_clock = (8, 9)\<rparr>"

definition demo_context :: AppConfig where
  "demo_context = CreateDefault\<lparr>ac_capture := CaptureConfig_default\<lparr>cp_source := ''null''\<rparr>\<rparr>"

fun worker_steps :: "nat \<Rightarrow> nat CaptureModule \<Rightarrow> nat CaptureModule option" where
  "worker_steps 0 m = Some m"
| "worker_steps (Suc n) m = do {
     m \<leftarrow> worker_step echo_library False demo_tick (cm_worker_thread m) m;
     worker_steps n m }"

definition demo_running :: "nat CaptureModule option" where
  "demo_running = do {
     (m, _) \<leftarrow> CaptureModule_initialize demo_context CaptureModule_new;
     (m, _) \<leftarrow> CaptureModule_start echo_library camera_answers m;
     worker_steps 4 (SetFrameHandler (Some 5) m) }"

definition demo_stopped :: "nat CaptureModule option" where
  "demo_stopped = do {
     m \<leftarrow> demo_running;
     m \<leftarrow> worker_steps 1 (stop_request m);
     stop_joined m }"

lemma worker_steps_reachable:
  "cm_reachable echo_library False m \<Longrightarrow> worker_steps n m = Some m' \<Longrightarrow> cm_reachable echo_library False m'"
proof (induction n arbitrary: m)
  case (Suc n)
  then obtain m1 where m1: "worker_step echo_library False demo_tick (cm_worker_thread m) m = Some m1"
    "worker_steps n m1 = Some m'" by (auto simp: bind_eq_Some_conv)
  have "cm_reachable echo_library False m1"
    using Suc.prems(1) cm_step.worker [OF m1(1)] by (rule cm_reachable.step)
  then show ?case using m1(2) by (rule Suc.IH)
qed simp

lemma demo_running_reachable: "demo_running = Some m \<Longrightarrow> cm_reachable echo_library False m"
proof -
  assume "demo_running = Some m"
  then obtain m1 m2 where m: "CaptureModule_initialize demo_context CaptureModule_new = Some m1"
    "CaptureModule_start echo_library camera_answers (fst m1) = Some m2"
    "worker_steps 4 (SetFrameHandler (Some 5) (fst m2)) = Some m"
    by (auto simp: demo_running_def bind_eq_Some_conv)
  have s0: "\<not> cm_stopping CaptureModule_new" "cm_state CaptureModule_new \<noteq> kRunning"
    by (simp_all add: CaptureModule_new_def)
  have "\<not> cm_stopping (fst m1) \<and> cm_state (fst m1) \<noteq> kRunning"
    using m(1) by (auto simp: CaptureModule_initialize_def CaptureModule_new_def bind_eq_Some_conv Let_def split: if_splits)
  then have "cm_reachable echo_library False (fst m2)"
    using cm_reachable.step [OF cm_reachable.step [OF cm_reachable.new cm_step.initialize [OF s0]] cm_step.start]
      m(1,2) by (metis surjective_pairing)
  then have "cm_reachable echo_library False (SetFrameHandler (Some 5) (fst m2))"
    by (rule cm_reachable.step) (rule cm_step.set_handler)
  then show ?thesis using m(3) by (rule worker_steps_reachable)
qed

lemma demo_stopped_reachable:
  assumes "demo_stopped = Some m"
  shows "cm_reachable echo_library False m"
proof -
  obtain m1 m2 where m: "demo_running = Some m1" "worker_steps 1 (stop_request m1) = Some m2" "stop_joined m2 = Some m"
    using assms unfolding demo_stopped_def bind_eq_Some_conv by blast
  have 1: "cm_stopping m1 = False \<and> cm_state m1 = kRunning"
  proof -
    have "map_option (\<lambda>m. (cm_stopping m, cm_state m)) demo_running = Some (False, kRunning)" by code_simp
    then show ?thesis unfolding m(1) by simp
  qed
  have 2: "cm_stopping m2 \<and> joinable m2"
  proof -
    have "map_option (\<lambda>m. (cm_stopping m, joinable m)) (demo_running \<bind> (\<lambda>m. worker_steps 1 (stop_request m))) = Some (True, True)"
      by code_simp
    then show ?thesis unfolding m(1) by (simp only: Option.bind.bind_lunit m(2)) simp
  qed
  have "cm_reachable echo_library False (stop_request m1)"
    using demo_running_reachable [OF m(1)] cm_step.request [of m1] 1 by (metis cm_reachable.step)
  then have "cm_reachable echo_library False m2" using m(2) by (rule worker_steps_reachable)
  then show ?thesis using cm_step.join [OF _ _ m(3)] 2 by (metis cm_reachable.step)
qed

theorem capture_threads_keep_order_witness:
  "\<exists>m :: nat CaptureModule. map (\<lambda>(h, f). (h, ef_sequence f)) (cm_delivered m) = [(5, 0)] \<and>
     subseq (cm_encoded m) (cm_grabbed m) \<and> length (tsq_queue (cm_raw_queue m)) \<le> 3 \<and>
     subseq (map snd (cm_delivered m)) (cm_produced m)"
proof -
  have "map_option (\<lambda>m. map (\<lambda>(h, f). (h, ef_sequence f)) (cm_delivered m)) demo_running = Some [(5, 0)]" by code_simp
  then obtain m where m: "demo_running = Some m" "map (\<lambda>(h, f). (h, ef_sequence f)) (cm_delivered m) = [(5, 0)]"
    by (cases demo_running) auto
  show ?thesis
    by (rule exI [of _ m]) (use m(2) capture_threads_keep_order [OF demo_running_reachable [OF m(1)]] in simp)
qed

theorem stopped_module_is_quiet_witness:
  "\<exists>m :: nat CaptureModule. cm_state m = kStopped \<and> length (cm_delivered m) = 1 \<and>
     cm_worker_thread m = WNone \<and> cm_encode_thread m = ENone \<and>
     (case ca_device (cm_capture m) of None \<Rightarrow> True | Some dev \<Rightarrow> device_closed dev)"
proof -
  have "map_option (\<lambda>m. (cm_state m, length (cm_delivered m))) demo_stopped = Some (kStopped, 1)" by code_simp
  then obtain m where m: "demo_stopped = Some m" "cm_state m = kStopped" "length (cm_delivered m) = 1"
    by (cases demo_stopped) auto
  then show ?thesis using stopped_module_is_quiet [OF demo_stopped_reachable [OF m(1)]] by auto
qed

subsection \<open>Stopping\<close>

text \<open>How many steps a thread has left once the running flag is clear.\<close>

fun worker_rank :: "worker \<Rightarrow> nat" where
  "worker_rank WNone = 0" | "worker_rank WDone = 0" | "worker_rank WCheck = 1"
| "worker_rank (WCall h f) = 2" | "worker_rank (WPush r) = 2" | "worker_rank (WDeliver f) = 3"
| "worker_rank WGrab = 4"

fun encode_rank :: "encode_thread \<Rightarrow> nat" where
  "encode_rank ENone = 0" | "encode_rank EDone = 0" | "encode_rank ECheck = 1"
| "encode_rank (ECall h f) = 2" | "encode_rank (EDeliver f) = 3" | "encode_rank (EEncode r) = 4"
| "encode_rank EPop = 5"

definition thread_rank :: "'h CaptureModule \<Rightarrow> nat" where
  "thread_rank m = worker_rank (cm_worker_thread m) + encode_rank (cm_encode_thread m)"

text \<open>\<open>thread_run n m m'\<close>: \<open>n\<close> steps of the two threads, in any interleaving.\<close>

inductive thread_run :: "'h x264_library \<Rightarrow> bool \<Rightarrow> nat \<Rightarrow> 'h CaptureModule \<Rightarrow> 'h CaptureModule \<Rightarrow> bool"
  for lib neon where
  none: "thread_run lib neon 0 m m"
| worker: "thread_run lib neon (Suc n) m m''"
    if "worker_step lib neon t (cm_worker_thread m) m = Some m'" "thread_run lib neon n m' m''"
| encoder: "thread_run lib neon (Suc n) m m''"
    if "encode_step lib neon t (cm_encode_thread m) m = Some m'" "thread_run lib neon n m' m''"

lemma worker_step_rank:
  assumes "worker_step lib neon t (cm_worker_thread m) m = Some m'" "\<not> cm_running m"
  shows "\<not> cm_running m' \<and> cm_encode_thread m' = cm_encode_thread m \<and>
    worker_rank (cm_worker_thread m') < worker_rank (cm_worker_thread m)"
proof (cases "cm_worker_thread m")
  case WGrab
  then show ?thesis using assms
    by (auto simp: grab_raw_def grab_encoded_def bind_eq_Some_conv Let_def split: if_splits option.split_asm)
qed (use assms in \<open>auto split: option.splits\<close>)

lemma encode_step_rank:
  assumes "encode_step lib neon t (cm_encode_thread m) m = Some m'" "\<not> cm_running m"
  shows "\<not> cm_running m' \<and> cm_worker_thread m' = cm_worker_thread m \<and>
    encode_rank (cm_encode_thread m') < encode_rank (cm_encode_thread m)"
proof (cases "cm_encode_thread m")
  case EPop
  then show ?thesis using assms by (cases rule: raw_TryPop_cases [of "cm_raw_queue m"]) auto
next
  case (EEncode r)
  then show ?thesis using assms
    by (auto simp: encode_raw_def bind_eq_Some_conv Let_def split: option.split_asm)
qed (use assms in \<open>auto split: option.splits\<close>)

lemma thread_run_rank:
  "thread_run lib neon n m m' \<Longrightarrow> \<not> cm_running m \<Longrightarrow> n + thread_rank m' \<le> thread_rank m"
proof (induction rule: thread_run.induct)
  case (worker t m m' n m'')
  then show ?case using worker_step_rank [OF worker.hyps(1) worker.prems] by (simp add: thread_rank_def)
next
  case (encoder t m m' n m'')
  then show ?case using encode_step_rank [OF encoder.hyps(1) encoder.prems] by (simp add: thread_rank_def)
qed simp

lemma joinable_rank: "joinable m \<longleftrightarrow> thread_rank m = 0"
  by (cases "cm_worker_thread m"; cases "cm_encode_thread m") (simp_all add: joinable_def thread_rank_def)

lemma thread_rank_bound: "thread_rank m \<le> 9"
  by (cases "cm_worker_thread m"; cases "cm_encode_thread m") (simp_all add: thread_rank_def)

text \<open>C31: A stop returns: after the request the two threads together take at most nine more steps, wherever
  they are and however they interleave, and a step is possible until both can be joined (a call of the
  device being the only one that may be undefined). The bound presumes that a call of the device
  returns; a camera opened in blocking mode may keep a capture call waiting.\<close>

theorem stop_terminates:
  assumes "cm_state m = kRunning" "thread_run lib neon n (stop_request m) m'"
  shows "n \<le> 9 \<and> (joinable m' \<longleftrightarrow> thread_rank m' = 0) \<and>
    (joinable m' \<or> cm_worker_thread m' = WGrab \<or> (\<exists>r. cm_encode_thread m' = EEncode r) \<or>
     (\<exists>m''. thread_run lib neon 1 m' m''))"
proof -
  have "\<not> cm_running (stop_request m)" using assms(1) by (simp add: stop_request_def)
  then have "n + thread_rank m' \<le> thread_rank (stop_request m)" using thread_run_rank [OF assms(2)] by blast
  then have bound: "n \<le> 9" using thread_rank_bound [of "stop_request m"] by linarith
  have "\<exists>m''. thread_run lib neon 1 m' m''"
    if "\<not> joinable m'" "cm_worker_thread m' \<noteq> WGrab" "\<nexists>r. cm_encode_thread m' = EEncode r"
  proof (cases "\<exists>t m''. worker_step lib neon t (cm_worker_thread m') m' = Some m''")
    case True
    then show ?thesis using thread_run.worker [OF _ thread_run.none] by fastforce
  next
    case False
    then have "worker_rank (cm_worker_thread m') = 0" using that(2) by (cases "cm_worker_thread m'") auto
    then have "cm_encode_thread m' \<notin> {ENone, EDone}" using that(1)
      by (cases "cm_worker_thread m'") (auto simp: joinable_def)
    then have "\<exists>t m''. encode_step lib neon t (cm_encode_thread m') m' = Some m''"
      using that(3) by (cases "cm_encode_thread m'"; cases rule: raw_TryPop_cases [of "cm_raw_queue m'"]) auto
    then show ?thesis using thread_run.encoder [OF _ thread_run.none] by fastforce
  qed
  then show ?thesis using bound joinable_rank by blast
qed

theorem stop_terminates_witness:
  "\<exists>m m' :: nat CaptureModule. demo_running = Some m \<and> thread_run echo_library False 1 (stop_request m) m' \<and>
     1 \<le> (9 :: nat) \<and> joinable m'"
proof -
  have "map_option (\<lambda>m. (cm_state m, joinable m)) (demo_running \<bind> (\<lambda>m. worker_steps 1 (stop_request m))) =
      Some (kRunning, True)" by code_simp
  then obtain m m' where m: "demo_running = Some m" "worker_steps 1 (stop_request m) = Some m'" "joinable m'"
    by (auto simp: bind_eq_Some_conv)
  have "map_option cm_state demo_running = Some kRunning" by code_simp
  then have running: "cm_state m = kRunning" unfolding m(1) by simp
  have run: "thread_run echo_library False 1 (stop_request m) m'"
    using m(2) thread_run.worker [OF _ thread_run.none, of echo_library False demo_tick "stop_request m" m']
    by (auto simp: bind_eq_Some_conv)
  show ?thesis using stop_terminates [OF running run] m run by blast
qed

text \<open>The raw queue survives a stop and the next start: what waits in it is encoded by the next
  session.\<close>

lemma raw_queue_survives:
  "stop_joined m = Some m1 \<Longrightarrow> CaptureModule_start lib a m1 = Some (m2, ok) \<Longrightarrow> cm_raw_queue m2 = cm_raw_queue m"
  by (auto simp: stop_joined_def CaptureModule_start_def bind_eq_Some_conv Let_def split: if_splits)

end
