(* ===== verification/Server_App.thy ===== *)
theory Server_App
  imports Application Transport_Facade Capture_Module
begin

section \<open>The server as a whole\<close>

text \<open>
  \<^verbatim>\<open>sserver/src/app/AppBootstrap.cpp\<close> and \<^verbatim>\<open>sserver/src/app/main.cpp\<close>: the transport module and the capture
  module behind \<^verbatim>\<open>IModule\<close>, registered in this order with the application, and the frame handler that
  carries frames from one to the other. The two modules are the state of the application; \<open>None\<close> stands
  for undefined behaviour reached in the capture module, and for a \<^verbatim>\<open>stop\<close> that still waits. The surroundings
  (the back ends' worlds, the network, x264, the camera driver) are the record \<open>surroundings\<close>; \<open>su_schedule\<close>
  says in which order the capture threads go on, and what their calls meet, while \<^verbatim>\<open>stop\<close> waits for them.
\<close>

subsection \<open>The two modules\<close>

datatype module_id = TransportId | CaptureId

record 'h server =
  sv_transport :: Transport
  sv_capture :: "'h CaptureModule"

record 'h surroundings =
  su_worlds :: worlds
  su_net :: net_answers
  su_lib :: "'h x264_library"
  su_neon :: bool
  su_v4l2 :: v4l2_answers
  su_schedule :: "(bool \<times> tick) list"

text \<open>The one handler ever installed is the broadcast: what the threads delivered since goes to the transport.\<close>

definition broadcast_handler :: nat where "broadcast_handler = 0"

definition hand_over :: "'h CaptureModule \<Rightarrow> 'h server \<Rightarrow> 'h server" where
  "hand_over m sv =
     (let delivered = drop (length (cm_delivered (sv_capture sv))) (cm_delivered m) in
      sv\<lparr>sv_capture := m,
         sv_transport := fold (\<lambda>d. Transport_Broadcast (Some (snd d))) delivered (sv_transport sv)\<rparr>)"

definition module_initialize :: "'h surroundings \<Rightarrow> module_id \<Rightarrow> AppConfig \<Rightarrow> 'h server option \<Rightarrow> 'h server option \<times> bool" where
  "module_initialize W i context s = (case s of
       None \<Rightarrow> (None, False)
     | Some sv \<Rightarrow> (case i of
         TransportId \<Rightarrow> (case Transport_initialize (su_worlds W) context (sv_transport sv) of
           (t, ok) \<Rightarrow> (Some (sv\<lparr>sv_transport := t\<rparr>), ok))
       | CaptureId \<Rightarrow> (case CaptureModule_initialize context (sv_capture sv) of
           None \<Rightarrow> (None, False)
         | Some (m, ok) \<Rightarrow> (Some (sv\<lparr>sv_capture := m\<rparr>), ok))))"

definition module_start :: "'h surroundings \<Rightarrow> module_id \<Rightarrow> 'h server option \<Rightarrow> 'h server option \<times> bool" where
  "module_start W i s = (case s of
       None \<Rightarrow> (None, False)
     | Some sv \<Rightarrow> (case i of
         TransportId \<Rightarrow> (case Transport_start (su_net W) (sv_transport sv) of
           (t, ok) \<Rightarrow> (Some (sv\<lparr>sv_transport := t\<rparr>), ok))
       | CaptureId \<Rightarrow> (case CaptureModule_start (su_lib W) (su_v4l2 W) (sv_capture sv) of
           None \<Rightarrow> (None, False)
         | Some (m, ok) \<Rightarrow> (Some (sv\<lparr>sv_capture := m\<rparr>), ok))))"

text \<open>The threads go on as scheduled (the flag names the worker) until both have ended.\<close>

fun join_threads :: "'h x264_library \<Rightarrow> bool \<Rightarrow> (bool \<times> tick) list \<Rightarrow> 'h CaptureModule \<Rightarrow> 'h CaptureModule option" where
  "join_threads lib neon [] m = (if joinable m then Some m else None)"
| "join_threads lib neon ((worker, t) # schedule) m =
     (if joinable m then Some m
      else if (if worker then cm_worker_thread m \<in> {WNone, WDone} else cm_encode_thread m \<in> {ENone, EDone})
      then join_threads lib neon schedule m
      else do {
        m \<leftarrow> (if worker then worker_step lib neon t (cm_worker_thread m) m else encode_step lib neon t (cm_encode_thread m) m);
        join_threads lib neon schedule m })"

text \<open>\<^verbatim>\<open>CaptureModule::stop\<close>: the request, the joins, the end.\<close>

definition capture_module_stop :: "'h surroundings \<Rightarrow> 'h server \<Rightarrow> 'h server option" where
  "capture_module_stop W sv =
     (let m = stop_request (sv_capture sv) in
      if \<not> cm_stopping m then Some (sv\<lparr>sv_capture := m\<rparr>)
      else do {
        joined \<leftarrow> join_threads (su_lib W) (su_neon W) (su_schedule W) m;
        stopped \<leftarrow> stop_joined joined;
        Some ((hand_over joined sv)\<lparr>sv_capture := stopped\<rparr>) })"

definition module_stop :: "'h surroundings \<Rightarrow> module_id \<Rightarrow> 'h server option \<Rightarrow> 'h server option" where
  "module_stop W i s = (case s of
       None \<Rightarrow> None
     | Some sv \<Rightarrow> (case i of
         TransportId \<Rightarrow> Some (sv\<lparr>sv_transport := Transport_stop (sv_transport sv)\<rparr>)
       | CaptureId \<Rightarrow> capture_module_stop W sv))"

definition module_shutdown :: "'h surroundings \<Rightarrow> module_id \<Rightarrow> 'h server option \<Rightarrow> 'h server option" where
  "module_shutdown W i s = (case s of
       None \<Rightarrow> None
     | Some sv \<Rightarrow> (case i of
         TransportId \<Rightarrow> Some (sv\<lparr>sv_transport := Transport_shutdown (sv_transport sv)\<rparr>)
       | CaptureId \<Rightarrow> do {
           sv \<leftarrow> capture_module_stop W sv;
           m \<leftarrow> shutdown_stopped (sv_capture sv);
           Some (sv\<lparr>sv_capture := m\<rparr>) }))"

definition server_modules :: "'h surroundings \<Rightarrow> (module_id, 'h server option) module_interface" where
  "server_modules W = \<lparr>im_initialize = module_initialize W, im_start = module_start W,
     im_stop = module_stop W, im_shutdown = module_shutdown W\<rparr>"

lemma server_modules_simps [simp]:
  "im_initialize (server_modules W) = module_initialize W" "im_start (server_modules W) = module_start W"
  "im_stop (server_modules W) = module_stop W" "im_shutdown (server_modules W) = module_shutdown W"
  by (simp_all add: server_modules_def)

subsection \<open>The bootstrap\<close>

text \<open>The modules exist once \<open>ab_created\<close> holds (the pointers are not null); before, the field holds the modules
  as they will be created.\<close>

record 'h AppBootstrap =
  ab_config :: AppConfig
  ab_application :: "module_id Application"
  ab_modules :: "'h server option"
  ab_created :: bool
  ab_started :: bool

definition new_modules :: "'h server option" where
  "new_modules = Some \<lparr>sv_transport = Transport_new (Some (LatencyRecorder_new 4096)), sv_capture = CaptureModule_new\<rparr>"

definition AppBootstrap_new :: "AppConfig \<Rightarrow> 'h AppBootstrap" where
  "AppBootstrap_new config = \<lparr>ab_config = config, ab_application = Application_new config, ab_modules = new_modules,
     ab_created = False, ab_started = False\<rparr>"

definition AppBootstrap_Initialize :: "'h surroundings \<Rightarrow> 'h AppBootstrap \<Rightarrow> 'h AppBootstrap \<times> bool" where
  "AppBootstrap_Initialize W b =
     (if ab_created b then (b, True)
      else
        let a = RegisterModule CaptureId (RegisterModule TransportId (ab_application b))
        in case Application_Initialize (server_modules W) (a, new_modules) of
             ((a, s), ok) \<Rightarrow> (b\<lparr>ab_created := True, ab_application := a, ab_modules := s\<rparr>, ok))"

definition set_handler :: "nat option \<Rightarrow> 'h AppBootstrap \<Rightarrow> 'h AppBootstrap" where
  "set_handler h b = b\<lparr>ab_modules := map_option (\<lambda>sv. sv\<lparr>sv_capture := SetFrameHandler h (sv_capture sv)\<rparr>) (ab_modules b)\<rparr>"

definition BindStreamingPipeline :: "'h AppBootstrap \<Rightarrow> 'h AppBootstrap" where
  "BindStreamingPipeline b = (if \<not> ab_created b then b else set_handler (Some broadcast_handler) b)"

definition UnbindStreamingPipeline :: "'h AppBootstrap \<Rightarrow> 'h AppBootstrap" where
  "UnbindStreamingPipeline b = (if \<not> ab_created b then b else set_handler None b)"

definition AppBootstrap_Start :: "'h surroundings \<Rightarrow> 'h AppBootstrap \<Rightarrow> 'h AppBootstrap \<times> bool" where
  "AppBootstrap_Start W b = (case AppBootstrap_Initialize W b of
       (b, False) \<Rightarrow> (b, False)
     | (b, True) \<Rightarrow>
         if ab_started b then (b, True)
         else
           let b = BindStreamingPipeline b in
           case Application_Start (server_modules W) (ab_application b, ab_modules b) of
             ((a, s), started) \<Rightarrow>
               let b = b\<lparr>ab_application := a, ab_modules := s, ab_started := started\<rparr>
               in (if started then b else UnbindStreamingPipeline b, started))"

definition AppBootstrap_Stop :: "'h surroundings \<Rightarrow> 'h AppBootstrap \<Rightarrow> 'h AppBootstrap" where
  "AppBootstrap_Stop W b =
     (let b = UnbindStreamingPipeline b in
      case Application_Shutdown (server_modules W) (Application_Stop (server_modules W) (ab_application b, ab_modules b)) of
        (a, s) \<Rightarrow> b\<lparr>ab_application := a, ab_modules := s, ab_started := False\<rparr>)"

definition AppBootstrap_bound_port :: "'h AppBootstrap \<Rightarrow> int option" where
  "AppBootstrap_bound_port b =
     (if \<not> ab_created b then Some 0 else map_option (\<lambda>sv. Transport_bound_port (sv_transport sv)) (ab_modules b))"

subsection \<open>The program\<close>

fun config_path_loop :: "string list \<Rightarrow> string \<Rightarrow> string" where
  "config_path_loop (argument # path # rest) config_path =
     (if argument = ''--config'' then config_path_loop rest path else config_path_loop (path # rest) config_path)"
| "config_path_loop _ config_path = config_path"

text \<open>The arguments after the program's name.\<close>

definition ParseConfigPath :: "string list \<Rightarrow> string" where
  "ParseConfigPath arguments = config_path_loop arguments ''config/default.conf''"

text \<open>\<open>meanwhile\<close> is what the threads do until a signal is noticed. The destructor of the bootstrap stops it
  once more.\<close>

definition server_main :: "(string \<Rightarrow> string option) \<Rightarrow> 'h surroundings \<Rightarrow> ('h AppBootstrap \<Rightarrow> 'h AppBootstrap) \<Rightarrow>
    string list \<Rightarrow> int \<times> 'h AppBootstrap option" where
  "server_main files W meanwhile arguments = (case LoadFromFile files (ParseConfigPath arguments) True of
       Inl message \<Rightarrow> (1, None)
     | Inr config \<Rightarrow> (case AppBootstrap_Start W (AppBootstrap_new config) of
         (b, False) \<Rightarrow> (1, Some (AppBootstrap_Stop W b))
       | (b, True) \<Rightarrow> (0, Some (AppBootstrap_Stop W (AppBootstrap_Stop W (meanwhile b))))))"


subsection \<open>The two modules keep the contract\<close>

definition transport_phase :: "Transport \<Rightarrow> phase" where
  "transport_phase t = (if Transport_state t = kRunning then Up else if tr_backend t \<noteq> None then Ready else Down)"

definition capture_phase :: "'h CaptureModule \<Rightarrow> phase" where
  "capture_phase m = (if cm_state m = kRunning then Up else if ca_device (cm_capture m) \<noteq> None then Ready else Down)"

definition module_phase :: "phase \<Rightarrow> module_id \<Rightarrow> 'h server option \<Rightarrow> bool" where
  "module_phase p i s \<longleftrightarrow> (case s of None \<Rightarrow> True
     | Some sv \<Rightarrow> (case i of TransportId \<Rightarrow> transport_phase (sv_transport sv) = p | CaptureId \<Rightarrow> capture_phase (sv_capture sv) = p))"

lemma other_module [simp]: "i \<noteq> TransportId \<longleftrightarrow> i = CaptureId" "i \<noteq> CaptureId \<longleftrightarrow> i = TransportId"
  by (cases i; simp)+

lemma module_phase_simps [simp]:
  "module_phase p i None"
  "module_phase p TransportId (Some sv) \<longleftrightarrow> transport_phase (sv_transport sv) = p"
  "module_phase p CaptureId (Some sv) \<longleftrightarrow> capture_phase (sv_capture sv) = p"
  by (simp_all add: module_phase_def)

text \<open>What holds of the capture module between the calls of the main thread.\<close>

definition capture_good :: "'h surroundings \<Rightarrow> 'h CaptureModule \<Rightarrow> bool" where
  "capture_good W m \<longleftrightarrow> cm_reachable (su_lib W) (su_neon W) m \<and> \<not> cm_stopping m \<and>
     (cm_state m = kRunning \<longrightarrow> ca_device (cm_capture m) \<noteq> None)"

definition server_good :: "'h surroundings \<Rightarrow> 'h server option \<Rightarrow> bool" where
  "server_good W s \<longleftrightarrow> (case s of None \<Rightarrow> True
     | Some sv \<Rightarrow> transport_life (sv_transport sv) \<and> capture_good W (sv_capture sv))"

lemma server_good_simps [simp]:
  "server_good W None"
  "server_good W (Some sv) \<longleftrightarrow> transport_life (sv_transport sv) \<and> capture_good W (sv_capture sv)"
  by (simp_all add: server_good_def)

lemma join_threads_run:
  "join_threads lib neon schedule m = Some m' \<Longrightarrow> (\<exists>n. thread_run lib neon n m m') \<and> joinable m'"
proof (induction lib neon schedule m rule: join_threads.induct)
  case (1 lib neon m)
  then show ?case using thread_run.none by (auto split: if_splits)
next
  case (2 lib neon worker t schedule m)
  let ?step = "if worker then worker_step lib neon t (cm_worker_thread m) m else encode_step lib neon t (cm_encode_thread m) m"
  consider "joinable m" | "\<not> joinable m" "if worker then cm_worker_thread m \<in> {WNone, WDone} else cm_encode_thread m \<in> {ENone, EDone}"
      "join_threads lib neon schedule m = Some m'"
    | m1 where "\<not> joinable m" "\<not> (if worker then cm_worker_thread m \<in> {WNone, WDone} else cm_encode_thread m \<in> {ENone, EDone})"
      "?step = Some m1" "join_threads lib neon schedule m1 = Some m'"
    using 2(3) by (auto simp: bind_eq_Some_conv split: if_splits)
  then show ?case
  proof cases
    case 1
    then show ?thesis using 2(3) thread_run.none by auto
  next
    case 2
    then show ?thesis using "2.IH"(1) by blast
  next
    case 3
    obtain n where "thread_run lib neon n m1 m'" "joinable m'" using "2.IH"(2) [OF 3] by blast
    then show ?thesis using 3(3) thread_run.worker [of lib neon t m m1] thread_run.encoder [of lib neon t m m1] by (metis (full_types))
  qed
qed

lemma transport_without_backend: "transport_life t \<Longrightarrow> tr_backend t = None \<Longrightarrow> tr_state t \<noteq> kRunning"
proof (induction rule: transport_life.induct)
  case (initialized t w cfg)
  then show ?case
    using Transport_initialize_outcome [of w cfg t] by (cases "Transport_initialize w cfg t") (auto simp: transport_ops split: if_splits)
qed (auto simp: Transport_new_def Transport_shutdown_def Transport_start_def transport_ops split: option.splits prod.splits)

lemma transport_up: "transport_life t \<Longrightarrow> Transport_state t = kRunning \<Longrightarrow> tr_backend t \<noteq> None"
  using transport_without_backend [of t] by (cases "tr_backend t") (simp_all add: Transport_state_def)

lemma Transport_initialize_backend:
  assumes "Transport_initialize w cfg t = (t', ok)"
  shows "transport_phase t' = (if ok then Ready else Down)"
proof -
  have "tr_backend t' \<noteq> None \<longleftrightarrow> ok"
    using assms by (auto simp: Transport_initialize_def Transport_shutdown_def Let_def split: sum.splits option.splits prod.splits bool.splits)
  then show ?thesis using Transport_initialize_outcome [OF assms] by (auto simp: transport_phase_def)
qed

lemma Transport_start_phase:
  assumes "transport_life t" "transport_phase t = Ready" "Transport_start a t = (t', ok)"
  shows "transport_life t' \<and> transport_phase t' = (if ok then Up else Ready)"
proof -
  have t: "Transport_state t \<noteq> kRunning" "tr_backend t \<noteq> None" using assms(2) by (auto simp: transport_phase_def split: if_splits)
  have life: "transport_life t'" using transport_life.started [OF assms(1) t(1), of a] assms(3) by simp
  obtain b where b: "tr_backend t = Some b" using t(2) by blast
  obtain b' good where b': "backend_start a b = (b', good)" by fastforce
  have t': "t' = t\<lparr>tr_backend := Some b', tr_state := backend_state b'\<rparr>" "ok = good"
    using assms(3) b b' by (simp_all add: Transport_start_def)
  have "backend_state b \<noteq> kRunning \<longrightarrow> backend_releases b" "\<not> \<not> backend_releases b"
    using t(1) transport_life_fine [OF assms(1)] b by (simp_all add: transport_ops)
  from backend.starts [OF this b'] show ?thesis using life unfolding t' by (auto simp: transport_phase_def transport_ops)
qed

lemma Transport_stop_phase:
  assumes "transport_life t" "transport_phase t = Up"
  shows "transport_phase (Transport_stop t) = Ready"
proof -
  obtain b where b: "tr_backend t = Some b" using assms transport_up by (fastforce simp: transport_phase_def split: if_splits)
  have "backend_state b \<noteq> kRunning \<longrightarrow> backend_releases b" using transport_life_fine [OF assms(1)] b by (simp add: transport_ops)
  from backend.stops [OF this] show ?thesis using b by (simp add: transport_phase_def transport_ops)
qed

lemma Transport_Broadcast_phase:
  assumes "transport_life t"
  shows "transport_phase (Transport_Broadcast frame t) = transport_phase t"
proof (cases "tr_backend t")
  case (Some b)
  have "backend_state b \<noteq> kRunning \<longrightarrow> backend_releases b" using transport_life_fine [OF assms(1)] Some by (simp add: transport_ops)
  from backend.broadcasts [OF this] show ?thesis using Some by (simp add: transport_phase_def transport_ops)
qed (simp add: Transport_Broadcast_def)

lemma broadcasts_phase:
  "transport_life t \<Longrightarrow> transport_life (fold (\<lambda>d. Transport_Broadcast (Some (snd d))) ds t) \<and>
   transport_phase (fold (\<lambda>d. Transport_Broadcast (Some (snd d))) ds t) = transport_phase t"
proof (induction ds arbitrary: t)
  case (Cons d ds)
  then show ?case using transport_life.broadcast [OF Cons.prems] Transport_Broadcast_phase [OF Cons.prems] by simp
qed simp

text \<open>The capture module.\<close>

lemma thread_steps_capture:
  assumes "worker_step lib neon t w m = Some m1 \<or> encode_step lib neon t e m = Some m1"
  shows "cm_state m1 = cm_state m \<and> cm_frame_handler m1 = cm_frame_handler m \<and> cm_stopping m1 = cm_stopping m \<and> (ca_device (cm_capture m1) = None \<longleftrightarrow> ca_device (cm_capture m) = None)"
  using assms
proof
  assume "worker_step lib neon t w m = Some m1"
  then show ?thesis
    by (cases w)
      (auto simp: grab_raw_def grab_encoded_def Capture_CaptureRawFrame_def Capture_CaptureFrame_def bind_eq_Some_conv Let_def
        split: if_splits option.splits)
next
  assume "encode_step lib neon t e m = Some m1"
  then show ?thesis
    by (cases e)
      (auto simp: encode_raw_def Capture_EncodeRawFrame_def bind_eq_Some_conv Let_def
        split: if_splits option.splits prod.splits)
qed

lemma thread_run_capture:
  "thread_run lib neon n m m' \<Longrightarrow> cm_reachable lib neon m \<Longrightarrow>
   cm_reachable lib neon m' \<and> cm_state m' = cm_state m \<and> cm_frame_handler m' = cm_frame_handler m \<and> cm_stopping m' = cm_stopping m \<and>
   (ca_device (cm_capture m') = None \<longleftrightarrow> ca_device (cm_capture m) = None)"
proof (induction rule: thread_run.induct)
  case (worker t m m1 n m2)
  then show ?case using cm_reachable.step [OF worker.prems cm_step.worker] thread_steps_capture [of lib neon t _ m m1] by metis
next
  case (encoder t m m1 n m2)
  then show ?case using cm_reachable.step [OF encoder.prems cm_step.encoder] thread_steps_capture [of lib neon t _ m m1] by metis
qed simp

lemma capture_initialize_phase:
  assumes "capture_good W m" "capture_phase m = Down" "CaptureModule_initialize cfg m = Some (m', ok)"
  shows "capture_good W m' \<and> capture_phase m' = (if ok then Ready else Down)"
proof -
  have m: "cm_state m \<noteq> kRunning" "cm_reachable (su_lib W) (su_neon W) m" "\<not> cm_stopping m"
    using assms(1,2) by (auto simp: capture_good_def capture_phase_def split: if_splits)
  have r: "cm_reachable (su_lib W) (su_neon W) m'"
    by (rule cm_reachable.step [OF m(2) cm_step.initialize [OF m(3,1) assms(3)]])
  obtain c where c: "Capture_initialize cfg (cm_capture m) = Some (c, ok)"
      "m' = m\<lparr>cm_capture := c, cm_state := (if ok then kInitialized else kFailed)\<rparr>"
    using assms(3) by (auto simp: CaptureModule_initialize_def bind_eq_Some_conv Let_def split: if_splits)
  obtain c0 where c0: "Capture_shutdown (cm_capture m) = Some c0" "ca_device c0 = None"
    using c(1) by (auto simp: Capture_initialize_def Capture_shutdown_def bind_eq_Some_conv Let_def split: option.splits)
  have "ca_device c \<noteq> None \<longleftrightarrow> ok"
  proof (cases "ResolveCaptureBackendSelection (ac_capture cfg)")
    case (Inr selection)
    then show ?thesis using c(1) c0 by (auto simp: Capture_initialize_def Let_def split: if_splits)
  qed (use c(1) c0 in \<open>auto simp: Capture_initialize_def\<close>)
  then show ?thesis using r m(3) c(2) by (auto simp: capture_good_def capture_phase_def)
qed

lemma capture_start_phase:
  assumes "capture_good W m" "capture_phase m = Ready" "CaptureModule_start (su_lib W) a m = Some (m', ok)"
  shows "capture_good W m' \<and> capture_phase m' = (if ok then Up else Ready)"
proof -
  have m: "cm_state m \<noteq> kRunning" "ca_device (cm_capture m) \<noteq> None" "cm_reachable (su_lib W) (su_neon W) m" "\<not> cm_stopping m"
    using assms(1,2) by (auto simp: capture_good_def capture_phase_def split: if_splits)
  have r: "cm_reachable (su_lib W) (su_neon W) m'"
    by (rule cm_reachable.step [OF m(3) cm_step.start [OF m(4,1) assms(3)]])
  obtain c err where c: "Capture_start (su_lib W) a (cm_capture m) = Some (c, err)"
    using assms(3) by (auto simp: CaptureModule_start_def bind_eq_Some_conv)
  have d: "ca_device c \<noteq> None"
  proof (cases "cp_enabled (ca_config (cm_capture m))")
    case True
    obtain dev where dev: "ca_device (cm_capture m) = Some dev" using m(2) by blast
    obtain dev' outcome where "start_device (device_Open a) (device_Start (su_lib W) a (ca_config (cm_capture m)) (ca_codec (cm_capture m)))
        device_Close dev = Some (dev', outcome)"
      using c True dev by (auto simp: Capture_start_def bind_eq_Some_conv)
    then show ?thesis using c True dev by (cases outcome) (auto simp: Capture_start_def Let_def)
  qed (use c m(2) in \<open>auto simp: Capture_start_def\<close>)
  have "cm_capture m' = c \<and> cm_stopping m' = cm_stopping m \<and> cm_state m' = (if ok then kRunning else kFailed)"
    using assms(3) c by (auto simp: CaptureModule_start_def Let_def split: if_splits)
  then show ?thesis using r m(4) d by (simp add: capture_good_def capture_phase_def)
qed

lemma capture_stop_phase:
  assumes "transport_life (sv_transport sv)" "capture_good W (sv_capture sv)"
    "capture_module_stop W sv = Some sv'"
  shows "transport_life (sv_transport sv') \<and> transport_phase (sv_transport sv') = transport_phase (sv_transport sv) \<and>
    capture_good W (sv_capture sv') \<and>
    capture_phase (sv_capture sv') = (if capture_phase (sv_capture sv) = Up then Ready else capture_phase (sv_capture sv)) \<and>
    (capture_phase (sv_capture sv) \<noteq> Up \<longrightarrow> sv' = sv)"
proof (cases "cm_state (sv_capture sv) = kRunning")
  case False
  then have "sv' = sv" "capture_phase (sv_capture sv) \<noteq> Up"
    using assms(2,3) by (auto simp: capture_module_stop_def stop_request_def capture_good_def capture_phase_def)
  then show ?thesis using assms by simp
next
  case True
  let ?m = "stop_request (sv_capture sv)"
  have req: "?m = (sv_capture sv)\<lparr>cm_running := False, cm_stopping := True\<rparr>" using True by (simp add: stop_request_def)
  obtain joined stopped where j: "join_threads (su_lib W) (su_neon W) (su_schedule W) ?m = Some joined" "stop_joined joined = Some stopped"
      "sv' = (hand_over joined sv)\<lparr>sv_capture := stopped\<rparr>"
    using assms(3) req by (auto simp: capture_module_stop_def bind_eq_Some_conv)
  have good: "cm_reachable (su_lib W) (su_neon W) (sv_capture sv)" "\<not> cm_stopping (sv_capture sv)" "ca_device (cm_capture (sv_capture sv)) \<noteq> None"
    using assms(2) True by (auto simp: capture_good_def)
  have rm: "cm_reachable (su_lib W) (su_neon W) ?m" by (rule cm_reachable.step [OF good(1) cm_step.request [OF good(2)]])
  obtain n where n: "thread_run (su_lib W) (su_neon W) n ?m joined" "joinable joined"
    using join_threads_run [OF j(1)] by blast
  note run = thread_run_capture [OF n(1) rm]
  have st: "cm_stopping joined" "ca_device (cm_capture joined) \<noteq> None" using run req good(3) by simp_all
  have rs: "cm_reachable (su_lib W) (su_neon W) stopped"
    using run cm_reachable.step cm_step.join [OF st(1) n(2) j(2)] by blast
  have "ca_device (cm_capture stopped) \<noteq> None \<and> cm_state stopped = kStopped \<and> \<not> cm_stopping stopped"
    using j(2) st(2) by (auto simp: stop_joined_def Capture_stop_def bind_eq_Some_conv split: option.splits)
  then show ?thesis
    using rs True broadcasts_phase [OF assms(1)] by (auto simp: j(3) capture_good_def capture_phase_def hand_over_def Let_def)
qed

lemma capture_shutdown_phase:
  assumes "capture_good W m" "capture_phase m \<noteq> Up" "shutdown_stopped m = Some m'"
  shows "capture_good W m' \<and> capture_phase m' = Down"
proof -
  have m: "cm_state m \<noteq> kRunning" "cm_reachable (su_lib W) (su_neon W) m" "\<not> cm_stopping m"
    using assms(1,2) by (auto simp: capture_good_def capture_phase_def split: if_splits)
  have "cm_reachable (su_lib W) (su_neon W) m'"
    by (rule cm_reachable.step [OF m(2) cm_step.shutdown [OF m(3,1) assms(3)]])
  moreover have "ca_device (cm_capture m') = None \<and> cm_state m' = kShutdown \<and> cm_stopping m' = cm_stopping m"
    using assms(3) by (auto simp: shutdown_stopped_def Capture_shutdown_def bind_eq_Some_conv Let_def split: option.splits)
  ultimately show ?thesis using m(3) by (simp add: capture_good_def capture_phase_def)
qed

interpretation server: module_contract "server_modules W" module_phase "server_good W" for W :: "'h surroundings"
proof
  fix s s' :: "'h server option" and i cfg ok
  assume s: "server_good W s" "module_phase Down i s" "im_initialize (server_modules W) i cfg s = (s', ok)"
  then show "server_good W s' \<and> module_phase (if ok then Ready else Down) i s' \<and> (\<forall>j p. j \<noteq> i \<longrightarrow> module_phase p j s \<longrightarrow> module_phase p j s')"
  proof (cases s)
    case (Some sv)
    show ?thesis
    proof (cases i)
      case TransportId
      obtain t good where t: "Transport_initialize (su_worlds W) cfg (sv_transport sv) = (t, good)" by fastforce
      then have "transport_life t" using transport_life.initialized [of "sv_transport sv" "su_worlds W" cfg] s(1) Some by simp
      then show ?thesis using s Some TransportId t Transport_initialize_backend [OF t] by (auto simp: module_initialize_def)
    next
      case CaptureId
      show ?thesis
      proof (cases "CaptureModule_initialize cfg (sv_capture sv)")
        case (Some r)
        then obtain m good where m: "CaptureModule_initialize cfg (sv_capture sv) = Some (m, good)" by (cases r) simp
        show ?thesis
          using s \<open>s = Some sv\<close> CaptureId m capture_initialize_phase [OF _ _ m, of W] by (auto simp: module_initialize_def)
      qed (use s Some CaptureId in \<open>auto simp: module_initialize_def\<close>)
    qed
  qed (auto simp: module_initialize_def)
next
  fix s s' :: "'h server option" and i ok
  assume s: "server_good W s" "module_phase Ready i s" "im_start (server_modules W) i s = (s', ok)"
  then show "server_good W s' \<and> module_phase (if ok then Up else Ready) i s' \<and> (\<forall>j p. j \<noteq> i \<longrightarrow> module_phase p j s \<longrightarrow> module_phase p j s')"
  proof (cases s)
    case (Some sv)
    show ?thesis
    proof (cases i)
      case TransportId
      obtain t good where t: "Transport_start (su_net W) (sv_transport sv) = (t, good)" by fastforce
      show ?thesis using s Some TransportId t Transport_start_phase [OF _ _ t] by (auto simp: module_start_def)
    next
      case CaptureId
      show ?thesis
      proof (cases "CaptureModule_start (su_lib W) (su_v4l2 W) (sv_capture sv)")
        case (Some r)
        then obtain m good where m: "CaptureModule_start (su_lib W) (su_v4l2 W) (sv_capture sv) = Some (m, good)" by (cases r) simp
        show ?thesis
          using s \<open>s = Some sv\<close> CaptureId m capture_start_phase [OF _ _ m] by (auto simp: module_start_def)
      qed (use s Some CaptureId in \<open>auto simp: module_start_def\<close>)
    qed
  qed (auto simp: module_start_def)
next
  fix s :: "'h server option" and i
  assume s: "server_good W s" "module_phase Up i s"
  then show "server_good W (im_stop (server_modules W) i s) \<and> module_phase Ready i (im_stop (server_modules W) i s) \<and>
      (\<forall>j p. j \<noteq> i \<longrightarrow> module_phase p j s \<longrightarrow> module_phase p j (im_stop (server_modules W) i s))"
  proof (cases s)
    case (Some sv)
    show ?thesis
    proof (cases i)
      case TransportId
      then show ?thesis
        using s Some transport_life.stopped [of "sv_transport sv"] Transport_stop_phase [of "sv_transport sv"]
        by (auto simp: module_stop_def)
    next
      case CaptureId
      show ?thesis
      proof (cases "capture_module_stop W sv")
        case (Some sv')
        show ?thesis
          using s \<open>s = Some sv\<close> CaptureId Some capture_stop_phase [OF _ _ Some] by (auto simp: module_stop_def)
      qed (use s Some CaptureId in \<open>auto simp: module_stop_def\<close>)
    qed
  qed (auto simp: module_stop_def)
next
  fix s :: "'h server option" and i
  assume s: "server_good W s" "module_phase Ready i s"
  then show "server_good W (im_shutdown (server_modules W) i s) \<and> module_phase Down i (im_shutdown (server_modules W) i s) \<and>
      (\<forall>j p. j \<noteq> i \<longrightarrow> module_phase p j s \<longrightarrow> module_phase p j (im_shutdown (server_modules W) i s))"
  proof (cases s)
    case (Some sv)
    show ?thesis
    proof (cases i)
      case TransportId
      then show ?thesis
        using s Some transport_life.shut_down [of "sv_transport sv"]
        by (auto simp: module_shutdown_def transport_phase_def Transport_shutdown_def transport_ops)
    next
      case CaptureId
      have up: "capture_module_stop W sv = Some sv' \<Longrightarrow> sv' = sv" for sv'
        using s Some CaptureId capture_stop_phase [of sv W sv'] by auto
      show ?thesis
      proof (cases "capture_module_stop W sv \<bind> (\<lambda>sv. shutdown_stopped (sv_capture sv))")
        case None
        then show ?thesis using s \<open>s = Some sv\<close> CaptureId by (cases "capture_module_stop W sv") (auto simp: module_shutdown_def)
      next
        case (Some m)
        then have m: "capture_module_stop W sv = Some sv" "shutdown_stopped (sv_capture sv) = Some m"
          using up by (auto simp: bind_eq_Some_conv)
        show ?thesis
          using s \<open>s = Some sv\<close> CaptureId m capture_shutdown_phase [OF _ _ m(2), of W] by (auto simp: module_shutdown_def)
      qed
    qed
  qed (auto simp: module_shutdown_def)
qed

subsection \<open>Every life of the server\<close>

definition handler_is :: "nat option \<Rightarrow> 'h server option \<Rightarrow> bool" where
  "handler_is h s \<longleftrightarrow> (case s of None \<Rightarrow> True | Some sv \<Rightarrow> cm_frame_handler (sv_capture sv) = h)"

lemma capture_module_stop_handler:
  assumes "capture_module_stop W sv = Some sv'"
  shows "cm_frame_handler (sv_capture sv') = cm_frame_handler (sv_capture sv)"
proof (cases "cm_stopping (stop_request (sv_capture sv))")
  case True
  obtain joined stopped where j: "join_threads (su_lib W) (su_neon W) (su_schedule W) (stop_request (sv_capture sv)) = Some joined"
      "stop_joined joined = Some stopped" "sv' = (hand_over joined sv)\<lparr>sv_capture := stopped\<rparr>"
    using assms True by (auto simp: capture_module_stop_def bind_eq_Some_conv Let_def)
  obtain n where n: "thread_run (su_lib W) (su_neon W) n (stop_request (sv_capture sv)) joined" using join_threads_run [OF j(1)] by blast
  have "cm_frame_handler joined = cm_frame_handler (stop_request (sv_capture sv))"
    using n by (induction rule: thread_run.induct) (use thread_steps_capture in metis)+
  then show ?thesis using j(2,3) by (auto simp: stop_joined_def stop_request_def bind_eq_Some_conv)
qed (use assms in \<open>auto simp: capture_module_stop_def stop_request_def Let_def split: if_splits\<close>)

lemma modules_keep_handler: "keeps (server_modules W) (handler_is h)"
proof -
  have shut: "shutdown_stopped m = Some m' \<Longrightarrow> cm_frame_handler m' = cm_frame_handler m" for m m' :: "'a CaptureModule"
    by (auto simp: shutdown_stopped_def bind_eq_Some_conv)
  have init: "CaptureModule_initialize cfg m = Some (m', ok) \<Longrightarrow> cm_frame_handler m' = cm_frame_handler m"
    for cfg ok and m m' :: "'a CaptureModule"
    by (auto simp: CaptureModule_initialize_def bind_eq_Some_conv Let_def split: if_splits)
  have start: "CaptureModule_start lib a m = Some (m', ok) \<Longrightarrow> cm_frame_handler m' = cm_frame_handler m"
    for lib a ok and m m' :: "'a CaptureModule"
    by (auto simp: CaptureModule_start_def bind_eq_Some_conv Let_def split: if_splits)
  have "handler_is h (fst (module_initialize W i cfg s)) \<and> handler_is h (fst (module_start W i s)) \<and>
      handler_is h (module_stop W i s) \<and> handler_is h (module_shutdown W i s)" if "handler_is h s" for i cfg s
  proof (cases s)
    case (Some sv)
    show ?thesis
      using that Some capture_module_stop_handler [of W sv]
      by (cases i) (auto simp: handler_is_def module_initialize_def module_start_def module_stop_def module_shutdown_def split_beta
          bind_eq_Some_conv dest!: shut init start split: option.split bind_splits)
  qed (simp add: handler_is_def module_initialize_def module_start_def module_stop_def module_shutdown_def)
  then show ?thesis by (simp add: keeps_def)
qed

text \<open>The bootstrap initialised, started and stopped at will, while the capture threads and the back end's own
  thread go on.\<close>

inductive server_life :: "'h surroundings \<Rightarrow> 'h AppBootstrap \<Rightarrow> bool" for W where
  created: "server_life W (AppBootstrap_new config)"
| initialized: "server_life W b \<Longrightarrow> server_life W (fst (AppBootstrap_Initialize W b))"
| started: "server_life W b \<Longrightarrow> server_life W (fst (AppBootstrap_Start W b))"
| stopped: "server_life W b \<Longrightarrow> server_life W (AppBootstrap_Stop W b)"
| worker: "server_life W b \<Longrightarrow> ab_modules b = Some sv \<Longrightarrow>
    worker_step (su_lib W) (su_neon W) t (cm_worker_thread (sv_capture sv)) (sv_capture sv) = Some m \<Longrightarrow>
    server_life W (b\<lparr>ab_modules := Some (hand_over m sv)\<rparr>)"
| encoder: "server_life W b \<Longrightarrow> ab_modules b = Some sv \<Longrightarrow>
    encode_step (su_lib W) (su_neon W) t (cm_encode_thread (sv_capture sv)) (sv_capture sv) = Some m \<Longrightarrow>
    server_life W (b\<lparr>ab_modules := Some (hand_over m sv)\<rparr>)"
| network: "server_life W b \<Longrightarrow> ab_modules b = Some sv \<Longrightarrow>
    server_life W (b\<lparr>ab_modules := Some (sv\<lparr>sv_transport := (sv_transport sv)
      \<lparr>tr_backend := map_option (backend_thread events) (tr_backend (sv_transport sv))\<rparr>\<rparr>)\<rparr>)"

definition bootstrap_inv :: "'h surroundings \<Rightarrow> 'h AppBootstrap \<Rightarrow> bool" where
  "bootstrap_inv W b \<longleftrightarrow> server.app_inv W (ab_application b, ab_modules b) \<and>
     ap_modules (ab_application b) = (if ab_created b then [TransportId, CaptureId] else []) \<and>
     (\<not> ab_created b \<longrightarrow> ab_modules b = new_modules \<and> \<not> ap_initialized (ab_application b)) \<and>
     ab_started b = ap_running (ab_application b) \<and>
     handler_is (if ab_started b then Some broadcast_handler else None) (ab_modules b)"

lemma new_modules_good [simp]: "server_good W (new_modules :: 'h server option)" "module_phase Down i (new_modules :: 'h server option)"
    "handler_is None (new_modules :: 'h server option)"
proof -
  have s: "transport_life (Transport_new r)" for r by (rule transport_life.created)
  have m: "cm_reachable (su_lib W) (su_neon W) CaptureModule_new" by (rule cm_reachable.new)
  show "server_good W (new_modules :: 'h server option)" "module_phase Down i (new_modules :: 'h server option)"
    "handler_is None (new_modules :: 'h server option)"
    using s m by (cases i; simp add: new_modules_def capture_good_def CaptureModule_new_def transport_phase_def capture_phase_def
        Transport_new_def transport_ops Capture_new_def handler_is_def)+
qed

lemma bootstrap_inv_new: "bootstrap_inv W (AppBootstrap_new config)"
  using new_modules_good
  by (simp add: bootstrap_inv_def AppBootstrap_new_def Application_new_def server.app_inv_def)

lemma bootstrap_inv_Initialize:
  assumes "bootstrap_inv W b" "AppBootstrap_Initialize W b = (b', ok)"
  shows "bootstrap_inv W b' \<and> ab_created b' \<and> ab_started b' = ab_started b"
proof (cases "ab_created b")
  case True
  then show ?thesis using assms by (simp add: AppBootstrap_Initialize_def)
next
  case False
  let ?a = "RegisterModule CaptureId (RegisterModule TransportId (ab_application b))"
  have b: "ap_modules (ab_application b) = []" "\<not> ap_initialized (ab_application b)" "\<not> ap_running (ab_application b)" "\<not> ab_started b"
    using assms(1) False by (auto simp: bootstrap_inv_def server.app_inv_def)
  have inv: "server.app_inv W (?a, new_modules)"
    using b new_modules_good by (simp add: server.app_inv_def RegisterModule_def)
  obtain a s where r: "Application_Initialize (server_modules W) (?a, new_modules) = ((a, s), ok)"
      "b' = b\<lparr>ab_created := True, ab_application := a, ab_modules := s\<rparr>"
    using assms(2) False by (auto simp: AppBootstrap_Initialize_def Let_def split: prod.splits)
  note i = server.app_inv_Initialize [OF inv r(1)]
  have "handler_is None s"
    using Application_keeps(1) [OF modules_keep_handler, of None "(?a, new_modules)" W] new_modules_good(3) r(1) by simp
  moreover have "\<not> ap_running a" using r(1) b(3) by (auto simp: Application_Initialize_def RegisterModule_def split: prod.splits if_splits)
  ultimately show ?thesis using i b r(2) by (simp add: bootstrap_inv_def RegisterModule_def)
qed

text \<open>Exchanging the handler touches nothing else.\<close>

lemma set_handler_inv:
  assumes "server.app_inv W (a, s)"
  shows "server.app_inv W (a, map_option (\<lambda>sv. sv\<lparr>sv_capture := SetFrameHandler h (sv_capture sv)\<rparr>) s)"
proof (cases s)
  case (Some sv)
  have "capture_good W m \<Longrightarrow> capture_good W (SetFrameHandler h m)" for m
    using cm_reachable.step [OF _ cm_step.set_handler [of _ _ m h]] by (auto simp: capture_good_def SetFrameHandler_def)
  moreover have "capture_phase (SetFrameHandler h m) = capture_phase m" for m :: "'a CaptureModule"
    by (simp add: capture_phase_def SetFrameHandler_def)
  ultimately show ?thesis
    using assms Some by (auto simp: server.app_inv_def server.all_in_def module_phase_def split: module_id.splits)
qed (use assms in simp)

lemma handler_is_set [simp]: "handler_is h (map_option (\<lambda>sv. sv\<lparr>sv_capture := SetFrameHandler h (sv_capture sv)\<rparr>) s)"
  by (simp add: handler_is_def SetFrameHandler_def split: option.split)

lemma bootstrap_inv_Start:
  assumes "bootstrap_inv W b"
  shows "bootstrap_inv W (fst (AppBootstrap_Start W b))"
proof -
  obtain b1 ok where b1: "AppBootstrap_Initialize W b = (b1, ok)" by fastforce
  note i = bootstrap_inv_Initialize [OF assms b1]
  show ?thesis
  proof (cases "ok \<and> \<not> ab_started b1")
    case True
    let ?s = "map_option (\<lambda>sv. sv\<lparr>sv_capture := SetFrameHandler (Some broadcast_handler) (sv_capture sv)\<rparr>) (ab_modules b1)"
    obtain app started where app: "Application_Start (server_modules W) (ab_application b1, ?s) = (app, started)" by fastforce
    obtain a s where "app = (a, s)" by fastforce
    with app have r: "Application_Start (server_modules W) (ab_application b1, ?s) = ((a, s), started)" by simp
    have inv: "server.app_inv W (ab_application b1, ?s)"
      using set_handler_inv [of W "ab_application b1" "ab_modules b1"] i by (simp add: bootstrap_inv_def)
    note n = server.app_inv_Start [OF inv r]
    have h: "handler_is (Some broadcast_handler) s"
      using Application_keeps(2) [OF modules_keep_handler, of "Some broadcast_handler" "(ab_application b1, ?s)" W] r by simp
    have e: "fst (AppBootstrap_Start W b) =
        (let b2 = b1\<lparr>ab_application := a, ab_modules := s, ab_started := started\<rparr> in if started then b2 else UnbindStreamingPipeline b2)"
      using b1 True r i by (simp add: AppBootstrap_Start_def BindStreamingPipeline_def set_handler_def Let_def)
    show ?thesis
      using n h i set_handler_inv [of W a s None] handler_is_set [of None s]
      by (simp add: e Let_def bootstrap_inv_def UnbindStreamingPipeline_def set_handler_def)
  next
    case False
    then show ?thesis using i b1 by (auto simp: AppBootstrap_Start_def split: bool.splits)
  qed
qed

lemma bootstrap_inv_Stop:
  assumes "bootstrap_inv W b"
  shows "bootstrap_inv W (AppBootstrap_Stop W b) \<and> \<not> ab_started (AppBootstrap_Stop W b)"
proof -
  let ?s = "if ab_created b then map_option (\<lambda>sv. sv\<lparr>sv_capture := SetFrameHandler None (sv_capture sv)\<rparr>) (ab_modules b) else ab_modules b"
  have inv: "server.app_inv W (ab_application b, ?s)"
    using set_handler_inv [of W "ab_application b" "ab_modules b" None] assms by (cases "ab_created b") (auto simp: bootstrap_inv_def)
  have h: "handler_is None ?s" using assms handler_is_set [of None "ab_modules b"] by (cases "ab_created b") (auto simp: bootstrap_inv_def)
  obtain a1 s1 where r1: "Application_Stop (server_modules W) (ab_application b, ?s) = (a1, s1)" by fastforce
  note n1 = server.app_inv_Stop [OF inv, unfolded r1]
  have h1: "handler_is None s1"
    using Application_keeps(3) [OF modules_keep_handler, of None "(ab_application b, ?s)" W] h r1 by simp
  obtain a2 s2 where r2: "Application_Shutdown (server_modules W) (a1, s1) = (a2, s2)" by fastforce
  have n2: "server.app_inv W (a2, s2) \<and> \<not> ap_running a2 \<and> \<not> ap_initialized a2 \<and> ap_modules a2 = ap_modules (ab_application b)"
    using server.app_inv_Shutdown [OF conjunct1 [OF n1] r2] n1 by simp
  have h2: "handler_is None s2"
    using Application_keeps(4) [OF modules_keep_handler, of None "(a1, s1)" W] h1 r2 by simp
  have e: "AppBootstrap_Stop W b = b\<lparr>ab_modules := s2, ab_application := a2, ab_started := False\<rparr>"
    using r1 r2 by (cases "ab_created b") (simp_all add: AppBootstrap_Stop_def UnbindStreamingPipeline_def set_handler_def Let_def)
  have "s2 = new_modules" if "\<not> ab_created b"
    using that assms r1 r2 by (auto simp: bootstrap_inv_def server.app_inv_def Application_Stop_def Application_Shutdown_def)
  then show ?thesis using n2 h2 assms by (simp add: e bootstrap_inv_def)
qed

lemma bootstrap_inv_activity:
  assumes "bootstrap_inv W b" "ab_modules b = Some sv" "transport_life t" "transport_phase t = transport_phase (sv_transport sv)"
    and "capture_good W m" "capture_phase m = capture_phase (sv_capture sv)" "cm_frame_handler m = cm_frame_handler (sv_capture sv)"
    and "ab_created b"
  shows "bootstrap_inv W (b\<lparr>ab_modules := Some (sv\<lparr>sv_transport := t, sv_capture := m\<rparr>)\<rparr>)"
proof -
  have phases: "module_phase p i (Some (sv\<lparr>sv_transport := t, sv_capture := m\<rparr>)) = module_phase p i (Some sv)" for p i
    using assms(4,6) by (cases i) simp_all
  have "server.app_inv W (ab_application b, Some (sv\<lparr>sv_transport := t, sv_capture := m\<rparr>))"
    using assms(1-3,5) by (auto simp: bootstrap_inv_def server.app_inv_def server.all_in_def phases simp del: module_phase_simps)
  then show ?thesis using assms(1,2,7,8) by (simp add: bootstrap_inv_def handler_is_def)
qed

lemma new_modules_idle:
  "new_modules = Some sv \<Longrightarrow> cm_worker_thread (sv_capture sv) = WNone \<and> cm_encode_thread (sv_capture sv) = ENone \<and>
   tr_backend (sv_transport sv) = None"
  by (auto simp: new_modules_def CaptureModule_new_def Transport_new_def)

lemma hand_over_inv:
  assumes "bootstrap_inv W b" "ab_modules b = Some sv" "ab_created b"
    and step: "cm_step (su_lib W) (su_neon W) (sv_capture sv) m"
    and same: "cm_state m = cm_state (sv_capture sv) \<and> cm_frame_handler m = cm_frame_handler (sv_capture sv) \<and>
      cm_stopping m = cm_stopping (sv_capture sv) \<and> (ca_device (cm_capture m) = None \<longleftrightarrow> ca_device (cm_capture (sv_capture sv)) = None)"
  shows "bootstrap_inv W (b\<lparr>ab_modules := Some (hand_over m sv)\<rparr>)"
proof -
  have good: "transport_life (sv_transport sv)" "capture_good W (sv_capture sv)"
    using assms(1,2) by (auto simp: bootstrap_inv_def server.app_inv_def)
  define t where "t = fold (\<lambda>d. Transport_Broadcast (Some (snd d))) (drop (length (cm_delivered (sv_capture sv))) (cm_delivered m)) (sv_transport sv)"
  have h: "hand_over m sv = sv\<lparr>sv_transport := t, sv_capture := m\<rparr>" by (simp add: hand_over_def t_def Let_def)
  have "capture_good W m"
    using good(2) same cm_reachable.step [OF _ step] by (auto simp: capture_good_def)
  moreover have "capture_phase m = capture_phase (sv_capture sv)" using same by (simp add: capture_phase_def)
  ultimately show ?thesis
    unfolding h using same broadcasts_phase [OF good(1)] by (intro bootstrap_inv_activity assms(1-3)) (auto simp: t_def)
qed

lemma server_life_inv: "server_life W b \<Longrightarrow> bootstrap_inv W b"
proof (induction rule: server_life.induct)
  case (created config)
  show ?case by (rule bootstrap_inv_new)
next
  case (initialized b)
  then show ?case using bootstrap_inv_Initialize [of W b] by (metis surj_pair fst_conv)
next
  case (started b)
  show ?case by (rule bootstrap_inv_Start [OF started.IH])
next
  case (stopped b)
  then show ?case using bootstrap_inv_Stop by blast
next
  case (worker b sv t m)
  have c: "ab_created b"
    using worker new_modules_idle [of sv] by (cases "ab_created b") (auto simp: bootstrap_inv_def)
  show ?case
    by (rule hand_over_inv [OF worker.IH worker.hyps(2) c cm_step.worker [OF worker.hyps(3)]
          thread_steps_capture [OF disjI1 [OF worker.hyps(3)]]])
next
  case (encoder b sv t m)
  have c: "ab_created b"
    using encoder new_modules_idle [of sv] by (cases "ab_created b") (auto simp: bootstrap_inv_def)
  show ?case
    by (rule hand_over_inv [OF encoder.IH encoder.hyps(2) c cm_step.encoder [OF encoder.hyps(3)]
          thread_steps_capture [OF disjI2 [OF encoder.hyps(3)]]])
next
  case (network b sv events)
  show ?case
  proof (cases "ab_created b")
    case False
    then have none: "tr_backend (sv_transport sv) = None" using network new_modules_idle [of sv] by (auto simp: bootstrap_inv_def)
    have eq: "b\<lparr>ab_modules := Some (sv\<lparr>sv_transport := (sv_transport sv)
        \<lparr>tr_backend := map_option (backend_thread events) (tr_backend (sv_transport sv))\<rparr>\<rparr>)\<rparr> = b"
      using network none by (cases b; cases sv; cases "sv_transport sv") simp
    show ?thesis unfolding eq by (rule network.IH)
  next
    case True
    have good: "transport_life (sv_transport sv)" "capture_good W (sv_capture sv)"
      using network by (auto simp: bootstrap_inv_def server.app_inv_def)
    let ?t = "(sv_transport sv)\<lparr>tr_backend := map_option (backend_thread events) (tr_backend (sv_transport sv))\<rparr>"
    have "transport_phase ?t = transport_phase (sv_transport sv)"
      using backend.threads [of _ events] transport_life_fine [OF good(1)]
      by (cases "tr_backend (sv_transport sv)") (simp_all add: transport_phase_def transport_ops)
    then show ?thesis
      using bootstrap_inv_activity [OF network.IH network.hyps(2) transport_life.thread [OF good(1)] _ good(2) refl refl True] by simp
  qed
qed

lemma bootstrap_inv_modules:
  assumes "bootstrap_inv W b" "ab_modules b = Some sv"
  shows "transport_life (sv_transport sv)" "cm_reachable (su_lib W) (su_neon W) (sv_capture sv)"
    "cm_frame_handler (sv_capture sv) = (if ab_started b then Some broadcast_handler else None)"
    "module_phase (if ab_started b then Up else if ap_initialized (ab_application b) then Ready else Down) i (Some sv)"
proof -
  show "transport_life (sv_transport sv)" "cm_reachable (su_lib W) (su_neon W) (sv_capture sv)"
    "cm_frame_handler (sv_capture sv) = (if ab_started b then Some broadcast_handler else None)"
    using assms by (auto simp: bootstrap_inv_def server.app_inv_def capture_good_def handler_is_def)
  show "module_phase (if ab_started b then Up else if ap_initialized (ab_application b) then Ready else Down) i (Some sv)"
  proof (cases "ab_created b")
    case False
    then have "Some sv = new_modules" "\<not> ab_started b" "\<not> ap_initialized (ab_application b)"
      using assms by (auto simp: bootstrap_inv_def server.app_inv_def)
    then show ?thesis by simp
  next
    case True
    then show ?thesis using assms by (cases i) (auto simp: bootstrap_inv_def server.app_inv_def)
  qed
qed

text \<open>What an idle server holds: nothing.\<close>

definition server_idle :: "'h server \<Rightarrow> bool" where
  "server_idle sv \<longleftrightarrow> Transport_releases (sv_transport sv) \<and> cm_worker_thread (sv_capture sv) = WNone \<and>
     cm_encode_thread (sv_capture sv) = ENone \<and>
     (case ca_device (cm_capture (sv_capture sv)) of None \<Rightarrow> True | Some dev \<Rightarrow> device_closed dev)"

lemma idle_releases:
  assumes "bootstrap_inv W b" "ab_modules b = Some sv" "\<not> ab_started b"
  shows "server_idle sv"
proof -
  note facts = bootstrap_inv_modules [OF assms(1,2)]
  have "transport_phase (sv_transport sv) \<noteq> Up" "capture_phase (sv_capture sv) \<noteq> Up"
    using facts(4) [of TransportId] facts(4) [of CaptureId] assms(3) by (auto split: if_splits)
  then have idle: "Transport_state (sv_transport sv) \<noteq> kRunning" "cm_state (sv_capture sv) \<noteq> kRunning"
    by (auto simp: transport_phase_def capture_phase_def)
  have m: "module_inv (sv_capture sv)" by (rule cm_reachable_inv [OF facts(2)])
  then have "case ca_device (cm_capture (sv_capture sv)) of None \<Rightarrow> True | Some dev \<Rightarrow> device_closed dev"
    using not_running_threads(3) [OF m idle(2)] by (auto simp: module_inv_defs capture_wf_def split: option.split)
  then show ?thesis
    using transport_life_fine [OF facts(1)] idle(1) not_running_threads [OF m idle(2)]
    by (simp add: transport_fine_def server_idle_def)
qed



subsection \<open>A session\<close>

text \<open>The synthetic camera over TCP: a start, one frame, a stop; and a start whose \<^verbatim>\<open>bind\<close> is refused.\<close>

definition example_surroundings :: "nat surroundings" where
  "example_surroundings = \<lparr>su_worlds = example_worlds, su_net = refused_bind\<lparr>na_bind := True\<rparr>, su_lib = echo_library,
     su_neon = False, su_v4l2 = camera_answers, su_schedule = replicate 5 (True, demo_tick)\<rparr>"

definition example_started :: "nat AppBootstrap" where
  "example_started = fst (AppBootstrap_Start example_surroundings (AppBootstrap_new demo_context))"

definition example_refused :: "nat AppBootstrap" where
  "example_refused = fst (AppBootstrap_Start (example_surroundings\<lparr>su_net := refused_bind\<rparr>) (AppBootstrap_new demo_context))"



end
