(* ===== verification/Video_Decoding.thy ===== *)
theory Video_Decoding
  imports Client_Options
begin

section \<open>The video decoder of the client\<close>

text \<open>
  \<^verbatim>\<open>sclient/src/modules/decoding/software/SoftwareVideoDecoderBackend.cpp\<close>, the decoder on top of
  FFmpeg, and \<^verbatim>\<open>VideoDecoder.cpp\<close>, its facade. FFmpeg is not part of the repository: its
  entry points are the parameter \<open>av_library\<close>, with a codec context of any type \<open>'c\<close> that the
  calls return changed. What the code owes the library is that every \<^verbatim>\<open>AVFrame\<close> it allocates or
  clones is freed or handed out exactly once: the record \<open>AVFrames\<close> counts the frames ever made,
  and lists those not yet freed. Writing into a frame is not visible there, so
  \<^verbatim>\<open>av_frame_unref\<close> has no counterpart.
\<close>

subsection \<open>The library\<close>

datatype AVPixelFormat = AV_PIX_FMT_YUV420P | AV_PIX_FMT_YUVJ420P | AV_PIX_FMT_NV12 | AV_PIX_FMT_other int

record AVFrame =
  avf_width :: int
  avf_height :: int
  avf_format :: AVPixelFormat
  avf_data :: "nat \<Rightarrow> nat"
  avf_linesize :: "nat \<Rightarrow> int"

text \<open>The answers of \<^verbatim>\<open>avcodec_receive_frame\<close>: \<^verbatim>\<open>EAGAIN\<close> or \<^verbatim>\<open>EOF\<close>, another negative
  value, or a frame.\<close>

datatype receive_result = Receive_again | Receive_error int | Receive_output AVFrame

record 'c av_library =
  av_find_decoder :: bool
  av_alloc_context :: "'c option"
  av_open2 :: "'c \<Rightarrow> 'c option"
  av_frame_alloc_ok :: bool
  av_send_packet :: "'c \<Rightarrow> bytes \<Rightarrow> int \<Rightarrow> 'c \<times> int"
  av_receive_frame :: "'c \<Rightarrow> 'c \<times> receive_result"
  av_clone_ok :: "'c \<Rightarrow> bool"
  av_strerror :: "int \<Rightarrow> string"

record AVFrames =
  av_made :: nat
  av_live :: "nat list"

definition av_frame_alloc :: "AVFrames \<Rightarrow> nat \<times> AVFrames" where
  "av_frame_alloc w = (av_made w, w\<lparr>av_made := Suc (av_made w), av_live := av_made w # av_live w\<rparr>)"

definition av_frame_free :: "nat option \<Rightarrow> AVFrames \<Rightarrow> AVFrames" where
  "av_frame_free frame w = (case frame of None \<Rightarrow> w | Some i \<Rightarrow> w\<lparr>av_live := remove1 i (av_live w)\<rparr>)"

subsection \<open>Decoded frames\<close>

datatype DecodedPixelFormat = kUnknown_format | kYuv420p | kNv12

record DecodedFrame =
  df_width :: int
  df_height :: int
  df_pixel_format :: DecodedPixelFormat
  df_data :: "nat list"
  df_linesize :: "int list"
  df_owner :: "nat option"

definition DecodedFrame_default :: DecodedFrame where
  "DecodedFrame_default =
     \<lparr>df_width = 0, df_height = 0, df_pixel_format = kUnknown_format, df_data = replicate 4 0,
      df_linesize = replicate 4 0, df_owner = None\<rparr>"

definition DecodedFrame_empty :: "DecodedFrame \<Rightarrow> bool" where
  "DecodedFrame_empty f \<longleftrightarrow> df_width f \<le> 0 \<or> df_height f \<le> 0 \<or> df_data f ! 0 = 0"

fun ResolveDecodedPixelFormat :: "AVPixelFormat \<Rightarrow> DecodedPixelFormat" where
  "ResolveDecodedPixelFormat AV_PIX_FMT_YUV420P = kYuv420p"
| "ResolveDecodedPixelFormat AV_PIX_FMT_YUVJ420P = kYuv420p"
| "ResolveDecodedPixelFormat AV_PIX_FMT_NV12 = kNv12"
| "ResolveDecodedPixelFormat (AV_PIX_FMT_other _) = kUnknown_format"

definition CopyDecodedFrameView :: "AVFrame \<Rightarrow> DecodedFrame \<Rightarrow> DecodedFrame" where
  "CopyDecodedFrameView source f =
     f\<lparr>df_width := avf_width source, df_height := avf_height source,
       df_pixel_format := ResolveDecodedPixelFormat (avf_format source),
       df_data := map (avf_data source) [0..<length (df_data f)],
       df_linesize := map (avf_linesize source) [0..<length (df_data f)]\<rparr>"

subsection \<open>The software back end\<close>

record 'c SoftwareDecoder =
  sw_codec :: bool
  sw_codec_context :: "'c option"
  sw_decoded_frame :: "nat option"

definition SoftwareDecoder_new :: "'c SoftwareDecoder" where
  "SoftwareDecoder_new = \<lparr>sw_codec = False, sw_codec_context = None, sw_decoded_frame = None\<rparr>"

definition Software_Shutdown :: "'c SoftwareDecoder \<Rightarrow> AVFrames \<Rightarrow> 'c SoftwareDecoder \<times> AVFrames" where
  "Software_Shutdown s w =
     (s\<lparr>sw_decoded_frame := None, sw_codec_context := None, sw_codec := False\<rparr>,
      av_frame_free (sw_decoded_frame s) w)"

definition Software_Initialize ::
  "'c av_library \<Rightarrow> 'c SoftwareDecoder \<Rightarrow> AVFrames \<Rightarrow> 'c SoftwareDecoder \<times> AVFrames \<times> string option" where
  "Software_Initialize lib s w =
     (case Software_Shutdown s w of (s, w) \<Rightarrow>
        let s = s\<lparr>sw_codec := av_find_decoder lib\<rparr> in
        if \<not> sw_codec s then (s, w, Some ''failed to find H.264 decoder'')
        else
          let s = s\<lparr>sw_codec_context := av_alloc_context lib\<rparr> in
          case sw_codec_context s of
            None \<Rightarrow> (s, w, Some ''failed to allocate decoder context'')
          | Some c \<Rightarrow>
              (case av_open2 lib c of
                 None \<Rightarrow> (case Software_Shutdown s w of (s, w) \<Rightarrow> (s, w, Some ''failed to open H.264 decoder''))
               | Some c \<Rightarrow>
                   let s = s\<lparr>sw_codec_context := Some c\<rparr> in
                   if \<not> av_frame_alloc_ok lib then
                     (case Software_Shutdown s w of (s, w) \<Rightarrow> (s, w, Some ''failed to allocate decode frame''))
                   else
                     case av_frame_alloc w of (i, w) \<Rightarrow> (s\<lparr>sw_decoded_frame := Some i\<rparr>, w, None)))"

text \<open>The loop over \<^verbatim>\<open>avcodec_receive_frame\<close>. The library decides how often it runs, so it is a
  partial function: \<open>None\<close> is a loop that never ends. \<open>owned\<close> is the newest clone with the
  contents of its frame. The result is the error text, or the clone the loop ends with.\<close>

partial_function (option) receive_loop ::
  "'c av_library \<Rightarrow> 'c \<Rightarrow> (nat \<times> AVFrame) option \<Rightarrow> AVFrames \<Rightarrow>
   ('c \<times> AVFrames \<times> (string + (nat \<times> AVFrame) option)) option" where
  "receive_loop lib c owned w =
     (case av_receive_frame lib c of
        (c, Receive_again) \<Rightarrow> Some (c, w, Inr owned)
      | (c, Receive_error e) \<Rightarrow> Some (c, w, Inl (''avcodec_receive_frame failed: '' @ av_strerror lib e))
      | (c, Receive_output f) \<Rightarrow>
          if avf_width f \<le> 0 \<or> avf_height f \<le> 0 then receive_loop lib c owned w
          else if \<not> av_clone_ok lib c then
            Some (c, av_frame_free (map_option fst owned) w, Inl ''failed to clone decoded frame'')
          else
            (case av_frame_alloc w of (i, w) \<Rightarrow>
               receive_loop lib c (Some (i, f)) (av_frame_free (map_option fst owned) w)))"

definition Software_Decode ::
  "'c av_library \<Rightarrow> bytes \<Rightarrow> 'c SoftwareDecoder \<Rightarrow> AVFrames \<Rightarrow>
   ('c SoftwareDecoder \<times> AVFrames \<times> (string + DecodedFrame)) option" where
  "Software_Decode lib data s w =
     (case sw_codec_context s of
        None \<Rightarrow> Some (s, w, Inl ''decoder is not initialized'')
      | Some c \<Rightarrow>
          if sw_decoded_frame s = None \<or> data = [] then Some (s, w, Inl ''decoder is not initialized'')
          else
            (case av_send_packet lib c data (long_to_int (int (length data))) of (c, send_result) \<Rightarrow>
               if send_result < 0 then
                 Some (s\<lparr>sw_codec_context := Some c\<rparr>, w,
                       Inl (''avcodec_send_packet failed: '' @ av_strerror lib send_result))
               else
                 map_option
                   (\<lambda>(c, w, r). (s\<lparr>sw_codec_context := Some c\<rparr>, w,
                      case r of
                        Inl e \<Rightarrow> Inl e
                      | Inr None \<Rightarrow> Inl ''decoder did not output a frame''
                      | Inr (Some (i, f)) \<Rightarrow>
                          Inr (CopyDecodedFrameView f (DecodedFrame_default\<lparr>df_owner := Some i\<rparr>))))
                   (receive_loop lib c None w)))"

subsection \<open>The facade\<close>

record 'c VideoDecoder =
  vd_requested_backend :: DecodeBackend
  vd_active_backend :: DecodeBackend
  vd_active_backend_name :: string
  vd_backend :: "'c SoftwareDecoder option"

definition VideoDecoder_new :: "'c VideoDecoder" where
  "VideoDecoder_new =
     \<lparr>vd_requested_backend = kAuto_decode, vd_active_backend = kSoftware,
      vd_active_backend_name = ''software'', vd_backend = None\<rparr>"

fun CreateVideoDecoderBackend :: "DecodeBackend \<Rightarrow> 'c SoftwareDecoder" where
  "CreateVideoDecoderBackend kAuto_decode = SoftwareDecoder_new"
| "CreateVideoDecoderBackend kSoftware = SoftwareDecoder_new"

definition VideoDecoder_Shutdown :: "'c VideoDecoder \<Rightarrow> AVFrames \<Rightarrow> 'c VideoDecoder \<times> AVFrames" where
  "VideoDecoder_Shutdown d w =
     (d\<lparr>vd_backend := None, vd_requested_backend := kAuto_decode, vd_active_backend := kSoftware,
        vd_active_backend_name := ''software''\<rparr>,
      case vd_backend d of None \<Rightarrow> w | Some s \<Rightarrow> snd (Software_Shutdown s w))"

text \<open>A back end that fails to initialise is reset; its destructor shuts it down.\<close>

definition VideoDecoder_Initialize ::
  "'c av_library \<Rightarrow> DecodeBackend \<Rightarrow> 'c VideoDecoder \<Rightarrow> AVFrames \<Rightarrow>
   'c VideoDecoder \<times> AVFrames \<times> string option" where
  "VideoDecoder_Initialize lib requested d w =
     (case VideoDecoder_Shutdown d w of (d, w) \<Rightarrow>
        let d = d\<lparr>vd_requested_backend := requested\<rparr> in
        case Software_Initialize lib (CreateVideoDecoderBackend requested) w of
          (s, w, Some e) \<Rightarrow> (d\<lparr>vd_backend := None\<rparr>, snd (Software_Shutdown s w), Some e)
        | (s, w, None) \<Rightarrow>
            (d\<lparr>vd_backend := Some s, vd_active_backend := kSoftware, vd_active_backend_name := ''software''\<rparr>,
             w, None))"

definition VideoDecoder_Decode ::
  "'c av_library \<Rightarrow> bytes \<Rightarrow> 'c VideoDecoder \<Rightarrow> AVFrames \<Rightarrow>
   ('c VideoDecoder \<times> AVFrames \<times> (string + DecodedFrame)) option" where
  "VideoDecoder_Decode lib data d w =
     (case vd_backend d of
        None \<Rightarrow> Some (d, w, Inl ''decoder is not initialized'')
      | Some s \<Rightarrow> map_option (\<lambda>(s, w, r). (d\<lparr>vd_backend := Some s\<rparr>, w, r)) (Software_Decode lib data s w))"

subsection \<open>The frames of the receive loop\<close>

definition frames_inv :: "AVFrames \<Rightarrow> bool" where
  "frames_inv w \<longleftrightarrow> distinct (av_live w) \<and> (\<forall>i\<in>set (av_live w). i < av_made w)"

text \<open>The documented behaviour of \<^verbatim>\<open>avcodec_receive_frame\<close>: a packet yields finitely many frames.\<close>

definition drains :: "'c av_library \<Rightarrow> ('c \<Rightarrow> nat) \<Rightarrow> bool" where
  "drains lib pending \<longleftrightarrow>
     (\<forall>c c' f. av_receive_frame lib c = (c', Receive_output f) \<longrightarrow> pending c' < pending c)"

text \<open>The frames alive inside the loop: those from before it, and the newest clone.\<close>

definition loop_frames :: "nat list \<Rightarrow> (nat \<times> AVFrame) option \<Rightarrow> AVFrames \<Rightarrow> bool" where
  "loop_frames live owned w \<longleftrightarrow>
     frames_inv w \<and>
     (case owned of None \<Rightarrow> av_live w = live
      | Some (i, f) \<Rightarrow> av_live w = i # live \<and> 0 < avf_width f \<and> 0 < avf_height f)"

definition loop_result ::
  "'c av_library \<Rightarrow> nat list \<Rightarrow> AVFrames \<Rightarrow> string + (nat \<times> AVFrame) option \<Rightarrow> bool" where
  "loop_result lib live w r \<longleftrightarrow>
     (case r of
        Inr owned \<Rightarrow> loop_frames live owned w
      | Inl e \<Rightarrow> frames_inv w \<and>
          (av_live w = live \<or>
           (\<exists>code i. e = ''avcodec_receive_frame failed: '' @ av_strerror lib code \<and> av_live w = i # live)))"

lemma loop_frames_clone:
  assumes "loop_frames live owned w" "0 < avf_width f" "0 < avf_height f" "av_frame_alloc w = (i, w')"
  shows "loop_frames live (Some (i, f)) (av_frame_free (map_option fst owned) w')"
  using assms
  by (cases owned) (auto simp: loop_frames_def frames_inv_def av_frame_alloc_def av_frame_free_def
        less_Suc_eq)

lemma loop_frames_free:
  assumes "loop_frames live owned w"
  shows "frames_inv (av_frame_free (map_option fst owned) w) \<and>
    av_live (av_frame_free (map_option fst owned) w) = live"
  using assms by (cases owned) (auto simp: loop_frames_def frames_inv_def av_frame_free_def)

lemma loop_frames_error:
  assumes "loop_frames live owned w"
  shows "loop_result lib live w (Inl (''avcodec_receive_frame failed: '' @ av_strerror lib e))"
  using assms by (cases owned) (auto simp: loop_frames_def loop_result_def)

lemma receive_loop_result:
  assumes "drains lib pending" "loop_frames live owned w"
  shows "\<exists>c' w' r. receive_loop lib c owned w = Some (c', w', r) \<and> loop_result lib live w' r"
  using assms(2)
proof (induction "pending c" arbitrary: c owned w rule: less_induct)
  case less
  obtain c1 r where r: "av_receive_frame lib c = (c1, r)" by fastforce
  note unfold = receive_loop.simps [of lib c owned w] r
  show ?case
  proof (cases r)
    case Receive_again
    then show ?thesis using less.prems by (auto simp: unfold loop_result_def)
  next
    case (Receive_error e)
    then show ?thesis using loop_frames_error [OF less.prems] by (auto simp: unfold)
  next
    case (Receive_output f)
    then have smaller: "pending c1 < pending c" using assms(1) r by (auto simp: drains_def)
    note IH = less.hyps [OF smaller]
    obtain i w1 where w1: "av_frame_alloc w = (i, w1)" by fastforce
    show ?thesis
    proof (cases "avf_width f \<le> 0 \<or> avf_height f \<le> 0")
      case True
      then show ?thesis using IH [OF less.prems] Receive_output by (simp add: unfold)
    next
      case False
      then have "loop_frames live (Some (i, f)) (av_frame_free (map_option fst owned) w1)"
        using loop_frames_clone [OF less.prems _ _ w1] by simp
      then show ?thesis
        using IH False Receive_output loop_frames_free [OF less.prems] w1
        by (cases "av_clone_ok lib c1") (auto simp: unfold loop_result_def)
    qed
  qed
qed

text \<open>A start-up that fails leaves no frame and no codec context behind.\<close>

lemma Initialize_releases:
  assumes "frames_inv w" "vd_backend d = None" "VideoDecoder_Initialize lib requested d w = (d', w', Some e)"
  shows "vd_backend d' = None \<and> av_live w' = av_live w"
  using assms
  by (cases requested)
     (auto simp: VideoDecoder_Initialize_def VideoDecoder_Shutdown_def Software_Initialize_def
        Software_Shutdown_def SoftwareDecoder_new_def av_frame_free_def av_frame_alloc_def Let_def
        split: prod.splits option.splits if_splits)

text \<open>C30: one call of the decoder, when the library returns finitely many frames per packet: the call
  returns; a decoded picture has a positive size and carries the one frame that was allocated and is
  still alive; after an error no frame of the call is alive, except that a clone is leaked when a later
  \<^verbatim>\<open>avcodec_receive_frame\<close> of the same packet fails.\<close>

theorem Decode_accounts_for_frames:
  assumes "drains lib pending" "frames_inv w"
  shows "\<exists>s' w' r. Software_Decode lib data s w = Some (s', w', r) \<and> frames_inv w' \<and>
    (case r of
       Inr d \<Rightarrow> 0 < df_width d \<and> 0 < df_height d \<and>
                (\<exists>i. df_owner d = Some i \<and> av_live w' = i # av_live w)
     | Inl e \<Rightarrow> av_live w' = av_live w \<or>
                (\<exists>code i. e = ''avcodec_receive_frame failed: '' @ av_strerror lib code \<and>
                          av_live w' = i # av_live w))"
proof (cases "sw_codec_context s")
  case None
  then show ?thesis using assms(2) by (simp add: Software_Decode_def)
next
  case (Some c)
  let ?send = "av_send_packet lib c data (long_to_int (int (length data)))"
  obtain c1 sent where sent: "?send = (c1, sent)" by fastforce
  have "loop_frames (av_live w) None w" using assms(2) by (simp add: loop_frames_def)
  then obtain c2 w2 r where loop: "receive_loop lib c1 None w = Some (c2, w2, r)"
      and r: "loop_result lib (av_live w) w2 r"
    using receive_loop_result [OF assms(1)] by blast
  show ?thesis
    using assms(2) Some sent loop r
    by (cases "sw_decoded_frame s = None \<or> data = []"; cases "sent < 0")
       (auto simp: Software_Decode_def loop_result_def loop_frames_def CopyDecodedFrameView_def
          split: sum.splits option.splits)
qed

text \<open>A library whose context is the list of answers it still has to give.\<close>

definition scripted_library :: "receive_result list av_library" where
  "scripted_library =
     \<lparr>av_find_decoder = True, av_alloc_context = Some [], av_open2 = Some, av_frame_alloc_ok = True,
      av_send_packet = (\<lambda>c data size. (c, 0)),
      av_receive_frame = (\<lambda>c. case c of [] \<Rightarrow> ([], Receive_again) | x # xs \<Rightarrow> (xs, x)),
      av_clone_ok = (\<lambda>c. True), av_strerror = (\<lambda>e. ''error'')\<rparr>"

definition sample_frame :: AVFrame where
  "sample_frame = \<lparr>avf_width = 640, avf_height = 480, avf_format = AV_PIX_FMT_NV12,
     avf_data = (\<lambda>i. i + 1), avf_linesize = (\<lambda>i. 640)\<rparr>"

lemma scripted_library_drains: "drains scripted_library length"
  by (auto simp: drains_def scripted_library_def split: list.splits)

text \<open>The leak: a packet that yields a picture and then an error.\<close>

lemma leak_run:
  "Software_Decode scripted_library [0]
     \<lparr>sw_codec = True, sw_codec_context = Some [Receive_output sample_frame, Receive_error (- 1)],
      sw_decoded_frame = Some 0\<rparr> \<lparr>av_made = 1, av_live = [0]\<rparr> =
   Some (\<lparr>sw_codec = True, sw_codec_context = Some [], sw_decoded_frame = Some 0\<rparr>,
     \<lparr>av_made = 2, av_live = [1, 0]\<rparr>, Inl ''avcodec_receive_frame failed: error'')"
  by (simp add: Software_Decode_def receive_loop.simps scripted_library_def sample_frame_def
      av_frame_alloc_def av_frame_free_def)

theorem Decode_accounts_for_frames_witness:
  "\<exists>s' w' r. Software_Decode scripted_library [0]
       \<lparr>sw_codec = True, sw_codec_context = Some [Receive_output sample_frame, Receive_error (- 1)],
        sw_decoded_frame = Some 0\<rparr> \<lparr>av_made = 1, av_live = [0]\<rparr> = Some (s', w', r) \<and> frames_inv w' \<and>
     r = Inl ''avcodec_receive_frame failed: error'' \<and> av_live w' = [1, 0]"
  using Decode_accounts_for_frames [OF scripted_library_drains, of "\<lparr>av_made = 1, av_live = [0]\<rparr>" "[0]"
      "\<lparr>sw_codec = True, sw_codec_context = Some [Receive_output sample_frame, Receive_error (- 1)],
        sw_decoded_frame = Some 0\<rparr>"]
  unfolding leak_run by (simp add: frames_inv_def)

end
