(* ===== verification/Playback_Stats.thy ===== *)
theory Playback_Stats
  imports Video_Decoding Latency
begin

section \<open>What the client's main thread keeps about the frames it shows\<close>

text \<open>
  The helper \<^verbatim>\<open>RecordLatencyBetween\<close> of \<^verbatim>\<open>sclient/src/app/main.cpp\<close>, the local variables
  of its render loop (record \<open>Playback\<close>), the parts of the loop that change them, and the
  \<^verbatim>\<open>RenderFrameInfo\<close> handed to the renderer (\<^verbatim>\<open>sclient/src/modules/rendering/VideoRenderer.h\<close>).
  The two textual members of the UDP statistics are carried as the mode and the quality they name.
  The log lines are not modelled.
\<close>

definition RecordLatencyBetween :: "u64 \<Rightarrow> u64 \<Rightarrow> LatencyStats \<Rightarrow> LatencyStats" where
  "RecordLatencyBetween start_timestamp_ns end_timestamp_ns st =
     (if start_timestamp_ns = 0 \<or> end_timestamp_ns < start_timestamp_ns then st
      else LatencyStats_Record (real (unat (end_timestamp_ns - start_timestamp_ns)) / 1000000) st)"

record RenderFrameInfo =
  rf_transport :: string
  rf_metadata_expected :: bool
  rf_sender_metadata_available :: bool
  rf_capture_to_render :: LatencySummary
  rf_network_to_receive :: LatencySummary
  rf_receive_to_decode :: LatencySummary
  rf_decode_time :: LatencySummary
  rf_decode_to_render :: LatencySummary
  rf_receive_to_render :: LatencySummary
  rf_udp_jitter_buffer_enabled :: bool
  rf_udp_jitter_buffer_strategy :: string
  rf_udp_jitter_buffer_active_mode :: "JitterBufferMode option"
  rf_udp_jitter_buffer_quality :: "NetworkQuality option"
  rf_udp_jitter_p50_ms :: real
  rf_udp_jitter_p95_ms :: real
  rf_udp_jitter_buffer_current_depth :: nat
  rf_udp_jitter_buffer_max_depth :: nat
  rf_udp_jitter_buffer_target_delay_ms :: real
  rf_udp_jitter_buffer_wait_avg_ms :: real
  rf_udp_jitter_buffer_wait_max_ms :: real
  rf_udp_jitter_buffer_skipped_frames :: u64
  rf_udp_jitter_buffer_dropped_frames :: u64
  rf_frame_width :: int
  rf_frame_height :: int
  rf_receive_queue_depth :: nat
  rf_decode_queue_depth :: nat
  rf_fragment_loss_percent :: real
  rf_connected :: bool
  rf_waiting_for_first_frame :: bool
  rf_udp_nack_enabled :: bool
  rf_udp_fec_enabled :: bool
  rf_udp_nack_requests_sent :: u64
  rf_udp_fec_recovered_frames :: u64

text \<open>The default values, with the assignments from the configuration before the threads start.\<close>

definition RenderFrameInfo_new :: "ClientConfig \<Rightarrow> RenderFrameInfo" where
  "RenderFrameInfo_new config =
     \<lparr>rf_transport = cc_transport config, rf_metadata_expected = cc_expect_metadata config,
      rf_sender_metadata_available = False, rf_capture_to_render = LatencySummary_zero,
      rf_network_to_receive = LatencySummary_zero, rf_receive_to_decode = LatencySummary_zero,
      rf_decode_time = LatencySummary_zero, rf_decode_to_render = LatencySummary_zero,
      rf_receive_to_render = LatencySummary_zero,
      rf_udp_jitter_buffer_enabled = (cc_transport config = ''udp'' \<and> cc_udp_jitter_buffer_enabled config),
      rf_udp_jitter_buffer_strategy = cc_udp_jitter_buffer_strategy config,
      rf_udp_jitter_buffer_active_mode = None, rf_udp_jitter_buffer_quality = None,
      rf_udp_jitter_p50_ms = 0, rf_udp_jitter_p95_ms = 0, rf_udp_jitter_buffer_current_depth = 0,
      rf_udp_jitter_buffer_max_depth = 0, rf_udp_jitter_buffer_target_delay_ms = 0,
      rf_udp_jitter_buffer_wait_avg_ms = 0, rf_udp_jitter_buffer_wait_max_ms = 0,
      rf_udp_jitter_buffer_skipped_frames = 0, rf_udp_jitter_buffer_dropped_frames = 0,
      rf_frame_width = 0, rf_frame_height = 0, rf_receive_queue_depth = 0, rf_decode_queue_depth = 0,
      rf_fragment_loss_percent = 0, rf_connected = True, rf_waiting_for_first_frame = True,
      rf_udp_nack_enabled = (cc_transport config = ''udp'' \<and> cc_udp_nack_enabled config),
      rf_udp_fec_enabled = (cc_transport config = ''udp'' \<and> cc_udp_fec_enabled config),
      rf_udp_nack_requests_sent = 0, rf_udp_fec_recovered_frames = 0\<rparr>"

record Playback =
  pb_frame_info :: RenderFrameInfo
  pb_capture_to_render_stats :: LatencyStats
  pb_network_to_receive_stats :: LatencyStats
  pb_receive_to_decode_stats :: LatencyStats
  pb_decode_time_stats :: LatencyStats
  pb_decode_to_render_stats :: LatencyStats
  pb_receive_to_render_stats :: LatencyStats
  pb_waiting_for_keyframe :: bool
  pb_rendered_frames :: nat
  pb_last_frame_info_refresh_ns :: u64
  pb_paused :: bool
  pb_screenshot_counter :: int

definition Playback_new :: "ClientConfig \<Rightarrow> Playback" where
  "Playback_new config =
     \<lparr>pb_frame_info = RenderFrameInfo_new config,
      pb_capture_to_render_stats = LatencyStats_new 4096 8, pb_network_to_receive_stats = LatencyStats_new 4096 8,
      pb_receive_to_decode_stats = LatencyStats_new 4096 8, pb_decode_time_stats = LatencyStats_new 4096 8,
      pb_decode_to_render_stats = LatencyStats_new 4096 8, pb_receive_to_render_stats = LatencyStats_new 4096 8,
      pb_waiting_for_keyframe = True, pb_rendered_frames = 0, pb_last_frame_info_refresh_ns = 0,
      pb_paused = False, pb_screenshot_counter = 0\<rparr>"

subsection \<open>Keys\<close>

definition reset_latency_stats :: "Playback \<Rightarrow> Playback" where
  "reset_latency_stats pb =
     pb\<lparr>pb_capture_to_render_stats := LatencyStats_Reset (pb_capture_to_render_stats pb),
        pb_network_to_receive_stats := LatencyStats_Reset (pb_network_to_receive_stats pb),
        pb_receive_to_decode_stats := LatencyStats_Reset (pb_receive_to_decode_stats pb),
        pb_decode_time_stats := LatencyStats_Reset (pb_decode_time_stats pb),
        pb_decode_to_render_stats := LatencyStats_Reset (pb_decode_to_render_stats pb),
        pb_receive_to_render_stats := LatencyStats_Reset (pb_receive_to_render_stats pb),
        pb_rendered_frames := 0\<rparr>"

text \<open>27 is escape, 113 and 81 are \<open>q\<close>, 32 is the space bar, 115 and 83 are \<open>s\<close>, 114 and 82 are
  \<open>r\<close>. Full screen is the renderer's own state.\<close>

definition quit_key :: "int \<Rightarrow> bool" where
  "quit_key key \<longleftrightarrow> key = 27 \<or> key = 113 \<or> key = 81"

definition handle_key :: "int \<Rightarrow> Playback \<Rightarrow> Playback" where
  "handle_key key pb =
     (if key = 32 then pb\<lparr>pb_paused := \<not> pb_paused pb\<rparr>
      else if key = 115 \<or> key = 83 then pb\<lparr>pb_screenshot_counter := pb_screenshot_counter pb + 1\<rparr>
      else if key = 114 \<or> key = 82 then reset_latency_stats pb
      else pb)"

subsection \<open>A rendered frame\<close>

record PipelineDecodedFrame =
  pf_frame :: DecodedFrame
  pf_metadata :: FrameDiagnosticMetadata
  pf_sender_metadata_available :: bool
  pf_receive_timestamp_ns :: u64
  pf_decode_start_timestamp_ns :: u64
  pf_decode_end_timestamp_ns :: u64

definition record_latencies :: "ClientConfig \<Rightarrow> PipelineDecodedFrame \<Rightarrow> u64 \<Rightarrow> Playback \<Rightarrow> Playback" where
  "record_latencies config f render_end pb =
     (let pb = pb\<lparr>pb_receive_to_decode_stats :=
                    RecordLatencyBetween (pf_receive_timestamp_ns f) (pf_decode_start_timestamp_ns f)
                      (pb_receive_to_decode_stats pb),
                  pb_decode_time_stats :=
                    RecordLatencyBetween (pf_decode_start_timestamp_ns f) (pf_decode_end_timestamp_ns f)
                      (pb_decode_time_stats pb),
                  pb_decode_to_render_stats :=
                    RecordLatencyBetween (pf_decode_end_timestamp_ns f) render_end (pb_decode_to_render_stats pb),
                  pb_receive_to_render_stats :=
                    RecordLatencyBetween (pf_receive_timestamp_ns f) render_end (pb_receive_to_render_stats pb)\<rparr>
      in if cc_expect_metadata config \<and> pf_sender_metadata_available f then
           pb\<lparr>pb_network_to_receive_stats :=
                RecordLatencyBetween (md_transport_send_timestamp_ns (pf_metadata f)) (pf_receive_timestamp_ns f)
                  (pb_network_to_receive_stats pb),
              pb_capture_to_render_stats :=
                RecordLatencyBetween (md_capture_timestamp_ns (pf_metadata f)) render_end
                  (pb_capture_to_render_stats pb)\<rparr>
         else pb)"

text \<open>The window title every ten frames: width, height, and the last latency when there is one.\<close>

definition window_title_update :: "Playback \<Rightarrow> (int \<times> int \<times> real option) option" where
  "window_title_update pb =
     (if pb_rendered_frames pb mod 10 = 0 then
        Some (rf_frame_width (pb_frame_info pb), rf_frame_height (pb_frame_info pb),
              if has_samples (pb_receive_to_render_stats pb) then Some (st_last_ms (pb_receive_to_render_stats pb))
              else None)
      else None)"

definition fragment_loss_percent :: "UdpReceiveStats \<Rightarrow> real" where
  "fragment_loss_percent stats =
     (let total = us_fragments_received stats + us_timed_out_fragments stats in
      if total = 0 then 0 else real (unat (us_timed_out_fragments stats)) * 100 / real (unat total))"

definition copy_udp_stats :: "UdpReceiveStats \<Rightarrow> RenderFrameInfo \<Rightarrow> RenderFrameInfo" where
  "copy_udp_stats stats info =
     info\<lparr>rf_udp_jitter_buffer_current_depth := us_jitter_buffer_current_depth stats,
          rf_udp_jitter_buffer_max_depth := us_jitter_buffer_max_depth stats,
          rf_udp_jitter_buffer_target_delay_ms := us_jitter_buffer_target_delay_ms stats,
          rf_udp_jitter_buffer_wait_avg_ms := us_jitter_buffer_wait_avg_ms stats,
          rf_udp_jitter_buffer_wait_max_ms := us_jitter_buffer_wait_max_ms stats,
          rf_udp_jitter_buffer_skipped_frames := us_jitter_buffer_skipped_frames stats,
          rf_udp_jitter_buffer_dropped_frames := us_jitter_buffer_dropped_frames stats,
          rf_udp_jitter_p50_ms := us_jitter_p50_ms stats,
          rf_udp_jitter_p95_ms := us_jitter_p95_ms stats,
          rf_udp_jitter_buffer_active_mode := Some (us_jitter_buffer_active_mode stats),
          rf_udp_jitter_buffer_quality := Some (us_jitter_buffer_quality stats),
          rf_udp_nack_requests_sent := us_nack_requests_sent stats,
          rf_udp_fec_recovered_frames := us_fec_recovered_frames stats,
          rf_fragment_loss_percent := fragment_loss_percent stats\<rparr>"

definition snapshot_stats :: "Playback \<Rightarrow> Playback" where
  "snapshot_stats pb =
     (case LatencyStats_Snapshot (pb_capture_to_render_stats pb) of (st1, s1) \<Rightarrow>
      case LatencyStats_Snapshot (pb_network_to_receive_stats pb) of (st2, s2) \<Rightarrow>
      case LatencyStats_Snapshot (pb_receive_to_decode_stats pb) of (st3, s3) \<Rightarrow>
      case LatencyStats_Snapshot (pb_decode_time_stats pb) of (st4, s4) \<Rightarrow>
      case LatencyStats_Snapshot (pb_decode_to_render_stats pb) of (st5, s5) \<Rightarrow>
      case LatencyStats_Snapshot (pb_receive_to_render_stats pb) of (st6, s6) \<Rightarrow>
        pb\<lparr>pb_frame_info := (pb_frame_info pb)
             \<lparr>rf_capture_to_render := s1, rf_network_to_receive := s2, rf_receive_to_decode := s3,
              rf_decode_time := s4, rf_decode_to_render := s5, rf_receive_to_render := s6\<rparr>,
           pb_capture_to_render_stats := st1, pb_network_to_receive_stats := st2,
           pb_receive_to_decode_stats := st3, pb_decode_time_stats := st4,
           pb_decode_to_render_stats := st5, pb_receive_to_render_stats := st6\<rparr>)"

text \<open>The periodic refresh of the frame information: every 100 ms, with the depths of the two queues
  and, for UDP, the statistics the receive thread published.\<close>

definition refresh_frame_info ::
  "ClientConfig \<Rightarrow> u64 \<Rightarrow> nat \<Rightarrow> nat \<Rightarrow> UdpReceiveStats option \<Rightarrow> Playback \<Rightarrow> Playback" where
  "refresh_frame_info config render_end receive_depth decode_depth latest pb =
     (if pb_last_frame_info_refresh_ns pb = 0
         \<or> 100 * 1000 * 1000 \<le> render_end - pb_last_frame_info_refresh_ns pb then
        let pb = snapshot_stats pb;
            info = (pb_frame_info pb)\<lparr>rf_receive_queue_depth := receive_depth, rf_decode_queue_depth := decode_depth\<rparr>;
            info = (case latest of
                      Some stats \<Rightarrow> if cc_transport config = ''udp'' then copy_udp_stats stats info else info
                    | None \<Rightarrow> info)
        in pb\<lparr>pb_frame_info := info, pb_last_frame_info_refresh_ns := render_end\<rparr>
      else pb)"

text \<open>The assignments before \<^verbatim>\<open>SupportsNativeFrame\<close>, before \<^verbatim>\<open>Render\<close>, and after it.\<close>

definition note_first_frame :: "Playback \<Rightarrow> Playback" where
  "note_first_frame pb =
     pb\<lparr>pb_waiting_for_keyframe := False,
        pb_frame_info := (pb_frame_info pb)\<lparr>rf_waiting_for_first_frame := False\<rparr>\<rparr>"

definition before_render :: "PipelineDecodedFrame \<Rightarrow> Playback \<Rightarrow> Playback" where
  "before_render f pb =
     pb\<lparr>pb_frame_info := (pb_frame_info pb)\<lparr>rf_sender_metadata_available := pf_sender_metadata_available f\<rparr>\<rparr>"

definition after_render ::
  "ClientConfig \<Rightarrow> PipelineDecodedFrame \<Rightarrow> u64 \<Rightarrow> nat \<Rightarrow> nat \<Rightarrow> UdpReceiveStats option \<Rightarrow> Playback \<Rightarrow> Playback" where
  "after_render config f render_end receive_depth decode_depth latest pb =
     refresh_frame_info config render_end receive_depth decode_depth latest
       (record_latencies config f render_end (pb\<lparr>pb_rendered_frames := pb_rendered_frames pb + 1\<rparr>))"

subsection \<open>Bounds\<close>

lemma percent_bounds: "a \<le> b \<Longrightarrow> 0 \<le> real a * 100 / real b \<and> real a * 100 / real b \<le> 100"
  by (cases "b = 0") (auto simp: divide_le_eq)

text \<open>The share of lost fragments is a percentage, unless the two counters overflow.\<close>

lemma fragment_loss_percent_bounds:
  assumes "unat (us_fragments_received s) + unat (us_timed_out_fragments s) < 2 ^ 64"
  shows "0 \<le> fragment_loss_percent s \<and> fragment_loss_percent s \<le> 100"
proof -
  have "unat (us_timed_out_fragments s) \<le> unat (us_fragments_received s + us_timed_out_fragments s)"
    using assms by (simp add: unat_word_ariths)
  from percent_bounds [OF this] show ?thesis
    unfolding fragment_loss_percent_def Let_def by simp
qed

lemma stats_inv_RecordLatencyBetween: "stats_inv st \<Longrightarrow> stats_inv (RecordLatencyBetween a b st)"
  by (simp add: RecordLatencyBetween_def stats_inv_Record)

text \<open>The width and the height in the window title stay 0: no step of the loop sets them.\<close>

definition title_size :: "Playback \<Rightarrow> int \<times> int" where
  "title_size pb = (rf_frame_width (pb_frame_info pb), rf_frame_height (pb_frame_info pb))"

lemma title_size_new: "title_size (Playback_new config) = (0, 0)"
  by (simp add: title_size_def Playback_new_def RenderFrameInfo_new_def)

lemma title_size_unchanged:
  "title_size (handle_key key pb) = title_size pb"
  "title_size (note_first_frame pb) = title_size pb"
  "title_size (before_render f pb) = title_size pb"
  "title_size (after_render config f t rd dd latest pb) = title_size pb"
  by (simp_all add: title_size_def handle_key_def reset_latency_stats_def note_first_frame_def before_render_def
      after_render_def refresh_frame_info_def record_latencies_def snapshot_stats_def copy_udp_stats_def Let_def
      split: prod.split option.split)

end
