(* ===== verification/Client_Pipeline.thy ===== *)
theory Client_Pipeline
  imports Playback_Stats Queues Annex_B
begin

section \<open>The three threads of the client\<close>

text \<open>
  The rest of \<^verbatim>\<open>sclient/src/app/main.cpp\<close>: the receive thread, the decode thread, the render loop
  and the clean-up of \<^verbatim>\<open>main\<close>, with the two bounded queues between them, the flag
  \<^verbatim>\<open>stop_requested\<close> and the signal handler that sets it. Each thread is a program counter; a step
  of a thread makes one access to the queues or to the flag, so every interleaving of these accesses is
  an interleaving of steps. The one coarser step is that of a rendered frame: the depths of the queues
  and the statistics it reads for the display, and the error text it may set, are taken at the moment of
  the step. A call that blocks is a thread without a step. What the objects outside
  the pipeline answer (the stream client, the decoder, the renderer, the keyboard, the clock) is the
  record \<open>answers\<close> of the step: any answer is possible at any step. \<^verbatim>\<open>client.Close()\<close> changes
  only what the client answers later. The lambda \<^verbatim>\<open>request_stop\<close> is three steps: the exchange of
  the flag, and the two \<^verbatim>\<open>Close\<close>.
\<close>

subsection \<open>The state\<close>

datatype stop_pc = Stop_exchange | Stop_close_received | Stop_close_decoded

datatype receive_pc =
    Receive_test
  | Receive_frame
  | Receive_failed
  | Receive_retry nat
  | Receive_connect nat
  | Receive_check
  | Receive_stats ReceivedFrame
  | Receive_push ReceivedFrame
  | Receive_stop stop_pc
  | Receive_done

datatype decode_pc =
    Decode_test
  | Decode_wait
  | Decode_gate ReceivedFrame
  | Decode_call ReceivedFrame
  | Decode_push PipelineDecodedFrame
  | Decode_done

datatype main_pc =
    Main_poll
  | Main_drain "PipelineDecodedFrame option"
  | Main_idle
  | Main_render PipelineDecodedFrame
  | Main_quit stop_pc
  | Main_cleanup stop_pc
  | Main_join_receive
  | Main_join_decode
  | Main_done

record Pipeline =
  pl_stop_requested :: bool
  pl_received_frames :: "ReceivedFrame BoundedQueue"
  pl_decoded_frames :: "PipelineDecodedFrame BoundedQueue"
  pl_error_message :: string
  pl_latest_udp_stats :: "UdpReceiveStats option"
  pl_playback :: Playback
  pl_receive :: receive_pc
  pl_decode :: decode_pc
  pl_main :: main_pc

definition Pipeline_start :: "ClientOptions \<Rightarrow> Pipeline" where
  "Pipeline_start opts =
     \<lparr>pl_stop_requested = False,
      pl_received_frames = BoundedQueue_new (co_receive_queue_capacity opts),
      pl_decoded_frames = BoundedQueue_new (co_decode_queue_capacity opts),
      pl_error_message = '''', pl_latest_udp_stats = None, pl_playback = Playback_new (so_config opts),
      pl_receive = Receive_test, pl_decode = Decode_test, pl_main = Main_poll\<rparr>"

record answers =
  an_frame :: "ReceivedFrame option"
  an_udp_stats :: UdpReceiveStats
  an_connects :: bool
  an_decoded :: "DecodedFrame option"
  an_decode_start :: u64
  an_decode_end :: u64
  an_key :: int
  an_supports :: bool
  an_render_error :: "string option"
  an_render_end :: u64

subsection \<open>The shared lambdas\<close>

definition set_connected :: "bool \<Rightarrow> Pipeline \<Rightarrow> Pipeline" where
  "set_connected b p =
     p\<lparr>pl_playback := (pl_playback p)
         \<lparr>pb_frame_info := (pb_frame_info (pl_playback p))\<lparr>rf_connected := b\<rparr>\<rparr>\<rparr>"

definition connected :: "Pipeline \<Rightarrow> bool" where
  "connected p = rf_connected (pb_frame_info (pl_playback p))"

definition set_pipeline_error :: "string \<Rightarrow> Pipeline \<Rightarrow> Pipeline" where
  "set_pipeline_error message p =
     (if pl_error_message p = '''' then p\<lparr>pl_error_message := message\<rparr> else p)"

text \<open>One step of \<^verbatim>\<open>request_stop\<close>, and where it goes on; \<open>None\<close> is its return.\<close>

fun request_stop_step :: "stop_pc \<Rightarrow> Pipeline \<Rightarrow> Pipeline \<times> stop_pc option" where
  "request_stop_step Stop_exchange p =
     (p\<lparr>pl_stop_requested := True\<rparr>, if pl_stop_requested p then None else Some Stop_close_received)"
| "request_stop_step Stop_close_received p =
     (p\<lparr>pl_received_frames := BoundedQueue_Close (pl_received_frames p)\<rparr>, Some Stop_close_decoded)"
| "request_stop_step Stop_close_decoded p =
     (p\<lparr>pl_decoded_frames := BoundedQueue_Close (pl_decoded_frames p)\<rparr>, None)"

subsection \<open>The threads\<close>

definition receive_step :: "ClientOptions \<Rightarrow> answers \<Rightarrow> Pipeline \<Rightarrow> Pipeline option" where
  "receive_step opts a p =
     (case pl_receive p of
        Receive_test \<Rightarrow> Some (p\<lparr>pl_receive := if pl_stop_requested p then Receive_done else Receive_frame\<rparr>)
      | Receive_frame \<Rightarrow>
          Some (p\<lparr>pl_receive := case an_frame a of None \<Rightarrow> Receive_failed | Some f \<Rightarrow> Receive_stats f\<rparr>)
      | Receive_failed \<Rightarrow>
          Some (if pl_stop_requested p then p\<lparr>pl_receive := Receive_done\<rparr>
                else (set_connected False p)\<lparr>pl_receive := Receive_retry 0\<rparr>)
      | Receive_retry n \<Rightarrow>
          Some (p\<lparr>pl_receive := if n < 10 \<and> \<not> pl_stop_requested p then Receive_connect n else Receive_check\<rparr>)
      | Receive_connect n \<Rightarrow>
          Some (if an_connects a then (set_connected True p)\<lparr>pl_receive := Receive_check\<rparr>
                else p\<lparr>pl_receive := Receive_retry (Suc n)\<rparr>)
      | Receive_check \<Rightarrow>
          Some (if connected p then p\<lparr>pl_receive := Receive_test\<rparr>
                else (set_pipeline_error ''reconnection failed after 10 attempts'' p)
                       \<lparr>pl_receive := Receive_stop Stop_exchange\<rparr>)
      | Receive_stats f \<Rightarrow>
          Some ((if cc_transport (so_config opts) = ''udp''
                 then p\<lparr>pl_latest_udp_stats := Some (an_udp_stats a)\<rparr> else p)\<lparr>pl_receive := Receive_push f\<rparr>)
      | Receive_push f \<Rightarrow>
          (case PushOrDropOldest f (pl_received_frames p) of (q, ok) \<Rightarrow>
             Some (p\<lparr>pl_received_frames := q, pl_receive := if ok then Receive_test else Receive_done\<rparr>))
      | Receive_stop s \<Rightarrow>
          (case request_stop_step s p of (p, s') \<Rightarrow>
             Some (p\<lparr>pl_receive := case s' of None \<Rightarrow> Receive_done | Some s \<Rightarrow> Receive_stop s\<rparr>))
      | Receive_done \<Rightarrow> None)"

definition decoded_output :: "answers \<Rightarrow> ReceivedFrame \<Rightarrow> DecodedFrame \<Rightarrow> PipelineDecodedFrame" where
  "decoded_output a f d =
     \<lparr>pf_frame = d, pf_metadata = fr_metadata f, pf_sender_metadata_available = fr_sender_metadata_available f,
      pf_receive_timestamp_ns = fr_receive_timestamp_ns f, pf_decode_start_timestamp_ns = an_decode_start a,
      pf_decode_end_timestamp_ns = an_decode_end a\<rparr>"

definition decode_step :: "ClientOptions \<Rightarrow> answers \<Rightarrow> Pipeline \<Rightarrow> Pipeline option" where
  "decode_step opts a p =
     (case pl_decode p of
        Decode_test \<Rightarrow> Some (p\<lparr>pl_decode := if pl_stop_requested p then Decode_done else Decode_wait\<rparr>)
      | Decode_wait \<Rightarrow>
          map_option (\<lambda>(q, r). p\<lparr>pl_received_frames := q,
                                   pl_decode := case r of None \<Rightarrow> Decode_done | Some f \<Rightarrow> Decode_gate f\<rparr>)
            (WaitPop (pl_received_frames p))
      | Decode_gate f \<Rightarrow>
          Some (p\<lparr>pl_decode :=
                    if co_decode_queue_capacity opts \<le> BoundedQueue_Size (pl_decoded_frames p)
                       \<and> \<not> HasIdrNalUnit (fr_payload f)
                    then Decode_test else Decode_call f\<rparr>)
      | Decode_call f \<Rightarrow>
          Some (p\<lparr>pl_decode := case an_decoded a of None \<Rightarrow> Decode_test
                                  | Some d \<Rightarrow> Decode_push (decoded_output a f d)\<rparr>)
      | Decode_push g \<Rightarrow>
          (case PushOrDropOldest g (pl_decoded_frames p) of (q, ok) \<Rightarrow>
             Some (p\<lparr>pl_decoded_frames := q, pl_decode := if ok then Decode_test else Decode_done\<rparr>))
      | Decode_done \<Rightarrow> None)"

definition render_failed :: "string \<Rightarrow> Pipeline \<Rightarrow> Pipeline" where
  "render_failed message p =
     (set_pipeline_error (''render failed: '' @ message) p)\<lparr>pl_main := Main_quit Stop_exchange\<rparr>"

definition render_frame :: "ClientOptions \<Rightarrow> answers \<Rightarrow> PipelineDecodedFrame \<Rightarrow> Pipeline \<Rightarrow> Pipeline" where
  "render_frame opts a f p =
     (let p = p\<lparr>pl_playback := note_first_frame (pl_playback p)\<rparr> in
      if \<not> an_supports a then
        render_failed ''decoded frame format is not supported by the OpenGL renderer'' p
      else
        let p = p\<lparr>pl_playback := before_render f (pl_playback p)\<rparr> in
        case an_render_error a of
          Some e \<Rightarrow> render_failed e p
        | None \<Rightarrow>
            p\<lparr>pl_playback := after_render (so_config opts) f (an_render_end a)
                 (BoundedQueue_Size (pl_received_frames p)) (BoundedQueue_Size (pl_decoded_frames p))
                 (pl_latest_udp_stats p) (pl_playback p),
              pl_main := Main_poll\<rparr>)"

definition main_step :: "ClientOptions \<Rightarrow> answers \<Rightarrow> Pipeline \<Rightarrow> Pipeline option" where
  "main_step opts a p =
     (case pl_main p of
        Main_poll \<Rightarrow>
          Some (if quit_key (an_key a) then p\<lparr>pl_main := Main_quit Stop_exchange\<rparr>
                else
                  let pb = handle_key (an_key a) (pl_playback p) in
                  p\<lparr>pl_playback := pb, pl_main := if pb_paused pb then Main_poll else Main_drain None\<rparr>)
      | Main_drain latest \<Rightarrow>
          (case BoundedQueue_TryPop (pl_decoded_frames p) of
             (q, Some f) \<Rightarrow> Some (p\<lparr>pl_decoded_frames := q, pl_main := Main_drain (Some f)\<rparr>)
           | (q, None) \<Rightarrow>
               Some (p\<lparr>pl_decoded_frames := q,
                        pl_main := case latest of None \<Rightarrow> Main_idle | Some f \<Rightarrow> Main_render f\<rparr>))
      | Main_idle \<Rightarrow> Some (p\<lparr>pl_main := if pl_stop_requested p then Main_cleanup Stop_exchange else Main_poll\<rparr>)
      | Main_render f \<Rightarrow> Some (render_frame opts a f p)
      | Main_quit s \<Rightarrow>
          (case request_stop_step s p of (p, s') \<Rightarrow>
             Some (p\<lparr>pl_main := case s' of None \<Rightarrow> Main_cleanup Stop_exchange | Some s \<Rightarrow> Main_quit s\<rparr>))
      | Main_cleanup s \<Rightarrow>
          (case request_stop_step s p of (p, s') \<Rightarrow>
             Some (p\<lparr>pl_main := case s' of None \<Rightarrow> Main_join_receive | Some s \<Rightarrow> Main_cleanup s\<rparr>))
      | Main_join_receive \<Rightarrow> if pl_receive p = Receive_done then Some (p\<lparr>pl_main := Main_join_decode\<rparr>) else None
      | Main_join_decode \<Rightarrow> if pl_decode p = Decode_done then Some (p\<lparr>pl_main := Main_done\<rparr>) else None
      | Main_done \<Rightarrow> None)"

definition exit_status :: "Pipeline \<Rightarrow> int" where
  "exit_status p = (if pl_error_message p \<noteq> '''' then 5 else 0)"

definition SignalHandler :: "Pipeline \<Rightarrow> Pipeline" where
  "SignalHandler p = p\<lparr>pl_stop_requested := True\<rparr>"

subsection \<open>Runs\<close>

datatype actor = Receiver | Decoder | Main | Signal

fun actor_step :: "ClientOptions \<Rightarrow> actor \<times> answers \<Rightarrow> Pipeline \<Rightarrow> Pipeline option" where
  "actor_step opts (Receiver, a) p = receive_step opts a p"
| "actor_step opts (Decoder, a) p = decode_step opts a p"
| "actor_step opts (Main, a) p = main_step opts a p"
| "actor_step opts (Signal, a) p = Some (SignalHandler p)"

fun pipeline_run :: "ClientOptions \<Rightarrow> (actor \<times> answers) list \<Rightarrow> Pipeline \<Rightarrow> Pipeline option" where
  "pipeline_run opts [] p = Some p"
| "pipeline_run opts (x # xs) p = Option.bind (actor_step opts x p) (pipeline_run opts xs)"

text \<open>The frames the client delivers, and those the renderer shows, in the order of a run.\<close>

fun frame_received :: "actor \<times> answers \<Rightarrow> Pipeline \<Rightarrow> ReceivedFrame list" where
  "frame_received (Receiver, a) p =
     (if pl_receive p = Receive_frame then (case an_frame a of None \<Rightarrow> [] | Some f \<Rightarrow> [f]) else [])"
| "frame_received _ p = []"

fun frame_shown :: "actor \<times> answers \<Rightarrow> Pipeline \<Rightarrow> PipelineDecodedFrame list" where
  "frame_shown (Main, a) p =
     (case pl_main p of Main_render f \<Rightarrow> if an_supports a \<and> an_render_error a = None then [f] else [] | _ \<Rightarrow> [])"
| "frame_shown _ p = []"

fun observed :: "(actor \<times> answers \<Rightarrow> Pipeline \<Rightarrow> 'e list) \<Rightarrow> ClientOptions \<Rightarrow> (actor \<times> answers) list \<Rightarrow> Pipeline \<Rightarrow> 'e list" where
  "observed obs opts [] p = []"
| "observed obs opts (x # xs) p =
     obs x p @ (case actor_step opts x p of None \<Rightarrow> [] | Some p' \<Rightarrow> observed obs opts xs p')"

subsection \<open>Frames keep their order\<close>

type_synonym stamp = "FrameDiagnosticMetadata \<times> bool \<times> u64"

definition received_stamp :: "ReceivedFrame \<Rightarrow> stamp" where
  "received_stamp f = (fr_metadata f, fr_sender_metadata_available f, fr_receive_timestamp_ns f)"

definition shown_stamp :: "PipelineDecodedFrame \<Rightarrow> stamp" where
  "shown_stamp f = (pf_metadata f, pf_sender_metadata_available f, pf_receive_timestamp_ns f)"

fun receive_flight :: "receive_pc \<Rightarrow> stamp list" where
  "receive_flight (Receive_stats f) = [received_stamp f]"
| "receive_flight (Receive_push f) = [received_stamp f]"
| "receive_flight _ = []"

fun decode_flight :: "decode_pc \<Rightarrow> stamp list" where
  "decode_flight (Decode_gate f) = [received_stamp f]"
| "decode_flight (Decode_call f) = [received_stamp f]"
| "decode_flight (Decode_push g) = [shown_stamp g]"
| "decode_flight _ = []"

fun main_flight :: "main_pc \<Rightarrow> stamp list" where
  "main_flight (Main_drain (Some f)) = [shown_stamp f]"
| "main_flight (Main_render f) = [shown_stamp f]"
| "main_flight _ = []"

text \<open>The frames inside the pipeline, the oldest first.\<close>

definition input_side :: "Pipeline \<Rightarrow> stamp list" where
  "input_side p = map received_stamp (bq_queue (pl_received_frames p)) @ receive_flight (pl_receive p)"

definition output_side :: "Pipeline \<Rightarrow> stamp list" where
  "output_side p = main_flight (pl_main p) @ map shown_stamp (bq_queue (pl_decoded_frames p))"

definition in_flight :: "Pipeline \<Rightarrow> stamp list" where
  "in_flight p = output_side p @ decode_flight (pl_decode p) @ input_side p"

lemma shown_stamp_output: "shown_stamp (decoded_output a f d) = received_stamp f"
  by (simp add: shown_stamp_def received_stamp_def decoded_output_def)

lemma request_stop_step_keeps [simp]:
  "bq_queue (pl_received_frames (fst (request_stop_step s p))) = bq_queue (pl_received_frames p)"
  "bq_queue (pl_decoded_frames (fst (request_stop_step s p))) = bq_queue (pl_decoded_frames p)"
  "pl_receive (fst (request_stop_step s p)) = pl_receive p"
  "pl_decode (fst (request_stop_step s p)) = pl_decode p"
  "pl_main (fst (request_stop_step s p)) = pl_main p"
  "pl_playback (fst (request_stop_step s p)) = pl_playback p"
  "pl_error_message (fst (request_stop_step s p)) = pl_error_message p"
  by (cases s; simp add: BoundedQueue_Close_def)+

lemma set_pipeline_error_keeps [simp]:
  "pl_stop_requested (set_pipeline_error e p) = pl_stop_requested p"
  "pl_received_frames (set_pipeline_error e p) = pl_received_frames p"
  "pl_decoded_frames (set_pipeline_error e p) = pl_decoded_frames p"
  "pl_receive (set_pipeline_error e p) = pl_receive p"
  "pl_decode (set_pipeline_error e p) = pl_decode p"
  "pl_main (set_pipeline_error e p) = pl_main p"
  "pl_playback (set_pipeline_error e p) = pl_playback p"
  by (simp_all add: set_pipeline_error_def)

lemma set_connected_keeps [simp]:
  "pl_stop_requested (set_connected b p) = pl_stop_requested p"
  "pl_received_frames (set_connected b p) = pl_received_frames p"
  "pl_decoded_frames (set_connected b p) = pl_decoded_frames p"
  "pl_receive (set_connected b p) = pl_receive p"
  "pl_decode (set_connected b p) = pl_decode p"
  "pl_main (set_connected b p) = pl_main p"
  by (simp_all add: set_connected_def)

lemma subseq_within: "subseq xs ys \<Longrightarrow> subseq (as @ xs @ bs) (as @ ys @ bs)"
  by (intro list_emb_append_mono) auto

lemma subseq_skip [simp]: "subseq (as @ bs @ cs) (as @ bs @ x # cs)"
  using subseq_within [of "[]" "[x]" "as @ bs" cs] by simp

lemma PushOrDropOldest_subseq:
  "PushOrDropOldest x q = (q', ok) \<Longrightarrow> subseq (bq_queue q') (bq_queue q @ [x])"
  by (cases "bq_queue q") (auto simp: PushOrDropOldest_def Let_def split: if_splits)

lemma PushOrDropOldest_stamps:
  "PushOrDropOldest x q = (q', ok) \<Longrightarrow> subseq (map f (bq_queue q')) (map f (bq_queue q) @ [f x])"
  using subseq_map [OF PushOrDropOldest_subseq, of x q q' ok f] by simp

lemma WaitPop_stamps:
  "WaitPop q = Some (q', r) \<Longrightarrow>
     map f (bq_queue q) = (case r of None \<Rightarrow> [] | Some x \<Rightarrow> [f x]) @ map f (bq_queue q')"
  by (auto simp: WaitPop_def split: if_splits list.splits)

lemma TryPop_stamps:
  "BoundedQueue_TryPop q = (q', r) \<Longrightarrow>
     map f (bq_queue q) = (case r of None \<Rightarrow> [] | Some x \<Rightarrow> [f x]) @ map f (bq_queue q')"
  by (auto simp: BoundedQueue_TryPop_def split: list.splits)

lemma receive_step_flight:
  assumes "receive_step opts a p = Some p'"
  shows "output_side p' = output_side p \<and> pl_decode p' = pl_decode p \<and>
    subseq (input_side p') (input_side p @ map received_stamp (frame_received (Receiver, a) p))"
proof (cases "pl_receive p")
  case (Receive_push f)
  then show ?thesis
    using assms PushOrDropOldest_stamps [of f "pl_received_frames p" _ _ received_stamp]
    by (auto simp: receive_step_def input_side_def output_side_def split: prod.splits)
next
  case (Receive_stop s)
  then show ?thesis
    using assms
    by (auto simp: receive_step_def input_side_def output_side_def case_prod_beta split: option.splits)
qed (use assms in \<open>auto simp: receive_step_def input_side_def output_side_def split: option.splits if_splits\<close>)

lemma decode_step_flight:
  assumes "decode_step opts a p = Some p'"
  shows "pl_main p' = pl_main p \<and> pl_receive p' = pl_receive p \<and> subseq (in_flight p') (in_flight p)"
proof (cases "pl_decode p")
  case Decode_wait
  then obtain q r where q: "WaitPop (pl_received_frames p) = Some (q, r)"
    using assms by (auto simp: decode_step_def)
  show ?thesis
    using assms Decode_wait WaitPop_stamps [OF q, of received_stamp]
    by (cases r) (auto simp: decode_step_def in_flight_def input_side_def output_side_def q)
next
  case (Decode_push g)
  obtain q ok where q: "PushOrDropOldest g (pl_decoded_frames p) = (q, ok)" by fastforce
  show ?thesis
    using assms Decode_push subseq_within [OF PushOrDropOldest_stamps [OF q, of shown_stamp]]
    by (auto simp: decode_step_def in_flight_def input_side_def output_side_def q)
qed (use assms in \<open>auto simp: decode_step_def in_flight_def input_side_def output_side_def shown_stamp_output
       split: option.splits if_splits\<close>)

lemma render_frame_keeps:
  "pl_received_frames (render_frame opts a f p) = pl_received_frames p"
  "pl_decoded_frames (render_frame opts a f p) = pl_decoded_frames p"
  "pl_receive (render_frame opts a f p) = pl_receive p"
  "pl_decode (render_frame opts a f p) = pl_decode p"
  "pl_stop_requested (render_frame opts a f p) = pl_stop_requested p"
  "pl_main (render_frame opts a f p) \<in> {Main_poll, Main_quit Stop_exchange}"
  by (auto simp: render_frame_def render_failed_def Let_def split: option.splits)

lemma main_step_flight:
  assumes "main_step opts a p = Some p'"
  shows "subseq (map shown_stamp (frame_shown (Main, a) p) @ in_flight p') (in_flight p)"
proof (cases "pl_main p")
  case (Main_drain latest)
  obtain q r where q: "BoundedQueue_TryPop (pl_decoded_frames p) = (q, r)" by fastforce
  show ?thesis
    using assms Main_drain TryPop_stamps [OF q, of shown_stamp]
    by (cases r; cases latest) (auto simp: main_step_def in_flight_def input_side_def output_side_def q)
next
  case (Main_render f)
  then have p': "p' = render_frame opts a f p" using assms by (simp add: main_step_def)
  have "main_flight (pl_main p') = []"
    using render_frame_keeps(6) [of opts a f p] by (auto simp: p')
  then show ?thesis
    using Main_render
    by (auto simp: in_flight_def input_side_def output_side_def p' render_frame_keeps)
next
  case (Main_quit s)
  then show ?thesis
    using assms by (auto simp: main_step_def in_flight_def input_side_def output_side_def case_prod_beta
        split: option.splits)
next
  case (Main_cleanup s)
  then show ?thesis
    using assms by (auto simp: main_step_def in_flight_def input_side_def output_side_def case_prod_beta
        split: option.splits)
qed (use assms in \<open>auto simp: main_step_def in_flight_def input_side_def output_side_def Let_def
       split: if_splits\<close>)

lemma actor_step_flight:
  assumes "actor_step opts x p = Some p'"
  shows "subseq (map shown_stamp (frame_shown x p) @ in_flight p')
    (in_flight p @ map received_stamp (frame_received x p))"
proof (cases "(opts, x, p)" rule: actor_step.cases)
  case (1 opts a p)
  then show ?thesis
    using assms receive_step_flight [of opts a p p']
    by (auto simp: in_flight_def list_emb_append_mono)
next
  case (2 opts a p)
  then show ?thesis using assms decode_step_flight [of opts a p p'] by auto
next
  case (3 opts a p)
  then show ?thesis using assms main_step_flight [of opts a p p'] by auto
next
  case (4 opts a p)
  then show ?thesis using assms
    by (auto simp: SignalHandler_def in_flight_def input_side_def output_side_def)
qed

lemma pipeline_run_flight:
  assumes "pipeline_run opts sched p = Some p'"
  shows "subseq (map shown_stamp (observed frame_shown opts sched p) @ in_flight p')
    (in_flight p @ map received_stamp (observed frame_received opts sched p))"
  using assms
proof (induction sched arbitrary: p)
  case Nil
  then show ?case by simp
next
  case (Cons x xs)
  then obtain p1 where p1: "actor_step opts x p = Some p1" "pipeline_run opts xs p1 = Some p'"
    by (auto simp: bind_eq_Some_conv)
  let ?out = "map shown_stamp (frame_shown x p)" and ?in = "map received_stamp (frame_received x p)"
  have "subseq (?out @ (map shown_stamp (observed frame_shown opts xs p1) @ in_flight p'))
      (?out @ (in_flight p1 @ map received_stamp (observed frame_received opts xs p1)))"
    by (intro list_emb_append_mono Cons.IH [OF p1(2)]) simp
  moreover have "subseq ((?out @ in_flight p1) @ map received_stamp (observed frame_received opts xs p1))
      ((in_flight p @ ?in) @ map received_stamp (observed frame_received opts xs p1))"
    by (rule list_emb_append_mono [OF actor_step_flight [OF p1(1)]]) simp
  ultimately show ?case using p1(1) by (auto intro: subseq_order.trans)
qed

text \<open>The title never shows the size of the picture: nothing writes the two fields it reads.\<close>

lemma title_size_step:
  assumes "actor_step opts x p = Some p'"
  shows "title_size (pl_playback p') = title_size (pl_playback p)"
proof (cases "(opts, x, p)" rule: actor_step.cases)
  case (1 opts a p)
  then show ?thesis using assms
    by (cases "pl_receive p") (auto simp: receive_step_def case_prod_beta set_connected_def title_size_def)
next
  case (2 opts a p)
  then show ?thesis using assms
    by (cases "pl_decode p") (auto simp: decode_step_def case_prod_beta)
next
  case (3 opts a p)
  then show ?thesis using assms
    by (cases "pl_main p")
       (auto simp: main_step_def case_prod_beta Let_def render_frame_def render_failed_def title_size_unchanged
          split: option.splits if_splits)
next
  case (4 opts a p)
  then show ?thesis using assms by (auto simp: SignalHandler_def)
qed

lemma title_size_zero:
  "pipeline_run opts sched p = Some p' \<Longrightarrow> title_size (pl_playback p') = title_size (pl_playback p)"
  by (induction sched arbitrary: p) (auto simp: bind_eq_Some_conv dest: title_size_step)

text \<open>C24: the renderer shows frames in the order the client received them, each at most once and
  each with the metadata it was received with, whatever the interleaving of the threads, the answers of
  the network, the decoder and the renderer, and however many frames the queues drop.\<close>

theorem pipeline_keeps_order:
  assumes "pipeline_run opts sched (Pipeline_start opts) = Some p"
  shows "subseq (map shown_stamp (observed frame_shown opts sched (Pipeline_start opts)))
    (map received_stamp (observed frame_received opts sched (Pipeline_start opts)))"
proof -
  have "in_flight (Pipeline_start opts) = []"
    by (simp add: in_flight_def input_side_def output_side_def Pipeline_start_def BoundedQueue_new_def)
  then show ?thesis
    using pipeline_run_flight [OF assms] by (auto intro: subseq_order.trans [OF subseq_rev_drop_many])
qed

subsection \<open>The end of the client\<close>

text \<open>Without a signal, whoever set the flag closes the queue the decode thread waits on, or is about
  to; and a thread is joined only when it has ended.\<close>

definition joining :: "main_pc \<Rightarrow> bool" where
  "joining pc \<longleftrightarrow> pc = Main_join_receive \<or> pc = Main_join_decode \<or> pc = Main_done"

definition main_closing :: "main_pc \<Rightarrow> bool" where
  "main_closing pc \<longleftrightarrow> pc = Main_quit Stop_close_received \<or> pc = Main_cleanup Stop_close_received"

definition main_after_exchange :: "main_pc \<Rightarrow> bool" where
  "main_after_exchange pc \<longleftrightarrow> joining pc \<or> main_closing pc
     \<or> pc = Main_quit Stop_close_decoded \<or> pc = Main_cleanup Stop_close_decoded"

definition shutdown_inv :: "Pipeline \<Rightarrow> bool" where
  "shutdown_inv p \<longleftrightarrow>
     (pl_stop_requested p \<longrightarrow>
        bq_closed (pl_received_frames p) \<or> pl_receive p = Receive_stop Stop_close_received \<or> main_closing (pl_main p)) \<and>
     (main_after_exchange (pl_main p) \<longrightarrow> pl_stop_requested p) \<and>
     (pl_main p = Main_join_decode \<or> pl_main p = Main_done \<longrightarrow> pl_receive p = Receive_done) \<and>
     (pl_main p = Main_done \<longrightarrow> pl_decode p = Decode_done)"

lemmas shutdown_defs = shutdown_inv_def joining_def main_closing_def main_after_exchange_def

lemma queue_ops_keep_closed:
  "PushOrDropOldest x q = (q', ok) \<Longrightarrow> bq_closed q' = bq_closed q"
  "WaitPop q = Some (q', r) \<Longrightarrow> bq_closed q' = bq_closed q"
  by (auto simp: PushOrDropOldest_def WaitPop_def Let_def split: if_splits list.splits)

lemma shutdown_inv_start: "shutdown_inv (Pipeline_start opts)"
  by (simp add: shutdown_defs Pipeline_start_def)

text \<open>A step of the receive thread outside \<^verbatim>\<open>request_stop\<close>, and a step of the decode thread, leave
  what the invariant is about alone, but for their own program counter.\<close>

definition same_shutdown :: "Pipeline \<Rightarrow> Pipeline \<Rightarrow> bool" where
  "same_shutdown p p' \<longleftrightarrow>
     pl_stop_requested p' = pl_stop_requested p \<and> pl_main p' = pl_main p \<and>
     bq_closed (pl_received_frames p') = bq_closed (pl_received_frames p)"

lemma receive_step_same:
  assumes "receive_step opts a p = Some p'" "\<nexists>s. pl_receive p = Receive_stop s"
  shows "same_shutdown p p' \<and> pl_decode p' = pl_decode p \<and> pl_receive p \<noteq> Receive_done"
proof (cases "pl_receive p")
  case (Receive_push f)
  obtain q ok where q: "PushOrDropOldest f (pl_received_frames p) = (q, ok)" by fastforce
  show ?thesis
    using assms Receive_push queue_ops_keep_closed(1) [OF q] q
    by (auto simp: receive_step_def same_shutdown_def)
qed (use assms in \<open>auto simp: receive_step_def same_shutdown_def split: if_splits\<close>)

lemma decode_step_same:
  assumes "decode_step opts a p = Some p'"
  shows "same_shutdown p p' \<and> pl_receive p' = pl_receive p \<and> pl_decode p \<noteq> Decode_done"
proof (cases "pl_decode p")
  case Decode_wait
  then obtain q r where q: "WaitPop (pl_received_frames p) = Some (q, r)"
    using assms by (auto simp: decode_step_def)
  show ?thesis
    using assms Decode_wait queue_ops_keep_closed(2) [OF q] q
    by (auto simp: decode_step_def same_shutdown_def)
next
  case (Decode_push g)
  then show ?thesis using assms by (auto simp: decode_step_def same_shutdown_def case_prod_beta)
qed (use assms in \<open>auto simp: decode_step_def same_shutdown_def\<close>)

lemma receive_step_shutdown_inv:
  assumes "shutdown_inv p" "receive_step opts a p = Some p'"
  shows "shutdown_inv p'"
proof (cases "\<exists>s. pl_receive p = Receive_stop s")
  case True
  then obtain s where s: "pl_receive p = Receive_stop s" by blast
  show ?thesis using assms s
    by (cases s; cases "pl_stop_requested p") (auto simp: shutdown_defs receive_step_def BoundedQueue_Close_def)
next
  case False
  then show ?thesis
    using assms(1) receive_step_same [OF assms(2) False] unfolding same_shutdown_def shutdown_defs by auto
qed

lemma decode_step_shutdown_inv:
  assumes "shutdown_inv p" "decode_step opts a p = Some p'"
  shows "shutdown_inv p'"
  using assms(1) decode_step_same [OF assms(2)] unfolding same_shutdown_def shutdown_defs by auto

lemma main_step_shutdown_inv:
  assumes "shutdown_inv p" "main_step opts a p = Some p'"
  shows "shutdown_inv p'"
proof (cases "pl_main p")
  case (Main_render f)
  then have p': "p' = render_frame opts a f p" using assms by (simp add: main_step_def)
  show ?thesis
    using assms(1) render_frame_keeps(6) [of opts a f p] Main_render
    by (auto simp: p' shutdown_defs render_frame_keeps)
next
  case (Main_quit s)
  then show ?thesis using assms
    by (cases s; cases "pl_stop_requested p") (auto simp: shutdown_defs main_step_def BoundedQueue_Close_def)
next
  case (Main_cleanup s)
  then show ?thesis using assms
    by (cases s; cases "pl_stop_requested p") (auto simp: shutdown_defs main_step_def BoundedQueue_Close_def)
qed (use assms in \<open>auto simp: shutdown_defs main_step_def Let_def
       split: prod.splits option.splits if_splits\<close>)

lemma actor_step_shutdown_inv:
  assumes "shutdown_inv p" "actor_step opts x p = Some p'" "fst x \<noteq> Signal"
  shows "shutdown_inv p'"
proof (cases "(opts, x, p)" rule: actor_step.cases)
  case (1 opts a p)
  then show ?thesis using assms receive_step_shutdown_inv [of p opts a p'] by simp
next
  case (2 opts a p)
  then show ?thesis using assms decode_step_shutdown_inv [of p opts a p'] by simp
next
  case (3 opts a p)
  then show ?thesis using assms main_step_shutdown_inv [of p opts a p'] by simp
next
  case (4 opts a p)
  then show ?thesis using assms(3) by simp
qed

lemma pipeline_run_shutdown_inv:
  assumes "pipeline_run opts sched p = Some p'" "shutdown_inv p" "Signal \<notin> fst ` set sched"
  shows "shutdown_inv p'"
  using assms
proof (induction sched arbitrary: p)
  case (Cons x xs)
  then obtain p1 where p1: "actor_step opts x p = Some p1" "pipeline_run opts xs p1 = Some p'"
    by (auto simp: bind_eq_Some_conv)
  have "fst x \<noteq> Signal" using Cons.prems(3) by auto
  then show ?case
    using Cons.IH [OF p1(2) actor_step_shutdown_inv [OF Cons.prems(2) p1(1)]] Cons.prems(3) by auto
qed simp

text \<open>Once the flag is set, every thread is a bounded number of steps from its end.\<close>

fun receive_rank :: "receive_pc \<Rightarrow> nat" where
  "receive_rank Receive_done = 0"
| "receive_rank Receive_test = 1"
| "receive_rank Receive_failed = 1"
| "receive_rank (Receive_push _) = 2"
| "receive_rank (Receive_stats _) = 3"
| "receive_rank Receive_frame = 4"
| "receive_rank (Receive_stop Stop_close_decoded) = 1"
| "receive_rank (Receive_stop Stop_close_received) = 2"
| "receive_rank (Receive_stop Stop_exchange) = 3"
| "receive_rank Receive_check = 4"
| "receive_rank (Receive_retry _) = 5"
| "receive_rank (Receive_connect _) = 6"

fun decode_rank :: "decode_pc \<Rightarrow> nat" where
  "decode_rank Decode_done = 0"
| "decode_rank Decode_test = 1"
| "decode_rank (Decode_push _) = 2"
| "decode_rank (Decode_call _) = 3"
| "decode_rank (Decode_gate _) = 4"
| "decode_rank Decode_wait = 5"

fun join_rank :: "main_pc \<Rightarrow> nat" where
  "join_rank Main_join_receive = 2"
| "join_rank Main_join_decode = 1"
| "join_rank _ = 0"

definition shutdown_rank :: "Pipeline \<Rightarrow> nat" where
  "shutdown_rank p = receive_rank (pl_receive p) + decode_rank (pl_decode p) + join_rank (pl_main p)"

lemma receive_rank_step:
  assumes "receive_step opts a p = Some p'" "pl_stop_requested p"
  shows "receive_rank (pl_receive p') < receive_rank (pl_receive p) \<and> pl_stop_requested p' \<and>
    pl_main p' = pl_main p \<and> pl_decode p' = pl_decode p"
proof (cases "\<exists>s. pl_receive p = Receive_stop s")
  case True
  then obtain s where s: "pl_receive p = Receive_stop s" by blast
  show ?thesis using assms s by (cases s) (auto simp: receive_step_def)
next
  case False
  then show ?thesis
    using receive_step_same [OF assms(1) False] assms
    by (cases "pl_receive p")
       (auto simp: receive_step_def same_shutdown_def split: option.splits prod.splits if_splits)
qed

lemma decode_rank_step:
  assumes "decode_step opts a p = Some p'" "pl_stop_requested p"
  shows "decode_rank (pl_decode p') < decode_rank (pl_decode p) \<and> pl_stop_requested p' \<and>
    pl_main p' = pl_main p \<and> pl_receive p' = pl_receive p"
proof -
  have "decode_rank (pl_decode p') < decode_rank (pl_decode p)"
  proof (cases "pl_decode p")
    case Decode_wait
    then obtain q r where q: "WaitPop (pl_received_frames p) = Some (q, r)"
      using assms by (auto simp: decode_step_def)
    then show ?thesis using assms Decode_wait by (cases r) (auto simp: decode_step_def)
  next
    case (Decode_push g)
    then show ?thesis using assms by (auto simp: decode_step_def case_prod_beta)
  qed (use assms in \<open>auto simp: decode_step_def split: option.splits\<close>)
  then show ?thesis
    using decode_step_same [OF assms(1)] assms(2) by (simp add: same_shutdown_def)
qed

lemma join_rank_step:
  assumes "main_step opts a p = Some p'" "joining (pl_main p)"
  shows "join_rank (pl_main p') < join_rank (pl_main p) \<and> pl_stop_requested p' = pl_stop_requested p \<and>
    pl_receive p' = pl_receive p \<and> pl_decode p' = pl_decode p \<and> joining (pl_main p')"
  using assms by (auto simp: joining_def main_step_def split: if_splits)

lemma shutdown_rank_step:
  assumes "actor_step opts x p = Some p'" "fst x \<noteq> Signal" "pl_stop_requested p" "joining (pl_main p)"
  shows "shutdown_rank p' < shutdown_rank p \<and> pl_stop_requested p' \<and> joining (pl_main p')"
proof (cases "(opts, x, p)" rule: actor_step.cases)
  case (1 opts a p)
  then show ?thesis using assms receive_rank_step [of opts a p p'] by (auto simp: shutdown_rank_def)
next
  case (2 opts a p)
  then show ?thesis using assms decode_rank_step [of opts a p p'] by (auto simp: shutdown_rank_def)
next
  case (3 opts a p)
  then show ?thesis using assms join_rank_step [of opts a p p'] by (auto simp: shutdown_rank_def)
next
  case (4 opts a p)
  then show ?thesis using assms(2) by simp
qed

lemma shutdown_run_length:
  assumes "pipeline_run opts sched p = Some p'" "Signal \<notin> fst ` set sched"
    "pl_stop_requested p" "joining (pl_main p)"
  shows "length sched + shutdown_rank p' \<le> shutdown_rank p \<and> joining (pl_main p')"
  using assms
proof (induction sched arbitrary: p)
  case (Cons x xs)
  then obtain p1 where p1: "actor_step opts x p = Some p1" "pipeline_run opts xs p1 = Some p'"
    by (auto simp: bind_eq_Some_conv)
  have x: "fst x \<noteq> Signal" using Cons.prems(2) by auto
  note step = shutdown_rank_step [OF p1(1) x Cons.prems(3,4)]
  then have "length xs + shutdown_rank p' \<le> shutdown_rank p1 \<and> joining (pl_main p')"
    using Cons.IH [OF p1(2)] Cons.prems(2) by simp
  then show ?case using step by simp
qed simp

lemma receive_can_step: "pl_receive p \<noteq> Receive_done \<Longrightarrow> receive_step opts a p \<noteq> None"
  by (cases "pl_receive p") (simp_all add: receive_step_def split: prod.split)

lemma decode_can_step:
  "pl_decode p \<noteq> Decode_done \<Longrightarrow> bq_closed (pl_received_frames p) \<Longrightarrow> decode_step opts a p \<noteq> None"
  by (cases "pl_decode p") (simp_all add: decode_step_def WaitPop_def split: prod.split)

lemma shutdown_progress:
  assumes "shutdown_inv p" "joining (pl_main p)" "pl_main p \<noteq> Main_done"
  shows "\<exists>x. fst x \<noteq> Signal \<and> actor_step opts x p \<noteq> None"
proof (cases "pl_receive p = Receive_done")
  case False
  then have "actor_step opts (Receiver, undefined) p \<noteq> None" by (simp add: receive_can_step del: not_None_eq)
  then show ?thesis by (intro exI [of _ "(Receiver, undefined)"]) simp
next
  case True
  then have closed: "bq_closed (pl_received_frames p)"
    using assms unfolding shutdown_defs by auto
  show ?thesis
  proof (cases "pl_decode p = Decode_done")
    case False
    then have "actor_step opts (Decoder, undefined) p \<noteq> None"
      using closed by (simp add: decode_can_step del: not_None_eq)
    then show ?thesis by (intro exI [of _ "(Decoder, undefined)"]) simp
  next
    case decode_done: True
    then have "actor_step opts (Main, undefined) p \<noteq> None"
      using True assms(2,3) by (auto simp: joining_def main_step_def)
    then show ?thesis by (intro exI [of _ "(Main, undefined)"]) simp
  qed
qed

lemma shutdown_rank_bound: "pl_main p = Main_join_receive \<Longrightarrow> shutdown_rank p \<le> 13"
proof -
  have "receive_rank (pl_receive p) \<le> 6" by (cases "pl_receive p" rule: receive_rank.cases) auto
  moreover have "decode_rank (pl_decode p) \<le> 5" by (cases "pl_decode p") auto
  ultimately show "pl_main p = Main_join_receive \<Longrightarrow> shutdown_rank p \<le> 13"
    by (simp add: shutdown_rank_def)
qed

text \<open>C25: when \<^verbatim>\<open>main\<close> leaves its loop and no signal has arrived, the client ends: from the
  moment \<^verbatim>\<open>main\<close> starts to join, the three threads take at most 13 more steps, and until all three
  have ended one of them can take a step. So no interleaving and no answer of the network or of the
  decoder leaves a thread blocked.\<close>

theorem shutdown_completes:
  assumes "pipeline_run opts sched (Pipeline_start opts) = Some p" "Signal \<notin> fst ` set sched"
    and "pl_main p = Main_join_receive"
    and "pipeline_run opts sched' p = Some p'" "Signal \<notin> fst ` set sched'"
  shows "length sched' \<le> 13 \<and>
    (pl_main p' = Main_done \<and> pl_receive p' = Receive_done \<and> pl_decode p' = Decode_done
     \<or> (\<exists>x. fst x \<noteq> Signal \<and> actor_step opts x p' \<noteq> None))"
proof -
  have inv: "shutdown_inv p"
    by (rule pipeline_run_shutdown_inv [OF assms(1) shutdown_inv_start assms(2)])
  then have stop: "pl_stop_requested p" and join: "joining (pl_main p)"
    using assms(3) by (simp_all add: shutdown_defs)
  have inv': "shutdown_inv p'"
    by (rule pipeline_run_shutdown_inv [OF assms(4) inv assms(5)])
  have run: "length sched' + shutdown_rank p' \<le> shutdown_rank p" "joining (pl_main p')"
    using shutdown_run_length [OF assms(4,5) stop join] by blast+
  show ?thesis
  proof (cases "pl_main p' = Main_done")
    case True
    then show ?thesis
      using run(1) shutdown_rank_bound [OF assms(3)] inv' by (simp add: shutdown_inv_def)
  next
    case False
    then show ?thesis
      using run(1) shutdown_rank_bound [OF assms(3)] shutdown_progress [OF inv' run(2)] by auto
  qed
qed

subsection \<open>A signal\<close>

text \<open>The answers of a quiet moment: no frame, no connection, no key.\<close>

definition quiet :: answers where
  "quiet = \<lparr>an_frame = None, an_udp_stats = UdpReceiveStats_zero, an_connects = False, an_decoded = None,
     an_decode_start = 0, an_decode_end = 0, an_key = - 1, an_supports = True, an_render_error = None,
     an_render_end = 0\<rparr>"

definition blocked :: "Pipeline \<Rightarrow> bool" where
  "blocked p \<longleftrightarrow> pl_main p = Main_join_decode \<and> pl_receive p = Receive_done \<and> pl_decode p = Decode_wait \<and>
     bq_queue (pl_received_frames p) = [] \<and> \<not> bq_closed (pl_received_frames p)"

lemma blocked_step: "blocked p \<Longrightarrow> actor_step opts x p = Some p' \<Longrightarrow> blocked p'"
  by (cases "(opts, x, p)" rule: actor_step.cases)
     (auto simp: blocked_def receive_step_def decode_step_def main_step_def WaitPop_def SignalHandler_def)

lemma blocked_run: "pipeline_run opts sched p = Some p' \<Longrightarrow> blocked p \<Longrightarrow> blocked p'"
  by (induction sched arbitrary: p) (auto simp: bind_eq_Some_conv dest: blocked_step)

definition signal_schedule :: "(actor \<times> answers) list" where
  "signal_schedule =
     [(Decoder, quiet), (Receiver, quiet), (Signal, quiet), (Receiver, quiet), (Receiver, quiet),
      (Main, quiet), (Main, quiet), (Main, quiet), (Main, quiet), (Main, quiet)]"

lemma signal_run:
  "\<exists>p. pipeline_run opts signal_schedule (Pipeline_start opts) = Some p \<and> blocked p \<and> pl_stop_requested p"
  by (simp add: signal_schedule_def Pipeline_start_def decode_step_def receive_step_def main_step_def
      SignalHandler_def quiet_def quit_key_def handle_key_def Playback_new_def BoundedQueue_TryPop_def
      BoundedQueue_new_def blocked_def Let_def)

text \<open>C26: after \<^verbatim>\<open>SIGINT\<close> or \<^verbatim>\<open>SIGTERM\<close> the client can hang: the handler sets the flag, so
  \<^verbatim>\<open>request_stop\<close> returns before it closes the queues; when the decode thread is already waiting for
  a frame, nothing wakes it, and \<^verbatim>\<open>main\<close> never gets past joining it.\<close>

theorem signal_blocks_shutdown:
  "\<exists>p. pipeline_run opts signal_schedule (Pipeline_start opts) = Some p \<and> pl_stop_requested p \<and>
     (\<forall>sched p'. pipeline_run opts sched p = Some p' \<longrightarrow>
        pl_main p' = Main_join_decode \<and> pl_decode p' = Decode_wait)"
  using signal_run [of opts] blocked_run [of opts] unfolding blocked_def by blast

text \<open>The same schedule, continued by a second signal.\<close>

theorem signal_blocks_shutdown_witness:
  "\<exists>p p'. pipeline_run ClientOptions_default signal_schedule (Pipeline_start ClientOptions_default) = Some p \<and>
     pipeline_run ClientOptions_default [(Signal, quiet)] p = Some p' \<and> pl_main p' = Main_join_decode"
proof -
  obtain p where p: "pipeline_run ClientOptions_default signal_schedule (Pipeline_start ClientOptions_default) = Some p"
    and stuck: "\<forall>sched p'. pipeline_run ClientOptions_default sched p = Some p' \<longrightarrow>
      pl_main p' = Main_join_decode \<and> pl_decode p' = Decode_wait"
    using signal_blocks_shutdown [of ClientOptions_default] by blast
  have "pipeline_run ClientOptions_default [(Signal, quiet)] p = Some (SignalHandler p)" by simp
  then show ?thesis using p stuck by blast
qed

subsection \<open>Runs\<close>

definition escape :: answers where
  "escape = quiet\<lparr>an_key := 27\<rparr>"

text \<open>The user quits: \<^verbatim>\<open>main\<close> runs \<^verbatim>\<open>request_stop\<close> twice, the second time in vain.\<close>

definition quit_schedule :: "(actor \<times> answers) list" where
  "quit_schedule = [(Main, escape), (Main, escape), (Main, escape), (Main, escape), (Main, escape)]"

definition end_schedule :: "(actor \<times> answers) list" where
  "end_schedule = [(Receiver, quiet), (Decoder, quiet), (Main, quiet), (Main, quiet)]"

lemmas run_simps = receive_step_def decode_step_def main_step_def quiet_def escape_def quit_key_def
  handle_key_def Pipeline_start_def Playback_new_def RenderFrameInfo_new_def BoundedQueue_new_def
  BoundedQueue_Close_def BoundedQueue_TryPop_def WaitPop_def PushOrDropOldest_def Let_def

lemma quit_run:
  "\<exists>p. pipeline_run ClientOptions_default quit_schedule (Pipeline_start ClientOptions_default) = Some p \<and>
     pl_main p = Main_join_receive \<and>
     (\<exists>p'. pipeline_run ClientOptions_default end_schedule p = Some p' \<and> pl_main p' = Main_done)"
  by (simp add: quit_schedule_def end_schedule_def run_simps)

theorem shutdown_completes_witness:
  "\<exists>p p'. pipeline_run ClientOptions_default quit_schedule (Pipeline_start ClientOptions_default) = Some p \<and>
     pl_main p = Main_join_receive \<and>
     pipeline_run ClientOptions_default end_schedule p = Some p' \<and> length end_schedule \<le> 13 \<and>
     (pl_receive p' = Receive_done \<or> (\<exists>x. fst x \<noteq> Signal \<and> actor_step ClientOptions_default x p' \<noteq> None))"
  using quit_run shutdown_completes [of ClientOptions_default quit_schedule _ end_schedule]
  by (fastforce simp: quit_schedule_def end_schedule_def)

text \<open>One frame on its way through the pipeline.\<close>

definition one_frame :: ReceivedFrame where
  "one_frame = \<lparr>fr_header = MessageHeader_zero, fr_metadata = FrameDiagnosticMetadata_zero,
     fr_sender_metadata_available = True, fr_receive_timestamp_ns = 7, fr_payload = [1, 2, 3]\<rparr>"

definition busy :: answers where
  "busy = quiet\<lparr>an_frame := Some one_frame, an_decoded := Some DecodedFrame_default\<rparr>"

definition frame_schedule :: "(actor \<times> answers) list" where
  "frame_schedule =
     [(Receiver, busy), (Receiver, busy), (Receiver, busy), (Receiver, busy),
      (Decoder, busy), (Decoder, busy), (Decoder, busy), (Decoder, busy), (Decoder, busy),
      (Main, busy), (Main, busy), (Main, busy), (Main, busy)]"

lemma frame_run:
  "\<exists>p. pipeline_run ClientOptions_default frame_schedule (Pipeline_start ClientOptions_default) = Some p"
  "observed frame_received ClientOptions_default frame_schedule (Pipeline_start ClientOptions_default) = [one_frame]"
  "map shown_stamp (observed frame_shown ClientOptions_default frame_schedule (Pipeline_start ClientOptions_default))
     = [received_stamp one_frame]"
  by (simp_all add: frame_schedule_def run_simps busy_def ClientOptions_default_def
      ClientConfig_default_def BoundedQueue_Size_def render_frame_def shown_stamp_output)

theorem pipeline_keeps_order_witness:
  "\<exists>p. pipeline_run ClientOptions_default frame_schedule (Pipeline_start ClientOptions_default) = Some p \<and>
     observed frame_received ClientOptions_default frame_schedule (Pipeline_start ClientOptions_default) = [one_frame] \<and>
     subseq (map shown_stamp (observed frame_shown ClientOptions_default frame_schedule
       (Pipeline_start ClientOptions_default))) [received_stamp one_frame]"
  using frame_run pipeline_keeps_order [of ClientOptions_default frame_schedule] by auto

text \<open>The user quits while the receive thread is reconnecting.\<close>

definition reconnect_schedule :: "(actor \<times> answers) list" where
  "reconnect_schedule =
     [(Receiver, quiet), (Receiver, quiet), (Receiver, quiet), (Receiver, quiet), (Receiver, quiet),
      (Main, escape), (Main, escape), (Main, escape), (Main, escape), (Main, escape),
      (Receiver, quiet), (Receiver, quiet), (Receiver, quiet), (Decoder, quiet), (Main, quiet), (Main, quiet)]"


end
