(* ===== verification/Gl_Renderer.thy ===== *)
theory Gl_Renderer
  imports Playback_Stats "HOL-Library.Multiset" "HOL-Library.Monad_Syntax"
begin

section \<open>The OpenGL renderer\<close>

text \<open>
  \<^verbatim>\<open>sclient/src/modules/rendering/opengl/OpenGlVideoRendererBackend.cpp\<close> and its facade
  \<^verbatim>\<open>VideoRenderer.cpp\<close>. OpenGL, GLFW and ImGui are not part of the repository. Of them the
  model keeps what the code has to give back (\<open>GlWorld\<close>: GLFW itself, the window, the objects with
  their names, the ImGui context and its two back ends), and what the calls answer
  (\<open>gl_answers\<close>). A call of OpenGL without a window, and a release of something that is not
  there, is undefined (\<open>None\<close>). What is drawn (shader sources, uniforms, the HUD) is not modelled,
  except for the bytes of the planes that reach the textures, the scale that keeps the aspect ratio, and
  the rows of a screenshot.
\<close>

subsection \<open>The libraries\<close>

datatype gl_kind = Shader | Program | VertexArray | Buffer | Texture

type_synonym gl_objects = "(gl_kind \<times> nat) multiset"

record GlWorld =
  gw_glfw :: bool
  gw_window :: bool
  gw_objects :: gl_objects
  gw_next_name :: nat
  gw_imgui_context :: nat
  gw_imgui_glfw :: nat
  gw_imgui_opengl3 :: nat

record gl_answers =
  ga_glfw_init :: bool
  ga_create_window :: bool
  ga_load_gl :: bool
  ga_create_vertex :: bool
  ga_compile_vertex :: bool
  ga_create_fragment :: bool
  ga_compile_fragment :: bool
  ga_create_program :: bool
  ga_link :: bool
  ga_imgui_glfw :: bool
  ga_imgui_opengl3 :: bool
  ga_info_log :: string

text \<open>Names are never 0, and a name is not used again.\<close>

definition gl_create :: "gl_kind \<Rightarrow> GlWorld \<Rightarrow> nat \<times> GlWorld" where
  "gl_create k w =
     (Suc (gw_next_name w),
      w\<lparr>gw_next_name := Suc (gw_next_name w), gw_objects := add_mset (k, Suc (gw_next_name w)) (gw_objects w)\<rparr>)"

fun gl_gen :: "gl_kind \<Rightarrow> nat \<Rightarrow> GlWorld \<Rightarrow> nat list \<times> GlWorld" where
  "gl_gen k 0 w = ([], w)"
| "gl_gen k (Suc n) w = (case gl_create k w of (i, w) \<Rightarrow> case gl_gen k n w of (is, w) \<Rightarrow> (i # is, w))"

text \<open>The objects with these names; 0 is no object, and deleting it does nothing.\<close>

definition named :: "gl_kind \<Rightarrow> nat list \<Rightarrow> gl_objects" where
  "named k names = mset (map (Pair k) (filter (\<lambda>i. i \<noteq> 0) names))"

definition gl_delete :: "gl_kind \<Rightarrow> nat list \<Rightarrow> GlWorld \<Rightarrow> GlWorld option" where
  "gl_delete k names w =
     (if gw_window w then Some (w\<lparr>gw_objects := gw_objects w - named k names\<rparr>) else None)"

definition imgui_shutdown :: "GlWorld \<Rightarrow> GlWorld option" where
  "imgui_shutdown w =
     (if gw_imgui_context w = 0 \<or> gw_imgui_glfw w = 0 \<or> gw_imgui_opengl3 w = 0 then None
      else Some (w\<lparr>gw_imgui_opengl3 := gw_imgui_opengl3 w - 1, gw_imgui_glfw := gw_imgui_glfw w - 1,
                   gw_imgui_context := gw_imgui_context w - 1\<rparr>))"

definition glfwDestroyWindow :: "GlWorld \<Rightarrow> GlWorld option" where
  "glfwDestroyWindow w = (if gw_window w then Some (w\<lparr>gw_window := False\<rparr>) else None)"

definition glfwTerminate :: "GlWorld \<Rightarrow> GlWorld option" where
  "glfwTerminate w = (if gw_glfw w then Some (w\<lparr>gw_glfw := False, gw_window := False\<rparr>) else None)"

subsection \<open>Shaders\<close>

definition TrimTrailingWhitespace :: "string \<Rightarrow> string" where
  "TrimTrailingWhitespace value =
     rev (dropWhile (\<lambda>c. c = CHR 0x0A \<or> c = CHR 0x0D \<or> c = CHR 0x20) (rev value))"

text \<open>The name of the shader, or the error text.\<close>

definition CompileShader ::
  "string \<Rightarrow> bool \<Rightarrow> bool \<Rightarrow> string \<Rightarrow> GlWorld \<Rightarrow> ((string + nat) \<times> GlWorld) option" where
  "CompileShader stage created compiled info_log w =
     (if \<not> created then Some (Inl ''glCreateShader failed'', w)
      else
        case gl_create Shader w of (shader_id, w) \<Rightarrow>
          if compiled then Some (Inr shader_id, w)
          else do {
            w \<leftarrow> gl_delete Shader [shader_id] w;
            Some (Inl (''failed to compile '' @ stage @ '' shader: '' @ TrimTrailingWhitespace info_log), w) })"

definition link_program :: "gl_answers \<Rightarrow> nat \<Rightarrow> nat \<Rightarrow> GlWorld \<Rightarrow> ((string + nat) \<times> GlWorld) option" where
  "link_program a vertex_shader_id fragment_shader_id w =
     (if \<not> ga_create_program a then do {
        w \<leftarrow> gl_delete Shader [vertex_shader_id] w;
        w \<leftarrow> gl_delete Shader [fragment_shader_id] w;
        Some (Inl ''glCreateProgram failed'', w) }
      else
        case gl_create Program w of (program_id, w) \<Rightarrow> do {
          w \<leftarrow> gl_delete Shader [vertex_shader_id] w;
          w \<leftarrow> gl_delete Shader [fragment_shader_id] w;
          if ga_link a then Some (Inr program_id, w)
          else do {
            w \<leftarrow> gl_delete Program [program_id] w;
            Some (Inl (''failed to link shader program: '' @ TrimTrailingWhitespace (ga_info_log a)), w) } })"

definition CreateShaderProgram :: "gl_answers \<Rightarrow> GlWorld \<Rightarrow> ((string + nat) \<times> GlWorld) option" where
  "CreateShaderProgram a w = do {
     (r, w) \<leftarrow> CompileShader ''vertex'' (ga_create_vertex a) (ga_compile_vertex a) (ga_info_log a) w;
     case r of
       Inl e \<Rightarrow> Some (Inl e, w)
     | Inr vertex_shader_id \<Rightarrow> do {
         (r, w) \<leftarrow> CompileShader ''fragment'' (ga_create_fragment a) (ga_compile_fragment a) (ga_info_log a) w;
         case r of
           Inl e \<Rightarrow> do {
             w \<leftarrow> gl_delete Shader [vertex_shader_id] w;
             Some (Inl e, w) }
         | Inr fragment_shader_id \<Rightarrow> link_program a vertex_shader_id fragment_shader_id w } }"

subsection \<open>The back end\<close>

text \<open>The members that hold resources.\<close>

record GlResources =
  gr_window :: bool
  gr_glfw_initialized :: bool
  gr_imgui_initialized :: bool
  gr_texture_ids :: "nat list"
  gr_pixel_unpack_buffer_ids :: "nat list"
  gr_vertex_array_id :: nat
  gr_vertex_buffer_id :: nat
  gr_element_buffer_id :: nat
  gr_shader_program_id :: nat

definition GlResources_reset :: GlResources where
  "GlResources_reset =
     \<lparr>gr_window = False, gr_glfw_initialized = False, gr_imgui_initialized = False,
      gr_texture_ids = replicate 3 0, gr_pixel_unpack_buffer_ids = replicate 6 0,
      gr_vertex_array_id = 0, gr_vertex_buffer_id = 0, gr_element_buffer_id = 0, gr_shader_program_id = 0\<rparr>"

definition when_set :: "bool \<Rightarrow> (GlWorld \<Rightarrow> GlWorld option) \<Rightarrow> GlWorld \<Rightarrow> GlWorld option" where
  "when_set b f w = (if b then f w else Some w)"

definition delete_objects :: "GlResources \<Rightarrow> GlWorld \<Rightarrow> GlWorld option" where
  "delete_objects s w = do {
     w \<leftarrow> when_set (\<exists>i\<in>set (gr_pixel_unpack_buffer_ids s). i \<noteq> 0)
            (gl_delete Buffer (gr_pixel_unpack_buffer_ids s)) w;
     w \<leftarrow> when_set (gr_shader_program_id s \<noteq> 0) (gl_delete Program [gr_shader_program_id s]) w;
     w \<leftarrow> when_set (gr_element_buffer_id s \<noteq> 0) (gl_delete Buffer [gr_element_buffer_id s]) w;
     w \<leftarrow> when_set (gr_vertex_buffer_id s \<noteq> 0) (gl_delete Buffer [gr_vertex_buffer_id s]) w;
     w \<leftarrow> when_set (gr_vertex_array_id s \<noteq> 0) (gl_delete VertexArray [gr_vertex_array_id s]) w;
     when_set (\<exists>i\<in>set (gr_texture_ids s). i \<noteq> 0) (gl_delete Texture (gr_texture_ids s)) w }"

definition Gl_Shutdown :: "GlResources \<Rightarrow> GlWorld \<Rightarrow> (GlResources \<times> GlWorld) option" where
  "Gl_Shutdown s w = do {
     w \<leftarrow> when_set (gr_window s) (\<lambda>w. do {
       w \<leftarrow> when_set (gr_imgui_initialized s) imgui_shutdown w;
       w \<leftarrow> delete_objects s w;
       glfwDestroyWindow w }) w;
     w \<leftarrow> when_set (gr_glfw_initialized s) glfwTerminate w;
     Some (GlResources_reset, w) }"

definition fail_with :: "string \<Rightarrow> GlResources \<Rightarrow> GlWorld \<Rightarrow> (string option \<times> GlResources \<times> GlWorld) option" where
  "fail_with e s w = map_option (Pair (Some e)) (Gl_Shutdown s w)"

definition create_objects :: "GlResources \<Rightarrow> GlWorld \<Rightarrow> GlResources \<times> GlWorld" where
  "create_objects s w =
     (case gl_create VertexArray w of (vao, w) \<Rightarrow>
      case gl_create Buffer w of (vbo, w) \<Rightarrow>
      case gl_create Buffer w of (ebo, w) \<Rightarrow>
      case gl_gen Texture 3 w of (textures, w) \<Rightarrow>
      case gl_gen Buffer 6 w of (pbos, w) \<Rightarrow>
        (s\<lparr>gr_vertex_array_id := vao, gr_vertex_buffer_id := vbo, gr_element_buffer_id := ebo,
           gr_texture_ids := textures, gr_pixel_unpack_buffer_ids := pbos\<rparr>, w))"

definition initialize_imgui ::
  "gl_answers \<Rightarrow> GlResources \<Rightarrow> GlWorld \<Rightarrow> (string option \<times> GlResources \<times> GlWorld) option" where
  "initialize_imgui a s w =
     (let w = w\<lparr>gw_imgui_context := gw_imgui_context w + 1\<rparr> in
      if \<not> ga_imgui_glfw a then fail_with ''ImGui_ImplGlfw_InitForOpenGL failed'' s w
      else
        let w = w\<lparr>gw_imgui_glfw := gw_imgui_glfw w + 1\<rparr> in
        if \<not> ga_imgui_opengl3 a then fail_with ''ImGui_ImplOpenGL3_Init failed'' s w
        else Some (None, s\<lparr>gr_imgui_initialized := True\<rparr>, w\<lparr>gw_imgui_opengl3 := gw_imgui_opengl3 w + 1\<rparr>))"

definition initialize_context ::
  "gl_answers \<Rightarrow> GlResources \<Rightarrow> GlWorld \<Rightarrow> (string option \<times> GlResources \<times> GlWorld) option" where
  "initialize_context a s w =
     (if \<not> ga_load_gl a then fail_with ''gladLoadGLLoader failed'' s w
      else do {
        (r, w) \<leftarrow> CreateShaderProgram a w;
        case r of
          Inl e \<Rightarrow> fail_with e s w
        | Inr program_id \<Rightarrow>
            (case create_objects (s\<lparr>gr_shader_program_id := program_id\<rparr>) w of (s, w) \<Rightarrow>
               initialize_imgui a s w) })"

definition Gl_Initialize ::
  "gl_answers \<Rightarrow> GlResources \<Rightarrow> GlWorld \<Rightarrow> (string option \<times> GlResources \<times> GlWorld) option" where
  "Gl_Initialize a s w = do {
     (s, w) \<leftarrow> Gl_Shutdown s w;
     if \<not> ga_glfw_init a then Some (Some ''glfwInit failed'', GlResources_reset, w)
     else do {
       let s = s\<lparr>gr_glfw_initialized := True\<rparr>;
       let w = w\<lparr>gw_glfw := True\<rparr>;
       if \<not> ga_create_window a then fail_with ''glfwCreateWindow failed for OpenGL 3.3 core profile'' s w
       else initialize_context a (s\<lparr>gr_window := True\<rparr>) (w\<lparr>gw_window := True\<rparr>) } }"

subsection \<open>What the renderer holds\<close>

definition held :: "GlResources \<Rightarrow> gl_objects" where
  "held s =
     named Texture (gr_texture_ids s) + named Buffer (gr_pixel_unpack_buffer_ids s) +
     named VertexArray [gr_vertex_array_id s] + named Buffer [gr_vertex_buffer_id s] +
     named Buffer [gr_element_buffer_id s] + named Program [gr_shader_program_id s]"

text \<open>The world holds what the members name, and \<open>c\<close> ImGui contexts, \<open>g\<close> of them with the
  window back end, that no member knows of.\<close>

definition gl_inv :: "nat \<Rightarrow> nat \<Rightarrow> GlResources \<Rightarrow> GlWorld \<Rightarrow> bool" where
  "gl_inv c g s w \<longleftrightarrow>
     gw_objects w = held s \<and> gw_window w = gr_window s \<and> gw_glfw w = gr_glfw_initialized s \<and>
     (gr_window s \<longrightarrow> gr_glfw_initialized s) \<and>
     (\<not> gr_window s \<longrightarrow> held s = {#} \<and> \<not> gr_imgui_initialized s) \<and>
     gw_imgui_context w = c + of_bool (gr_imgui_initialized s) \<and>
     gw_imgui_glfw w = g + of_bool (gr_imgui_initialized s) \<and>
     gw_imgui_opengl3 w = of_bool (gr_imgui_initialized s)"

lemma held_reset [simp]: "held GlResources_reset = {#}"
  by (simp add: held_def GlResources_reset_def named_def)

lemma GlResources_reset_simps [simp]:
  "\<not> gr_window GlResources_reset" "\<not> gr_glfw_initialized GlResources_reset"
  "\<not> gr_imgui_initialized GlResources_reset"
  by (simp_all add: GlResources_reset_def)

lemma named_zero [simp]: "named k [0] = {#}"
  by (simp add: named_def)

lemma when_set_delete:
  assumes "gw_window w"
  shows "when_set (\<exists>i\<in>set names. i \<noteq> 0) (gl_delete k names) w =
     Some (w\<lparr>gw_objects := gw_objects w - named k names\<rparr>)"
proof (cases "\<exists>i\<in>set names. i \<noteq> 0")
  case True
  then show ?thesis using assms by (simp only: when_set_def gl_delete_def if_True)
next
  case False
  then have "filter (\<lambda>i. i \<noteq> 0) names = []" by (simp add: filter_empty_conv)
  then have "named k names = {#}" by (simp only: named_def) simp
  then show ?thesis using False by (simp only: when_set_def if_False) simp
qed

lemma when_set_delete1:
  "gw_window w \<Longrightarrow> when_set (i \<noteq> 0) (gl_delete k [i]) w = Some (w\<lparr>gw_objects := gw_objects w - named k [i]\<rparr>)"
  using when_set_delete [of w "[i]" k] by (simp del: neq0_conv)

lemma delete_objects_all:
  assumes "gw_window w" "gw_objects w = held s"
  shows "delete_objects s w = Some (w\<lparr>gw_objects := {#}\<rparr>)"
  using assms
  by (simp add: delete_objects_def when_set_delete when_set_delete1 held_def del: neq0_conv)

lemma Gl_Shutdown_releases:
  assumes "gl_inv c g s w"
  shows "\<exists>w'. Gl_Shutdown s w = Some (GlResources_reset, w') \<and> gl_inv c g GlResources_reset w'"
proof (cases "gr_window s")
  case True
  then show ?thesis
    using assms
    by (cases "gr_imgui_initialized s")
       (simp_all add: gl_inv_def Gl_Shutdown_def when_set_def delete_objects_all glfwDestroyWindow_def
          glfwTerminate_def imgui_shutdown_def)
next
  case False
  then show ?thesis
    using assms
    by (auto simp: gl_inv_def Gl_Shutdown_def when_set_def glfwTerminate_def)
qed

lemma fail_with_releases:
  "gl_inv c g s w \<Longrightarrow>
     \<exists>w'. fail_with e s w = Some (Some e, GlResources_reset, w') \<and> gl_inv c g GlResources_reset w'"
  using Gl_Shutdown_releases [of c g s w] by (auto simp: fail_with_def)

text \<open>Everything but the objects and the next name.\<close>

definition rest_of :: "GlWorld \<Rightarrow> bool \<times> bool \<times> nat \<times> nat \<times> nat" where
  "rest_of w = (gw_glfw w, gw_window w, gw_imgui_context w, gw_imgui_glfw w, gw_imgui_opengl3 w)"

lemma named_cons: "i \<noteq> 0 \<Longrightarrow> named k (i # is) = add_mset (k, i) (named k is)"
  by (simp add: named_def)

lemma gl_create_spec:
  "gl_create k w = (i, w') \<Longrightarrow> i \<noteq> 0 \<and> rest_of w' = rest_of w \<and> gw_objects w' = gw_objects w + named k [i]"
  by (auto simp: gl_create_def rest_of_def named_def)

lemma gl_gen_spec:
  "gl_gen k n w = (is, w') \<Longrightarrow> rest_of w' = rest_of w \<and> gw_objects w' = gw_objects w + named k is"
proof (induction n arbitrary: w "is" w')
  case (Suc n)
  obtain i w1 where i: "gl_create k w = (i, w1)" by fastforce
  obtain js w2 where js: "gl_gen k n w1 = (js, w2)" by fastforce
  have "is = i # js" "w' = w2" using Suc.prems i js by auto
  then show ?case
    using gl_create_spec [OF i] Suc.IH [OF js] by (simp add: named_cons named_def)
qed (simp add: named_def)

lemma gl_delete_spec:
  "gw_window w \<Longrightarrow> \<exists>w'. gl_delete k names w = Some w' \<and> rest_of w' = rest_of w \<and>
     gw_objects w' = gw_objects w - named k names"
  by (simp add: gl_delete_def rest_of_def)

lemma rest_of_window: "rest_of w' = rest_of w \<Longrightarrow> gw_window w' = gw_window w"
  by (simp add: rest_of_def)

definition made :: "gl_kind \<Rightarrow> bool \<Rightarrow> GlWorld \<Rightarrow> (string + nat) \<Rightarrow> GlWorld \<Rightarrow> bool" where
  "made k ok w r w' \<longleftrightarrow> rest_of w' = rest_of w \<and>
     (case r of
        Inl e \<Rightarrow> \<not> ok \<and> gw_objects w' = gw_objects w
      | Inr i \<Rightarrow> ok \<and> i \<noteq> 0 \<and> gw_objects w' = gw_objects w + named k [i])"

lemma CompileShader_made:
  assumes "gw_window w"
  shows "\<exists>r w'. CompileShader stage created compiled info_log w = Some (r, w') \<and>
    made Shader (created \<and> compiled) w r w'"
proof -
  obtain i w1 where i: "gl_create Shader w = (i, w1)" by fastforce
  note spec = gl_create_spec [OF i]
  then have "gw_window w1" using assms rest_of_window [of w1 w] by simp
  then show ?thesis
    using gl_delete_spec [of w1 Shader "[i]"] spec i
    by (cases created; cases compiled) (auto simp: CompileShader_def made_def)
qed

definition shaders_ok :: "gl_answers \<Rightarrow> bool" where
  "shaders_ok a \<longleftrightarrow> ga_create_vertex a \<and> ga_compile_vertex a \<and> ga_create_fragment a \<and> ga_compile_fragment a \<and>
     ga_create_program a \<and> ga_link a"

lemma link_program_made:
  assumes "gw_window w" "gw_objects w = L + named Shader [v] + named Shader [f]"
  shows "\<exists>r w'. link_program a v f w = Some (r, w') \<and> rest_of w' = rest_of w \<and>
    (case r of Inl e \<Rightarrow> \<not> (ga_create_program a \<and> ga_link a) \<and> gw_objects w' = L
     | Inr i \<Rightarrow> ga_create_program a \<and> ga_link a \<and> i \<noteq> 0 \<and> gw_objects w' = L + named Program [i])"
proof (cases "ga_create_program a")
  case True
  obtain i w1 where i: "gl_create Program w = (i, w1)" by fastforce
  then show ?thesis
    using assms True gl_create_spec [OF i]
    by (auto simp: link_program_def gl_delete_def rest_of_def)
next
  case False
  then show ?thesis
    using assms by (simp add: link_program_def gl_delete_def rest_of_def)
qed

lemma CreateShaderProgram_made:
  assumes "gw_window w"
  shows "\<exists>r w'. CreateShaderProgram a w = Some (r, w') \<and> made Program (shaders_ok a) w r w'"
proof -
  obtain r1 w1 where v: "CompileShader ''vertex'' (ga_create_vertex a) (ga_compile_vertex a) (ga_info_log a) w = Some (r1, w1)"
    and made1: "made Shader (ga_create_vertex a \<and> ga_compile_vertex a) w r1 w1"
    using CompileShader_made [OF assms] by blast
  show ?thesis
  proof (cases r1)
    case (Inl e)
    then show ?thesis using v made1 by (auto simp: CreateShaderProgram_def made_def shaders_ok_def)
  next
    case (Inr i)
    then have w1: "gw_window w1" using assms made1 rest_of_window [of w1 w] by (simp add: made_def)
    obtain r2 w2 where f: "CompileShader ''fragment'' (ga_create_fragment a) (ga_compile_fragment a) (ga_info_log a) w1 = Some (r2, w2)"
      and made2: "made Shader (ga_create_fragment a \<and> ga_compile_fragment a) w1 r2 w2"
      using CompileShader_made [OF w1] by blast
    have w2: "gw_window w2" using w1 made2 rest_of_window [of w2 w1] by (simp add: made_def)
    show ?thesis
    proof (cases r2)
      case (Inl e)
      then show ?thesis using v f made1 made2 Inr gl_delete_spec [OF w2, of Shader "[i]"]
        by (auto simp: CreateShaderProgram_def made_def shaders_ok_def)
    next
      case j: (Inr j)
      have "gw_objects w2 = gw_objects w + named Shader [i] + named Shader [j]"
        using made1 made2 Inr j by (simp add: made_def)
      from link_program_made [OF w2 this, of a] obtain r3 w3
        where "link_program a i j w2 = Some (r3, w3)" "rest_of w3 = rest_of w2"
          "case r3 of Inl e \<Rightarrow> \<not> (ga_create_program a \<and> ga_link a) \<and> gw_objects w3 = gw_objects w
           | Inr k \<Rightarrow> ga_create_program a \<and> ga_link a \<and> k \<noteq> 0 \<and> gw_objects w3 = gw_objects w + named Program [k]"
        by blast
      then show ?thesis using v f made1 made2 Inr j
        by (cases r3) (auto simp: CreateShaderProgram_def made_def shaders_ok_def)
    qed
  qed
qed

lemma create_objects_inv:
  assumes "gl_inv c g s0 w0" "gr_window s0" "\<not> gr_imgui_initialized s0" "held s0 = {#}"
    and "rest_of w = rest_of w0" "gw_objects w = named Program [p]"
    and "create_objects (s0\<lparr>gr_shader_program_id := p\<rparr>) w = (s', w')"
  shows "gl_inv c g s' w' \<and> gr_window s' \<and> \<not> gr_imgui_initialized s'"
proof -
  obtain vao w1 where 1: "gl_create VertexArray w = (vao, w1)" by fastforce
  obtain vbo w2 where 2: "gl_create Buffer w1 = (vbo, w2)" by fastforce
  obtain ebo w3 where 3: "gl_create Buffer w2 = (ebo, w3)" by fastforce
  obtain ts w4 where 4: "gl_gen Texture 3 w3 = (ts, w4)" by fastforce
  obtain pbos w5 where 5: "gl_gen Buffer 6 w4 = (pbos, w5)" by fastforce
  have s': "s' = s0\<lparr>gr_shader_program_id := p, gr_vertex_array_id := vao, gr_vertex_buffer_id := vbo,
      gr_element_buffer_id := ebo, gr_texture_ids := ts, gr_pixel_unpack_buffer_ids := pbos\<rparr>" and w': "w' = w5"
    using assms(7) 1 2 3 4 5 by (simp_all add: create_objects_def)
  have rest: "rest_of w5 = rest_of w0" and objects: "gw_objects w5 = held s'"
    using gl_create_spec [OF 1] gl_create_spec [OF 2] gl_create_spec [OF 3] gl_gen_spec [OF 4] gl_gen_spec [OF 5]
      assms(5,6)
    by (simp_all add: s' held_def ac_simps)
  then show ?thesis
    using assms(1,2,3) by (simp add: gl_inv_def rest_of_def s' w')
qed

text \<open>How many ImGui contexts, and how many with the window back end, an initialisation loses.\<close>

definition reaches_imgui :: "gl_answers \<Rightarrow> bool" where
  "reaches_imgui a \<longleftrightarrow> ga_glfw_init a \<and> ga_create_window a \<and> ga_load_gl a \<and> shaders_ok a"

definition loses_context :: "gl_answers \<Rightarrow> bool" where
  "loses_context a \<longleftrightarrow> reaches_imgui a \<and> \<not> (ga_imgui_glfw a \<and> ga_imgui_opengl3 a)"

definition loses_back_end :: "gl_answers \<Rightarrow> bool" where
  "loses_back_end a \<longleftrightarrow> reaches_imgui a \<and> ga_imgui_glfw a \<and> \<not> ga_imgui_opengl3 a"

lemma initialize_imgui_inv:
  assumes "gl_inv c g s w" "gr_window s" "\<not> gr_imgui_initialized s"
  shows "\<exists>e s' w'. initialize_imgui a s w = Some (e, s', w') \<and>
    gl_inv (c + of_bool (\<not> (ga_imgui_glfw a \<and> ga_imgui_opengl3 a)))
      (g + of_bool (ga_imgui_glfw a \<and> \<not> ga_imgui_opengl3 a)) s' w' \<and> (e \<noteq> None \<longrightarrow> s' = GlResources_reset)"
proof (cases "ga_imgui_glfw a")
  case False
  have "gl_inv (c + 1) g s (w\<lparr>gw_imgui_context := gw_imgui_context w + 1\<rparr>)"
    using assms by (simp add: gl_inv_def)
  then show ?thesis
    using fail_with_releases [of "c + 1" g s _ "''ImGui_ImplGlfw_InitForOpenGL failed''"] False
    by (fastforce simp: initialize_imgui_def Let_def)
next
  case True
  show ?thesis
  proof (cases "ga_imgui_opengl3 a")
    case False
    have "gl_inv (c + 1) (g + 1) s
        (w\<lparr>gw_imgui_context := gw_imgui_context w + 1, gw_imgui_glfw := gw_imgui_glfw w + 1\<rparr>)"
      using assms by (simp add: gl_inv_def)
    then show ?thesis
      using fail_with_releases [of "c + 1" "g + 1" s _ "''ImGui_ImplOpenGL3_Init failed''"] False True
      by (fastforce simp: initialize_imgui_def Let_def)
  next
    case ok: True
    have "held (s\<lparr>gr_imgui_initialized := True\<rparr>) = held s" by (simp add: held_def)
    then show ?thesis
      using assms True ok by (simp add: initialize_imgui_def Let_def gl_inv_def)
  qed
qed

definition reached :: "gl_answers \<Rightarrow> bool" where
  "reached a \<longleftrightarrow> ga_load_gl a \<and> shaders_ok a"

lemma initialize_context_inv:
  assumes "gl_inv c g s w" "gr_window s" "\<not> gr_imgui_initialized s" "held s = {#}"
  shows "\<exists>e s' w'. initialize_context a s w = Some (e, s', w') \<and>
    gl_inv (c + of_bool (reached a \<and> \<not> (ga_imgui_glfw a \<and> ga_imgui_opengl3 a)))
      (g + of_bool (reached a \<and> ga_imgui_glfw a \<and> \<not> ga_imgui_opengl3 a)) s' w' \<and> (e \<noteq> None \<longrightarrow> s' = GlResources_reset)"
proof (cases "ga_load_gl a")
  case False
  then show ?thesis
    using fail_with_releases [OF assms(1), of "''gladLoadGLLoader failed''"]
    by (auto simp: initialize_context_def reached_def)
next
  case True
  have "gw_window w" using assms(1,2) by (simp add: gl_inv_def)
  then obtain r w1 where r: "CreateShaderProgram a w = Some (r, w1)" and made: "made Program (shaders_ok a) w r w1"
    using CreateShaderProgram_made by blast
  show ?thesis
  proof (cases r)
    case (Inl e)
    then have "gl_inv c g s w1"
      using assms(1) made by (simp add: gl_inv_def made_def rest_of_def)
    then show ?thesis
      using fail_with_releases [of c g s w1 e] True Inl r made
      by (auto simp: initialize_context_def reached_def made_def)
  next
    case (Inr p)
    obtain s2 w2 where objects: "create_objects (s\<lparr>gr_shader_program_id := p\<rparr>) w1 = (s2, w2)" by fastforce
    have "rest_of w1 = rest_of w" "gw_objects w1 = named Program [p]"
      using made Inr assms(1,4) by (simp_all add: made_def gl_inv_def)
    then have "gl_inv c g s2 w2 \<and> gr_window s2 \<and> \<not> gr_imgui_initialized s2"
      using create_objects_inv [OF assms(1-4) _ _ objects] by blast
    then obtain e s' w' where "initialize_imgui a s2 w2 = Some (e, s', w')"
      "gl_inv (c + of_bool (\<not> (ga_imgui_glfw a \<and> ga_imgui_opengl3 a)))
        (g + of_bool (ga_imgui_glfw a \<and> \<not> ga_imgui_opengl3 a)) s' w'" "e \<noteq> None \<longrightarrow> s' = GlResources_reset"
      using initialize_imgui_inv by blast
    then show ?thesis
      using True r Inr objects made by (auto simp: initialize_context_def reached_def made_def)
  qed
qed

lemma Gl_Initialize_inv:
  assumes "gl_inv c g s w"
  shows "\<exists>e s' w'. Gl_Initialize a s w = Some (e, s', w') \<and>
    gl_inv (c + of_bool (loses_context a)) (g + of_bool (loses_back_end a)) s' w' \<and>
    (e \<noteq> None \<longrightarrow> s' = GlResources_reset)"
proof -
  obtain w1 where shut: "Gl_Shutdown s w = Some (GlResources_reset, w1)" and inv: "gl_inv c g GlResources_reset w1"
    using Gl_Shutdown_releases [OF assms] by blast
  let ?s = "GlResources_reset\<lparr>gr_glfw_initialized := True\<rparr>" and ?w = "w1\<lparr>gw_glfw := True\<rparr>"
  have empty: "held ?s = {#}" "held (?s\<lparr>gr_window := True\<rparr>) = {#}"
    by (simp_all add: held_def GlResources_reset_def named_def)
  show ?thesis
  proof (cases "ga_glfw_init a \<and> ga_create_window a")
    case True
    have "gl_inv c g (?s\<lparr>gr_window := True\<rparr>) (?w\<lparr>gw_window := True\<rparr>)"
      using inv empty by (simp add: gl_inv_def)
    from initialize_context_inv [OF this, of a] show ?thesis
      using True shut empty
      by (simp add: Gl_Initialize_def loses_context_def loses_back_end_def reaches_imgui_def reached_def conj_assoc)
  next
    case False
    have "gl_inv c g ?s ?w" using inv empty by (simp add: gl_inv_def)
    then show ?thesis
      using fail_with_releases [of c g ?s ?w "''glfwCreateWindow failed for OpenGL 3.3 core profile''"] False shut inv
      by (auto simp: Gl_Initialize_def loses_context_def loses_back_end_def reaches_imgui_def)
  qed
qed

text \<open>Any number of lives of the renderer: each is initialised and shut down.\<close>

fun gl_lives :: "gl_answers list \<Rightarrow> GlResources \<Rightarrow> GlWorld \<Rightarrow> (GlResources \<times> GlWorld) option" where
  "gl_lives [] s w = Some (s, w)"
| "gl_lives (a # as) s w = do {
     (e, s, w) \<leftarrow> Gl_Initialize a s w;
     (s, w) \<leftarrow> Gl_Shutdown s w;
     gl_lives as s w }"

definition GlWorld_fresh :: GlWorld where
  "GlWorld_fresh =
     \<lparr>gw_glfw = False, gw_window = False, gw_objects = {#}, gw_next_name = 0, gw_imgui_context = 0,
      gw_imgui_glfw = 0, gw_imgui_opengl3 = 0\<rparr>"

lemma gl_lives_inv:
  "gl_inv c g GlResources_reset w \<Longrightarrow>
     \<exists>w'. gl_lives as GlResources_reset w = Some (GlResources_reset, w') \<and>
       gl_inv (c + length (filter loses_context as)) (g + length (filter loses_back_end as)) GlResources_reset w'"
proof (induction as arbitrary: c g w)
  case Nil
  then show ?case by simp
next
  case (Cons a as)
  obtain e s1 w1 where init: "Gl_Initialize a GlResources_reset w = Some (e, s1, w1)"
    and inv1: "gl_inv (c + of_bool (loses_context a)) (g + of_bool (loses_back_end a)) s1 w1"
    using Gl_Initialize_inv [OF Cons.prems] by blast
  obtain w2 where shut: "Gl_Shutdown s1 w1 = Some (GlResources_reset, w2)"
    and inv2: "gl_inv (c + of_bool (loses_context a)) (g + of_bool (loses_back_end a)) GlResources_reset w2"
    using Gl_Shutdown_releases [OF inv1] by blast
  show ?case
    using Cons.IH [OF inv2] init shut by (cases "loses_context a"; cases "loses_back_end a") simp_all
qed


subsection \<open>Keys\<close>

record KeyInput =
  ki_should_close :: bool
  ki_h :: bool
  ki_escape :: bool
  ki_q :: bool
  ki_space :: bool
  ki_f :: bool
  ki_s :: bool
  ki_r :: bool

record KeyState =
  ks_hud_visible :: bool
  ks_h_key_was_down :: bool
  ks_space_key_was_down :: bool
  ks_f_key_was_down :: bool
  ks_s_key_was_down :: bool
  ks_r_key_was_down :: bool

definition PollKey :: "KeyInput \<Rightarrow> KeyState \<Rightarrow> int \<times> KeyState" where
  "PollKey i k =
     (if ki_should_close i then (27, k)
      else
        let k = k\<lparr>ks_hud_visible := (if ki_h i \<and> \<not> ks_h_key_was_down k then \<not> ks_hud_visible k else ks_hud_visible k),
                  ks_h_key_was_down := ki_h i\<rparr> in
        if ki_escape i then (27, k) else if ki_q i then (113, k)
        else if ki_space i \<and> \<not> ks_space_key_was_down k then (32, k\<lparr>ks_space_key_was_down := ki_space i\<rparr>)
        else let k = k\<lparr>ks_space_key_was_down := ki_space i\<rparr> in
        if ki_f i \<and> \<not> ks_f_key_was_down k then (102, k\<lparr>ks_f_key_was_down := ki_f i\<rparr>)
        else let k = k\<lparr>ks_f_key_was_down := ki_f i\<rparr> in
        if ki_s i \<and> \<not> ks_s_key_was_down k then (115, k\<lparr>ks_s_key_was_down := ki_s i\<rparr>)
        else let k = k\<lparr>ks_s_key_was_down := ki_s i\<rparr> in
        if ki_r i \<and> \<not> ks_r_key_was_down k then (114, k\<lparr>ks_r_key_was_down := ki_r i\<rparr>)
        else let k = k\<lparr>ks_r_key_was_down := ki_r i\<rparr> in (- 1, k))"

fun poll_keys :: "KeyInput list \<Rightarrow> KeyState \<Rightarrow> int list" where
  "poll_keys [] k = []"
| "poll_keys (i # is) k = (case PollKey i k of (key, k') \<Rightarrow> key # poll_keys is k')"

lemma PollKey_space:
  assumes "PollKey i k = (key, k')" "ki_space i"
  shows "ks_space_key_was_down k \<Longrightarrow> key \<noteq> 32 \<and> ks_space_key_was_down k'"
    "key = 32 \<Longrightarrow> ks_space_key_was_down k'"
  using assms by (auto simp: PollKey_def Let_def split: if_splits)

lemma held_space_silent:
  "list_all ki_space is \<Longrightarrow> ks_space_key_was_down k \<Longrightarrow> 32 \<notin> set (poll_keys is k)"
proof (induction "is" arbitrary: k)
  case (Cons i "is")
  obtain key k' where p: "PollKey i k = (key, k')" by fastforce
  then show ?case using Cons PollKey_space(1) [OF p] by auto
qed simp

text \<open>However long the space bar is held, playback is paused or resumed once.\<close>

lemma held_space_once:
  "list_all ki_space is \<Longrightarrow> count_list (poll_keys is k) 32 \<le> 1"
proof (induction "is" arbitrary: k)
  case (Cons i "is")
  obtain key k' where p: "PollKey i k = (key, k')" by fastforce
  show ?case
  proof (cases "key = 32")
    case True
    then have "32 \<notin> set (poll_keys is k')"
      using Cons.prems PollKey_space(2) [OF p] held_space_silent by simp
    then show ?thesis using True p by (simp add: count_notin)
  next
    case False
    then show ?thesis using Cons p by auto
  qed
qed simp

subsection \<open>Planes\<close>

datatype NativeColorMode = kBgr_mode | kYuv420p_mode | kNv12_mode

fun ResolveNativeColorMode :: "DecodedPixelFormat \<Rightarrow> NativeColorMode \<times> bool" where
  "ResolveNativeColorMode kYuv420p = (kYuv420p_mode, True)"
| "ResolveNativeColorMode kNv12 = (kNv12_mode, True)"
| "ResolveNativeColorMode kUnknown_format = (kBgr_mode, False)"

definition SupportsNativeFrame :: "DecodedFrame \<Rightarrow> bool" where
  "SupportsNativeFrame f \<longleftrightarrow> \<not> DecodedFrame_empty f \<and> snd (ResolveNativeColorMode (df_pixel_format f))"

text \<open>The rows of a plane without their padding; reading beyond the plane is undefined (\<open>None\<close>).\<close>

definition read_row :: "bytes \<Rightarrow> nat \<Rightarrow> nat \<Rightarrow> bytes option" where
  "read_row data start n = (if start + n \<le> length data then Some (take n (drop start data)) else None)"

definition read_rows :: "bytes \<Rightarrow> nat \<Rightarrow> nat \<Rightarrow> nat \<Rightarrow> bytes option" where
  "read_rows data row_bytes stride height =
     map_option concat (those (map (\<lambda>row. read_row data (row * stride) row_bytes) [0..<height]))"

record PlaneTexture =
  pt_next_pixel_unpack_buffer_index :: nat
  pt_width :: int
  pt_height :: int
  pt_pixels :: bytes

text \<open>One plane: through the mapped buffer whose turn it is, or, when there is none, the mapping
  fails or the buffer is lost, directly from the memory of the decoder. \<open>rg\<close> is the two-channel
  format.\<close>

definition UploadPlaneTexture ::
  "bool \<Rightarrow> bool \<Rightarrow> nat list \<Rightarrow> bool \<Rightarrow> int \<Rightarrow> int \<Rightarrow> bytes option \<Rightarrow> int \<Rightarrow> PlaneTexture \<Rightarrow> PlaneTexture option" where
  "UploadPlaneTexture mapped unmapped pbo_ids rg width height data linesize t =
     (case data of
        None \<Rightarrow> Some t
      | Some data \<Rightarrow>
          if width \<le> 0 \<or> height \<le> 0 \<or> linesize \<le> 0 then Some t
          else do {
            let bytes_per_pixel = (if rg then 2 else 1);
            let packed_row_bytes = nat width * bytes_per_pixel;
            let pbo_index = pt_next_pixel_unpack_buffer_index t mod 2;
            packed \<leftarrow> (if pbo_ids ! pbo_index \<noteq> 0 \<and> packed_row_bytes * nat height > 0 \<and> mapped
                       then map_option Some (read_rows data packed_row_bytes (nat linesize) (nat height))
                       else Some None);
            pixels \<leftarrow> (case packed of
                Some pixels \<Rightarrow>
                  if unmapped then Some pixels
                  else read_rows data packed_row_bytes (nat linesize div bytes_per_pixel * bytes_per_pixel) (nat height)
              | None \<Rightarrow>
                  read_rows data packed_row_bytes (nat linesize div bytes_per_pixel * bytes_per_pixel) (nat height));
            Some \<lparr>pt_next_pixel_unpack_buffer_index = (pbo_index + 1) mod 2, pt_width = width, pt_height = height,
                  pt_pixels = pixels\<rparr> })"

definition chroma_size :: "int \<Rightarrow> int" where
  "chroma_size n = max 1 (n div 2)"

text \<open>The texture of plane \<open>i\<close> of a frame; \<open>memory i\<close> is what the pointer of the plane points at.\<close>

definition upload_plane ::
  "(nat \<Rightarrow> bool \<times> bool) \<Rightarrow> (nat \<Rightarrow> nat list) \<Rightarrow> (nat \<Rightarrow> bytes option) \<Rightarrow> DecodedFrame \<Rightarrow> bool \<Rightarrow> nat \<Rightarrow>
   PlaneTexture list \<Rightarrow> PlaneTexture list option" where
  "upload_plane answers pbo_ids memory f rg i ts =
     map_option (\<lambda>t. ts[i := t])
       (UploadPlaneTexture (fst (answers i)) (snd (answers i)) (pbo_ids i) rg
          (if i = 0 then df_width f else chroma_size (df_width f))
          (if i = 0 then df_height f else chroma_size (df_height f))
          (memory i) (df_linesize f ! i) (ts ! i))"

definition UploadFrameTextures ::
  "(nat \<Rightarrow> bool \<times> bool) \<Rightarrow> (nat \<Rightarrow> nat list) \<Rightarrow> (nat \<Rightarrow> bytes option) \<Rightarrow> DecodedFrame \<Rightarrow> NativeColorMode \<Rightarrow>
   PlaneTexture list \<Rightarrow> PlaneTexture list option" where
  "UploadFrameTextures answers pbo_ids memory f mode ts =
     (if mode = kYuv420p_mode then do {
        ts \<leftarrow> upload_plane answers pbo_ids memory f False 0 ts;
        ts \<leftarrow> upload_plane answers pbo_ids memory f False 1 ts;
        upload_plane answers pbo_ids memory f False 2 ts }
      else do {
        ts \<leftarrow> upload_plane answers pbo_ids memory f False 0 ts;
        upload_plane answers pbo_ids memory f True 1 ts })"

text \<open>The rows of the picture in a plane.\<close>

definition plane_rows :: "bytes \<Rightarrow> nat \<Rightarrow> nat \<Rightarrow> nat \<Rightarrow> bytes" where
  "plane_rows data row_bytes stride height = concat (map (\<lambda>row. take row_bytes (drop (row * stride) data)) [0..<height])"

lemma those_map_Some: "(\<And>x. x \<in> set xs \<Longrightarrow> f x = Some (g x)) \<Longrightarrow> those (map f xs) = Some (map g xs)"
  by (induction xs) auto

lemma read_rows_plane:
  assumes "row_bytes \<le> stride" "height * stride \<le> length data"
  shows "read_rows data row_bytes stride height = Some (plane_rows data row_bytes stride height)"
proof -
  have "read_row data (row * stride) row_bytes = Some (take row_bytes (drop (row * stride) data))"
    if "row \<in> set [0..<height]" for row
  proof -
    have "Suc row * stride \<le> height * stride" using that by (intro mult_le_mono1) simp
    then show ?thesis using assms by (simp add: read_row_def)
  qed
  then show ?thesis
    unfolding read_rows_def plane_rows_def by (subst those_map_Some) auto
qed

text \<open>C29: a plane whose rows lie within the decoder's memory is uploaded without reading beyond it, and
  the texture holds the rows without their padding, on either path: through the mapped buffer or, when
  that fails, directly. The two buffers take turns.\<close>

theorem UploadPlaneTexture_rows:
  assumes "0 < width" "0 < height" "bpp = (if rg then 2 else 1)" "nat width * bpp \<le> nat linesize"
    and "bpp dvd nat linesize" "nat height * nat linesize \<le> length data"
  shows "UploadPlaneTexture mapped unmapped pbo_ids rg width height (Some data) linesize t =
    Some \<lparr>pt_next_pixel_unpack_buffer_index = Suc (pt_next_pixel_unpack_buffer_index t) mod 2,
          pt_width = width, pt_height = height,
          pt_pixels = plane_rows data (nat width * bpp) (nat linesize) (nat height)\<rparr>"
proof -
  have "0 < nat width * bpp" using assms(1,3) by (auto split: if_splits)
  then have "\<not> linesize \<le> 0" using assms(4) by linarith
  then show ?thesis
    using assms read_rows_plane [OF assms(4,6)]
    by (auto simp: UploadPlaneTexture_def Let_def mod_Suc_eq)
qed

theorem UploadPlaneTexture_rows_witness:
  "UploadPlaneTexture True False [3, 4] True 1 2 (Some [1, 2, 0, 0, 3, 4, 0, 0]) 4
     \<lparr>pt_next_pixel_unpack_buffer_index = 1, pt_width = 0, pt_height = 0, pt_pixels = []\<rparr> =
   Some \<lparr>pt_next_pixel_unpack_buffer_index = 0, pt_width = 1, pt_height = 2, pt_pixels = [1, 2, 3, 4]\<rparr>"
  using UploadPlaneTexture_rows [of 1 2 2 True 4 "[1, 2, 0, 0, 3, 4, 0, 0]" True False "[3, 4]"
      "\<lparr>pt_next_pixel_unpack_buffer_index = 1, pt_width = 0, pt_height = 0, pt_pixels = []\<rparr>"]
  by (simp add: plane_rows_def upt_rec)

subsection \<open>The scale of the picture\<close>

definition letterbox :: "int \<Rightarrow> int \<Rightarrow> int \<Rightarrow> int \<Rightarrow> real \<times> real" where
  "letterbox framebuffer_width framebuffer_height width height =
     (let framebuffer_aspect = (if framebuffer_height > 0 then real_of_int framebuffer_width / real_of_int framebuffer_height else 1);
          image_aspect = (if height > 0 then real_of_int width / real_of_int height else 1)
      in if image_aspect > framebuffer_aspect then (1, framebuffer_aspect / image_aspect)
         else (image_aspect / framebuffer_aspect, 1))"

text \<open>the picture keeps its aspect ratio, fits the window and fills it in one direction.\<close>

theorem letterbox_keeps_aspect:
  assumes "0 < fw" "0 < fh" "0 < w" "0 < h" "letterbox fw fh w h = (x, y)"
  shows "0 < x \<and> x \<le> 1 \<and> 0 < y \<and> y \<le> 1 \<and> (x = 1 \<or> y = 1) \<and>
    x * real_of_int fw * real_of_int h = y * real_of_int fh * real_of_int w"
proof -
  define A B where "A = real_of_int fw / real_of_int fh" and "B = real_of_int w / real_of_int h"
  have pos: "0 < A" "0 < B" using assms by (simp_all add: A_def B_def)
  have same: "A * real_of_int fh = real_of_int fw" "B * real_of_int h = real_of_int w"
    using assms by (simp_all add: A_def B_def)
  have xy: "(x, y) = (if A < B then (1, A / B) else (B / A, 1))"
    unfolding A_def B_def assms(5) [symmetric] by (simp add: letterbox_def Let_def assms)
  show ?thesis
  proof (cases "A < B")
    case True
    then have "x = 1" "y * B = A" "0 < y" "y \<le> 1" using xy pos by auto
    then show ?thesis by (simp add: same [symmetric] ac_simps)
  next
    case False
    then have "y = 1" "x * A = B" "0 < x" "x \<le> 1" using xy pos by auto
    then show ?thesis by (simp add: same [symmetric] ac_simps)
  qed
qed

theorem letterbox_keeps_aspect_witness:
  "letterbox 800 800 640 480 = (1, 3 / 4) \<and> (1 :: real) * 800 * 480 = 3 / 4 * 800 * 640"
proof -
  have "letterbox 800 800 640 480 = (1, 3 / 4)" by (simp add: letterbox_def)
  from letterbox_keeps_aspect [OF _ _ _ _ this] this show ?thesis by simp
qed

text \<open>The displayed frame rate, smoothed over the intervals of the monotonic clock.\<close>

definition update_fps :: "u64 \<Rightarrow> u64 \<times> real \<Rightarrow> u64 \<times> real" where
  "update_fps now_ns state =
     (case state of (last_render_timestamp_ns, displayed_fps) \<Rightarrow>
        (now_ns,
         if last_render_timestamp_ns \<noteq> 0 \<and> last_render_timestamp_ns < now_ns then
           let instantaneous_fps = 1000000000 / real (unat (now_ns - last_render_timestamp_ns)) in
           if displayed_fps = 0 then instantaneous_fps
           else displayed_fps * (90 / 100) + instantaneous_fps * (10 / 100)
         else displayed_fps))"

subsection \<open>Screenshots\<close>

text \<open>OpenGL reads rows from the bottom; each is written at its place from the top.\<close>

definition write_at :: "nat \<Rightarrow> bytes \<Rightarrow> bytes \<Rightarrow> bytes" where
  "write_at start row pixels = take start pixels @ row @ drop (start + length row) pixels"

definition read_pixels :: "(nat \<Rightarrow> bytes) \<Rightarrow> nat \<Rightarrow> nat \<Rightarrow> bytes" where
  "read_pixels gl_row width height =
     (let row_bytes = width * 3 in
      fold (\<lambda>y. write_at ((height - 1 - y) * row_bytes) (gl_row y)) [0..<height] (replicate (row_bytes * height) 0))"

definition SaveScreenshot ::
  "bool \<Rightarrow> bool \<Rightarrow> int \<times> int \<Rightarrow> (nat \<Rightarrow> bytes) \<Rightarrow> (bytes \<Rightarrow> bool) \<Rightarrow> string \<Rightarrow> string + bytes" where
  "SaveScreenshot window has_rendered_frame framebuffer gl_row write_png path =
     (if \<not> window \<or> \<not> has_rendered_frame then Inl ''no frame available for screenshot''
      else if fst framebuffer \<le> 0 \<or> snd framebuffer \<le> 0 then Inl ''invalid framebuffer size for screenshot''
      else
        let pixels = read_pixels gl_row (nat (fst framebuffer)) (nat (snd framebuffer)) in
        if write_png pixels then Inr pixels else Inl (''failed to write screenshot: '' @ path))"

lemma read_pixels_upto:
  assumes "\<And>y. y < height \<Longrightarrow> length (gl_row y) = n" "k \<le> height"
  shows "fold (\<lambda>y. write_at ((height - 1 - y) * n) (gl_row y)) [0..<k] (replicate (n * height) 0) =
    replicate (n * (height - k)) 0 @ concat (map gl_row (rev [0..<k]))"
  using assms(2)
proof (induction k)
  case (Suc k)
  let ?rest = "concat (map gl_row (rev [0..<k]))"
  have split: "n * (height - k) = n * (height - Suc k) + n"
    using Suc.prems by (metis Suc_diff_Suc Suc_le_lessD mult_Suc_right add.commute)
  have start: "(height - 1 - k) * n = n * (height - Suc k)" by simp
  have "write_at ((height - 1 - k) * n) (gl_row k) (replicate (n * (height - k)) 0 @ ?rest) =
      replicate (n * (height - Suc k)) 0 @ gl_row k @ ?rest"
    unfolding start write_at_def using assms(1) [of k] Suc.prems
    by (simp add: split replicate_add)
  then show ?case using Suc by simp
qed simp

text \<open>A screenshot holds the rows of the window from the top to the bottom.\<close>

lemma read_pixels_flips:
  assumes "\<And>y. y < height \<Longrightarrow> length (gl_row y) = width * 3"
  shows "read_pixels gl_row width height = concat (map gl_row (rev [0..<height]))"
  using read_pixels_upto [OF assms, of height] by (simp add: read_pixels_def Let_def)

subsection \<open>The facade\<close>

record VideoRenderer =
  vr_requested_backend :: RenderBackend
  vr_active_backend :: RenderBackend
  vr_active_backend_name :: string
  vr_backend :: "GlResources option"

definition VideoRenderer_new :: VideoRenderer where
  "VideoRenderer_new =
     \<lparr>vr_requested_backend = kAuto_render, vr_active_backend = kOpenGl, vr_active_backend_name = ''opengl'',
      vr_backend = None\<rparr>"

definition VideoRenderer_Shutdown :: "VideoRenderer \<Rightarrow> GlWorld \<Rightarrow> (VideoRenderer \<times> GlWorld) option" where
  "VideoRenderer_Shutdown r w =
     (case vr_backend r of
        None \<Rightarrow> Some (VideoRenderer_new, w)
      | Some s \<Rightarrow> map_option (\<lambda>(s, w). (VideoRenderer_new, w)) (Gl_Shutdown s w))"

fun CreateVideoRendererBackend :: "RenderBackend \<Rightarrow> GlResources" where
  "CreateVideoRendererBackend kAuto_render = GlResources_reset"
| "CreateVideoRendererBackend kOpenGl = GlResources_reset"

text \<open>A back end that fails to initialise is destroyed, which shuts it down once more.\<close>

definition VideoRenderer_Initialize ::
  "gl_answers \<Rightarrow> RenderBackend \<Rightarrow> bool \<Rightarrow> VideoRenderer \<Rightarrow> GlWorld \<Rightarrow>
   ((string + string) \<times> VideoRenderer \<times> GlWorld) option" where
  "VideoRenderer_Initialize a requested enable_vsync r w = do {
     (r, w) \<leftarrow> VideoRenderer_Shutdown r w;
     let r = r\<lparr>vr_requested_backend := requested\<rparr>;
     (e, s, w) \<leftarrow> Gl_Initialize a (CreateVideoRendererBackend requested) w;
     case e of
       Some e \<Rightarrow> do {
         (s, w) \<leftarrow> Gl_Shutdown s w;
         Some (Inl e, r\<lparr>vr_backend := None\<rparr>, w) }
     | None \<Rightarrow>
         Some (Inr (''renderer=opengl(glfw+glad+imgui) vsync='' @ (if enable_vsync then ''on'' else ''off'')),
               r\<lparr>vr_backend := Some s, vr_active_backend := kOpenGl, vr_active_backend_name := ''opengl''\<rparr>, w) }"

definition VideoRenderer_SupportsNativeFrame :: "VideoRenderer \<Rightarrow> DecodedFrame \<Rightarrow> bool" where
  "VideoRenderer_SupportsNativeFrame r f \<longleftrightarrow> vr_backend r \<noteq> None \<and> SupportsNativeFrame f"

text \<open>Without a back end the renderer answers escape, which ends the client.\<close>

definition VideoRenderer_PollKey :: "KeyInput \<Rightarrow> VideoRenderer \<Rightarrow> KeyState \<Rightarrow> int \<times> KeyState" where
  "VideoRenderer_PollKey i r k = (if vr_backend r = None then (27, k) else PollKey i k)"

text \<open>The facade owns what its back end owns, and a refused start leaves it without one.\<close>

lemma VideoRenderer_Initialize_releases:
  assumes "vr_backend r = None" "gl_inv c g GlResources_reset w"
  shows "\<exists>x r' w'. VideoRenderer_Initialize a requested v r w = Some (x, r', w') \<and>
    gl_inv (c + of_bool (loses_context a)) (g + of_bool (loses_back_end a))
      (case vr_backend r' of None \<Rightarrow> GlResources_reset | Some s \<Rightarrow> s) w' \<and>
    (vr_backend r' = None \<longleftrightarrow> (\<exists>e. x = Inl e))"
proof -
  have new: "CreateVideoRendererBackend requested = GlResources_reset" by (cases requested) auto
  obtain e s1 w1 where init: "Gl_Initialize a GlResources_reset w = Some (e, s1, w1)"
    and inv: "gl_inv (c + of_bool (loses_context a)) (g + of_bool (loses_back_end a)) s1 w1"
    using Gl_Initialize_inv [OF assms(2)] by blast
  show ?thesis
  proof (cases e)
    case None
    then show ?thesis using init inv assms(1)
      by (simp add: VideoRenderer_Initialize_def VideoRenderer_Shutdown_def VideoRenderer_new_def new Let_def)
  next
    case (Some e')
    obtain w2 where "Gl_Shutdown s1 w1 = Some (GlResources_reset, w2)"
      "gl_inv (c + of_bool (loses_context a)) (g + of_bool (loses_back_end a)) GlResources_reset w2"
      using Gl_Shutdown_releases [OF inv] by blast
    then show ?thesis using Some init assms(1)
      by (simp add: VideoRenderer_Initialize_def VideoRenderer_Shutdown_def VideoRenderer_new_def new Let_def)
  qed
qed

end
