(* ===== verification/Logging.thy ===== *)
theory Logging
  imports Text_Format
begin

section \<open>The two loggers\<close>

text \<open>
  \<^verbatim>\<open>sserver/src/common/log/Logger.cpp\<close> and \<^verbatim>\<open>sclient/src/common/log/Logger.cpp\<close>. The function-local
  statics are the record \<open>Logger\<close>; the two consoles and the file are the lists of the lines written
  to them. What the operating system answers (the paths, the time in its two formats, whether a directory
  or a file can be opened) is the record \<open>log_environment\<close>. \<open>Log\<close> holds the mutex while it
  writes, so a call is one function of the state. The two programs differ in the directory and in two
  texts, collected in \<open>log_variant\<close>.
\<close>

datatype LogLevel = kDebug_level | kInfo_level | kWarn_level | kError_level

fun ToString_level :: "LogLevel \<Rightarrow> string" where
  "ToString_level kDebug_level = ''DEBUG''"
| "ToString_level kInfo_level = ''INFO''"
| "ToString_level kWarn_level = ''WARN''"
| "ToString_level kError_level = ''ERROR''"

record log_environment =
  le_executable :: "string option"
  le_cwd :: "string option"
  le_mkdir :: "string \<Rightarrow> bool"
  le_open :: "string \<Rightarrow> bool"
  le_time :: string
  le_file_stamp :: string
  le_pid :: int

record Logger =
  lg_verbose :: bool
  lg_initialized :: bool
  lg_warning_printed :: bool
  lg_file_open :: bool
  lg_file_path :: string
  lg_stdout :: "string list"
  lg_stderr :: "string list"
  lg_file :: "string list"

definition Logger_new :: Logger where
  "Logger_new = \<lparr>lg_verbose = True, lg_initialized = False, lg_warning_printed = False, lg_file_open = False,
     lg_file_path = '''', lg_stdout = [], lg_stderr = [], lg_file = []\<rparr>"

subsection \<open>Paths\<close>

text \<open>\<^verbatim>\<open>find_last_of('/')\<close>.\<close>

definition slash :: char where "slash = CHR 0x2F"

definition last_slash :: "string \<Rightarrow> nat option" where
  "last_slash path =
     (if slash \<in> set path then Some (length path - 1 - length (takeWhile (\<lambda>c. c \<noteq> slash) (rev path))) else None)"

definition ExecutableBaseName :: "string \<Rightarrow> log_environment \<Rightarrow> string" where
  "ExecutableBaseName fallback env =
     (case le_executable env of
        None \<Rightarrow> fallback
      | Some full_path \<Rightarrow>
          (case last_slash full_path of
             None \<Rightarrow> full_path
           | Some i \<Rightarrow> if length full_path \<le> i + 1 then full_path else drop (i + 1) full_path))"

definition ExecutablePath :: "log_environment \<Rightarrow> string" where
  "ExecutablePath env = (case le_executable env of None \<Rightarrow> '''' | Some path \<Rightarrow> path)"

definition ParentDirectory :: "string \<Rightarrow> string" where
  "ParentDirectory path =
     (case last_slash path of None \<Rightarrow> '''' | Some i \<Rightarrow> if i = 0 then [slash] else take i path)"

definition BaseName :: "string \<Rightarrow> string" where
  "BaseName path =
     (case last_slash path of None \<Rightarrow> path | Some i \<Rightarrow> if length path \<le> i + 1 then '''' else drop (i + 1) path)"

definition ResolveLogDirectory :: "log_environment \<Rightarrow> string" where
  "ResolveLogDirectory env =
     (let executable_path = ExecutablePath env; executable_dir = ParentDirectory executable_path in
      if executable_path \<noteq> '''' \<and> executable_dir \<noteq> '''' \<and> BaseName executable_dir = ''build''
         \<and> ParentDirectory executable_dir \<noteq> ''''
      then ParentDirectory executable_dir @ ''/logs'' else ''logs'')"

definition LogsDirectoryPath :: "log_environment \<Rightarrow> string" where
  "LogsDirectoryPath env = (case le_cwd env of Some cwd \<Rightarrow> cwd @ ''/logs'' | None \<Rightarrow> ''logs'')"

subsection \<open>The log file\<close>

record log_variant =
  lv_directory :: "log_environment \<Rightarrow> string"
  lv_name :: string
  lv_directory_warning :: "string \<Rightarrow> string"

definition server_log :: log_variant where
  "server_log = \<lparr>lv_directory = ResolveLogDirectory, lv_name = ''stream_server'',
     lv_directory_warning = (\<lambda>d. ''failed to create logs directory '' @ [CHR 0x27] @ d @ [CHR 0x27] @ ''; file logging disabled'')\<rparr>"

definition client_log :: log_variant where
  "client_log = \<lparr>lv_directory = LogsDirectoryPath, lv_name = ''sclient'',
     lv_directory_warning = (\<lambda>d. ''failed to create logs directory; file logging disabled'')\<rparr>"

definition EnsureLogDirectory :: "log_environment \<Rightarrow> string \<Rightarrow> bool" where
  "EnsureLogDirectory env log_directory \<longleftrightarrow> log_directory \<noteq> '''' \<and> le_mkdir env log_directory"

definition warn_once :: "string \<Rightarrow> Logger \<Rightarrow> Logger" where
  "warn_once message l =
     (if lg_warning_printed l then l
      else l\<lparr>lg_stderr := lg_stderr l @ [message], lg_warning_printed := True\<rparr>)"

definition log_file_name :: "log_variant \<Rightarrow> log_environment \<Rightarrow> string" where
  "log_file_name v env =
     lv_directory v env @ ''/'' @ ExecutableBaseName (lv_name v) env @ ''_'' @ le_file_stamp env @ ''_''
       @ dec_int (le_pid env) @ ''.log''"

definition EnsureLogFileInitialized :: "log_variant \<Rightarrow> log_environment \<Rightarrow> Logger \<Rightarrow> Logger" where
  "EnsureLogFileInitialized v env l =
     (if lg_initialized l then l
      else
        let l = l\<lparr>lg_initialized := True\<rparr> in
        if \<not> EnsureLogDirectory env (lv_directory v env) then warn_once (lv_directory_warning v (lv_directory v env)) l
        else
          let path = log_file_name v env; l = l\<lparr>lg_file_path := path, lg_file_open := le_open env path\<rparr> in
          if lg_file_open l then l
          else (warn_once (''failed to open log file '' @ [CHR 0x27] @ path @ [CHR 0x27] @ ''; file logging disabled'') l)
                 \<lparr>lg_file_path := ''''\<rparr>)"

definition SetVerbose :: "bool \<Rightarrow> Logger \<Rightarrow> Logger" where
  "SetVerbose verbose l = l\<lparr>lg_verbose := verbose\<rparr>"

definition CurrentLogFilePath :: "log_variant \<Rightarrow> log_environment \<Rightarrow> Logger \<Rightarrow> Logger \<times> string" where
  "CurrentLogFilePath v env l = (let l = EnsureLogFileInitialized v env l in (l, lg_file_path l))"

subsection \<open>Log\<close>

definition FormatPrefix :: "log_environment \<Rightarrow> LogLevel \<Rightarrow> string" where
  "FormatPrefix env level = le_time env @ '' ['' @ ToString_level level @ ''] ''"

definition find_newline :: "string \<Rightarrow> nat \<Rightarrow> nat option" where
  "find_newline message start =
     (if newline \<in> set (drop start message)
      then Some (start + length (takeWhile (\<lambda>c. c \<noteq> newline) (drop start message))) else None)"

definition write_line :: "LogLevel \<Rightarrow> string \<Rightarrow> Logger \<Rightarrow> Logger" where
  "write_line level line l =
     (let l = (if level = kError_level then l\<lparr>lg_stderr := lg_stderr l @ [line]\<rparr>
               else l\<lparr>lg_stdout := lg_stdout l @ [line]\<rparr>)
      in if lg_file_open l then l\<lparr>lg_file := lg_file l @ [line]\<rparr> else l)"

lemma find_newline_bounds: "find_newline message start = Some i \<Longrightarrow> start \<le> i \<and> i < length message"
proof -
  let ?n = "length (takeWhile (\<lambda>c. c \<noteq> newline) (drop start message))"
  assume a: "find_newline message start = Some i"
  then have "newline \<in> set (drop start message)" "i = start + ?n"
    by (auto simp: find_newline_def split: if_splits)
  moreover have "?n < length (drop start message)" if "newline \<in> set (drop start message)"
  proof -
    have "takeWhile (\<lambda>c. c \<noteq> newline) (drop start message) \<noteq> drop start message"
      using that by (auto simp: takeWhile_eq_all_conv)
    then show ?thesis
      by (metis length_takeWhile_le nat_less_le takeWhile_eq_take take_all_iff)
  qed
  ultimately show ?thesis by simp
qed

function log_loop :: "LogLevel \<Rightarrow> string \<Rightarrow> string \<Rightarrow> nat \<Rightarrow> Logger \<Rightarrow> Logger" where
  "log_loop level prefix message start l =
     (if start \<le> length message then
        (case find_newline message start of
           None \<Rightarrow> write_line level (prefix @ drop start message) l
         | Some i \<Rightarrow>
             log_loop level prefix message (i + 1)
               (write_line level (prefix @ take (i - start) (drop start message)) l))
      else l)"
  by pat_completeness auto
termination
  by (relation "measure (\<lambda>(_, _, message, start, _). length message + 1 - start)")
     (auto dest: find_newline_bounds)

declare log_loop.simps [simp del]

definition Log :: "log_variant \<Rightarrow> log_environment \<Rightarrow> LogLevel \<Rightarrow> string \<Rightarrow> Logger \<Rightarrow> Logger" where
  "Log v env level message l =
     (if level = kDebug_level \<and> \<not> lg_verbose l then l
      else log_loop level (FormatPrefix env level) message 0 (EnsureLogFileInitialized v env l))"

subsection \<open>What is written\<close>

text \<open>Reference: the text between the newlines.\<close>

fun split_newlines :: "string \<Rightarrow> string list" where
  "split_newlines [] = [[]]"
| "split_newlines (c # cs) =
     (if c = newline then [] # split_newlines cs
      else case split_newlines cs of [] \<Rightarrow> [[c]] | line # rest \<Rightarrow> (c # line) # rest)"

lemma split_newlines_ne: "split_newlines s \<noteq> []"
  by (cases s) (auto split: list.splits)

lemma split_newlines_append:
  "newline \<notin> set xs \<Longrightarrow> split_newlines (xs @ newline # ys) = xs # split_newlines ys"
  by (induction xs) auto

lemma split_newlines_single: "newline \<notin> set xs \<Longrightarrow> split_newlines xs = [xs]"
  by (induction xs) auto

definition joined :: "string list \<Rightarrow> string" where
  "joined lines = concat (map (\<lambda>line. line @ [newline]) (butlast lines)) @ last lines"

lemma joined_split_newlines: "joined (split_newlines s) = s"
proof (induction s)
  case (Cons c cs)
  obtain line rest where "split_newlines cs = line # rest"
    using split_newlines_ne [of cs] by (cases "split_newlines cs") auto
  then show ?case using Cons by (auto simp: joined_def)
qed (simp add: joined_def)

definition write_lines :: "LogLevel \<Rightarrow> string \<Rightarrow> string list \<Rightarrow> Logger \<Rightarrow> Logger" where
  "write_lines level prefix lines l = fold (\<lambda>line. write_line level (prefix @ line)) lines l"

lemma log_loop_lines:
  "start \<le> length message \<Longrightarrow>
     log_loop level prefix message start l = write_lines level prefix (split_newlines (drop start message)) l"
proof (induction level prefix message start l rule: log_loop.induct)
  case (1 level prefix message start l)
  show ?case
  proof (cases "find_newline message start")
    case None
    then have "newline \<notin> set (drop start message)" by (auto simp: find_newline_def split: if_splits)
    then show ?thesis
      using 1 None split_newlines_single by (subst log_loop.simps) (simp add: write_lines_def)
  next
    case (Some i)
    let ?line = "takeWhile (\<lambda>c. c \<noteq> newline) (drop start message)"
    have bounds: "start \<le> i" "i < length message" using find_newline_bounds [OF Some] by auto
    have i: "i = start + length ?line" and mem: "newline \<in> set (drop start message)"
      using Some by (auto simp: find_newline_def split: if_splits)
    have line: "take (i - start) (drop start message) = ?line"
      unfolding i using takeWhile_eq_take [of "\<lambda>c. c \<noteq> newline" "drop start message", symmetric] by simp
    have "hd (dropWhile (\<lambda>c. c \<noteq> newline) (drop start message)) = newline"
      using hd_dropWhile [of "\<lambda>c. c \<noteq> newline" "drop start message"] mem by (auto simp: dropWhile_eq_Nil_conv)
    moreover have "dropWhile (\<lambda>c. c \<noteq> newline) (drop start message) = drop i message"
      using i by (simp add: dropWhile_eq_drop add.commute)
    ultimately have parts: "drop start message = ?line @ newline # drop (i + 1) message"
      using bounds Cons_nth_drop_Suc [of i message] hd_drop_conv_nth [of i message]
        takeWhile_dropWhile_id [of "\<lambda>c. c \<noteq> newline" "drop start message"] by simp
    have "newline \<notin> set ?line" by (auto dest: set_takeWhileD)
    from split_newlines_append [OF this, of "drop (i + 1) message"]
    have split: "split_newlines (drop start message) = ?line # split_newlines (drop (i + 1) message)"
      by (simp only: parts [symmetric])
    show ?thesis
      using "1.IH" [OF "1.prems" Some] bounds "1.prems" Some line split
      by (subst log_loop.simps) (simp add: write_lines_def)
  qed
qed

definition console :: "LogLevel \<Rightarrow> Logger \<Rightarrow> string list" where
  "console level l = (if level = kError_level then lg_stderr l else lg_stdout l)"

lemma write_lines_output:
  "console level (write_lines level prefix lines l) = console level l @ map ((@) prefix) lines"
  "lg_file (write_lines level prefix lines l) =
     lg_file l @ (if lg_file_open l then map ((@) prefix) lines else [])"
  "lg_file_open (write_lines level prefix lines l) = lg_file_open l"
  by (induction lines arbitrary: l) (auto simp: write_lines_def write_line_def console_def Let_def)

text \<open>a message that is not suppressed is written in full: its lines, each with time and level in
  front, go to the console of its level and, when the log file is open, to the file, and joined by
  newlines they are the message.\<close>

theorem Log_writes_message:
  assumes "level \<noteq> kDebug_level \<or> lg_verbose l" "l' = Log v env level message l" "l0 = EnsureLogFileInitialized v env l"
  shows "\<exists>lines. joined lines = message \<and>
    console level l' = console level l0 @ map ((@) (FormatPrefix env level)) lines \<and>
    lg_file l' = lg_file l0 @ (if lg_file_open l0 then map ((@) (FormatPrefix env level)) lines else [])"
proof -
  have "l' = write_lines level (FormatPrefix env level) (split_newlines message) l0"
    using assms log_loop_lines [of 0 message level "FormatPrefix env level" l0] by (auto simp: Log_def)
  then show ?thesis
    using joined_split_newlines [of message] write_lines_output [of level _ _ l0] by blast
qed

text \<open>The file is opened once: no later call changes its path, whatever the surroundings answer then.\<close>

lemma initialized_once:
  "EnsureLogFileInitialized v env2 (EnsureLogFileInitialized v env1 l) = EnsureLogFileInitialized v env1 l"
  by (auto simp: EnsureLogFileInitialized_def warn_once_def Let_def)

text \<open>A path with a slash inside is its directory, a slash, and its base name.\<close>

lemma last_slash_split:
  assumes "last_slash path = Some i"
  shows "i < length path \<and> path = take i path @ slash # drop (i + 1) path"
proof -
  have "slash \<in> set path" using assms by (auto simp: last_slash_def split: if_splits)
  then obtain ys zs where "path = ys @ slash # zs" "slash \<notin> set zs" by (metis split_list_last)
  moreover from this have "takeWhile (\<lambda>c. c \<noteq> slash) (rev path) = rev zs"
    by (simp add: takeWhile_tail) (auto simp: takeWhile_eq_all_conv)
  ultimately show ?thesis using assms by (auto simp: last_slash_def)
qed

lemma path_parts:
  "last_slash path = Some (Suc i) \<Longrightarrow> ParentDirectory path @ [slash] @ BaseName path = path"
  using last_slash_split [of path "Suc i"]
  by (cases "length path \<le> Suc i + 1") (auto simp: ParentDirectory_def BaseName_def)

end
