(* ===== verification/Spec2Isabelle.thy ===== *)
theory Spec2Isabelle
  imports Udp_Link Tcp_Link Stream_Connection Rtp_Link Server_App Client_Pipeline Gl_Renderer Logging
begin

text \<open>
  A verification library of the low-latency video streaming server \<^verbatim>\<open>src/sserver\<close> and its client
  \<^verbatim>\<open>src/sclient\<close>.

  \<^bold>\<open>The program.\<close> The server takes pictures from a camera (V4L2) or a synthetic source, encodes them with
  x264 and broadcasts each encoded frame over one of three transports: TCP (one session with a bounded queue
  per client), UDP (fragments with XOR parity, a retransmission cache and NACK requests) or RTP (packets of
  RFC 6184, spread over a short window, described by an SDP file). The client receives frames over the same
  transport, orders UDP and RTP frames in a playout buffer that adapts to the jitter, decodes them with FFmpeg
  and shows them with OpenGL. The path of a frame is: capture thread, raw queue, encoder thread,
  \<^verbatim>\<open>FrameHandler\<close>, \<^verbatim>\<open>Transport::Broadcast\<close>, network, \<^verbatim>\<open>StreamClient::ReceiveFrame\<close>, receive
  queue, decode thread, decode queue, renderer.

  \<^bold>\<open>Conventions.\<close> A struct or class is a record whose fields have a two-letter prefix, an enumeration a
  datatype, an operation a function from the state to the state and its results. Integers whose overflow can
  matter (sequence numbers, time stamps, counters, sizes on the wire) are words of their width; \<^verbatim>\<open>int\<close> of the
  configuration is \<open>int\<close>, \<^verbatim>\<open>size_t\<close> is \<open>nat\<close>, \<^verbatim>\<open>double\<close> is \<open>real\<close>. An error message is the left side of
  a sum or a value of an option; undefined behaviour (a store outside a buffer, a release of something that is
  not held) is \<open>None\<close>, and the theorems show when it does not occur. What lies outside the repository
  (sockets, clock, V4L2, x264, FFmpeg, OpenGL, \<^verbatim>\<open>inet_pton\<close>, \<^verbatim>\<open>strtod\<close>, the file system) is an argument:
  a list or a function of the answers the calls give, and a log of what was handed to them. Log output is not
  part of the operations; the loggers themselves are the theory \<open>Logging\<close>.

  \<^bold>\<open>Threads.\<close> An operation that holds its mutex from the first to the last access is one step. Where a handler
  is not atomic it is cut at its accesses to shared state, and the interleavings are a step relation:
  \<open>session_run\<close> (TCP session: encoder, send, receive and stopping thread), \<open>cm_step\<close> (capture
  module: two pumps, the main thread), \<open>actor_step\<close> (client: receive, decode and main thread, signal).
  A call that blocks is a thread without a step, so theorems about ends say that some step is possible and
  that every step decreases a rank.

  \<^bold>\<open>Foundations.\<close> \<open>AV_Prelude\<close>: types, byte buffers, little-endian images, the fact collections
  \<open>av_defs\<close> and \<open>codec\<close>. \<open>Ordered_Map\<close>: \<^verbatim>\<open>std::map\<close> with the locale \<open>ordered_map\<close>. \<open>Queues\<close>:
  \<^verbatim>\<open>ThreadSafeQueue.h\<close> and \<^verbatim>\<open>BoundedQueue.h\<close> with the locale \<open>drop_oldest_queue\<close>, interpreted on
  both (bounded, first in first out, keeps the newest). \<open>Sockets\<close>: results of socket calls. \<open>Text_Format\<close>:
  numbers, blanks, lines. \<open>Frames\<close>: \<^verbatim>\<open>EncodedFrame.h\<close>. \<open>Latency\<close>: \<^verbatim>\<open>LatencyStats.h\<close> and
  \<^verbatim>\<open>LatencyRecorder.cpp\<close> (the ring is a window of the last samples; summaries are ordered).
  \<open>Logging\<close>: both \<^verbatim>\<open>Logger.cpp\<close> (a message is written in full, the file is opened once).

  \<^bold>\<open>Wire formats.\<close> \<open>Stream_Protocol\<close>: the packed structs of \<^verbatim>\<open>StreamProtocol.h\<close> and
  \<^verbatim>\<open>Protocol.h\<close>, with the locale \<open>packed_struct\<close> interpreted on each (length, round trip).
  \<open>Rtp_Protocol\<close>: \<^verbatim>\<open>RtpProtocol.h\<close>. \<open>Annex_B\<close>: \<^verbatim>\<open>H264AnnexB.h\<close>. \<open>Xor_Parity\<close>: \<^verbatim>\<open>XorInto\<close>.

  \<^bold>\<open>Server.\<close> \<open>Server_Config\<close>, \<open>Config_Loader\<close>, \<open>Config_Loader_Correct\<close>, \<open>Config_Safety\<close>:
  \<^verbatim>\<open>AppConfig.h\<close> and \<^verbatim>\<open>AppConfig.cpp\<close>; a file with every key loads exactly that configuration, and
  a loaded configuration satisfies what the senders need. \<open>Yuv_Convert\<close>, \<open>Video_Encoder\<close>: the
  colour conversion (the vectorised and the scalar loop agree) and the x264 back end with its facade.
  \<open>Null_Capture\<close>, \<open>V4l2_Capture\<close>, \<open>Capture_Facade\<close>: the two devices behind \<^verbatim>\<open>ICaptureDevice\<close>
  (locale \<open>device_contract\<close>). \<open>Capture_Module\<close>: the capture threads. \<open>Udp_Sender\<close>,
  \<open>Udp_Sender_Correct\<close>: \<^verbatim>\<open>UdpStreamingBackend.cpp\<close>. \<open>Tcp_Session\<close>, \<open>Tcp_Session_Correct\<close>,
  \<open>Tcp_Backend\<close>: \<^verbatim>\<open>TcpClientSession.cpp\<close>, \<^verbatim>\<open>TcpStreamingBackend.cpp\<close>. \<open>Rtp_Packetizer\<close>,
  \<open>Rtp_Backend\<close>: \<^verbatim>\<open>RtpPacketizer.cpp\<close>, \<^verbatim>\<open>RtpStreamingBackend.cpp\<close>. \<open>Transport_Facade\<close>:
  \<^verbatim>\<open>Transport.cpp\<close> over \<^verbatim>\<open>ITransportBackend\<close> (locale \<open>backend_contract\<close>, interpreted on the three
  back ends). \<open>Application\<close>: \<^verbatim>\<open>Application.cpp\<close> over \<^verbatim>\<open>IModule\<close> (locale \<open>module_contract\<close>).
  \<open>Server_App\<close>: \<^verbatim>\<open>AppBootstrap.cpp\<close> and \<^verbatim>\<open>main.cpp\<close> with the transport and the capture module
  registered, an interpretation of \<open>module_contract\<close>.

  \<^bold>\<open>Client.\<close> \<open>Stream_Client\<close>, \<open>Stream_Connection\<close>: \<^verbatim>\<open>StreamClient.h\<close>, \<^verbatim>\<open>StreamClient.cpp\<close>.
  \<open>Udp_Receiver\<close>, \<open>Udp_Assembly\<close>: \<^verbatim>\<open>StreamClientUdp.cpp\<close>, with the locale
  \<open>assembly_contract\<close> (what holds of every assembly and of every frame handed out).
  \<open>Jitter_Buffer\<close>, \<open>Adaptive_Jitter\<close>: the playout buffer and \<^verbatim>\<open>AdaptiveJitterBuffer.h\<close>.
  \<open>Rtp_Receiver\<close>, \<open>Tcp_Receiver\<close>: \<^verbatim>\<open>StreamClientRtp.cpp\<close>, \<^verbatim>\<open>StreamClientTcp.cpp\<close>.
  \<open>Session_Description\<close>, \<open>Client_Options\<close>: the SDP parser and the command line.
  \<open>Video_Decoding\<close>: the decoder and its facade. \<open>Playback_Stats\<close>, \<open>Client_Pipeline\<close>: the
  threads of \<^verbatim>\<open>main.cpp\<close>. \<open>Gl_Renderer\<close>: the resources, the keys and the pixels of the OpenGL
  renderer, and its facade.

  \<^bold>\<open>End to end.\<close> \<open>Udp_Link\<close>: whatever the network loses, repeats or reorders, every frame the client hands
  out is a frame the server broadcast; any one lost fragment is rebuilt; a NACK is answered with the datagrams
  first sent. \<open>Tcp_Link\<close>: a client that reads what a session wrote, cut in any way, gets frames of the
  server in order. \<open>Rtp_Link\<close>: a server started with a loaded configuration and a client configured from
  the SDP file of the server exchange a frame exactly. \<open>Server_App\<close>: whatever is done to the server, the
  surroundings answer and the scheduler chooses, resources are held only while it is started.
  \<open>Client_Pipeline\<close>: frames are shown in the order they were received, and without a signal the client
  always ends.

  \<^bold>\<open>Groups of lemmas.\<close> Each component theory has, in this order: the records and operations in the order of
  the source; the invariant and that every operation keeps it; the behaviour of each operation on its
  branches; the refinement of a specification where there is one (\<open>frame_datagrams\<close> for the UDP
  sender, the reference packets of the packetizer, \<open>frame_wire\<close> for TCP, the I420 image for the
  conversion, the last samples for the ring buffer, \<open>split_newlines\<close> for the log); and the properties.
  Theories whose name ends in \<open>_Correct\<close>, and the links, hold only the latter.

  \<^bold>\<open>Bounds and recursion.\<close> There is no fuel. Loops over data are recursive on the data or on a measure; loops
  over a socket or a driver recurse on the list of its answers, and running out of answers is a call that
  blocks. The one loop whose length only a library decides, over \<^verbatim>\<open>avcodec_receive_frame\<close>, is a
  partial function, and its theorem assumes the documented behaviour that a packet yields finitely many frames.
  The 9 steps of \<open>stop_terminates\<close> and the 13 of \<open>shutdown_completes\<close> are the ranks of the program
  counters at which the threads can be when they are stopped.

  \<^bold>\<open>Not modelled.\<close> The HUD (\<^verbatim>\<open>OpenGlVideoRendererHud.cpp\<close>), the shader sources and the drawing calls:
  pure output that nothing reads back. The textual form of statistics (\<^verbatim>\<open>Format\<close>, the log lines of
  \<^verbatim>\<open>main.cpp\<close>). Rounding of \<^verbatim>\<open>double\<close> and \<^verbatim>\<open>float\<close>. Data races on plain variables shared without a
  lock (\<^verbatim>\<open>cached_frame_info\<close> and the descriptor of the client's socket): accesses are taken as atomic.
  Tests, benchmarks, scripts and third-party code.
\<close>

end
